(* ===== verification/Prelude.thy ===== *)
theory Prelude
  imports Complex_Main "HOL-Library.Product_Lexorder" "HOL-Library.List_Lexorder" "HOL-Library.Char_ord"
    "HOL-Library.Sublist" "HOL-Library.Multiset"
begin

text \<open>
  Shared vocabulary of the development: the names of the base types (instants, identifiers,
  money), the Python exceptions the modelled code raises, the relational operations the SQL
  statements of the program use (\<open>select ... where\<close>, \<open>update ... where\<close>,
  \<open>order by ... limit 1\<close>), and the generic lemmas about them that the component theories
  share.  The theory models no file of the program by itself.
\<close>

section \<open>Base types\<close>

text \<open>Instants and durations are counted in microseconds, the resolution of a
  \<open>timestamptz\<close>.  A UUID is its textual form.  Money (Python's \<open>Decimal\<close>, SQL's
  \<open>numeric\<close>) is an exact rational.\<close>

type_synonym timestamp = int
type_synonym uuid = string
type_synonym usd = rat

abbreviation seconds :: "int \<Rightarrow> timestamp" where
  "seconds n \<equiv> n * 1000000"

abbreviation minutes :: "int \<Rightarrow> timestamp" where
  "minutes n \<equiv> seconds (60 * n)"

text \<open>The exceptions that the modelled functions raise or let through; \<open>Exception_Of\<close> names a class that
  no modelled handler distinguishes from others.\<close>

datatype py_exn =
    KeyError
  | TypeError
  | ValueError
  | OverflowError
  | ArithmeticError
  | UnicodeEncodeError
  | RuntimeError
  | AssertionError
  | TransportError
  | UniqueViolation
  | CheckViolation
  | ForeignKeyViolation
  | DataError
  | DatatypeMismatch
  | JobProtocolDenied
  | InstallationTokenDenied
  | HTTPException nat string
  | BudgetDenied string
  | RetryDeadlineExceeded
  | TimeoutError
  | LocalStoreCorrupted
  | HTTPStatusError nat
  | CloneTimeout
  | CloneSizeLimit
  | UnsafeRepositoryPath
  | CalledProcessError
  | PermissionDenied
  | RunnerRevoked
  | HttpTimeout
  | StalePullRequestHead
  | RestrictedContentRefused
  | ChannelIsolationError
  | SpecialistTimeout
  | CommandTimeoutError
  | ConnectError
  | CircuitOpen
  | Exception_Of string

type_synonym 'a result = "py_exn + 'a"

text \<open>Sequencing of computations that may raise.\<close>

definition bind_r :: "'a result \<Rightarrow> ('a \<Rightarrow> 'b result) \<Rightarrow> 'b result" where
  "bind_r m f = (case m of Inl e \<Rightarrow> Inl e | Inr x \<Rightarrow> f x)"

lemma bind_r_simps [simp]: "bind_r (Inl e) f = Inl e" "bind_r (Inr x) f = f x"
  by (simp_all add: bind_r_def)

lemma bind_r_Inr: "bind_r m f = Inr y \<longleftrightarrow> (\<exists>x. m = Inr x \<and> f x = Inr y)"
  by (cases m) auto

lemma bind_r_Inl: "bind_r m f = Inl e \<longleftrightarrow> m = Inl e \<or> (\<exists>x. m = Inr x \<and> f x = Inl e)"
  by (cases m) auto

text \<open>The ranges of the SQL types \<open>integer\<close> and \<open>bigint\<close>.\<close>

definition in_integer :: "int \<Rightarrow> bool" where
  "in_integer i \<longleftrightarrow> - (2 ^ 31) \<le> i \<and> i < 2 ^ 31"

definition in_bigint :: "int \<Rightarrow> bool" where
  "in_bigint i \<longleftrightarrow> - (2 ^ 63) \<le> i \<and> i < 2 ^ 63"

section \<open>Collections of facts\<close>

named_theorems table_simps \<open>rewriting of the relational operations\<close>
named_theorems frame_simps \<open>what an operation leaves unchanged\<close>

section \<open>Relational operations\<close>

text \<open>A table is the list of its rows.  \<open>update_where p f\<close> is
  \<^verbatim>\<open>update t set f where p\<close>, \<open>rowcount p\<close> the number of rows the statement touched,
  \<open>fetchone p\<close> the first row of \<^verbatim>\<open>select * from t where p\<close>.\<close>

definition update_where :: "('r \<Rightarrow> bool) \<Rightarrow> ('r \<Rightarrow> 'r) \<Rightarrow> 'r list \<Rightarrow> 'r list" where
  "update_where p f rows = map (\<lambda>r. if p r then f r else r) rows"

definition rowcount :: "('r \<Rightarrow> bool) \<Rightarrow> 'r list \<Rightarrow> nat" where
  "rowcount p rows = length (filter p rows)"

definition fetchone :: "('r \<Rightarrow> bool) \<Rightarrow> 'r list \<Rightarrow> 'r option" where
  "fetchone p rows = List.find p rows"

text \<open>\<open>first_by k\<close> is \<^verbatim>\<open>order by k asc limit 1\<close>: a row with the least key, the earliest
  one of the table where several have it.\<close>

fun first_by :: "('r \<Rightarrow> 'k::linorder) \<Rightarrow> 'r list \<Rightarrow> 'r option" where
  "first_by k [] = None"
| "first_by k (r # rs) =
     (case first_by k rs of
        None \<Rightarrow> Some r
      | Some m \<Rightarrow> if k r \<le> k m then Some r else Some m)"

lemma update_where_simps [table_simps, simp]:
  "update_where p f [] = []"
  "update_where p f (r # rs) = (if p r then f r else r) # update_where p f rs"
  by (simp_all add: update_where_def)

lemma length_update_where [table_simps, simp]: "length (update_where p f rows) = length rows"
  by (simp add: update_where_def)

lemma update_where_append [table_simps]:
  "update_where p f (xs @ ys) = update_where p f xs @ update_where p f ys"
  by (simp add: update_where_def)

lemma set_update_where [table_simps]:
  "set (update_where p f rows) = (\<lambda>r. if p r then f r else r) ` set rows"
  by (simp add: update_where_def)

lemma map_update_where [table_simps]:
  "(\<And>r. r \<in> set rows \<Longrightarrow> p r \<Longrightarrow> g (f r) = g r) \<Longrightarrow> map g (update_where p f rows) = map g rows"
  by (auto simp: update_where_def)

lemma update_where_none [table_simps]:
  "(\<And>r. r \<in> set rows \<Longrightarrow> \<not> p r) \<Longrightarrow> update_where p f rows = rows"
  by (induction rows) auto

lemma update_where_single:
  "(\<And>r. r \<in> set rows \<Longrightarrow> p r \<longleftrightarrow> r = j) \<Longrightarrow>
   update_where p f rows = map (\<lambda>r. if r = j then f j else r) rows"
  by (induction rows) auto

lemma in_update_where:
  "r' \<in> set (update_where p f rows) \<longleftrightarrow>
     (\<exists>r \<in> set rows. (p r \<and> r' = f r) \<or> (\<not> p r \<and> r' = r))"
  by (auto simp: set_update_where)

lemma fetchone_Some: "fetchone p rows = Some r \<Longrightarrow> r \<in> set rows \<and> p r"
  by (auto simp: fetchone_def find_Some_iff)

lemma fetchone_None: "fetchone p rows = None \<longleftrightarrow> (\<forall>r \<in> set rows. \<not> p r)"
  by (auto simp: fetchone_def find_None_iff)

lemma fetchone_exists: "r \<in> set rows \<Longrightarrow> p r \<Longrightarrow> \<exists>r'. fetchone p rows = Some r'"
  by (cases "fetchone p rows") (auto simp: fetchone_None)

lemma fetchone_simps [table_simps, simp]:
  "fetchone p [] = None"
  "fetchone p (r # rs) = (if p r then Some r else fetchone p rs)"
  by (simp_all add: fetchone_def)

lemma fetchone_append [table_simps]:
  "fetchone p (xs @ ys) = (case fetchone p xs of None \<Rightarrow> fetchone p ys | Some r \<Rightarrow> Some r)"
  by (induction xs) auto

lemma fetchone_key:
  "distinct (map key rows) \<Longrightarrow> r \<in> set rows \<Longrightarrow> p r \<Longrightarrow> (\<And>r'. r' \<in> set rows \<Longrightarrow> p r' \<Longrightarrow> key r' = key r) \<Longrightarrow>
   fetchone p rows = Some r"
proof -
  assume d: "distinct (map key rows)" and r: "r \<in> set rows" "p r"
    and one: "\<And>r'. r' \<in> set rows \<Longrightarrow> p r' \<Longrightarrow> key r' = key r"
  obtain r' where r': "fetchone p rows = Some r'" using fetchone_exists r by metis
  from fetchone_Some [OF this] have "r' \<in> set rows" "p r'" by auto
  with one d r(1) have "r' = r" by (auto simp: distinct_map inj_on_def)
  with r' show ?thesis by simp
qed

lemma fetchone_single:
  assumes "\<And>r. r \<in> set rows \<Longrightarrow> p r \<longleftrightarrow> r = j" "j \<in> set rows"
  shows "fetchone p rows = Some j"
proof -
  obtain r where r: "fetchone p rows = Some r" using fetchone_exists [of j rows p] assms by blast
  then have "r = j" using fetchone_Some [OF r] assms(1) [of r] by simp
  with r show ?thesis by simp
qed

lemma fetchone_update_other:
  "(\<And>r. p r \<Longrightarrow> \<not> q r \<and> \<not> q (f r)) \<Longrightarrow> fetchone q (update_where p f rows) = fetchone q rows"
  by (induction rows) auto

lemma fetchone_filter:
  "(\<And>r. q r \<Longrightarrow> p r) \<Longrightarrow> fetchone q (filter p rows) = fetchone q rows"
  by (induction rows) auto

lemma key_unique:
  "distinct (map key rows) \<Longrightarrow> r \<in> set rows \<Longrightarrow> r' \<in> set rows \<Longrightarrow> key r = key r' \<Longrightarrow> r = r'"
  by (auto simp: distinct_map inj_on_def)

lemma rowcount_key:
  "distinct (map key rows) \<Longrightarrow> (\<And>r. p r \<Longrightarrow> key r = k) \<Longrightarrow>
   rowcount p rows = (if \<exists>r \<in> set rows. p r then 1 else 0)"
proof (induction rows)
  case (Cons r rs)
  show ?case
  proof (cases "p r")
    case True
    have "\<forall>x \<in> set rs. \<not> p x"
      using Cons.prems True by (force simp: image_iff)
    then have "filter p rs = []" by (simp add: filter_empty_conv)
    with True show ?thesis by (simp add: rowcount_def)
  next
    case False
    with Cons show ?thesis by (simp add: rowcount_def)
  qed
qed (simp add: rowcount_def)

lemma rowcount_zero: "rowcount p rows = 0 \<longleftrightarrow> (\<forall>r \<in> set rows. \<not> p r)"
  by (simp add: rowcount_def filter_empty_conv)

lemma first_by_None [simp]: "first_by k rows = None \<longleftrightarrow> rows = []"
  by (cases rows) (auto split: option.splits)

lemma first_by_in: "first_by k rows = Some r \<Longrightarrow> r \<in> set rows"
  by (induction rows arbitrary: r) (auto split: option.splits if_splits)

lemma first_by_least: "first_by k rows = Some r \<Longrightarrow> x \<in> set rows \<Longrightarrow> k r \<le> k x"
proof (induction rows arbitrary: r)
  case (Cons y ys)
  show ?case
  proof (cases "first_by k ys")
    case None
    with Cons.prems show ?thesis by auto
  next
    case (Some m)
    with Cons.IH [OF Some] Cons.prems show ?thesis
      by (auto split: if_splits intro: order_trans less_imp_le)
  qed
qed simp

text \<open>A Python dictionary is the list of its items in insertion order: \<open>d[k] = v\<close> keeps the place of
  an old key.\<close>

fun dict_set :: "'k \<Rightarrow> 'v \<Rightarrow> ('k \<times> 'v) list \<Rightarrow> ('k \<times> 'v) list" where
  "dict_set k v [] = [(k, v)]"
| "dict_set k v ((k', v') # d) = (if k' = k then (k, v) # d else (k', v') # dict_set k v d)"

definition dict_of :: "('k \<times> 'v) list \<Rightarrow> ('k \<times> 'v) list" where
  "dict_of kvs = foldl (\<lambda>d (k, v). dict_set k v d) [] kvs"

lemma map_of_dict_set [simp]: "map_of (dict_set k v d) = (map_of d)(k \<mapsto> v)"
  by (induction d) (auto simp: fun_eq_iff)

lemma keys_dict_set: "fst ` set (dict_set k v d) = insert k (fst ` set d)"
proof (induction d)
  case (Cons x d)
  then show ?case by (cases x) (simp add: insert_commute)
qed simp

lemma distinct_dict_set [simp]: "distinct (map fst d) \<Longrightarrow> distinct (map fst (dict_set k v d))"
proof (induction d)
  case (Cons x d)
  then show ?case by (cases x) (auto simp: keys_dict_set)
qed simp

lemma dict_set_new: "k \<notin> fst ` set d \<Longrightarrow> dict_set k v d = d @ [(k, v)]"
  by (induction d) auto

lemma dict_of_snoc: "dict_of (kvs @ [(k, v)]) = dict_set k v (dict_of kvs)"
  by (simp add: dict_of_def)

lemma distinct_dict_of: "distinct (map fst (dict_of kvs))"
proof (induction kvs rule: rev_induct)
  case (snoc x kvs)
  then show ?case by (cases x) (simp add: dict_of_snoc)
qed (simp add: dict_of_def)

lemma dict_of_distinct: "distinct (map fst kvs) \<Longrightarrow> dict_of kvs = kvs"
proof (induction kvs rule: rev_induct)
  case (snoc x kvs)
  then show ?case by (cases x) (auto simp: dict_of_snoc dict_set_new)
qed (simp add: dict_of_def)

lemma keys_dict_of: "fst ` set (dict_of kvs) = fst ` set kvs"
proof (induction kvs rule: rev_induct)
  case (snoc x kvs)
  then show ?case by (cases x) (simp add: dict_of_snoc keys_dict_set)
qed (simp add: dict_of_def)

lemma set_dict_set: "set (dict_set k v d) \<subseteq> insert (k, v) (set d)"
proof (induction d)
  case (Cons x d)
  then show ?case by (cases x) auto
qed simp

lemma dict_of_subset: "set (dict_of kvs) \<subseteq> set kvs"
proof (induction kvs rule: rev_induct)
  case (snoc x kvs)
  then show ?case using set_dict_set [of "fst x" "snd x" "dict_of kvs"]
    by (cases x) (auto simp: dict_of_snoc)
qed (simp add: dict_of_def)

text \<open>A partial unique index is the distinctness of the defined keys; dropping keys keeps it.\<close>

lemma in_map_filter: "y \<in> set (List.map_filter h xs) \<longleftrightarrow> (\<exists>x \<in> set xs. h x = Some y)"
  by (induction xs) (auto simp: map_filter_simps split: option.splits)

lemma map_filter_append: "List.map_filter h (xs @ ys) = List.map_filter h xs @ List.map_filter h ys"
  by (induction xs) (auto simp: map_filter_simps split: option.splits)

lemma distinct_map_filter_weaken:
  "(\<And>x. x \<in> set xs \<Longrightarrow> h x = None \<or> h x = k x) \<Longrightarrow> distinct (List.map_filter k xs) \<Longrightarrow>
   distinct (List.map_filter h xs)"
proof (induction xs)
  case (Cons x xs)
  have sub: "set (List.map_filter h xs) \<subseteq> set (List.map_filter k xs)"
    using Cons.prems(1) by (fastforce simp: in_map_filter)
  have ih: "distinct (List.map_filter h xs)"
    using Cons by (auto simp: map_filter_simps split: option.splits)
  show ?case
  proof (cases "h x")
    case None
    with ih show ?thesis by (simp add: map_filter_simps)
  next
    case (Some y)
    with Cons.prems(1) [of x] have "k x = Some y" by auto
    with Some sub ih Cons.prems(2) show ?thesis by (auto simp: map_filter_simps)
  qed
qed simp

lemma distinct_map_filter_inj:
  "distinct (List.map_filter h xs) \<Longrightarrow> x \<in> set xs \<Longrightarrow> y \<in> set xs \<Longrightarrow> h x = Some k \<Longrightarrow> h y = Some k \<Longrightarrow> x = y"
proof (induction xs)
  case (Cons z zs)
  have "k \<in> set (List.map_filter h zs)" if "w \<in> set zs" "h w = Some k" for w
    using that by (auto simp: in_map_filter)
  with Cons show ?case by (auto simp: map_filter_simps split: option.splits)
qed simp

lemma map_filter_update_where:
  "List.map_filter h (update_where p f xs) = List.map_filter (\<lambda>r. h (if p r then f r else r)) xs"
  by (induction xs) (auto simp: map_filter_simps split: option.splits)

section \<open>Actions\<close>

text \<open>A computation that changes a state and returns or raises; an exception keeps the changes made
  before it.\<close>

type_synonym ('c, 'a) act = "'c \<Rightarrow> 'a result \<times> 'c"

definition return_a :: "'a \<Rightarrow> ('c, 'a) act" where
  "return_a x c = (Inr x, c)"

definition raise_a :: "py_exn \<Rightarrow> ('c, 'a) act" where
  "raise_a e c = (Inl e, c)"

definition bind_a :: "('c, 'a) act \<Rightarrow> ('a \<Rightarrow> ('c, 'b) act) \<Rightarrow> ('c, 'b) act" where
  "bind_a m f c = (case m c of (Inl e, c') \<Rightarrow> (Inl e, c') | (Inr x, c') \<Rightarrow> f x c')"

text \<open>Running an action of one half of the state.\<close>

definition on_store :: "('s, 'a) act \<Rightarrow> ('s \<times> 'w, 'a) act" where
  "on_store m c = (case m (fst c) of (r, s') \<Rightarrow> (r, (s', snd c)))"

definition on_world :: "('w, 'a) act \<Rightarrow> ('s \<times> 'w, 'a) act" where
  "on_world m c = (case m (snd c) of (r, w') \<Rightarrow> (r, (fst c, w')))"

named_theorems act_simps \<open>evaluation of actions\<close>

lemma act_eval [act_simps]:
  "return_a x c = (Inr x, c)" "raise_a e c = (Inl e, c)"
  "bind_a m f c = (case m c of (Inl e, c') \<Rightarrow> (Inl e, c') | (Inr x, c') \<Rightarrow> f x c')"
  "on_store n d = (case n (fst d) of (r, s') \<Rightarrow> (r, (s', snd d)))"
  "on_world k d = (case k (snd d) of (r, w') \<Rightarrow> (r, (fst d, w')))"
  by (simp_all add: return_a_def raise_a_def bind_a_def on_store_def on_world_def)

lemma bind_a_cong_fun: "(\<And>x. f x = g x) \<Longrightarrow> bind_a m f = bind_a m g"
  by presburger

section \<open>Systems with an invariant\<close>

text \<open>The contract shared by every stateful component: a set of initial states, a step
  relation, and an invariant that both respect.  Clients obtain the invariant for every run.\<close>

locale invariant_system =
  fixes initial :: "'s \<Rightarrow> bool"
    and step :: "'s \<Rightarrow> 's \<Rightarrow> bool"
    and inv :: "'s \<Rightarrow> bool"
  assumes inv_initial: "initial s \<Longrightarrow> inv s"
    and inv_step: "inv s \<Longrightarrow> step s t \<Longrightarrow> inv t"
begin

lemma inv_run: "step\<^sup>*\<^sup>* s t \<Longrightarrow> inv s \<Longrightarrow> inv t"
  by (induction rule: rtranclp_induct) (auto intro: inv_step)

lemma inv_reachable: "initial s \<Longrightarrow> step\<^sup>*\<^sup>* s t \<Longrightarrow> inv t"
  using inv_initial inv_run by blast

end

text \<open>A status that no step leaves: once a row has it, it keeps it along every run.\<close>

locale absorbing_system =
  fixes step :: "'s \<Rightarrow> 's \<Rightarrow> bool"
    and absorbed :: "'k \<Rightarrow> 's \<Rightarrow> bool"
  assumes absorb_step: "absorbed k s \<Longrightarrow> step s t \<Longrightarrow> absorbed k t"
begin

lemma absorb_run: "step\<^sup>*\<^sup>* s t \<Longrightarrow> absorbed k s \<Longrightarrow> absorbed k t"
  by (induction rule: rtranclp_induct) (auto intro: absorb_step)

end

end
