(* ===== verification/Py_Strings.thy ===== *)
theory Py_Strings
  imports Prelude
begin

text \<open>
  The operations of Python's \<open>str\<close> that the program uses, on character lists: \<open>splitlines\<close>,
  \<open>join\<close>, \<open>startswith\<close>, \<open>in\<close>, \<open>count\<close>, \<open>replace\<close>, \<open>strip\<close>, \<open>lower\<close>, and the
  conversions between integers and decimal numerals (\<open>str(n)\<close>, \<open>int(s)\<close>, \<open>\d+\<close>).  A
  character is a code point below 256; the line boundaries, white space and digits are those
  that Python recognises in that range.  The lemmas are the round trips and the facts about
  substrings that the component theories need.
\<close>

section \<open>Characters\<close>

definition is_digit :: "char \<Rightarrow> bool" where
  "is_digit c \<longleftrightarrow> (48::nat) \<le> of_char c \<and> (of_char c :: nat) \<le> 57"

definition digit_val :: "char \<Rightarrow> nat" where
  "digit_val c = of_char c - 48"

definition digit_char :: "nat \<Rightarrow> char" where
  "digit_char d = char_of (48 + d)"

definition is_linebreak :: "char \<Rightarrow> bool" where
  "is_linebreak c \<longleftrightarrow> (of_char c :: nat) \<in> {10, 11, 12, 13, 28, 29, 30, 133}"

definition is_space :: "char \<Rightarrow> bool" where
  "is_space c \<longleftrightarrow> (of_char c :: nat) \<in> {9, 10, 11, 12, 13, 28, 29, 30, 31, 32, 133, 160}"

abbreviation newline :: char where
  "newline \<equiv> CHR 0x0A"

definition lower_char :: "char \<Rightarrow> char" where
  "lower_char c =
     (if ((65::nat) \<le> of_char c \<and> (of_char c :: nat) \<le> 90) \<or>
         ((192::nat) \<le> of_char c \<and> (of_char c :: nat) \<le> 222 \<and> (of_char c :: nat) \<noteq> 215)
      then char_of ((of_char c :: nat) + 32) else c)"

definition py_lower :: "string \<Rightarrow> string" where
  "py_lower s = map lower_char s"

lemma digit_char_val [simp]: "d < 10 \<Longrightarrow> digit_val (digit_char d) = d"
  by (simp add: digit_val_def digit_char_def)

lemma digit_char_is_digit [simp]: "d < 10 \<Longrightarrow> is_digit (digit_char d)"
  by (simp add: is_digit_def digit_char_def)

lemma digit_not_linebreak [simp]: "is_digit c \<Longrightarrow> \<not> is_linebreak c"
  by (auto simp: is_digit_def is_linebreak_def)

lemma digit_not_space [simp]: "is_digit c \<Longrightarrow> \<not> is_space c"
  by (auto simp: is_digit_def is_space_def)

lemma newline_linebreak [simp]: "is_linebreak newline"
  by (simp add: is_linebreak_def)

section \<open>Decimal numerals\<close>

fun show_nat :: "nat \<Rightarrow> string" where
  "show_nat n = (if n < 10 then [digit_char n] else show_nat (n div 10) @ [digit_char (n mod 10)])"

declare show_nat.simps [simp del]

definition read_nat :: "string \<Rightarrow> nat" where
  "read_nat s = foldl (\<lambda>n c. 10 * n + digit_val c) 0 s"

definition show_int :: "int \<Rightarrow> string" where
  "show_int i = (if i < 0 then CHR ''-'' # show_nat (nat (- i)) else show_nat (nat i))"

lemma show_nat_digits: "c \<in> set (show_nat n) \<Longrightarrow> is_digit c"
proof (induction n rule: show_nat.induct)
  case (1 n)
  then show ?case
    by (cases "n < 10") (auto simp: show_nat.simps [of n])
qed

lemma show_nat_nonempty [simp]: "show_nat n \<noteq> []"
  by (simp add: show_nat.simps [of n])

lemma read_nat_snoc: "read_nat (s @ [c]) = 10 * read_nat s + digit_val c"
  by (simp add: read_nat_def)

lemma read_show_nat [simp]: "read_nat (show_nat n) = n"
proof (induction n rule: show_nat.induct)
  case (1 n)
  show ?case
  proof (cases "n < 10")
    case True
    then show ?thesis by (simp add: show_nat.simps [of n] read_nat_def)
  next
    case False
    then show ?thesis using 1 by (simp add: show_nat.simps [of n] read_nat_snoc)
  qed
qed

lemma show_nat_inj [simp]: "show_nat m = show_nat n \<longleftrightarrow> m = n"
  by (metis read_show_nat)

section \<open>Lines\<close>

text \<open>\<open>s.splitlines()\<close>: a carriage return with a line feed is one boundary, a final boundary
  opens no further line.\<close>

fun splitlines :: "string \<Rightarrow> string list" where
  "splitlines [] = []"
| "splitlines (c # cs) =
     (if is_linebreak c
      then [] # splitlines (if c = CHR 0x0D \<and> cs \<noteq> [] \<and> hd cs = newline then tl cs else cs)
      else (case splitlines cs of [] \<Rightarrow> [[c]] | l # ls \<Rightarrow> (c # l) # ls))"

text \<open>\<open>sep.join(parts)\<close>.\<close>

fun py_join :: "string \<Rightarrow> string list \<Rightarrow> string" where
  "py_join sep [] = []"
| "py_join sep [x] = x"
| "py_join sep (x # y # xs) = x @ sep @ py_join sep (y # xs)"

definition plain_line :: "string \<Rightarrow> bool" where
  "plain_line l \<longleftrightarrow> (\<forall>c \<in> set l. \<not> is_linebreak c)"

lemma plain_line_simps [simp]:
  "plain_line []"
  "plain_line (c # l) \<longleftrightarrow> \<not> is_linebreak c \<and> plain_line l"
  "plain_line (l @ m) \<longleftrightarrow> plain_line l \<and> plain_line m"
  by (auto simp: plain_line_def)

lemma plain_show_nat [simp]: "plain_line (show_nat n)"
  using show_nat_digits by (auto simp: plain_line_def)

lemma splitlines_plain: "l \<in> set (splitlines s) \<Longrightarrow> plain_line l"
proof (induction s arbitrary: l rule: splitlines.induct)
  case (2 c cs)
  then show ?case by (cases "splitlines cs") (auto split: if_splits)
qed simp

lemma splitlines_plain_id: "plain_line l \<Longrightarrow> l \<noteq> [] \<Longrightarrow> splitlines l = [l]"
proof (induction l)
  case (Cons c l)
  then show ?case by (cases l) auto
qed simp

lemma splitlines_plain_newline: "plain_line l \<Longrightarrow> splitlines (l @ newline # s) = l # splitlines s"
  by (induction l) auto

lemma splitlines_join:
  assumes "\<forall>l \<in> set ls. plain_line l"
  shows "splitlines (py_join [newline] ls) = (if ls \<noteq> [] \<and> last ls = [] then butlast ls else ls)"
  using assms
proof (induction "[newline]" ls rule: py_join.induct)
  case (2 x)
  then show ?case by (auto simp: splitlines_plain_id)
next
  case (3 x y xs)
  then show ?case by (auto simp: splitlines_plain_newline)
qed simp

section \<open>Prefixes, substrings, replacement\<close>

definition startswith :: "string \<Rightarrow> string \<Rightarrow> bool" where
  "startswith s p \<longleftrightarrow> take (length p) s = p"

lemma startswith_prefix: "startswith s p \<longleftrightarrow> prefix p s"
  by (auto simp: startswith_def prefix_def) (metis append_take_drop_id)

lemma startswith_append [simp]: "startswith (p @ s) p"
  by (simp add: startswith_def)

lemma startswith_dest: "startswith s p \<Longrightarrow> s = p @ drop (length p) s"
  by (metis append_take_drop_id startswith_def)

text \<open>\<open>p in s\<close>, and the non-overlapping left-to-right scan that \<open>count\<close> and \<open>replace\<close> make.\<close>

fun contains :: "string \<Rightarrow> string \<Rightarrow> bool" where
  "contains p [] = (p = [])"
| "contains p (c # cs) = (startswith (c # cs) p \<or> contains p cs)"

function count_sub :: "string \<Rightarrow> string \<Rightarrow> nat" where
  "count_sub p s =
     (if p = [] then length s + 1
      else case s of [] \<Rightarrow> 0
      | c # cs \<Rightarrow> if startswith s p then 1 + count_sub p (drop (length p) s) else count_sub p cs)"
  by pat_completeness auto
termination
  by (relation "measure (\<lambda>(p, s). length s)") auto

function replace_sub :: "string \<Rightarrow> string \<Rightarrow> string \<Rightarrow> string" where
  "replace_sub p q s =
     (if p = [] then s
      else case s of [] \<Rightarrow> []
      | c # cs \<Rightarrow> if startswith s p then q @ replace_sub p q (drop (length p) s)
                  else c # replace_sub p q cs)"
  by pat_completeness auto
termination
  by (relation "measure (\<lambda>(p, q, s). length s)") auto

declare count_sub.simps [simp del] replace_sub.simps [simp del]

lemma contains_sublist: "contains p s \<longleftrightarrow> sublist p s"
  by (induction s) (auto simp: startswith_prefix sublist_Cons_right)

lemma count_sub_Nil [simp]: "p \<noteq> [] \<Longrightarrow> count_sub p [] = 0"
  by (simp add: count_sub.simps)

lemma count_sub_Cons:
  "p \<noteq> [] \<Longrightarrow> count_sub p (c # cs) =
     (if startswith (c # cs) p then 1 + count_sub p (drop (length p) (c # cs)) else count_sub p cs)"
  by (subst count_sub.simps) simp

lemma replace_sub_Nil [simp]: "replace_sub p q [] = []"
  by (simp add: replace_sub.simps)

lemma replace_sub_Cons:
  "p \<noteq> [] \<Longrightarrow> replace_sub p q (c # cs) =
     (if startswith (c # cs) p then q @ replace_sub p q (drop (length p) (c # cs))
      else c # replace_sub p q cs)"
  by (subst replace_sub.simps) simp

lemma count_sub_zero: "p \<noteq> [] \<Longrightarrow> count_sub p s = 0 \<longleftrightarrow> \<not> contains p s"
proof (induction p s rule: count_sub.induct)
  case (1 p s)
  show ?case
  proof (cases s)
    case Nil
    with 1 show ?thesis by simp
  next
    case (Cons c cs)
    with 1 show ?thesis by (simp add: count_sub_Cons)
  qed
qed

lemma replace_sub_empty_shorter:
  "p \<noteq> [] \<Longrightarrow> length (replace_sub p [] s) \<le> length s \<and>
     (contains p s \<longrightarrow> length (replace_sub p [] s) < length s)"
proof (induction p "[] :: string" s rule: replace_sub.induct)
  case (1 p s)
  show ?case
  proof (cases s)
    case Nil
    with 1 show ?thesis by simp
  next
    case s: (Cons c cs)
    show ?thesis
    proof (cases "startswith s p")
      case True
      with 1 s have "length (replace_sub p [] (drop (length p) s)) \<le> length (drop (length p) s)"
        by simp
      also have "\<dots> < length s" using s \<open>p \<noteq> []\<close> by (cases p) auto
      finally show ?thesis using True s 1(3) by (simp add: replace_sub_Cons)
    next
      case False
      with 1 s show ?thesis by (auto simp: replace_sub_Cons)
    qed
  qed
qed

lemma replace_sub_absent: "p \<noteq> [] \<Longrightarrow> \<not> contains p s \<Longrightarrow> replace_sub p q s = s"
proof (induction s)
  case (Cons c cs)
  then show ?case by (simp add: replace_sub_Cons)
qed simp

lemma replace_sub_subseq: "p \<noteq> [] \<Longrightarrow> subseq (replace_sub p [] s) s"
proof (induction s rule: length_induct)
  case (1 s)
  show ?case
  proof (cases s)
    case (Cons c cs)
    have "length (drop (length p) s) < length s" using Cons 1(2) by (cases p) auto
    then have "subseq (replace_sub p [] (drop (length p) s)) (drop (length p) s)" using 1 by blast
    then have "subseq (replace_sub p [] (drop (length p) s)) s"
      by (metis append_take_drop_id list_emb_append2)
    with 1 Cons show ?thesis by (simp add: replace_sub_Cons)
  qed simp
qed

text \<open>A pattern that avoids a separator is found on one side of it.\<close>

lemma startswith_sep:
  "x \<notin> set p \<Longrightarrow> startswith (s @ x # t) p \<longleftrightarrow> startswith s p"
  by (induction s arbitrary: p) (auto simp: startswith_prefix prefix_Cons)

lemma count_sub_sep:
  assumes "p \<noteq> []" "x \<notin> set p"
  shows "count_sub p (s @ x # t) = count_sub p s + count_sub p t"
proof (induction s rule: length_induct)
  case (1 s)
  show ?case
  proof (cases s)
    case Nil
    have "\<not> startswith (x # t) p" using startswith_sep [OF assms(2), of "[]" t] assms by (simp add: startswith_def)
    then show ?thesis using Nil assms by (simp add: count_sub_Cons)
  next
    case (Cons c cs)
    show ?thesis
    proof (cases "startswith s p")
      case True
      then have len: "length p \<le> length s" by (metis startswith_prefix prefix_length_le)
      have sh: "length (drop (length p) s) < length s" using Cons assms by (cases p) auto
      have pre: "startswith (c # cs @ x # t) p" using True startswith_sep [OF assms(2), of s t] Cons by simp
      have "drop (length p) (s @ x # t) = drop (length p) s @ x # t" using len by simp
      then have dr: "drop (length p) (c # cs @ x # t) = drop (length p) s @ x # t" using Cons by simp
      have "count_sub p (s @ x # t) = 1 + count_sub p (drop (length p) s @ x # t)"
        using pre dr Cons assms(1) by (simp add: count_sub_Cons)
      also have "\<dots> = 1 + (count_sub p (drop (length p) s) + count_sub p t)" using 1 [rule_format, OF sh] by simp
      finally show ?thesis using True Cons assms(1) by (simp add: count_sub_Cons)
    next
      case False
      then have "\<not> startswith (c # cs @ x # t) p" using startswith_sep [OF assms(2), of s t] Cons by simp
      then show ?thesis using 1 False Cons assms(1) by (simp add: count_sub_Cons)
    qed
  qed
qed

section \<open>White space\<close>

definition lstrip :: "string \<Rightarrow> string" where
  "lstrip s = dropWhile is_space s"

definition py_strip :: "string \<Rightarrow> string" where
  "py_strip s = rev (dropWhile is_space (rev (dropWhile is_space s)))"

text \<open>\<open>s.split()\<close>: the maximal runs of characters that are not white space.\<close>

function split_ws :: "string \<Rightarrow> string list" where
  "split_ws s =
     (case lstrip s of [] \<Rightarrow> []
      | c # cs \<Rightarrow> takeWhile (\<lambda>x. \<not> is_space x) (c # cs) # split_ws (dropWhile (\<lambda>x. \<not> is_space x) (c # cs)))"
  by pat_completeness auto
termination
proof (relation "measure length", goal_cases)
  case (2 s c cs)
  then have "\<not> is_space c" by (metis hd_dropWhile lstrip_def list.distinct(1) list.sel(1))
  then have "length (dropWhile (\<lambda>x. \<not> is_space x) (c # cs)) \<le> length cs"
    by (simp add: length_dropWhile_le)
  also have "\<dots> < length s" using 2 by (metis length_Cons length_dropWhile_le lstrip_def less_eq_Suc_le)
  finally show ?case by simp
qed simp

declare split_ws.simps [simp del]

end
