(* ===== verification/Hosted_Db.thy ===== *)
theory Hosted_Db
  imports Py_Strings
begin

text \<open>
  The data of the hosted plane.  JSON values with the Python conversions the webhook code
  applies to them (\<open>int(x)\<close>, \<open>str(x)\<close>, \<open>d.get(k)\<close>, \<open>d[k]\<close>), the flat event payloads of
  \<^verbatim>\<open>events/record_event.py\<close>, and the tables of the hosted Postgres database as one record
  \<open>hosted_db\<close>: every hosted component reads and writes this state.
\<close>

section \<open>JSON values\<close>

datatype pyfloat = Finite rat | Infinite bool | NaN

datatype json =
    JNull
  | JBool bool
  | JInt int
  | JFloat pyfloat
  | JStr string
  | JArr "json list"
  | JObj "(string \<times> json) list"

fun is_obj :: "json \<Rightarrow> bool" where
  "is_obj (JObj _) = True"
| "is_obj _ = False"

text \<open>\<open>d.get(key)\<close> (\<open>JNull\<close> when absent) and \<open>d[key]\<close> on a JSON object.\<close>

fun json_get :: "json \<Rightarrow> string \<Rightarrow> json" where
  "json_get (JObj kvs) k = (case map_of kvs k of None \<Rightarrow> JNull | Some v \<Rightarrow> v)"
| "json_get _ k = JNull"

fun json_item :: "json \<Rightarrow> string \<Rightarrow> json result" where
  "json_item (JObj kvs) k = (case map_of kvs k of None \<Rightarrow> Inl KeyError | Some v \<Rightarrow> Inr v)"
| "json_item _ k = Inl TypeError"

text \<open>\<open>int(x)\<close>: a numeral with optional sign, surrounding white space and single underscores
  between digits; a float is truncated; anything else is a \<open>TypeError\<close>.  CPython's cap of 4300
  digits on such conversions is left out.\<close>

fun digits_of :: "bool \<Rightarrow> string \<Rightarrow> string option" where
  "digits_of after_digit [] = (if after_digit then Some [] else None)"
| "digits_of after_digit (c # cs) =
     (if is_digit c then map_option (Cons c) (digits_of True cs)
      else if c = CHR ''_'' \<and> after_digit then digits_of False cs else None)"

definition int_of_string :: "string \<Rightarrow> int result" where
  "int_of_string s =
     (let t = py_strip s;
          (neg, u) = (case t of c # cs \<Rightarrow> if c = CHR ''-'' then (True, cs)
                                           else if c = CHR ''+'' then (False, cs) else (False, t)
                      | [] \<Rightarrow> (False, t))
      in case digits_of False u of
           None \<Rightarrow> Inl ValueError
         | Some ds \<Rightarrow> Inr (if neg then - int (read_nat ds) else int (read_nat ds)))"

fun py_int :: "json \<Rightarrow> int result" where
  "py_int (JInt i) = Inr i"
| "py_int (JBool b) = Inr (if b then 1 else 0)"
| "py_int (JStr s) = int_of_string s"
| "py_int (JFloat (Finite q)) = Inr (if q < 0 then - \<lfloor>- q\<rfloor> else \<lfloor>q\<rfloor>)"
| "py_int (JFloat (Infinite _)) = Inl OverflowError"
| "py_int (JFloat NaN) = Inl ValueError"
| "py_int _ = Inl TypeError"

text \<open>\<open>str(x)\<close>; the \<open>repr\<close> of floats and containers is the parameter \<open>repr\<close>.\<close>

fun py_str :: "(json \<Rightarrow> string) \<Rightarrow> json \<Rightarrow> string" where
  "py_str repr (JStr s) = s"
| "py_str repr JNull = ''None''"
| "py_str repr (JBool b) = (if b then ''True'' else ''False'')"
| "py_str repr (JInt i) = show_int i"
| "py_str repr v = repr v"

section \<open>Flat event payloads\<close>

text \<open>\<^verbatim>\<open>assert_json_scalar\<close>: a payload value is a bool, an int, a finite float, a string or
  null.\<close>

fun assert_json_scalar :: "json \<Rightarrow> unit result" where
  "assert_json_scalar JNull = Inr ()"
| "assert_json_scalar (JBool _) = Inr ()"
| "assert_json_scalar (JStr _) = Inr ()"
| "assert_json_scalar (JInt _) = Inr ()"
| "assert_json_scalar (JFloat (Finite _)) = Inr ()"
| "assert_json_scalar (JFloat _) = Inl TypeError"
| "assert_json_scalar (JArr _) = Inl TypeError"
| "assert_json_scalar (JObj _) = Inl TypeError"

fun assert_scalars :: "(string \<times> json) list \<Rightarrow> unit result" where
  "assert_scalars [] = Inr ()"
| "assert_scalars ((k, v) # kvs) =
     (case assert_json_scalar v of Inl e \<Rightarrow> Inl e | Inr _ \<Rightarrow> assert_scalars kvs)"

fun assert_flat_json_object :: "json \<Rightarrow> unit result" where
  "assert_flat_json_object (JObj kvs) = assert_scalars kvs"
| "assert_flat_json_object _ = Inl TypeError"

text \<open>\<^verbatim>\<open>serialize_json_object\<close>: the check, then the payload as it reaches the \<open>jsonb\<close> column
  (the text is decoded again by the database, so the model keeps the value).\<close>

definition serialize_json_object :: "json \<Rightarrow> json result" where
  "serialize_json_object v = (case assert_flat_json_object v of Inl e \<Rightarrow> Inl e | Inr _ \<Rightarrow> Inr v)"

definition flat_payload :: "json \<Rightarrow> bool" where
  "flat_payload v \<longleftrightarrow> assert_flat_json_object v = Inr ()"

lemma serialize_flat: "serialize_json_object v = Inr w \<longleftrightarrow> w = v \<and> flat_payload v"
  by (auto simp: serialize_json_object_def flat_payload_def split: sum.splits)

lemma assert_scalars_iff:
  "assert_scalars kvs = Inr () \<longleftrightarrow> (\<forall>(k, v) \<in> set kvs. assert_json_scalar v = Inr ())"
  by (induction kvs rule: assert_scalars.induct) (auto split: sum.splits)

lemma flat_payload_values:
  "flat_payload (JObj kvs) \<longleftrightarrow> (\<forall>(k, v) \<in> set kvs. assert_json_scalar v = Inr ())"
  by (simp add: flat_payload_def assert_scalars_iff)

section \<open>The tables\<close>

datatype job_status =
    Pending | Running | Succeeded | Failed | Superseded | Cancelled | Completed | Stopped_Early

text \<open>The text of a status, as the column and the event payloads have it.\<close>

fun status_text :: "job_status \<Rightarrow> string" where
  "status_text Pending = ''pending''"
| "status_text Running = ''running''"
| "status_text Succeeded = ''succeeded''"
| "status_text Failed = ''failed''"
| "status_text Superseded = ''superseded''"
| "status_text Cancelled = ''cancelled''"
| "status_text Completed = ''completed''"
| "status_text Stopped_Early = ''stopped_early''"

text \<open>A row of \<open>review_jobs\<close>.\<close>

record review_job =
  rj_id :: uuid
  rj_delivery_id :: "string option"
  rj_pull_request_id :: "uuid option"
  rj_status :: job_status
  rj_attempts :: nat
  rj_available_at :: timestamp
  rj_locked_by :: "string option"
  rj_locked_until :: "timestamp option"
  rj_last_error :: "string option"
  rj_created_at :: timestamp
  rj_updated_at :: timestamp
  rj_installation_id :: "int option"
  rj_github_repository_id :: "int option"
  rj_pull_request_number :: "int option"
  rj_base_sha :: "string option"
  rj_head_sha :: "string option"
  rj_policy_version :: "string option"
  rj_budget_max_tokens :: "int option"
  rj_budget_max_cost_usd :: "usd option"
  rj_trace_id :: "uuid option"
  rj_lease_token_hash :: "string option"

record agent_event =
  ae_sequence :: nat
  ae_review_job_id :: "uuid option"
  ae_event_type :: string
  ae_payload :: json
  ae_created_at :: timestamp

record model_call_row =
  mc_id :: uuid
  mc_review_job_id :: uuid
  mc_prompt_version_id :: uuid
  mc_provider :: string
  mc_model_name :: string
  mc_input_tokens :: int
  mc_output_tokens :: int
  mc_cost_usd :: usd
  mc_latency_ms :: int
  mc_created_at :: timestamp

text \<open>\<^verbatim>\<open>contracts/finding.py\<close>: the closed vocabularies of a finding.\<close>

datatype concern = Security | Correctness | Tests | Docs | Maintainability
datatype severity = Critical | High | Medium | Low | Info
datatype verification_method = Sandbox | Static | Not_Applicable | Failed_Verification
datatype finding_status = Draft | Queued_For_Human | Posted | Rejected | Disputed
datatype source_kind = Diff_Source | Retrieval_Source | Profile_Source | Graph_Source

text \<open>A row of \<open>review_findings\<close>.  The confidence is a rational between 0 and 1.\<close>

record review_finding_row =
  rf_id :: string
  rf_review_job_id :: uuid
  rf_concern :: concern
  rf_severity :: severity
  rf_category :: string
  rf_file_path :: string
  rf_line_start :: int
  rf_line_end :: int
  rf_title :: string
  rf_rationale :: string
  rf_confidence :: rat
  rf_verified :: bool
  rf_verification_method :: verification_method
  rf_public_safe :: bool
  rf_status :: finding_status
  rf_model_call_id :: "uuid option"
  rf_verification_reason :: "string option"
  rf_sandbox_run_id :: "string option"
  rf_command_id :: "string option"
  rf_verification_detail :: "string option"
  rf_created_at :: timestamp

record context_source_row =
  cs_finding_id :: string
  cs_kind :: source_kind
  cs_name :: string
  cs_reference :: string

record installation_row =
  in_id :: int
  in_account_login :: string
  in_revoked_at :: "timestamp option"

record repository_row =
  rp_id :: uuid
  rp_installation_id :: int
  rp_github_repository_id :: int
  rp_name :: string

datatype runner_mode = Analysis_Only | Full

record runner_row =
  rn_id :: uuid
  rn_device_name :: string
  rn_credential_hash :: string
  rn_mode :: runner_mode
  rn_docker_available :: bool
  rn_retrieval_available :: bool
  rn_verification_available :: bool
  rn_platform :: string
  rn_version :: string
  rn_revoked_at :: "timestamp option"
  rn_github_user_id :: "int option"
  rn_installation_id :: "int option"

record assignment_row =
  as_repository_id :: uuid
  as_runner_id :: uuid

record pairing_row =
  pc_id :: uuid
  pc_device_name :: string
  pc_code_hash :: string
  pc_challenge :: string
  pc_github_user_id :: "int option"
  pc_installation_id :: "int option"
  pc_repository_ids :: "uuid list option"
  pc_approved_at :: "timestamp option"
  pc_exchanged_at :: "timestamp option"
  pc_created_at :: timestamp

record oauth_state_row =
  os_state_hash :: string
  os_binding_hash :: string
  os_return_to :: string
  os_pairing_code_hash :: "string option"
  os_consumed_at :: "timestamp option"
  os_created_at :: timestamp

record budget_row =
  bu_installation_id :: int
  bu_github_repository_id :: int
  bu_max_tokens :: "int option"
  bu_max_cost_usd :: "usd option"
  bu_reserved_tokens :: int
  bu_reserved_cost_usd :: usd
  bu_spent_tokens :: int
  bu_spent_cost_usd :: usd

datatype reservation_status = Held | Released | Committed

record reservation_row =
  rs_job_id :: uuid
  rs_installation_id :: int
  rs_github_repository_id :: int
  rs_tokens :: int
  rs_cost_usd :: usd
  rs_status :: reservation_status

record hosted_db =
  github_deliveries :: "(string \<times> string) list"
  review_jobs :: "review_job list"
  agent_events :: "agent_event list"
  installations :: "installation_row list"
  repositories :: "repository_row list"
  runners :: "runner_row list"
  repository_assignments :: "assignment_row list"
  pairing_codes :: "pairing_row list"
  oauth_states :: "oauth_state_row list"
  repository_budgets :: "budget_row list"
  repository_budget_reservations :: "reservation_row list"
  model_calls :: "model_call_row list"
  review_findings :: "review_finding_row list"
  finding_context_sources :: "context_source_row list"

definition empty_db :: hosted_db where
  "empty_db = \<lparr>github_deliveries = [], review_jobs = [], agent_events = [], installations = [],
     repositories = [], runners = [], repository_assignments = [], pairing_codes = [],
     oauth_states = [], repository_budgets = [], repository_budget_reservations = [],
     model_calls = [], review_findings = [], finding_context_sources = []\<rparr>"

text \<open>\<open>insert into agent_events\<close>: the payload is checked, the job must exist (foreign
  key), the row goes last with the next value of the table's sequence.\<close>

definition insert_event :: "timestamp \<Rightarrow> uuid option \<Rightarrow> string \<Rightarrow> json \<Rightarrow> hosted_db \<Rightarrow> hosted_db result" where
  "insert_event now jid kind payload db =
     (case serialize_json_object payload of
        Inl e \<Rightarrow> Inl e
      | Inr v \<Rightarrow>
          if jid = None \<or> (\<exists>r \<in> set (review_jobs db). Some (rj_id r) = jid)
          then Inr (db\<lparr>agent_events := agent_events db @
                  [\<lparr>ae_sequence = Suc (length (agent_events db)), ae_review_job_id = jid,
                    ae_event_type = kind, ae_payload = v, ae_created_at = now\<rparr>]\<rparr>)
          else Inl ForeignKeyViolation)"

text \<open>\<^verbatim>\<open>record_event(review_job_id, event_type, payload)\<close>.\<close>

definition record_event :: "timestamp \<Rightarrow> uuid \<Rightarrow> string \<Rightarrow> json \<Rightarrow> hosted_db \<Rightarrow> hosted_db result" where
  "record_event now review_job_id event_type payload db =
     insert_event now (Some review_job_id) event_type payload db"

definition list_events_for_job :: "uuid \<Rightarrow> hosted_db \<Rightarrow> agent_event list" where
  "list_events_for_job review_job_id db =
     filter (\<lambda>e. ae_review_job_id e = Some review_job_id) (agent_events db)"

lemma insert_event_Inr:
  "insert_event now jid kind payload db = Inr db' \<Longrightarrow>
     flat_payload payload \<and>
     db' = db\<lparr>agent_events := agent_events db @
       [\<lparr>ae_sequence = Suc (length (agent_events db)), ae_review_job_id = jid,
         ae_event_type = kind, ae_payload = payload, ae_created_at = now\<rparr>]\<rparr>"
  by (auto simp: insert_event_def serialize_flat split: sum.splits if_splits)

lemma insert_event_ok:
  "flat_payload payload \<Longrightarrow> r \<in> set (review_jobs db) \<Longrightarrow> rj_id r = jid \<Longrightarrow>
   insert_event now (Some jid) kind payload db =
     Inr (db\<lparr>agent_events := agent_events db @
       [\<lparr>ae_sequence = Suc (length (agent_events db)), ae_review_job_id = Some jid,
         ae_event_type = kind, ae_payload = payload, ae_created_at = now\<rparr>]\<rparr>)"
  by (auto simp: insert_event_def serialize_json_object_def flat_payload_def)

end
