(* ===== verification/Github_Delivery.thy ===== *)
theory Github_Delivery
  imports Hosted_Db
begin

text \<open>
  The webhook contract: \<^verbatim>\<open>contracts/github.py\<close> (the frozen pydantic models with their field
  constraints), \<^verbatim>\<open>github/delivery.py\<close> (building a complete delivery from the body),
  \<^verbatim>\<open>github/lifecycle.py\<close> (which pull request action enqueues, cancels or is ignored) and
  \<^verbatim>\<open>github/verify_signature.py\<close> (the HMAC check).
\<close>

section \<open>The delivery contract\<close>

record repository_identity =
  ri_installation_id :: int
  ri_repository_id :: int
  ri_owner :: string
  ri_name :: string

record pull_request_ref =
  pr_owner :: string
  pr_repository :: string
  pr_number :: int

record github_delivery =
  gd_delivery_id :: string
  gd_event :: string
  gd_action :: string
  gd_repository_identity :: repository_identity
  gd_pull_request :: pull_request_ref
  gd_draft :: bool
  gd_base_sha :: string
  gd_head_sha :: string
  gd_repository :: string

text \<open>The constructors validate: \<open>Field(gt=0)\<close> and \<open>Field(min_length=1)\<close>.  A pydantic
  \<open>ValidationError\<close> is a \<open>ValueError\<close>.\<close>

definition make_repository_identity :: "int \<Rightarrow> int \<Rightarrow> string \<Rightarrow> string \<Rightarrow> repository_identity result" where
  "make_repository_identity inst repo owner name =
     (if 0 < inst \<and> 0 < repo \<and> owner \<noteq> [] \<and> name \<noteq> []
      then Inr \<lparr>ri_installation_id = inst, ri_repository_id = repo, ri_owner = owner, ri_name = name\<rparr>
      else Inl ValueError)"

definition make_pull_request_ref :: "string \<Rightarrow> string \<Rightarrow> int \<Rightarrow> pull_request_ref result" where
  "make_pull_request_ref owner repo n =
     (if owner \<noteq> [] \<and> repo \<noteq> [] \<and> 0 < n
      then Inr \<lparr>pr_owner = owner, pr_repository = repo, pr_number = n\<rparr> else Inl ValueError)"

text \<open>The \<open>default_repository\<close> validator fills the display name with \<open>owner/name\<close>.\<close>

definition make_github_delivery ::
  "string \<Rightarrow> string \<Rightarrow> string \<Rightarrow> repository_identity \<Rightarrow> pull_request_ref \<Rightarrow> bool \<Rightarrow> string \<Rightarrow> string
   \<Rightarrow> github_delivery result" where
  "make_github_delivery did ev act ident ref draft base head =
     (if did \<noteq> [] \<and> ev \<noteq> [] \<and> act \<noteq> [] \<and> base \<noteq> [] \<and> head \<noteq> []
      then Inr \<lparr>gd_delivery_id = did, gd_event = ev, gd_action = act, gd_repository_identity = ident,
                gd_pull_request = ref, gd_draft = draft, gd_base_sha = base, gd_head_sha = head,
                gd_repository = ri_owner ident @ ''/'' @ ri_name ident\<rparr>
      else Inl ValueError)"

section \<open>Building a delivery from a webhook body\<close>

fun json_string :: "json \<Rightarrow> string option" where
  "json_string (JStr s) = (if s = [] then None else Some s)"
| "json_string _ = None"

text \<open>\<^verbatim>\<open>pull_request.get("draft", False)\<close> must be a bool.\<close>

fun json_draft :: "json \<Rightarrow> bool option" where
  "json_draft (JObj kvs) =
     (case map_of kvs ''draft'' of
        None \<Rightarrow> Some False
      | Some (JBool b) \<Rightarrow> Some b
      | Some _ \<Rightarrow> None)"
| "json_draft _ = None"

definition delivery_from_webhook ::
  "(json \<Rightarrow> string) \<Rightarrow> string \<Rightarrow> string \<Rightarrow> json \<Rightarrow> github_delivery result" where
  "delivery_from_webhook repr delivery_id event_name payload =
     (if \<not> is_obj payload then Inl TypeError
      else case json_string (json_get payload ''action'') of None \<Rightarrow> Inl ValueError | Some action \<Rightarrow>
      let installation = json_get payload ''installation'';
          repository = json_get payload ''repository'';
          pull_request = json_get payload ''pull_request''
      in if \<not> is_obj installation \<or> \<not> is_obj repository \<or> \<not> is_obj pull_request then Inl ValueError
      else let owner_obj = json_get repository ''owner''
      in if \<not> is_obj owner_obj then Inl ValueError
      else case json_string (json_get owner_obj ''login'') of None \<Rightarrow> Inl ValueError | Some owner \<Rightarrow>
      case json_string (json_get repository ''name'') of None \<Rightarrow> Inl ValueError | Some name \<Rightarrow>
      let base = json_get pull_request ''base''; head = json_get pull_request ''head''
      in if \<not> is_obj base \<or> \<not> is_obj head then Inl ValueError
      else case json_draft pull_request of None \<Rightarrow> Inl ValueError | Some draft \<Rightarrow>
      bind_r (bind_r (json_item installation ''id'') py_int) (\<lambda>inst.
      bind_r (bind_r (json_item repository ''id'') py_int) (\<lambda>repo.
      bind_r (make_repository_identity inst repo owner name) (\<lambda>identity.
      bind_r (bind_r (json_item pull_request ''number'') py_int) (\<lambda>n.
      bind_r (make_pull_request_ref owner name n) (\<lambda>ref.
      bind_r (json_item base ''sha'') (\<lambda>base_sha.
      bind_r (json_item head ''sha'') (\<lambda>head_sha.
        make_github_delivery delivery_id event_name action identity ref draft
          (py_str repr base_sha) (py_str repr head_sha)))))))))"

section \<open>The action policy\<close>

datatype lifecycle_kind = Enqueue | Ignore | Cancel

definition enqueue_actions :: "string list" where
  "enqueue_actions = [''opened'', ''reopened'', ''ready_for_review'', ''synchronize'']"

definition cancel_actions :: "string list" where
  "cancel_actions = [''closed'', ''converted_to_draft'']"

definition reviewed_head_is_current :: "string \<Rightarrow> string \<Rightarrow> bool" where
  "reviewed_head_is_current reviewed_head_sha live_head_sha \<longleftrightarrow> reviewed_head_sha = live_head_sha"

definition handle_pull_request_event :: "github_delivery \<Rightarrow> lifecycle_kind" where
  "handle_pull_request_event d =
     (if gd_event d \<noteq> ''pull_request'' then Ignore
      else if gd_action d \<in> set cancel_actions then Cancel
      else if gd_action d \<notin> set enqueue_actions then Ignore
      else if gd_action d = ''opened'' \<and> gd_draft d then Ignore
      else Enqueue)"

section \<open>The signature\<close>

text \<open>\<open>hmac_sha256\<close> (secret, body) stands for \<^verbatim>\<open>hmac.new(secret, body, sha256).hexdigest()\<close>.\<close>

definition is_hex :: "char \<Rightarrow> bool" where
  "is_hex c \<longleftrightarrow> is_digit c \<or> ((97::nat) \<le> of_char c \<and> (of_char c :: nat) \<le> 102)
     \<or> ((65::nat) \<le> of_char c \<and> (of_char c :: nat) \<le> 70)"

definition signature_prefix :: string where
  "signature_prefix = ''sha256=''"

definition verify_github_signature ::
  "(string \<Rightarrow> string \<Rightarrow> string) \<Rightarrow> string \<Rightarrow> string \<Rightarrow> string \<Rightarrow> bool" where
  "verify_github_signature hmac_sha256 body signature secret =
     (if secret = [] \<or> \<not> startswith signature signature_prefix then False
      else let signature_hex = drop (length signature_prefix) signature
      in if \<not> (length signature_hex = 64 \<and> list_all is_hex signature_hex) then False
      else py_lower signature_hex = hmac_sha256 secret body)"

section \<open>Facts\<close>

text \<open>A delivery that is built satisfies every constraint of the contract.\<close>

definition valid_delivery :: "github_delivery \<Rightarrow> bool" where
  "valid_delivery d \<longleftrightarrow>
     gd_delivery_id d \<noteq> [] \<and> gd_event d \<noteq> [] \<and> gd_action d \<noteq> [] \<and>
     0 < ri_installation_id (gd_repository_identity d) \<and>
     0 < ri_repository_id (gd_repository_identity d) \<and>
     ri_owner (gd_repository_identity d) \<noteq> [] \<and> ri_name (gd_repository_identity d) \<noteq> [] \<and>
     0 < pr_number (gd_pull_request d) \<and> gd_base_sha d \<noteq> [] \<and> gd_head_sha d \<noteq> [] \<and>
     gd_repository d = ri_owner (gd_repository_identity d) @ ''/'' @ ri_name (gd_repository_identity d)"

lemma delivery_from_webhook_valid:
  "delivery_from_webhook repr did ev payload = Inr d \<Longrightarrow>
     valid_delivery d \<and> gd_delivery_id d = did \<and> gd_event d = ev"
  by (auto simp: delivery_from_webhook_def Let_def bind_r_Inr make_repository_identity_def
      make_pull_request_ref_def make_github_delivery_def valid_delivery_def
      split: option.splits if_splits)

end
