(* ===== verification/Review_Jobs.thy ===== *)
theory Review_Jobs
  imports Github_Delivery
begin

text \<open>
  The review job queue, \<^verbatim>\<open>jobs/*.py\<close> with \<^verbatim>\<open>contracts/errors.py\<close>: enqueue a job from a
  webhook payload (superseding the live jobs of the same pull request), cancel, claim under a
  lease with \<^verbatim>\<open>for update skip locked\<close>, complete, fail with a bounded number of attempts, renew
  the lease, requeue a dead job.  Every operation is a function on \<open>hosted_db\<close>; a raised
  exception rolls the transaction back, so it is the value \<open>Inl\<close> and the caller keeps its
  state.  The clock (\<open>now()\<close>), the generated identifiers and the rows that other transactions
  hold locked are arguments.  The second half proves what each operation does to the queue.
\<close>

section \<open>Constants and predicates\<close>

definition default_policy_version :: string where "default_policy_version = ''v1''"
definition default_budget_max_tokens :: int where "default_budget_max_tokens = 100000"
definition default_budget_max_cost_usd :: usd where "default_budget_max_cost_usd = 1"
definition max_review_job_attempts :: nat where "max_review_job_attempts = 3"
definition review_job_lease_interval :: timestamp where "review_job_lease_interval = minutes 5"
definition review_job_retry_interval :: timestamp where "review_job_retry_interval = minutes 1"

definition live :: "review_job \<Rightarrow> bool" where
  "live r \<longleftrightarrow> rj_status r \<in> {Pending, Running}"

text \<open>The pull request a row is about, when the row is identified.\<close>

definition pr_key :: "review_job \<Rightarrow> (int \<times> int \<times> int) option" where
  "pr_key r =
     (case (rj_installation_id r, rj_github_repository_id r, rj_pull_request_number r) of
        (Some i, Some g, Some n) \<Rightarrow> Some (i, g, n) | _ \<Rightarrow> None)"

definition for_pull_request :: "int \<Rightarrow> int \<Rightarrow> int \<Rightarrow> review_job \<Rightarrow> bool" where
  "for_pull_request i g n r \<longleftrightarrow>
     rj_installation_id r = Some i \<and> rj_github_repository_id r = Some g \<and> rj_pull_request_number r = Some n"

text \<open>The partial unique index \<open>review_jobs_one_active_head_idx\<close> and the primary key.\<close>

definition active_head :: "review_job \<Rightarrow> ((int \<times> int \<times> int) \<times> string) option" where
  "active_head r =
     (if live r then (case (pr_key r, rj_head_sha r) of (Some k, Some h) \<Rightarrow> Some (k, h) | _ \<Rightarrow> None) else None)"

definition one_active_head :: "review_job list \<Rightarrow> bool" where
  "one_active_head rows \<longleftrightarrow> distinct (List.map_filter active_head rows)"

definition jobs_unique :: "review_job list \<Rightarrow> bool" where
  "jobs_unique rows \<longleftrightarrow> distinct (map rj_id rows) \<and> one_active_head rows"

section \<open>Enqueue\<close>

definition pull_request_identity ::
  "(json \<Rightarrow> string) \<Rightarrow> json \<Rightarrow> (int \<times> int \<times> int \<times> string \<times> string) option result" where
  "pull_request_identity repr payload =
     (if \<not> is_obj payload then Inr None
      else let installation = json_get payload ''installation'';
               repository = json_get payload ''repository'';
               pull_request = json_get payload ''pull_request''
      in if \<not> is_obj installation \<or> \<not> is_obj repository \<or> \<not> is_obj pull_request then Inr None
      else let base = json_get pull_request ''base''; head = json_get pull_request ''head''
      in if \<not> is_obj base \<or> \<not> is_obj head then Inr None
      else
        (case bind_r (bind_r (json_item installation ''id'') py_int) (\<lambda>inst.
              bind_r (bind_r (json_item repository ''id'') py_int) (\<lambda>repo.
              bind_r (bind_r (json_item pull_request ''number'') py_int) (\<lambda>n.
              bind_r (json_item base ''sha'') (\<lambda>b.
              bind_r (json_item head ''sha'') (\<lambda>h.
                Inr (inst, repo, n, py_str repr b, py_str repr h)))))) of
           Inl e \<Rightarrow> if e \<in> {KeyError, TypeError, ValueError} then Inr None else Inl e
         | Inr (inst, repo, n, b, h) \<Rightarrow>
             if n \<le> 0 \<or> b = [] \<or> h = [] then Inr None else Inr (Some (inst, repo, n, b, h))))"

text \<open>A row with the defaults of the table.\<close>

definition new_review_job :: "timestamp \<Rightarrow> uuid \<Rightarrow> string option \<Rightarrow> review_job" where
  "new_review_job now jid delivery_id =
     \<lparr>rj_id = jid, rj_delivery_id = delivery_id, rj_pull_request_id = None, rj_status = Pending,
      rj_attempts = 0, rj_available_at = now, rj_locked_by = None, rj_locked_until = None,
      rj_last_error = None, rj_created_at = now, rj_updated_at = now, rj_installation_id = None,
      rj_github_repository_id = None, rj_pull_request_number = None, rj_base_sha = None,
      rj_head_sha = None, rj_policy_version = None, rj_budget_max_tokens = None,
      rj_budget_max_cost_usd = None, rj_trace_id = None, rj_lease_token_hash = None\<rparr>"

text \<open>The table after a statement, with its unique constraints enforced.\<close>

definition store_jobs :: "review_job list \<Rightarrow> hosted_db \<Rightarrow> hosted_db result" where
  "store_jobs rows db = (if jobs_unique rows then Inr (db\<lparr>review_jobs := rows\<rparr>) else Inl UniqueViolation)"

datatype enqueue_result = Enqueued | Duplicate | Ignored

definition seen_delivery :: "string \<Rightarrow> hosted_db \<Rightarrow> bool" where
  "seen_delivery d db \<longleftrightarrow> d \<in> fst ` set (github_deliveries db)"

definition retire_live :: "job_status \<Rightarrow> timestamp \<Rightarrow> int \<Rightarrow> int \<Rightarrow> int \<Rightarrow> review_job list \<Rightarrow> review_job list" where
  "retire_live st now inst repo n =
     update_where (\<lambda>r. for_pull_request inst repo n r \<and> live r)
       (\<lambda>r. r\<lparr>rj_status := st, rj_updated_at := now\<rparr>)"

definition enqueue_review_job ::
  "(json \<Rightarrow> string) \<Rightarrow> timestamp \<Rightarrow> uuid \<Rightarrow> uuid \<Rightarrow> string \<Rightarrow> string \<Rightarrow> json \<Rightarrow> hosted_db
   \<Rightarrow> (enqueue_result \<times> hosted_db) result" where
  "enqueue_review_job repr now new_id trace_id delivery_id event_name payload db =
     (if event_name \<noteq> ''pull_request'' then Inr (Ignored, db)
      else bind_r (pull_request_identity repr payload) (\<lambda>identity.
        if seen_delivery delivery_id db then Inr (Duplicate, db)
        else let db1 = db\<lparr>github_deliveries := github_deliveries db @ [(delivery_id, event_name)]\<rparr>;
                 plain = new_review_job now new_id (Some delivery_id)
        in case identity of
             None \<Rightarrow> bind_r (store_jobs (review_jobs db1 @ [plain]) db1) (\<lambda>db2. Inr (Enqueued, db2))
           | Some (inst, repo, n, base_sha, head_sha) \<Rightarrow>
               if fetchone (\<lambda>i. in_id i = inst) (installations db1) = None
               then bind_r (store_jobs (review_jobs db1 @ [plain]) db1) (\<lambda>db2. Inr (Enqueued, db2))
               else
                 let retired = retire_live Superseded now inst repo n (review_jobs db1);
                     row = plain\<lparr>rj_installation_id := Some inst, rj_github_repository_id := Some repo,
                       rj_pull_request_number := Some n, rj_base_sha := Some base_sha,
                       rj_head_sha := Some head_sha, rj_policy_version := Some default_policy_version,
                       rj_budget_max_tokens := Some default_budget_max_tokens,
                       rj_budget_max_cost_usd := Some default_budget_max_cost_usd,
                       rj_trace_id := Some trace_id\<rparr>
                 in if \<not> in_bigint repo \<or> \<not> in_integer n then Inl DataError
                    else bind_r (store_jobs (retired @ [row]) db1) (\<lambda>db2. Inr (Enqueued, db2))))"

section \<open>Cancel\<close>

datatype cancel_result = Cancel_Cancelled | Cancel_Duplicate

definition cancel_review_job :: "timestamp \<Rightarrow> github_delivery \<Rightarrow> hosted_db \<Rightarrow> cancel_result \<times> hosted_db" where
  "cancel_review_job now delivery db =
     (if seen_delivery (gd_delivery_id delivery) db then (Cancel_Duplicate, db)
      else (Cancel_Cancelled,
        db\<lparr>github_deliveries := github_deliveries db @ [(gd_delivery_id delivery, gd_event delivery)],
           review_jobs := retire_live Cancelled now
             (ri_installation_id (gd_repository_identity delivery))
             (ri_repository_id (gd_repository_identity delivery))
             (pr_number (gd_pull_request delivery)) (review_jobs db)\<rparr>))"

section \<open>Claim\<close>

definition claimable :: "timestamp \<Rightarrow> review_job \<Rightarrow> bool" where
  "claimable now r \<longleftrightarrow>
     (rj_status r = Pending \<and> rj_available_at r \<le> now) \<or>
     (rj_status r = Running \<and> (case rj_locked_until r of None \<Rightarrow> False | Some u \<Rightarrow> u \<le> now))"

definition claim_order :: "review_job \<Rightarrow> timestamp \<times> timestamp" where
  "claim_order r = (rj_available_at r, rj_created_at r)"

text \<open>\<^verbatim>\<open>select id ... order by available_at, created_at for update skip locked limit 1\<close>.\<close>

definition next_job :: "(review_job \<Rightarrow> bool) \<Rightarrow> uuid set \<Rightarrow> review_job list \<Rightarrow> review_job option" where
  "next_job p skip rows = first_by claim_order (filter (\<lambda>r. p r \<and> rj_id r \<notin> skip) rows)"

definition lease :: "timestamp \<Rightarrow> string \<Rightarrow> review_job \<Rightarrow> review_job" where
  "lease now worker r =
     r\<lparr>rj_status := Running, rj_locked_by := Some worker,
       rj_locked_until := Some (now + review_job_lease_interval),
       rj_attempts := rj_attempts r + 1, rj_updated_at := now\<rparr>"

definition claim_review_job ::
  "timestamp \<Rightarrow> uuid set \<Rightarrow> string \<Rightarrow> hosted_db \<Rightarrow> review_job option \<times> hosted_db" where
  "claim_review_job now skip worker_id db =
     (case next_job (claimable now) skip (review_jobs db) of
        None \<Rightarrow> (None, db)
      | Some j \<Rightarrow>
          (Some (lease now worker_id j),
           db\<lparr>review_jobs := update_where (\<lambda>r. rj_id r = rj_id j) (lease now worker_id) (review_jobs db)\<rparr>))"

section \<open>Complete, fail, renew, requeue\<close>

definition owned_by :: "uuid \<Rightarrow> string \<Rightarrow> review_job \<Rightarrow> bool" where
  "owned_by jid worker r \<longleftrightarrow> rj_id r = jid \<and> rj_status r = Running \<and> rj_locked_by r = Some worker"

definition complete_review_job :: "timestamp \<Rightarrow> uuid \<Rightarrow> string \<Rightarrow> hosted_db \<Rightarrow> hosted_db result" where
  "complete_review_job now job_id worker_id db =
     (if rowcount (owned_by job_id worker_id) (review_jobs db) \<noteq> 1 then Inl RuntimeError
      else Inr (db\<lparr>review_jobs := update_where (owned_by job_id worker_id)
             (\<lambda>r. r\<lparr>rj_status := Succeeded, rj_locked_by := None, rj_locked_until := None,
                    rj_updated_at := now\<rparr>) (review_jobs db)\<rparr>))"

datatype review_job_error_class = Worker_Crashed | Shutdown_Requested

fun error_value :: "review_job_error_class \<Rightarrow> string" where
  "error_value Worker_Crashed = ''worker_crashed''"
| "error_value Shutdown_Requested = ''shutdown_requested''"

definition fail_row :: "timestamp \<Rightarrow> review_job_error_class \<Rightarrow> review_job \<Rightarrow> review_job" where
  "fail_row now error r =
     r\<lparr>rj_status := (if max_review_job_attempts \<le> rj_attempts r then Failed else Pending),
       rj_available_at := (if max_review_job_attempts \<le> rj_attempts r then rj_available_at r
                           else now + review_job_retry_interval),
       rj_locked_by := None, rj_locked_until := None, rj_last_error := Some (error_value error),
       rj_updated_at := now\<rparr>"

text \<open>\<open>None\<close> stands for an \<open>error\<close> argument that is not a \<open>ReviewJobErrorClass\<close>.\<close>

definition fail_review_job ::
  "timestamp \<Rightarrow> uuid \<Rightarrow> string \<Rightarrow> review_job_error_class option \<Rightarrow> hosted_db \<Rightarrow> hosted_db result" where
  "fail_review_job now job_id worker_id error db =
     (case error of None \<Rightarrow> Inl TypeError | Some err \<Rightarrow>
        (case fetchone (owned_by job_id worker_id) (review_jobs db) of
           None \<Rightarrow> Inl RuntimeError
         | Some j \<Rightarrow>
             let status = rj_status (fail_row now err j);
                 db1 = db\<lparr>review_jobs := update_where (owned_by job_id worker_id) (fail_row now err) (review_jobs db)\<rparr>
             in insert_event now (Some job_id)
                  (if status = Failed then ''review_job_failed'' else ''review_job_retry_scheduled'')
                  (JObj [(''error'', JStr (error_value err)), (''status'', JStr (status_text status))]) db1))"

definition leased_by :: "timestamp \<Rightarrow> uuid \<Rightarrow> string \<Rightarrow> review_job \<Rightarrow> bool" where
  "leased_by now jid worker r \<longleftrightarrow>
     owned_by jid worker r \<and> (case rj_locked_until r of None \<Rightarrow> False | Some u \<Rightarrow> now < u)"

definition extend_lease :: "timestamp \<Rightarrow> review_job \<Rightarrow> review_job" where
  "extend_lease now r = r\<lparr>rj_locked_until := Some (now + review_job_lease_interval), rj_updated_at := now\<rparr>"

definition renew_review_job_lease :: "timestamp \<Rightarrow> uuid \<Rightarrow> string \<Rightarrow> hosted_db \<Rightarrow> hosted_db result" where
  "renew_review_job_lease now job_id worker_id db =
     (if rowcount (leased_by now job_id worker_id) (review_jobs db) \<noteq> 1 then Inl RuntimeError
      else Inr (db\<lparr>review_jobs := update_where (leased_by now job_id worker_id) (extend_lease now) (review_jobs db)\<rparr>))"

definition dead_job_status :: "string \<Rightarrow> string" where
  "dead_job_status status = (if status = ''failed'' then ''dead'' else status)"

definition requeue_row :: "timestamp \<Rightarrow> review_job \<Rightarrow> review_job" where
  "requeue_row now r =
     r\<lparr>rj_status := Pending, rj_attempts := 0, rj_last_error := None, rj_locked_by := None,
       rj_locked_until := None, rj_available_at := now, rj_updated_at := now\<rparr>"

definition requeue_review_job :: "timestamp \<Rightarrow> uuid \<Rightarrow> hosted_db \<Rightarrow> hosted_db result" where
  "requeue_review_job now job_id db =
     (let dead = (\<lambda>r. rj_id r = job_id \<and> rj_status r = Failed)
      in if fetchone dead (review_jobs db) = None then Inl RuntimeError
         else store_jobs (update_where dead (requeue_row now) (review_jobs db)) db)"

section \<open>The queue invariants\<close>

text \<open>A running row carries a lease and has been counted; a pending row carries none.\<close>

definition row_ok :: "review_job \<Rightarrow> bool" where
  "row_ok r \<longleftrightarrow>
     (rj_status r = Running \<longrightarrow> rj_locked_by r \<noteq> None \<and> rj_locked_until r \<noteq> None \<and> 0 < rj_attempts r) \<and>
     (rj_status r = Pending \<longrightarrow> rj_locked_by r = None \<and> rj_locked_until r = None)"

definition deliveries_ok :: "hosted_db \<Rightarrow> bool" where
  "deliveries_ok db \<longleftrightarrow>
     distinct (map fst (github_deliveries db)) \<and>
     (\<forall>r \<in> set (review_jobs db). \<forall>d. rj_delivery_id r = Some d \<longrightarrow> seen_delivery d db)"

definition queue_ok :: "hosted_db \<Rightarrow> bool" where
  "queue_ok db \<longleftrightarrow> jobs_unique (review_jobs db) \<and> (\<forall>r \<in> set (review_jobs db). row_ok r) \<and> deliveries_ok db"

text \<open>At most one live job per pull request.\<close>

definition one_live_per_pr :: "review_job list \<Rightarrow> bool" where
  "one_live_per_pr rows \<longleftrightarrow>
     (\<forall>r \<in> set rows. \<forall>r' \<in> set rows. live r \<and> live r' \<and> pr_key r \<noteq> None \<and> pr_key r = pr_key r' \<longrightarrow> r = r')"

text \<open>Updates that keep the identity of the rows and never revive one.\<close>

definition same_identity :: "review_job \<Rightarrow> review_job \<Rightarrow> bool" where
  "same_identity r r' \<longleftrightarrow>
     rj_id r' = rj_id r \<and> rj_delivery_id r' = rj_delivery_id r \<and> rj_installation_id r' = rj_installation_id r \<and>
     rj_github_repository_id r' = rj_github_repository_id r \<and>
     rj_pull_request_number r' = rj_pull_request_number r \<and> rj_head_sha r' = rj_head_sha r \<and>
     rj_base_sha r' = rj_base_sha r \<and> rj_policy_version r' = rj_policy_version r \<and>
     rj_budget_max_tokens r' = rj_budget_max_tokens r \<and> rj_budget_max_cost_usd r' = rj_budget_max_cost_usd r \<and>
     rj_trace_id r' = rj_trace_id r"

definition quiet :: "(review_job \<Rightarrow> bool) \<Rightarrow> (review_job \<Rightarrow> review_job) \<Rightarrow> bool" where
  "quiet p f \<longleftrightarrow> (\<forall>r. p r \<longrightarrow> same_identity r (f r) \<and> (live (f r) \<longrightarrow> live r))"

lemma same_identity_pr_key: "same_identity r r' \<Longrightarrow> pr_key r' = pr_key r"
  by (simp add: same_identity_def pr_key_def)

lemma pr_key_for: "pr_key r = Some (i, g, n) \<longleftrightarrow> for_pull_request i g n r"
  by (auto simp: pr_key_def for_pull_request_def split: option.splits)

lemma quiet_active_head:
  assumes "quiet p f"
  shows "active_head (if p r then f r else r) = None \<or> active_head (if p r then f r else r) = active_head r"
proof (cases "p r")
  case True
  with assms have "same_identity r (f r)" "live (f r) \<longrightarrow> live r" by (auto simp: quiet_def)
  moreover from this have "pr_key (f r) = pr_key r" "rj_head_sha (f r) = rj_head_sha r"
    by (auto intro: same_identity_pr_key) (simp_all add: same_identity_def)
  ultimately show ?thesis using True by (auto simp: active_head_def)
qed simp

lemma quiet_unique:
  assumes "quiet p f" "jobs_unique rows"
  shows "jobs_unique (update_where p f rows)"
proof -
  have "map rj_id (update_where p f rows) = map rj_id rows"
    using assms(1) by (intro map_update_where) (auto simp: quiet_def same_identity_def)
  moreover have "one_active_head (update_where p f rows)"
    unfolding one_active_head_def map_filter_update_where
    by (rule distinct_map_filter_weaken [where k = active_head])
       (use quiet_active_head [OF assms(1)] assms(2) in \<open>simp_all add: jobs_unique_def one_active_head_def\<close>)
  ultimately show ?thesis using assms(2) by (simp add: jobs_unique_def)
qed

lemma quiet_one_live:
  assumes "quiet p f" "one_live_per_pr rows" "jobs_unique rows"
  shows "one_live_per_pr (update_where p f rows)"
proof -
  have image: "live x \<longrightarrow> live r" "pr_key x = pr_key r"
    if "x = (if p r then f r else r)" for x r
    using assms(1) that by (auto simp: quiet_def intro: same_identity_pr_key)
  have "x = y" if x: "x \<in> set (update_where p f rows)" and y: "y \<in> set (update_where p f rows)"
    and live: "live x" "live y" "pr_key x \<noteq> None" "pr_key x = pr_key y" for x y
  proof -
    from x y obtain r s where
      r: "r \<in> set rows" "x = (if p r then f r else r)" and s: "s \<in> set rows" "y = (if p s then f s else s)"
      by (auto simp: set_update_where)
    from image [OF r(2)] image [OF s(2)] live have "live r" "live s" "pr_key r \<noteq> None" "pr_key r = pr_key s"
      by metis+
    with r s assms(2) have "r = s" unfolding one_live_per_pr_def by blast
    with r s show ?thesis by simp
  qed
  then show ?thesis unfolding one_live_per_pr_def by blast
qed

lemma quiet_deliveries:
  "quiet p f \<Longrightarrow> deliveries_ok db \<Longrightarrow> deliveries_ok (db\<lparr>review_jobs := update_where p f (review_jobs db)\<rparr>)"
  by (auto simp: deliveries_ok_def set_update_where seen_delivery_def quiet_def same_identity_def)

lemma quiet_queue:
  "quiet p f \<Longrightarrow> queue_ok db \<Longrightarrow> (\<And>r. r \<in> set (review_jobs db) \<Longrightarrow> p r \<Longrightarrow> row_ok (f r)) \<Longrightarrow>
   queue_ok (db\<lparr>review_jobs := update_where p f (review_jobs db)\<rparr>)"
  using quiet_unique quiet_deliveries by (auto simp: queue_ok_def set_update_where)

named_theorems quiet_intros \<open>the updates of the queue that keep identities and revive no row\<close>

lemma quiet_retire [quiet_intros]:
  "st \<notin> {Pending, Running} \<Longrightarrow> quiet p (\<lambda>r. r\<lparr>rj_status := st, rj_updated_at := now\<rparr>)"
  by (auto simp: quiet_def same_identity_def live_def)

lemma quiet_lease [quiet_intros]:
  "(\<And>r. p r \<Longrightarrow> live r) \<Longrightarrow> quiet p (lease now w)"
  by (auto simp: quiet_def same_identity_def live_def lease_def)

lemma quiet_complete [quiet_intros]:
  "quiet p (\<lambda>r. r\<lparr>rj_status := Succeeded, rj_locked_by := None, rj_locked_until := None, rj_updated_at := now\<rparr>)"
  by (auto simp: quiet_def same_identity_def live_def)

lemma quiet_fail [quiet_intros]: "(\<And>r. p r \<Longrightarrow> live r) \<Longrightarrow> quiet p (fail_row now e)"
  by (auto simp: quiet_def same_identity_def live_def fail_row_def)

lemma quiet_extend [quiet_intros]: "quiet p (extend_lease now)"
  by (auto simp: quiet_def same_identity_def live_def extend_lease_def)

lemma owned_live: "owned_by jid w r \<Longrightarrow> live r"
  by (simp add: owned_by_def live_def)

lemma claimable_live: "claimable now r \<Longrightarrow> live r"
  by (auto simp: claimable_def live_def)

text \<open>The frame of a queue update: other tables and events are untouched.\<close>

lemma next_job_Some:
  assumes "next_job p skip rows = Some j"
  shows "j \<in> set rows \<and> p j \<and> rj_id j \<notin> skip \<and>
     (\<forall>r \<in> set rows. p r \<and> rj_id r \<notin> skip \<longrightarrow> claim_order j \<le> claim_order r)"
  using first_by_in [OF assms [unfolded next_job_def]] first_by_least [OF assms [unfolded next_job_def]]
  by auto

lemma next_job_None: "next_job p skip rows = None \<longleftrightarrow> (\<forall>r \<in> set rows. p r \<longrightarrow> rj_id r \<in> skip)"
  by (auto simp: next_job_def filter_empty_conv)

section \<open>Preservation, operation by operation\<close>

lemma store_jobs_Inr: "store_jobs rows db = Inr db' \<longleftrightarrow> jobs_unique rows \<and> db' = db\<lparr>review_jobs := rows\<rparr>"
  by (auto simp: store_jobs_def)

lemma retire_live_queue:
  "queue_ok db \<Longrightarrow> st \<notin> {Pending, Running} \<Longrightarrow>
   queue_ok (db\<lparr>review_jobs := retire_live st now i g n (review_jobs db)\<rparr>)"
  unfolding retire_live_def by (rule quiet_queue) (auto intro: quiet_intros simp: row_ok_def)

lemma retire_live_none:
  "st \<notin> {Pending, Running} \<Longrightarrow> r \<in> set (retire_live st now i g n rows) \<Longrightarrow> live r \<Longrightarrow> pr_key r \<noteq> Some (i, g, n)"
  by (auto simp: retire_live_def set_update_where live_def pr_key_for for_pull_request_def split: if_splits)

lemma retire_live_one:
  "one_live_per_pr rows \<Longrightarrow> jobs_unique rows \<Longrightarrow> st \<notin> {Pending, Running} \<Longrightarrow>
   one_live_per_pr (retire_live st now i g n rows)"
  unfolding retire_live_def by (rule quiet_one_live) (auto intro: quiet_intros)

text \<open>What an enqueue leaves, in the three cases.\<close>

definition enqueued_row ::
  "timestamp \<Rightarrow> uuid \<Rightarrow> uuid \<Rightarrow> string \<Rightarrow> int \<Rightarrow> int \<Rightarrow> int \<Rightarrow> string \<Rightarrow> string \<Rightarrow> review_job" where
  "enqueued_row now new_id trace_id did inst repo n base_sha head_sha =
     (new_review_job now new_id (Some did))\<lparr>rj_installation_id := Some inst,
       rj_github_repository_id := Some repo,
       rj_pull_request_number := Some n, rj_base_sha := Some base_sha,
       rj_head_sha := Some head_sha, rj_policy_version := Some default_policy_version,
       rj_budget_max_tokens := Some default_budget_max_tokens,
       rj_budget_max_cost_usd := Some default_budget_max_cost_usd,
       rj_trace_id := Some trace_id\<rparr>"

lemma enqueue_cases:
  assumes "enqueue_review_job repr now new_id trace_id did ev payload db = Inr (res, db')"
  obtains
    (ignored) "ev \<noteq> ''pull_request''" "res = Ignored" "db' = db"
  | (duplicate) "ev = ''pull_request''" "seen_delivery did db" "res = Duplicate" "db' = db"
  | (plain) "ev = ''pull_request''" "\<not> seen_delivery did db" "res = Enqueued"
      "jobs_unique (review_jobs db @ [new_review_job now new_id (Some did)])"
      "db' = db\<lparr>github_deliveries := github_deliveries db @ [(did, ev)],
                review_jobs := review_jobs db @ [new_review_job now new_id (Some did)]\<rparr>"
  | (identified) inst repo n base_sha head_sha where
      "ev = ''pull_request''" "\<not> seen_delivery did db" "res = Enqueued"
      "pull_request_identity repr payload = Inr (Some (inst, repo, n, base_sha, head_sha))"
      "\<exists>i \<in> set (installations db). in_id i = inst"
      "jobs_unique (retire_live Superseded now inst repo n (review_jobs db) @
         [enqueued_row now new_id trace_id did inst repo n base_sha head_sha])"
      "db' = db\<lparr>github_deliveries := github_deliveries db @ [(did, ev)],
                review_jobs := retire_live Superseded now inst repo n (review_jobs db) @
                  [enqueued_row now new_id trace_id did inst repo n base_sha head_sha]\<rparr>"
proof (cases "ev = ''pull_request'' \<and> \<not> seen_delivery did db")
  case False
  with assms that(1, 2) show thesis
    by (auto simp: enqueue_review_job_def bind_r_Inr split: if_splits)
next
  case True
  then obtain identity where i: "pull_request_identity repr payload = Inr identity"
    using assms by (auto simp: enqueue_review_job_def bind_r_Inr)
  show thesis
  proof (cases identity)
    case None
    with True i assms that(3) show thesis
      by (auto simp: enqueue_review_job_def store_jobs_Inr bind_r_Inr)
  next
    case (Some k)
    obtain inst repo n b h where k: "k = (inst, repo, n, b, h)" by (cases k) auto
    with True i Some assms that(3) that(4) [of inst repo n b h] show thesis
      by (auto simp: enqueue_review_job_def store_jobs_Inr bind_r_Inr enqueued_row_def
          fetchone_None Let_def split: if_splits)
  qed
qed

lemma enqueued_row_simps [simp]:
  "rj_status (enqueued_row now a b c i g n x y) = Pending"
  "rj_id (enqueued_row now a b c i g n x y) = a"
  "rj_delivery_id (enqueued_row now a b c i g n x y) = Some c"
  "pr_key (enqueued_row now a b c i g n x y) = Some (i, g, n)"
  "rj_head_sha (enqueued_row now a b c i g n x y) = Some y"
  "row_ok (enqueued_row now a b c i g n x y)"
  by (simp_all add: enqueued_row_def new_review_job_def pr_key_def row_ok_def)

lemma new_review_job_simps [simp]:
  "rj_status (new_review_job now a d) = Pending" "rj_id (new_review_job now a d) = a"
  "rj_delivery_id (new_review_job now a d) = d" "pr_key (new_review_job now a d) = None"
  "row_ok (new_review_job now a d)"
  by (simp_all add: new_review_job_def pr_key_def row_ok_def)

lemma add_job_queue:
  "queue_ok db \<Longrightarrow> \<not> seen_delivery did db \<Longrightarrow> rj_delivery_id row = Some did \<Longrightarrow> row_ok row \<Longrightarrow>
   jobs_unique (review_jobs db @ [row]) \<Longrightarrow>
   queue_ok (db\<lparr>github_deliveries := github_deliveries db @ [(did, ev)], review_jobs := review_jobs db @ [row]\<rparr>)"
  by (auto simp: queue_ok_def deliveries_ok_def seen_delivery_def)

lemma enqueue_queue_ok:
  assumes "queue_ok db" "enqueue_review_job repr now new_id trace_id did ev payload db = Inr (res, db')"
  shows "queue_ok db'"
  using assms(2)
proof (cases rule: enqueue_cases)
  case plain
  then show ?thesis using add_job_queue [OF assms(1)] by simp
next
  case (identified inst repo n b h)
  let ?db = "db\<lparr>review_jobs := retire_live Superseded now inst repo n (review_jobs db)\<rparr>"
  have "queue_ok ?db" using assms(1) by (rule retire_live_queue) simp
  then show ?thesis
    using add_job_queue [of ?db did "enqueued_row now new_id trace_id did inst repo n b h" ev] identified
    by (simp add: seen_delivery_def)
qed (use assms in simp_all)

lemma one_live_append:
  "one_live_per_pr rows \<Longrightarrow> (\<And>r. r \<in> set rows \<Longrightarrow> live r \<Longrightarrow> pr_key row = None \<or> pr_key r \<noteq> pr_key row) \<Longrightarrow>
   one_live_per_pr (rows @ [row])"
  unfolding one_live_per_pr_def by (intro ballI) (metis (no_types, lifting) Un_iff empty_iff empty_set
      list.simps(15) insert_iff set_append)

lemma enqueue_one_live:
  assumes "jobs_unique (review_jobs db)" "one_live_per_pr (review_jobs db)"
    "enqueue_review_job repr now new_id trace_id did ev payload db = Inr (res, db')"
  shows "one_live_per_pr (review_jobs db')"
  using assms(3)
proof (cases rule: enqueue_cases)
  case (identified inst repo n b h)
  then show ?thesis
    using retire_live_one [OF assms(2, 1), of Superseded now inst repo n]
      retire_live_none [of Superseded _ now inst repo n "review_jobs db"]
    by (auto intro!: one_live_append)
qed (use assms in \<open>auto intro: one_live_append\<close>)

lemma add_delivery_queue:
  "queue_ok db \<Longrightarrow> \<not> seen_delivery did db \<Longrightarrow>
   queue_ok (db\<lparr>github_deliveries := github_deliveries db @ [(did, ev)]\<rparr>)"
  by (auto simp: queue_ok_def deliveries_ok_def seen_delivery_def)

lemma cancel_queue_ok:
  assumes "queue_ok db"
  shows "queue_ok (snd (cancel_review_job now d db))"
proof (cases "seen_delivery (gd_delivery_id d) db")
  case True
  with assms show ?thesis by (simp add: cancel_review_job_def)
next
  case False
  let ?db = "db\<lparr>github_deliveries := github_deliveries db @ [(gd_delivery_id d, gd_event d)]\<rparr>"
  have "queue_ok ?db" using assms False by (rule add_delivery_queue)
  from retire_live_queue [OF this, of Cancelled now] False show ?thesis
    by (simp add: cancel_review_job_def)
qed

lemma cancel_one_live:
  "jobs_unique (review_jobs db) \<Longrightarrow> one_live_per_pr (review_jobs db) \<Longrightarrow>
   one_live_per_pr (review_jobs (snd (cancel_review_job now d db)))"
  by (auto simp: cancel_review_job_def intro: retire_live_one)

lemma lease_simps [simp]:
  "rj_id (lease now w r) = rj_id r" "rj_status (lease now w r) = Running"
  "rj_locked_by (lease now w r) = Some w" "rj_locked_until (lease now w r) = Some (now + review_job_lease_interval)"
  "rj_attempts (lease now w r) = rj_attempts r + 1" "row_ok (lease now w r)"
  by (simp_all add: lease_def row_ok_def)

lemma unique_id:
  "jobs_unique rows \<Longrightarrow> r \<in> set rows \<Longrightarrow> r' \<in> set rows \<Longrightarrow> rj_id r = rj_id r' \<Longrightarrow> r = r'"
  by (auto simp: jobs_unique_def intro: key_unique)

lemma update_by_id:
  "jobs_unique rows \<Longrightarrow> j \<in> set rows \<Longrightarrow>
   update_where (\<lambda>r. rj_id r = rj_id j) f rows = update_where (\<lambda>r. r = j) f rows"
  unfolding update_where_def using unique_id by (intro map_cong) auto

lemma claim_cases:
  assumes "jobs_unique (review_jobs db)"
  obtains
    (none) "claim_review_job now skip w db = (None, db)"
      "\<forall>r \<in> set (review_jobs db). claimable now r \<longrightarrow> rj_id r \<in> skip"
  | (some) j where
      "claim_review_job now skip w db = (Some (lease now w j),
         db\<lparr>review_jobs := update_where (\<lambda>r. r = j) (lease now w) (review_jobs db)\<rparr>)"
      "j \<in> set (review_jobs db)" "claimable now j" "rj_id j \<notin> skip"
      "\<forall>r \<in> set (review_jobs db). claimable now r \<and> rj_id r \<notin> skip \<longrightarrow> claim_order j \<le> claim_order r"
proof (cases "next_job (claimable now) skip (review_jobs db)")
  case None
  with that(1) show thesis by (simp add: claim_review_job_def next_job_None)
next
  case (Some j)
  from next_job_Some [OF this] have "j \<in> set (review_jobs db)" by blast
  with Some next_job_Some [OF Some] that(2) update_by_id [OF assms] show thesis
    by (simp add: claim_review_job_def)
qed

lemma claim_queue_ok:
  assumes "queue_ok db" "claim_review_job now skip w db = (res, db')"
  shows "queue_ok db'"
proof -
  have "jobs_unique (review_jobs db)" using assms(1) by (simp add: queue_ok_def)
  then show ?thesis
    by (cases rule: claim_cases [where now = now and skip = skip and w = w])
       (use assms in \<open>auto intro!: quiet_queue quiet_lease dest: claimable_live\<close>)
qed

lemma claim_one_live:
  assumes "jobs_unique (review_jobs db)" "one_live_per_pr (review_jobs db)"
    "claim_review_job now skip w db = (res, db')"
  shows "one_live_per_pr (review_jobs db')"
  using assms(1)
  by (cases rule: claim_cases [where now = now and skip = skip and w = w])
     (use assms in \<open>auto intro!: quiet_one_live quiet_lease dest: claimable_live\<close>)

lemma complete_Inr:
  "complete_review_job now jid w db = Inr db' \<Longrightarrow>
     db' = db\<lparr>review_jobs := update_where (owned_by jid w)
             (\<lambda>r. r\<lparr>rj_status := Succeeded, rj_locked_by := None, rj_locked_until := None,
                    rj_updated_at := now\<rparr>) (review_jobs db)\<rparr> \<and>
     (\<exists>r \<in> set (review_jobs db). owned_by jid w r)"
  using rowcount_zero [of "owned_by jid w" "review_jobs db"]
  by (auto simp: complete_review_job_def split: if_splits)

lemma complete_ok:
  "jobs_unique (review_jobs db) \<Longrightarrow>
   (\<exists>db'. complete_review_job now jid w db = Inr db') \<longleftrightarrow> (\<exists>r \<in> set (review_jobs db). owned_by jid w r)"
  using rowcount_key [of rj_id "review_jobs db" "owned_by jid w" jid]
  by (auto simp: complete_review_job_def jobs_unique_def owned_by_def split: if_splits)

lemma complete_queue_ok:
  "queue_ok db \<Longrightarrow> complete_review_job now jid w db = Inr db' \<Longrightarrow> queue_ok db'"
  by (drule complete_Inr) (auto intro!: quiet_queue quiet_complete simp: row_ok_def)

lemma complete_one_live:
  "jobs_unique (review_jobs db) \<Longrightarrow> one_live_per_pr (review_jobs db) \<Longrightarrow>
   complete_review_job now jid w db = Inr db' \<Longrightarrow> one_live_per_pr (review_jobs db')"
  by (drule complete_Inr) (auto intro!: quiet_one_live quiet_complete)

lemma renew_Inr:
  "renew_review_job_lease now jid w db = Inr db' \<Longrightarrow>
     db' = db\<lparr>review_jobs := update_where (leased_by now jid w) (extend_lease now) (review_jobs db)\<rparr>"
  by (auto simp: renew_review_job_lease_def split: if_splits)

lemma extend_row_ok: "row_ok r \<Longrightarrow> leased_by now jid w r \<Longrightarrow> row_ok (extend_lease now r)"
  by (simp add: row_ok_def extend_lease_def leased_by_def owned_by_def)

lemma queue_row_ok: "queue_ok db \<Longrightarrow> r \<in> set (review_jobs db) \<Longrightarrow> row_ok r"
  by (simp add: queue_ok_def)

lemma renew_queue_ok: "queue_ok db \<Longrightarrow> renew_review_job_lease now jid w db = Inr db' \<Longrightarrow> queue_ok db'"
  by (drule renew_Inr) (auto intro!: quiet_queue quiet_extend extend_row_ok intro: queue_row_ok)

lemma renew_one_live:
  "jobs_unique (review_jobs db) \<Longrightarrow> one_live_per_pr (review_jobs db) \<Longrightarrow>
   renew_review_job_lease now jid w db = Inr db' \<Longrightarrow> one_live_per_pr (review_jobs db')"
  by (drule renew_Inr) (auto intro!: quiet_one_live quiet_extend)

lemma fail_cases:
  assumes "fail_review_job now jid w error db = Inr db'"
  obtains err j where "error = Some err" "j \<in> set (review_jobs db)" "owned_by jid w j"
    "db' = db\<lparr>review_jobs := update_where (owned_by jid w) (fail_row now err) (review_jobs db),
       agent_events := agent_events db @
         [\<lparr>ae_sequence = Suc (length (agent_events db)), ae_review_job_id = Some jid,
           ae_event_type = (if rj_status (fail_row now err j) = Failed then ''review_job_failed''
                            else ''review_job_retry_scheduled''),
           ae_payload = JObj [(''error'', JStr (error_value err)),
                              (''status'', JStr (status_text (rj_status (fail_row now err j))))],
           ae_created_at = now\<rparr>]\<rparr>"
  using assms
  by (auto simp: fail_review_job_def Let_def split: option.splits dest!: fetchone_Some insert_event_Inr)

lemma fail_queue_ok:
  assumes "queue_ok db" "fail_review_job now jid w error db = Inr db'"
  shows "queue_ok db'"
  using assms(2)
proof (cases rule: fail_cases)
  case (1 err j)
  have "queue_ok (db\<lparr>review_jobs := update_where (owned_by jid w) (fail_row now err) (review_jobs db)\<rparr>)"
    by (rule quiet_queue) (use assms in \<open>auto intro!: quiet_fail simp: owned_live row_ok_def fail_row_def\<close>)
  with 1 show ?thesis by (simp add: queue_ok_def deliveries_ok_def seen_delivery_def)
qed

lemma fail_one_live:
  assumes "jobs_unique (review_jobs db)" "one_live_per_pr (review_jobs db)"
    "fail_review_job now jid w error db = Inr db'"
  shows "one_live_per_pr (review_jobs db')"
  using assms(3)
  by (cases rule: fail_cases) (use assms in \<open>auto intro!: quiet_one_live quiet_fail simp: owned_live\<close>)

lemma requeue_Inr:
  "requeue_review_job now jid db = Inr db' \<Longrightarrow>
     (\<exists>r \<in> set (review_jobs db). rj_id r = jid \<and> rj_status r = Failed) \<and> jobs_unique (review_jobs db') \<and>
     db' = db\<lparr>review_jobs := update_where (\<lambda>r. rj_id r = jid \<and> rj_status r = Failed) (requeue_row now) (review_jobs db)\<rparr>"
  by (auto simp: requeue_review_job_def Let_def store_jobs_Inr fetchone_None split: if_splits)

lemma requeue_queue_ok:
  assumes "queue_ok db" "requeue_review_job now jid db = Inr db'"
  shows "queue_ok db'"
  using requeue_Inr [OF assms(2)] assms(1)
  by (auto simp: queue_ok_def set_update_where row_ok_def requeue_row_def deliveries_ok_def seen_delivery_def)

lemmas queue_ok_operations =
  enqueue_queue_ok claim_queue_ok complete_queue_ok renew_queue_ok fail_queue_ok requeue_queue_ok

lemmas one_live_operations =
  enqueue_one_live claim_one_live complete_one_live renew_one_live fail_one_live

section \<open>Properties\<close>

text \<open>A queue with two identified jobs of one installation, one pending and one dead, for the
  concrete instances below.\<close>

definition sample_pending :: review_job where
  "sample_pending = enqueued_row 0 ''j1'' ''t1'' ''d1'' 7 9 3 ''b1'' ''h2''"

definition sample_dead :: review_job where
  "sample_dead = (enqueued_row 0 ''j0'' ''t0'' ''d0'' 7 9 3 ''b0'' ''h1'')
     \<lparr>rj_status := Failed, rj_attempts := 3, rj_last_error := Some ''worker_crashed''\<rparr>"

definition sample_db :: hosted_db where
  "sample_db = empty_db\<lparr>github_deliveries := [(''d0'', ''pull_request''), (''d1'', ''pull_request'')],
     installations := [\<lparr>in_id = 7, in_account_login = ''acme'', in_revoked_at = None\<rparr>],
     review_jobs := [sample_dead, sample_pending]\<rparr>"

definition sample_leased :: hosted_db where
  "sample_leased = sample_db\<lparr>review_jobs := [sample_dead, lease 0 ''w'' sample_pending]\<rparr>"

lemmas sample_defs = sample_pending_def sample_dead_def sample_db_def sample_leased_def empty_db_def
  enqueued_row_def new_review_job_def

lemma sample_queue_ok: "queue_ok sample_db" "queue_ok sample_leased"
  by (simp_all add: sample_defs queue_ok_def jobs_unique_def one_active_head_def map_filter_simps
      active_head_def live_def pr_key_def row_ok_def deliveries_ok_def seen_delivery_def lease_def)

text \<open>A claim either finds no claimable row that is not locked by another transaction, and
  then changes nothing, or it takes a least one in the order (available at, created at), puts the
  lease of the worker on exactly that row, counts the attempt and leaves every other row and
  table as they were.\<close>

theorem claim_review_job_spec:
  assumes "queue_ok db" "claim_review_job now skip worker db = (res, db')"
  shows "(res = None \<and> db' = db \<and> (\<forall>r \<in> set (review_jobs db). claimable now r \<longrightarrow> rj_id r \<in> skip)) \<or>
     (\<exists>j \<in> set (review_jobs db). claimable now j \<and> rj_id j \<notin> skip \<and>
        (\<forall>r \<in> set (review_jobs db). claimable now r \<and> rj_id r \<notin> skip \<longrightarrow>
           (rj_available_at j, rj_created_at j) \<le> (rj_available_at r, rj_created_at r)) \<and>
        res = Some (j\<lparr>rj_status := Running, rj_locked_by := Some worker,
           rj_locked_until := Some (now + minutes 5), rj_attempts := rj_attempts j + 1, rj_updated_at := now\<rparr>) \<and>
        db' = db\<lparr>review_jobs := map (\<lambda>r. if r = j then the res else r) (review_jobs db)\<rparr>)"
proof -
  from assms(1) have "jobs_unique (review_jobs db)" by (simp add: queue_ok_def)
  then show ?thesis
  proof (cases rule: claim_cases [where now = now and skip = skip and w = worker])
    case none
    with assms(2) show ?thesis by simp
  next
    case (some j)
    have "update_where (\<lambda>r. r = j) (lease now worker) (review_jobs db) =
        map (\<lambda>r. if r = j then lease now worker j else r) (review_jobs db)"
      by (auto simp: update_where_def)
    with some assms(2) show ?thesis
      by (auto simp: claim_order_def lease_def review_job_lease_interval_def intro!: bexI [of _ j])
  qed
qed

theorem claim_review_job_spec_witness:
  "fst (claim_review_job 5 {} ''w'' sample_db) = Some (lease 5 ''w'' sample_pending) \<and>
   (\<exists>j \<in> set (review_jobs sample_db). claimable 5 j)"
proof -
  obtain res db' where r: "claim_review_job 5 {} ''w'' sample_db = (res, db')" by (meson surj_pair)
  have "claimable 5 sample_pending" "\<not> claimable 5 sample_dead"
    by (simp_all add: claimable_def sample_defs)
  then show ?thesis
    using claim_review_job_spec [OF sample_queue_ok(1) r] r
    by (auto simp: sample_db_def empty_db_def lease_def review_job_lease_interval_def)
qed

text \<open>Redelivery is idempotent: once a \<open>pull_request\<close> delivery has been accepted, enqueueing
  the same delivery identifier again, at any time, reports a duplicate and changes nothing, and a
  cancel with that identifier does the same.\<close>

theorem enqueue_redelivery_idempotent:
  assumes "enqueue_review_job repr now new_id trace_id did ''pull_request'' payload db = Inr (res, db')"
  shows "enqueue_review_job repr now' new_id' trace_id' did ''pull_request'' payload db' = Inr (Duplicate, db') \<and>
    (\<forall>d. gd_delivery_id d = did \<longrightarrow> cancel_review_job now' d db' = (Cancel_Duplicate, db'))"
proof -
  from assms have "seen_delivery did db'"
    by (cases rule: enqueue_cases) (auto simp: seen_delivery_def)
  moreover from assms obtain i where "pull_request_identity repr payload = Inr i"
    by (auto simp: enqueue_review_job_def bind_r_Inr)
  ultimately show ?thesis by (simp add: enqueue_review_job_def cancel_review_job_def)
qed

theorem enqueue_redelivery_idempotent_witness:
  "enqueue_review_job (\<lambda>_. []) 1 ''x'' ''y'' ''d'' ''pull_request'' JNull
     (snd (projr (enqueue_review_job (\<lambda>_. []) 0 ''a'' ''t'' ''d'' ''pull_request'' JNull empty_db)))
   = Inr (Duplicate, snd (projr (enqueue_review_job (\<lambda>_. []) 0 ''a'' ''t'' ''d'' ''pull_request'' JNull empty_db)))"
proof -
  have "enqueue_review_job (\<lambda>_. []) 0 ''a'' ''t'' ''d'' ''pull_request'' JNull empty_db =
      Inr (Enqueued, snd (projr (enqueue_review_job (\<lambda>_. []) 0 ''a'' ''t'' ''d'' ''pull_request'' JNull empty_db)))"
    by (simp add: enqueue_review_job_def pull_request_identity_def seen_delivery_def empty_db_def
        store_jobs_def jobs_unique_def one_active_head_def map_filter_simps active_head_def Let_def)
  from enqueue_redelivery_idempotent [OF this] show ?thesis by blast
qed

lemma owned_unique:
  "queue_ok db \<Longrightarrow> j \<in> set (review_jobs db) \<Longrightarrow> rj_id j = jid \<Longrightarrow>
   r \<in> set (review_jobs db) \<Longrightarrow> owned_by jid w r \<Longrightarrow> r = j"
  using unique_id by (auto simp: owned_by_def queue_ok_def)

definition fail_event :: "timestamp \<Rightarrow> uuid \<Rightarrow> review_job_error_class \<Rightarrow> review_job \<Rightarrow> nat \<Rightarrow> agent_event" where
  "fail_event now jid err j n =
     \<lparr>ae_sequence = n, ae_review_job_id = Some jid,
      ae_event_type = (if rj_status (fail_row now err j) = Failed then ''review_job_failed''
                       else ''review_job_retry_scheduled''),
      ae_payload = JObj [(''error'', JStr (error_value err)),
                         (''status'', JStr (status_text (rj_status (fail_row now err j))))],
      ae_created_at = now\<rparr>"

lemma fail_owned:
  assumes "queue_ok db" "j \<in> set (review_jobs db)" "rj_id j = jid" "owned_by jid w j"
  shows "fail_review_job now jid w (Some err) db =
     Inr (db\<lparr>review_jobs := map (\<lambda>r. if r = j then fail_row now err j else r) (review_jobs db),
             agent_events := agent_events db @ [fail_event now jid err j (Suc (length (agent_events db)))]\<rparr>)"
proof -
  let ?j = "fail_row now err j"
  note only = owned_unique [OF assms(1-3)]
  have up: "update_where (owned_by jid w) (fail_row now err) (review_jobs db) =
      map (\<lambda>r. if r = j then ?j else r) (review_jobs db)"
    by (rule update_where_single) (use only assms(4) in blast)
  have one: "fetchone (owned_by jid w) (review_jobs db) = Some j"
    by (rule fetchone_single) (use only assms(2, 4) in blast)+
  let ?db = "db\<lparr>review_jobs := map (\<lambda>r. if r = j then ?j else r) (review_jobs db)\<rparr>"
  have there: "?j \<in> set (review_jobs ?db)" "rj_id ?j = jid"
    using assms(2, 3) by (force simp: fail_row_def)+
  have flat: "flat_payload (JObj [(''error'', JStr (error_value err)), (''status'', JStr (status_text (rj_status ?j)))])"
    by (simp add: flat_payload_def)
  show ?thesis
    unfolding fail_review_job_def option.case one Let_def up insert_event_ok [OF flat there]
    by (simp add: fail_event_def)
qed

lemma error_value_cases: "error_value err = ''worker_crashed'' \<or> error_value err = ''shutdown_requested''"
  by (cases err) simp_all

text \<open>Failing a job is bounded and owned: with a \<open>ReviewJobErrorClass\<close> it succeeds exactly
  when the worker holds the running row, it dies after the third attempt and is otherwise
  scheduled one minute later, exactly one event with a flat payload is appended, and every other
  row keeps its value; a value outside the closed error set is a \<open>TypeError\<close>.\<close>

theorem fail_review_job_spec:
  assumes "queue_ok db" "j \<in> set (review_jobs db)" "rj_id j = jid"
  shows "fail_review_job now jid w None db = Inl TypeError \<and>
    (\<not> owned_by jid w j \<longrightarrow> fail_review_job now jid w (Some err) db = Inl RuntimeError) \<and>
    (owned_by jid w j \<longrightarrow> (\<exists>j' e.
       fail_review_job now jid w (Some err) db =
         Inr (db\<lparr>review_jobs := map (\<lambda>r. if r = j then j' else r) (review_jobs db),
                 agent_events := agent_events db @ [e]\<rparr>) \<and>
       rj_locked_by j' = None \<and> rj_locked_until j' = None \<and> rj_attempts j' = rj_attempts j \<and>
       rj_last_error j' \<in> {Some ''worker_crashed'', Some ''shutdown_requested''} \<and>
       (if 3 \<le> rj_attempts j then rj_status j' = Failed \<and> ae_event_type e = ''review_job_failed''
        else rj_status j' = Pending \<and> rj_available_at j' = now + minutes 1 \<and>
             ae_event_type e = ''review_job_retry_scheduled'') \<and>
       flat_payload (ae_payload e) \<and> ae_review_job_id e = Some jid))"
proof (intro conjI impI)
  show "fail_review_job now jid w None db = Inl TypeError" by (simp add: fail_review_job_def)
  show "fail_review_job now jid w (Some err) db = Inl RuntimeError" if "\<not> owned_by jid w j"
    using that assms owned_unique [OF assms(1-3)]
    by (auto simp: fail_review_job_def fetchone_None split: option.splits dest!: fetchone_Some)
qed (rule exI [of _ "fail_row now err j"], rule exI [of _ "fail_event now jid err j (Suc (length (agent_events db)))"],
     use fail_owned [OF assms(1-3)] in
       \<open>simp add: fail_row_def fail_event_def flat_payload_def max_review_job_attempts_def
          review_job_retry_interval_def error_value_cases\<close>)

theorem fail_review_job_spec_witness:
  "\<exists>db'. fail_review_job 9 ''j1'' ''w'' (Some Worker_Crashed) sample_leased = Inr db'"
proof -
  let ?j = "lease 0 ''w'' sample_pending"
  have "?j \<in> set (review_jobs sample_leased)" "rj_id ?j = ''j1''" "owned_by ''j1'' ''w'' ?j"
    by (simp_all add: sample_leased_def sample_pending_def owned_by_def)
  with fail_review_job_spec [OF sample_queue_ok(2), of ?j "''j1''" 9 "''w''" Worker_Crashed] show ?thesis
    by blast
qed

end
