(* ===== verification/Repository_Policy.thy ===== *)
theory Repository_Policy
  imports Hosted_Db
begin

text \<open>
  Who may act on which repository: \<^verbatim>\<open>control_plane/repository_policy.py\<close> (installations,
  repositories, runners, assignments, authorization), \<^verbatim>\<open>control_plane/runner_auth.py\<close>
  (authentication and rotation of runner credentials) and
  \<^verbatim>\<open>control_plane/installation_lifecycle.py\<close> (installation webhooks).  \<open>hash\<close> is
  \<open>hash_runner_credential\<close>, SHA-256 in hexadecimal; no law of it is assumed.  Generated
  identifiers and secrets are arguments.  \<open>policy_ok\<close> is the schema of these tables: keys,
  unique constraints and foreign keys.
\<close>

section \<open>Installations and repositories\<close>

definition register_installation :: "int \<Rightarrow> string \<Rightarrow> hosted_db \<Rightarrow> hosted_db result" where
  "register_installation installation_id account_login db =
     (if \<not> in_bigint installation_id then Inl DataError
      else if \<exists>i \<in> set (installations db). in_id i = installation_id
      then Inr (db\<lparr>installations := update_where (\<lambda>i. in_id i = installation_id)
             (\<lambda>i. i\<lparr>in_account_login := account_login, in_revoked_at := None\<rparr>) (installations db)\<rparr>)
      else Inr (db\<lparr>installations := installations db @
             [\<lparr>in_id = installation_id, in_account_login = account_login, in_revoked_at = None\<rparr>]\<rparr>))"

definition revoke_installation :: "timestamp \<Rightarrow> int \<Rightarrow> hosted_db \<Rightarrow> hosted_db" where
  "revoke_installation now installation_id db =
     db\<lparr>installations := update_where (\<lambda>i. in_id i = installation_id \<and> in_revoked_at i = None)
        (\<lambda>i. i\<lparr>in_revoked_at := Some now\<rparr>) (installations db)\<rparr>"

definition repo_key :: "int \<Rightarrow> int \<Rightarrow> repository_row \<Rightarrow> bool" where
  "repo_key installation_id github_repository_id r \<longleftrightarrow>
     rp_installation_id r = installation_id \<and> rp_github_repository_id r = github_repository_id"

text \<open>\<^verbatim>\<open>insert ... on conflict (installation_id, github_repository_id) do update set name\<close>; the
  same statement is \<open>register_repository\<close> and \<open>_upsert_repository\<close> of the pairing module.\<close>

definition register_repository ::
  "uuid \<Rightarrow> int \<Rightarrow> int \<Rightarrow> string \<Rightarrow> hosted_db \<Rightarrow> (uuid \<times> hosted_db) result" where
  "register_repository new_id installation_id github_repository_id name db =
     (if \<not> in_bigint installation_id \<or> \<not> in_bigint github_repository_id then Inl DataError
      else case fetchone (repo_key installation_id github_repository_id) (repositories db) of
        Some r \<Rightarrow> Inr (rp_id r, db\<lparr>repositories :=
                     update_where (repo_key installation_id github_repository_id)
                       (\<lambda>r. r\<lparr>rp_name := name\<rparr>) (repositories db)\<rparr>)
      | None \<Rightarrow>
          if new_id \<in> rp_id ` set (repositories db) then Inl UniqueViolation
          else if \<forall>i \<in> set (installations db). in_id i \<noteq> installation_id then Inl ForeignKeyViolation
          else Inr (new_id, db\<lparr>repositories := repositories db @
                 [\<lparr>rp_id = new_id, rp_installation_id = installation_id,
                   rp_github_repository_id = github_repository_id, rp_name = name\<rparr>]\<rparr>))"

definition rename_repository :: "uuid \<Rightarrow> string \<Rightarrow> hosted_db \<Rightarrow> hosted_db" where
  "rename_repository repository_id new_name db =
     db\<lparr>repositories := update_where (\<lambda>r. rp_id r = repository_id) (\<lambda>r. r\<lparr>rp_name := new_name\<rparr>) (repositories db)\<rparr>"

section \<open>Runners and assignments\<close>

record runner_capabilities =
  cap_mode :: runner_mode
  cap_docker_available :: bool
  cap_retrieval_available :: bool
  cap_verification_available :: bool
  cap_platform :: string
  cap_version :: string

definition register_runner ::
  "(string \<Rightarrow> string) \<Rightarrow> uuid \<Rightarrow> string \<Rightarrow> string \<Rightarrow> runner_capabilities \<Rightarrow> int option \<Rightarrow> int option \<Rightarrow> hosted_db
   \<Rightarrow> (uuid \<times> hosted_db) result" where
  "register_runner hash new_id device_name credential capabilities github_user_id installation_id db =
     (if (github_user_id = None) \<noteq> (installation_id = None) then Inl ValueError
      else if new_id \<in> rn_id ` set (runners db) then Inl UniqueViolation
      else if installation_id \<noteq> None \<and> (\<forall>i \<in> set (installations db). Some (in_id i) \<noteq> installation_id)
      then Inl ForeignKeyViolation
      else Inr (new_id, db\<lparr>runners := runners db @
             [\<lparr>rn_id = new_id, rn_device_name = device_name, rn_credential_hash = hash credential,
               rn_mode = cap_mode capabilities, rn_docker_available = cap_docker_available capabilities,
               rn_retrieval_available = cap_retrieval_available capabilities,
               rn_verification_available = cap_verification_available capabilities,
               rn_platform = cap_platform capabilities, rn_version = cap_version capabilities,
               rn_revoked_at = None, rn_github_user_id = github_user_id,
               rn_installation_id = installation_id\<rparr>]\<rparr>))"

definition revoke_runner :: "timestamp \<Rightarrow> uuid \<Rightarrow> hosted_db \<Rightarrow> hosted_db" where
  "revoke_runner now runner_id db =
     db\<lparr>runners := update_where (\<lambda>r. rn_id r = runner_id \<and> rn_revoked_at r = None)
          (\<lambda>r. r\<lparr>rn_revoked_at := Some now\<rparr>) (runners db),
        repository_assignments := filter (\<lambda>a. as_runner_id a \<noteq> runner_id) (repository_assignments db)\<rparr>"

datatype assignment_result =
    Assignment_Granted uuid uuid
  | Assignment_Refused uuid uuid string

text \<open>A second assignment of a repository violates the unique constraint; the statement alone is
  rolled back (a savepoint) and the holder is read.\<close>

definition assign_repository_to_runner ::
  "uuid \<Rightarrow> uuid \<Rightarrow> hosted_db \<Rightarrow> (assignment_result \<times> hosted_db) result" where
  "assign_repository_to_runner repository_id runner_id db =
     (if repository_id \<in> as_repository_id ` set (repository_assignments db)
      then (case fetchone (\<lambda>(a, r). as_repository_id a = repository_id \<and> rn_id r = as_runner_id a)
                   (List.product (repository_assignments db) (runners db)) of
              None \<Rightarrow> Inl AssertionError
            | Some (a, r) \<Rightarrow> Inr (Assignment_Refused repository_id (rn_id r) (rn_device_name r), db))
      else if repository_id \<notin> rp_id ` set (repositories db) \<or> runner_id \<notin> rn_id ` set (runners db)
      then Inl ForeignKeyViolation
      else Inr (Assignment_Granted repository_id runner_id,
             db\<lparr>repository_assignments := repository_assignments db @
               [\<lparr>as_repository_id = repository_id, as_runner_id = runner_id\<rparr>]\<rparr>))"

section \<open>Authorization\<close>

datatype authorization_denial_reason =
    Unknown_Installation | Revoked_Installation | Unknown_Repository | Unknown_Runner | Revoked_Runner
  | Runner_Not_Assigned_To_Repository

record repository_authorization =
  ra_installation_id :: int
  ra_github_repository_id :: int
  ra_repository_id :: uuid
  ra_runner_id :: uuid

datatype authorization = Authorized repository_authorization | Authorization_Denied authorization_denial_reason

definition authorize_repository :: "int \<Rightarrow> int \<Rightarrow> uuid \<Rightarrow> hosted_db \<Rightarrow> authorization" where
  "authorize_repository installation_id github_repository_id runner_id db =
     (case fetchone (\<lambda>i. in_id i = installation_id) (installations db) of
        None \<Rightarrow> Authorization_Denied Unknown_Installation
      | Some installation \<Rightarrow>
      if in_revoked_at installation \<noteq> None then Authorization_Denied Revoked_Installation
      else case fetchone (repo_key installation_id github_repository_id) (repositories db) of
        None \<Rightarrow> Authorization_Denied Unknown_Repository
      | Some repository \<Rightarrow>
      (case fetchone (\<lambda>r. rn_id r = runner_id) (runners db) of
        None \<Rightarrow> Authorization_Denied Unknown_Runner
      | Some runner \<Rightarrow>
      if rn_revoked_at runner \<noteq> None then Authorization_Denied Revoked_Runner
      else case fetchone (\<lambda>a. as_repository_id a = rp_id repository \<and> as_runner_id a = runner_id)
             (repository_assignments db) of
        None \<Rightarrow> Authorization_Denied Runner_Not_Assigned_To_Repository
      | Some _ \<Rightarrow> Authorized \<lparr>ra_installation_id = installation_id,
           ra_github_repository_id = github_repository_id, ra_repository_id = rp_id repository,
           ra_runner_id = runner_id\<rparr>))"

section \<open>Runner credentials\<close>

datatype runner_auth_denial_reason = Unknown_Credential | Credential_Revoked_Runner

record authenticated_runner =
  ar_runner_id :: uuid
  ar_device_name :: string
  ar_mode :: runner_mode

definition authenticate_runner ::
  "(string \<Rightarrow> string) \<Rightarrow> string \<Rightarrow> hosted_db \<Rightarrow> runner_auth_denial_reason + authenticated_runner" where
  "authenticate_runner hash credential db =
     (case fetchone (\<lambda>r. rn_credential_hash r = hash credential) (runners db) of
        None \<Rightarrow> Inl Unknown_Credential
      | Some r \<Rightarrow>
          if rn_revoked_at r \<noteq> None then Inl Credential_Revoked_Runner
          else Inr \<lparr>ar_runner_id = rn_id r, ar_device_name = rn_device_name r, ar_mode = rn_mode r\<rparr>)"

definition rotate_runner_credential ::
  "(string \<Rightarrow> string) \<Rightarrow> string \<Rightarrow> uuid \<Rightarrow> string \<Rightarrow> hosted_db
   \<Rightarrow> (runner_auth_denial_reason + (uuid \<times> string)) \<times> hosted_db" where
  "rotate_runner_credential hash new_credential runner_id current_credential db =
     (let holds = (\<lambda>r. rn_id r = runner_id \<and> rn_credential_hash r = hash current_credential)
      in case fetchone holds (runners db) of
           None \<Rightarrow> (Inl Unknown_Credential, db)
         | Some r \<Rightarrow>
             if rn_revoked_at r \<noteq> None then (Inl Credential_Revoked_Runner, db)
             else (Inr (runner_id, new_credential),
                   db\<lparr>runners := update_where holds (\<lambda>r. r\<lparr>rn_credential_hash := hash new_credential\<rparr>) (runners db)\<rparr>))"

section \<open>Installation webhooks\<close>

definition register_actions :: "string list" where
  "register_actions = [''created'', ''unsuspend'', ''new_permissions_accepted'']"

definition revoke_actions :: "string list" where
  "revoke_actions = [''deleted'', ''suspend'']"

text \<open>\<open>isinstance(x, int)\<close>: a JSON bool passes too, and the \<open>bigint\<close> column then refuses it.\<close>

fun int_param :: "json \<Rightarrow> int result option" where
  "int_param (JInt i) = Some (Inr i)"
| "int_param (JBool b) = Some (Inl DatatypeMismatch)"
| "int_param _ = None"

text \<open>Every registration is a transaction of its own, so an exception leaves what earlier ones
  committed: these handlers return the state and the outcome.  \<open>fresh n\<close> is the identifier the
  database generates for the \<open>n\<close>-th new row.\<close>

fun register_repositories ::
  "(nat \<Rightarrow> uuid) \<Rightarrow> nat \<Rightarrow> int \<Rightarrow> (int \<times> string) list \<Rightarrow> hosted_db \<Rightarrow> hosted_db \<times> unit result" where
  "register_repositories fresh n installation_id [] db = (db, Inr ())"
| "register_repositories fresh n installation_id ((rid, name) # rs) db =
     (case register_repository (fresh n) installation_id rid name db of
        Inl e \<Rightarrow> (db, Inl e)
      | Inr (_, db') \<Rightarrow> register_repositories fresh (Suc n) installation_id rs db')"

definition sync_repositories ::
  "(int \<Rightarrow> (int \<times> string) list result) \<Rightarrow> (nat \<Rightarrow> uuid) \<Rightarrow> int \<Rightarrow> hosted_db \<Rightarrow> hosted_db \<times> unit result" where
  "sync_repositories list_installation_repositories fresh installation_id db =
     (case list_installation_repositories installation_id of
        Inl e \<Rightarrow> (db, Inl e)
      | Inr repos \<Rightarrow> register_repositories fresh 0 installation_id repos db)"

definition handle_installation_event ::
  "(int \<Rightarrow> (int \<times> string) list result) \<Rightarrow> (nat \<Rightarrow> uuid) \<Rightarrow> timestamp \<Rightarrow> json \<Rightarrow> hosted_db \<Rightarrow> hosted_db \<times> unit result" where
  "handle_installation_event list_installation_repositories fresh now payload db =
     (case (json_get payload ''action'', json_get payload ''installation'') of
        (JStr action, JObj inst) \<Rightarrow>
          (case (int_param (json_get (JObj inst) ''id''), json_get (JObj inst) ''account'') of
             (Some iid, JObj account) \<Rightarrow>
               (case json_get (JObj account) ''login'' of
                  JStr login \<Rightarrow>
                    if action \<in> set register_actions then
                      (case bind_r iid (\<lambda>i. register_installation i login db) of
                         Inl e \<Rightarrow> (db, Inl e)
                       | Inr db1 \<Rightarrow> sync_repositories list_installation_repositories fresh (projr iid) db1)
                    else if action \<in> set revoke_actions then
                      (case iid of Inl e \<Rightarrow> (db, Inl e) | Inr i \<Rightarrow> (revoke_installation now i db, Inr ()))
                    else (db, Inr ())
                | _ \<Rightarrow> (db, Inr ()))
           | _ \<Rightarrow> (db, Inr ()))
      | _ \<Rightarrow> (db, Inr ()))"

fun added_repositories :: "(nat \<Rightarrow> uuid) \<Rightarrow> nat \<Rightarrow> int result \<Rightarrow> json list \<Rightarrow> hosted_db \<Rightarrow> hosted_db \<times> unit result" where
  "added_repositories fresh n iid [] db = (db, Inr ())"
| "added_repositories fresh n iid (v # vs) db =
     (case (int_param (json_get v ''id''), json_get v ''full_name'') of
        (Some rid, JStr name) \<Rightarrow>
          (case bind_r iid (\<lambda>i. bind_r rid (\<lambda>r.
                  register_repository (fresh n) i r name db)) of
             Inl e \<Rightarrow> (db, Inl e)
           | Inr (_, db') \<Rightarrow> added_repositories fresh (Suc n) iid vs db')
      | _ \<Rightarrow> added_repositories fresh n iid vs db)"

definition handle_installation_repositories_event ::
  "(nat \<Rightarrow> uuid) \<Rightarrow> json \<Rightarrow> hosted_db \<Rightarrow> hosted_db \<times> unit result" where
  "handle_installation_repositories_event fresh payload db =
     (case (json_get payload ''installation'', json_get payload ''repositories_added'') of
        (JObj inst, JArr added) \<Rightarrow>
          (case int_param (json_get (JObj inst) ''id'') of
             Some iid \<Rightarrow> added_repositories fresh 0 iid added db
           | None \<Rightarrow> (db, Inr ()))
      | _ \<Rightarrow> (db, Inr ()))"

section \<open>The schema of the policy tables\<close>

definition policy_ok :: "hosted_db \<Rightarrow> bool" where
  "policy_ok db \<longleftrightarrow>
     distinct (map in_id (installations db)) \<and>
     distinct (map rp_id (repositories db)) \<and>
     distinct (map (\<lambda>r. (rp_installation_id r, rp_github_repository_id r)) (repositories db)) \<and>
     distinct (map rn_id (runners db)) \<and>
     distinct (map as_repository_id (repository_assignments db)) \<and>
     (\<forall>r \<in> set (repositories db). rp_installation_id r \<in> in_id ` set (installations db)) \<and>
     (\<forall>a \<in> set (repository_assignments db).
        as_repository_id a \<in> rp_id ` set (repositories db) \<and> as_runner_id a \<in> rn_id ` set (runners db)) \<and>
     (\<forall>r \<in> set (runners db). (rn_github_user_id r = None) = (rn_installation_id r = None))"

text \<open>An update that keeps a column keeps its list of values, hence distinctness and references.\<close>

lemma image_update_where:
  "(\<And>r. r \<in> set rows \<Longrightarrow> p r \<Longrightarrow> g (f r) = g r) \<Longrightarrow> g ` set (update_where p f rows) = g ` set rows"
  using map_update_where [of rows p g f] by (metis list.set_map)

lemma register_installation_policy:
  "policy_ok db \<Longrightarrow> register_installation i l db = Inr db' \<Longrightarrow> policy_ok db'"
  by (auto simp: register_installation_def policy_ok_def map_update_where image_update_where split: if_splits)

lemma revoke_installation_policy: "policy_ok db \<Longrightarrow> policy_ok (revoke_installation now i db)"
  by (simp add: revoke_installation_def policy_ok_def map_update_where image_update_where)

lemma register_repository_cases:
  assumes "register_repository new_id i g name db = Inr (rid, db')"
  obtains
    (old) r where "r \<in> set (repositories db)" "repo_key i g r" "rid = rp_id r"
      "db' = db\<lparr>repositories := update_where (repo_key i g) (\<lambda>r. r\<lparr>rp_name := name\<rparr>) (repositories db)\<rparr>"
  | (new) "rid = new_id" "new_id \<notin> rp_id ` set (repositories db)" "\<forall>r \<in> set (repositories db). \<not> repo_key i g r"
      "i \<in> in_id ` set (installations db)"
      "db' = db\<lparr>repositories := repositories db @ [\<lparr>rp_id = new_id, rp_installation_id = i,
                  rp_github_repository_id = g, rp_name = name\<rparr>]\<rparr>"
  using assms
  by (auto simp: register_repository_def split: if_splits option.splits dest!: fetchone_Some
      simp: fetchone_None)

lemma register_repository_policy:
  assumes "policy_ok db" "register_repository new_id i g name db = Inr (rid, db')"
  shows "policy_ok db' \<and> rid \<in> rp_id ` set (repositories db')"
  using assms(2)
proof (cases rule: register_repository_cases)
  case (old r)
  then show ?thesis using assms(1)
    by (auto simp: policy_ok_def map_update_where image_update_where repo_key_def in_update_where)
next
  case new
  then show ?thesis using assms(1) by (auto simp: policy_ok_def repo_key_def)
qed

lemma register_runner_policy:
  "policy_ok db \<Longrightarrow> register_runner hash nid dn c cap u i db = Inr (rid, db') \<Longrightarrow> policy_ok db'"
  by (auto simp: register_runner_def policy_ok_def split: if_splits)

lemma revoke_runner_policy: "policy_ok db \<Longrightarrow> policy_ok (revoke_runner now rid db)"
  by (auto simp: revoke_runner_def policy_ok_def map_update_where image_update_where in_update_where
      distinct_map_filter)

lemma assign_cases:
  assumes "assign_repository_to_runner rid run db = Inr (res, db')"
  obtains
    (refused) holder name where "res = Assignment_Refused rid holder name" "db' = db"
      "rid \<in> as_repository_id ` set (repository_assignments db)"
  | (granted) "res = Assignment_Granted rid run" "rid \<notin> as_repository_id ` set (repository_assignments db)"
      "rid \<in> rp_id ` set (repositories db)" "run \<in> rn_id ` set (runners db)"
      "db' = db\<lparr>repository_assignments := repository_assignments db @
               [\<lparr>as_repository_id = rid, as_runner_id = run\<rparr>]\<rparr>"
  using assms by (auto simp: assign_repository_to_runner_def split: if_splits option.splits)

lemma assign_policy:
  assumes "policy_ok db" "assign_repository_to_runner rid run db = Inr (res, db')"
  shows "policy_ok db'"
  using assms(2) by (cases rule: assign_cases) (use assms(1) in \<open>auto simp: policy_ok_def\<close>)

lemma rotate_policy:
  "policy_ok db \<Longrightarrow> policy_ok (snd (rotate_runner_credential hash nc rid c db))"
  by (auto simp: rotate_runner_credential_def Let_def policy_ok_def map_update_where image_update_where
      in_update_where split: option.splits)

lemma rename_policy: "policy_ok db \<Longrightarrow> policy_ok (rename_repository rid name db)"
  by (auto simp: rename_repository_def policy_ok_def map_update_where image_update_where in_update_where)

lemma register_repositories_policy:
  "policy_ok db \<Longrightarrow> policy_ok (fst (register_repositories fresh n i rs db))"
  by (induction fresh n i rs db rule: register_repositories.induct)
     (auto split: sum.splits dest: register_repository_policy)

lemma added_repositories_policy:
  "policy_ok db \<Longrightarrow> policy_ok (fst (added_repositories fresh n i vs db))"
  by (induction fresh n i vs db rule: added_repositories.induct)
     (auto split: sum.splits option.splits json.splits simp: bind_r_Inr dest: register_repository_policy)

lemma installation_event_policy:
  "policy_ok db \<Longrightarrow> policy_ok (fst (handle_installation_event lst fresh now payload db))"
  by (auto simp: handle_installation_event_def sync_repositories_def bind_r_Inr
      intro: register_repositories_policy revoke_installation_policy register_installation_policy
      split: json.splits option.splits sum.splits)

lemma installation_repositories_event_policy:
  "policy_ok db \<Longrightarrow> policy_ok (fst (handle_installation_repositories_event fresh payload db))"
  by (auto simp: handle_installation_repositories_event_def intro: added_repositories_policy
      split: json.splits option.splits)

section \<open>Properties\<close>

lemma authorize_Authorized:
  "authorize_repository i g run db = Authorized a \<Longrightarrow>
     (\<exists>inst \<in> set (installations db). in_id inst = i \<and> in_revoked_at inst = None) \<and>
     (\<exists>runner \<in> set (runners db). rn_id runner = run \<and> rn_revoked_at runner = None) \<and>
     (\<exists>r \<in> set (repositories db). repo_key i g r \<and> ra_repository_id a = rp_id r \<and>
        (\<exists>x \<in> set (repository_assignments db). as_repository_id x = rp_id r \<and> as_runner_id x = run)) \<and>
     ra_installation_id a = i \<and> ra_github_repository_id a = g \<and> ra_runner_id a = run"
  by (auto simp: authorize_repository_def split: option.splits if_splits dest!: fetchone_Some)

lemma authorize_complete:
  assumes "policy_ok db"
    "inst \<in> set (installations db)" "in_id inst = i" "in_revoked_at inst = None"
    "runner \<in> set (runners db)" "rn_id runner = run" "rn_revoked_at runner = None"
    "r \<in> set (repositories db)" "repo_key i g r"
    "x \<in> set (repository_assignments db)" "as_repository_id x = rp_id r" "as_runner_id x = run"
  shows "authorize_repository i g run db = Authorized \<lparr>ra_installation_id = i,
    ra_github_repository_id = g, ra_repository_id = rp_id r, ra_runner_id = run\<rparr>"
proof -
  have "fetchone (\<lambda>y. in_id y = i) (installations db) = Some inst"
    by (rule fetchone_key [where key = in_id]) (use assms in \<open>auto simp: policy_ok_def\<close>)
  moreover have "fetchone (repo_key i g) (repositories db) = Some r"
    by (rule fetchone_key [where key = "\<lambda>r. (rp_installation_id r, rp_github_repository_id r)"])
       (use assms in \<open>auto simp: policy_ok_def repo_key_def\<close>)
  moreover have "fetchone (\<lambda>y. rn_id y = run) (runners db) = Some runner"
    by (rule fetchone_key [where key = rn_id]) (use assms in \<open>auto simp: policy_ok_def\<close>)
  moreover obtain y where "fetchone (\<lambda>a. as_repository_id a = rp_id r \<and> as_runner_id a = run)
      (repository_assignments db) = Some y"
    using fetchone_exists [OF assms(10), of "\<lambda>a. as_repository_id a = rp_id r \<and> as_runner_id a = run"]
      assms by auto
  ultimately show ?thesis using assms by (simp add: authorize_repository_def)
qed

text \<open>A small tenant: installation 7 with repository 9 held by runner \<open>r1\<close>.\<close>

definition tenant_runner :: runner_row where
  "tenant_runner = \<lparr>rn_id = ''r1'', rn_device_name = ''laptop'', rn_credential_hash = ''h'',
     rn_mode = Analysis_Only, rn_docker_available = False, rn_retrieval_available = False,
     rn_verification_available = False, rn_platform = ''linux'', rn_version = ''1'',
     rn_revoked_at = None, rn_github_user_id = Some 5, rn_installation_id = Some 7\<rparr>"

definition tenant_db :: hosted_db where
  "tenant_db = empty_db\<lparr>
     installations := [\<lparr>in_id = 7, in_account_login = ''acme'', in_revoked_at = None\<rparr>],
     repositories := [\<lparr>rp_id = ''p9'', rp_installation_id = 7, rp_github_repository_id = 9, rp_name = ''acme/app''\<rparr>],
     runners := [tenant_runner],
     repository_assignments := [\<lparr>as_repository_id = ''p9'', as_runner_id = ''r1''\<rparr>]\<rparr>"

lemma tenant_policy: "policy_ok tenant_db"
  by (simp add: policy_ok_def tenant_db_def empty_db_def tenant_runner_def)

text \<open>C4. Authorization is exact: a runner is authorized for a repository of an installation if
  and only if the installation is registered and not revoked, the repository is registered under
  that very installation, the runner exists and is not revoked, and the repository is assigned to
  it.\<close>

theorem authorize_repository_exact:
  assumes "policy_ok db"
  shows "(\<exists>a. authorize_repository i g run db = Authorized a) \<longleftrightarrow>
    (\<exists>inst \<in> set (installations db). in_id inst = i \<and> in_revoked_at inst = None) \<and>
    (\<exists>runner \<in> set (runners db). rn_id runner = run \<and> rn_revoked_at runner = None) \<and>
    (\<exists>r \<in> set (repositories db). rp_installation_id r = i \<and> rp_github_repository_id r = g \<and>
       (\<exists>x \<in> set (repository_assignments db). as_repository_id x = rp_id r \<and> as_runner_id x = run))"
    (is "?L \<longleftrightarrow> ?R")
proof
  assume ?L
  then obtain a where "authorize_repository i g run db = Authorized a" by blast
  from authorize_Authorized [OF this] show ?R by (auto simp: repo_key_def)
next
  assume ?R
  then obtain inst runner r x where
    "inst \<in> set (installations db)" "in_id inst = i" "in_revoked_at inst = None"
    "runner \<in> set (runners db)" "rn_id runner = run" "rn_revoked_at runner = None"
    "r \<in> set (repositories db)" "repo_key i g r"
    "x \<in> set (repository_assignments db)" "as_repository_id x = rp_id r" "as_runner_id x = run"
    by (auto simp: repo_key_def)
  from authorize_complete [OF assms this] show ?L by blast
qed

theorem authorize_repository_exact_witness:
  "(\<exists>a. authorize_repository 7 9 ''r1'' tenant_db = Authorized a) \<and>
   \<not> (\<exists>a. authorize_repository 7 9 ''r2'' tenant_db = Authorized a)"
  unfolding authorize_repository_exact [OF tenant_policy]
  by (simp add: tenant_db_def empty_db_def tenant_runner_def)

lemma revoke_runner_frame [frame_simps]:
  "installations (revoke_runner now rid db) = installations db"
  "repositories (revoke_runner now rid db) = repositories db"
  "review_jobs (revoke_runner now rid db) = review_jobs db"
  by (simp_all add: revoke_runner_def)

text \<open>Revoking a runner is complete and local: afterwards no repository authorizes it and every
  repository it held can be assigned to another registered runner, while authorization of every
  other runner is what it was.\<close>

theorem revoke_runner_releases:
  assumes "policy_ok db" "x \<in> set (repository_assignments db)" "as_runner_id x = rid"
    "other \<noteq> rid" "other \<in> rn_id ` set (runners db)"
  shows "(\<forall>i g a. authorize_repository i g rid (revoke_runner now rid db) \<noteq> Authorized a) \<and>
    (\<exists>db'. assign_repository_to_runner (as_repository_id x) other (revoke_runner now rid db) =
       Inr (Assignment_Granted (as_repository_id x) other, db')) \<and>
    (\<forall>i g a. authorize_repository i g other (revoke_runner now rid db) = Authorized a \<longleftrightarrow>
       authorize_repository i g other db = Authorized a)"
proof (intro conjI allI)
  show "authorize_repository i g rid (revoke_runner now rid db) \<noteq> Authorized a" for i g a
    by (rule notI, drule authorize_Authorized) (auto simp: revoke_runner_def)
  have only: "y = x" if "y \<in> set (repository_assignments db)" "as_repository_id y = as_repository_id x" for y
    using that assms(1, 2) by (auto simp: policy_ok_def intro: key_unique [of as_repository_id])
  have "rn_id ` set (runners (revoke_runner now rid db)) = rn_id ` set (runners db)"
    by (simp add: revoke_runner_def image_update_where)
  moreover have "as_repository_id x \<notin> as_repository_id ` set (repository_assignments (revoke_runner now rid db))"
    using only assms(3) by (auto simp: revoke_runner_def)
  moreover have "as_repository_id x \<in> rp_id ` set (repositories (revoke_runner now rid db))"
    using assms(1, 2) by (auto simp: policy_ok_def revoke_runner_def)
  ultimately show "\<exists>db'. assign_repository_to_runner (as_repository_id x) other (revoke_runner now rid db) =
       Inr (Assignment_Granted (as_repository_id x) other, db')"
    using assms(5) by (simp add: assign_repository_to_runner_def)
  have run: "fetchone (\<lambda>r. rn_id r = other) (runners (revoke_runner now rid db)) =
      fetchone (\<lambda>r. rn_id r = other) (runners db)"
    using assms(4) by (auto simp: revoke_runner_def intro!: fetchone_update_other)
  have asg: "fetchone (\<lambda>a. as_repository_id a = p \<and> as_runner_id a = other)
        (repository_assignments (revoke_runner now rid db)) =
      fetchone (\<lambda>a. as_repository_id a = p \<and> as_runner_id a = other) (repository_assignments db)" for p
    using assms(4) by (auto simp: revoke_runner_def intro: fetchone_filter)
  show "authorize_repository i g other (revoke_runner now rid db) = Authorized a \<longleftrightarrow>
       authorize_repository i g other db = Authorized a" for i g a
    unfolding authorize_repository_def run asg revoke_runner_frame ..
qed

definition spare_runner :: runner_row where
  "spare_runner = tenant_runner\<lparr>rn_id := ''r2'', rn_credential_hash := ''h2''\<rparr>"

theorem revoke_runner_releases_witness:
  "\<exists>db'. assign_repository_to_runner ''p9'' ''r2''
     (revoke_runner 4 ''r1'' (tenant_db\<lparr>runners := [tenant_runner, spare_runner]\<rparr>)) =
     Inr (Assignment_Granted ''p9'' ''r2'', db')"
proof -
  let ?db = "tenant_db\<lparr>runners := [tenant_runner, spare_runner]\<rparr>"
  have "policy_ok ?db" "\<lparr>as_repository_id = ''p9'', as_runner_id = ''r1''\<rparr> \<in> set (repository_assignments ?db)"
    "''r2'' \<in> rn_id ` set (runners ?db)"
    by (simp_all add: policy_ok_def tenant_db_def empty_db_def tenant_runner_def spare_runner_def)
  from revoke_runner_releases [OF this(1, 2) _ _ this(3), of "''r1''" 4] show ?thesis by simp
qed

text \<open>Rotation swaps the credential: for a live runner presenting its credential, under
  distinct stored hashes and a fresh new hash, the new credential authenticates as that runner, the
  old one is unknown, and every other credential authenticates as before.\<close>

theorem rotate_runner_credential_swaps:
  assumes "r \<in> set (runners db)" "rn_id r = rid" "rn_credential_hash r = hash cur" "rn_revoked_at r = None"
    and "distinct (map rn_credential_hash (runners db))"
    and "\<forall>x \<in> set (runners db). rn_credential_hash x \<noteq> hash new"
  shows "\<exists>db'. rotate_runner_credential hash new rid cur db = (Inr (rid, new), db') \<and>
    authenticate_runner hash new db' =
      Inr \<lparr>ar_runner_id = rid, ar_device_name = rn_device_name r, ar_mode = rn_mode r\<rparr> \<and>
    authenticate_runner hash cur db' = Inl Unknown_Credential \<and>
    (\<forall>c. hash c \<noteq> hash cur \<and> hash c \<noteq> hash new \<longrightarrow>
       authenticate_runner hash c db' = authenticate_runner hash c db)"
proof -
  let ?holds = "\<lambda>x. rn_id x = rid \<and> rn_credential_hash x = hash cur"
  let ?set = "\<lambda>x. x\<lparr>rn_credential_hash := hash new\<rparr>"
  let ?db = "db\<lparr>runners := update_where ?holds ?set (runners db)\<rparr>"
  have only: "rn_credential_hash x = hash cur \<longleftrightarrow> x = r" if "x \<in> set (runners db)" for x
    using key_unique [OF assms(5) that assms(1)] assms(3) by auto
  have single: "?holds x \<longleftrightarrow> x = r" if "x \<in> set (runners db)" for x
    using only [OF that] assms(2, 3) by auto
  have "fetchone ?holds (runners db) = Some r"
    using fetchone_single [of "runners db" ?holds r] single assms(1) by simp
  then have rot: "rotate_runner_credential hash new rid cur db = (Inr (rid, new), ?db)"
    using assms(4) by (simp add: rotate_runner_credential_def)
  have rows: "update_where ?holds ?set (runners db) = map (\<lambda>x. if x = r then ?set r else x) (runners db)"
    using single by (rule update_where_single)
  have "fetchone (\<lambda>x. rn_credential_hash x = hash new) (runners ?db) = Some (?set r)"
    unfolding hosted_db.simps rows
    by (rule fetchone_single) (use assms(1, 6) in \<open>auto simp: image_iff\<close>)
  then have new: "authenticate_runner hash new ?db =
      Inr \<lparr>ar_runner_id = rid, ar_device_name = rn_device_name r, ar_mode = rn_mode r\<rparr>"
    using assms(2, 4) by (simp add: authenticate_runner_def)
  have "hash new \<noteq> hash cur" using assms(1, 3, 6) by metis
  then have "fetchone (\<lambda>x. rn_credential_hash x = hash cur) (runners ?db) = None"
    unfolding hosted_db.simps rows fetchone_None using only by auto
  then have old: "authenticate_runner hash cur ?db = Inl Unknown_Credential"
    by (simp add: authenticate_runner_def)
  have other: "authenticate_runner hash c ?db = authenticate_runner hash c db"
    if "hash c \<noteq> hash cur" "hash c \<noteq> hash new" for c
  proof -
    have "fetchone (\<lambda>x. rn_credential_hash x = hash c) (runners ?db) =
        fetchone (\<lambda>x. rn_credential_hash x = hash c) (runners db)"
      using that by (auto intro!: fetchone_update_other)
    then show ?thesis by (simp add: authenticate_runner_def)
  qed
  from rot new old other show ?thesis by blast
qed

theorem rotate_runner_credential_swaps_witness:
  "\<exists>db'. rotate_runner_credential id ''n'' ''r1'' ''h'' tenant_db = (Inr (''r1'', ''n''), db') \<and>
     authenticate_runner id ''h'' db' = Inl Unknown_Credential"
proof -
  have "tenant_runner \<in> set (runners tenant_db)" "rn_id tenant_runner = ''r1''"
    "rn_credential_hash tenant_runner = id ''h''" "rn_revoked_at tenant_runner = None"
    "distinct (map rn_credential_hash (runners tenant_db))"
    "\<forall>x \<in> set (runners tenant_db). rn_credential_hash x \<noteq> id ''n''"
    by (simp_all add: tenant_db_def empty_db_def tenant_runner_def)
  from rotate_runner_credential_swaps [where hash = id and new = "''n''" and cur = "''h''", OF this] show ?thesis by blast
qed

end
