(* ===== verification/Runner_Jobs.thy ===== *)
theory Runner_Jobs
  imports Review_Jobs Repository_Policy
begin

text \<open>
  The outbound runner protocol: \<^verbatim>\<open>control_plane/runner_jobs.py\<close> (claim, heartbeat,
  acknowledge, the HTTP routes, the hosted half of a trace), \<^verbatim>\<open>control_plane/token_broker.py\<close>
  and \<^verbatim>\<open>control_plane/installation_token.py\<close> (GitHub tokens against a lease or an
  assignment), with the contracts of \<^verbatim>\<open>contracts/runner.py\<close>.  The lease token is the
  capability: only its hash is stored.  Minting a token at GitHub is the parameter \<open>mint\<close>.
\<close>

section \<open>Contracts\<close>

record job_budget =
  jb_max_tokens :: int
  jb_max_cost_usd :: usd

record job_envelope =
  je_job_id :: uuid
  je_installation_id :: int
  je_repository_id :: int
  je_pull_request_number :: int
  je_base_sha :: string
  je_head_sha :: string
  je_policy_version :: string
  je_budget :: job_budget
  je_trace_id :: uuid
  je_lease_token :: string

datatype lease_state = Active | Invalid_Or_Expired | Lease_Cancelled

datatype job_terminal_state = Ack_Succeeded | Ack_Failed

fun terminal_text :: "job_terminal_state \<Rightarrow> string" where
  "terminal_text Ack_Succeeded = ''succeeded''"
| "terminal_text Ack_Failed = ''failed''"

record job_acknowledgement =
  ja_terminal_state :: job_terminal_state
  ja_error_class :: "string option"
  ja_input_tokens :: int
  ja_output_tokens :: int
  ja_cost_usd :: usd
  ja_latency_ms :: int
  ja_local_result_hash :: string

text \<open>The pydantic constraints of \<open>JobAcknowledgement\<close>.\<close>

definition validate_acknowledgement :: "job_acknowledgement \<Rightarrow> job_acknowledgement result" where
  "validate_acknowledgement a =
     (if 0 \<le> ja_input_tokens a \<and> 0 \<le> ja_output_tokens a \<and> 0 \<le> ja_cost_usd a \<and> 0 \<le> ja_latency_ms a \<and>
         ja_local_result_hash a \<noteq> [] then Inr a else Inl ValueError)"

record github_job_token =
  gt_token :: string
  gt_github_repository_id :: int
  gt_expires_at :: timestamp

section \<open>Claim\<close>

text \<open>\<open>str(x)\<close> of a nullable column.\<close>

fun str_opt :: "string option \<Rightarrow> string" where
  "str_opt None = ''None''"
| "str_opt (Some s) = s"

text \<open>\<open>int(x)\<close> and \<open>Decimal(str(x))\<close> of a nullable column: null raises.\<close>

definition require_column :: "py_exn \<Rightarrow> 'a option \<Rightarrow> 'a result" where
  "require_column e v = (case v of None \<Rightarrow> Inl e | Some x \<Rightarrow> Inr x)"

definition make_job_envelope :: "review_job \<Rightarrow> string \<Rightarrow> job_envelope result" where
  "make_job_envelope row lease_token =
     bind_r (require_column TypeError (rj_installation_id row)) (\<lambda>inst.
     bind_r (require_column TypeError (rj_github_repository_id row)) (\<lambda>repo.
     bind_r (require_column TypeError (rj_pull_request_number row)) (\<lambda>n.
     bind_r (require_column TypeError (rj_budget_max_tokens row)) (\<lambda>tokens.
     bind_r (require_column ArithmeticError (rj_budget_max_cost_usd row)) (\<lambda>cost.
     bind_r (require_column ValueError (rj_trace_id row)) (\<lambda>trace.
       if 0 \<le> tokens \<and> 0 \<le> cost \<and> 0 < n \<and> str_opt (rj_base_sha row) \<noteq> [] \<and> str_opt (rj_head_sha row) \<noteq> [] \<and>
          str_opt (rj_policy_version row) \<noteq> [] \<and> lease_token \<noteq> []
       then Inr \<lparr>je_job_id = rj_id row, je_installation_id = inst, je_repository_id = repo,
              je_pull_request_number = n, je_base_sha = str_opt (rj_base_sha row),
              je_head_sha = str_opt (rj_head_sha row), je_policy_version = str_opt (rj_policy_version row),
              je_budget = \<lparr>jb_max_tokens = tokens, jb_max_cost_usd = cost\<rparr>, je_trace_id = trace,
              je_lease_token = lease_token\<rparr>
       else Inl ValueError))))))"

text \<open>The \<open>exists\<close> clause: the job's repository is assigned to the runner.\<close>

definition assigned_to :: "hosted_db \<Rightarrow> uuid \<Rightarrow> review_job \<Rightarrow> bool" where
  "assigned_to db runner_id j \<longleftrightarrow>
     (\<exists>r \<in> set (repositories db). \<exists>a \<in> set (repository_assignments db).
        as_repository_id a = rp_id r \<and> Some (rp_installation_id r) = rj_installation_id j \<and>
        Some (rp_github_repository_id r) = rj_github_repository_id j \<and> as_runner_id a = runner_id)"

definition runner_claimable :: "timestamp \<Rightarrow> hosted_db \<Rightarrow> uuid \<Rightarrow> review_job \<Rightarrow> bool" where
  "runner_claimable now db runner_id j \<longleftrightarrow> claimable now j \<and> pr_key j \<noteq> None \<and> assigned_to db runner_id j"

definition runner_lease :: "timestamp \<Rightarrow> uuid \<Rightarrow> string \<Rightarrow> review_job \<Rightarrow> review_job" where
  "runner_lease now runner_id token_hash r =
     (lease now runner_id r)\<lparr>rj_lease_token_hash := Some token_hash\<rparr>"

text \<open>\<open>None\<close> is \<open>NoJob\<close>.\<close>

definition claim_job ::
  "(string \<Rightarrow> string) \<Rightarrow> timestamp \<Rightarrow> uuid set \<Rightarrow> string \<Rightarrow> uuid \<Rightarrow> hosted_db
   \<Rightarrow> (job_envelope option \<times> hosted_db) result" where
  "claim_job hash now skip lease_token runner_id db =
     (case fetchone (\<lambda>r. rn_id r = runner_id) (runners db) of
        None \<Rightarrow> Inr (None, db)
      | Some runner \<Rightarrow>
      if rn_revoked_at runner \<noteq> None then Inr (None, db)
      else case next_job (runner_claimable now db runner_id) skip (review_jobs db) of
        None \<Rightarrow> Inr (None, db)
      | Some j \<Rightarrow>
          bind_r (make_job_envelope j lease_token) (\<lambda>envelope.
            Inr (Some envelope, db\<lparr>review_jobs :=
              update_where (\<lambda>r. rj_id r = rj_id j) (runner_lease now runner_id (hash lease_token)) (review_jobs db)\<rparr>)))"

section \<open>Heartbeat\<close>

definition runner_leased :: "timestamp \<Rightarrow> uuid \<Rightarrow> uuid \<Rightarrow> string \<Rightarrow> review_job \<Rightarrow> bool" where
  "runner_leased now job_id runner_id token_hash r \<longleftrightarrow>
     leased_by now job_id runner_id r \<and> rj_lease_token_hash r = Some token_hash"

definition heartbeat_job ::
  "(string \<Rightarrow> string) \<Rightarrow> timestamp \<Rightarrow> uuid \<Rightarrow> uuid \<Rightarrow> string \<Rightarrow> hosted_db \<Rightarrow> lease_state \<times> hosted_db" where
  "heartbeat_job hash now runner_id job_id lease_token db =
     (let held = runner_leased now job_id runner_id (hash lease_token)
      in if rowcount held (review_jobs db) = 1
         then (Active, db\<lparr>review_jobs := update_where held (extend_lease now) (review_jobs db)\<rparr>)
         else if fetchone (\<lambda>r. rj_id r = job_id \<and> rj_status r = Cancelled \<and> rj_locked_by r = Some runner_id \<and>
                     rj_lease_token_hash r = Some (hash lease_token)) (review_jobs db) \<noteq> None
         then (Lease_Cancelled, db)
         else (Invalid_Or_Expired, db))"

section \<open>Acknowledge\<close>

text \<open>The capability test that acknowledge and the token broker share.\<close>

definition presents_lease :: "(string \<Rightarrow> string) \<Rightarrow> uuid \<Rightarrow> string \<Rightarrow> review_job \<Rightarrow> bool" where
  "presents_lease hash runner_id lease_token r \<longleftrightarrow>
     str_opt (rj_locked_by r) = runner_id \<and> str_opt (rj_lease_token_hash r) = hash lease_token"

definition ack_payload :: "(usd \<Rightarrow> string) \<Rightarrow> job_acknowledgement \<Rightarrow> json" where
  "ack_payload str_decimal a =
     JObj ([(''terminal_state'', JStr (terminal_text (ja_terminal_state a))),
            (''input_tokens'', JInt (ja_input_tokens a)), (''output_tokens'', JInt (ja_output_tokens a)),
            (''cost_usd'', JStr (str_decimal (ja_cost_usd a))), (''latency_ms'', JInt (ja_latency_ms a)),
            (''local_result_hash'', JStr (ja_local_result_hash a))] @
           (case ja_error_class a of None \<Rightarrow> [] | Some e \<Rightarrow> [(''error_class'', JStr e)]))"

definition ack_row :: "timestamp \<Rightarrow> job_acknowledgement \<Rightarrow> review_job \<Rightarrow> review_job" where
  "ack_row now a r =
     r\<lparr>rj_status := (if ja_terminal_state a = Ack_Succeeded then Succeeded else Failed),
       rj_last_error := ja_error_class a, rj_locked_until := None, rj_updated_at := now\<rparr>"

definition acknowledge_job ::
  "(string \<Rightarrow> string) \<Rightarrow> (usd \<Rightarrow> string) \<Rightarrow> timestamp \<Rightarrow> uuid \<Rightarrow> uuid \<Rightarrow> string \<Rightarrow> job_acknowledgement \<Rightarrow> hosted_db
   \<Rightarrow> hosted_db result" where
  "acknowledge_job hash str_decimal now runner_id job_id lease_token result db =
     bind_r (validate_acknowledgement result) (\<lambda>ack.
       case fetchone (\<lambda>r. rj_id r = job_id) (review_jobs db) of
         None \<Rightarrow> Inl JobProtocolDenied
       | Some row \<Rightarrow>
           if \<not> presents_lease hash runner_id lease_token row then Inl JobProtocolDenied
           else if rj_status row \<in> {Succeeded, Failed} then Inr db
           else if rj_status row \<noteq> Running then Inl JobProtocolDenied
           else (case rj_locked_until row of
                   None \<Rightarrow> Inl JobProtocolDenied
                 | Some u \<Rightarrow>
                     if u \<le> now then Inl JobProtocolDenied
                     else insert_event now (Some job_id) ''review_job_acknowledged'' (ack_payload str_decimal ack)
                       (db\<lparr>review_jobs := update_where (\<lambda>r. rj_id r = job_id) (ack_row now ack) (review_jobs db)\<rparr>)))"

section \<open>Tokens\<close>

definition token_permissions :: "(string \<times> string) list" where
  "token_permissions = [(''contents'', ''read''), (''pull_requests'', ''read'')]"

definition issue_job_token ::
  "(string \<Rightarrow> string) \<Rightarrow> (int \<Rightarrow> int list \<Rightarrow> (string \<times> string) list \<Rightarrow> (string \<times> timestamp) result) \<Rightarrow>
   timestamp \<Rightarrow> uuid \<Rightarrow> uuid \<Rightarrow> string \<Rightarrow> hosted_db \<Rightarrow> github_job_token result" where
  "issue_job_token hash mint now runner_id job_id lease_token db =
     (case fetchone (\<lambda>r. rj_id r = job_id) (review_jobs db) of
        None \<Rightarrow> Inl JobProtocolDenied
      | Some row \<Rightarrow>
          if \<not> presents_lease hash runner_id lease_token row then Inl JobProtocolDenied
          else if rj_status row \<noteq> Running then Inl JobProtocolDenied
          else (case rj_locked_until row of
            None \<Rightarrow> Inl JobProtocolDenied
          | Some u \<Rightarrow>
          if u \<le> now then Inl JobProtocolDenied
          else (case (rj_installation_id row, rj_github_repository_id row) of
            (Some inst, Some repo) \<Rightarrow>
              (case authorize_repository inst repo runner_id db of
                 Authorization_Denied _ \<Rightarrow> Inl JobProtocolDenied
               | Authorized _ \<Rightarrow>
                   bind_r (mint inst [repo] token_permissions) (\<lambda>(token, expires_at).
                     Inr \<lparr>gt_token = token, gt_github_repository_id = repo, gt_expires_at = expires_at\<rparr>))
          | _ \<Rightarrow> Inl JobProtocolDenied)))"

text \<open>\<^verbatim>\<open>select ... from repositories r join repository_assignments a join installations i\<close>, in
  order of the repository identifier.\<close>

definition assigned_repository_ids :: "hosted_db \<Rightarrow> uuid \<Rightarrow> int \<Rightarrow> int list" where
  "assigned_repository_ids db runner_id installation_id =
     sort (map (\<lambda>(r, a, i). rp_github_repository_id r)
       (filter (\<lambda>(r, a, i). as_repository_id a = rp_id r \<and> in_id i = rp_installation_id r \<and>
            as_runner_id a = runner_id \<and> rp_installation_id r = installation_id \<and> in_revoked_at i = None)
          (List.product (repositories db) (List.product (repository_assignments db) (installations db)))))"

definition issue_runner_installation_token ::
  "(int \<Rightarrow> int list \<Rightarrow> (string \<times> string) list \<Rightarrow> (string \<times> timestamp) result) \<Rightarrow>
   uuid \<Rightarrow> int \<Rightarrow> hosted_db \<Rightarrow> (string \<times> timestamp) result" where
  "issue_runner_installation_token mint runner_id installation_id db =
     (let repository_ids = assigned_repository_ids db runner_id installation_id
      in if repository_ids = [] then Inl InstallationTokenDenied
         else mint installation_id repository_ids token_permissions)"

section \<open>Routes\<close>

definition bearer_prefix :: string where "bearer_prefix = ''Bearer ''"

definition authenticate_bearer ::
  "(string \<Rightarrow> string) \<Rightarrow> string option \<Rightarrow> hosted_db \<Rightarrow> authenticated_runner result" where
  "authenticate_bearer hash authorization db =
     (case authorization of
        None \<Rightarrow> Inl (HTTPException 401 ''missing bearer credential'')
      | Some header \<Rightarrow>
          if \<not> startswith header bearer_prefix then Inl (HTTPException 401 ''missing bearer credential'')
          else (case authenticate_runner hash (drop (length bearer_prefix) header) db of
                  Inl Unknown_Credential \<Rightarrow> Inl (HTTPException 401 ''unknown_credential'')
                | Inl Credential_Revoked_Runner \<Rightarrow> Inl (HTTPException 401 ''revoked_runner'')
                | Inr runner \<Rightarrow> Inr runner))"

definition claim_jobs_route ::
  "(string \<Rightarrow> string) \<Rightarrow> timestamp \<Rightarrow> uuid set \<Rightarrow> string \<Rightarrow> string option \<Rightarrow> hosted_db
   \<Rightarrow> (job_envelope option \<times> hosted_db) result" where
  "claim_jobs_route hash now skip lease_token authorization db =
     bind_r (authenticate_bearer hash authorization db) (\<lambda>runner.
       claim_job hash now skip lease_token (ar_runner_id runner) db)"

definition logout_route :: "(string \<Rightarrow> string) \<Rightarrow> timestamp \<Rightarrow> string option \<Rightarrow> hosted_db \<Rightarrow> hosted_db result" where
  "logout_route hash now authorization db =
     bind_r (authenticate_bearer hash authorization db) (\<lambda>runner.
       Inr (revoke_runner now (ar_runner_id runner) db))"

definition heartbeat_jobs_route ::
  "(string \<Rightarrow> string) \<Rightarrow> timestamp \<Rightarrow> uuid \<Rightarrow> string \<Rightarrow> string option \<Rightarrow> hosted_db \<Rightarrow> (lease_state \<times> hosted_db) result" where
  "heartbeat_jobs_route hash now job_id lease_token authorization db =
     bind_r (authenticate_bearer hash authorization db) (\<lambda>runner.
       Inr (heartbeat_job hash now (ar_runner_id runner) job_id lease_token db))"

text \<open>\<open>JobProtocolDenied\<close> becomes a 409 with one reason.\<close>

definition denied_409 :: "'a result \<Rightarrow> 'a result" where
  "denied_409 r = (case r of Inl JobProtocolDenied \<Rightarrow> Inl (HTTPException 409 ''invalid_or_expired'') | _ \<Rightarrow> r)"

definition acknowledge_jobs_route ::
  "(string \<Rightarrow> string) \<Rightarrow> (usd \<Rightarrow> string) \<Rightarrow> timestamp \<Rightarrow> uuid \<Rightarrow> string \<Rightarrow> job_acknowledgement \<Rightarrow> string option \<Rightarrow>
   hosted_db \<Rightarrow> hosted_db result" where
  "acknowledge_jobs_route hash str_decimal now job_id lease_token result authorization db =
     bind_r (authenticate_bearer hash authorization db) (\<lambda>runner.
       denied_409 (acknowledge_job hash str_decimal now (ar_runner_id runner) job_id lease_token result db))"

definition issue_job_token_route ::
  "(string \<Rightarrow> string) \<Rightarrow> (int \<Rightarrow> int list \<Rightarrow> (string \<times> string) list \<Rightarrow> (string \<times> timestamp) result) \<Rightarrow>
   timestamp \<Rightarrow> uuid \<Rightarrow> string \<Rightarrow> string option \<Rightarrow> hosted_db \<Rightarrow> github_job_token result" where
  "issue_job_token_route hash mint now job_id lease_token authorization db =
     bind_r (authenticate_bearer hash authorization db) (\<lambda>runner.
       denied_409 (issue_job_token hash mint now (ar_runner_id runner) job_id lease_token db))"

text \<open>The hosted half of a trace.\<close>

definition fetch_hosted_trace :: "uuid \<Rightarrow> hosted_db \<Rightarrow> (uuid \<times> agent_event list) option" where
  "fetch_hosted_trace job_id db =
     (case fetchone (\<lambda>r. rj_id r = job_id) (review_jobs db) of
        None \<Rightarrow> None
      | Some r \<Rightarrow> (case rj_trace_id r of None \<Rightarrow> None
                   | Some t \<Rightarrow> Some (t, list_events_for_job job_id db)))"

section \<open>The runner operations and the queue invariants\<close>

text \<open>Every identified row that did not come from a pushed summary can be turned into an
  envelope.\<close>

definition envelope_ready :: "review_job \<Rightarrow> bool" where
  "envelope_ready r \<longleftrightarrow> (\<forall>token. token \<noteq> [] \<longrightarrow> (\<exists>e. make_job_envelope r token = Inr e))"

definition envelopes_ok :: "review_job list \<Rightarrow> bool" where
  "envelopes_ok rows \<longleftrightarrow>
     (\<forall>r \<in> set rows. pr_key r \<noteq> None \<and> rj_status r \<notin> {Completed, Stopped_Early} \<longrightarrow> envelope_ready r)"

lemma same_identity_envelope:
  assumes "same_identity r r'"
  shows "envelope_ready r' = envelope_ready r"
proof -
  have "make_job_envelope r' t = make_job_envelope r t" for t
    using assms unfolding make_job_envelope_def same_identity_def by (simp cong: if_cong)
  then show ?thesis by (simp add: envelope_ready_def)
qed

lemma envelopes_update:
  assumes "\<And>r. p r \<Longrightarrow> same_identity r (f r) \<and> rj_status r \<notin> {Completed, Stopped_Early}" "envelopes_ok rows"
  shows "envelopes_ok (update_where p f rows)"
  unfolding envelopes_ok_def
proof
  fix x assume "x \<in> set (update_where p f rows)"
  then obtain r where r: "r \<in> set rows" "(p r \<and> x = f r) \<or> (\<not> p r \<and> x = r)"
    by (auto simp: in_update_where)
  show "pr_key x \<noteq> None \<and> rj_status x \<notin> {Completed, Stopped_Early} \<longrightarrow> envelope_ready x"
  proof (cases "p r")
    case True
    with r assms(1) [of r] have "same_identity r x" "rj_status r \<notin> {Completed, Stopped_Early}" by auto
    with assms(2) r(1) show ?thesis
      using same_identity_envelope same_identity_pr_key unfolding envelopes_ok_def by metis
  next
    case False
    with r assms(2) show ?thesis by (auto simp: envelopes_ok_def)
  qed
qed

lemma quiet_envelopes:
  "quiet p f \<Longrightarrow> (\<And>r. p r \<Longrightarrow> live r) \<Longrightarrow> envelopes_ok rows \<Longrightarrow> envelopes_ok (update_where p f rows)"
  by (rule envelopes_update) (fastforce simp: quiet_def live_def)+

lemma envelopes_append: "envelopes_ok rows \<Longrightarrow> pr_key r = None \<or> envelope_ready r \<Longrightarrow> envelopes_ok (rows @ [r])"
  by (auto simp: envelopes_ok_def)

lemma identity_positive:
  "pull_request_identity repr payload = Inr (Some (i, g, n, b, h)) \<Longrightarrow> 0 < n \<and> b \<noteq> [] \<and> h \<noteq> []"
  by (auto simp: pull_request_identity_def Let_def split: if_splits sum.splits prod.splits)

lemma enqueued_row_ready:
  "0 < n \<Longrightarrow> b \<noteq> [] \<Longrightarrow> h \<noteq> [] \<Longrightarrow> envelope_ready (enqueued_row now a t d i g n b h)"
  by (simp add: envelope_ready_def make_job_envelope_def enqueued_row_def new_review_job_def require_column_def
      default_budget_max_tokens_def default_budget_max_cost_usd_def default_policy_version_def)

lemma retire_envelopes: "envelopes_ok rows \<Longrightarrow> st \<notin> {Pending, Running} \<Longrightarrow> envelopes_ok (retire_live st now i g n rows)"
  unfolding retire_live_def by (rule quiet_envelopes) (auto intro: quiet_intros)

lemma enqueue_envelopes:
  assumes "envelopes_ok (review_jobs db)"
    "enqueue_review_job repr now new_id trace_id did ev payload db = Inr (res, db')"
  shows "envelopes_ok (review_jobs db')"
  using assms(2)
proof (cases rule: enqueue_cases)
  case (identified inst repo n b h)
  then show ?thesis using retire_envelopes [OF assms(1)] identity_positive enqueued_row_ready
    by (auto intro!: envelopes_append)
qed (use assms in \<open>auto intro: envelopes_append\<close>)

lemma quiet_runner_lease [quiet_intros]:
  "(\<And>r. p r \<Longrightarrow> live r) \<Longrightarrow> quiet p (runner_lease now w h)"
  by (auto simp: quiet_def same_identity_def live_def lease_def runner_lease_def)

lemma quiet_ack [quiet_intros]: "quiet p (ack_row now a)"
  by (auto simp: quiet_def same_identity_def live_def ack_row_def)

lemma runner_lease_simps [simp]:
  "rj_id (runner_lease now w h r) = rj_id r" "rj_status (runner_lease now w h r) = Running"
  "rj_locked_by (runner_lease now w h r) = Some w"
  "rj_locked_until (runner_lease now w h r) = Some (now + review_job_lease_interval)"
  "rj_lease_token_hash (runner_lease now w h r) = Some h"
  "rj_installation_id (runner_lease now w h r) = rj_installation_id r"
  "rj_github_repository_id (runner_lease now w h r) = rj_github_repository_id r"
  "row_ok (runner_lease now w h r)"
  by (simp_all add: runner_lease_def lease_def row_ok_def)

lemma ack_row_ok [simp]: "row_ok (ack_row now a r)"
  by (simp add: ack_row_def row_ok_def)

lemma claim_job_cases:
  assumes "jobs_unique (review_jobs db)" "claim_job hash now skip token run db = Inr (res, db')"
  obtains
    (none) "res = None" "db' = db"
  | (some) j e where "res = Some e" "make_job_envelope j token = Inr e" "j \<in> set (review_jobs db)"
      "runner_claimable now db run j" "rj_id j \<notin> skip"
      "\<exists>runner \<in> set (runners db). rn_id runner = run \<and> rn_revoked_at runner = None"
      "db' = db\<lparr>review_jobs := update_where (\<lambda>r. r = j) (runner_lease now run (hash token)) (review_jobs db)\<rparr>"
proof (cases "fetchone (\<lambda>r. rn_id r = run) (runners db)")
  case None
  with assms that(1) show thesis by (simp add: claim_job_def)
next
  case (Some runner)
  note runner = fetchone_Some [OF Some]
  show thesis
  proof (cases "rn_revoked_at runner = None")
    case False
    with Some assms(2) that(1) show thesis by (simp add: claim_job_def)
  next
    case True
    show thesis
    proof (cases "next_job (runner_claimable now db run) skip (review_jobs db)")
      case None
      with Some True assms(2) that(1) show thesis by (simp add: claim_job_def)
    next
      case (Some j)
      note j = next_job_Some [OF this]
      with Some \<open>fetchone _ _ = Some runner\<close> True assms(2) obtain e where
        "make_job_envelope j token = Inr e" "res = Some e"
        "db' = db\<lparr>review_jobs := update_where (\<lambda>r. rj_id r = rj_id j) (runner_lease now run (hash token)) (review_jobs db)\<rparr>"
        by (auto simp: claim_job_def bind_r_Inr)
      with j runner True update_by_id [OF assms(1), of j] show thesis by (intro that(2)) auto
    qed
  qed
qed

lemma runner_claimable_live: "runner_claimable now db run j \<Longrightarrow> live j"
  by (auto simp: runner_claimable_def intro: claimable_live)

lemma heartbeat_db:
  "snd (heartbeat_job hash now run jid token db) = db \<or>
   snd (heartbeat_job hash now run jid token db) =
     db\<lparr>review_jobs := update_where (runner_leased now jid run (hash token)) (extend_lease now) (review_jobs db)\<rparr>"
  by (simp add: heartbeat_job_def Let_def)

lemma runner_leased_live: "runner_leased now jid run h r \<Longrightarrow> live r"
  by (auto simp: runner_leased_def leased_by_def intro: owned_live)

lemma acknowledge_cases:
  assumes "jobs_unique (review_jobs db)"
    "acknowledge_job hash str_decimal now run jid token ack db = Inr db'"
  obtains
    (again) j where "j \<in> set (review_jobs db)" "rj_id j = jid" "presents_lease hash run token j"
      "rj_status j \<in> {Succeeded, Failed}" "db' = db"
  | (ended) j u where "j \<in> set (review_jobs db)" "rj_id j = jid" "presents_lease hash run token j"
      "rj_status j = Running" "rj_locked_until j = Some u" "now < u" "validate_acknowledgement ack = Inr ack"
      "db' = db\<lparr>review_jobs := update_where (\<lambda>r. r = j) (ack_row now ack) (review_jobs db),
         agent_events := agent_events db @
           [\<lparr>ae_sequence = Suc (length (agent_events db)), ae_review_job_id = Some jid,
             ae_event_type = ''review_job_acknowledged'', ae_payload = ack_payload str_decimal ack,
             ae_created_at = now\<rparr>]\<rparr>"
proof -
  from assms(2) obtain j where j: "fetchone (\<lambda>r. rj_id r = jid) (review_jobs db) = Some j"
    by (auto simp: acknowledge_job_def bind_r_Inr split: option.splits)
  have v: "validate_acknowledgement ack = Inr ack"
    using assms(2) by (auto simp: acknowledge_job_def bind_r_Inr validate_acknowledgement_def split: if_splits)
  note jj = fetchone_Some [OF j]
  with update_by_id [OF assms(1), of j "ack_row now ack"]
  have up: "update_where (\<lambda>r. rj_id r = jid) (ack_row now ack) (review_jobs db) =
     update_where (\<lambda>r. r = j) (ack_row now ack) (review_jobs db)" by simp
  have pres: "presents_lease hash run token j"
    using assms(2) v j by (auto simp: acknowledge_job_def split: if_splits)
  show thesis
  proof (cases "rj_status j \<in> {Succeeded, Failed}")
    case True
    with assms(2) v j pres have "db' = db" by (simp add: acknowledge_job_def)
    with True jj pres show thesis by (intro that(1)) auto
  next
    case False
    with assms(2) v j pres obtain u where u: "rj_status j = Running" "rj_locked_until j = Some u" "now < u"
      by (auto simp: acknowledge_job_def split: if_splits option.splits)
    with assms(2) v j pres False have "insert_event now (Some jid) ''review_job_acknowledged''
        (ack_payload str_decimal ack)
        (db\<lparr>review_jobs := update_where (\<lambda>r. r = j) (ack_row now ack) (review_jobs db)\<rparr>) = Inr db'"
      by (simp add: acknowledge_job_def up)
    from insert_event_Inr [OF this] show thesis using jj pres u v by (intro that(2)) auto
  qed
qed

lemma claim_job_preserves:
  assumes "queue_ok db" "claim_job hash now skip token run db = Inr (res, db')"
  shows "queue_ok db'" "one_live_per_pr (review_jobs db) \<Longrightarrow> one_live_per_pr (review_jobs db')"
    "envelopes_ok (review_jobs db) \<Longrightarrow> envelopes_ok (review_jobs db')"
proof -
  have uniq: "jobs_unique (review_jobs db)" using assms(1) by (simp add: queue_ok_def)
  from uniq assms(2) have "db' = db \<or> (\<exists>j. live j \<and>
      db' = db\<lparr>review_jobs := update_where (\<lambda>r. r = j) (runner_lease now run (hash token)) (review_jobs db)\<rparr>)"
    by (cases rule: claim_job_cases) (auto intro: runner_claimable_live)
  then show "queue_ok db'" "one_live_per_pr (review_jobs db) \<Longrightarrow> one_live_per_pr (review_jobs db')"
    "envelopes_ok (review_jobs db) \<Longrightarrow> envelopes_ok (review_jobs db')"
    using assms(1) uniq by (auto intro!: quiet_queue quiet_one_live quiet_envelopes quiet_runner_lease)
qed

lemma heartbeat_preserves:
  assumes "queue_ok db" "heartbeat_job hash now run jid token db = (res, db')"
  shows "queue_ok db'" "one_live_per_pr (review_jobs db) \<Longrightarrow> one_live_per_pr (review_jobs db')"
    "envelopes_ok (review_jobs db) \<Longrightarrow> envelopes_ok (review_jobs db')"
proof -
  have "jobs_unique (review_jobs db)" using assms(1) by (simp add: queue_ok_def)
  moreover have "row_ok (extend_lease now r)" if "r \<in> set (review_jobs db)" "runner_leased now jid run h r" for r h
    using that assms(1) by (auto simp: runner_leased_def intro: extend_row_ok queue_row_ok)
  moreover have "db' = db \<or> db' =
     db\<lparr>review_jobs := update_where (runner_leased now jid run (hash token)) (extend_lease now) (review_jobs db)\<rparr>"
    using heartbeat_db [of hash now run jid token db] assms(2) by simp
  ultimately show "queue_ok db'" "one_live_per_pr (review_jobs db) \<Longrightarrow> one_live_per_pr (review_jobs db')"
    "envelopes_ok (review_jobs db) \<Longrightarrow> envelopes_ok (review_jobs db')"
    using assms(1) by (auto intro!: quiet_queue quiet_one_live quiet_envelopes quiet_extend dest: runner_leased_live)
qed

lemma queue_ok_add_event:
  "queue_ok (db\<lparr>review_jobs := rows\<rparr>) \<Longrightarrow> queue_ok (db\<lparr>review_jobs := rows, agent_events := es\<rparr>)"
  by (simp add: queue_ok_def deliveries_ok_def seen_delivery_def)

lemma acknowledge_preserves:
  assumes "queue_ok db" "acknowledge_job hash sd now run jid token ack db = Inr db'"
  shows "queue_ok db'" "one_live_per_pr (review_jobs db) \<Longrightarrow> one_live_per_pr (review_jobs db')"
    "envelopes_ok (review_jobs db) \<Longrightarrow> envelopes_ok (review_jobs db')"
proof -
  have uniq: "jobs_unique (review_jobs db)" using assms(1) by (simp add: queue_ok_def)
  from this assms(2) have "db' = db \<or> (\<exists>j es. live j \<and>
      db' = db\<lparr>review_jobs := update_where (\<lambda>r. r = j) (ack_row now ack) (review_jobs db), agent_events := es\<rparr>)"
    by (cases rule: acknowledge_cases) (auto simp: live_def)
  then show "queue_ok db'" "one_live_per_pr (review_jobs db) \<Longrightarrow> one_live_per_pr (review_jobs db')"
    "envelopes_ok (review_jobs db) \<Longrightarrow> envelopes_ok (review_jobs db')"
    using assms(1) uniq
    by (auto intro!: queue_ok_add_event quiet_queue quiet_one_live quiet_envelopes quiet_ack)
qed

lemma envelope_fields:
  "make_job_envelope j t = Inr e \<Longrightarrow>
   rj_installation_id j = Some (je_installation_id e) \<and> rj_github_repository_id j = Some (je_repository_id e) \<and>
   rj_id j = je_job_id e"
  by (auto simp: make_job_envelope_def bind_r_Inr require_column_def split: if_splits option.splits)

section \<open>Properties\<close>

lemma ack_payload_flat: "flat_payload (ack_payload sd a)"
  by (cases "ja_error_class a") (simp_all add: ack_payload_def flat_payload_def)

lemma str_opt_Some: "str_opt x = s \<Longrightarrow> s \<noteq> ''None'' \<Longrightarrow> x = Some s"
  by (cases x) auto

lemma acknowledge_running:
  assumes "queue_ok db" "j \<in> set (review_jobs db)" "rj_status j = Running"
    "presents_lease hash run token j" "rj_locked_until j = Some u" "now < u" "validate_acknowledgement ack = Inr ack"
  shows "acknowledge_job hash sd now run (rj_id j) token ack db =
    Inr (db\<lparr>review_jobs := map (\<lambda>r. if r = j then ack_row now ack j else r) (review_jobs db),
         agent_events := agent_events db @
           [\<lparr>ae_sequence = Suc (length (agent_events db)), ae_review_job_id = Some (rj_id j),
             ae_event_type = ''review_job_acknowledged'', ae_payload = ack_payload sd ack,
             ae_created_at = now\<rparr>]\<rparr>)"
proof -
  have uniq: "jobs_unique (review_jobs db)" using assms(1) by (simp add: queue_ok_def)
  then have only: "rj_id r = rj_id j \<longleftrightarrow> r = j" if "r \<in> set (review_jobs db)" for r
    using unique_id [OF uniq that assms(2)] by auto
  have one: "fetchone (\<lambda>r. rj_id r = rj_id j) (review_jobs db) = Some j"
    using only assms(2) by (rule fetchone_single)
  have up: "update_where (\<lambda>r. rj_id r = rj_id j) (ack_row now ack) (review_jobs db) =
      map (\<lambda>r. if r = j then ack_row now ack j else r) (review_jobs db)"
    using only by (rule update_where_single)
  let ?db = "db\<lparr>review_jobs := map (\<lambda>r. if r = j then ack_row now ack j else r) (review_jobs db)\<rparr>"
  have there: "ack_row now ack j \<in> set (review_jobs ?db)" "rj_id (ack_row now ack j) = rj_id j"
    using assms(2) by (force simp: ack_row_def)+
  have "acknowledge_job hash sd now run (rj_id j) token ack db =
      insert_event now (Some (rj_id j)) ''review_job_acknowledged'' (ack_payload sd ack) ?db"
    using assms(3-7) by (simp add: acknowledge_job_def one up)
  then show ?thesis by (simp add: insert_event_ok [OF ack_payload_flat there])
qed

lemma acknowledge_done:
  assumes "queue_ok db" "j \<in> set (review_jobs db)" "rj_status j \<in> {Succeeded, Failed}"
    "presents_lease hash run token j" "validate_acknowledgement ack = Inr ack"
  shows "acknowledge_job hash sd now run (rj_id j) token ack db = Inr db"
proof -
  have "jobs_unique (review_jobs db)" using assms(1) by (simp add: queue_ok_def)
  then have "rj_id r = rj_id j \<longleftrightarrow> r = j" if "r \<in> set (review_jobs db)" for r
    using unique_id [OF _ that assms(2)] by auto
  from fetchone_single [OF this assms(2)] have "fetchone (\<lambda>r. rj_id r = rj_id j) (review_jobs db) = Some j"
    by simp
  then show ?thesis using assms(3-5) by (auto simp: acknowledge_job_def)
qed

text \<open>The tenant of the policy theory with one pending job of its repository.\<close>

definition fleet_db :: hosted_db where
  "fleet_db = tenant_db\<lparr>github_deliveries := [(''d1'', ''pull_request'')],
     review_jobs := [enqueued_row 0 ''j1'' ''t1'' ''d1'' 7 9 3 ''b1'' ''h1'']\<rparr>"

lemma fleet_ok: "queue_ok fleet_db" "envelopes_ok (review_jobs fleet_db)"
  by (simp_all add: fleet_db_def tenant_db_def empty_db_def queue_ok_def jobs_unique_def one_active_head_def
      map_filter_simps active_head_def deliveries_ok_def seen_delivery_def envelopes_ok_def enqueued_row_ready
      split: option.splits)

definition sample_ack :: job_acknowledgement where
  "sample_ack = \<lparr>ja_terminal_state = Ack_Succeeded, ja_error_class = None, ja_input_tokens = 10,
     ja_output_tokens = 2, ja_cost_usd = 0, ja_latency_ms = 5, ja_local_result_hash = ''r''\<rparr>"

lemma sample_ack_valid: "validate_acknowledgement sample_ack = Inr sample_ack"
  by (simp add: validate_acknowledgement_def sample_ack_def)

lemma fleet_claims: "\<exists>e db'. claim_job id 5 {} ''tok'' ''r1'' fleet_db = Inr (Some e, db')"
proof -
  let ?j = "enqueued_row 0 ''j1'' ''t1'' ''d1'' 7 9 3 ''b1'' ''h1''"
  have "runner_claimable 5 fleet_db ''r1'' ?j"
    by (simp add: runner_claimable_def claimable_def assigned_to_def fleet_db_def tenant_db_def empty_db_def)
       (simp add: enqueued_row_def new_review_job_def)
  then have "next_job (runner_claimable 5 fleet_db ''r1'') {} [?j] = Some ?j"
    by (simp add: next_job_def)
  moreover have "\<exists>e. make_job_envelope ?j ''tok'' = Inr e"
    using enqueued_row_ready [of 3 "''b1''" "''h1''"] by (simp add: envelope_ready_def)
  moreover have "review_jobs fleet_db = [?j]" "runners fleet_db = [tenant_runner]"
    by (simp_all add: fleet_db_def tenant_db_def empty_db_def)
  ultimately show ?thesis by (auto simp: claim_job_def tenant_runner_def)
qed

text \<open>A claim is scoped and total: on a well-formed queue it never raises, and a job it hands
  out is a claimable one whose repository, under its own installation, is assigned to the claiming
  runner, which exists and is not revoked; a claim that hands out nothing changes nothing.\<close>

theorem claim_job_scoped:
  assumes "queue_ok db" "envelopes_ok (review_jobs db)" "token \<noteq> []"
  shows "\<exists>res db'. claim_job hash now skip token run db = Inr (res, db') \<and>
    (case res of
       None \<Rightarrow> db' = db
     | Some e \<Rightarrow>
        (\<exists>runner \<in> set (runners db). rn_id runner = run \<and> rn_revoked_at runner = None) \<and>
        (\<exists>r \<in> set (repositories db). \<exists>a \<in> set (repository_assignments db).
           as_repository_id a = rp_id r \<and> as_runner_id a = run \<and>
           rp_installation_id r = je_installation_id e \<and> rp_github_repository_id r = je_repository_id e) \<and>
        (\<exists>j \<in> set (review_jobs db). rj_id j = je_job_id e \<and> claimable now j \<and> rj_id j \<notin> skip \<and>
           review_jobs db' = map (\<lambda>r. if r = j then runner_lease now run (hash token) j else r) (review_jobs db)))"
proof -
  have uniq: "jobs_unique (review_jobs db)" using assms(1) by (simp add: queue_ok_def)
  have total: "\<exists>e. make_job_envelope j token = Inr e"
    if "next_job (runner_claimable now db run) skip (review_jobs db) = Some j" for j
  proof -
    from next_job_Some [OF that] have "j \<in> set (review_jobs db)" "runner_claimable now db run j" by auto
    then have "envelope_ready j" using assms(2)
      by (auto simp: envelopes_ok_def runner_claimable_def claimable_def)
    with assms(3) show ?thesis by (simp add: envelope_ready_def)
  qed
  have "\<exists>x. claim_job hash now skip token run db = Inr x"
    using total
    by (cases "next_job (runner_claimable now db run) skip (review_jobs db)")
       (auto simp: claim_job_def split: option.splits if_splits)
  then obtain res db' where c: "claim_job hash now skip token run db = Inr (res, db')" by auto
  from uniq c show ?thesis
  proof (cases rule: claim_job_cases)
    case none
    with c show ?thesis by auto
  next
    case (some j e)
    have "\<exists>r \<in> set (repositories db). \<exists>a \<in> set (repository_assignments db).
           as_repository_id a = rp_id r \<and> as_runner_id a = run \<and>
           rp_installation_id r = je_installation_id e \<and> rp_github_repository_id r = je_repository_id e"
      using some(4) envelope_fields [OF some(2)]
      unfolding runner_claimable_def assigned_to_def by (metis option.inject)
    moreover have "rj_id j = je_job_id e" using envelope_fields [OF some(2)] by simp
    moreover have "update_where (\<lambda>r. r = j) (runner_lease now run (hash token)) (review_jobs db) =
        map (\<lambda>r. if r = j then runner_lease now run (hash token) j else r) (review_jobs db)"
      by (rule update_where_single) simp
    ultimately show ?thesis using some c by (auto simp: runner_claimable_def)
  qed
qed

theorem claim_job_scoped_witness:
  "\<exists>e db'. claim_job id 5 {} ''tok'' ''r1'' fleet_db = Inr (Some e, db') \<and>
     (\<exists>runner \<in> set (runners fleet_db). rn_id runner = ''r1'' \<and> rn_revoked_at runner = None)"
proof -
  obtain e db' where c: "claim_job id 5 {} ''tok'' ''r1'' fleet_db = Inr (Some e, db')"
    using fleet_claims by blast
  from claim_job_scoped [OF fleet_ok, of "''tok''" id 5 "{}" "''r1''"] c show ?thesis by auto
qed

text \<open>C3. The lease token is a capability used once: a successful acknowledgement of a running job
  requires the claiming runner and the token whose hash the row stores, before the lease expires; it
  ends the job in the acknowledged state with exactly one appended event and changes no other row;
  and acknowledging again, at any later time and with any valid result, changes nothing.\<close>

theorem acknowledge_once:
  assumes "queue_ok db" "j \<in> set (review_jobs db)" "rj_id j = jid" "rj_status j = Running"
    "run \<noteq> ''None''" "\<forall>t. hash t \<noteq> ''None''"
    "acknowledge_job hash sd now run jid token ack db = Inr db'"
    "validate_acknowledgement ack' = Inr ack'"
  shows "rj_locked_by j = Some run \<and> rj_lease_token_hash j = Some (hash token) \<and>
    (\<exists>u. rj_locked_until j = Some u \<and> now < u) \<and>
    (\<exists>e j'. review_jobs db' = map (\<lambda>r. if r = j then j' else r) (review_jobs db) \<and>
       agent_events db' = agent_events db @ [e] \<and> flat_payload (ae_payload e) \<and>
       rj_status j' = (if ja_terminal_state ack = Ack_Succeeded then Succeeded else Failed)) \<and>
    acknowledge_job hash sd now' run jid token ack' db' = Inr db'"
proof -
  have uniq: "jobs_unique (review_jobs db)" using assms(1) by (simp add: queue_ok_def)
  from uniq assms(7) obtain u where p: "presents_lease hash run token j" "rj_locked_until j = Some u" "now < u"
    "validate_acknowledgement ack = Inr ack"
  proof (cases rule: acknowledge_cases)
    case (again k)
    then show thesis using unique_id [OF uniq again(1) assms(2)] assms(3, 4) by simp
  next
    case (ended k u)
    then show thesis using unique_id [OF uniq ended(1) assms(2)] assms(3) that by simp
  qed
  let ?j = "ack_row now ack j"
  have db': "db' = db\<lparr>review_jobs := map (\<lambda>r. if r = j then ?j else r) (review_jobs db),
         agent_events := agent_events db @
           [\<lparr>ae_sequence = Suc (length (agent_events db)), ae_review_job_id = Some jid,
             ae_event_type = ''review_job_acknowledged'', ae_payload = ack_payload sd ack, ae_created_at = now\<rparr>]\<rparr>"
    using acknowledge_running [OF assms(1, 2, 4) p, of sd] assms(3, 7) by simp
  have held: "rj_locked_by j = Some run" "rj_lease_token_hash j = Some (hash token)"
    using p(1) assms(5, 6) str_opt_Some unfolding presents_lease_def by metis+
  have "acknowledge_job hash sd now' run (rj_id ?j) token ack' db' = Inr db'"
  proof (rule acknowledge_done)
    show "queue_ok db'" using acknowledge_preserves(1) [OF assms(1, 7)] .
    show "?j \<in> set (review_jobs db')" using assms(2) by (auto simp: db')
  qed (use p assms(8) in \<open>simp_all add: ack_row_def presents_lease_def\<close>)
  then show ?thesis using held p db' assms(3) ack_payload_flat by (auto simp: ack_row_def)
qed

theorem acknowledge_once_witness:
  "\<exists>db db'. acknowledge_job (\<lambda>t. ''h'' @ t) (\<lambda>_. ''0'') 6 ''r1'' ''j1'' ''tok'' sample_ack db = Inr db' \<and>
     acknowledge_job (\<lambda>t. ''h'' @ t) (\<lambda>_. ''0'') 9 ''r1'' ''j1'' ''tok'' sample_ack db' = Inr db'"
proof -
  let ?j = "runner_lease 5 ''r1'' ''htok'' (enqueued_row 0 ''j1'' ''t1'' ''d1'' 7 9 3 ''b1'' ''h1'')"
  let ?db = "fleet_db\<lparr>review_jobs := [?j]\<rparr>"
  have ok: "queue_ok ?db"
    by (simp add: fleet_db_def tenant_db_def empty_db_def queue_ok_def jobs_unique_def one_active_head_def
      map_filter_simps active_head_def deliveries_ok_def seen_delivery_def split: option.splits)
       (simp add: runner_lease_def lease_def)
  have j: "?j \<in> set (review_jobs ?db)" "rj_id ?j = ''j1''" "rj_status ?j = Running"
    "presents_lease (\<lambda>t. ''h'' @ t) ''r1'' ''tok'' ?j" "rj_locked_until ?j = Some (5 + minutes 5)"
    by (simp_all add: presents_lease_def review_job_lease_interval_def)
  obtain db' where "acknowledge_job (\<lambda>t. ''h'' @ t) (\<lambda>_. ''0'') 6 ''r1'' ''j1'' ''tok'' sample_ack ?db = Inr db'"
    using acknowledge_running [OF ok j(1, 3-5) _ sample_ack_valid, of 6 "\<lambda>_. ''0''"] j(2) by simp
  with acknowledge_once [OF ok j(1-3) _ _ this sample_ack_valid, of 9] show ?thesis by auto
qed

text \<open>A claim is worth a lease: the runner that was handed a job can acknowledge it with the
  token of the envelope at any time within the next five minutes, and a heartbeat in that time keeps
  the lease for five more.\<close>

theorem claim_then_acknowledge:
  assumes "queue_ok db" "claim_job hash now skip token run db = Inr (Some e, db')"
    "now' < now + minutes 5" "validate_acknowledgement ack = Inr ack"
  shows "(\<exists>db''. acknowledge_job hash sd now' run (je_job_id e) token ack db' = Inr db'' \<and>
      agent_events db'' \<noteq> agent_events db') \<and>
    (\<exists>db''. heartbeat_job hash now' run (je_job_id e) token db' = (Active, db'') \<and>
      (\<exists>j \<in> set (review_jobs db''). rj_id j = je_job_id e \<and> rj_locked_until j = Some (now' + minutes 5)))"
proof -
  have uniq: "jobs_unique (review_jobs db)" using assms(1) by (simp add: queue_ok_def)
  have ok: "queue_ok db'" using claim_job_preserves(1) [OF assms(1, 2)] .
  from uniq assms(2) obtain j where j: "make_job_envelope j token = Inr e" "j \<in> set (review_jobs db)"
    "db' = db\<lparr>review_jobs := update_where (\<lambda>r. r = j) (runner_lease now run (hash token)) (review_jobs db)\<rparr>"
    by (cases rule: claim_job_cases) auto
  let ?j = "runner_lease now run (hash token) j"
  have there: "?j \<in> set (review_jobs db')" using j by (auto simp: in_update_where)
  have id: "rj_id ?j = je_job_id e" using envelope_fields [OF j(1)] by simp
  have pres: "presents_lease hash run token ?j" by (simp add: presents_lease_def)
  have until: "rj_locked_until ?j = Some (now + minutes 5)" by (simp add: review_job_lease_interval_def)
  have ack: "\<exists>db''. acknowledge_job hash sd now' run (je_job_id e) token ack db' = Inr db'' \<and>
      agent_events db'' \<noteq> agent_events db'"
    using acknowledge_running [OF ok there _ pres until assms(3, 4), of sd] id by simp
  let ?held = "runner_leased now' (je_job_id e) run (hash token)"
  have held: "?held ?j"
    using assms(3) id until by (simp add: runner_leased_def leased_by_def owned_by_def)
  have key: "distinct (map rj_id (review_jobs db'))" "\<And>r. ?held r \<Longrightarrow> rj_id r = je_job_id e"
    using ok by (auto simp: queue_ok_def jobs_unique_def runner_leased_def leased_by_def owned_by_def)
  have "rowcount ?held (review_jobs db') = 1"
    using rowcount_key [where key = rj_id, OF key] held there by auto
  then have hb: "heartbeat_job hash now' run (je_job_id e) token db' =
      (Active, db'\<lparr>review_jobs := update_where ?held (extend_lease now') (review_jobs db')\<rparr>)"
    by (simp add: heartbeat_job_def)
  have "extend_lease now' ?j \<in> set (update_where ?held (extend_lease now') (review_jobs db'))"
    using there held by (auto simp: in_update_where)
  moreover have "rj_id (extend_lease now' ?j) = je_job_id e"
    "rj_locked_until (extend_lease now' ?j) = Some (now' + minutes 5)"
    using id by (simp_all add: extend_lease_def review_job_lease_interval_def)
  ultimately show ?thesis using hb ack by auto
qed

theorem claim_then_acknowledge_witness:
  "\<exists>e db' db''. claim_job id 5 {} ''tok'' ''r1'' fleet_db = Inr (Some e, db') \<and>
     acknowledge_job id (\<lambda>_. ''0'') 8 ''r1'' (je_job_id e) ''tok'' sample_ack db' = Inr db''"
proof -
  obtain e db' where c: "claim_job id 5 {} ''tok'' ''r1'' fleet_db = Inr (Some e, db')"
    using fleet_claims by blast
  from claim_then_acknowledge [OF fleet_ok(1) c, of 8 sample_ack "\<lambda>_. ''0''"] sample_ack_valid c
  show ?thesis by auto
qed

text \<open>C8. A token needs a live lease and a live assignment: the broker mints one only for a runner
  that holds the unexpired lease of a running job, is not revoked and is assigned the job's
  repository in a registered, unrevoked installation; the token asked from GitHub covers exactly
  that repository with read permissions; and after the runner is revoked every request for a token
  with that lease is denied.\<close>

theorem issue_job_token_sound:
  assumes "policy_ok db" "issue_job_token hash mint now run jid token db = Inr t"
  shows "\<exists>j \<in> set (review_jobs db). rj_id j = jid \<and> rj_status j = Running \<and>
      (\<exists>u. rj_locked_until j = Some u \<and> now < u) \<and> presents_lease hash run token j \<and>
      (\<exists>inst a. rj_installation_id j = Some inst \<and>
         rj_github_repository_id j = Some (gt_github_repository_id t) \<and>
         authorize_repository inst (gt_github_repository_id t) run db = Authorized a \<and>
         mint inst [gt_github_repository_id t] [(''contents'', ''read''), (''pull_requests'', ''read'')]
           = Inr (gt_token t, gt_expires_at t)) \<and>
      issue_job_token hash mint now' run jid token (revoke_runner now' run db) = Inl JobProtocolDenied"
proof -
  from assms(2) obtain j where j: "fetchone (\<lambda>r. rj_id r = jid) (review_jobs db) = Some j"
    by (auto simp: issue_job_token_def split: option.splits)
  with assms(2) have lease: "presents_lease hash run token j" "rj_status j = Running"
    by (auto simp: issue_job_token_def split: if_splits)
  with assms(2) j obtain u where u: "rj_locked_until j = Some u" "now < u"
    by (auto simp: issue_job_token_def split: option.splits if_splits)
  with assms(2) j lease obtain inst repo where ids: "rj_installation_id j = Some inst"
    "rj_github_repository_id j = Some repo"
    by (auto simp: issue_job_token_def split: option.splits)
  with assms(2) j lease u obtain a where a: "authorize_repository inst repo run db = Authorized a"
    by (auto simp: issue_job_token_def split: authorization.splits)
  with assms(2) j lease u ids have t: "mint inst [repo] token_permissions = Inr (gt_token t, gt_expires_at t)"
    "gt_github_repository_id t = repo"
    by (auto simp: issue_job_token_def bind_r_Inr)
  have "authorize_repository inst repo run (revoke_runner now' run db) \<noteq> Authorized x" for x
    by (rule notI, drule authorize_Authorized) (auto simp: revoke_runner_def)
  then have denied: "\<exists>d. authorize_repository inst repo run (revoke_runner now' run db) = Authorization_Denied d"
    by (cases "authorize_repository inst repo run (revoke_runner now' run db)") auto
  have "issue_job_token hash mint now' run jid token (revoke_runner now' run db) = Inl JobProtocolDenied"
    using j lease u ids denied by (auto simp: issue_job_token_def revoke_runner_frame)
  with j lease u ids a t fetchone_Some [OF j] show ?thesis
    by (intro bexI [of _ j]) (auto simp: token_permissions_def)
qed

theorem issue_job_token_sound_witness:
  "\<exists>j t. issue_job_token (\<lambda>t. ''h'' @ t) (\<lambda>i rs ps. Inr (''ghs'', 99)) 6 ''r1'' ''j1'' ''tok''
       (fleet_db\<lparr>review_jobs := [runner_lease 5 ''r1'' ''htok'' j]\<rparr>) = Inr t \<and>
     issue_job_token (\<lambda>t. ''h'' @ t) (\<lambda>i rs ps. Inr (''ghs'', 99)) 7 ''r1'' ''j1'' ''tok''
       (revoke_runner 7 ''r1'' (fleet_db\<lparr>review_jobs := [runner_lease 5 ''r1'' ''htok'' j]\<rparr>)) = Inl JobProtocolDenied"
proof -
  let ?j = "enqueued_row 0 ''j1'' ''t1'' ''d1'' 7 9 3 ''b1'' ''h1''"
  let ?db = "fleet_db\<lparr>review_jobs := [runner_lease 5 ''r1'' ''htok'' ?j]\<rparr>"
  have pol: "policy_ok ?db"
    by (simp add: policy_ok_def fleet_db_def tenant_db_def empty_db_def tenant_runner_def)
  have ids: "rj_installation_id ?j = Some 7" "rj_github_repository_id ?j = Some 9"
    by (simp_all add: enqueued_row_def)
  obtain t where t: "issue_job_token (\<lambda>t. ''h'' @ t) (\<lambda>i rs ps. Inr (''ghs'', 99)) 6 ''r1'' ''j1'' ''tok'' ?db = Inr t"
    using ids by (simp add: issue_job_token_def presents_lease_def review_job_lease_interval_def fleet_db_def tenant_db_def empty_db_def
        tenant_runner_def authorize_repository_def repo_key_def)
  from issue_job_token_sound [OF pol t, of 7] t show ?thesis by auto
qed

end
