(* ===== verification/Pairing.thy ===== *)
theory Pairing
  imports Repository_Policy
begin

text \<open>
  One-time runner pairing, \<^verbatim>\<open>control_plane/pairing.py\<close>: a code is created, approved for an
  installation and some of its repositories, and exchanged once for a runner credential.  The
  exchange is one transaction: a refused assignment raises \<open>_ExchangeConflict\<close>, which rolls the
  new runner back.
\<close>

section \<open>Operations\<close>

definition pairing_ttl :: timestamp where "pairing_ttl = minutes 10"

definition initial_runner_capabilities :: runner_capabilities where
  "initial_runner_capabilities = \<lparr>cap_mode = Analysis_Only, cap_docker_available = False,
     cap_retrieval_available = False, cap_verification_available = False,
     cap_platform = ''unknown'', cap_version = ''unknown''\<rparr>"

record pairing_challenge =
  pch_code :: string
  pch_expires_at :: timestamp

definition create_pairing_code ::
  "(string \<Rightarrow> string) \<Rightarrow> timestamp \<Rightarrow> uuid \<Rightarrow> string \<Rightarrow> string \<Rightarrow> string \<Rightarrow> hosted_db
   \<Rightarrow> (pairing_challenge \<times> hosted_db) result" where
  "create_pairing_code hash now new_id code device_name challenge db =
     (if hash code \<in> pc_code_hash ` set (pairing_codes db) \<or> new_id \<in> pc_id ` set (pairing_codes db)
      then Inl UniqueViolation
      else Inr (\<lparr>pch_code = code, pch_expires_at = now\<rparr>,
        db\<lparr>pairing_codes := pairing_codes db @
          [\<lparr>pc_id = new_id, pc_device_name = device_name, pc_code_hash = hash code, pc_challenge = challenge,
            pc_github_user_id = None, pc_installation_id = None, pc_repository_ids = None,
            pc_approved_at = None, pc_exchanged_at = None, pc_created_at = now\<rparr>]\<rparr>))"

text \<open>\<open>VerifiedInstallationAccess\<close>: the repositories GitHub says the installation covers, as the
  items of the dictionary.\<close>

record verified_installation_access =
  va_github_user_id :: int
  va_installation_id :: int
  va_repositories :: "(int \<times> string) list"

datatype pairing_denial_reason =
    Invalid_Or_Expired_Code | Repository_Not_In_Installation | Pairing_Revoked_Installation
  | Pairing_Unknown_Installation

datatype approval = Pairing_Approved int "uuid list" | Pairing_Denied pairing_denial_reason

fun upsert_repositories ::
  "(nat \<Rightarrow> uuid) \<Rightarrow> nat \<Rightarrow> int \<Rightarrow> (int \<times> string) list \<Rightarrow> hosted_db \<Rightarrow> (uuid list \<times> hosted_db) result" where
  "upsert_repositories fresh n installation_id [] db = Inr ([], db)"
| "upsert_repositories fresh n installation_id ((g, name) # rs) db =
     bind_r (register_repository (fresh n) installation_id g name db) (\<lambda>(rid, db1).
     bind_r (upsert_repositories fresh (Suc n) installation_id rs db1) (\<lambda>(rids, db2).
       Inr (rid # rids, db2)))"

definition approvable :: "timestamp \<Rightarrow> string \<Rightarrow> pairing_row \<Rightarrow> bool" where
  "approvable now code_hash p \<longleftrightarrow>
     pc_code_hash p = code_hash \<and> pc_approved_at p = None \<and> now - pairing_ttl < pc_created_at p"

definition approve_pairing_by_hash ::
  "(nat \<Rightarrow> uuid) \<Rightarrow> timestamp \<Rightarrow> string \<Rightarrow> verified_installation_access \<Rightarrow> int list \<Rightarrow> hosted_db
   \<Rightarrow> (approval \<times> hosted_db) result" where
  "approve_pairing_by_hash fresh now code_hash access repository_ids db =
     (case fetchone (approvable now code_hash) (pairing_codes db) of
        None \<Rightarrow> Inr (Pairing_Denied Invalid_Or_Expired_Code, db)
      | Some p \<Rightarrow>
      (case fetchone (\<lambda>i. in_id i = va_installation_id access) (installations db) of
        None \<Rightarrow> Inr (Pairing_Denied Pairing_Unknown_Installation, db)
      | Some installation \<Rightarrow>
      if in_revoked_at installation \<noteq> None then Inr (Pairing_Denied Pairing_Revoked_Installation, db)
      else if \<exists>g \<in> set repository_ids. g \<notin> fst ` set (va_repositories access)
      then Inr (Pairing_Denied Repository_Not_In_Installation, db)
      else bind_r (upsert_repositories fresh 0 (va_installation_id access)
             (map (\<lambda>g. (g, the (map_of (va_repositories access) g))) repository_ids) db) (\<lambda>(uuids, db1).
        Inr (Pairing_Approved (va_installation_id access) uuids,
          db1\<lparr>pairing_codes := update_where (\<lambda>x. pc_id x = pc_id p)
            (\<lambda>x. x\<lparr>pc_github_user_id := Some (va_github_user_id access),
                   pc_installation_id := Some (va_installation_id access),
                   pc_repository_ids := Some uuids, pc_approved_at := Some now\<rparr>) (pairing_codes db1)\<rparr>))))"

definition approve_pairing ::
  "(string \<Rightarrow> string) \<Rightarrow> (nat \<Rightarrow> uuid) \<Rightarrow> timestamp \<Rightarrow> string \<Rightarrow> verified_installation_access \<Rightarrow> int list \<Rightarrow> hosted_db
   \<Rightarrow> (approval \<times> hosted_db) result" where
  "approve_pairing hash fresh now code access repository_ids db =
     approve_pairing_by_hash fresh now (hash code) access repository_ids db"

datatype exchange_result =
    Exchanged uuid string
  | Exchange_Denied
  | Exchange_Refused uuid uuid string

text \<open>The loop over the approved repositories; \<open>Inr (Inl refused)\<close> is the internal
  \<open>_ExchangeConflict\<close>.\<close>

fun assign_all :: "uuid list \<Rightarrow> uuid \<Rightarrow> hosted_db \<Rightarrow> ((uuid \<times> uuid \<times> string) + hosted_db) result" where
  "assign_all [] runner_id db = Inr (Inr db)"
| "assign_all (rid # rids) runner_id db =
     bind_r (assign_repository_to_runner rid runner_id db) (\<lambda>(outcome, db1).
       case outcome of
         Assignment_Refused r holder name \<Rightarrow> Inr (Inl (r, holder, name))
       | Assignment_Granted _ _ \<Rightarrow> assign_all rids runner_id db1)"

definition exchangeable :: "timestamp \<Rightarrow> string \<Rightarrow> string \<Rightarrow> pairing_row \<Rightarrow> bool" where
  "exchangeable now code_hash challenge p \<longleftrightarrow>
     pc_code_hash p = code_hash \<and> pc_challenge p = challenge \<and> pc_approved_at p \<noteq> None \<and>
     pc_exchanged_at p = None \<and> now - pairing_ttl < pc_created_at p"

definition exchange_pairing_code ::
  "(string \<Rightarrow> string) \<Rightarrow> timestamp \<Rightarrow> uuid \<Rightarrow> string \<Rightarrow> string \<Rightarrow> string \<Rightarrow> hosted_db
   \<Rightarrow> (exchange_result \<times> hosted_db) result" where
  "exchange_pairing_code hash now new_runner_id credential code proof_text db =
     (case fetchone (exchangeable now (hash code) (hash proof_text)) (pairing_codes db) of
        None \<Rightarrow> Inr (Exchange_Denied, db)
      | Some p \<Rightarrow>
          (case (pc_github_user_id p, pc_installation_id p) of
             (Some user, Some inst) \<Rightarrow>
               bind_r (register_runner hash new_runner_id (pc_device_name p) credential
                         initial_runner_capabilities (Some user) (Some inst) db) (\<lambda>(runner_id, db1).
               bind_r (assign_all (case pc_repository_ids p of None \<Rightarrow> [] | Some rids \<Rightarrow> rids) runner_id db1)
                 (\<lambda>outcome. case outcome of
                    Inl (r, holder, name) \<Rightarrow> Inr (Exchange_Refused r holder name, db)
                  | Inr db2 \<Rightarrow>
                      Inr (Exchanged runner_id credential,
                        db2\<lparr>pairing_codes := update_where (\<lambda>x. pc_id x = pc_id p)
                          (\<lambda>x. x\<lparr>pc_exchanged_at := Some now\<rparr>) (pairing_codes db2)\<rparr>)))
           | _ \<Rightarrow> Inl TypeError))"

datatype pairing_state = Pairing_Pending | Pairing_Exchangeable | Pairing_Invalid_Or_Expired

definition pairing_status :: "(string \<Rightarrow> string) \<Rightarrow> timestamp \<Rightarrow> string \<Rightarrow> string \<Rightarrow> hosted_db \<Rightarrow> pairing_state" where
  "pairing_status hash now code challenge db =
     (case fetchone (\<lambda>p. pc_code_hash p = hash code \<and> pc_challenge p = challenge \<and>
              now - pairing_ttl < pc_created_at p) (pairing_codes db) of
        None \<Rightarrow> Pairing_Invalid_Or_Expired
      | Some p \<Rightarrow>
          if pc_exchanged_at p \<noteq> None then Pairing_Invalid_Or_Expired
          else if pc_approved_at p \<noteq> None then Pairing_Exchangeable
          else Pairing_Pending)"

section \<open>Invariant\<close>

text \<open>The keys of \<open>pairing_codes\<close>, and that a code is only exchanged after it was approved, with
  the identity of the approval recorded.\<close>

definition pairing_ok :: "hosted_db \<Rightarrow> bool" where
  "pairing_ok db \<longleftrightarrow>
     policy_ok db \<and>
     distinct (map pc_id (pairing_codes db)) \<and> distinct (map pc_code_hash (pairing_codes db)) \<and>
     (\<forall>p \<in> set (pairing_codes db).
        (pc_exchanged_at p \<noteq> None \<longrightarrow> pc_approved_at p \<noteq> None) \<and>
        (pc_approved_at p \<noteq> None \<longrightarrow> pc_github_user_id p \<noteq> None \<and> pc_installation_id p \<noteq> None))"

lemma pairing_pc_unique:
  "pairing_ok db \<Longrightarrow> p \<in> set (pairing_codes db) \<Longrightarrow> q \<in> set (pairing_codes db) \<Longrightarrow>
   pc_id p = pc_id q \<or> pc_code_hash p = pc_code_hash q \<Longrightarrow> p = q"
  by (auto simp: pairing_ok_def intro: key_unique [of pc_id] key_unique [of pc_code_hash])

lemma pairing_ok_frame:
  "pairing_ok db \<Longrightarrow> policy_ok db' \<Longrightarrow> pairing_codes db' = pairing_codes db \<Longrightarrow> pairing_ok db'"
  by (simp add: pairing_ok_def)

lemma create_pairing_ok:
  "pairing_ok db \<Longrightarrow> create_pairing_code hash now nid code dev ch db = Inr (c, db') \<Longrightarrow> pairing_ok db'"
  by (auto simp: create_pairing_code_def pairing_ok_def policy_ok_def split: if_splits)

lemma register_repository_frame:
  "register_repository nid i g name db = Inr (rid, db') \<Longrightarrow>
   pairing_codes db' = pairing_codes db \<and> repository_assignments db' = repository_assignments db \<and>
   runners db' = runners db \<and> review_jobs db' = review_jobs db \<and> installations db' = installations db"
  by (auto simp: register_repository_def split: if_splits option.splits)

lemma upsert_repositories_ok:
  "policy_ok db \<Longrightarrow> upsert_repositories fresh n i rs db = Inr (uuids, db') \<Longrightarrow>
   policy_ok db' \<and> pairing_codes db' = pairing_codes db \<and> repository_assignments db' = repository_assignments db \<and>
   runners db' = runners db"
proof (induction fresh n i rs db arbitrary: uuids rule: upsert_repositories.induct)
  case (2 fresh n i g name rs db)
  then obtain rid db1 rids where step: "register_repository (fresh n) i g name db = Inr (rid, db1)"
    "upsert_repositories fresh (Suc n) i rs db1 = Inr (rids, db')"
    by (auto simp: bind_r_Inr)
  have "policy_ok db1" using register_repository_policy [OF "2.prems"(1) step(1)] by simp
  from "2.IH" [OF this step(2)] register_repository_frame [OF step(1)] show ?case by simp
qed simp

text \<open>The rows of earlier upserts survive the later ones.\<close>

lemma register_repository_keeps:
  assumes "register_repository nid i g name db = Inr (rid, db')" "r \<in> set (repositories db)"
  shows "\<exists>r' \<in> set (repositories db'). rp_id r' = rp_id r \<and> rp_installation_id r' = rp_installation_id r \<and>
     rp_github_repository_id r' = rp_github_repository_id r"
  using assms(1)
proof (cases rule: register_repository_cases)
  case (old x)
  let ?r = "if repo_key i g r then r\<lparr>rp_name := name\<rparr> else r"
  have "?r \<in> set (repositories db')" using assms(2) old(4) by (auto simp: in_update_where)
  then show ?thesis by (rule bexI [rotated]) auto
next
  case new
  with assms(2) show ?thesis by auto
qed

lemma upsert_repositories_keeps:
  "upsert_repositories fresh n i rs db = Inr (uuids, db') \<Longrightarrow> r \<in> set (repositories db) \<Longrightarrow>
   \<exists>r' \<in> set (repositories db'). rp_id r' = rp_id r \<and> rp_installation_id r' = rp_installation_id r \<and>
     rp_github_repository_id r' = rp_github_repository_id r"
proof (induction fresh n i rs db arbitrary: uuids r rule: upsert_repositories.induct)
  case (2 fresh n i g name rs db)
  then obtain rid db1 rids where step: "register_repository (fresh n) i g name db = Inr (rid, db1)"
    "upsert_repositories fresh (Suc n) i rs db1 = Inr (rids, db')"
    by (auto simp: bind_r_Inr)
  from register_repository_keeps [OF step(1) "2.prems"(2)] "2.IH" [OF step(2)] show ?case by fastforce
qed auto

lemma register_repository_row:
  assumes "register_repository nid i g name db = Inr (rid, db')"
  shows "\<exists>r \<in> set (repositories db'). rp_id r = rid \<and> rp_installation_id r = i \<and> rp_github_repository_id r = g"
  using assms
proof (cases rule: register_repository_cases)
  case (old x)
  then have "x\<lparr>rp_name := name\<rparr> \<in> set (repositories db')" by (auto simp: in_update_where)
  then show ?thesis using old by (intro bexI) (auto simp: repo_key_def)
qed auto

lemma upsert_repositories_rows:
  "policy_ok db \<Longrightarrow> upsert_repositories fresh n i (map (\<lambda>g. (g, f g)) ids) db = Inr (uuids, db') \<Longrightarrow>
   length uuids = length ids \<and> (\<forall>k < length ids. \<exists>r \<in> set (repositories db'). rp_id r = uuids ! k \<and>
     rp_installation_id r = i \<and> rp_github_repository_id r = ids ! k)"
proof (induction ids arbitrary: n db uuids)
  case (Cons g ids)
  then obtain rid db1 rids where step: "register_repository (fresh n) i g (f g) db = Inr (rid, db1)"
    "upsert_repositories fresh (Suc n) i (map (\<lambda>g. (g, f g)) ids) db1 = Inr (rids, db')" "uuids = rid # rids"
    by (auto simp: bind_r_Inr)
  have "policy_ok db1" using register_repository_policy [OF Cons.prems(1) step(1)] by simp
  from Cons.IH [OF this step(2)] have ih: "length rids = length ids"
    "\<forall>k < length ids. \<exists>r \<in> set (repositories db'). rp_id r = rids ! k \<and> rp_installation_id r = i \<and>
       rp_github_repository_id r = ids ! k" by auto
  moreover have "\<exists>r \<in> set (repositories db'). rp_id r = rid \<and> rp_installation_id r = i \<and> rp_github_repository_id r = g"
    using register_repository_row [OF step(1)] upsert_repositories_keeps [OF step(2)] by fastforce
  ultimately show ?case using step(3) by (auto simp: nth_Cons split: nat.splits)
qed simp

lemma approve_cases:
  assumes "pairing_ok db" "approve_pairing_by_hash fresh now ch access ids db = Inr (res, db')"
  obtains
    (denied) d where "res = Pairing_Denied d" "db' = db"
  | (approved) p db1 uuids where "p \<in> set (pairing_codes db)" "approvable now ch p"
      "\<forall>g \<in> set ids. g \<in> fst ` set (va_repositories access)"
      "\<exists>i \<in> set (installations db). in_id i = va_installation_id access \<and> in_revoked_at i = None"
      "upsert_repositories fresh 0 (va_installation_id access)
         (map (\<lambda>g. (g, the (map_of (va_repositories access) g))) ids) db = Inr (uuids, db1)"
      "res = Pairing_Approved (va_installation_id access) uuids"
      "db' = db1\<lparr>pairing_codes := map (\<lambda>x. if x = p then p\<lparr>pc_github_user_id := Some (va_github_user_id access),
                   pc_installation_id := Some (va_installation_id access),
                   pc_repository_ids := Some uuids, pc_approved_at := Some now\<rparr> else x) (pairing_codes db)\<rparr>"
proof (cases "fetchone (approvable now ch) (pairing_codes db)")
  case None
  with assms(2) that(1) show thesis by (auto simp: approve_pairing_by_hash_def)
next
  case (Some p)
  note p = fetchone_Some [OF Some]
  show thesis
  proof (cases "fetchone (\<lambda>i. in_id i = va_installation_id access) (installations db)")
    case None
    with Some assms(2) that(1) show thesis by (auto simp: approve_pairing_by_hash_def)
  next
    case (Some inst)
    note inst = fetchone_Some [OF Some]
    show thesis
    proof (cases "in_revoked_at inst \<noteq> None \<or> (\<exists>g \<in> set ids. g \<notin> fst ` set (va_repositories access))")
      case True
      then show thesis using \<open>fetchone _ (pairing_codes db) = _\<close> Some assms(2) that(1)
        by (auto simp: approve_pairing_by_hash_def split: if_splits)
    next
      case False
      then obtain uuids db1 where u: "upsert_repositories fresh 0 (va_installation_id access)
         (map (\<lambda>g. (g, the (map_of (va_repositories access) g))) ids) db = Inr (uuids, db1)"
        and r: "res = Pairing_Approved (va_installation_id access) uuids"
          "db' = db1\<lparr>pairing_codes := update_where (\<lambda>x. pc_id x = pc_id p)
            (\<lambda>x. x\<lparr>pc_github_user_id := Some (va_github_user_id access),
                   pc_installation_id := Some (va_installation_id access),
                   pc_repository_ids := Some uuids, pc_approved_at := Some now\<rparr>) (pairing_codes db1)\<rparr>"
        using \<open>fetchone _ (pairing_codes db) = _\<close> Some assms(2)
        by (auto simp: approve_pairing_by_hash_def bind_r_Inr)
      have codes: "pairing_codes db1 = pairing_codes db"
        using upsert_repositories_ok [OF _ u] assms(1) by (simp add: pairing_ok_def)
      have only: "pc_id x = pc_id p \<longleftrightarrow> x = p" if "x \<in> set (pairing_codes db)" for x
        using pairing_pc_unique [OF assms(1) that] p by auto
      show thesis
        by (rule that(2) [OF _ _ _ _ u r(1)])
           (use p inst False in \<open>simp_all add: r(2) codes update_where_single [OF only]\<close>, blast)
    qed
  qed
qed

lemma approve_pairing_ok:
  assumes "pairing_ok db" "approve_pairing_by_hash fresh now ch access ids db = Inr (res, db')"
  shows "pairing_ok db'"
  using assms
proof (cases rule: approve_cases)
  case (approved p db1 uuids)
  have d1: "policy_ok db1" using upsert_repositories_ok [OF _ approved(5)] assms(1) by (simp add: pairing_ok_def)
  let ?f = "\<lambda>x. if x = p then p\<lparr>pc_github_user_id := Some (va_github_user_id access),
     pc_installation_id := Some (va_installation_id access), pc_repository_ids := Some uuids,
     pc_approved_at := Some now\<rparr> else x"
  have "map pc_id (map ?f (pairing_codes db)) = map pc_id (pairing_codes db)"
    "map pc_code_hash (map ?f (pairing_codes db)) = map pc_code_hash (pairing_codes db)"
    by simp_all
  then show ?thesis using assms(1) d1 approved(7)
    unfolding pairing_ok_def by (auto simp: policy_ok_def simp del: map_map)
qed (use assms in simp)

lemma assign_all_ok:
  "policy_ok db \<Longrightarrow> assign_all rids run db = Inr (Inr db') \<Longrightarrow>
   policy_ok db' \<and> db' = db\<lparr>repository_assignments := repository_assignments db @
     map (\<lambda>rid. \<lparr>as_repository_id = rid, as_runner_id = run\<rparr>) rids\<rparr>"
proof (induction rids run db rule: assign_all.induct)
  case (2 rid rids run db)
  then obtain res db1 where a: "assign_repository_to_runner rid run db = Inr (res, db1)"
    by (auto simp: bind_r_Inr)
  from a show ?case
  proof (cases rule: assign_cases)
    case (refused holder name)
    with "2.prems" a show ?thesis by simp
  next
    case granted
    have "policy_ok db1" using assign_policy [OF "2.prems"(1) a] .
    moreover have "assign_all rids run db1 = Inr (Inr db')" using "2.prems"(2) a granted(1) by simp
    ultimately show ?thesis using "2.IH" [OF granted(1), of db1] granted(5) by force
  qed
qed simp

definition paired_runner :: "(string \<Rightarrow> string) \<Rightarrow> uuid \<Rightarrow> string \<Rightarrow> string \<Rightarrow> int \<Rightarrow> int \<Rightarrow> runner_row" where
  "paired_runner hash rid device credential user inst =
     \<lparr>rn_id = rid, rn_device_name = device, rn_credential_hash = hash credential,
      rn_mode = Analysis_Only, rn_docker_available = False, rn_retrieval_available = False,
      rn_verification_available = False, rn_platform = ''unknown'', rn_version = ''unknown'',
      rn_revoked_at = None, rn_github_user_id = Some user, rn_installation_id = Some inst\<rparr>"

lemma exchange_cases:
  assumes "pairing_ok db" "exchange_pairing_code hash now nid cred code pf db = Inr (res, db')"
  obtains
    (denied) "res = Exchange_Denied" "db' = db" "\<forall>p \<in> set (pairing_codes db). \<not> exchangeable now (hash code) (hash pf) p"
  | (refused) r holder name where "res = Exchange_Refused r holder name" "db' = db"
      "\<exists>p \<in> set (pairing_codes db). exchangeable now (hash code) (hash pf) p"
  | (exchanged) p user inst where "p \<in> set (pairing_codes db)" "exchangeable now (hash code) (hash pf) p"
      "pc_github_user_id p = Some user" "pc_installation_id p = Some inst" "res = Exchanged nid cred"
      "nid \<notin> rn_id ` set (runners db)"
      "db' = db\<lparr>runners := runners db @ [paired_runner hash nid (pc_device_name p) cred user inst],
         repository_assignments := repository_assignments db @
           map (\<lambda>rid. \<lparr>as_repository_id = rid, as_runner_id = nid\<rparr>)
             (case pc_repository_ids p of None \<Rightarrow> [] | Some rids \<Rightarrow> rids),
         pairing_codes := map (\<lambda>x. if x = p then p\<lparr>pc_exchanged_at := Some now\<rparr> else x) (pairing_codes db)\<rparr>"
      "policy_ok db'"
proof (cases "fetchone (exchangeable now (hash code) (hash pf)) (pairing_codes db)")
  case None
  with assms(2) that(1) show thesis by (auto simp: exchange_pairing_code_def fetchone_None)
next
  case (Some p)
  note p = fetchone_Some [OF Some]
  from p assms(1) obtain user inst where ui: "pc_github_user_id p = Some user" "pc_installation_id p = Some inst"
    by (auto simp: pairing_ok_def exchangeable_def)
  let ?rids = "case pc_repository_ids p of None \<Rightarrow> [] | Some rids \<Rightarrow> rids"
  let ?db1 = "db\<lparr>runners := runners db @ [paired_runner hash nid (pc_device_name p) cred user inst]\<rparr>"
  from assms(2) Some ui have reg: "register_runner hash nid (pc_device_name p) cred initial_runner_capabilities
      (Some user) (Some inst) db = Inr (nid, ?db1)" "nid \<notin> rn_id ` set (runners db)"
    by (auto simp: exchange_pairing_code_def bind_r_Inr register_runner_def paired_runner_def
        initial_runner_capabilities_def split: if_splits)
  have pol: "policy_ok ?db1" using register_runner_policy [OF _ reg(1)] assms(1) by (simp add: pairing_ok_def)
  from assms(2) Some ui reg obtain out where out: "assign_all ?rids nid ?db1 = Inr out"
    by (auto simp: exchange_pairing_code_def bind_r_Inr)
  show thesis
  proof (cases out)
    case (Inl c)
    obtain r holder name where "c = (r, holder, name)" by (cases c) auto
    with Inl out assms(2) Some ui reg have "res = Exchange_Refused r holder name" "db' = db"
      by (auto simp: exchange_pairing_code_def)
    with p show thesis by (intro that(2)) auto
  next
    case (Inr db2)
    have only: "pc_id x = pc_id p \<longleftrightarrow> x = p" if "x \<in> set (pairing_codes db)" for x
      using pairing_pc_unique [OF assms(1) that] p by auto
    from assign_all_ok [OF pol] out Inr have db2: "policy_ok db2" "db2 = ?db1\<lparr>repository_assignments :=
      repository_assignments db @ map (\<lambda>rid. \<lparr>as_repository_id = rid, as_runner_id = nid\<rparr>) ?rids\<rparr>" by auto
    from assms(2) Some ui reg out Inr have r: "res = Exchanged nid cred"
      "db' = db2\<lparr>pairing_codes := update_where (\<lambda>x. pc_id x = pc_id p)
         (\<lambda>x. x\<lparr>pc_exchanged_at := Some now\<rparr>) (pairing_codes db2)\<rparr>"
      by (auto simp: exchange_pairing_code_def)
    show thesis
      by (rule that(3) [OF _ _ ui r(1) reg(2)])
         (use p db2 in \<open>simp_all add: r(2) db2(2) update_where_single [OF only] policy_ok_def\<close>)
  qed
qed

lemma exchange_pairing_ok:
  assumes "pairing_ok db" "exchange_pairing_code hash now nid cred code pf db = Inr (res, db')"
  shows "pairing_ok db'"
  using assms
proof (cases rule: exchange_cases)
  case (exchanged p user inst)
  let ?f = "\<lambda>x. if x = p then p\<lparr>pc_exchanged_at := Some now\<rparr> else x"
  have "map pc_id (map ?f (pairing_codes db)) = map pc_id (pairing_codes db)"
    "map pc_code_hash (map ?f (pairing_codes db)) = map pc_code_hash (pairing_codes db)"
    by simp_all
  then show ?thesis using assms(1) exchanged
    unfolding pairing_ok_def by (auto simp: exchangeable_def simp del: map_map)
qed (use assms in simp_all)

section \<open>Properties\<close>

text \<open>An approved code of the tenant, with the identity function for the hash.\<close>

definition approved_code :: pairing_row where
  "approved_code = \<lparr>pc_id = ''c1'', pc_device_name = ''laptop'', pc_code_hash = ''code'', pc_challenge = ''proof'',
     pc_github_user_id = Some 5, pc_installation_id = Some 7, pc_repository_ids = Some [''p9''],
     pc_approved_at = Some 1, pc_exchanged_at = None, pc_created_at = 0\<rparr>"

definition pairing_db :: hosted_db where
  "pairing_db = tenant_db\<lparr>repository_assignments := [], runners := [], pairing_codes := [approved_code]\<rparr>"

lemma pairing_db_ok: "pairing_ok pairing_db"
  by (simp add: pairing_ok_def policy_ok_def pairing_db_def tenant_db_def empty_db_def approved_code_def)

lemma pairing_db_exchange:
  "\<exists>db'. exchange_pairing_code id 5 ''r1'' ''cred'' ''code'' ''proof'' pairing_db = Inr (Exchanged ''r1'' ''cred'', db')"
  by (simp add: exchange_pairing_code_def exchangeable_def pairing_db_def tenant_db_def empty_db_def approved_code_def
      pairing_ttl_def register_runner_def assign_repository_to_runner_def initial_runner_capabilities_def)

text \<open>C9. An exchange is all or nothing: it either changes nothing (denied or refused), or it adds
  exactly one runner, least privileged and bound to the user and installation of the approval, assigns
  it exactly the approved repositories, none of which had a holder, and marks the code exchanged.\<close>

theorem exchange_atomic:
  assumes "pairing_ok db" "exchange_pairing_code hash now nid cred code pf db = Inr (res, db')"
  shows "(case res of
      Exchanged rid c \<Rightarrow> rid = nid \<and> c = cred \<and>
        (\<exists>p \<in> set (pairing_codes db). \<exists>user inst runner.
           pc_code_hash p = hash code \<and> pc_challenge p = hash pf \<and> pc_approved_at p \<noteq> None \<and>
           pc_exchanged_at p = None \<and> now < pc_created_at p + minutes 10 \<and>
           pc_github_user_id p = Some user \<and> pc_installation_id p = Some inst \<and>
           runners db' = runners db @ [runner] \<and> rn_id runner = nid \<and> rn_mode runner = Analysis_Only \<and>
           \<not> rn_docker_available runner \<and> \<not> rn_verification_available runner \<and>
           rn_github_user_id runner = Some user \<and> rn_installation_id runner = Some inst \<and>
           repository_assignments db' = repository_assignments db @
             map (\<lambda>r. \<lparr>as_repository_id = r, as_runner_id = nid\<rparr>) (case pc_repository_ids p of None \<Rightarrow> [] | Some rs \<Rightarrow> rs) \<and>
           distinct (map as_repository_id (repository_assignments db')) \<and>
           review_jobs db' = review_jobs db \<and> repositories db' = repositories db)
    | _ \<Rightarrow> db' = db)"
  using assms
proof (cases rule: exchange_cases)
  case (exchanged p user inst)
  have "distinct (map as_repository_id (repository_assignments db'))"
    using exchanged(8) by (simp add: policy_ok_def)
  with exchanged show ?thesis
    by (auto simp: exchangeable_def pairing_ttl_def paired_runner_def intro!: bexI [of _ p])
qed simp_all

theorem exchange_atomic_witness:
  "\<exists>db'. exchange_pairing_code id 5 ''r1'' ''cred'' ''code'' ''proof'' pairing_db = Inr (Exchanged ''r1'' ''cred'', db') \<and>
     length (runners db') = 1"
proof -
  obtain db' where e: "exchange_pairing_code id 5 ''r1'' ''cred'' ''code'' ''proof'' pairing_db =
      Inr (Exchanged ''r1'' ''cred'', db')" using pairing_db_exchange by blast
  from exchange_atomic [OF pairing_db_ok e] have "\<exists>runner. runners db' = runners pairing_db @ [runner]" by auto
  with e show ?thesis by (auto simp: pairing_db_def)
qed

text \<open>C5. A pairing code works once: after a successful exchange every exchange with the same code
  is denied and changes nothing, whatever the proof and whatever the time, and the status poll of its
  challenge says so.\<close>

theorem exchange_single_use:
  assumes "pairing_ok db" "exchange_pairing_code hash now nid cred code pf db = Inr (Exchanged rid c, db')"
  shows "exchange_pairing_code hash now' nid' cred' code pf' db' = Inr (Exchange_Denied, db') \<and>
    pairing_status hash now' code ch db' = Pairing_Invalid_Or_Expired"
proof -
  have ok: "pairing_ok db'" using exchange_pairing_ok assms .
  from assms obtain p where p: "p \<in> set (pairing_codes db)" "pc_code_hash p = hash code"
    "pairing_codes db' = map (\<lambda>x. if x = p then p\<lparr>pc_exchanged_at := Some now\<rparr> else x) (pairing_codes db)"
    by (cases rule: exchange_cases) (auto simp: exchangeable_def)
  let ?q = "p\<lparr>pc_exchanged_at := Some now\<rparr>"
  have "?q \<in> set (pairing_codes db')" using p by auto
  with pairing_pc_unique [OF ok] p(2)
  have spent: "x = ?q" if "x \<in> set (pairing_codes db')" "pc_code_hash x = hash code" for x
    using that by (metis pairing_row.select_convs(3) pairing_row.surjective pairing_row.update_convs(9))
  have "fetchone (exchangeable now' (hash code) (hash pf')) (pairing_codes db') = None"
    unfolding fetchone_None exchangeable_def using spent by fastforce
  then have "exchange_pairing_code hash now' nid' cred' code pf' db' = Inr (Exchange_Denied, db')"
    by (simp add: exchange_pairing_code_def)
  moreover have "pc_exchanged_at q \<noteq> None"
    if "fetchone (\<lambda>p. pc_code_hash p = hash code \<and> pc_challenge p = ch \<and> now' - pairing_ttl < pc_created_at p)
      (pairing_codes db') = Some q" for q
    using fetchone_Some [OF that] spent [of q] by auto
  ultimately show ?thesis by (auto simp: pairing_status_def split: option.splits)
qed

theorem exchange_single_use_witness:
  "\<exists>db'. exchange_pairing_code id 5 ''r1'' ''cred'' ''code'' ''proof'' pairing_db = Inr (Exchanged ''r1'' ''cred'', db') \<and>
     exchange_pairing_code id 6 ''r2'' ''cred2'' ''code'' ''proof'' db' = Inr (Exchange_Denied, db')"
proof -
  obtain db' where e: "exchange_pairing_code id 5 ''r1'' ''cred'' ''code'' ''proof'' pairing_db =
      Inr (Exchanged ''r1'' ''cred'', db')" using pairing_db_exchange by blast
  from exchange_single_use [OF pairing_db_ok e, of 6 "''r2''" "''cred2''" "''proof''"] e show ?thesis by auto
qed

text \<open>The status poll tells exactly whether an exchange can be attempted: with the challenge of
  the verifier, it answers \<open>exchangeable\<close> if and only if the exchange finds a code to spend, that
  is, is not denied.\<close>

theorem pairing_status_exact:
  assumes "pairing_ok db"
  shows "pairing_status hash now code (hash pf) db = Pairing_Exchangeable \<longleftrightarrow>
    exchange_pairing_code hash now nid cred code pf db \<noteq> Inr (Exchange_Denied, db)"
proof -
  let ?ex = "exchangeable now (hash code) (hash pf)"
  have "exchange_pairing_code hash now nid cred code pf db \<noteq> Inr (Exchange_Denied, db) \<longleftrightarrow>
      (\<exists>p \<in> set (pairing_codes db). ?ex p)"
  proof (cases "fetchone ?ex (pairing_codes db)")
    case None
    then have "exchange_pairing_code hash now nid cred code pf db = Inr (Exchange_Denied, db)"
      by (simp add: exchange_pairing_code_def)
    with None show ?thesis by (simp add: fetchone_None)
  next
    case (Some p)
    with fetchone_Some [OF Some] show ?thesis
      by (auto simp: exchange_pairing_code_def bind_r_Inr split: option.splits sum.splits)
  qed
  moreover have "pairing_status hash now code (hash pf) db = Pairing_Exchangeable \<longleftrightarrow>
      (\<exists>p \<in> set (pairing_codes db). ?ex p)"
  proof
    assume "pairing_status hash now code (hash pf) db = Pairing_Exchangeable"
    then show "\<exists>p \<in> set (pairing_codes db). ?ex p"
      by (auto simp: pairing_status_def exchangeable_def split: option.splits if_splits dest!: fetchone_Some)
  next
    assume "\<exists>p \<in> set (pairing_codes db). ?ex p"
    then obtain p where p: "p \<in> set (pairing_codes db)" "?ex p" by blast
    have "(pc_code_hash q = hash code \<and> pc_challenge q = hash pf \<and> now - pairing_ttl < pc_created_at q) \<longleftrightarrow> q = p"
      if "q \<in> set (pairing_codes db)" for q
      using pairing_pc_unique [OF assms that p(1)] p(2) by (auto simp: exchangeable_def)
    from fetchone_single [OF this p(1)] p(2)
    show "pairing_status hash now code (hash pf) db = Pairing_Exchangeable"
      by (auto simp: pairing_status_def exchangeable_def)
  qed
  ultimately show ?thesis by simp
qed

theorem pairing_status_exact_witness:
  "pairing_status id 5 ''code'' (id ''proof'') pairing_db = Pairing_Exchangeable"
  unfolding pairing_status_exact [OF pairing_db_ok, of id 5 "''code''" "''proof''" "''r1''" "''cred''"]
  using pairing_db_exchange by auto

text \<open>Approval stays inside the verified access: it succeeds only for an unapproved code younger
  than ten minutes, a registered and unrevoked installation, and repositories GitHub listed for it; it
  creates no runner and no assignment; the rows it records all belong to that installation.\<close>

theorem approve_within_access:
  assumes "pairing_ok db" "approve_pairing hash fresh now code access ids db = Inr (Pairing_Approved inst uuids, db')"
  shows "inst = va_installation_id access \<and> set ids \<subseteq> fst ` set (va_repositories access) \<and>
    (\<exists>i \<in> set (installations db). in_id i = inst \<and> in_revoked_at i = None) \<and>
    (\<exists>p \<in> set (pairing_codes db). pc_code_hash p = hash code \<and> pc_approved_at p = None \<and>
       now < pc_created_at p + minutes 10) \<and>
    runners db' = runners db \<and> repository_assignments db' = repository_assignments db \<and>
    length uuids = length ids \<and>
    (\<forall>k < length ids. \<exists>r \<in> set (repositories db'). rp_id r = uuids ! k \<and>
       rp_installation_id r = inst \<and> rp_github_repository_id r = ids ! k)"
proof -
  from assms obtain p db1 where a: "p \<in> set (pairing_codes db)" "approvable now (hash code) p"
    "\<forall>g \<in> set ids. g \<in> fst ` set (va_repositories access)"
    "\<exists>i \<in> set (installations db). in_id i = va_installation_id access \<and> in_revoked_at i = None"
    "upsert_repositories fresh 0 (va_installation_id access)
       (map (\<lambda>g. (g, the (map_of (va_repositories access) g))) ids) db = Inr (uuids, db1)"
    "inst = va_installation_id access" "repositories db' = repositories db1" "runners db' = runners db1"
    "repository_assignments db' = repository_assignments db1"
    unfolding approve_pairing_def by (cases rule: approve_cases) auto
  have pol: "policy_ok db" using assms(1) by (simp add: pairing_ok_def)
  note frame = upsert_repositories_ok [OF pol a(5)]
  from upsert_repositories_rows [OF pol a(5)] have
    "length uuids = length ids \<and> (\<forall>k < length ids. \<exists>r \<in> set (repositories db1). rp_id r = uuids ! k \<and>
       rp_installation_id r = inst \<and> rp_github_repository_id r = ids ! k)"
    using a(6) by simp
  with a frame show ?thesis by (auto simp: approvable_def pairing_ttl_def)
qed

theorem approve_within_access_witness:
  "\<exists>db db' uuids. approve_pairing id (\<lambda>n. ''p10'') 3 ''code''
     \<lparr>va_github_user_id = 5, va_installation_id = 7, va_repositories = [(9, ''acme/app''), (10, ''acme/lib'')]\<rparr>
     [10, 9] db = Inr (Pairing_Approved 7 uuids, db') \<and> length uuids = 2"
proof -
  let ?db = "pairing_db\<lparr>pairing_codes := [approved_code\<lparr>pc_approved_at := None\<rparr>]\<rparr>"
  let ?access = "\<lparr>va_github_user_id = 5, va_installation_id = 7,
    va_repositories = [(9, ''acme/app''), (10, ''acme/lib'')]\<rparr>"
  have ok: "pairing_ok ?db"
    by (simp add: pairing_ok_def policy_ok_def pairing_db_def tenant_db_def empty_db_def approved_code_def)
  have "\<exists>uuids db'. approve_pairing id (\<lambda>n. ''p10'') 3 ''code'' ?access [10, 9] ?db = Inr (Pairing_Approved 7 uuids, db')"
    by (simp add: approve_pairing_def approve_pairing_by_hash_def approvable_def pairing_db_def tenant_db_def empty_db_def
        approved_code_def pairing_ttl_def register_repository_def repo_key_def in_bigint_def)
  then obtain uuids db' where a: "approve_pairing id (\<lambda>n. ''p10'') 3 ''code'' ?access [10, 9] ?db =
      Inr (Pairing_Approved 7 uuids, db')" by blast
  from approve_within_access [OF ok a] have "length uuids = 2" by simp
  with a show ?thesis by blast
qed

end
