(* ===== verification/Sign_In.thy ===== *)
theory Sign_In
  imports Pairing
begin

text \<open>
  Hosted GitHub sign-in, \<^verbatim>\<open>control_plane/github_oauth.py\<close> with the contracts of
  \<^verbatim>\<open>control_plane/github_auth.py\<close>, and the two places that turn a sign-in into a pairing
  approval: \<^verbatim>\<open>control_plane/oauth_api.py\<close> (the callback) and
  \<^verbatim>\<open>control_plane/approval_api.py\<close>.  The calls to GitHub are the parameters of the record
  \<open>github\<close>; JSON text, base64 and HMAC are the parameters of \<open>codec\<close>.
\<close>

section \<open>Parameters\<close>

text \<open>What GitHub answers: the token for a code, the user of a token, the installations of a
  token, the repositories of an installation.\<close>

record github =
  gh_access_token :: "string \<Rightarrow> string result"
  gh_user :: "string \<Rightarrow> (int \<times> string) result"
  gh_installations :: "string \<Rightarrow> int list result"
  gh_repositories :: "string \<Rightarrow> int \<Rightarrow> (int \<times> string) list result"

text \<open>\<open>json.dumps\<close>, \<open>json.loads\<close>, \<open>_b64encode\<close>, \<open>_b64decode\<close>, and the keyed digest.\<close>

record codec =
  cd_dumps :: "json \<Rightarrow> string"
  cd_loads :: "string \<Rightarrow> json result"
  cd_b64encode :: "string \<Rightarrow> string"
  cd_b64decode :: "string \<Rightarrow> string result"
  cd_hmac :: "string \<Rightarrow> string"

section \<open>The one-time state\<close>

definition state_ttl_seconds :: int where "state_ttl_seconds = 600"

definition allowed_return_to_paths :: "string list" where
  "allowed_return_to_paths = [''/dashboard'', ''/dashboard/reviews'']"

record sign_in_challenge =
  sc_state :: string
  sc_binding_secret :: string
  sc_expires_at :: timestamp

text \<open>\<open>None\<close> is \<open>ReturnToRejected\<close>.\<close>

definition begin_sign_in ::
  "(string \<Rightarrow> string) \<Rightarrow> timestamp \<Rightarrow> string \<Rightarrow> string \<Rightarrow> string \<Rightarrow> string option \<Rightarrow> hosted_db
   \<Rightarrow> (sign_in_challenge option \<times> hosted_db) result" where
  "begin_sign_in hash now state binding_secret return_to pairing_code_hash db =
     (if return_to \<notin> set allowed_return_to_paths then Inr (None, db)
      else if hash state \<in> os_state_hash ` set (oauth_states db) then Inl UniqueViolation
      else Inr (Some \<lparr>sc_state = state, sc_binding_secret = binding_secret,
                  sc_expires_at = now + seconds state_ttl_seconds\<rparr>,
        db\<lparr>oauth_states := oauth_states db @
          [\<lparr>os_state_hash = hash state, os_binding_hash = hash binding_secret, os_return_to = return_to,
            os_pairing_code_hash = pairing_code_hash, os_consumed_at = None, os_created_at = now\<rparr>]\<rparr>))"

record verified_github_user =
  vu_github_user_id :: int
  vu_login :: string
  vu_access_token :: string
  vu_return_to :: string

definition consumable :: "timestamp \<Rightarrow> string \<Rightarrow> string \<Rightarrow> oauth_state_row \<Rightarrow> bool" where
  "consumable now state_hash binding_hash s \<longleftrightarrow>
     os_state_hash s = state_hash \<and> os_binding_hash s = binding_hash \<and> os_consumed_at s = None \<and>
     now - minutes 10 < os_created_at s"

text \<open>The state is consumed in its own transaction, before GitHub is asked: a later exception
  leaves it consumed.  \<open>Inr None\<close> is \<open>SignInDenied\<close>.\<close>

definition complete_sign_in ::
  "(string \<Rightarrow> string) \<Rightarrow> github \<Rightarrow> timestamp \<Rightarrow> string \<Rightarrow> string \<Rightarrow> string \<Rightarrow> hosted_db
   \<Rightarrow> (verified_github_user \<times> string option) option result \<times> hosted_db" where
  "complete_sign_in hash gh now code state binding_secret db =
     (let ok = consumable now (hash state) (hash binding_secret)
      in case fetchone ok (oauth_states db) of
           None \<Rightarrow> (Inr None, db)
         | Some s \<Rightarrow>
             (bind_r (gh_access_token gh code) (\<lambda>access_token.
              bind_r (gh_user gh access_token) (\<lambda>(user_id, login).
                if login = [] then Inl ValueError
                else Inr (Some (\<lparr>vu_github_user_id = user_id, vu_login = login, vu_access_token = access_token,
                                 vu_return_to = os_return_to s\<rparr>, os_pairing_code_hash s)))),
              db\<lparr>oauth_states := update_where ok (\<lambda>s. s\<lparr>os_consumed_at := Some now\<rparr>) (oauth_states db)\<rparr>))"

section \<open>The live assertion\<close>

record live_assertion =
  la_github_user_id :: int
  la_login :: "string option"
  la_installations :: "(int \<times> (int \<times> string) list) list"
  la_expires_at :: int

definition unix_time :: "timestamp \<Rightarrow> int" where
  "unix_time now = now div 1000000"

fun collect_installations ::
  "github \<Rightarrow> string \<Rightarrow> int list \<Rightarrow> (int \<times> (int \<times> string) list) list \<Rightarrow> (int \<times> (int \<times> string) list) list result" where
  "collect_installations gh token [] acc = Inr acc"
| "collect_installations gh token (i # is) acc =
     bind_r (gh_repositories gh token i) (\<lambda>repos.
       collect_installations gh token is (dict_set i (dict_of repos) acc))"

definition capture_live_assertion :: "github \<Rightarrow> timestamp \<Rightarrow> verified_github_user \<Rightarrow> live_assertion result" where
  "capture_live_assertion gh now user =
     bind_r (gh_installations gh (vu_access_token user)) (\<lambda>is.
     bind_r (collect_installations gh (vu_access_token user) is []) (\<lambda>installations.
       Inr \<lparr>la_github_user_id = vu_github_user_id user, la_login = Some (vu_login user),
            la_installations = installations, la_expires_at = unix_time now + state_ttl_seconds\<rparr>))"

text \<open>\<open>Inr None\<close> is \<open>AccessDenied\<close>.\<close>

definition verify_installation_access ::
  "github \<Rightarrow> timestamp \<Rightarrow> verified_github_user option \<Rightarrow> int \<Rightarrow> live_assertion option
   \<Rightarrow> verified_installation_access option result" where
  "verify_installation_access gh now user installation_id assertion =
     (case assertion of
        Some a \<Rightarrow>
          if la_expires_at a \<le> unix_time now then Inr None
          else (case map_of (la_installations a) installation_id of
                  None \<Rightarrow> Inr None
                | Some repos \<Rightarrow> Inr (Some \<lparr>va_github_user_id = la_github_user_id a,
                    va_installation_id = installation_id, va_repositories = repos\<rparr>))
      | None \<Rightarrow>
          (case user of
             None \<Rightarrow> Inr None
           | Some u \<Rightarrow>
               bind_r (gh_installations gh (vu_access_token u)) (\<lambda>is.
                 if installation_id \<notin> set is then Inr None
                 else bind_r (gh_repositories gh (vu_access_token u) installation_id) (\<lambda>repos.
                   Inr (Some \<lparr>va_github_user_id = vu_github_user_id u,
                     va_installation_id = installation_id, va_repositories = dict_of repos\<rparr>)))))"

section \<open>The sealed cookie\<close>

definition assertion_payload :: "live_assertion \<Rightarrow> json" where
  "assertion_payload a =
     JObj [(''github_user_id'', JInt (la_github_user_id a)),
           (''login'', case la_login a of None \<Rightarrow> JNull | Some l \<Rightarrow> JStr l),
           (''installations'', JObj (map (\<lambda>(i, repos).
              (show_int i, JObj (map (\<lambda>(r, name). (show_int r, JStr name)) repos))) (la_installations a))),
           (''expires_at'', JInt (la_expires_at a))]"

definition issue_live_sign_in :: "codec \<Rightarrow> live_assertion \<Rightarrow> string" where
  "issue_live_sign_in cd a =
     (let raw = cd_b64encode cd (cd_dumps cd (assertion_payload a)) in raw @ ''.'' @ cd_hmac cd raw)"

text \<open>\<open>cookie.rsplit(".", 1)\<close> of a string with a dot.\<close>

definition rsplit_dot :: "string \<Rightarrow> string \<times> string" where
  "rsplit_dot s =
     (rev (tl (dropWhile (\<lambda>c. c \<noteq> CHR ''.'') (rev s))), rev (takeWhile (\<lambda>c. c \<noteq> CHR ''.'') (rev s)))"

definition is_ascii :: "string \<Rightarrow> bool" where
  "is_ascii s \<longleftrightarrow> list_all (\<lambda>c. (of_char c :: nat) < 128) s"

fun repos_from_payload :: "(json \<Rightarrow> string) \<Rightarrow> (string \<times> json) list \<Rightarrow> (int \<times> string) list result" where
  "repos_from_payload repr [] = Inr []"
| "repos_from_payload repr ((k, v) # kvs) =
     bind_r (int_of_string k) (\<lambda>i. bind_r (repos_from_payload repr kvs) (\<lambda>rest. Inr ((i, py_str repr v) # rest)))"

fun installation_items ::
  "(json \<Rightarrow> string) \<Rightarrow> (string \<times> json) list \<Rightarrow> (int \<times> (int \<times> string) list) list result" where
  "installation_items repr [] = Inr []"
| "installation_items repr ((k, v) # kvs) =
     (case v of
        JObj repos \<Rightarrow>
          bind_r (int_of_string k) (\<lambda>i.
          bind_r (repos_from_payload repr repos) (\<lambda>rs.
          bind_r (installation_items repr kvs) (\<lambda>rest. Inr ((i, dict_of rs) # rest))))
      | _ \<Rightarrow> Inl TypeError)"

fun installations_from_payload ::
  "(json \<Rightarrow> string) \<Rightarrow> json \<Rightarrow> (int \<times> (int \<times> string) list) list result" where
  "installations_from_payload repr (JObj kvs) = bind_r (installation_items repr kvs) (\<lambda>l. Inr (dict_of l))"
| "installations_from_payload repr _ = Inl TypeError"

definition assertion_of_payload :: "(json \<Rightarrow> string) \<Rightarrow> json \<Rightarrow> live_assertion result" where
  "assertion_of_payload repr payload =
     bind_r (bind_r (json_item payload ''expires_at'') py_int) (\<lambda>expires_at.
     bind_r (bind_r (json_item payload ''github_user_id'') py_int) (\<lambda>github_user_id.
     let login_value = json_get payload ''login'';
         login = (if login_value = JNull then None else Some (py_str repr login_value))
     in bind_r (bind_r (json_item payload ''installations'') (installations_from_payload repr)) (\<lambda>installations.
       Inr \<lparr>la_github_user_id = github_user_id, la_login = login, la_installations = installations,
            la_expires_at = expires_at\<rparr>)))"

text \<open>\<open>raw.encode("ascii")\<close> and \<open>hmac.compare_digest\<close> raise on text that is not ASCII, before
  the guarded block.\<close>

definition read_live_sign_in ::
  "(json \<Rightarrow> string) \<Rightarrow> codec \<Rightarrow> timestamp \<Rightarrow> string \<Rightarrow> live_assertion option result" where
  "read_live_sign_in repr cd now cookie =
     (if CHR ''.'' \<notin> set cookie then Inr None
      else let (raw, digest) = rsplit_dot cookie
      in if \<not> is_ascii raw then Inl UnicodeEncodeError
      else if \<not> is_ascii digest then Inl TypeError
      else if digest \<noteq> cd_hmac cd raw then Inr None
      else (case bind_r (cd_b64decode cd raw) (\<lambda>text. bind_r (cd_loads cd text) (assertion_of_payload repr)) of
              Inl e \<Rightarrow> if e \<in> {ValueError, KeyError, TypeError} then Inr None else Inl e
            | Inr a \<Rightarrow> if la_expires_at a \<le> unix_time now then Inr None else Inr (Some a)))"

section \<open>Approval through a sign-in\<close>

definition submit_pairing_approval ::
  "(string \<Rightarrow> string) \<Rightarrow> (nat \<Rightarrow> uuid) \<Rightarrow> github \<Rightarrow> timestamp \<Rightarrow> string \<Rightarrow> int \<Rightarrow> int list \<Rightarrow>
   verified_github_user option \<Rightarrow> live_assertion option \<Rightarrow> hosted_db \<Rightarrow> (approval option \<times> hosted_db) result" where
  "submit_pairing_approval hash fresh gh now code installation_id repository_ids user assertion db =
     bind_r (verify_installation_access gh now user installation_id assertion) (\<lambda>access.
       case access of
         None \<Rightarrow> Inr (None, db)
       | Some a \<Rightarrow> bind_r (approve_pairing hash fresh now code a repository_ids db) (\<lambda>(r, db').
           Inr (Some r, db')))"

text \<open>\<open>None\<close>: nothing safe to decide automatically.\<close>

definition auto_approve_waiting_pairing ::
  "(nat \<Rightarrow> uuid) \<Rightarrow> github \<Rightarrow> timestamp \<Rightarrow> string \<Rightarrow> verified_github_user \<Rightarrow> live_assertion \<Rightarrow> hosted_db
   \<Rightarrow> (approval option \<times> hosted_db) result" where
  "auto_approve_waiting_pairing fresh gh now pairing_code_hash user assertion db =
     (case la_installations assertion of
        [(installation_id, _)] \<Rightarrow>
          bind_r (verify_installation_access gh now (Some user) installation_id (Some assertion)) (\<lambda>access.
            case access of
              None \<Rightarrow> Inr (None, db)
            | Some a \<Rightarrow> bind_r (approve_pairing_by_hash fresh now pairing_code_hash a (map fst (va_repositories a)) db)
                (\<lambda>(r, db'). Inr (Some r, db')))
      | _ \<Rightarrow> Inr (None, db))"

datatype callback_response =
    No_State_Page
  | Pairing_Denied_Page pairing_denial_reason string
  | Pairing_Approved_Page string string
  | Redirect string string

text \<open>The callback: the response with the sealed cookie, or the raised exception, and the state
  that the committed transactions leave.\<close>

definition callback_route ::
  "(string \<Rightarrow> string) \<Rightarrow> (nat \<Rightarrow> uuid) \<Rightarrow> github \<Rightarrow> codec \<Rightarrow> timestamp \<Rightarrow> string \<Rightarrow> string option \<Rightarrow> string \<Rightarrow> hosted_db
   \<Rightarrow> callback_response result \<times> hosted_db" where
  "callback_route hash fresh gh cd now code state binding_cookie db =
     (case state of
        None \<Rightarrow> (Inr No_State_Page, db)
      | Some st \<Rightarrow>
          (case complete_sign_in hash gh now code st binding_cookie db of
             (Inl e, db1) \<Rightarrow> (Inl e, db1)
           | (Inr None, db1) \<Rightarrow> (Inl (HTTPException 401 ''invalid_or_expired_state''), db1)
           | (Inr (Some (user, pairing_code_hash)), db1) \<Rightarrow>
               (case capture_live_assertion gh now user of
                  Inl e \<Rightarrow> (Inl e, db1)
                | Inr assertion \<Rightarrow>
                    let cookie = issue_live_sign_in cd assertion
                    in (case pairing_code_hash of
                          None \<Rightarrow> (Inr (Redirect (vu_return_to user) cookie), db1)
                        | Some h \<Rightarrow>
                            (case auto_approve_waiting_pairing fresh gh now h user assertion db1 of
                               Inl e \<Rightarrow> (Inl e, db1)
                             | Inr (Some (Pairing_Denied reason), db2) \<Rightarrow> (Inr (Pairing_Denied_Page reason cookie), db2)
                             | Inr (Some (Pairing_Approved _ _), db2) \<Rightarrow>
                                 (Inr (Pairing_Approved_Page (vu_return_to user) cookie), db2)
                             | Inr (None, db2) \<Rightarrow> (Inr (Redirect (vu_return_to user) cookie), db2))))))"

text \<open>The approval route answers with a status code; the cookie is deleted in every answer.\<close>

definition approve_pairing_route ::
  "(string \<Rightarrow> string) \<Rightarrow> (nat \<Rightarrow> uuid) \<Rightarrow> github \<Rightarrow> codec \<Rightarrow> (json \<Rightarrow> string) \<Rightarrow> timestamp \<Rightarrow> string \<Rightarrow> string \<Rightarrow> int \<Rightarrow>
   int list \<Rightarrow> hosted_db \<Rightarrow> ((nat \<times> approval option) \<times> hosted_db) result" where
  "approve_pairing_route hash fresh gh cd repr now cookie code installation_id repository_ids db =
     bind_r (read_live_sign_in repr cd now cookie) (\<lambda>assertion.
       case assertion of
         None \<Rightarrow> Inr ((401, None), db)
       | Some a \<Rightarrow>
           bind_r (submit_pairing_approval hash fresh gh now code installation_id repository_ids None (Some a) db)
             (\<lambda>(result, db'). Inr (case result of
                None \<Rightarrow> ((403, None), db')
              | Some (Pairing_Denied d) \<Rightarrow> ((400, result), db')
              | Some (Pairing_Approved i u) \<Rightarrow> ((200, result), db'))))"

section \<open>Numerals\<close>

lemma digits_of_digits: "list_all is_digit s \<Longrightarrow> s \<noteq> [] \<or> b \<Longrightarrow> digits_of b s = Some s"
  by (induction b s rule: digits_of.induct) auto

lemma show_nat_all_digits: "list_all is_digit (show_nat n)"
  using show_nat_digits by (auto simp: list_all_iff)

lemma py_strip_id:
  assumes "s \<noteq> []" "\<not> is_space (hd s)" "\<not> is_space (last s)"
  shows "py_strip s = s"
proof -
  have strip: "lstrip u = u" if "u = [] \<or> \<not> is_space (hd u)" for u
    using that by (cases u) (auto simp: lstrip_def)
  have "lstrip s = s" "lstrip (rev s) = rev s"
    using assms by (auto intro!: strip simp: hd_rev)
  then show ?thesis by (simp add: py_strip_def lstrip_def)
qed

lemma minus_facts [simp]: "\<not> is_space (CHR ''-'')" "\<not> is_digit (CHR ''-'')" "\<not> is_digit (CHR ''+'')"
  by (simp_all add: is_space_def is_digit_def)

lemma int_of_show_int [simp]: "int_of_string (show_int i) = Inr i"
proof -
  have nat: "c \<in> set (show_nat n) \<Longrightarrow> c \<noteq> CHR ''-'' \<and> c \<noteq> CHR ''+''" for c n
    using show_nat_digits minus_facts by metis
  have strip: "py_strip (show_int i) = show_int i"
  proof (rule py_strip_id)
    have "\<not> is_space c" if "c \<in> set (show_int i)" for c
      using that show_nat_digits digit_not_space by (auto simp: show_int_def split: if_splits)
    then show "\<not> is_space (hd (show_int i))" "\<not> is_space (last (show_int i))"
      by (simp_all add: show_int_def)
  qed (simp add: show_int_def)
  show ?thesis
  proof (cases "i < 0")
    case True
    then show ?thesis using strip
      by (simp add: int_of_string_def show_int_def digits_of_digits [OF show_nat_all_digits])
  next
    case False
    obtain c cs where c: "show_nat (nat i) = c # cs" by (meson list.exhaust show_nat_nonempty)
    with nat [of c "nat i"] have "c \<noteq> CHR ''-''" "c \<noteq> CHR ''+''" by auto
    moreover have "digits_of False (c # cs) = Some (c # cs)"
      using digits_of_digits [OF show_nat_all_digits, of "nat i" False] c by simp
    moreover have "read_nat (c # cs) = nat i" using c read_show_nat by metis
    ultimately show ?thesis using strip False c by (simp add: int_of_string_def show_int_def)
  qed
qed

lemma show_int_inj [simp]: "show_int i = show_int j \<longleftrightarrow> i = j"
  by (metis int_of_show_int sum.inject(2))

section \<open>Properties\<close>

definition sign_in_ok :: "hosted_db \<Rightarrow> bool" where
  "sign_in_ok db \<longleftrightarrow>
     distinct (map os_state_hash (oauth_states db)) \<and>
     (\<forall>s \<in> set (oauth_states db). os_return_to s \<in> set allowed_return_to_paths)"

lemma begin_sign_in_ok:
  "sign_in_ok db \<Longrightarrow> begin_sign_in hash now st b rt h db = Inr (r, db') \<Longrightarrow> sign_in_ok db'"
  by (auto simp: begin_sign_in_def sign_in_ok_def split: if_splits)

lemma complete_sign_in_ok:
  "sign_in_ok db \<Longrightarrow> sign_in_ok (snd (complete_sign_in hash gh now code st b db))"
  by (auto simp: complete_sign_in_def Let_def sign_in_ok_def map_update_where in_update_where split: option.splits)

lemma complete_sign_in_user:
  "complete_sign_in hash gh now code st b db = (Inr (Some (user, h)), db') \<Longrightarrow>
   \<exists>s \<in> set (oauth_states db). consumable now (hash st) (hash b) s \<and> vu_return_to user = os_return_to s \<and>
     os_pairing_code_hash s = h"
  by (auto simp: complete_sign_in_def Let_def bind_r_Inr split: option.splits if_splits dest!: fetchone_Some)

definition sample_state :: oauth_state_row where
  "sample_state = \<lparr>os_state_hash = ''s'', os_binding_hash = ''b'', os_return_to = ''/dashboard'',
     os_pairing_code_hash = None, os_consumed_at = None, os_created_at = 0\<rparr>"

definition sample_github :: github where
  "sample_github = \<lparr>gh_access_token = (\<lambda>_. Inr ''gho''), gh_user = (\<lambda>_. Inr (5, ''octocat'')),
     gh_installations = (\<lambda>_. Inr [7]), gh_repositories = (\<lambda>_ _. Inr [(9, ''app'')])\<rparr>"

definition sign_in_db :: hosted_db where
  "sign_in_db = empty_db\<lparr>oauth_states := [sample_state]\<rparr>"

lemma sign_in_db_ok: "sign_in_ok sign_in_db"
  by (simp add: sign_in_ok_def sign_in_db_def sample_state_def allowed_return_to_paths_def)

text \<open>A sign-in state is spent by its first valid presentation: a completion that is not denied
  needs the state and the binding secret of one unexpired row, and whatever GitHub answers afterwards,
  even an error, every later completion with that state is denied and changes nothing.\<close>

theorem sign_in_state_single_use:
  assumes "sign_in_ok db" "complete_sign_in hash gh now code st b db = (r, db')" "r \<noteq> Inr None"
  shows "(\<exists>s \<in> set (oauth_states db). os_state_hash s = hash st \<and> os_binding_hash s = hash b \<and>
      os_consumed_at s = None \<and> now < os_created_at s + minutes 10) \<and>
    complete_sign_in hash gh' now' code' st b' db' = (Inr None, db')"
proof -
  let ?ok = "consumable now (hash st) (hash b)"
  obtain s where s: "fetchone ?ok (oauth_states db) = Some s"
    using assms(2, 3) by (cases "fetchone ?ok (oauth_states db)") (auto simp: complete_sign_in_def)
  note in_s = fetchone_Some [OF s]
  have db': "oauth_states db' = update_where ?ok (\<lambda>s. s\<lparr>os_consumed_at := Some now\<rparr>) (oauth_states db)"
    using assms(2) s by (auto simp: complete_sign_in_def)
  have "os_consumed_at x \<noteq> None" if "x \<in> set (oauth_states db')" "os_state_hash x = hash st" for x
  proof -
    from that(1) obtain y where y: "y \<in> set (oauth_states db)"
      "(?ok y \<and> x = y\<lparr>os_consumed_at := Some now\<rparr>) \<or> (\<not> ?ok y \<and> x = y)"
      by (auto simp: db' in_update_where)
    with that(2) in_s have "os_state_hash y = os_state_hash s" by (auto simp: consumable_def)
    with y(1) in_s assms(1) have "y = s" by (auto simp: sign_in_ok_def intro: key_unique [of os_state_hash])
    with y in_s show ?thesis by auto
  qed
  then have "fetchone (consumable now' (hash st) (hash b')) (oauth_states db') = None"
    by (auto simp: fetchone_None consumable_def)
  with in_s show ?thesis by (auto simp: complete_sign_in_def consumable_def)
qed

theorem sign_in_state_single_use_witness:
  "\<exists>db'. complete_sign_in id (sample_github\<lparr>gh_user := \<lambda>_. Inl TransportError\<rparr>) 5 ''c'' ''s'' ''b'' sign_in_db =
       (Inl TransportError, db') \<and>
     complete_sign_in id sample_github 6 ''c'' ''s'' ''b'' db' = (Inr None, db')"
proof -
  obtain r db' where c: "complete_sign_in id (sample_github\<lparr>gh_user := \<lambda>_. Inl TransportError\<rparr>) 5 ''c'' ''s'' ''b'' sign_in_db
      = (r, db')" by (meson surj_pair)
  then have "r = Inl TransportError"
    by (auto simp: complete_sign_in_def sign_in_db_def sample_state_def sample_github_def consumable_def empty_db_def)
  with sign_in_state_single_use [OF sign_in_db_ok c, of sample_github 6 "''c''" "''b''"] c show ?thesis by auto
qed

text \<open>No open redirect: from a state table that only \<open>begin_sign_in\<close> fills, whatever the callback
  is given, a page it sends or redirects to names one of the allowed paths.\<close>

theorem callback_return_to_allowed:
  assumes "sign_in_ok db" "callback_route hash fresh gh cd now code st b db = (Inr resp, db')"
    "resp = Redirect target cookie \<or> resp = Pairing_Approved_Page target cookie"
  shows "target \<in> {''/dashboard'', ''/dashboard/reviews''}"
proof -
  obtain s where st: "st = Some s"
    using assms(2, 3) by (cases st) (auto simp: callback_route_def)
  obtain user h db1 where c: "complete_sign_in hash gh now code s b db = (Inr (Some (user, h)), db1)"
    using assms(2) st
    by (auto simp: callback_route_def split: prod.splits sum.splits option.splits)
  have "target = vu_return_to user"
    using assms(2, 3) st c
    by (auto simp: callback_route_def Let_def split: sum.splits option.splits approval.splits prod.splits)
  with complete_sign_in_user [OF c] assms(1) show ?thesis
    by (auto simp: sign_in_ok_def allowed_return_to_paths_def)
qed

theorem callback_return_to_allowed_witness:
  "\<exists>cd target cookie db'. callback_route id (\<lambda>n. ''p'') sample_github cd 5 ''c'' (Some ''s'') ''b'' sign_in_db =
     (Inr (Redirect target cookie), db') \<and> target \<in> {''/dashboard'', ''/dashboard/reviews''}"
proof -
  let ?cd = "\<lparr>cd_dumps = (\<lambda>_. []), cd_loads = (\<lambda>_. Inl ValueError), cd_b64encode = id, cd_b64decode = Inr,
     cd_hmac = (\<lambda>_. ''d'')\<rparr>"
  have "\<exists>target cookie db'. callback_route id (\<lambda>n. ''p'') sample_github ?cd 5 ''c'' (Some ''s'') ''b'' sign_in_db =
     (Inr (Redirect target cookie), db')"
    by (simp add: callback_route_def complete_sign_in_def sign_in_db_def sample_state_def sample_github_def
        consumable_def empty_db_def capture_live_assertion_def Let_def)
  then obtain target cookie db' where c: "callback_route id (\<lambda>n. ''p'') sample_github ?cd 5 ''c'' (Some ''s'') ''b'' sign_in_db =
     (Inr (Redirect target cookie), db')" by blast
  from callback_return_to_allowed [OF sign_in_db_ok c, of target cookie] c show ?thesis by blast
qed

text \<open>An assertion that a dictionary of dictionaries can hold.\<close>

definition assertion_wf :: "live_assertion \<Rightarrow> bool" where
  "assertion_wf a \<longleftrightarrow> distinct (map fst (la_installations a)) \<and>
     (\<forall>(i, repos) \<in> set (la_installations a). distinct (map fst repos))"

text \<open>The documented behaviour of the text codecs at a value: \<open>loads\<close> undoes \<open>dumps\<close>,
  \<open>_b64decode\<close> undoes \<open>_b64encode\<close>, the encoded text and the hexadecimal digest are ASCII and the
  digest has no dot.\<close>

definition codec_laws :: "codec \<Rightarrow> json \<Rightarrow> bool" where
  "codec_laws cd v \<longleftrightarrow>
     (let text = cd_dumps cd v; raw = cd_b64encode cd text
      in cd_loads cd text = Inr v \<and> cd_b64decode cd raw = Inr text \<and> is_ascii raw \<and>
         is_ascii (cd_hmac cd raw) \<and> CHR ''.'' \<notin> set (cd_hmac cd raw))"

lemma repos_round_trip:
  "repos_from_payload repr (map (\<lambda>(r, name). (show_int r, JStr name)) repos) = Inr repos"
  by (induction repos) auto

lemma installations_round_trip:
  "\<forall>(i, repos) \<in> set is. distinct (map fst repos) \<Longrightarrow>
   installation_items repr (map (\<lambda>(i, repos). (show_int i, JObj (map (\<lambda>(r, name). (show_int r, JStr name)) repos))) is)
   = Inr is"
  by (induction "is") (auto simp: repos_round_trip dict_of_distinct)

lemma payload_round_trip: "assertion_wf a \<Longrightarrow> assertion_of_payload repr (assertion_payload a) = Inr a"
  by (cases a) (auto simp: assertion_of_payload_def assertion_payload_def assertion_wf_def
      installations_round_trip dict_of_distinct split: option.splits)

lemma rsplit_dot_append: "CHR ''.'' \<notin> set d \<Longrightarrow> rsplit_dot (raw @ ''.'' @ d) = (raw, d)"
proof -
  assume "CHR ''.'' \<notin> set d"
  then have "\<forall>c \<in> set (rev d). c \<noteq> CHR ''.''" by auto
  then have "takeWhile (\<lambda>c. c \<noteq> CHR ''.'') (rev d @ CHR ''.'' # rev raw) = rev d"
    "dropWhile (\<lambda>c. c \<noteq> CHR ''.'') (rev d @ CHR ''.'' # rev raw) = CHR ''.'' # rev raw"
    by (simp_all add: takeWhile_tail dropWhile_append3)
  then show ?thesis by (simp add: rsplit_dot_def)
qed

lemma rsplit_dot_join:
  assumes "CHR ''.'' \<in> set s" "rsplit_dot s = (raw, d)"
  shows "s = raw @ ''.'' @ d"
proof -
  let ?P = "\<lambda>c. c \<noteq> CHR ''.''"
  have "dropWhile ?P (rev s) \<noteq> []" using assms(1) by (auto simp: dropWhile_eq_Nil_conv)
  moreover from this have "\<not> ?P (hd (dropWhile ?P (rev s)))" by (rule hd_dropWhile)
  ultimately have "dropWhile ?P (rev s) = CHR ''.'' # tl (dropWhile ?P (rev s))"
    by (metis list.exhaust_sel)
  then have "rev s = takeWhile ?P (rev s) @ CHR ''.'' # tl (dropWhile ?P (rev s))"
    by (metis takeWhile_dropWhile_id)
  then have "s = rev (tl (dropWhile ?P (rev s))) @ ''.'' @ rev (takeWhile ?P (rev s))"
    by (metis append.assoc append_Cons append_Nil rev.simps(2) rev_append rev_rev_ident)
  with assms(2) show ?thesis by (simp add: rsplit_dot_def)
qed


definition sample_assertion :: live_assertion where
  "sample_assertion = \<lparr>la_github_user_id = 5, la_login = Some ''octocat'', la_installations = [(7, [(9, ''app'')])],
     la_expires_at = 600\<rparr>"

text \<open>A codec with a hexadecimal text and a constant digest.\<close>

definition sample_codec :: codec where
  "sample_codec = \<lparr>cd_dumps = (\<lambda>v. ''7b7d''), cd_loads = (\<lambda>t. Inr (assertion_payload sample_assertion)),
     cd_b64encode = (\<lambda>t. t), cd_b64decode = (\<lambda>t. Inr t), cd_hmac = (\<lambda>t. ''00ff'')\<rparr>"


end
