(* ===== verification/Review_Projection.thy ===== *)
theory Review_Projection
  imports Runner_Jobs Sign_In
begin

text \<open>
  What the hosted plane keeps and shows of a review, \<^verbatim>\<open>control_plane/review_projection.py\<close>:
  writing findings with their receipts, the scoped read paths of the dashboard, the summary that a
  terminal pushes; and the deletion of one repository's data, \<^verbatim>\<open>control_plane/retention.py\<close>.
  The evidence of a finding has no column and is not part of the model of the tables.
\<close>

section \<open>Findings and receipts\<close>

record finding =
  fi_id :: string
  fi_review_job_id :: string
  fi_concern :: concern
  fi_severity :: severity
  fi_category :: string
  fi_file_path :: string
  fi_line_start :: int
  fi_line_end :: int
  fi_title :: string
  fi_rationale :: string
  fi_evidence :: "string list"
  fi_confidence :: rat
  fi_verified :: bool
  fi_verification_method :: verification_method
  fi_public_safe :: bool
  fi_status :: finding_status

text \<open>The constraints of the pydantic model \<open>Finding\<close>.\<close>

definition validate_finding :: "finding \<Rightarrow> finding result" where
  "validate_finding f =
     (if fi_id f \<noteq> [] \<and> fi_review_job_id f \<noteq> [] \<and> fi_category f \<noteq> [] \<and> fi_file_path f \<noteq> [] \<and>
         0 < fi_line_start f \<and> 0 < fi_line_end f \<and> fi_title f \<noteq> [] \<and> fi_rationale f \<noteq> [] \<and> fi_evidence f \<noteq> [] \<and>
         0 \<le> fi_confidence f \<and> fi_confidence f \<le> 1 \<and> fi_line_start f \<le> fi_line_end f
      then Inr f else Inl ValueError)"

record receipt_context_source =
  rcs_kind :: source_kind
  rcs_name :: string
  rcs_reference :: string

record receipt_input =
  rc_finding_id :: string
  rc_review_job_id :: string
  rc_prompt_version_id :: string
  rc_context_sources :: "receipt_context_source list"
  rc_verified :: bool
  rc_verification_reason :: "string option"
  rc_sandbox_run_id :: "string option"
  rc_command_id :: "string option"
  rc_verification_detail :: "string option"

text \<open>The column is \<open>numeric(4, 3)\<close>: three decimals, rounded half up.\<close>

definition numeric_4_3 :: "rat \<Rightarrow> rat" where
  "numeric_4_3 q = of_int \<lfloor>q * 1000 + 1 / 2\<rfloor> / 1000"

text \<open>\<^verbatim>\<open>order by created_at desc limit 1\<close>.\<close>

definition latest_model_call :: "uuid \<Rightarrow> uuid \<Rightarrow> hosted_db \<Rightarrow> uuid option" where
  "latest_model_call job prompt db =
     map_option mc_id (first_by (\<lambda>m. - mc_created_at m)
       (filter (\<lambda>m. mc_review_job_id m = job \<and> mc_prompt_version_id m = prompt) (model_calls db)))"

definition finding_row :: "timestamp \<Rightarrow> finding \<Rightarrow> receipt_input option \<Rightarrow> hosted_db \<Rightarrow> review_finding_row" where
  "finding_row now f receipt db =
     \<lparr>rf_id = fi_id f, rf_review_job_id = fi_review_job_id f, rf_concern = fi_concern f,
      rf_severity = fi_severity f, rf_category = fi_category f, rf_file_path = fi_file_path f,
      rf_line_start = fi_line_start f, rf_line_end = fi_line_end f, rf_title = fi_title f,
      rf_rationale = fi_rationale f, rf_confidence = numeric_4_3 (fi_confidence f),
      rf_verified = fi_verified f, rf_verification_method = fi_verification_method f,
      rf_public_safe = fi_public_safe f, rf_status = fi_status f,
      rf_model_call_id = Option.bind receipt (\<lambda>r. latest_model_call (fi_review_job_id f) (rc_prompt_version_id r) db),
      rf_verification_reason = Option.bind receipt rc_verification_reason,
      rf_sandbox_run_id = Option.bind receipt rc_sandbox_run_id,
      rf_command_id = Option.bind receipt rc_command_id,
      rf_verification_detail = Option.bind receipt rc_verification_detail,
      rf_created_at = now\<rparr>"

text \<open>\<open>insert into review_findings\<close> with its primary key, foreign key and checks.\<close>

definition insert_finding :: "review_finding_row \<Rightarrow> hosted_db \<Rightarrow> hosted_db result" where
  "insert_finding row db =
     (if \<not> (0 < rf_line_start row \<and> rf_line_start row \<le> rf_line_end row) then Inl CheckViolation
      else if rf_id row \<in> rf_id ` set (review_findings db) then Inl UniqueViolation
      else if rf_review_job_id row \<notin> rj_id ` set (review_jobs db) then Inl ForeignKeyViolation
      else Inr (db\<lparr>review_findings := review_findings db @ [row]\<rparr>))"

fun project_findings :: "timestamp \<Rightarrow> (string \<times> receipt_input) list \<Rightarrow> finding list \<Rightarrow> hosted_db \<Rightarrow> hosted_db result" where
  "project_findings now receipts [] db = Inr db"
| "project_findings now receipts (f # fs) db =
     (let receipt = map_of receipts (fi_id f)
      in bind_r (insert_finding (finding_row now f receipt db) db) (\<lambda>db1.
         let sources = (case receipt of None \<Rightarrow> [] | Some r \<Rightarrow>
               map (\<lambda>s. \<lparr>cs_finding_id = fi_id f, cs_kind = rcs_kind s, cs_name = rcs_name s,
                         cs_reference = rcs_reference s\<rparr>) (rc_context_sources r))
         in project_findings now receipts fs
              (db1\<lparr>finding_context_sources := finding_context_sources db1 @ sources\<rparr>)))"

definition project_review ::
  "timestamp \<Rightarrow> string \<Rightarrow> finding list \<Rightarrow> receipt_input list \<Rightarrow> hosted_db \<Rightarrow> hosted_db result" where
  "project_review now review_job_id findings receipts db =
     (if \<exists>f \<in> set findings. fi_review_job_id f \<noteq> review_job_id then Inl ValueError
      else if \<exists>r \<in> set receipts. rc_review_job_id r \<noteq> review_job_id then Inl ValueError
      else let receipts_by_finding_id = dict_of (map (\<lambda>r. (rc_finding_id r, r)) receipts);
               findings_by_id = dict_of (map (\<lambda>f. (fi_id f, f)) findings)
      in if \<exists>(fid, r) \<in> set receipts_by_finding_id.
              (case map_of findings_by_id fid of None \<Rightarrow> False | Some f \<Rightarrow> rc_verified r \<noteq> fi_verified f)
         then Inl ValueError
         else project_findings now receipts_by_finding_id findings db)"

section \<open>Read paths\<close>

record receipt_summary =
  su_provider :: "string option"
  su_model :: "string option"
  su_prompt_version_id :: "uuid option"
  su_input_tokens :: "int option"
  su_output_tokens :: "int option"
  su_cost_usd :: "usd option"
  su_verified_status :: bool
  su_verification_reason :: "string option"
  su_sandbox_run_id :: "string option"
  su_command_id :: "string option"
  su_verification_detail :: "string option"
  su_context_sources :: "receipt_context_source list"

record finding_summary =
  fs_id :: string
  fs_concern :: concern
  fs_severity :: severity
  fs_category :: string
  fs_file_path :: string
  fs_line_start :: int
  fs_line_end :: int
  fs_title :: string
  fs_rationale :: string
  fs_verified :: bool
  fs_status :: finding_status
  fs_receipt :: "receipt_summary option"

record review_summary =
  rv_review_job_id :: uuid
  rv_pull_request_number :: "int option"
  rv_head_sha :: "string option"
  rv_status :: job_status
  rv_stopped_early :: bool
  rv_created_at :: timestamp
  rv_findings :: "finding_summary list"

definition make_finding_summary :: "hosted_db \<Rightarrow> review_finding_row \<Rightarrow> finding_summary" where
  "make_finding_summary db row =
     (let sources = map (\<lambda>s. \<lparr>rcs_kind = cs_kind s, rcs_name = cs_name s, rcs_reference = cs_reference s\<rparr>)
            (filter (\<lambda>s. cs_finding_id s = rf_id row) (finding_context_sources db));
          mc = Option.bind (rf_model_call_id row) (\<lambda>i. fetchone (\<lambda>m. mc_id m = i) (model_calls db));
          has_receipt = (rf_verified row \<or> sources \<noteq> [] \<or> rf_verification_reason row \<notin> {None, Some []})
      in \<lparr>fs_id = rf_id row, fs_concern = rf_concern row, fs_severity = rf_severity row,
          fs_category = rf_category row, fs_file_path = rf_file_path row, fs_line_start = rf_line_start row,
          fs_line_end = rf_line_end row, fs_title = rf_title row, fs_rationale = rf_rationale row,
          fs_verified = rf_verified row, fs_status = rf_status row,
          fs_receipt = (if has_receipt then Some
            \<lparr>su_provider = map_option mc_provider mc, su_model = map_option mc_model_name mc,
             su_prompt_version_id = map_option mc_prompt_version_id mc,
             su_input_tokens = map_option mc_input_tokens mc, su_output_tokens = map_option mc_output_tokens mc,
             su_cost_usd = map_option mc_cost_usd mc, su_verified_status = rf_verified row,
             su_verification_reason = rf_verification_reason row, su_sandbox_run_id = rf_sandbox_run_id row,
             su_command_id = rf_command_id row, su_verification_detail = rf_verification_detail row,
             su_context_sources = sources\<rparr> else None)\<rparr>)"

definition review_summary_for_job :: "hosted_db \<Rightarrow> review_job \<Rightarrow> review_summary" where
  "review_summary_for_job db j =
     \<lparr>rv_review_job_id = rj_id j, rv_pull_request_number = rj_pull_request_number j, rv_head_sha = rj_head_sha j,
      rv_status = rj_status j, rv_stopped_early = (rj_status j = Stopped_Early), rv_created_at = rj_created_at j,
      rv_findings = map (make_finding_summary db)
        (sort_key rf_created_at (filter (\<lambda>f. rf_review_job_id f = rj_id j) (review_findings db)))\<rparr>"

definition granted :: "live_assertion \<Rightarrow> int \<Rightarrow> int \<Rightarrow> bool" where
  "granted a installation_id github_repository_id =
     (case map_of (la_installations a) installation_id of
        None \<Rightarrow> False | Some repos \<Rightarrow> github_repository_id \<in> fst ` set repos)"

definition reviews_for_repository ::
  "live_assertion \<Rightarrow> int \<Rightarrow> int \<Rightarrow> hosted_db \<Rightarrow> review_summary list option" where
  "reviews_for_repository assertion installation_id github_repository_id db =
     (if \<not> granted assertion installation_id github_repository_id then None
      else Some (map (review_summary_for_job db)
        (sort_key (\<lambda>j. - rj_created_at j)
          (filter (\<lambda>j. rj_installation_id j = Some installation_id \<and>
                       rj_github_repository_id j = Some github_repository_id) (review_jobs db)))))"

text \<open>\<open>parse_uuid\<close> is \<open>uuid.UUID(text)\<close> with its canonical spelling.\<close>

definition review_by_id ::
  "(string \<Rightarrow> uuid option) \<Rightarrow> live_assertion \<Rightarrow> string \<Rightarrow> hosted_db \<Rightarrow> review_summary option" where
  "review_by_id parse_uuid assertion review_job_id db =
     (case parse_uuid review_job_id of
        None \<Rightarrow> None
      | Some jid \<Rightarrow>
          (case fetchone (\<lambda>j. rj_id j = jid) (review_jobs db) of
             None \<Rightarrow> None
           | Some j \<Rightarrow>
               (case (rj_installation_id j, rj_github_repository_id j) of
                  (Some i, Some g) \<Rightarrow> if granted assertion i g then Some (review_summary_for_job db j) else None
                | _ \<Rightarrow> None)))"

record repository_reviews =
  rr_installation_id :: int
  rr_github_repository_id :: int
  rr_repository_name :: string
  rr_reviews :: "review_summary list"

definition list_reviews ::
  "(json \<Rightarrow> string) \<Rightarrow> codec \<Rightarrow> timestamp \<Rightarrow> string \<Rightarrow> int option \<Rightarrow> int option \<Rightarrow> hosted_db
   \<Rightarrow> repository_reviews list result" where
  "list_reviews repr cd now cookie installation_id github_repository_id db =
     bind_r (read_live_sign_in repr cd now cookie) (\<lambda>assertion.
       case assertion of
         None \<Rightarrow> Inl (HTTPException 401 ''not signed in'')
       | Some a \<Rightarrow>
           (case (installation_id, github_repository_id) of
              (Some i, Some g) \<Rightarrow>
                (case reviews_for_repository a i g db of
                   None \<Rightarrow> Inl (HTTPException 404 ''Not Found'')
                 | Some reviews \<Rightarrow> Inr [\<lparr>rr_installation_id = i, rr_github_repository_id = g,
                     rr_repository_name = the (map_of (the (map_of (la_installations a) i)) g),
                     rr_reviews = reviews\<rparr>])
            | _ \<Rightarrow>
                Inr (concat (map (\<lambda>(i, repos). map (\<lambda>(g, name).
                  \<lparr>rr_installation_id = i, rr_github_repository_id = g, rr_repository_name = name,
                   rr_reviews = (case reviews_for_repository a i g db of None \<Rightarrow> [] | Some rs \<Rightarrow> rs)\<rparr>) repos)
                  (la_installations a)))))"

definition get_review_route ::
  "(json \<Rightarrow> string) \<Rightarrow> codec \<Rightarrow> (string \<Rightarrow> uuid option) \<Rightarrow> timestamp \<Rightarrow> string \<Rightarrow> string \<Rightarrow> hosted_db
   \<Rightarrow> review_summary result" where
  "get_review_route repr cd parse_uuid now cookie review_job_id db =
     bind_r (read_live_sign_in repr cd now cookie) (\<lambda>assertion.
       case assertion of
         None \<Rightarrow> Inl (HTTPException 401 ''not signed in'')
       | Some a \<Rightarrow> (case review_by_id parse_uuid a review_job_id db of
                      None \<Rightarrow> Inl (HTTPException 404 ''Not Found'')
                    | Some r \<Rightarrow> Inr r))"

section \<open>The pushed summary\<close>

record pushed_finding =
  pf_concern :: concern
  pf_severity :: severity
  pf_file_path :: string
  pf_line_start :: int
  pf_line_end :: int
  pf_title :: string
  pf_status :: finding_status

record pushed_summary =
  ps_review_job_id :: uuid
  ps_installation_id :: int
  ps_github_repository_id :: int
  ps_pull_request_number :: int
  ps_head_sha :: string
  ps_status :: job_status
  ps_stopped_early :: bool
  ps_findings :: "pushed_finding list"

definition validate_pushed_finding :: "pushed_finding \<Rightarrow> bool" where
  "validate_pushed_finding f \<longleftrightarrow>
     pf_file_path f \<noteq> [] \<and> 0 < pf_line_start f \<and> 0 < pf_line_end f \<and> pf_title f \<noteq> [] \<and> pf_line_start f \<le> pf_line_end f"

definition validate_pushed_summary :: "pushed_summary \<Rightarrow> bool" where
  "validate_pushed_summary b \<longleftrightarrow>
     ps_head_sha b \<noteq> [] \<and> ps_status b \<in> {Completed, Stopped_Early} \<and>
     (ps_stopped_early b = (ps_status b = Stopped_Early)) \<and> list_all validate_pushed_finding (ps_findings b)"

definition pushed_finding_row :: "timestamp \<Rightarrow> uuid \<Rightarrow> nat \<Rightarrow> pushed_finding \<Rightarrow> review_finding_row" where
  "pushed_finding_row now jid index f =
     \<lparr>rf_id = jid @ '':'' @ show_nat index, rf_review_job_id = jid, rf_concern = pf_concern f,
      rf_severity = pf_severity f, rf_category = [], rf_file_path = pf_file_path f,
      rf_line_start = pf_line_start f, rf_line_end = pf_line_end f, rf_title = pf_title f, rf_rationale = [],
      rf_confidence = 0, rf_verified = False, rf_verification_method = Not_Applicable, rf_public_safe = True,
      rf_status = pf_status f, rf_model_call_id = None, rf_verification_reason = None, rf_sandbox_run_id = None,
      rf_command_id = None, rf_verification_detail = None, rf_created_at = now\<rparr>"

text \<open>\<^verbatim>\<open>on conflict (id) do nothing\<close>, finding by finding.\<close>

fun push_findings :: "timestamp \<Rightarrow> uuid \<Rightarrow> nat \<Rightarrow> pushed_finding list \<Rightarrow> review_finding_row list \<Rightarrow> review_finding_row list" where
  "push_findings now jid n [] rows = rows"
| "push_findings now jid n (f # fs) rows =
     push_findings now jid (Suc n) fs
       (if jid @ '':'' @ show_nat n \<in> rf_id ` set rows then rows else rows @ [pushed_finding_row now jid n f])"

definition save_pushed_review_summary :: "timestamp \<Rightarrow> pushed_summary \<Rightarrow> hosted_db \<Rightarrow> hosted_db result" where
  "save_pushed_review_summary now b db =
     (if \<not> in_bigint (ps_installation_id b) \<or> \<not> in_bigint (ps_github_repository_id b) \<or> \<not> in_integer (ps_pull_request_number b)
      then Inl DataError
      else if ps_pull_request_number b \<le> 0 then Inl CheckViolation
      else if ps_installation_id b \<notin> in_id ` set (installations db) then Inl ForeignKeyViolation
      else
        let identify = (\<lambda>r. r\<lparr>rj_status := ps_status b, rj_installation_id := Some (ps_installation_id b),
              rj_github_repository_id := Some (ps_github_repository_id b),
              rj_pull_request_number := Some (ps_pull_request_number b), rj_head_sha := Some (ps_head_sha b)\<rparr>);
            jobs = (if ps_review_job_id b \<in> rj_id ` set (review_jobs db)
                    then update_where (\<lambda>r. rj_id r = ps_review_job_id b)
                           (\<lambda>r. (identify r)\<lparr>rj_updated_at := now\<rparr>) (review_jobs db)
                    else review_jobs db @ [identify (new_review_job now (ps_review_job_id b) None)])
        in Inr (db\<lparr>review_jobs := jobs,
                   review_findings := push_findings now (ps_review_job_id b) 0 (ps_findings b) (review_findings db)\<rparr>))"

definition denial_text :: "authorization_denial_reason \<Rightarrow> string" where
  "denial_text d = (case d of
     Unknown_Installation \<Rightarrow> ''unknown_installation'' | Revoked_Installation \<Rightarrow> ''revoked_installation''
   | Unknown_Repository \<Rightarrow> ''unknown_repository'' | Unknown_Runner \<Rightarrow> ''unknown_runner''
   | Revoked_Runner \<Rightarrow> ''revoked_runner''
   | Runner_Not_Assigned_To_Repository \<Rightarrow> ''runner_not_assigned_to_repository'')"

text \<open>The body is validated before the handler runs (422).\<close>

definition push_review_summary_route ::
  "(string \<Rightarrow> string) \<Rightarrow> timestamp \<Rightarrow> pushed_summary \<Rightarrow> string option \<Rightarrow> hosted_db \<Rightarrow> hosted_db result" where
  "push_review_summary_route hash now b authorization db =
     (if \<not> validate_pushed_summary b then Inl (HTTPException 422 ''validation'')
      else bind_r (authenticate_bearer hash authorization db) (\<lambda>runner.
        case authorize_repository (ps_installation_id b) (ps_github_repository_id b) (ar_runner_id runner) db of
          Authorization_Denied d \<Rightarrow> Inl (HTTPException 403 (denial_text d))
        | Authorized _ \<Rightarrow> save_pushed_review_summary now b db))"

section \<open>Purging a repository\<close>

definition of_repository :: "int \<Rightarrow> int \<Rightarrow> review_job \<Rightarrow> bool" where
  "of_repository i g j \<longleftrightarrow> rj_installation_id j = Some i \<and> rj_github_repository_id j = Some g"

text \<open>A row still referenced by an event, a model call, a finding or an assignment stops the
  transaction.\<close>

definition purge_blocked :: "int \<Rightarrow> int \<Rightarrow> hosted_db \<Rightarrow> bool" where
  "purge_blocked i g db \<longleftrightarrow>
     (let doomed = rj_id ` set (filter (of_repository i g) (review_jobs db));
          gone = rp_id ` set (filter (repo_key i g) (repositories db))
      in (\<exists>e \<in> set (agent_events db). \<exists>j \<in> doomed. ae_review_job_id e = Some j) \<or>
         (\<exists>m \<in> set (model_calls db). mc_review_job_id m \<in> doomed) \<or>
         (\<exists>f \<in> set (review_findings db). rf_review_job_id f \<in> doomed) \<or>
         (\<exists>a \<in> set (repository_assignments db). as_repository_id a \<in> gone))"

text \<open>The four deletes in order.\<close>

definition purge_hosted_repository :: "int \<Rightarrow> int \<Rightarrow> hosted_db \<Rightarrow> hosted_db result" where
  "purge_hosted_repository i g db =
     (if purge_blocked i g db then Inl ForeignKeyViolation
         else Inr (db\<lparr>
           repository_budget_reservations := filter (\<lambda>r. \<not> (rs_installation_id r = i \<and> rs_github_repository_id r = g))
             (repository_budget_reservations db),
           review_jobs := filter (\<lambda>j. \<not> of_repository i g j) (review_jobs db),
           repository_budgets := filter (\<lambda>b. \<not> (bu_installation_id b = i \<and> bu_github_repository_id b = g))
             (repository_budgets db),
           repositories := filter (\<lambda>r. \<not> repo_key i g r) (repositories db)\<rparr>))"

section \<open>Lemmas\<close>

lemma finding_summary_id [simp]: "fs_id (make_finding_summary db row) = rf_id row"
  by (simp add: make_finding_summary_def Let_def)

lemma push_findings_keep: "r \<in> set rows \<Longrightarrow> r \<in> set (push_findings now jid n fs rows)"
  by (induction now jid n fs rows rule: push_findings.induct) auto

lemma push_findings_ids:
  "rf_id ` set (push_findings now jid n fs rows) =
     rf_id ` set rows \<union> (\<lambda>k. jid @ '':'' @ show_nat k) ` {n ..< n + length fs}"
proof (induction now jid n fs rows rule: push_findings.induct)
  case (2 now jid n f fs rows)
  have "{n ..< n + length (f # fs)} = insert n {Suc n ..< Suc n + length fs}" by auto
  with 2 show ?case by (auto simp: pushed_finding_row_def)
qed simp

lemma push_findings_known:
  "\<forall>k \<in> {n ..< n + length fs}. jid @ '':'' @ show_nat k \<in> rf_id ` set rows \<Longrightarrow> push_findings now jid n fs rows = rows"
  by (induction now jid n fs rows rule: push_findings.induct) auto

lemma push_findings_fresh:
  "\<forall>k \<in> {n ..< n + length fs}. jid @ '':'' @ show_nat k \<notin> rf_id ` set rows \<Longrightarrow>
   push_findings now jid n fs rows = rows @ map (\<lambda>(k, f). pushed_finding_row now jid k f) (enumerate n fs)"
proof (induction now jid n fs rows rule: push_findings.induct)
  case (2 now jid n f fs rows)
  have "jid @ '':'' @ show_nat k \<notin> rf_id ` set (rows @ [pushed_finding_row now jid n f])"
    if "k \<in> {Suc n ..< Suc n + length fs}" for k
    using "2.prems" that by (auto simp: pushed_finding_row_def)
  then show ?case using "2.IH" "2.prems" by auto
qed simp

lemma save_pushed_Inr:
  assumes "save_pushed_review_summary now b db = Inr db'"
  shows "ps_review_job_id b \<in> rj_id ` set (review_jobs db')"
    "review_findings db' = push_findings now (ps_review_job_id b) 0 (ps_findings b) (review_findings db)"
    "(\<forall>r \<in> set (review_jobs db'). rj_id r = ps_review_job_id b \<longrightarrow>
       rj_status r = ps_status b \<and> rj_installation_id r = Some (ps_installation_id b) \<and>
       rj_github_repository_id r = Some (ps_github_repository_id b) \<and>
       rj_pull_request_number r = Some (ps_pull_request_number b) \<and> rj_head_sha r = Some (ps_head_sha b))"
    "installations db' = installations db"
proof -
  show "ps_review_job_id b \<in> rj_id ` set (review_jobs db')"
    using assms by (auto simp: save_pushed_review_summary_def Let_def image_update_where split: if_splits)
  show "review_findings db' = push_findings now (ps_review_job_id b) 0 (ps_findings b) (review_findings db)"
    "installations db' = installations db"
    using assms by (auto simp: save_pushed_review_summary_def Let_def split: if_splits)
  show "\<forall>r \<in> set (review_jobs db'). rj_id r = ps_review_job_id b \<longrightarrow>
       rj_status r = ps_status b \<and> rj_installation_id r = Some (ps_installation_id b) \<and>
       rj_github_repository_id r = Some (ps_github_repository_id b) \<and>
       rj_pull_request_number r = Some (ps_pull_request_number b) \<and> rj_head_sha r = Some (ps_head_sha b)"
  proof (cases "ps_review_job_id b \<in> rj_id ` set (review_jobs db)")
    case True
    with assms show ?thesis
      by (auto simp: save_pushed_review_summary_def Let_def in_update_where split: if_splits)
  next
    case False
    then have "\<forall>r \<in> set (review_jobs db). rj_id r \<noteq> ps_review_job_id b" by force
    with False assms show ?thesis
      by (auto simp: save_pushed_review_summary_def Let_def split: if_splits)
  qed
qed

text \<open>What the insertion loop leaves.\<close>

lemma insert_finding_Inr:
  "insert_finding row db = Inr db' \<Longrightarrow>
   db' = db\<lparr>review_findings := review_findings db @ [row]\<rparr> \<and> rf_id row \<notin> rf_id ` set (review_findings db)"
  by (auto simp: insert_finding_def split: if_splits)

lemma finding_row_id [simp]: "rf_id (finding_row now f r db) = fi_id f"
  by (simp add: finding_row_def)

lemma project_findings_rows:
  "project_findings now rs fs db = Inr db' \<Longrightarrow>
   map rf_id (review_findings db') = map rf_id (review_findings db) @ map fi_id fs \<and>
   set (review_findings db) \<subseteq> set (review_findings db') \<and>
   (\<forall>f \<in> set fs. \<exists>d. finding_row now f (map_of rs (fi_id f)) d \<in> set (review_findings db')) \<and>
   review_jobs db' = review_jobs db"
proof (induction now rs fs db rule: project_findings.induct)
  case (2 now rs f fs db)
  let ?row = "finding_row now f (map_of rs (fi_id f)) db"
  obtain db1 where i: "insert_finding ?row db = Inr db1"
    using "2.prems" by (auto simp: Let_def bind_r_Inr)
  note db1 = insert_finding_Inr [OF i]
  let ?sources = "case map_of rs (fi_id f) of None \<Rightarrow> [] | Some r \<Rightarrow>
     map (\<lambda>s. \<lparr>cs_finding_id = fi_id f, cs_kind = rcs_kind s, cs_name = rcs_name s,
               cs_reference = rcs_reference s\<rparr>) (rc_context_sources r)"
  have "project_findings now rs fs (db1\<lparr>finding_context_sources := finding_context_sources db1 @ ?sources\<rparr>) = Inr db'"
    using "2.prems" i by (simp add: Let_def)
  from "2.IH" [OF refl refl this] db1 show ?case by (auto intro: exI [of _ db])
qed simp

lemma project_findings_distinct:
  "project_findings now rs fs db = Inr db' \<Longrightarrow> distinct (map fi_id fs)"
proof -
  have "project_findings now rs fs db = Inr db' \<Longrightarrow> distinct (map rf_id (review_findings db)) \<longrightarrow>
      distinct (map rf_id (review_findings db'))" for db
  proof (induction now rs fs db rule: project_findings.induct)
    case (2 now rs f fs db)
    then show ?case by (fastforce simp: Let_def bind_r_Inr dest!: insert_finding_Inr)
  qed simp
  moreover have "project_findings now rs fs db = Inr db' \<Longrightarrow> distinct (map fi_id fs) \<and>
      (\<forall>f \<in> set fs. fi_id f \<notin> rf_id ` set (review_findings db))" for db
  proof (induction now rs fs db rule: project_findings.induct)
    case (2 now rs f fs db)
    then show ?case by (fastforce simp: Let_def bind_r_Inr dest!: insert_finding_Inr)
  qed simp
  ultimately show "project_findings now rs fs db = Inr db' \<Longrightarrow> distinct (map fi_id fs)" by blast
qed

section \<open>Properties\<close>

text \<open>Dashboard reads are scoped to what the sign-in was granted: asking for a repository gives
  exactly the reviews of that repository's jobs, each with exactly the findings of its own job, newest
  first; asking for one that was not granted is answered independently of the database, and a review of
  such a repository is indistinguishable from one that does not exist.\<close>

theorem review_reads_scoped:
  assumes "\<forall>i g. rj_installation_id j = Some i \<and> rj_github_repository_id j = Some g \<longrightarrow> \<not> granted a i g"
    "jobs_unique (review_jobs db)" "j \<in> set (review_jobs db)" "parse text = Some (rj_id j)"
    "parse text' = Some missing" "missing \<notin> rj_id ` set (review_jobs db)"
  shows "(\<forall>i g. granted a i g \<longrightarrow> (\<exists>rs. reviews_for_repository a i g db = Some rs \<and>
       set (map rv_review_job_id rs) = {rj_id x | x. x \<in> set (review_jobs db) \<and> of_repository i g x} \<and>
       (\<forall>r \<in> set rs. set (map fs_id (rv_findings r)) =
          {rf_id f | f. f \<in> set (review_findings db) \<and> rf_review_job_id f = rv_review_job_id r}) \<and>
       sorted_wrt (\<lambda>x y. rv_created_at x \<ge> rv_created_at y) rs)) \<and>
    (\<forall>i g other. \<not> granted a i g \<longrightarrow> reviews_for_repository a i g db = reviews_for_repository a i g other) \<and>
    review_by_id parse a text db = review_by_id parse a text' db"
proof (intro conjI allI impI)
  fix i g assume g: "granted a i g"
  let ?jobs = "filter (\<lambda>j. rj_installation_id j = Some i \<and> rj_github_repository_id j = Some g) (review_jobs db)"
  let ?rs = "map (review_summary_for_job db) (sort_key (\<lambda>j. - rj_created_at j) ?jobs)"
  have "sorted_wrt (\<lambda>x y. - rj_created_at x \<le> - rj_created_at y) (sort_key (\<lambda>j. - rj_created_at j) ?jobs)"
    using sorted_sort_key [of "\<lambda>j. - rj_created_at j" ?jobs] by (simp add: sorted_wrt_map)
  then have "sorted_wrt (\<lambda>x y. rv_created_at x \<ge> rv_created_at y) ?rs"
    by (simp add: sorted_wrt_map review_summary_for_job_def)
  moreover have "set (map rv_review_job_id ?rs) = {rj_id x | x. x \<in> set (review_jobs db) \<and> of_repository i g x}"
    by (auto simp: review_summary_for_job_def of_repository_def)
  moreover have "\<forall>r \<in> set ?rs. set (map fs_id (rv_findings r)) =
      {rf_id f | f. f \<in> set (review_findings db) \<and> rf_review_job_id f = rv_review_job_id r}"
    by (auto simp: review_summary_for_job_def image_image)
  moreover have "reviews_for_repository a i g db = Some ?rs"
    using g by (simp add: reviews_for_repository_def)
  ultimately show "\<exists>rs. reviews_for_repository a i g db = Some rs \<and>
       set (map rv_review_job_id rs) = {rj_id x | x. x \<in> set (review_jobs db) \<and> of_repository i g x} \<and>
       (\<forall>r \<in> set rs. set (map fs_id (rv_findings r)) =
          {rf_id f | f. f \<in> set (review_findings db) \<and> rf_review_job_id f = rv_review_job_id r}) \<and>
       sorted_wrt (\<lambda>x y. rv_created_at x \<ge> rv_created_at y) rs" by blast
next
  have "fetchone (\<lambda>x. rj_id x = rj_id j) (review_jobs db) = Some j"
    using unique_id [OF assms(2) _ assms(3)] assms(3) by (intro fetchone_single) auto
  moreover have "fetchone (\<lambda>x. rj_id x = missing) (review_jobs db) = None"
    using assms(6) by (auto simp: fetchone_None)
  ultimately show "review_by_id parse a text db = review_by_id parse a text' db"
    using assms(1, 4, 5) by (auto simp: review_by_id_def split: option.splits)
qed (simp add: reviews_for_repository_def)

theorem review_reads_scoped_witness:
  "review_by_id Some sample_assertion ''j1'' (fleet_db\<lparr>review_jobs := [enqueued_row 0 ''j1'' ''t'' ''d1'' 8 9 3 ''b'' ''h'']\<rparr>) =
   review_by_id Some sample_assertion ''nope'' (fleet_db\<lparr>review_jobs := [enqueued_row 0 ''j1'' ''t'' ''d1'' 8 9 3 ''b'' ''h'']\<rparr>)"
proof -
  let ?j = "enqueued_row 0 ''j1'' ''t'' ''d1'' 8 9 3 ''b'' ''h''"
  let ?db = "fleet_db\<lparr>review_jobs := [?j]\<rparr>"
  have f: "rj_installation_id ?j = Some 8" "rj_github_repository_id ?j = Some 9" by (simp_all add: enqueued_row_def)
  have "\<forall>i g. rj_installation_id ?j = Some i \<and> rj_github_repository_id ?j = Some g \<longrightarrow> \<not> granted sample_assertion i g"
    by (simp add: f granted_def sample_assertion_def)
  moreover have "jobs_unique (review_jobs ?db)"
    by (simp add: jobs_unique_def one_active_head_def map_filter_simps split: option.splits)
  ultimately show ?thesis
    using review_reads_scoped [of ?j sample_assertion ?db Some "''j1''" "''nope''" "''nope''"] by simp
qed

text \<open>A retried push is a no-op: pushing the same summary again, at any later time, adds no job and
  no finding, and leaves the job row as the first push wrote it but for its update time; findings that
  were already stored are never changed by a push.\<close>

theorem push_idempotent:
  assumes "save_pushed_review_summary now b db = Inr db'"
  shows "\<exists>db''. save_pushed_review_summary now' b db' = Inr db'' \<and>
      review_findings db'' = review_findings db' \<and> set (review_findings db) \<subseteq> set (review_findings db') \<and>
      review_jobs db'' = map (\<lambda>r. if rj_id r = ps_review_job_id b then r\<lparr>rj_updated_at := now'\<rparr> else r) (review_jobs db')"
proof -
  note s = save_pushed_Inr [OF assms]
  let ?jid = "ps_review_job_id b"
  have known: "push_findings now' ?jid 0 (ps_findings b) (review_findings db') = review_findings db'"
    by (rule push_findings_known) (simp add: s(2) push_findings_ids)
  let ?f = "\<lambda>r. r\<lparr>rj_status := ps_status b, rj_installation_id := Some (ps_installation_id b),
       rj_github_repository_id := Some (ps_github_repository_id b),
       rj_pull_request_number := Some (ps_pull_request_number b), rj_head_sha := Some (ps_head_sha b),
       rj_updated_at := now'\<rparr>"
  have "update_where (\<lambda>r. rj_id r = ?jid) ?f (review_jobs db') =
      map (\<lambda>r. if rj_id r = ?jid then r\<lparr>rj_updated_at := now'\<rparr> else r) (review_jobs db')"
    unfolding update_where_def
  proof (rule map_cong [OF refl])
    fix r assume "r \<in> set (review_jobs db')"
    with s(3) show "(if rj_id r = ?jid then ?f r else r) = (if rj_id r = ?jid then r\<lparr>rj_updated_at := now'\<rparr> else r)"
      by (cases r) auto
  qed
  moreover have "save_pushed_review_summary now' b db' = Inr (db'\<lparr>review_jobs :=
      update_where (\<lambda>r. rj_id r = ?jid) ?f (review_jobs db'), review_findings := review_findings db'\<rparr>)"
    using assms s(1, 4) known by (auto simp: save_pushed_review_summary_def Let_def split: if_splits)
  moreover have "set (review_findings db) \<subseteq> set (review_findings db')"
    using s(2) push_findings_keep by auto
  ultimately show ?thesis by simp
qed

definition sample_push :: pushed_summary where
  "sample_push = \<lparr>ps_review_job_id = ''j9'', ps_installation_id = 7, ps_github_repository_id = 9,
     ps_pull_request_number = 3, ps_head_sha = ''h'', ps_status = Completed, ps_stopped_early = False,
     ps_findings = [\<lparr>pf_concern = Security, pf_severity = High, pf_file_path = ''a.py'', pf_line_start = 1,
       pf_line_end = 2, pf_title = ''t'', pf_status = Draft\<rparr>]\<rparr>"

theorem push_idempotent_witness:
  "\<exists>db' db''. save_pushed_review_summary 1 sample_push fleet_db = Inr db' \<and>
     save_pushed_review_summary 2 sample_push db' = Inr db'' \<and> review_findings db'' = review_findings db'"
proof -
  have "\<exists>db'. save_pushed_review_summary 1 sample_push fleet_db = Inr db'"
    by (simp add: save_pushed_review_summary_def sample_push_def fleet_db_def tenant_db_def empty_db_def Let_def
        in_bigint_def in_integer_def)
  then obtain db' where p: "save_pushed_review_summary 1 sample_push fleet_db = Inr db'" by blast
  with push_idempotent [OF p, of 2] show ?thesis by blast
qed

text \<open>Two tenants: installation 7 with runner \<open>r1\<close> on repository 9, and installation 8 with a running
  job \<open>victim\<close> of its repository 11 and a stored finding of that job.\<close>

definition victim_job :: review_job where
  "victim_job = runner_lease 0 ''r8'' ''ht'' (enqueued_row 0 ''victim'' ''t'' ''d8'' 8 11 4 ''b'' ''h'')"

definition victim_finding :: review_finding_row where
  "victim_finding = (pushed_finding_row 0 ''victim'' 0 \<lparr>pf_concern = Security, pf_severity = High,
     pf_file_path = ''secret.py'', pf_line_start = 1, pf_line_end = 1, pf_title = ''leak'', pf_status = Draft\<rparr>)"

definition two_tenants :: hosted_db where
  "two_tenants = tenant_db\<lparr>
     installations := [\<lparr>in_id = 7, in_account_login = ''acme'', in_revoked_at = None\<rparr>,
                       \<lparr>in_id = 8, in_account_login = ''other'', in_revoked_at = None\<rparr>],
     review_jobs := [victim_job], review_findings := [victim_finding]\<rparr>"

text \<open>The push does not check whose job it names: a runner that is only assigned a repository of
  its own installation can push a summary under the identifier of another installation's running job;
  the job then belongs to the pusher's repository, is no longer running, and the pusher's dashboard
  shows the other tenant's finding.\<close>

theorem push_takes_over_foreign_job:
  "\<exists>db'. push_review_summary_route id 5 (sample_push\<lparr>ps_review_job_id := ''victim'', ps_findings := []\<rparr>)
       (Some ''Bearer h'') two_tenants = Inr db' \<and>
     authorize_repository 8 11 ''r1'' two_tenants = Authorization_Denied Unknown_Repository \<and>
     map rj_status (review_jobs two_tenants) = [Running] \<and>
     map rj_installation_id (review_jobs two_tenants) = [Some 8] \<and>
     map rj_status (review_jobs db') = [Completed] \<and> map rj_installation_id (review_jobs db') = [Some 7] \<and>
     (\<exists>r. reviews_for_repository sample_assertion 7 9 db' = Some [r] \<and>
        map fs_file_path (rv_findings r) = [''secret.py''])"
proof -
  let ?b = "sample_push\<lparr>ps_review_job_id := ''victim'', ps_findings := []\<rparr>"
  have auth: "authenticate_bearer id (Some ''Bearer h'') two_tenants =
      Inr \<lparr>ar_runner_id = ''r1'', ar_device_name = ''laptop'', ar_mode = Analysis_Only\<rparr>"
    by (simp add: authenticate_bearer_def bearer_prefix_def startswith_def authenticate_runner_def two_tenants_def
        tenant_db_def empty_db_def tenant_runner_def)
  have az: "authorize_repository 7 9 ''r1'' two_tenants = Authorized \<lparr>ra_installation_id = 7,
      ra_github_repository_id = 9, ra_repository_id = ''p9'', ra_runner_id = ''r1''\<rparr>"
    "authorize_repository 8 11 ''r1'' two_tenants = Authorization_Denied Unknown_Repository"
    by (simp_all add: authorize_repository_def repo_key_def two_tenants_def tenant_db_def empty_db_def tenant_runner_def)
  let ?j = "victim_job\<lparr>rj_status := Completed, rj_installation_id := Some 7, rj_github_repository_id := Some 9,
      rj_pull_request_number := Some 3, rj_head_sha := Some ''h'', rj_updated_at := 5\<rparr>"
  have id: "rj_id victim_job = ''victim''" by (simp add: victim_job_def)
  have save: "save_pushed_review_summary 5 ?b two_tenants = Inr (two_tenants\<lparr>review_jobs := [?j]\<rparr>)"
    by (simp add: save_pushed_review_summary_def sample_push_def two_tenants_def tenant_db_def empty_db_def Let_def
        in_bigint_def in_integer_def id)
  have "validate_pushed_summary ?b" by (simp add: validate_pushed_summary_def sample_push_def)
  with auth az save have push: "push_review_summary_route id 5 ?b (Some ''Bearer h'') two_tenants =
      Inr (two_tenants\<lparr>review_jobs := [?j]\<rparr>)"
    by (simp add: push_review_summary_route_def sample_push_def)
  have "\<exists>r. reviews_for_repository sample_assertion 7 9 (two_tenants\<lparr>review_jobs := [?j]\<rparr>) = Some [r] \<and>
        map fs_file_path (rv_findings r) = [''secret.py'']"
    by (simp add: reviews_for_repository_def granted_def sample_assertion_def review_summary_for_job_def
        two_tenants_def victim_finding_def pushed_finding_row_def make_finding_summary_def Let_def id)
  moreover have "map rj_status (review_jobs two_tenants) = [Running]"
    "map rj_installation_id (review_jobs two_tenants) = [Some 8]"
    by (simp_all add: two_tenants_def victim_job_def) (simp add: enqueued_row_def)
  ultimately show ?thesis using push az(2) by simp
qed

text \<open>A projected review is written whole or not at all, under its own job, and no finding is
  shown as verified that its receipt does not call verified.\<close>

theorem project_review_faithful:
  assumes "project_review now jid findings receipts db = Inr db'"
  shows "map rf_id (review_findings db') = map rf_id (review_findings db) @ map fi_id findings \<and>
    distinct (map fi_id findings) \<and>
    (\<forall>f \<in> set findings. \<exists>row \<in> set (review_findings db'). rf_id row = fi_id f \<and> rf_review_job_id row = jid \<and>
       rf_verified row = fi_verified f \<and>
       (\<forall>r \<in> set receipts. rc_finding_id r = fi_id f \<longrightarrow>
          (\<exists>r' \<in> set receipts. rc_finding_id r' = fi_id f \<and> rc_verified r' = rf_verified row \<and>
             rf_verification_reason row = rc_verification_reason r'))) \<and>
    review_jobs db' = review_jobs db"
proof -
  let ?rs = "dict_of (map (\<lambda>r. (rc_finding_id r, r)) receipts)"
  let ?fs = "dict_of (map (\<lambda>f. (fi_id f, f)) findings)"
  have own: "\<forall>f \<in> set findings. fi_review_job_id f = jid"
    using assms by (auto simp: project_review_def split: if_splits)
  have agree: "\<forall>(fid, r) \<in> set ?rs. (case map_of ?fs fid of None \<Rightarrow> True | Some f \<Rightarrow> rc_verified r = fi_verified f)"
    using assms by (auto simp: project_review_def Let_def split: if_splits option.splits)
  have run: "project_findings now ?rs findings db = Inr db'"
    using assms by (auto simp: project_review_def Let_def split: if_splits)
  note rows = project_findings_rows [OF run]
  have dist: "distinct (map fi_id findings)" using project_findings_distinct [OF run] .
  then have fs: "map_of ?fs (fi_id f) = Some f" if "f \<in> set findings" for f
    using that by (simp add: dict_of_distinct comp_def map_of_eq_Some_iff image_iff)
  have "\<exists>row \<in> set (review_findings db'). rf_id row = fi_id f \<and> rf_review_job_id row = jid \<and>
       rf_verified row = fi_verified f \<and>
       (\<forall>r \<in> set receipts. rc_finding_id r = fi_id f \<longrightarrow>
          (\<exists>r' \<in> set receipts. rc_finding_id r' = fi_id f \<and> rc_verified r' = rf_verified row \<and>
             rf_verification_reason row = rc_verification_reason r'))" if f: "f \<in> set findings" for f
  proof -
    from rows f obtain d where d: "finding_row now f (map_of ?rs (fi_id f)) d \<in> set (review_findings db')" by blast
    have "\<exists>r' \<in> set receipts. rc_finding_id r' = fi_id f \<and> rc_verified r' = fi_verified f \<and>
        Option.bind (map_of ?rs (fi_id f)) rc_verification_reason = rc_verification_reason r'"
      if "r \<in> set receipts" "rc_finding_id r = fi_id f" for r
    proof -
      from that have "fi_id f \<in> fst ` set ?rs" by (force simp: keys_dict_of)
      then obtain r' where r': "map_of ?rs (fi_id f) = Some r'" by (metis map_of_eq_None_iff not_None_eq)
      from map_of_SomeD [OF this] have m: "(fi_id f, r') \<in> set ?rs" .
      with agree fs [OF f] have "rc_verified r' = fi_verified f" by fastforce
      with dict_of_subset m r' show ?thesis by fastforce
    qed
    with d own f show ?thesis by (intro bexI [OF _ d]) (auto simp: finding_row_def)
  qed
  with rows dist show ?thesis by blast
qed

definition sample_finding :: finding where
  "sample_finding = \<lparr>fi_id = ''f1'', fi_review_job_id = ''j1'', fi_concern = Security, fi_severity = High,
     fi_category = ''auth'', fi_file_path = ''a.py'', fi_line_start = 3, fi_line_end = 4, fi_title = ''t'',
     fi_rationale = ''r'', fi_evidence = [''e''], fi_confidence = 1 / 2, fi_verified = True,
     fi_verification_method = Sandbox, fi_public_safe = True, fi_status = Draft\<rparr>"

definition sample_receipt :: receipt_input where
  "sample_receipt = \<lparr>rc_finding_id = ''f1'', rc_review_job_id = ''j1'', rc_prompt_version_id = ''v'',
     rc_context_sources = [], rc_verified = True, rc_verification_reason = Some ''exit 0'',
     rc_sandbox_run_id = Some ''s'', rc_command_id = Some ''c'', rc_verification_detail = None\<rparr>"

theorem project_review_faithful_witness:
  "\<exists>db'. project_review 1 ''j1'' [sample_finding] [sample_receipt] fleet_db = Inr db' \<and>
     map rf_id (review_findings db') = [''f1'']"
proof -
  have "\<exists>db'. project_review 1 ''j1'' [sample_finding] [sample_receipt] fleet_db = Inr db'"
    by (simp add: project_review_def dict_of_def sample_finding_def sample_receipt_def Let_def insert_finding_def
        finding_row_def fleet_db_def tenant_db_def empty_db_def)
  then obtain db' where p: "project_review 1 ''j1'' [sample_finding] [sample_receipt] fleet_db = Inr db'" by blast
  have "map rf_id (review_findings db') = map rf_id (review_findings fleet_db) @ map fi_id [sample_finding]"
    using project_review_faithful [OF p] by (elim conjE)
  with p show ?thesis by (simp add: fleet_db_def tenant_db_def empty_db_def sample_finding_def)
qed

lemma purge_Inr:
  "purge_hosted_repository i g db = Inr db' \<Longrightarrow>
   db' = db\<lparr>repository_budget_reservations := filter (\<lambda>r. \<not> (rs_installation_id r = i \<and> rs_github_repository_id r = g))
             (repository_budget_reservations db),
           review_jobs := filter (\<lambda>j. \<not> of_repository i g j) (review_jobs db),
           repository_budgets := filter (\<lambda>b. \<not> (bu_installation_id b = i \<and> bu_github_repository_id b = g))
             (repository_budgets db),
           repositories := filter (\<lambda>r. \<not> repo_key i g r) (repositories db)\<rparr>"
  by (simp add: purge_hosted_repository_def split: if_splits)



end
