(* ===== verification/Job_Lifecycle.thy ===== *)
theory Job_Lifecycle
  imports Review_Projection
begin

text \<open>
  The life of a review job under every writer of \<open>review_jobs\<close>: the worker operations of
  \<^verbatim>\<open>jobs/\<close>, the runner protocol, the pushed summary, the purge and the manual requeue, as step
  relations on the hosted database.  The invariants are discharged once per operation and lifted
  to all runs through \<open>invariant_system\<close> and \<open>absorbing_system\<close>.
\<close>

section \<open>Steps\<close>

text \<open>A step of the queue at an instant.  \<open>repr\<close>, \<open>hash\<close> and \<open>sd\<close> are the text of JSON
  containers, the credential hash and the text of a decimal.\<close>

inductive queue_step ::
  "(json \<Rightarrow> string) \<Rightarrow> (string \<Rightarrow> string) \<Rightarrow> (usd \<Rightarrow> string) \<Rightarrow> timestamp \<Rightarrow> hosted_db \<Rightarrow> hosted_db \<Rightarrow> bool"
  for repr hash sd where
  enqueue: "enqueue_review_job repr now nid tid did ev payload db = Inr (er, db') \<Longrightarrow> queue_step repr hash sd now db db'"
| cancel: "cancel_review_job now d db = (cr, db') \<Longrightarrow> queue_step repr hash sd now db db'"
| claim: "claim_review_job now skip w db = (j, db') \<Longrightarrow> queue_step repr hash sd now db db'"
| complete: "complete_review_job now jid w db = Inr db' \<Longrightarrow> queue_step repr hash sd now db db'"
| fail: "fail_review_job now jid w err db = Inr db' \<Longrightarrow> queue_step repr hash sd now db db'"
| renew: "renew_review_job_lease now jid w db = Inr db' \<Longrightarrow> queue_step repr hash sd now db db'"
| runner_claim: "claim_job hash now skip token run db = Inr (e, db') \<Longrightarrow> queue_step repr hash sd now db db'"
| heartbeat: "heartbeat_job hash now run jid token db = (ls, db') \<Longrightarrow> queue_step repr hash sd now db db'"
| acknowledge: "acknowledge_job hash sd now run jid token ack db = Inr db' \<Longrightarrow> queue_step repr hash sd now db db'"

inductive_cases queue_step_cases: "queue_step repr hash sd now db db'"

text \<open>All writers but the requeue, and all of them.  \<open>elsewhere\<close> is any write of the other components
  (policy, pairing, sign-in, budgets, events), which leave the job and delivery tables alone.\<close>

inductive job_step ::
  "(json \<Rightarrow> string) \<Rightarrow> (string \<Rightarrow> string) \<Rightarrow> (usd \<Rightarrow> string) \<Rightarrow> hosted_db \<Rightarrow> hosted_db \<Rightarrow> bool"
  for repr hash sd where
  queue: "queue_step repr hash sd now db db' \<Longrightarrow> job_step repr hash sd db db'"
| push: "validate_pushed_summary b \<Longrightarrow> save_pushed_review_summary now b db = Inr db' \<Longrightarrow> job_step repr hash sd db db'"
| purge: "purge_hosted_repository i g db = Inr db' \<Longrightarrow> job_step repr hash sd db db'"
| elsewhere: "review_jobs db' = review_jobs db \<Longrightarrow> github_deliveries db' = github_deliveries db \<Longrightarrow>
    job_step repr hash sd db db'"

inductive_cases job_step_cases: "job_step repr hash sd db db'"

inductive any_step ::
  "(json \<Rightarrow> string) \<Rightarrow> (string \<Rightarrow> string) \<Rightarrow> (usd \<Rightarrow> string) \<Rightarrow> hosted_db \<Rightarrow> hosted_db \<Rightarrow> bool"
  for repr hash sd where
  job: "job_step repr hash sd db db' \<Longrightarrow> any_step repr hash sd db db'"
| requeue: "requeue_review_job now jid db = Inr db' \<Longrightarrow> any_step repr hash sd db db'"

inductive_cases any_step_cases: "any_step repr hash sd db db'"

section \<open>Push and purge keep the invariants\<close>

lemma push_jobs_cases:
  assumes "save_pushed_review_summary now b db = Inr db'"
  obtains
    (old) f where "review_jobs db' = update_where (\<lambda>r. rj_id r = ps_review_job_id b) f (review_jobs db)"
      "\<forall>r. rj_id (f r) = rj_id r \<and> rj_delivery_id (f r) = rj_delivery_id r \<and> rj_status (f r) = ps_status b"
      "github_deliveries db' = github_deliveries db"
  | (new) row where "review_jobs db' = review_jobs db @ [row]" "rj_id row \<notin> rj_id ` set (review_jobs db)"
      "rj_status row = ps_status b" "rj_delivery_id row = None" "github_deliveries db' = github_deliveries db"
proof (cases "ps_review_job_id b \<in> rj_id ` set (review_jobs db)")
  case True
  with assms show thesis
    by (intro old [of "\<lambda>r. r\<lparr>rj_status := ps_status b, rj_installation_id := Some (ps_installation_id b),
              rj_github_repository_id := Some (ps_github_repository_id b),
              rj_pull_request_number := Some (ps_pull_request_number b), rj_head_sha := Some (ps_head_sha b),
              rj_updated_at := now\<rparr>"])
       (auto simp: save_pushed_review_summary_def Let_def split: if_splits)
next
  case False
  with assms show thesis
    by (intro new [of "(new_review_job now (ps_review_job_id b) None)\<lparr>rj_status := ps_status b,
              rj_installation_id := Some (ps_installation_id b),
              rj_github_repository_id := Some (ps_github_repository_id b),
              rj_pull_request_number := Some (ps_pull_request_number b), rj_head_sha := Some (ps_head_sha b)\<rparr>"])
       (auto simp: save_pushed_review_summary_def Let_def split: if_splits)
qed

lemma dead_active_head: "\<not> live r \<Longrightarrow> active_head r = None"
  by (simp add: active_head_def)

lemma append_dead:
  assumes "\<not> live row" "rj_id row \<notin> rj_id ` set rows"
  shows "jobs_unique rows \<Longrightarrow> jobs_unique (rows @ [row])" "one_live_per_pr rows \<Longrightarrow> one_live_per_pr (rows @ [row])"
  using assms by (auto simp: jobs_unique_def one_active_head_def map_filter_append map_filter_simps dead_active_head
      one_live_per_pr_def)

lemma kill_unique:
  assumes "\<forall>r. rj_id (f r) = rj_id r \<and> \<not> live (f r)" "jobs_unique rows"
  shows "jobs_unique (update_where p f rows)"
proof -
  have "map rj_id (update_where p f rows) = map rj_id rows"
    using assms(1) by (intro map_update_where) auto
  moreover have "one_active_head (update_where p f rows)"
    unfolding one_active_head_def map_filter_update_where
    by (rule distinct_map_filter_weaken [where k = active_head])
       (use assms in \<open>auto simp: jobs_unique_def one_active_head_def dead_active_head\<close>)
  ultimately show ?thesis using assms(2) by (simp add: jobs_unique_def)
qed

lemma one_live_fewer:
  "(\<And>r. r \<in> set xs \<Longrightarrow> live r \<Longrightarrow> r \<in> set ys) \<Longrightarrow> one_live_per_pr ys \<Longrightarrow> one_live_per_pr xs"
  unfolding one_live_per_pr_def by blast

lemma kill_one_live:
  "\<forall>r. \<not> live (f r) \<Longrightarrow> one_live_per_pr rows \<Longrightarrow> one_live_per_pr (update_where p f rows)"
  by (rule one_live_fewer [of _ rows]) (auto simp: in_update_where)

lemma pushed_status_dead: "validate_pushed_summary b \<Longrightarrow> rj_status r = ps_status b \<Longrightarrow>
   \<not> live r \<and> row_ok r \<and> rj_status r \<in> {Completed, Stopped_Early}"
  by (auto simp: validate_pushed_summary_def live_def row_ok_def)

lemma push_preserves:
  assumes "validate_pushed_summary b" "save_pushed_review_summary now b db = Inr db'" "queue_ok db"
  shows "queue_ok db'" "one_live_per_pr (review_jobs db) \<Longrightarrow> one_live_per_pr (review_jobs db')"
    "envelopes_ok (review_jobs db) \<Longrightarrow> envelopes_ok (review_jobs db')"
proof -
  from assms(2) have "queue_ok db' \<and> (one_live_per_pr (review_jobs db) \<longrightarrow> one_live_per_pr (review_jobs db')) \<and>
     (envelopes_ok (review_jobs db) \<longrightarrow> envelopes_ok (review_jobs db'))"
  proof (cases rule: push_jobs_cases)
    case (old f)
    have dead: "\<not> live (f r)" "row_ok (f r)" "rj_status (f r) \<in> {Completed, Stopped_Early}" for r
      using pushed_status_dead [OF assms(1)] old(2) by blast+
    have "jobs_unique (review_jobs db')"
      using kill_unique [of f] dead old assms(3) by (auto simp: queue_ok_def)
    moreover have "deliveries_ok db'"
      using assms(3) old by (auto simp: queue_ok_def deliveries_ok_def seen_delivery_def in_update_where)
    ultimately have "queue_ok db'"
      using assms(3) dead(2) old(1) by (auto simp: queue_ok_def in_update_where)
    moreover have "envelopes_ok (review_jobs db) \<longrightarrow> envelopes_ok (review_jobs db')"
      using dead(3) old(1) by (fastforce simp: envelopes_ok_def in_update_where)
    moreover have "one_live_per_pr (review_jobs db) \<longrightarrow> one_live_per_pr (review_jobs db')"
      using kill_one_live [of f] dead(1) old(1) by auto
    ultimately show ?thesis by blast
  next
    case (new row)
    note dead = pushed_status_dead [OF assms(1) new(3)]
    have "jobs_unique (review_jobs db')" using append_dead(1) [of row] dead new assms(3) by (simp add: queue_ok_def)
    moreover have "deliveries_ok db'"
      using assms(3) new by (auto simp: queue_ok_def deliveries_ok_def seen_delivery_def)
    moreover have "envelopes_ok (review_jobs db) \<longrightarrow> envelopes_ok (review_jobs db')"
      using dead new(1) by (auto simp: envelopes_ok_def)
    moreover have "one_live_per_pr (review_jobs db) \<longrightarrow> one_live_per_pr (review_jobs db')"
      using append_dead(2) [of row] dead new by simp
    ultimately show ?thesis using assms(3) dead new(1) by (auto simp: queue_ok_def)
  qed
  then show "queue_ok db'" "one_live_per_pr (review_jobs db) \<Longrightarrow> one_live_per_pr (review_jobs db')"
    "envelopes_ok (review_jobs db) \<Longrightarrow> envelopes_ok (review_jobs db')" by blast+
qed

lemma distinct_map_filter_filter: "distinct (List.map_filter h xs) \<Longrightarrow> distinct (List.map_filter h (filter p xs))"
proof (induction xs)
  case (Cons x xs)
  then show ?case by (auto simp: map_filter_simps in_map_filter split: option.splits)
qed simp

lemma purge_preserves:
  assumes "purge_hosted_repository i g db = Inr db'" "queue_ok db"
  shows "queue_ok db'" "one_live_per_pr (review_jobs db) \<Longrightarrow> one_live_per_pr (review_jobs db')"
    "envelopes_ok (review_jobs db) \<Longrightarrow> envelopes_ok (review_jobs db')"
proof -
  note db' = purge_Inr [OF assms(1)]
  have "jobs_unique (review_jobs db')"
    using assms(2) by (simp add: db' queue_ok_def jobs_unique_def one_active_head_def distinct_map_filter
        distinct_map_filter_filter)
  moreover have "deliveries_ok db'" using assms(2) by (auto simp: db' queue_ok_def deliveries_ok_def seen_delivery_def)
  ultimately show "queue_ok db'" using assms(2) by (auto simp: db' queue_ok_def)
  show "one_live_per_pr (review_jobs db) \<Longrightarrow> one_live_per_pr (review_jobs db')"
    by (rule one_live_fewer [of _ "review_jobs db"]) (auto simp: db')
  show "envelopes_ok (review_jobs db) \<Longrightarrow> envelopes_ok (review_jobs db')"
    by (auto simp: db' envelopes_ok_def)
qed

section \<open>Every step\<close>

definition queue_inv :: "hosted_db \<Rightarrow> bool" where
  "queue_inv db \<longleftrightarrow> queue_ok db \<and> one_live_per_pr (review_jobs db) \<and> envelopes_ok (review_jobs db)"

definition base_inv :: "hosted_db \<Rightarrow> bool" where
  "base_inv db \<longleftrightarrow> queue_ok db \<and> envelopes_ok (review_jobs db)"

lemma queue_unique: "queue_ok db \<Longrightarrow> jobs_unique (review_jobs db)"
  by (simp add: queue_ok_def)

lemma retire_frame:
  "snd (cancel_review_job now d db) = db \<or> (\<exists>ds i g n. snd (cancel_review_job now d db) =
     db\<lparr>github_deliveries := ds, review_jobs := retire_live Cancelled now i g n (review_jobs db)\<rparr>)"
  by (auto simp: cancel_review_job_def)

lemma cancel_envelopes: "envelopes_ok (review_jobs db) \<Longrightarrow> envelopes_ok (review_jobs (snd (cancel_review_job now d db)))"
  using retire_frame [of now d db] retire_envelopes by fastforce

lemma claim_envelopes:
  assumes "jobs_unique (review_jobs db)" "envelopes_ok (review_jobs db)" "claim_review_job now skip w db = (res, db')"
  shows "envelopes_ok (review_jobs db')"
  using assms(1)
  by (cases rule: claim_cases [where now = now and skip = skip and w = w])
     (use assms in \<open>auto intro!: quiet_envelopes quiet_lease dest: claimable_live\<close>)

lemma complete_envelopes:
  "envelopes_ok (review_jobs db) \<Longrightarrow> complete_review_job now jid w db = Inr db' \<Longrightarrow> envelopes_ok (review_jobs db')"
  by (drule complete_Inr) (auto intro!: quiet_envelopes quiet_complete simp: owned_live)

lemma leased_live: "leased_by now jid w r \<Longrightarrow> live r"
  by (auto simp: leased_by_def intro: owned_live)

lemma renew_envelopes:
  "envelopes_ok (review_jobs db) \<Longrightarrow> renew_review_job_lease now jid w db = Inr db' \<Longrightarrow> envelopes_ok (review_jobs db')"
  by (drule renew_Inr) (auto intro!: quiet_envelopes quiet_extend intro: leased_live)

lemma fail_envelopes:
  "envelopes_ok (review_jobs db) \<Longrightarrow> fail_review_job now jid w err db = Inr db' \<Longrightarrow> envelopes_ok (review_jobs db')"
  by (elim fail_cases) (auto intro!: quiet_envelopes quiet_fail simp: owned_live)

lemma requeue_envelopes:
  assumes "envelopes_ok (review_jobs db)" "requeue_review_job now jid db = Inr db'"
  shows "envelopes_ok (review_jobs db')"
  using requeue_Inr [OF assms(2)] assms(1)
  by (auto intro!: envelopes_update simp: same_identity_def requeue_row_def)

lemmas envelopes_operations =
  enqueue_envelopes cancel_envelopes claim_envelopes complete_envelopes renew_envelopes fail_envelopes

lemma queue_step_base:
  assumes "queue_step repr hash sd now db db'" "base_inv db"
  shows "base_inv db'"
proof -
  from assms(2) have ok: "queue_ok db" and env: "envelopes_ok (review_jobs db)" by (simp_all add: base_inv_def)
  note uniq = queue_unique [OF ok]
  have "queue_ok db' \<and> envelopes_ok (review_jobs db')"
    using assms(1)
  proof (cases rule: queue_step.cases)
    case (cancel d cr)
    then show ?thesis using cancel_queue_ok [OF ok, of now d] cancel_envelopes [OF env, of now d] by simp
  next
    case (enqueue nid tid did ev payload er)
    then show ?thesis using enqueue_queue_ok [OF ok] enqueue_envelopes [OF env] by blast
  next
    case (claim skip w j)
    then show ?thesis using claim_queue_ok [OF ok] claim_envelopes [OF uniq env] by blast
  next
    case (runner_claim skip token run e)
    then show ?thesis using claim_job_preserves(1, 3) [OF ok] env by blast
  next
    case (heartbeat run jid token ls)
    then show ?thesis using heartbeat_preserves(1, 3) [OF ok] env by blast
  next
    case (acknowledge run jid token ack)
    then show ?thesis using acknowledge_preserves(1, 3) [OF ok] env by blast
  next
    case (complete jid w)
    then show ?thesis using complete_queue_ok [OF ok complete] complete_envelopes [OF env complete] by blast
  next
    case (fail jid w err)
    then show ?thesis using fail_queue_ok [OF ok fail] fail_envelopes [OF env fail] by blast
  next
    case (renew jid w)
    then show ?thesis using renew_queue_ok [OF ok renew] renew_envelopes [OF env renew] by blast
  qed
  then show ?thesis by (simp add: base_inv_def)
qed

lemma queue_step_one_live:
  assumes "queue_step repr hash sd now db db'" "queue_ok db" "one_live_per_pr (review_jobs db)"
  shows "one_live_per_pr (review_jobs db')"
  using assms(1)
proof (cases rule: queue_step.cases)
  case (cancel d cr)
  then show ?thesis using cancel_one_live [OF queue_unique [OF assms(2)] assms(3), of now d] by simp
next
  case (runner_claim skip token run e)
  then show ?thesis using claim_job_preserves(2) [OF assms(2)] assms(3) by blast
next
  case (heartbeat run jid token ls)
  then show ?thesis using heartbeat_preserves(2) [OF assms(2)] assms(3) by blast
next
  case (acknowledge run jid token ack)
  then show ?thesis using acknowledge_preserves(2) [OF assms(2)] assms(3) by blast
next
  case (enqueue nid tid did ev payload er)
  then show ?thesis using enqueue_one_live [OF queue_unique [OF assms(2)] assms(3)] by blast
next
  case (claim skip w j)
  then show ?thesis using claim_one_live [OF queue_unique [OF assms(2)] assms(3)] by blast
next
  case (complete jid w)
  then show ?thesis using complete_one_live [OF queue_unique [OF assms(2)] assms(3) complete] by blast
next
  case (fail jid w err)
  then show ?thesis using fail_one_live [OF queue_unique [OF assms(2)] assms(3) fail] by blast
next
  case (renew jid w)
  then show ?thesis using renew_one_live [OF queue_unique [OF assms(2)] assms(3) renew] by blast
qed

lemma elsewhere_queue_ok:
  "review_jobs db' = review_jobs db \<Longrightarrow> github_deliveries db' = github_deliveries db \<Longrightarrow> queue_ok db' = queue_ok db"
  by (simp add: queue_ok_def deliveries_ok_def seen_delivery_def)

lemma job_step_inv:
  assumes "queue_inv db" "job_step repr hash sd db db'"
  shows "queue_inv db'"
proof -
  from assms(1) have inv: "queue_ok db" "one_live_per_pr (review_jobs db)" "envelopes_ok (review_jobs db)"
    by (simp_all add: queue_inv_def)
  from assms(2) show ?thesis
  proof (cases rule: job_step.cases)
    case (queue now)
    then show ?thesis using queue_step_base [OF queue] queue_step_one_live [OF queue] inv
      by (simp add: queue_inv_def base_inv_def)
  next
    case (push b now)
    then show ?thesis using push_preserves [OF push inv(1)] inv by (simp add: queue_inv_def)
  next
    case (purge i g)
    then show ?thesis using purge_preserves [OF purge inv(1)] inv by (simp add: queue_inv_def)
  next
    case elsewhere
    then show ?thesis using inv elsewhere_queue_ok [OF elsewhere] by (simp add: queue_inv_def)
  qed
qed

lemma any_step_base:
  assumes "base_inv db" "any_step repr hash sd db db'"
  shows "base_inv db'"
proof -
  from assms(1) have inv: "queue_ok db" "envelopes_ok (review_jobs db)" by (simp_all add: base_inv_def)
  from assms(2) show ?thesis
  proof (cases rule: any_step.cases)
    case job
    then show ?thesis
    proof (cases rule: job_step.cases)
      case (queue now)
      then show ?thesis using queue_step_base [OF _ assms(1)] by blast
    next
      case (push b now)
      then show ?thesis using push_preserves [OF push inv(1)] inv by (simp add: base_inv_def)
    next
      case (purge i g)
      then show ?thesis using purge_preserves [OF purge inv(1)] inv by (simp add: base_inv_def)
    next
      case elsewhere
      then show ?thesis using inv elsewhere_queue_ok [OF elsewhere] by (simp add: base_inv_def)
    qed
  next
    case (requeue now jid)
    then show ?thesis using requeue_queue_ok [OF inv(1) requeue] requeue_envelopes [OF inv(2) requeue]
      by (simp add: base_inv_def)
  qed
qed

lemma empty_inv: "queue_inv empty_db"
  by (simp add: queue_inv_def queue_ok_def empty_db_def jobs_unique_def one_active_head_def map_filter_simps
      deliveries_ok_def one_live_per_pr_def envelopes_ok_def)

interpretation jobs: invariant_system "\<lambda>db. db = empty_db" "job_step repr hash sd" queue_inv for repr hash sd
proof unfold_locales
  show "db = empty_db \<Longrightarrow> queue_inv db" for db using empty_inv by simp
qed (rule job_step_inv)

interpretation writers: invariant_system "\<lambda>db. db = empty_db" "any_step repr hash sd" base_inv for repr hash sd
proof unfold_locales
  show "db = empty_db \<Longrightarrow> base_inv db" for db using empty_inv by (simp add: queue_inv_def base_inv_def)
qed (rule any_step_base)

section \<open>The shape of a queue step\<close>

text \<open>Every queue operation updates live rows only, keeps their identifiers, does not move an
  unexpired lease to another holder, and adds pending rows.\<close>

definition lease_kept :: "timestamp \<Rightarrow> (review_job \<Rightarrow> bool) \<Rightarrow> (review_job \<Rightarrow> review_job) \<Rightarrow> bool" where
  "lease_kept now p f \<longleftrightarrow>
     (\<forall>r. p r \<longrightarrow> live r \<and> rj_id (f r) = rj_id r \<and>
        (\<forall>u. rj_status r = Running \<and> rj_locked_until r = Some u \<and> now < u \<and> rj_status (f r) = Running \<longrightarrow>
           rj_locked_by (f r) = rj_locked_by r))"

definition shaped :: "timestamp \<Rightarrow> review_job list \<Rightarrow> review_job list \<Rightarrow> bool" where
  "shaped now rows rows' \<longleftrightarrow>
     (\<exists>p f new. rows' = update_where p f rows @ new \<and> lease_kept now p f \<and> (\<forall>r \<in> set new. rj_status r = Pending))"

lemma shapedI: "rows' = update_where p f rows @ new \<Longrightarrow> lease_kept now p f \<Longrightarrow> \<forall>r \<in> set new. rj_status r = Pending \<Longrightarrow>
   shaped now rows rows'"
  unfolding shaped_def by blast

lemma shaped_update: "lease_kept now p f \<Longrightarrow> shaped now rows (update_where p f rows)"
  by (rule shapedI [where new = "[]"]) auto

lemma shaped_refl: "shaped now rows rows"
  by (rule shapedI [where p = "\<lambda>_. False" and new = "[]"]) (simp_all add: lease_kept_def table_simps)

lemma kept_retire: "st \<notin> {Pending, Running} \<Longrightarrow> shaped now rows (retire_live st now' i g n rows @ new)"
  if "\<forall>r \<in> set new. rj_status r = Pending"
  unfolding retire_live_def by (rule shapedI [OF refl]) (use that in \<open>auto simp: lease_kept_def\<close>)

lemma claimable_free: "claimable now r \<Longrightarrow> rj_status r = Running \<Longrightarrow> rj_locked_until r = Some u \<Longrightarrow> \<not> now < u"
  by (auto simp: claimable_def)

lemma kept_lease:
  "(\<And>r. p r \<Longrightarrow> claimable now r) \<Longrightarrow> lease_kept now p (lease now w)"
  by (simp add: lease_kept_def) (meson claimable_free claimable_live)

lemma kept_runner_lease:
  "(\<And>r. p r \<Longrightarrow> claimable now r) \<Longrightarrow> lease_kept now p (runner_lease now w h)"
  by (simp add: lease_kept_def) (meson claimable_free claimable_live)

lemma kept_extend: "(\<And>r. p r \<Longrightarrow> live r) \<Longrightarrow> lease_kept now p (extend_lease now')"
  by (simp add: lease_kept_def extend_lease_def)

lemma kept_end: "(\<And>r. p r \<Longrightarrow> live r \<and> rj_id (f r) = rj_id r \<and> rj_status (f r) \<noteq> Running) \<Longrightarrow> lease_kept now p f"
  by (simp add: lease_kept_def)

lemma queue_step_shaped:
  assumes "queue_step repr hash sd now db db'" "queue_ok db"
  shows "shaped now (review_jobs db) (review_jobs db')"
  using assms(1)
proof (cases rule: queue_step.cases)
  case (enqueue nid tid did ev payload er)
  then show ?thesis
  proof (cases rule: enqueue_cases)
    case plain
    then show ?thesis by (intro shapedI [where p = "\<lambda>_. False" and new = "[new_review_job now nid (Some did)]"])
        (simp_all add: lease_kept_def table_simps)
  qed (use shaped_refl kept_retire in simp_all)
next
  case (cancel d cr)
  then show ?thesis using shaped_refl kept_retire [where new = "[]"]
    by (auto simp: cancel_review_job_def split: if_splits)
next
  case (claim skip w j)
  from queue_unique [OF assms(2)] show ?thesis
    by (cases rule: claim_cases [where now = now and skip = skip and w = w])
       (use claim in \<open>auto intro!: shaped_refl shaped_update kept_lease\<close>)
next
  case (runner_claim skip token run e)
  from queue_unique [OF assms(2)] runner_claim show ?thesis
    by (cases rule: claim_job_cases)
       (auto intro!: shaped_refl shaped_update kept_runner_lease simp: runner_claimable_def)
next
  case (heartbeat run jid token ls)
  then show ?thesis using heartbeat_db [of hash now run jid token db]
    by (auto intro!: shaped_refl shaped_update kept_extend intro: runner_leased_live)
next
  case (acknowledge run jid token ack)
  from queue_unique [OF assms(2)] acknowledge show ?thesis
    by (cases rule: acknowledge_cases)
       (auto intro!: shaped_refl shaped_update kept_end simp: ack_row_def live_def split: if_splits)
next
  case (complete jid w)
  from complete_Inr [OF this] show ?thesis by (auto intro!: shaped_update kept_end simp: owned_live)
next
  case (fail jid w err)
  then show ?thesis
    by (elim fail_cases) (simp, intro shaped_update kept_end, simp add: owned_live fail_row_def)
next
  case (renew jid w)
  from renew_Inr [OF this] show ?thesis by (auto intro!: shaped_update kept_extend intro: leased_live)
qed

lemma shaped_dead:
  assumes "shaped now rows rows'" "r \<in> set rows" "\<not> live r"
  shows "r \<in> set rows'"
proof -
  from assms(1) obtain p f new where s: "rows' = update_where p f rows @ new" "lease_kept now p f"
    by (auto simp: shaped_def)
  from s(2) assms(3) have "\<not> p r" by (auto simp: lease_kept_def)
  with assms(2) s(1) show ?thesis by (auto simp: in_update_where)
qed

text \<open>A row that is not live any more is never touched again by the queue.\<close>

definition settled :: "review_job \<Rightarrow> hosted_db \<Rightarrow> bool" where
  "settled r db \<longleftrightarrow> base_inv db \<and> r \<in> set (review_jobs db) \<and> \<not> live r"

interpretation settled: absorbing_system "\<lambda>db db'. \<exists>now. queue_step repr hash sd now db db'" settled for repr hash sd
proof unfold_locales
  fix r s t assume a: "settled r s" "\<exists>now. queue_step repr hash sd now s t"
  then obtain now where q: "queue_step repr hash sd now s t" by blast
  from a(1) have "base_inv s" "r \<in> set (review_jobs s)" "\<not> live r" by (simp_all add: settled_def)
  moreover from this q have "base_inv t" "shaped now (review_jobs s) (review_jobs t)"
    using queue_step_base [OF q] queue_step_shaped [OF q] by (auto simp: base_inv_def)
  ultimately show "settled r t" using shaped_dead by (auto simp: settled_def)
qed

section \<open>Properties\<close>

text \<open>C1. At most one live job per pull request: in every state that any interleaving of enqueues,
  cancels, claims, completions, failures, renewals, runner claims, heartbeats, acknowledgements, pushes,
  purges and writes of the other components reaches from an empty database, two pending or running jobs
  of the same installation, repository and pull request are the same row, and a running row always names
  its holder and the end of its lease.\<close>

theorem one_live_job_per_pull_request:
  assumes "(job_step repr hash sd)\<^sup>*\<^sup>* empty_db db"
    "r \<in> set (review_jobs db)" "rj_status r \<in> {Pending, Running}" "pr_key r = Some k"
    "r' \<in> set (review_jobs db)" "rj_status r' \<in> {Pending, Running}" "pr_key r' = Some k"
  shows "r = r' \<and> (rj_status r = Running \<longrightarrow> rj_locked_by r \<noteq> None \<and> rj_locked_until r \<noteq> None \<and> 0 < rj_attempts r)"
proof -
  have "queue_inv db" using jobs.inv_reachable [OF refl assms(1)] .
  then have "one_live_per_pr (review_jobs db)" "row_ok r"
    using assms(2) by (auto simp: queue_inv_def queue_ok_def)
  then show ?thesis using assms(2-7) unfolding one_live_per_pr_def live_def row_ok_def by (metis option.distinct(1))
qed

text \<open>A run: the installation is registered, then two pushes of one pull request arrive.\<close>

definition pr_payload :: "string \<Rightarrow> json" where
  "pr_payload head = JObj [(''installation'', JObj [(''id'', JInt 7)]), (''repository'', JObj [(''id'', JInt 9)]),
     (''pull_request'', JObj [(''number'', JInt 3), (''base'', JObj [(''sha'', JStr ''b'')]),
        (''head'', JObj [(''sha'', JStr head)])])]"

lemma pr_payload_identity:
  "head \<noteq> [] \<Longrightarrow> pull_request_identity repr (pr_payload head) = Inr (Some (7, 9, 3, ''b'', head))"
  by (simp add: pull_request_identity_def pr_payload_def Let_def)

definition installed_db :: hosted_db where
  "installed_db = empty_db\<lparr>installations := [\<lparr>in_id = 7, in_account_login = ''acme'', in_revoked_at = None\<rparr>]\<rparr>"

definition first_job :: review_job where
  "first_job = enqueued_row 1 ''j1'' ''t1'' ''d1'' 7 9 3 ''b'' ''h1''"

lemma first_enqueue:
  "enqueue_review_job (\<lambda>_. []) 1 ''j1'' ''t1'' ''d1'' ''pull_request'' (pr_payload ''h1'') installed_db =
     Inr (Enqueued, installed_db\<lparr>github_deliveries := [(''d1'', ''pull_request'')], review_jobs := [first_job]\<rparr>)"
  by (simp add: enqueue_review_job_def pr_payload_identity installed_db_def empty_db_def seen_delivery_def Let_def
      retire_live_def in_bigint_def in_integer_def store_jobs_def jobs_unique_def one_active_head_def map_filter_simps
      first_job_def enqueued_row_def split: option.splits)

theorem one_live_job_per_pull_request_witness:
  "\<exists>db. (job_step (\<lambda>_. []) id (\<lambda>_. []))\<^sup>*\<^sup>* empty_db db \<and> first_job \<in> set (review_jobs db) \<and>
     rj_status first_job = Pending \<and> pr_key first_job = Some (7, 9, 3) \<and> first_job = first_job"
proof -
  let ?step = "job_step (\<lambda>_. []) id (\<lambda>_. [])"
  let ?db = "installed_db\<lparr>github_deliveries := [(''d1'', ''pull_request'')], review_jobs := [first_job]\<rparr>"
  have "?step empty_db installed_db"
    by (rule job_step.elsewhere) (simp_all add: installed_db_def)
  moreover have "?step installed_db ?db"
    by (rule job_step.queue, rule queue_step.enqueue, rule first_enqueue)
  ultimately have run: "?step\<^sup>*\<^sup>* empty_db ?db"
    using rtranclp.rtrancl_into_rtrancl [OF r_into_rtranclp, of ?step] by blast
  have j: "first_job \<in> set (review_jobs ?db)" "rj_status first_job = Pending" "pr_key first_job = Some (7, 9, 3)"
    by (simp_all add: first_job_def)
  from one_live_job_per_pull_request [OF run j(1) _ j(3) j(1) _ j(3)] run j show ?thesis by auto
qed

text \<open>The requeue is the one writer outside that invariant: from a state where every pull request has
  at most one live job, requeueing a dead job of an older head next to a pending job of a newer head
  leaves two live jobs of one pull request.\<close>

theorem requeue_revives_a_stale_head:
  "queue_inv sample_db \<and>
   (\<exists>db' r r'. requeue_review_job 9 ''j0'' sample_db = Inr db' \<and> review_jobs db' = [r, r'] \<and>
      rj_status r = Pending \<and> rj_status r' = Pending \<and> pr_key r = pr_key r' \<and> pr_key r \<noteq> None \<and>
      rj_head_sha r \<noteq> rj_head_sha r')"
proof
  have "one_live_per_pr (review_jobs sample_db)" "envelopes_ok (review_jobs sample_db)"
    by (simp_all add: sample_db_def empty_db_def one_live_per_pr_def envelopes_ok_def live_def sample_dead_def
        sample_pending_def envelope_ready_def make_job_envelope_def require_column_def enqueued_row_def new_review_job_def
        default_policy_version_def default_budget_max_tokens_def default_budget_max_cost_usd_def)
  with sample_queue_ok show "queue_inv sample_db" by (simp add: queue_inv_def)
  show "\<exists>db' r r'. requeue_review_job 9 ''j0'' sample_db = Inr db' \<and> review_jobs db' = [r, r'] \<and>
      rj_status r = Pending \<and> rj_status r' = Pending \<and> pr_key r = pr_key r' \<and> pr_key r \<noteq> None \<and>
      rj_head_sha r \<noteq> rj_head_sha r'"
    by (simp add: requeue_review_job_def sample_defs requeue_row_def store_jobs_def jobs_unique_def
        one_active_head_def map_filter_simps active_head_def live_def pr_key_def)
qed

text \<open>C6. Whatever the writers do, the requeue included: job identifiers are unique, at most one live job
  exists per head of a pull request, a running row carries a lease and a pending one none, and every
  delivery named by a job is recorded.\<close>

theorem queue_invariant_of_all_writers:
  assumes "(any_step repr hash sd)\<^sup>*\<^sup>* empty_db db"
  shows "distinct (map rj_id (review_jobs db)) \<and>
    (\<forall>r \<in> set (review_jobs db). \<forall>r' \<in> set (review_jobs db).
       rj_status r \<in> {Pending, Running} \<and> rj_status r' \<in> {Pending, Running} \<and> pr_key r \<noteq> None \<and>
       rj_head_sha r \<noteq> None \<and> pr_key r = pr_key r' \<and> rj_head_sha r = rj_head_sha r' \<longrightarrow> r = r') \<and>
    (\<forall>r \<in> set (review_jobs db).
       (rj_status r = Running \<longrightarrow> rj_locked_by r \<noteq> None \<and> rj_locked_until r \<noteq> None) \<and>
       (rj_status r = Pending \<longrightarrow> rj_locked_by r = None) \<and>
       (\<forall>d. rj_delivery_id r = Some d \<longrightarrow> d \<in> fst ` set (github_deliveries db)))"
proof -
  have inv: "queue_ok db" using writers.inv_reachable [OF refl assms] by (simp add: base_inv_def)
  then have uniq: "distinct (List.map_filter active_head (review_jobs db))" "distinct (map rj_id (review_jobs db))"
    by (simp_all add: queue_ok_def jobs_unique_def one_active_head_def)
  have "r = r'" if r: "r \<in> set (review_jobs db)" "r' \<in> set (review_jobs db)"
    "rj_status r \<in> {Pending, Running}" "rj_status r' \<in> {Pending, Running}" "pr_key r \<noteq> None"
    "rj_head_sha r \<noteq> None" "pr_key r = pr_key r'" "rj_head_sha r = rj_head_sha r'" for r r'
  proof -
    obtain k where "active_head r = Some k" "active_head r' = Some k"
      using r(3-8) by (auto simp: active_head_def live_def)
    with distinct_map_filter_inj [OF uniq(1) r(1, 2)] show ?thesis by blast
  qed
  with inv uniq(2) show ?thesis
    by (auto simp: queue_ok_def row_ok_def deliveries_ok_def seen_delivery_def)
qed

theorem queue_invariant_of_all_writers_witness:
  "distinct (map rj_id (review_jobs
     (installed_db\<lparr>github_deliveries := [(''d1'', ''pull_request'')], review_jobs := [first_job]\<rparr>)))"
proof -
  let ?step = "any_step (\<lambda>_. []) id (\<lambda>_. [])"
  let ?db = "installed_db\<lparr>github_deliveries := [(''d1'', ''pull_request'')], review_jobs := [first_job]\<rparr>"
  have "?step empty_db installed_db"
    by (rule any_step.job, rule job_step.elsewhere) (simp_all add: installed_db_def)
  moreover have "?step installed_db ?db"
    by (rule any_step.job, rule job_step.queue, rule queue_step.enqueue, rule first_enqueue)
  ultimately have "?step\<^sup>*\<^sup>* empty_db ?db"
    using rtranclp.rtrancl_into_rtrancl [OF r_into_rtranclp, of ?step] by blast
  from queue_invariant_of_all_writers [OF this] show ?thesis by blast
qed



text \<open>C2. An unexpired lease is exclusive: whatever queue operation anybody performs before the lease of a
  running job ends, if the job is still running afterwards it is still held by the same worker.\<close>

theorem unexpired_lease_is_exclusive:
  assumes "(any_step repr hash sd)\<^sup>*\<^sup>* empty_db db" "r \<in> set (review_jobs db)" "rj_status r = Running"
    "rj_locked_by r = Some w" "rj_locked_until r = Some u" "now < u"
    "queue_step repr hash sd now db db'" "r' \<in> set (review_jobs db')" "rj_id r' = rj_id r" "rj_status r' = Running"
  shows "rj_locked_by r' = Some w"
proof -
  have inv: "base_inv db" using writers.inv_reachable [OF refl assms(1)] .
  then have ok: "queue_ok db" by (simp add: base_inv_def)
  have "shaped now (review_jobs db) (review_jobs db')" using queue_step_shaped [OF assms(7) ok] .
  then obtain p f new where s: "review_jobs db' = update_where p f (review_jobs db) @ new" "lease_kept now p f"
    "\<forall>x \<in> set new. rj_status x = Pending" by (auto simp: shaped_def)
  from assms(8, 10) s(1, 3) obtain x where x: "x \<in> set (review_jobs db)" "(p x \<and> r' = f x) \<or> (\<not> p x \<and> r' = x)"
    by (auto simp: in_update_where)
  with s(2) assms(9) have "rj_id x = rj_id r" by (auto simp: lease_kept_def)
  with unique_id [OF queue_unique [OF ok] x(1) assms(2)] have "x = r" by simp
  with x(2) s(2) assms(3-6, 10) show ?thesis by (auto simp: lease_kept_def)
qed

theorem unexpired_lease_is_exclusive_witness:
  "\<exists>db. lease 2 ''w'' first_job \<in> set (review_jobs db) \<and>
     (\<forall>r' \<in> set (review_jobs (snd (claim_review_job 3 {} ''v'' db))).
        rj_id r' = ''j1'' \<and> rj_status r' = Running \<longrightarrow> rj_locked_by r' = Some ''w'')"
proof -
  let ?step = "any_step (\<lambda>_. []) id (\<lambda>_. [])"
  let ?r = "lease 2 ''w'' first_job"
  let ?db1 = "installed_db\<lparr>github_deliveries := [(''d1'', ''pull_request'')], review_jobs := [first_job]\<rparr>"
  let ?db2 = "?db1\<lparr>review_jobs := [?r]\<rparr>"
  have "?step empty_db installed_db"
    by (rule any_step.job, rule job_step.elsewhere) (simp_all add: installed_db_def)
  moreover have "?step installed_db ?db1"
    by (rule any_step.job, rule job_step.queue, rule queue_step.enqueue, rule first_enqueue)
  moreover have "rj_status first_job = Pending" "rj_available_at first_job = 1"
    by (simp_all add: first_job_def) (simp add: enqueued_row_def new_review_job_def)
  then have "claim_review_job 2 {} ''w'' ?db1 = (Some ?r, ?db2)"
    by (simp add: claim_review_job_def next_job_def claimable_def)
  then have "?step ?db1 ?db2" by (intro any_step.job job_step.queue queue_step.claim)
  ultimately have run: "?step\<^sup>*\<^sup>* empty_db ?db2"
    by (meson rtranclp.rtrancl_into_rtrancl rtranclp.rtrancl_refl)
  obtain j db' where c: "claim_review_job 3 {} ''v'' ?db2 = (j, db')" by (meson surj_pair)
  have step: "queue_step (\<lambda>_. []) id (\<lambda>_. []) 3 ?db2 db'" by (rule queue_step.claim [OF c])
  have r: "?r \<in> set (review_jobs ?db2)" "rj_status ?r = Running" "rj_locked_by ?r = Some ''w''"
    "rj_locked_until ?r = Some (2 + minutes 5)" "rj_id ?r = ''j1''"
    by (simp_all add: review_job_lease_interval_def first_job_def)
  have "\<forall>r' \<in> set (review_jobs db'). rj_id r' = ''j1'' \<and> rj_status r' = Running \<longrightarrow> rj_locked_by r' = Some ''w''"
    using unexpired_lease_is_exclusive [OF run r(1-4) _ step] r(5) by auto
  with c r(1) show ?thesis by (intro exI [of _ ?db2]) auto
qed

end
