(* ===== verification/Hosted_Api.thy ===== *)
theory Hosted_Api
  imports Pairing Runner_Jobs
begin

text \<open>
  The HTTP surface of the hosted plane around the components: the GitHub webhook of
  \<^verbatim>\<open>control_plane/app.py\<close> and the runner routes of \<^verbatim>\<open>control_plane/pairing_api.py\<close>.  A handler
  returns its response, or the exception that leaves it, together with the database that the
  transactions it committed leave behind.
\<close>

section \<open>The webhook\<close>

definition max_webhook_body_bytes :: nat where
  "max_webhook_body_bytes = 1024 * 1024"

record webhook_request =
  wq_content_length :: "string option"
  wq_body :: string
  wq_signature :: string
  wq_delivery_id :: string
  wq_event :: string

type_synonym http_response = "nat \<times> string"

definition enqueue_text :: "enqueue_result \<Rightarrow> string" where
  "enqueue_text r = (case r of Enqueued \<Rightarrow> ''enqueued'' | Duplicate \<Rightarrow> ''duplicate'' | Ignored \<Rightarrow> ''ignored'')"

definition cancel_text :: "cancel_result \<Rightarrow> string" where
  "cancel_text r = (case r of Cancel_Cancelled \<Rightarrow> ''cancelled'' | Cancel_Duplicate \<Rightarrow> ''duplicate'')"

text \<open>The declared length is refused before the body is read.\<close>

definition declared_size_refused :: "string option \<Rightarrow> http_response option" where
  "declared_size_refused content_length =
     (case content_length of
        None \<Rightarrow> None
      | Some text \<Rightarrow>
          (case int_of_string text of
             Inl _ \<Rightarrow> Some (400, ''invalid content length'')
           | Inr n \<Rightarrow> if n > int max_webhook_body_bytes then Some (413, ''payload too large'') else None))"

definition enqueue_response ::
  "hosted_db \<Rightarrow> (enqueue_result \<times> hosted_db) result \<Rightarrow> http_response result \<times> hosted_db" where
  "enqueue_response db r =
     (case r of
        Inl e \<Rightarrow> (Inl e, db)
      | Inr (res, db') \<Rightarrow> (Inr (if res = Enqueued then 202 else 200, enqueue_text res), db'))"

definition processed :: "hosted_db \<times> unit result \<Rightarrow> http_response result \<times> hosted_db" where
  "processed r = (case r of (db', Inl e) \<Rightarrow> (Inl e, db') | (db', Inr _) \<Rightarrow> (Inr (200, ''processed''), db'))"

text \<open>Once the signature is accepted: the three event families.  \<open>ValidationError\<close> is a
  \<open>ValueError\<close>; an \<open>OverflowError\<close> of \<open>int\<close> is not caught.\<close>

definition route_event ::
  "(json \<Rightarrow> string) \<Rightarrow> (int \<Rightarrow> (int \<times> string) list result) \<Rightarrow> (nat \<Rightarrow> uuid) \<Rightarrow> timestamp \<Rightarrow> uuid \<Rightarrow> uuid \<Rightarrow>
   string \<Rightarrow> string \<Rightarrow> json \<Rightarrow> hosted_db \<Rightarrow> http_response result \<times> hosted_db" where
  "route_event repr list_repos fresh now new_id trace_id delivery_id event_name payload db =
     (if event_name = ''installation'' then processed (handle_installation_event list_repos fresh now payload db)
      else if event_name = ''installation_repositories'' then
        processed (handle_installation_repositories_event fresh payload db)
      else if event_name \<noteq> ''pull_request'' then
        enqueue_response db (enqueue_review_job repr now new_id trace_id delivery_id event_name payload db)
      else (case delivery_from_webhook repr delivery_id event_name payload of
              Inl e \<Rightarrow>
                if e \<in> {ValueError, TypeError, KeyError} then (Inr (400, ''incomplete pull_request payload''), db)
                else (Inl e, db)
            | Inr delivery \<Rightarrow>
                (case handle_pull_request_event delivery of
                   Ignore \<Rightarrow> (Inr (200, ''ignored''), db)
                 | Cancel \<Rightarrow> (case cancel_review_job now delivery db of (r, db') \<Rightarrow> (Inr (200, cancel_text r), db'))
                 | Enqueue \<Rightarrow>
                     enqueue_response db
                       (enqueue_review_job repr now new_id trace_id delivery_id event_name payload db))))"

text \<open>\<open>loads\<close> is the decoding of the body as JSON; \<open>hmac_sha256\<close> the keyed digest in hexadecimal.\<close>

definition github_webhook ::
  "(json \<Rightarrow> string) \<Rightarrow> (string \<Rightarrow> json result) \<Rightarrow> (string \<Rightarrow> string \<Rightarrow> string) \<Rightarrow> string \<Rightarrow>
   (int \<Rightarrow> (int \<times> string) list result) \<Rightarrow> (nat \<Rightarrow> uuid) \<Rightarrow> timestamp \<Rightarrow> uuid \<Rightarrow> uuid \<Rightarrow> webhook_request \<Rightarrow> hosted_db \<Rightarrow>
   http_response result \<times> hosted_db" where
  "github_webhook repr loads hmac_sha256 secret list_repos fresh now new_id trace_id q db =
     (case declared_size_refused (wq_content_length q) of
        Some resp \<Rightarrow> (Inr resp, db)
      | None \<Rightarrow>
          if length (wq_body q) > max_webhook_body_bytes then (Inr (413, ''payload too large''), db)
          else if wq_delivery_id q = [] \<or> wq_event q = [] then (Inr (400, ''missing github headers''), db)
          else if \<not> verify_github_signature hmac_sha256 (wq_body q) (wq_signature q) secret
            then (Inr (401, ''invalid signature''), db)
          else (case loads (wq_body q) of
                  Inl e \<Rightarrow> if e = ValueError then (Inr (400, ''malformed json''), db) else (Inl e, db)
                | Inr payload \<Rightarrow>
                    route_event repr list_repos fresh now new_id trace_id (wq_delivery_id q) (wq_event q) payload db))"

section \<open>The runner routes\<close>

definition create_pairing_code_route ::
  "(string \<Rightarrow> string) \<Rightarrow> timestamp \<Rightarrow> uuid \<Rightarrow> string \<Rightarrow> string \<Rightarrow> string \<Rightarrow> hosted_db \<Rightarrow> ((string \<times> timestamp) \<times> hosted_db) result" where
  "create_pairing_code_route hash now new_id code device_name challenge db =
     bind_r (create_pairing_code hash now new_id code device_name challenge db)
       (\<lambda>(c, db'). Inr ((pch_code c, pch_expires_at c), db'))"

definition pairing_status_route :: "(string \<Rightarrow> string) \<Rightarrow> timestamp \<Rightarrow> string \<Rightarrow> string \<Rightarrow> hosted_db \<Rightarrow> string" where
  "pairing_status_route hash now code challenge db =
     (case pairing_status hash now code challenge db of
        Pairing_Pending \<Rightarrow> ''pending''
      | Pairing_Exchangeable \<Rightarrow> ''exchangeable''
      | Pairing_Invalid_Or_Expired \<Rightarrow> ''invalid_or_expired'')"

definition exchange_pairing_code_route ::
  "(string \<Rightarrow> string) \<Rightarrow> timestamp \<Rightarrow> uuid \<Rightarrow> string \<Rightarrow> string \<Rightarrow> string \<Rightarrow> hosted_db \<Rightarrow> ((uuid \<times> string) \<times> hosted_db) result" where
  "exchange_pairing_code_route hash now new_runner_id credential code proof_text db =
     bind_r (exchange_pairing_code hash now new_runner_id credential code proof_text db) (\<lambda>(r, db').
       case r of
         Exchange_Denied \<Rightarrow> Inl (HTTPException 400 ''invalid_or_expired_code'')
       | Exchange_Refused repository holder name \<Rightarrow>
           Inl (HTTPException 409 (''repository already assigned to runner '' @ name @ '' ('' @ holder @
             ''); revoke it there first''))
       | Exchanged runner_id c \<Rightarrow> Inr ((runner_id, c), db'))"

text \<open>The credential that authenticated the request is also the one the rotation checks again.\<close>

definition rotate_runner_credential_route ::
  "(string \<Rightarrow> string) \<Rightarrow> string \<Rightarrow> string option \<Rightarrow> hosted_db \<Rightarrow> (uuid \<times> string) result \<times> hosted_db" where
  "rotate_runner_credential_route hash new_credential authorization db =
     (case authenticate_bearer hash authorization db of
        Inl e \<Rightarrow> (Inl e, db)
      | Inr runner \<Rightarrow>
          (case rotate_runner_credential hash new_credential (ar_runner_id runner)
                  (drop (length bearer_prefix) (the authorization)) db of
             (Inl Unknown_Credential, db') \<Rightarrow> (Inl (HTTPException 401 ''unknown_credential''), db')
           | (Inl Credential_Revoked_Runner, db') \<Rightarrow> (Inl (HTTPException 401 ''revoked_runner''), db')
           | (Inr c, db') \<Rightarrow> (Inr c, db')))"

record runner_installation_snapshot =
  sn_github_login :: string
  sn_github_user_id :: int
  sn_installation_id :: int
  sn_repositories :: "(int \<times> string) list"

text \<open>\<^verbatim>\<open>xs left join ys on p\<close>: a row without a partner is kept with \<open>None\<close>.\<close>

definition left_join :: "('a \<Rightarrow> 'b \<Rightarrow> bool) \<Rightarrow> 'a list \<Rightarrow> 'b list \<Rightarrow> ('a \<times> 'b option) list" where
  "left_join p xs ys =
     concat (map (\<lambda>x. case filter (p x) ys of [] \<Rightarrow> [(x, None)] | ms \<Rightarrow> map (\<lambda>y. (x, Some y)) ms) xs)"

text \<open>The joined rows of a runner; repositories of another installation are joined away, and the
  order puts the missing ones last.\<close>

definition snapshot_rows :: "uuid \<Rightarrow> hosted_db \<Rightarrow> ((runner_row \<times> installation_row) \<times> repository_row option) list" where
  "snapshot_rows runner_id db =
     (let base = filter (\<lambda>(run, i). rn_id run = runner_id \<and> rn_installation_id run = Some (in_id i) \<and>
                    in_revoked_at i = None) (List.product (runners db) (installations db));
          with_assignments = left_join (\<lambda>(run, i) a. as_runner_id a = rn_id run) base (repository_assignments db);
          rows = left_join (\<lambda>((run, i), a) r. (case a of None \<Rightarrow> False | Some x \<Rightarrow> as_repository_id x = rp_id r) \<and>
                    rn_installation_id run = Some (rp_installation_id r)) with_assignments (repositories db)
      in sort_key (\<lambda>(b, r). case r of None \<Rightarrow> (True, 0) | Some x \<Rightarrow> (False, rp_github_repository_id x))
           (map (\<lambda>((b, a), r). (b, r)) rows))"

definition runner_installation_route ::
  "(string \<Rightarrow> string) \<Rightarrow> string option \<Rightarrow> hosted_db \<Rightarrow> runner_installation_snapshot result" where
  "runner_installation_route hash authorization db =
     bind_r (authenticate_bearer hash authorization db) (\<lambda>runner.
       case snapshot_rows (ar_runner_id runner) db of
         [] \<Rightarrow> Inl (HTTPException 404 ''runner installation is unavailable'')
       | ((run, inst), r) # rest \<Rightarrow>
           (case rn_github_user_id run of
              None \<Rightarrow> Inl (HTTPException 404 ''runner installation is unavailable'')
            | Some user \<Rightarrow>
                Inr \<lparr>sn_github_login = in_account_login inst, sn_github_user_id = user,
                  sn_installation_id = in_id inst,
                  sn_repositories = List.map_filter (\<lambda>(b, r). map_option (\<lambda>x. (rp_github_repository_id x, rp_name x)) r)
                    (((run, inst), r) # rest)\<rparr>))"

definition issue_installation_token_route ::
  "(string \<Rightarrow> string) \<Rightarrow> (int \<Rightarrow> int list \<Rightarrow> (string \<times> string) list \<Rightarrow> (string \<times> timestamp) result) \<Rightarrow>
   int \<Rightarrow> string option \<Rightarrow> hosted_db \<Rightarrow> (string \<times> timestamp) result" where
  "issue_installation_token_route hash mint installation_id authorization db =
     bind_r (authenticate_bearer hash authorization db) (\<lambda>runner.
       case issue_runner_installation_token mint (ar_runner_id runner) installation_id db of
         Inl InstallationTokenDenied \<Rightarrow> Inl (HTTPException 403 ''installation_not_assigned'')
       | r \<Rightarrow> r)"

section \<open>The webhook is authentic and idempotent\<close>

lemma enqueue_then_duplicate:
  assumes "enqueue_review_job repr now nid tid did ''pull_request'' payload db = Inr (res, db')"
  shows "\<exists>res'. enqueue_review_job repr now' nid' tid' did ''pull_request'' payload db' = Inr (res', db')"
proof -
  from assms obtain identity where i: "pull_request_identity repr payload = Inr identity"
    by (auto simp: enqueue_review_job_def bind_r_Inr)
  have "seen_delivery did db'"
    using assms i by (auto simp: enqueue_review_job_def seen_delivery_def store_jobs_Inr bind_r_Inr Let_def
        split: if_splits option.splits)
  with i show ?thesis by (simp add: enqueue_review_job_def)
qed

lemma cancel_then_duplicate:
  "cancel_review_job now d db = (r, db') \<Longrightarrow> snd (cancel_review_job now' d db') = db'"
  by (auto simp: cancel_review_job_def seen_delivery_def split: if_splits)

lemma route_event_again:
  assumes "route_event repr ls fresh now nid tid did ''pull_request'' payload db = (r, db')" "db' \<noteq> db"
  shows "snd (route_event repr ls fresh now' nid' tid' did ''pull_request'' payload db') = db'"
proof (cases "delivery_from_webhook repr did ''pull_request'' payload")
  case (Inl e)
  with assms show ?thesis by (simp add: route_event_def split: if_splits)
next
  case d: (Inr d)
  show ?thesis
  proof (cases "handle_pull_request_event d")
    case Enqueue
    then have "\<exists>res. enqueue_review_job repr now nid tid did ''pull_request'' payload db = Inr (res, db')"
      using assms d by (auto simp: route_event_def enqueue_response_def split: sum.splits)
    then obtain res' where "enqueue_review_job repr now' nid' tid' did ''pull_request'' payload db' = Inr (res', db')"
      using enqueue_then_duplicate by blast
    with d Enqueue show ?thesis by (simp add: route_event_def enqueue_response_def)
  next
    case Ignore
    with assms d show ?thesis by (simp add: route_event_def)
  next
    case Cancel
    then obtain c where "cancel_review_job now d db = (c, db')"
      using assms d by (auto simp: route_event_def split: prod.splits)
    from cancel_then_duplicate [OF this, of now'] Cancel d show ?thesis
      by (cases "cancel_review_job now' d db'") (simp add: route_event_def)
  qed
qed

lemma route_event_other:
  "ev \<notin> {''installation'', ''installation_repositories'', ''pull_request''} \<Longrightarrow>
   snd (route_event repr ls fresh now nid tid did ev payload db) = db"
  by (simp add: route_event_def enqueue_review_job_def enqueue_response_def)

lemma signature_sound:
  assumes "verify_github_signature hmac body sig secret"
  shows "secret \<noteq> [] \<and> (\<exists>hex. sig = ''sha256='' @ hex \<and> length hex = 64 \<and> py_lower hex = hmac secret body)"
proof -
  from assms have "secret \<noteq> []" and p: "startswith sig signature_prefix"
    and l: "length (drop (length signature_prefix) sig) = 64"
    and h: "py_lower (drop (length signature_prefix) sig) = hmac secret body"
    by (auto simp: verify_github_signature_def Let_def split: if_splits)
  from p have "sig = signature_prefix @ drop (length signature_prefix) sig"
    by (rule startswith_dest)
  with l h \<open>secret \<noteq> []\<close> show ?thesis unfolding signature_prefix_def by blast
qed

lemma webhook_writes:
  assumes "github_webhook repr loads hmac secret ls fresh now nid tid q db = (r, db')" "db' \<noteq> db"
  shows "declared_size_refused (wq_content_length q) = None \<and> length (wq_body q) \<le> max_webhook_body_bytes \<and>
    verify_github_signature hmac (wq_body q) (wq_signature q) secret \<and> wq_delivery_id q \<noteq> [] \<and> wq_event q \<noteq> [] \<and>
    (\<exists>payload. loads (wq_body q) = Inr payload \<and>
      route_event repr ls fresh now nid tid (wq_delivery_id q) (wq_event q) payload db = (r, db'))"
  using assms by (auto simp: github_webhook_def split: option.splits if_splits sum.splits)

text \<open>C12. Nothing unauthenticated is written: a webhook request changes the database only when its body
  is within the size limit and its signature is the keyed digest of that very body under a configured
  secret, and only for the three event families the application handles; and delivering the same pull
  request webhook again, at any later time, changes nothing.\<close>

theorem webhook_authentic_and_idempotent:
  assumes "github_webhook repr loads hmac secret ls fresh now nid tid q db = (r, db')" "db' \<noteq> db"
  shows "secret \<noteq> [] \<and> length (wq_body q) \<le> 1024 * 1024 \<and>
    (\<exists>hex. wq_signature q = ''sha256='' @ hex \<and> length hex = 64 \<and> py_lower hex = hmac secret (wq_body q)) \<and>
    wq_event q \<in> {''installation'', ''installation_repositories'', ''pull_request''} \<and>
    (wq_event q = ''pull_request'' \<longrightarrow>
       snd (github_webhook repr loads hmac secret ls fresh now' nid' tid' q db') = db')"
proof -
  from webhook_writes [OF assms] obtain payload where
    size: "declared_size_refused (wq_content_length q) = None" "length (wq_body q) \<le> max_webhook_body_bytes"
    and sig: "verify_github_signature hmac (wq_body q) (wq_signature q) secret"
    and hdr: "wq_delivery_id q \<noteq> []" "wq_event q \<noteq> []"
    and p: "loads (wq_body q) = Inr payload"
    and route: "route_event repr ls fresh now nid tid (wq_delivery_id q) (wq_event q) payload db = (r, db')"
    by blast
  have ev: "wq_event q \<in> {''installation'', ''installation_repositories'', ''pull_request''}"
    using route_event_other [of "wq_event q" repr ls fresh now nid tid "wq_delivery_id q" payload db] route assms(2)
    by (metis snd_conv)
  have "snd (github_webhook repr loads hmac secret ls fresh now' nid' tid' q db') = db'"
    if pr: "wq_event q = ''pull_request''"
  proof -
    have "github_webhook repr loads hmac secret ls fresh now' nid' tid' q db' =
        route_event repr ls fresh now' nid' tid' (wq_delivery_id q) ''pull_request'' payload db'"
      using size sig hdr p pr by (simp add: github_webhook_def)
    with route_event_again [OF route [unfolded pr] assms(2)] show ?thesis by simp
  qed
  with signature_sound [OF sig] size ev show ?thesis by (simp add: max_webhook_body_bytes_def)
qed

text \<open>A pull request opened on a registered installation.\<close>

definition sample_payload :: json where
  "sample_payload = JObj [(''action'', JStr ''opened''), (''installation'', JObj [(''id'', JInt 7)]),
     (''repository'', JObj [(''id'', JInt 9), (''name'', JStr ''r''), (''owner'', JObj [(''login'', JStr ''o'')])]),
     (''pull_request'', JObj [(''number'', JInt 3), (''draft'', JBool False),
        (''base'', JObj [(''sha'', JStr ''b'')]), (''head'', JObj [(''sha'', JStr ''h'')])])]"

definition sample_request :: webhook_request where
  "sample_request = \<lparr>wq_content_length = Some ''2'', wq_body = ''{}'',
     wq_signature = ''sha256='' @ replicate 64 CHR ''a'', wq_delivery_id = ''d1'', wq_event = ''pull_request''\<rparr>"

abbreviation sample_webhook :: "timestamp \<Rightarrow> uuid \<Rightarrow> uuid \<Rightarrow> hosted_db \<Rightarrow> http_response result \<times> hosted_db" where
  "sample_webhook now nid tid db \<equiv>
     github_webhook (\<lambda>v. []) (\<lambda>b. Inr sample_payload) (\<lambda>s b. replicate 64 CHR ''a'') ''k'' (\<lambda>i. Inr []) (\<lambda>n. ''x'')
       now nid tid sample_request db"

lemma sample_digest:
  "verify_github_signature (\<lambda>s b. replicate 64 CHR ''a'') ''{}'' (''sha256='' @ replicate 64 CHR ''a'') ''k''"
  by code_simp

lemma sample_delivery:
  "\<exists>d. delivery_from_webhook (\<lambda>v. []) ''d1'' ''pull_request'' sample_payload = Inr d \<and> handle_pull_request_event d = Enqueue"
  by (simp add: delivery_from_webhook_def sample_payload_def make_repository_identity_def make_pull_request_ref_def
      make_github_delivery_def handle_pull_request_event_def cancel_actions_def enqueue_actions_def)

lemma sample_enqueue:
  "\<exists>db'. enqueue_review_job (\<lambda>v. []) 1 ''j1'' ''t1'' ''d1'' ''pull_request'' sample_payload tenant_db = Inr (Enqueued, db') \<and>
      github_deliveries db' = [(''d1'', ''pull_request'')]"
  by (simp add: enqueue_review_job_def pull_request_identity_def sample_payload_def tenant_db_def empty_db_def
      seen_delivery_def fetchone_def store_jobs_def jobs_unique_def one_active_head_def retire_live_def map_filter_simps
      in_integer_def in_bigint_def Let_def split: option.split)

lemma sample_webhook_accepted:
  "sample_webhook now nid tid db =
     route_event (\<lambda>v. []) (\<lambda>i. Inr []) (\<lambda>n. ''x'') now nid tid ''d1'' ''pull_request'' sample_payload db"
proof -
  have "int_of_string ''2'' = Inr 2" by code_simp
  then have "declared_size_refused (wq_content_length sample_request) = None"
    "\<not> length (wq_body sample_request) > max_webhook_body_bytes"
    by (simp_all add: declared_size_refused_def sample_request_def max_webhook_body_bytes_def)
  moreover have "verify_github_signature (\<lambda>s b. replicate 64 CHR ''a'') (wq_body sample_request) (wq_signature sample_request) ''k''"
    unfolding sample_request_def using sample_digest by simp
  moreover have "wq_delivery_id sample_request = ''d1''" "wq_event sample_request = ''pull_request''"
    by (simp_all add: sample_request_def)
  ultimately show ?thesis unfolding github_webhook_def by simp
qed

lemma sample_webhook_enqueues:
  "github_deliveries (snd (sample_webhook 1 ''j1'' ''t1'' tenant_db)) = [(''d1'', ''pull_request'')]"
proof -
  from sample_delivery obtain d where "delivery_from_webhook (\<lambda>v. []) ''d1'' ''pull_request'' sample_payload = Inr d"
    "handle_pull_request_event d = Enqueue" by blast
  moreover from sample_enqueue obtain db' where
    "enqueue_review_job (\<lambda>v. []) 1 ''j1'' ''t1'' ''d1'' ''pull_request'' sample_payload tenant_db = Inr (Enqueued, db')"
    "github_deliveries db' = [(''d1'', ''pull_request'')]" by blast
  ultimately show ?thesis unfolding sample_webhook_accepted by (simp add: route_event_def enqueue_response_def)
qed
theorem webhook_authentic_and_idempotent_witness:
  "\<exists>r db'. sample_webhook 1 ''j1'' ''t1'' tenant_db = (r, db') \<and> db' \<noteq> tenant_db \<and>
      snd (sample_webhook 2 ''j2'' ''t2'' db') = db'"
proof -
  obtain r db' where w: "sample_webhook 1 ''j1'' ''t1'' tenant_db = (r, db')" by fastforce
  with sample_webhook_enqueues have "db' \<noteq> tenant_db" by (auto simp: tenant_db_def empty_db_def)
  with w webhook_authentic_and_idempotent [OF w this, of 2 "''j2''" "''t2''"] show ?thesis
    by (auto simp: sample_request_def)
qed

end
