(* ===== verification/Budgets.thy ===== *)
theory Budgets
  imports Review_Projection
begin

text \<open>
  Spending limits and the cost ledger of the hosted plane: the policy of \<^verbatim>\<open>reliability/budget.py\<close>
  (unset means deny), the reservations of \<^verbatim>\<open>control_plane/budget.py\<close> against the repository's
  budget row, and \<^verbatim>\<open>events/record_model_call.py\<close>.  Costs are exact rationals, rounded to the
  scale of their \<open>numeric\<close> column when they are stored.
\<close>

section \<open>The policy\<close>

record budget_limit =
  bl_max_tokens :: "int option"
  bl_max_cost_usd :: "usd option"

definition is_configured :: "budget_limit option \<Rightarrow> bool" where
  "is_configured limit =
     (case limit of
        None \<Rightarrow> False
      | Some l \<Rightarrow> (case (bl_max_tokens l, bl_max_cost_usd l) of
                     (Some t, Some c) \<Rightarrow> 0 < t \<and> 0 < c
                   | _ \<Rightarrow> False))"

definition require_configured :: "budget_limit option \<Rightarrow> budget_limit result" where
  "require_configured limit =
     (if \<not> is_configured limit then Inl (BudgetDenied ''unset'')
      else case limit of None \<Rightarrow> Inl AssertionError | Some l \<Rightarrow> Inr l)"

section \<open>Columns\<close>

text \<open>\<open>numeric(18, 6)\<close>: six decimals, rounded half away from zero, below \<open>10 ^ 12\<close>.\<close>

definition numeric_18_6 :: "rat \<Rightarrow> rat" where
  "numeric_18_6 q =
     (if q < 0 then - (of_int \<lfloor>- q * 1000000 + 1 / 2\<rfloor> / 1000000) else of_int \<lfloor>q * 1000000 + 1 / 2\<rfloor> / 1000000)"

definition fits_18_6 :: "rat \<Rightarrow> bool" where
  "fits_18_6 q \<longleftrightarrow> \<bar>numeric_18_6 q\<bar> < 10 ^ 12"

section \<open>Repository budgets\<close>

definition budget_key :: "int \<Rightarrow> int \<Rightarrow> budget_row \<Rightarrow> bool" where
  "budget_key i g b \<longleftrightarrow> bu_installation_id b = i \<and> bu_github_repository_id b = g"

definition configured_row :: "budget_row \<Rightarrow> bool" where
  "configured_row b = is_configured (Some \<lparr>bl_max_tokens = bu_max_tokens b, bl_max_cost_usd = bu_max_cost_usd b\<rparr>)"

definition upsert_repository_budget ::
  "int \<Rightarrow> int \<Rightarrow> int option \<Rightarrow> usd option \<Rightarrow> hosted_db \<Rightarrow> hosted_db result" where
  "upsert_repository_budget installation_id github_repository_id max_tokens max_cost_usd db =
     (if \<not> pred_option in_integer max_tokens \<or> \<not> pred_option fits_18_6 max_cost_usd then Inl DataError
      else if fetchone (budget_key installation_id github_repository_id) (repository_budgets db) \<noteq> None
      then Inr (db\<lparr>repository_budgets := update_where (budget_key installation_id github_repository_id)
             (\<lambda>b. b\<lparr>bu_max_tokens := max_tokens, bu_max_cost_usd := map_option numeric_18_6 max_cost_usd\<rparr>)
             (repository_budgets db)\<rparr>)
      else if installation_id \<notin> in_id ` set (installations db) then Inl ForeignKeyViolation
      else Inr (db\<lparr>repository_budgets := repository_budgets db @
             [\<lparr>bu_installation_id = installation_id, bu_github_repository_id = github_repository_id,
               bu_max_tokens = max_tokens, bu_max_cost_usd = map_option numeric_18_6 max_cost_usd,
               bu_reserved_tokens = 0, bu_reserved_cost_usd = 0, bu_spent_tokens = 0, bu_spent_cost_usd = 0\<rparr>]\<rparr>))"

definition has_room :: "int \<Rightarrow> usd \<Rightarrow> budget_row \<Rightarrow> bool" where
  "has_room tokens cost_usd b \<longleftrightarrow>
     (case bu_max_tokens b of None \<Rightarrow> False | Some t \<Rightarrow> bu_reserved_tokens b + bu_spent_tokens b + tokens \<le> t) \<and>
     (case bu_max_cost_usd b of None \<Rightarrow> False | Some c \<Rightarrow> bu_reserved_cost_usd b + bu_spent_cost_usd b + cost_usd \<le> c)"

text \<open>Two \<open>integer\<close> operands are added at that width, so a sum beyond it raises; a wider parameter
  makes the sum a \<open>bigint\<close>.\<close>

definition sum_overflows :: "int \<Rightarrow> budget_row \<Rightarrow> bool" where
  "sum_overflows tokens b \<longleftrightarrow> in_integer tokens \<and>
     (\<not> in_integer (bu_reserved_tokens b + bu_spent_tokens b) \<or>
      \<not> in_integer (bu_reserved_tokens b + bu_spent_tokens b + tokens))"

definition reserve_row :: "int \<Rightarrow> usd \<Rightarrow> budget_row \<Rightarrow> budget_row" where
  "reserve_row tokens cost_usd b =
     b\<lparr>bu_reserved_tokens := bu_reserved_tokens b + tokens,
       bu_reserved_cost_usd := numeric_18_6 (bu_reserved_cost_usd b + cost_usd)\<rparr>"

definition holds :: "uuid \<Rightarrow> reservation_row \<Rightarrow> bool" where
  "holds job_id r \<longleftrightarrow> rs_job_id r = job_id \<and> rs_status r = Held"

definition reserve_repository_budget ::
  "int \<Rightarrow> int \<Rightarrow> uuid \<Rightarrow> int \<Rightarrow> usd \<Rightarrow> hosted_db \<Rightarrow> hosted_db result" where
  "reserve_repository_budget installation_id github_repository_id job_id tokens cost_usd db =
     (let open_row = (\<lambda>b. budget_key installation_id github_repository_id b \<and> configured_row b);
          roomy = (\<lambda>b. open_row b \<and> has_room tokens cost_usd b)
      in if fetchone (holds job_id) (repository_budget_reservations db) \<noteq> None then Inr db
      else if fetchone (\<lambda>b. open_row b \<and> sum_overflows tokens b) (repository_budgets db) \<noteq> None then Inl DataError
      else case fetchone roomy (repository_budgets db) of
        None \<Rightarrow>
          Inl (BudgetDenied (if fetchone open_row (repository_budgets db) = None then ''unset'' else ''insufficient''))
      | Some b \<Rightarrow>
          if \<not> in_integer (bu_reserved_tokens b + tokens) \<or> \<not> fits_18_6 (bu_reserved_cost_usd b + cost_usd) \<or>
             \<not> in_integer tokens \<or> \<not> fits_18_6 cost_usd then Inl DataError
          else if bu_reserved_tokens b + tokens < 0 \<or> numeric_18_6 (bu_reserved_cost_usd b + cost_usd) < 0 \<or>
             tokens < 0 \<or> numeric_18_6 cost_usd < 0 then Inl CheckViolation
          else if job_id \<in> rs_job_id ` set (repository_budget_reservations db) then Inl UniqueViolation
          else Inr (db\<lparr>repository_budgets := update_where roomy (reserve_row tokens cost_usd) (repository_budgets db),
                 repository_budget_reservations := repository_budget_reservations db @
                   [\<lparr>rs_job_id = job_id, rs_installation_id = installation_id,
                     rs_github_repository_id = github_repository_id, rs_tokens = tokens,
                     rs_cost_usd = numeric_18_6 cost_usd, rs_status = Held\<rparr>]\<rparr>))"

definition release_row :: "reservation_row \<Rightarrow> budget_row \<Rightarrow> budget_row" where
  "release_row r b =
     b\<lparr>bu_reserved_tokens := bu_reserved_tokens b - rs_tokens r,
       bu_reserved_cost_usd := numeric_18_6 (bu_reserved_cost_usd b - rs_cost_usd r)\<rparr>"

definition release_repository_reservation :: "uuid \<Rightarrow> hosted_db \<Rightarrow> hosted_db result" where
  "release_repository_reservation job_id db =
     (case fetchone (holds job_id) (repository_budget_reservations db) of
        None \<Rightarrow> Inr db
      | Some r \<Rightarrow>
          let rows = update_where (budget_key (rs_installation_id r) (rs_github_repository_id r)) (release_row r)
                (repository_budgets db)
          in if \<exists>b \<in> set rows. bu_reserved_tokens b < 0 \<or> bu_reserved_cost_usd b < 0 then Inl CheckViolation
             else Inr (db\<lparr>repository_budget_reservations :=
                      update_where (holds job_id) (\<lambda>x. x\<lparr>rs_status := Released\<rparr>) (repository_budget_reservations db),
                    repository_budgets := rows\<rparr>))"

section \<open>The model call ledger\<close>

record model_call_input =
  mi_review_job_id :: uuid
  mi_provider :: string
  mi_model :: string
  mi_prompt_version_id :: uuid
  mi_input_tokens :: int
  mi_output_tokens :: int
  mi_cost_usd :: string
  mi_latency_ms :: int

text \<open>\<^verbatim>\<open>^(?:0|[1-9]\d{0,5})(?:\.\d{1,12})?$\<close> matched against the whole string.\<close>

definition cost_usd_pattern :: "string \<Rightarrow> bool" where
  "cost_usd_pattern s =
     (let whole = takeWhile is_digit s; rest = dropWhile is_digit s
      in (whole = ''0'' \<or> (whole \<noteq> [] \<and> hd whole \<noteq> CHR ''0'' \<and> length whole \<le> 6)) \<and>
         (rest = [] \<or> (hd rest = CHR ''.'' \<and> list_all is_digit (tl rest) \<and> 1 \<le> length (tl rest) \<and> length (tl rest) \<le> 12)))"

text \<open>\<open>%s::numeric\<close> of such a string.\<close>

definition decimal_value :: "string \<Rightarrow> rat" where
  "decimal_value s =
     (let whole = takeWhile is_digit s; frac = tl (dropWhile is_digit s)
      in of_nat (read_nat whole) + of_nat (read_nat frac) / 10 ^ length frac)"

definition validate_model_call_input :: "model_call_input \<Rightarrow> unit result" where
  "validate_model_call_input v =
     (if mi_input_tokens v < 0 \<or> mi_output_tokens v < 0 \<or> mi_latency_ms v < 0 \<or> \<not> cost_usd_pattern (mi_cost_usd v)
      then Inl TypeError else Inr ())"

definition model_call_payload :: "uuid \<Rightarrow> model_call_input \<Rightarrow> json" where
  "model_call_payload call_id v =
     JObj [(''modelCallId'', JStr call_id), (''provider'', JStr (mi_provider v)), (''model'', JStr (mi_model v)),
       (''promptVersionId'', JStr (mi_prompt_version_id v)), (''inputTokens'', JInt (mi_input_tokens v)),
       (''outputTokens'', JInt (mi_output_tokens v)), (''costUsd'', JStr (mi_cost_usd v)),
       (''latencyMs'', JInt (mi_latency_ms v))]"

text \<open>\<open>prompt_versions\<close> are the identifiers of the registered prompts, a table of its own.\<close>

definition record_model_call ::
  "timestamp \<Rightarrow> uuid \<Rightarrow> uuid set \<Rightarrow> model_call_input \<Rightarrow> hosted_db \<Rightarrow> hosted_db result" where
  "record_model_call now new_id prompt_versions v db =
     bind_r (validate_model_call_input v) (\<lambda>_.
       if \<not> (in_integer (mi_input_tokens v) \<and> in_integer (mi_output_tokens v) \<and> in_integer (mi_latency_ms v))
       then Inl DataError
       else if new_id \<in> mc_id ` set (model_calls db) then Inl UniqueViolation
       else if mi_review_job_id v \<notin> rj_id ` set (review_jobs db) \<or> mi_prompt_version_id v \<notin> prompt_versions
       then Inl ForeignKeyViolation
       else let db1 = db\<lparr>model_calls := model_calls db @
              [\<lparr>mc_id = new_id, mc_review_job_id = mi_review_job_id v, mc_prompt_version_id = mi_prompt_version_id v,
                mc_provider = mi_provider v, mc_model_name = mi_model v, mc_input_tokens = mi_input_tokens v,
                mc_output_tokens = mi_output_tokens v, mc_cost_usd = decimal_value (mi_cost_usd v),
                mc_latency_ms = mi_latency_ms v, mc_created_at = now\<rparr>]\<rparr>
       in insert_event now (Some (mi_review_job_id v)) ''model_call.recorded'' (model_call_payload new_id v) db1)"

section \<open>Rounding\<close>

definition is_micro :: "rat \<Rightarrow> bool" where
  "is_micro q \<longleftrightarrow> (\<exists>k::int. q = of_int k / 1000000)"

lemma is_micro_intros [intro, simp]:
  "is_micro 0" "is_micro p \<Longrightarrow> is_micro q \<Longrightarrow> is_micro (p + q)" "is_micro p \<Longrightarrow> is_micro q \<Longrightarrow> is_micro (p - q)"
proof -
  show "is_micro 0" unfolding is_micro_def by (rule exI [of _ 0]) simp
  show "is_micro p \<Longrightarrow> is_micro q \<Longrightarrow> is_micro (p + q)" unfolding is_micro_def
    by (metis add_divide_distrib of_int_add)
  show "is_micro p \<Longrightarrow> is_micro q \<Longrightarrow> is_micro (p - q)" unfolding is_micro_def
    by (metis diff_divide_distrib of_int_diff)
qed

lemma is_micro_numeric [simp]: "is_micro (numeric_18_6 q)"
proof (cases "q < 0")
  case True
  then have "numeric_18_6 q = of_int (- \<lfloor>- q * 1000000 + 1 / 2\<rfloor>) / 1000000" by (simp add: numeric_18_6_def)
  then show ?thesis unfolding is_micro_def by blast
next
  case False
  then show ?thesis unfolding is_micro_def numeric_18_6_def by auto
qed

lemma round_micro: "\<lfloor>of_int k + 1 / 2 :: rat\<rfloor> = k"
  by (simp add: floor_unique)

lemma numeric_nonneg: "0 \<le> q \<Longrightarrow> 0 \<le> numeric_18_6 q"
  by (simp add: numeric_18_6_def)

text \<open>Storing a sum of a stored amount and a new one adds the new one as it is stored by itself.\<close>

lemma numeric_add:
  assumes "is_micro r" "0 \<le> r" "0 \<le> c"
  shows "numeric_18_6 (r + c) = r + numeric_18_6 c"
proof -
  from assms(1) obtain k :: int where k: "r = of_int k / 1000000" unfolding is_micro_def by blast
  have "(r + c) * 1000000 + 1 / 2 = (c * 1000000 + 1 / 2) + of_int k" by (simp add: k algebra_simps)
  then have "\<lfloor>(r + c) * 1000000 + 1 / 2\<rfloor> = \<lfloor>c * 1000000 + 1 / 2\<rfloor> + k" by (simp only: floor_add_int [symmetric])
  with assms(2,3) show ?thesis by (simp add: numeric_18_6_def k add_divide_distrib)
qed

lemma numeric_zero [simp]: "numeric_18_6 0 = 0"
  using round_micro [of 0] by (simp add: numeric_18_6_def)

lemma numeric_micro: "is_micro q \<Longrightarrow> 0 \<le> q \<Longrightarrow> numeric_18_6 q = q"
  using numeric_add [of q 0] by simp

lemma numeric_le:
  assumes "is_micro m" "q \<le> m"
  shows "numeric_18_6 q \<le> m"
proof -
  from assms(1) obtain k :: int where k: "m = of_int k / 1000000" unfolding is_micro_def by blast
  show ?thesis
  proof (cases "q < 0")
    case True
    have "of_int (- k) + 1 / 2 \<le> - q * 1000000 + 1 / 2" using assms(2) by (simp add: k field_simps)
    from floor_mono [OF this] have "- k \<le> \<lfloor>- q * 1000000 + 1 / 2\<rfloor>" by (simp only: round_micro)
    then have "rat_of_int (- k) \<le> of_int \<lfloor>- q * 1000000 + 1 / 2\<rfloor>" by (simp only: of_int_le_iff)
    with True show ?thesis by (simp add: numeric_18_6_def k)
  next
    case False
    have "q * 1000000 + 1 / 2 \<le> of_int k + 1 / 2" using assms(2) by (simp add: k field_simps)
    from floor_mono [OF this] have "\<lfloor>q * 1000000 + 1 / 2\<rfloor> \<le> k" by (simp only: round_micro)
    with False show ?thesis by (simp add: numeric_18_6_def k divide_right_mono)
  qed
qed

text \<open>An amount that is stored as a non-negative one is negative by less than half a unit at most.\<close>

lemma numeric_add_stored:
  assumes "is_micro r" "0 \<le> r" "0 \<le> numeric_18_6 c"
  shows "numeric_18_6 (r + c) = r + numeric_18_6 c"
proof (cases "0 \<le> c")
  case True
  with assms show ?thesis by (simp add: numeric_add)
next
  case False
  let ?f = "\<lfloor>- c * 1000000 + 1 / 2\<rfloor>"
  from False assms(3) have "?f \<le> 0" by (simp add: numeric_18_6_def)
  moreover from False have "0 \<le> ?f" by simp
  ultimately have f: "?f = 0" by (rule antisym)
  then have c0: "numeric_18_6 c = 0" using False by (simp add: numeric_18_6_def)
  from f have small: "- c * 1000000 < 1 / 2" by linarith
  from assms(1) obtain k :: int where k: "r = of_int k / 1000000" unfolding is_micro_def by blast
  show ?thesis
  proof (cases "k = 0")
    case True
    with c0 k show ?thesis by simp
  next
    case False
    with assms(2) k have "1 \<le> k" by simp
    then have "(1::rat) \<le> of_int k" by simp
    then have pos: "0 \<le> r + c" using small by (simp add: k field_simps)
    have "\<lfloor>(r + c) * 1000000 + 1 / 2\<rfloor> = k"
      using small \<open>\<not> 0 \<le> c\<close> by (intro floor_unique) (simp_all add: k field_simps)
    with pos c0 show ?thesis by (simp add: numeric_18_6_def k)
  qed
qed

section \<open>The ledger of reservations\<close>

definition bud_key :: "budget_row \<Rightarrow> int \<times> int" where
  "bud_key b = (bu_installation_id b, bu_github_repository_id b)"

definition res_key :: "reservation_row \<Rightarrow> int \<times> int" where
  "res_key r = (rs_installation_id r, rs_github_repository_id r)"

definition held_for :: "int \<times> int \<Rightarrow> reservation_row list \<Rightarrow> reservation_row list" where
  "held_for k = filter (\<lambda>r. rs_status r = Held \<and> res_key r = k)"

definition held_tokens :: "int \<times> int \<Rightarrow> reservation_row list \<Rightarrow> int" where
  "held_tokens k res = sum_list (map rs_tokens (held_for k res))"

definition held_cost :: "int \<times> int \<Rightarrow> reservation_row list \<Rightarrow> usd" where
  "held_cost k res = sum_list (map rs_cost_usd (held_for k res))"

definition reservation_ok :: "budget_row list \<Rightarrow> reservation_row \<Rightarrow> bool" where
  "reservation_ok buds r \<longleftrightarrow> 0 \<le> rs_tokens r \<and> 0 \<le> rs_cost_usd r \<and> is_micro (rs_cost_usd r) \<and>
     (rs_status r = Held \<longrightarrow> res_key r \<in> bud_key ` set buds)"

definition budget_ok :: "reservation_row list \<Rightarrow> budget_row \<Rightarrow> bool" where
  "budget_ok res b \<longleftrightarrow> bu_reserved_tokens b = held_tokens (bud_key b) res \<and>
     bu_reserved_cost_usd b = held_cost (bud_key b) res \<and>
     0 \<le> bu_spent_tokens b \<and> 0 \<le> bu_spent_cost_usd b \<and> is_micro (bu_spent_cost_usd b) \<and>
     pred_option is_micro (bu_max_cost_usd b)"

definition ledger_ok :: "hosted_db \<Rightarrow> bool" where
  "ledger_ok db \<longleftrightarrow> distinct (map bud_key (repository_budgets db)) \<and>
     distinct (map rs_job_id (repository_budget_reservations db)) \<and>
     (\<forall>r \<in> set (repository_budget_reservations db). reservation_ok (repository_budgets db) r) \<and>
     (\<forall>b \<in> set (repository_budgets db). budget_ok (repository_budget_reservations db) b)"

lemma budget_key_iff: "budget_key i g b \<longleftrightarrow> bud_key b = (i, g)"
  by (auto simp: budget_key_def bud_key_def)

lemma held_for_snoc: "held_for k (res @ [r]) = held_for k res @ (if rs_status r = Held \<and> res_key r = k then [r] else [])"
  by (simp add: held_for_def)

lemma held_snoc:
  "held_tokens k (res @ [r]) = held_tokens k res + (if rs_status r = Held \<and> res_key r = k then rs_tokens r else 0)"
  "held_cost k (res @ [r]) = held_cost k res + (if rs_status r = Held \<and> res_key r = k then rs_cost_usd r else 0)"
  by (simp_all add: held_tokens_def held_cost_def held_for_snoc)

lemma held_member:
  "(\<And>x. x \<in> set res \<Longrightarrow> reservation_ok buds x) \<Longrightarrow> r \<in> set res \<Longrightarrow> rs_status r = Held \<Longrightarrow>
   rs_tokens r \<le> held_tokens (res_key r) res \<and> rs_cost_usd r \<le> held_cost (res_key r) res"
  unfolding held_tokens_def held_cost_def held_for_def
  by (intro conjI; rule member_le_sum_list; force simp: reservation_ok_def)

lemma held_nonneg:
  "(\<And>x. x \<in> set res \<Longrightarrow> reservation_ok buds x) \<Longrightarrow>
   0 \<le> held_tokens k res \<and> 0 \<le> held_cost k res \<and> is_micro (held_cost k res)"
  by (induction res) (auto simp: held_tokens_def held_cost_def held_for_def reservation_ok_def)

lemma release_held:
  assumes "distinct (map rs_job_id res)" "r \<in> set res" "holds jid r"
  shows "held_tokens k (update_where (holds jid) (\<lambda>x. x\<lparr>rs_status := Released\<rparr>) res) =
      held_tokens k res - (if res_key r = k then rs_tokens r else 0) \<and>
    held_cost k (update_where (holds jid) (\<lambda>x. x\<lparr>rs_status := Released\<rparr>) res) =
      held_cost k res - (if res_key r = k then rs_cost_usd r else 0)"
  using assms
proof (induction res)
  case (Cons x res)
  show ?case
  proof (cases "x = r")
    case True
    have "update_where (holds jid) (\<lambda>x. x\<lparr>rs_status := Released\<rparr>) res = res"
    proof (rule update_where_none)
      fix y assume "y \<in> set res"
      then have "rs_job_id y \<in> rs_job_id ` set res" by simp
      with Cons.prems True show "\<not> holds jid y" by (auto simp: holds_def)
    qed
    moreover from Cons.prems(3) have "rs_status r = Held" by (simp add: holds_def)
    ultimately show ?thesis
      using True Cons.prems(3) by (simp add: held_tokens_def held_cost_def held_for_def)
  next
    case False
    with Cons.prems have r: "r \<in> set res" and d: "distinct (map rs_job_id res)" by auto
    with Cons.prems have x: "\<not> holds jid x" by (auto simp: holds_def)
    from Cons.IH [OF d r Cons.prems(3)] x show ?thesis
      by (simp add: held_tokens_def held_cost_def held_for_def)
  qed
qed simp

lemma ledger_frame:
  "repository_budgets db' = repository_budgets db \<Longrightarrow>
   repository_budget_reservations db' = repository_budget_reservations db \<Longrightarrow> ledger_ok db' = ledger_ok db"
  by (simp add: ledger_ok_def)

lemma upsert_ledger:
  assumes "ledger_ok db" "upsert_repository_budget i g t c db = Inr db'"
  shows "ledger_ok db'"
proof (cases "fetchone (budget_key i g) (repository_budgets db)")
  case None
  with assms(2) have db': "db' = db\<lparr>repository_budgets := repository_budgets db @
      [\<lparr>bu_installation_id = i, bu_github_repository_id = g, bu_max_tokens = t,
        bu_max_cost_usd = map_option numeric_18_6 c, bu_reserved_tokens = 0, bu_reserved_cost_usd = 0,
        bu_spent_tokens = 0, bu_spent_cost_usd = 0\<rparr>]\<rparr>"
    by (auto simp: upsert_repository_budget_def split: if_splits)
  from None have new: "(i, g) \<notin> bud_key ` set (repository_budgets db)"
    by (auto simp: fetchone_None budget_key_iff)
  with assms(1) have none: "held_for (i, g) (repository_budget_reservations db) = []"
    unfolding held_for_def filter_empty_conv ledger_ok_def reservation_ok_def by metis
  from assms(1) new none show ?thesis
    by (auto simp: ledger_ok_def db' reservation_ok_def budget_ok_def bud_key_def held_tokens_def held_cost_def
        option.pred_map pred_option_def)
next
  case (Some b)
  with assms(2) have db': "db' = db\<lparr>repository_budgets := update_where (budget_key i g)
      (\<lambda>b. b\<lparr>bu_max_tokens := t, bu_max_cost_usd := map_option numeric_18_6 c\<rparr>) (repository_budgets db)\<rparr>"
    by (auto simp: upsert_repository_budget_def split: if_splits)
  have keys: "map bud_key (repository_budgets db') = map bud_key (repository_budgets db)"
    unfolding db' by (simp add: map_update_where bud_key_def)
  then have "bud_key ` set (repository_budgets db') = bud_key ` set (repository_budgets db)"
    by (metis set_map)
  with assms(1) keys show ?thesis
    by (auto simp: ledger_ok_def db' reservation_ok_def in_update_where budget_ok_def bud_key_def
        option.pred_map pred_option_def)
qed

lemma purge_ledger:
  assumes "ledger_ok db" "purge_hosted_repository i g db = Inr db'"
  shows "ledger_ok db'"
proof -
  from assms(2) have db': "repository_budgets db' = filter (\<lambda>b. bud_key b \<noteq> (i, g)) (repository_budgets db)"
    "repository_budget_reservations db' = filter (\<lambda>r. res_key r \<noteq> (i, g)) (repository_budget_reservations db)"
    by (auto simp: purge_hosted_repository_def bud_key_def res_key_def split: if_splits)
  have held: "held_for k (filter (\<lambda>r. res_key r \<noteq> (i, g)) res) = held_for k res" if "k \<noteq> (i, g)" for k res
    using that by (induction res) (auto simp: held_for_def)
  from assms(1) held show ?thesis
    by (auto simp: ledger_ok_def db' distinct_map_filter budget_ok_def reservation_ok_def held_tokens_def held_cost_def)
qed

lemma budget_unique:
  "ledger_ok db \<Longrightarrow> b \<in> set (repository_budgets db) \<Longrightarrow> b' \<in> set (repository_budgets db) \<Longrightarrow> bud_key b = bud_key b' \<Longrightarrow> b = b'"
  unfolding ledger_ok_def by (metis distinct_map inj_on_def)

text \<open>A reservation that is recorded found exactly one row, with room for it.\<close>

lemma reserve_cases:
  assumes "ledger_ok db" "reserve_repository_budget i g jid tokens cost db = Inr db'" "db' \<noteq> db"
  shows "\<exists>b \<in> set (repository_budgets db). bud_key b = (i, g) \<and> configured_row b \<and> has_room tokens cost b \<and>
    0 \<le> tokens \<and> 0 \<le> numeric_18_6 cost \<and> 0 \<le> numeric_18_6 (bu_reserved_cost_usd b + cost) \<and>
    jid \<notin> rs_job_id ` set (repository_budget_reservations db) \<and>
    db' = db\<lparr>repository_budgets := map (\<lambda>x. if x = b then reserve_row tokens cost b else x) (repository_budgets db),
      repository_budget_reservations := repository_budget_reservations db @
        [\<lparr>rs_job_id = jid, rs_installation_id = i, rs_github_repository_id = g, rs_tokens = tokens,
          rs_cost_usd = numeric_18_6 cost, rs_status = Held\<rparr>]\<rparr>"
proof -
  let ?roomy = "\<lambda>b. (budget_key i g b \<and> configured_row b) \<and> has_room tokens cost b"
  from assms(2,3) obtain b where f: "fetchone ?roomy (repository_budgets db) = Some b"
    and nn: "0 \<le> tokens" "0 \<le> numeric_18_6 cost" "0 \<le> numeric_18_6 (bu_reserved_cost_usd b + cost)"
    and new: "jid \<notin> rs_job_id ` set (repository_budget_reservations db)"
    and db': "db' = db\<lparr>repository_budgets := update_where ?roomy (reserve_row tokens cost) (repository_budgets db),
      repository_budget_reservations := repository_budget_reservations db @
        [\<lparr>rs_job_id = jid, rs_installation_id = i, rs_github_repository_id = g, rs_tokens = tokens,
          rs_cost_usd = numeric_18_6 cost, rs_status = Held\<rparr>]\<rparr>"
    by (auto simp: reserve_repository_budget_def Let_def split: if_splits option.splits)
  from fetchone_Some [OF f] have b: "b \<in> set (repository_budgets db)" "?roomy b" by auto
  have "update_where ?roomy (reserve_row tokens cost) (repository_budgets db) =
      map (\<lambda>x. if x = b then reserve_row tokens cost b else x) (repository_budgets db)"
  proof (rule update_where_single)
    fix x assume "x \<in> set (repository_budgets db)"
    with b budget_unique [OF assms(1) this b(1)] show "?roomy x \<longleftrightarrow> x = b" by (auto simp: budget_key_iff)
  qed
  with b nn new db' show ?thesis by (auto simp: budget_key_iff)
qed

lemma reserve_ledger:
  assumes "ledger_ok db" "reserve_repository_budget i g jid tokens cost db = Inr db'"
  shows "ledger_ok db'"
proof (cases "db' = db")
  case False
  let ?res = "repository_budget_reservations db"
  let ?r = "\<lparr>rs_job_id = jid, rs_installation_id = i, rs_github_repository_id = g, rs_tokens = tokens,
    rs_cost_usd = numeric_18_6 cost, rs_status = Held\<rparr>"
  from reserve_cases [OF assms False] obtain b where b: "b \<in> set (repository_budgets db)" "bud_key b = (i, g)"
    and nn: "0 \<le> tokens" "0 \<le> numeric_18_6 cost" and new: "jid \<notin> rs_job_id ` set ?res"
    and bs: "repository_budgets db' = map (\<lambda>x. if x = b then reserve_row tokens cost b else x) (repository_budgets db)"
    and rs: "repository_budget_reservations db' = ?res @ [?r]" by auto
  have ok: "reservation_ok (repository_budgets db) x" if "x \<in> set ?res" for x
    using assms(1) that by (simp add: ledger_ok_def)
  have bok: "budget_ok ?res x" if "x \<in> set (repository_budgets db)" for x
    using assms(1) that by (simp add: ledger_ok_def)
  have keys: "map bud_key (repository_budgets db') = map bud_key (repository_budgets db)"
    unfolding bs by (simp add: reserve_row_def bud_key_def)
  then have kset: "bud_key ` set (repository_budgets db') = bud_key ` set (repository_budgets db)"
    by (metis set_map)
  have rkey: "res_key ?r = (i, g)" by (simp add: res_key_def)
  have "0 \<le> bu_reserved_cost_usd b" "is_micro (bu_reserved_cost_usd b)"
    using bok [OF b(1)] held_nonneg [of ?res "repository_budgets db" "bud_key b"] ok by (auto simp: budget_ok_def)
  then have sum: "numeric_18_6 (bu_reserved_cost_usd b + cost) = bu_reserved_cost_usd b + numeric_18_6 cost"
    using nn numeric_add_stored by blast
  have "budget_ok (?res @ [?r]) (if x = b then reserve_row tokens cost b else x)"
    if x: "x \<in> set (repository_budgets db)" for x
  proof (cases "x = b")
    case True
    have "bud_key (reserve_row tokens cost b) = (i, g)" using b(2) by (simp add: reserve_row_def bud_key_def)
    with True bok [OF b(1)] sum b(2) rkey show ?thesis
      by (simp add: budget_ok_def held_snoc reserve_row_def)
  next
    case False
    with budget_unique [OF assms(1) x b(1)] b(2) have "bud_key x \<noteq> (i, g)" by auto
    with False bok [OF x] rkey show ?thesis by (auto simp: budget_ok_def held_snoc)
  qed
  then have "\<forall>x \<in> set (repository_budgets db'). budget_ok (repository_budget_reservations db') x"
    unfolding bs rs set_map by blast
  moreover have "\<forall>x \<in> set (repository_budget_reservations db'). reservation_ok (repository_budgets db') x"
    using ok nn rkey b kset by (auto simp: rs reservation_ok_def rev_image_eqI)
  moreover have "distinct (map rs_job_id (repository_budget_reservations db'))"
    using assms(1) new by (simp add: rs ledger_ok_def)
  ultimately show ?thesis using assms(1) keys by (simp add: ledger_ok_def)
qed (use assms in simp)

lemma release_cases:
  assumes "ledger_ok db"
  shows "\<exists>db'. release_repository_reservation jid db = Inr db' \<and> ledger_ok db'"
proof (cases "fetchone (holds jid) (repository_budget_reservations db)")
  case None
  with assms show ?thesis by (simp add: release_repository_reservation_def)
next
  case (Some r)
  let ?res = "repository_budget_reservations db" and ?buds = "repository_budgets db"
  let ?rows = "update_where (budget_key (rs_installation_id r) (rs_github_repository_id r)) (release_row r) ?buds"
  let ?res' = "update_where (holds jid) (\<lambda>x. x\<lparr>rs_status := Released\<rparr>) ?res"
  from fetchone_Some [OF Some] have r: "r \<in> set ?res" "holds jid r" "rs_status r = Held" by (auto simp: holds_def)
  have ok: "reservation_ok ?buds x" if "x \<in> set ?res" for x using assms that by (simp add: ledger_ok_def)
  have dist: "distinct (map rs_job_id ?res)" using assms by (simp add: ledger_ok_def)
  have row: "budget_ok ?res' y \<and> 0 \<le> bu_reserved_tokens y \<and> 0 \<le> bu_reserved_cost_usd y" if y: "y \<in> set ?rows" for y
  proof -
    from y obtain b where b: "b \<in> set ?buds"
      and y': "y = (if bud_key b = res_key r then release_row r b else b)"
      by (auto simp: in_update_where budget_key_iff res_key_def)
    have bok: "budget_ok ?res b" using assms b by (simp add: ledger_ok_def)
    have nonneg: "0 \<le> held_tokens (bud_key b) ?res" "0 \<le> held_cost (bud_key b) ?res" "is_micro (held_cost (bud_key b) ?res)"
      using held_nonneg [of ?res ?buds "bud_key b"] ok by auto
    show ?thesis
    proof (cases "bud_key b = res_key r")
      case True
      have le: "rs_tokens r \<le> held_tokens (res_key r) ?res" "rs_cost_usd r \<le> held_cost (res_key r) ?res"
        using held_member [of ?res ?buds r] ok r by auto
      have "is_micro (held_cost (res_key r) ?res - rs_cost_usd r)"
        using nonneg(3) True ok [OF r(1)] by (simp add: reservation_ok_def)
      with le have n: "numeric_18_6 (held_cost (res_key r) ?res - rs_cost_usd r) = held_cost (res_key r) ?res - rs_cost_usd r"
        by (simp add: numeric_micro)
      have "bud_key y = res_key r" using True y' by (simp add: release_row_def bud_key_def)
      with True y' bok n le release_held [OF dist r(1,2), of "res_key r"] show ?thesis
        by (simp add: budget_ok_def release_row_def)
    next
      case False
      with y' bok nonneg release_held [OF dist r(1,2), of "bud_key b"] show ?thesis
        by (auto simp: budget_ok_def)
    qed
  qed
  then have rel: "release_repository_reservation jid db =
      Inr (db\<lparr>repository_budget_reservations := ?res', repository_budgets := ?rows\<rparr>)"
    using Some by (auto simp: release_repository_reservation_def Let_def not_less)
  have keys: "map bud_key ?rows = map bud_key ?buds" by (simp add: map_update_where bud_key_def release_row_def)
  then have kset: "bud_key ` set ?rows = bud_key ` set ?buds" by (metis set_map)
  have "map rs_job_id ?res' = map rs_job_id ?res" by (simp add: map_update_where)
  moreover have "reservation_ok ?rows x" if "x \<in> set ?res'" for x
    using that ok kset by (auto simp: in_update_where reservation_ok_def res_key_def)
  ultimately show ?thesis using assms keys row rel by (simp add: ledger_ok_def)
qed

section \<open>Properties\<close>

inductive budget_step :: "hosted_db \<Rightarrow> hosted_db \<Rightarrow> bool" where
  set_limit: "upsert_repository_budget i g t c db = Inr db' \<Longrightarrow> budget_step db db'"
| reserve: "reserve_repository_budget i g jid tokens cost db = Inr db' \<Longrightarrow> budget_step db db'"
| release: "release_repository_reservation jid db = Inr db' \<Longrightarrow> budget_step db db'"
| purge: "purge_hosted_repository i g db = Inr db' \<Longrightarrow> budget_step db db'"
| other: "repository_budgets db' = repository_budgets db \<Longrightarrow>
    repository_budget_reservations db' = repository_budget_reservations db \<Longrightarrow> budget_step db db'"

definition no_budgets :: "hosted_db \<Rightarrow> bool" where
  "no_budgets db \<longleftrightarrow> repository_budgets db = [] \<and> repository_budget_reservations db = []"

lemma budget_step_ledger: "budget_step db db' \<Longrightarrow> ledger_ok db \<Longrightarrow> ledger_ok db'"
proof (induction rule: budget_step.induct)
  case (release jid db db')
  then show ?case using release_cases [of db jid] by auto
next
  case (other db' db)
  then show ?case using ledger_frame by blast
next
  case (set_limit i g t c db db')
  then show ?case using upsert_ledger by blast
next
  case (reserve i g jid tokens cost db db')
  then show ?case using reserve_ledger by blast
next
  case (purge i g db db')
  then show ?case using purge_ledger by blast
qed

interpretation budgets: invariant_system no_budgets budget_step ledger_ok
proof
  show "no_budgets s \<Longrightarrow> ledger_ok s" for s by (simp add: no_budgets_def ledger_ok_def)
  show "ledger_ok s \<Longrightarrow> budget_step s t \<Longrightarrow> ledger_ok t" for s t by (rule budget_step_ledger)
qed

lemma reserve_within_limit:
  assumes "ledger_ok db" "reserve_repository_budget i g jid tokens cost db = Inr db'" "db' \<noteq> db"
  shows "\<exists>b \<in> set (repository_budgets db'). \<exists>t c. bud_key b = (i, g) \<and> bu_max_tokens b = Some t \<and> bu_max_cost_usd b = Some c \<and>
    bu_reserved_tokens b + bu_spent_tokens b \<le> t \<and> bu_reserved_cost_usd b + bu_spent_cost_usd b \<le> c"
proof -
  from reserve_cases [OF assms] obtain b where b: "b \<in> set (repository_budgets db)" "bud_key b = (i, g)"
    and room: "has_room tokens cost b"
    and bs: "repository_budgets db' = map (\<lambda>x. if x = b then reserve_row tokens cost b else x) (repository_budgets db)"
    by auto
  from room obtain t c where lim: "bu_max_tokens b = Some t" "bu_max_cost_usd b = Some c"
    and le: "bu_reserved_tokens b + bu_spent_tokens b + tokens \<le> t" "bu_reserved_cost_usd b + cost \<le> c - bu_spent_cost_usd b"
    by (auto simp: has_room_def algebra_simps split: option.splits)
  from assms(1) b(1) have "budget_ok (repository_budget_reservations db) b" by (simp add: ledger_ok_def)
  with lim have "is_micro (c - bu_spent_cost_usd b)" by (simp add: budget_ok_def)
  from numeric_le [OF this le(2)] have "numeric_18_6 (bu_reserved_cost_usd b + cost) + bu_spent_cost_usd b \<le> c" by simp
  moreover have "reserve_row tokens cost b \<in> set (repository_budgets db')" unfolding bs using b(1) by force
  ultimately show ?thesis using b lim le by (intro bexI [of _ "reserve_row tokens cost b"]) (auto simp: reserve_row_def bud_key_def)
qed

text \<open>C13. The ledger of reservations is exact: in every state that budget changes, reservations, releases,
  purges and the writes of other components reach, what a budget row counts as reserved is the sum of the
  reservations held for that repository, in tokens and in money, despite the rounding of every stored
  amount; a reservation that is recorded leaves reserved and spent together within both limits; and a
  release never fails.\<close>

theorem budget_ledger_exact:
  assumes "no_budgets db0" "budget_step\<^sup>*\<^sup>* db0 db"
  shows "(\<forall>b \<in> set (repository_budgets db).
       bu_reserved_tokens b = sum_list (map rs_tokens (held_for (bud_key b) (repository_budget_reservations db))) \<and>
       bu_reserved_cost_usd b = sum_list (map rs_cost_usd (held_for (bud_key b) (repository_budget_reservations db)))) \<and>
    (\<forall>i g jid tokens cost db'. reserve_repository_budget i g jid tokens cost db = Inr db' \<and> db' \<noteq> db \<longrightarrow>
       (\<exists>b \<in> set (repository_budgets db'). \<exists>t c. bud_key b = (i, g) \<and> bu_max_tokens b = Some t \<and> bu_max_cost_usd b = Some c \<and>
          bu_reserved_tokens b + bu_spent_tokens b \<le> t \<and> bu_reserved_cost_usd b + bu_spent_cost_usd b \<le> c)) \<and>
    (\<forall>jid. \<exists>db'. release_repository_reservation jid db = Inr db')"
proof -
  from budgets.inv_reachable [OF assms] have ok: "ledger_ok db" .
  then have "\<forall>b \<in> set (repository_budgets db). budget_ok (repository_budget_reservations db) b" by (simp add: ledger_ok_def)
  with reserve_within_limit [OF ok] release_cases [OF ok] show ?thesis
    unfolding budget_ok_def held_tokens_def held_cost_def by blast
qed

definition budget_db :: hosted_db where
  "budget_db = tenant_db\<lparr>repository_budgets :=
     [\<lparr>bu_installation_id = 7, bu_github_repository_id = 9, bu_max_tokens = Some 100, bu_max_cost_usd = Some 1,
       bu_reserved_tokens = 0, bu_reserved_cost_usd = 0, bu_spent_tokens = 0, bu_spent_cost_usd = 0\<rparr>]\<rparr>"

lemma budget_db_reached: "upsert_repository_budget 7 9 (Some 100) (Some 1) tenant_db = Inr budget_db"
proof -
  have "numeric_18_6 1 = 1" using numeric_micro [of 1] by (simp add: is_micro_def exI [of _ 1000000])
  then show ?thesis
    by (simp add: upsert_repository_budget_def budget_db_def tenant_db_def empty_db_def in_integer_def fits_18_6_def)
qed

lemma budget_db_reserve:
  "\<exists>db'. reserve_repository_budget 7 9 ''j1'' 60 (1 / 2) budget_db = Inr db' \<and> db' \<noteq> budget_db"
proof -
  have "is_micro (1 / 2)" unfolding is_micro_def by (rule exI [of _ 500000]) simp
  then have "numeric_18_6 (1 / 2) = 1 / 2" by (simp add: numeric_micro)
  then show ?thesis
    by (simp add: reserve_repository_budget_def budget_db_def tenant_db_def empty_db_def in_integer_def fits_18_6_def
        budget_key_def configured_row_def is_configured_def has_room_def sum_overflows_def Let_def)
qed

theorem budget_ledger_exact_witness:
  "no_budgets tenant_db \<and> budget_step\<^sup>*\<^sup>* tenant_db budget_db \<and>
   (\<exists>db'. reserve_repository_budget 7 9 ''j1'' 60 (1 / 2) budget_db = Inr db' \<and>
      (\<exists>b \<in> set (repository_budgets db'). bud_key b = (7, 9) \<and> (\<exists>t. bu_max_tokens b = Some t \<and> bu_reserved_tokens b + bu_spent_tokens b \<le> t)))"
proof -
  have start: "no_budgets tenant_db" by (simp add: no_budgets_def tenant_db_def empty_db_def)
  have run: "budget_step\<^sup>*\<^sup>* tenant_db budget_db" using budget_db_reached by (blast intro: set_limit)
  from budget_db_reserve obtain db' where "reserve_repository_budget 7 9 ''j1'' 60 (1 / 2) budget_db = Inr db'" "db' \<noteq> budget_db"
    by blast
  with budget_ledger_exact [OF start run] start run show ?thesis by blast
qed

text \<open>A released job cannot reserve again: the row of the released reservation keeps the primary key, so
  where a fresh job would be granted its reservation, the same request for that job raises.\<close>

theorem reserve_after_release_raises:
  assumes "ledger_ok db" "r \<in> set (repository_budget_reservations db)" "rs_job_id r = jid" "rs_status r = Released"
    "reserve_repository_budget i g fresh_job tokens cost db = Inr db'" "db' \<noteq> db"
  shows "reserve_repository_budget i g jid tokens cost db = Inl UniqueViolation"
proof -
  have "fetchone (holds jid) (repository_budget_reservations db) = None"
  proof -
    have "distinct (map rs_job_id (repository_budget_reservations db))" using assms(1) by (simp add: ledger_ok_def)
    then have "x = r" if "x \<in> set (repository_budget_reservations db)" "rs_job_id x = jid" for x
      using that assms(2,3) by (metis distinct_map inj_on_def)
    with assms(4) show ?thesis by (auto simp: fetchone_None holds_def)
  qed
  moreover from assms(2,3) have "jid \<in> rs_job_id ` set (repository_budget_reservations db)" by blast
  ultimately show ?thesis using assms(5,6)
    by (auto simp: reserve_repository_budget_def Let_def split: if_splits option.splits)
qed

definition released_db :: hosted_db where
  "released_db = budget_db\<lparr>repository_budget_reservations :=
     [\<lparr>rs_job_id = ''j1'', rs_installation_id = 7, rs_github_repository_id = 9, rs_tokens = 60, rs_cost_usd = 0,
       rs_status = Released\<rparr>]\<rparr>"

lemma released_ledger: "ledger_ok released_db"
proof -
  have "is_micro 1" unfolding is_micro_def by (rule exI [of _ 1000000]) simp
  then show ?thesis
    by (simp add: ledger_ok_def released_db_def budget_db_def tenant_db_def empty_db_def reservation_ok_def budget_ok_def
        held_tokens_def held_cost_def held_for_def)
qed

lemma released_reserve: "\<exists>db'. reserve_repository_budget 7 9 ''j2'' 60 0 released_db = Inr db' \<and> db' \<noteq> released_db"
  by (simp add: reserve_repository_budget_def released_db_def budget_db_def tenant_db_def empty_db_def in_integer_def
      fits_18_6_def budget_key_def configured_row_def is_configured_def has_room_def sum_overflows_def holds_def Let_def)

theorem reserve_after_release_raises_witness:
  "\<exists>db'. reserve_repository_budget 7 9 ''j2'' 60 0 released_db = Inr db' \<and> db' \<noteq> released_db \<and>
     reserve_repository_budget 7 9 ''j1'' 60 0 released_db = Inl UniqueViolation"
proof -
  from released_reserve obtain db' where db': "reserve_repository_budget 7 9 ''j2'' 60 0 released_db = Inr db'" "db' \<noteq> released_db"
    by blast
  have "\<exists>r \<in> set (repository_budget_reservations released_db). rs_job_id r = ''j1'' \<and> rs_status r = Released"
    by (simp add: released_db_def)
  with db' reserve_after_release_raises [OF released_ledger _ _ _ db'] show ?thesis by blast
qed

end
