(* ===== verification/Workflow.thy ===== *)
theory Workflow
  imports Runner_Jobs
begin

text \<open>
  The resumable review pipeline of \<^verbatim>\<open>workflow/\<close>: the SQLite step store (\<^verbatim>\<open>store.py\<close>), the plain
  engine (\<^verbatim>\<open>simple_engine.py\<close>) and the LangGraph engine (\<^verbatim>\<open>langgraph_engine.py\<close>).  An engine runs
  over the state of its store and a world that its injected functions (step handlers, heartbeat, head
  lookup, event sink, clock) change.  What an engine needs of a store is the locale
  \<open>workflow_store\<close>, the contract behind the \<open>WorkflowStore\<close> protocol, interpreted on the SQLite store.
\<close>

section \<open>The interface\<close>

datatype workflow_status = Wf_Completed | Wf_Cancelled | Wf_Failed

definition step_names :: "string list" where
  "step_names = [''fetch'', ''baseline_review'', ''retrieval'', ''verification'', ''routing'', ''storage'']"

record workflow_input =
  wi_job_id :: string
  wi_head_sha :: string
  wi_trace_id :: string
  wi_lease_token :: string

record workflow_result =
  wr_status :: workflow_status
  wr_reason :: "string option"

record workflow_state =
  ws_workflow_id :: string
  ws_completed_steps :: "string list"
  ws_outcome :: "workflow_status option"
  ws_reason :: "string option"

text \<open>What a handler returns: a value \<open>json.dumps\<close> can write, or one it refuses.\<close>

datatype step_output = Serializable json | Opaque

type_synonym outputs = "(string \<times> step_output) list"

record 's store_ops =
  so_ensure_run :: "string \<Rightarrow> workflow_input \<Rightarrow> ('s, unit) act"
  so_load_input :: "string \<Rightarrow> ('s, workflow_input) act"
  so_completed_outputs :: "string \<Rightarrow> ('s, (string \<times> json) list) act"
  so_mark_step_completed :: "string \<Rightarrow> string \<Rightarrow> step_output \<Rightarrow> ('s, unit) act"
  so_set_outcome :: "string \<Rightarrow> workflow_status \<Rightarrow> string option \<Rightarrow> ('s, unit) act"
  so_get_state :: "string \<Rightarrow> ('s, workflow_state) act"

section \<open>The SQLite store\<close>

record run_row =
  wu_workflow_id :: string
  wu_job_id :: string
  wu_head_sha :: string
  wu_trace_id :: string
  wu_lease_token :: string
  wu_input :: workflow_input
  wu_outcome :: "workflow_status option"
  wu_reason :: "string option"
  wu_updated_at :: timestamp

record step_row =
  wp_workflow_id :: string
  wp_step_name :: string
  wp_output :: json
  wp_completed_at :: timestamp

text \<open>The two tables and the clock that \<open>strftime('now')\<close> reads.  The JSON columns keep the value
  that is written and read back.\<close>

record workflow_tables =
  workflow_runs :: "run_row list"
  workflow_steps :: "step_row list"
  wt_clock :: timestamp

definition ensure_run :: "string \<Rightarrow> workflow_input \<Rightarrow> (workflow_tables, unit) act" where
  "ensure_run wid inp t =
     (Inr (), if wid \<in> wu_workflow_id ` set (workflow_runs t) then t
              else t\<lparr>workflow_runs := workflow_runs t @
                [\<lparr>wu_workflow_id = wid, wu_job_id = wi_job_id inp, wu_head_sha = wi_head_sha inp,
                  wu_trace_id = wi_trace_id inp, wu_lease_token = wi_lease_token inp, wu_input = inp,
                  wu_outcome = None, wu_reason = None, wu_updated_at = wt_clock t\<rparr>]\<rparr>)"

definition load_input :: "string \<Rightarrow> (workflow_tables, workflow_input) act" where
  "load_input wid t =
     (case fetchone (\<lambda>r. wu_workflow_id r = wid) (workflow_runs t) of
        None \<Rightarrow> (Inl KeyError, t)
      | Some r \<Rightarrow> (Inr (wu_input r), t))"

definition completed_outputs :: "string \<Rightarrow> (workflow_tables, (string \<times> json) list) act" where
  "completed_outputs wid t =
     (Inr (dict_of (map (\<lambda>p. (wp_step_name p, wp_output p))
        (sort_key (\<lambda>p. (wp_completed_at p, wp_step_name p))
          (filter (\<lambda>p. wp_workflow_id p = wid) (workflow_steps t))))), t)"

definition mark_step_completed :: "string \<Rightarrow> string \<Rightarrow> step_output \<Rightarrow> (workflow_tables, unit) act" where
  "mark_step_completed wid name v t =
     (case v of
        Opaque \<Rightarrow> (Inl TypeError, t)
      | Serializable j \<Rightarrow>
          (Inr (), if (wid, name) \<in> (\<lambda>p. (wp_workflow_id p, wp_step_name p)) ` set (workflow_steps t) then t
                   else t\<lparr>workflow_steps := workflow_steps t @
                     [\<lparr>wp_workflow_id = wid, wp_step_name = name, wp_output = j, wp_completed_at = wt_clock t\<rparr>]\<rparr>))"

definition set_outcome :: "string \<Rightarrow> workflow_status \<Rightarrow> string option \<Rightarrow> (workflow_tables, unit) act" where
  "set_outcome wid st reason t =
     (Inr (), t\<lparr>workflow_runs := update_where (\<lambda>r. wu_workflow_id r = wid)
        (\<lambda>r. r\<lparr>wu_outcome := Some st, wu_reason := reason, wu_updated_at := wt_clock t\<rparr>) (workflow_runs t)\<rparr>)"

definition get_state :: "string \<Rightarrow> (workflow_tables, workflow_state) act" where
  "get_state wid t =
     (case fetchone (\<lambda>r. wu_workflow_id r = wid) (workflow_runs t) of
        None \<Rightarrow> (Inl KeyError, t)
      | Some r \<Rightarrow>
          bind_a (completed_outputs wid) (\<lambda>outs.
            return_a \<lparr>ws_workflow_id = wid, ws_completed_steps = filter (\<lambda>n. n \<in> fst ` set outs) step_names,
                      ws_outcome = wu_outcome r, ws_reason = wu_reason r\<rparr>) t)"

definition sqlite_store :: "workflow_tables store_ops" where
  "sqlite_store = \<lparr>so_ensure_run = ensure_run, so_load_input = load_input, so_completed_outputs = completed_outputs,
     so_mark_step_completed = mark_step_completed, so_set_outcome = set_outcome, so_get_state = get_state\<rparr>"

section \<open>The plain engine\<close>

text \<open>The injected functions.  The clock is \<open>time.monotonic\<close>.\<close>

record 'w engine =
  en_handler :: "string \<Rightarrow> workflow_input \<Rightarrow> outputs \<Rightarrow> ('w, step_output) act"
  en_heartbeat :: "(workflow_input \<Rightarrow> ('w, lease_state) act) option"
  en_current_head_sha :: "(workflow_input \<Rightarrow> ('w, string) act) option"
  en_record_event :: "(string \<Rightarrow> string \<Rightarrow> (string \<times> string) list \<Rightarrow> ('w, unit) act) option"
  en_step_timeouts :: "(string \<times> rat) list"
  en_clock :: "'w \<Rightarrow> rat \<times> 'w"

definition emit :: "'w engine \<Rightarrow> string \<Rightarrow> string \<Rightarrow> (string \<times> string) list \<Rightarrow> ('w, unit) act" where
  "emit eng job_id event_type payload =
     (case en_record_event eng of None \<Rightarrow> return_a () | Some f \<Rightarrow> f job_id event_type payload)"

definition stop_with :: "'w engine \<Rightarrow> workflow_input \<Rightarrow> string \<Rightarrow> workflow_status \<Rightarrow> string \<Rightarrow> ('w, workflow_result option) act" where
  "stop_with eng inp event st reason =
     bind_a (emit eng (wi_job_id inp) event [(''reason'', reason)])
       (\<lambda>_. return_a (Some \<lparr>wr_status = st, wr_reason = Some reason\<rparr>))"

definition check_head :: "'w engine \<Rightarrow> workflow_input \<Rightarrow> ('w, workflow_result option) act" where
  "check_head eng inp =
     (case en_current_head_sha eng of
        None \<Rightarrow> return_a None
      | Some f \<Rightarrow> bind_a (f inp) (\<lambda>live.
          if live \<noteq> wi_head_sha inp then stop_with eng inp ''workflow.cancelled'' Wf_Cancelled ''superseded''
          else return_a None))"

definition checkpoint :: "'w engine \<Rightarrow> workflow_input \<Rightarrow> ('w, workflow_result option) act" where
  "checkpoint eng inp =
     (case en_heartbeat eng of
        None \<Rightarrow> check_head eng inp
      | Some f \<Rightarrow> bind_a (f inp) (\<lambda>lease.
          case lease of
            Lease_Cancelled \<Rightarrow> stop_with eng inp ''workflow.cancelled'' Wf_Cancelled ''cancelled''
          | Invalid_Or_Expired \<Rightarrow> stop_with eng inp ''workflow.failed'' Wf_Failed ''invalid_or_expired''
          | Active \<Rightarrow> check_head eng inp))"

definition read_clock :: "'w engine \<Rightarrow> ('w, rat) act" where
  "read_clock eng w = (case en_clock eng w of (t, w') \<Rightarrow> (Inr t, w'))"

text \<open>One step: the handler, its time limit, the record of its completion, the event.\<close>

definition run_handler :: "'w engine \<Rightarrow> workflow_input \<Rightarrow> string \<Rightarrow> outputs \<Rightarrow> ('w, step_output) act" where
  "run_handler eng inp name outs =
     bind_a (read_clock eng) (\<lambda>started.
     bind_a (en_handler eng name inp outs) (\<lambda>v.
       case map_of (en_step_timeouts eng) name of
         None \<Rightarrow> return_a v
       | Some limit \<Rightarrow> bind_a (read_clock eng) (\<lambda>now.
           if limit < now - started then raise_a RuntimeError else return_a v)))"

definition run_step ::
  "'s store_ops \<Rightarrow> 'w engine \<Rightarrow> string \<Rightarrow> workflow_input \<Rightarrow> string \<Rightarrow> outputs \<Rightarrow> ('s \<times> 'w, step_output) act" where
  "run_step st eng wid inp name outs =
     bind_a (on_world (run_handler eng inp name outs)) (\<lambda>v.
     bind_a (on_store (so_mark_step_completed st wid name v)) (\<lambda>_.
     bind_a (on_world (emit eng (wi_job_id inp) ''workflow.step_completed'' [(''step'', name)])) (\<lambda>_. return_a v)))"

fun run_steps ::
  "'s store_ops \<Rightarrow> 'w engine \<Rightarrow> string \<Rightarrow> workflow_input \<Rightarrow> string list \<Rightarrow> outputs \<Rightarrow> ('s \<times> 'w, workflow_result) act" where
  "run_steps st eng wid inp [] outs =
     bind_a (on_store (so_set_outcome st wid Wf_Completed None))
       (\<lambda>_. return_a \<lparr>wr_status = Wf_Completed, wr_reason = None\<rparr>)"
| "run_steps st eng wid inp (name # names) outs =
     (if name \<in> fst ` set outs then run_steps st eng wid inp names outs
      else bind_a (on_world (checkpoint eng inp)) (\<lambda>stopped.
        case stopped of
          Some r \<Rightarrow> bind_a (on_store (so_set_outcome st wid (wr_status r) (wr_reason r))) (\<lambda>_. return_a r)
        | None \<Rightarrow> bind_a (run_step st eng wid inp name outs) (\<lambda>v.
            run_steps st eng wid inp names (dict_set name v outs))))"

definition advance :: "'s store_ops \<Rightarrow> 'w engine \<Rightarrow> string \<Rightarrow> workflow_input \<Rightarrow> ('s \<times> 'w, workflow_result) act" where
  "advance st eng wid inp =
     bind_a (on_store (so_get_state st wid)) (\<lambda>state.
       case ws_outcome state of
         Some outcome \<Rightarrow> return_a \<lparr>wr_status = outcome, wr_reason = ws_reason state\<rparr>
       | None \<Rightarrow> bind_a (on_store (so_completed_outputs st wid)) (\<lambda>outs.
           run_steps st eng wid inp step_names (map (\<lambda>(n, v). (n, Serializable v)) outs)))"

definition engine_run :: "'s store_ops \<Rightarrow> 'w engine \<Rightarrow> string \<Rightarrow> workflow_input \<Rightarrow> ('s \<times> 'w, workflow_result) act" where
  "engine_run st eng wid inp = bind_a (on_store (so_ensure_run st wid inp)) (\<lambda>_. advance st eng wid inp)"

definition engine_resume :: "'s store_ops \<Rightarrow> 'w engine \<Rightarrow> string \<Rightarrow> ('s \<times> 'w, workflow_result) act" where
  "engine_resume st eng wid = bind_a (on_store (so_load_input st wid)) (\<lambda>inp. advance st eng wid inp)"

text \<open>\<open>review\<close>: the run of a claimed job, as the acknowledgement the daemon sends.  \<open>sha256\<close> digests
  the text of the result.\<close>

definition status_word :: "workflow_status \<Rightarrow> string" where
  "status_word st = (case st of Wf_Completed \<Rightarrow> ''completed'' | Wf_Cancelled \<Rightarrow> ''cancelled'' | Wf_Failed \<Rightarrow> ''failed'')"

definition result_ack :: "(string \<Rightarrow> string) \<Rightarrow> workflow_result \<Rightarrow> job_acknowledgement" where
  "result_ack sha256 r =
     (let digest = sha256 (status_word (wr_status r) @ '':'' @ str_opt (wr_reason r))
      in \<lparr>ja_terminal_state = (if wr_status r = Wf_Completed then Ack_Succeeded else Ack_Failed),
          ja_error_class = (if wr_status r = Wf_Completed then None else wr_reason r),
          ja_input_tokens = 0, ja_output_tokens = 0, ja_cost_usd = 0, ja_latency_ms = 0,
          ja_local_result_hash = digest\<rparr>)"

definition engine_review ::
  "(string \<Rightarrow> string) \<Rightarrow> 's store_ops \<Rightarrow> 'w engine \<Rightarrow> job_envelope \<Rightarrow> ('s \<times> 'w, job_acknowledgement) act" where
  "engine_review sha256 st eng job =
     bind_a (engine_run st eng (je_job_id job)
        \<lparr>wi_job_id = je_job_id job, wi_head_sha = je_head_sha job, wi_trace_id = je_trace_id job,
         wi_lease_token = je_lease_token job\<rparr>)
       (\<lambda>r. return_a (result_ack sha256 r))"

section \<open>The LangGraph engine\<close>

text \<open>The graph state: the status (\<open>None\<close> while running) and the reason.  The outputs are a dictionary
  that the nodes of one invocation share.\<close>

type_synonym graph_state = "workflow_status option \<times> string option"

type_synonym ('s, 'w) graph_node = "graph_state \<Rightarrow> (('s \<times> 'w) \<times> outputs, graph_state) act"

text \<open>\<open>StateGraph.compile().invoke\<close>: the nodes by name, the edges, the initial state.\<close>

type_synonym ('s, 'w) graph_runtime =
  "(string \<times> ('s, 'w) graph_node) list \<Rightarrow> (string \<times> string) list \<Rightarrow> ('s, 'w) graph_node"

definition graph_start :: string where "graph_start = ''__start__''"
definition graph_end :: string where "graph_end = ''__end__''"

definition chain_edges :: "string list \<Rightarrow> (string \<times> string) list" where
  "chain_edges names = (graph_start, hd names) # zip names (tl names) @ [(last names, graph_end)]"

definition with_outputs :: "('s \<times> 'w, 'a) act \<Rightarrow> (('s \<times> 'w) \<times> outputs, 'a) act" where
  "with_outputs m c = (case m (fst c) of (r, c') \<Rightarrow> (r, (c', snd c)))"

definition make_node ::
  "'s store_ops \<Rightarrow> 'w engine \<Rightarrow> string \<Rightarrow> workflow_input \<Rightarrow> string \<Rightarrow> ('s, 'w) graph_node" where
  "make_node st eng wid inp name g =
     (if fst g \<in> {Some Wf_Cancelled, Some Wf_Failed} then return_a g
      else (\<lambda>c. if name \<in> fst ` set (snd c) then (Inr (None, None), c)
        else bind_a (with_outputs (on_world (checkpoint eng inp))) (\<lambda>stopped.
          case stopped of
            Some r \<Rightarrow> bind_a (with_outputs (on_store (so_set_outcome st wid (wr_status r) (wr_reason r))))
                        (\<lambda>_. return_a (Some (wr_status r), wr_reason r))
          | None \<Rightarrow> (\<lambda>c. case run_step st eng wid inp name (snd c) (fst c) of
                (Inl e, c') \<Rightarrow> (Inl e, (c', snd c))
              | (Inr v, c') \<Rightarrow> (Inr (None, None), (c', dict_set name v (snd c))))) c))"

text \<open>In the source the output joins the dictionary before the event is emitted; when the emission
  raises, the invocation ends and the dictionary with it.\<close>

definition lg_advance ::
  "('s, 'w) graph_runtime \<Rightarrow> 's store_ops \<Rightarrow> 'w engine \<Rightarrow> string \<Rightarrow> workflow_input \<Rightarrow> ('s \<times> 'w, workflow_result) act" where
  "lg_advance invoke st eng wid inp =
     bind_a (on_store (so_get_state st wid)) (\<lambda>state.
       case ws_outcome state of
         Some outcome \<Rightarrow> return_a \<lparr>wr_status = outcome, wr_reason = ws_reason state\<rparr>
       | None \<Rightarrow> bind_a (on_store (so_completed_outputs st wid)) (\<lambda>outs. \<lambda>c.
           case invoke (map (\<lambda>n. (n, make_node st eng wid inp n)) step_names) (chain_edges step_names) (None, None)
                  (c, map (\<lambda>(n, v). (n, Serializable v)) outs) of
             (Inl e, (c', _)) \<Rightarrow> (Inl e, c')
           | (Inr (status, reason), (c', _)) \<Rightarrow>
               (case status of
                  Some Wf_Cancelled \<Rightarrow> (Inr \<lparr>wr_status = Wf_Cancelled, wr_reason = reason\<rparr>, c')
                | Some Wf_Failed \<Rightarrow> (Inr \<lparr>wr_status = Wf_Failed, wr_reason = reason\<rparr>, c')
                | _ \<Rightarrow> bind_a (on_store (so_set_outcome st wid Wf_Completed None))
                     (\<lambda>_. return_a \<lparr>wr_status = Wf_Completed, wr_reason = None\<rparr>) c')))"

definition lg_run ::
  "('s, 'w) graph_runtime \<Rightarrow> 's store_ops \<Rightarrow> 'w engine \<Rightarrow> string \<Rightarrow> workflow_input \<Rightarrow> ('s \<times> 'w, workflow_result) act" where
  "lg_run invoke st eng wid inp =
     bind_a (on_store (so_ensure_run st wid inp)) (\<lambda>_. lg_advance invoke st eng wid inp)"

definition lg_resume ::
  "('s, 'w) graph_runtime \<Rightarrow> 's store_ops \<Rightarrow> 'w engine \<Rightarrow> string \<Rightarrow> ('s \<times> 'w, workflow_result) act" where
  "lg_resume invoke st eng wid =
     bind_a (on_store (so_load_input st wid)) (\<lambda>inp. lg_advance invoke st eng wid inp)"

definition lg_review ::
  "('s, 'w) graph_runtime \<Rightarrow> (string \<Rightarrow> string) \<Rightarrow> 's store_ops \<Rightarrow> 'w engine \<Rightarrow> job_envelope \<Rightarrow> ('s \<times> 'w, job_acknowledgement) act" where
  "lg_review invoke sha256 st eng job =
     bind_a (lg_run invoke st eng (je_job_id job)
        \<lparr>wi_job_id = je_job_id job, wi_head_sha = je_head_sha job, wi_trace_id = je_trace_id job,
         wi_lease_token = je_lease_token job\<rparr>)
       (\<lambda>r. return_a (result_ack sha256 r))"

section \<open>Checkpoints and steps\<close>

text \<open>A checkpoint that stops never reports a completion.\<close>

lemma stop_with_status: "stop_with eng inp ev st reason w = (Inr (Some r), w') \<Longrightarrow> wr_status r = st"
  by (auto simp: stop_with_def act_simps split: prod.splits sum.splits)

lemma check_head_status: "check_head eng inp w = (Inr (Some r), w') \<Longrightarrow> wr_status r = Wf_Cancelled"
  by (auto simp: check_head_def act_simps split: option.splits prod.splits sum.splits if_splits dest: stop_with_status)

lemma checkpoint_status: "checkpoint eng inp w = (Inr (Some r), w') \<Longrightarrow> wr_status r \<in> {Wf_Cancelled, Wf_Failed}"
  by (auto simp: checkpoint_def act_simps split: option.splits prod.splits sum.splits lease_state.splits
      dest: stop_with_status check_head_status)

section \<open>The two engines agree\<close>

fun run_chain :: "('g \<Rightarrow> ('c, 'g) act) list \<Rightarrow> 'g \<Rightarrow> ('c, 'g) act" where
  "run_chain [] g = return_a g"
| "run_chain (n # ns) g = bind_a (n g) (run_chain ns)"

text \<open>What the engine relies on of the graph library: on a chain of distinct nodes from the start to the
  end, an invocation runs them in order, each on the state the one before returned.\<close>

definition linear_runtime :: "('s, 'w) graph_runtime \<Rightarrow> bool" where
  "linear_runtime invoke \<longleftrightarrow>
     (\<forall>nodes g c. nodes \<noteq> [] \<longrightarrow> distinct (map fst nodes) \<longrightarrow> graph_start \<notin> fst ` set nodes \<longrightarrow> graph_end \<notin> fst ` set nodes \<longrightarrow>
        invoke nodes (chain_edges (map fst nodes)) g c = run_chain (map snd nodes) g c)"

lemma run_chain_stopped:
  "st' \<in> {Wf_Cancelled, Wf_Failed} \<Longrightarrow>
   run_chain (map (make_node st eng wid inp) names) (Some st', reason) c = (Inr (Some st', reason), c)"
  by (induction names) (auto simp: make_node_def act_simps)

definition finish ::
  "'s store_ops \<Rightarrow> string \<Rightarrow> graph_state result \<times> (('s \<times> 'w) \<times> outputs) \<Rightarrow> workflow_result result \<times> ('s \<times> 'w)" where
  "finish st wid r =
     (case r of
        (Inl e, (c', _)) \<Rightarrow> (Inl e, c')
      | (Inr (status, reason), (c', _)) \<Rightarrow>
          (case status of
             Some Wf_Cancelled \<Rightarrow> (Inr \<lparr>wr_status = Wf_Cancelled, wr_reason = reason\<rparr>, c')
           | Some Wf_Failed \<Rightarrow> (Inr \<lparr>wr_status = Wf_Failed, wr_reason = reason\<rparr>, c')
           | _ \<Rightarrow> bind_a (on_store (so_set_outcome st wid Wf_Completed None))
                (\<lambda>_. return_a \<lparr>wr_status = Wf_Completed, wr_reason = None\<rparr>) c'))"

lemma make_node_skip:
  "name \<in> fst ` set outs \<Longrightarrow> make_node st eng wid inp name (None, None) (c, outs) = (Inr (None, None), (c, outs))"
  by (simp add: make_node_def)

lemma make_node_raise:
  "name \<notin> fst ` set outs \<Longrightarrow> checkpoint eng inp w = (Inl e, w') \<Longrightarrow>
   make_node st eng wid inp name (None, None) ((s, w), outs) = (Inl e, ((s, w'), outs))"
  by (simp add: make_node_def act_simps with_outputs_def)

lemma make_node_stop:
  "name \<notin> fst ` set outs \<Longrightarrow> checkpoint eng inp w = (Inr (Some r), w') \<Longrightarrow>
   so_set_outcome st wid (wr_status r) (wr_reason r) s = (q, s') \<Longrightarrow>
   make_node st eng wid inp name (None, None) ((s, w), outs) =
     (case q of Inl e \<Rightarrow> Inl e | Inr _ \<Rightarrow> Inr (Some (wr_status r), wr_reason r), ((s', w'), outs))"
  by (cases q) (simp_all add: make_node_def act_simps with_outputs_def)

lemma make_node_step:
  "name \<notin> fst ` set outs \<Longrightarrow> checkpoint eng inp w = (Inr None, w') \<Longrightarrow>
   run_step st eng wid inp name outs (s, w') = (q, c') \<Longrightarrow>
   make_node st eng wid inp name (None, None) ((s, w), outs) =
     (case q of Inl e \<Rightarrow> (Inl e, (c', outs)) | Inr v \<Rightarrow> (Inr (None, None), (c', dict_set name v outs)))"
  by (cases q) (simp_all add: make_node_def act_simps with_outputs_def)

lemma chain_runs_steps:
  "finish st wid (run_chain (map (make_node st eng wid inp) names) (None, None) (c, outs)) =
   run_steps st eng wid inp names outs c"
proof (induction names arbitrary: outs c)
  case Nil
  show ?case by (simp add: finish_def act_simps)
next
  case (Cons name names)
  show ?case
  proof (cases "name \<in> fst ` set outs")
    case True
    with Cons.IH make_node_skip [OF True, of st eng wid inp c] show ?thesis by (simp add: act_simps)
  next
    case False
    obtain s w where c: "c = (s, w)" by force
    obtain k w' where k: "checkpoint eng inp w = (k, w')" by force
    show ?thesis
    proof (cases k)
      case (Inl e)
      with False c k make_node_raise [OF False, of eng inp w e w' st wid s] show ?thesis by (simp add: act_simps finish_def)
    next
      case (Inr stopped)
      show ?thesis
      proof (cases stopped)
        case (Some r)
        with Inr k have kr: "checkpoint eng inp w = (Inr (Some r), w')" by simp
        from checkpoint_status [OF this] have st: "wr_status r \<in> {Wf_Cancelled, Wf_Failed}" .
        obtain q s' where q: "so_set_outcome st wid (wr_status r) (wr_reason r) s = (q, s')" by force
        have "finish st wid (Inr (Some (wr_status r), wr_reason r), ((s', w'), outs)) = (Inr r, (s', w'))"
          using st by (cases r) (auto simp: finish_def)
        moreover have "run_chain (map (make_node st eng wid inp) names) (Some (wr_status r), wr_reason r) ((s', w'), outs) =
            (Inr (Some (wr_status r), wr_reason r), ((s', w'), outs))" using st by (rule run_chain_stopped)
        ultimately show ?thesis
          using False c kr q make_node_stop [OF False kr q]
          by (cases q) (simp_all add: act_simps finish_def)
      next
        case None
        with Inr k have kn: "checkpoint eng inp w = (Inr None, w')" by simp
        obtain q c' where q: "run_step st eng wid inp name outs (s, w') = (q, c')" by (metis surj_pair)
        show ?thesis
          using False c kn q make_node_step [OF False kn q] Cons.IH
          by (cases q) (simp_all add: act_simps finish_def [of _ _ "(Inl _, _)"])
      qed
    qed
  qed
qed

lemma lg_advance_eq:
  assumes "linear_runtime invoke"
  shows "lg_advance invoke st eng wid inp = advance st eng wid inp"
proof -
  let ?nodes = "map (\<lambda>n. (n, make_node st eng wid inp n)) step_names"
  have names: "map fst ?nodes = step_names" "map snd ?nodes = map (make_node st eng wid inp) step_names"
    by (simp_all add: step_names_def)
  have "invoke ?nodes (chain_edges step_names) g c = run_chain (map (make_node st eng wid inp) step_names) g c" for g c
  proof -
    have "?nodes \<noteq> []" "distinct (map fst ?nodes)" "graph_start \<notin> fst ` set ?nodes" "graph_end \<notin> fst ` set ?nodes"
      by (simp_all add: step_names_def graph_start_def graph_end_def)
    then have "invoke ?nodes (chain_edges (map fst ?nodes)) g c = run_chain (map snd ?nodes) g c"
      using assms unfolding linear_runtime_def by blast
    then show ?thesis unfolding names .
  qed
  then have "(case invoke ?nodes (chain_edges step_names) (None, None) (c, o') of
             (Inl e, (c', _)) \<Rightarrow> (Inl e, c')
           | (Inr (status, reason), (c', _)) \<Rightarrow>
               (case status of
                  Some Wf_Cancelled \<Rightarrow> (Inr \<lparr>wr_status = Wf_Cancelled, wr_reason = reason\<rparr>, c')
                | Some Wf_Failed \<Rightarrow> (Inr \<lparr>wr_status = Wf_Failed, wr_reason = reason\<rparr>, c')
                | _ \<Rightarrow> bind_a (on_store (so_set_outcome st wid Wf_Completed None))
                     (\<lambda>_. return_a \<lparr>wr_status = Wf_Completed, wr_reason = None\<rparr>) c')) =
      run_steps st eng wid inp step_names o' c" for c o'
    using chain_runs_steps [of st wid eng inp step_names c o'] unfolding finish_def by simp
  then show ?thesis unfolding lg_advance_def advance_def by (simp cong: option.case_cong)
qed

section \<open>The contract of a store\<close>

text \<open>\<open>runs\<close> and \<open>steps\<close> are what a store state means: the known runs with their input, outcome and
  reason, and the recorded output of every completed step.\<close>

type_synonym run_view = "workflow_input \<times> workflow_status option \<times> string option"

locale workflow_store =
  fixes ops :: "'s store_ops"
    and good :: "'s \<Rightarrow> bool"
    and runs :: "'s \<Rightarrow> string \<Rightarrow> run_view option"
    and steps :: "'s \<Rightarrow> string \<Rightarrow> string \<Rightarrow> json option"
  assumes ensure_run_law: "good s \<Longrightarrow> \<exists>s'. so_ensure_run ops wid inp s = (Inr (), s') \<and> good s' \<and> steps s' = steps s \<and>
      runs s' = (if runs s wid = None then (runs s)(wid \<mapsto> (inp, None, None)) else runs s)"
    and load_input_law: "good s \<Longrightarrow> so_load_input ops wid s =
      (case runs s wid of None \<Rightarrow> Inl KeyError | Some (inp, _) \<Rightarrow> Inr inp, s)"
    and completed_outputs_law: "good s \<Longrightarrow> \<exists>outs. so_completed_outputs ops wid s = (Inr outs, s) \<and> map_of outs = steps s wid"
    and mark_step_law: "good s \<Longrightarrow> \<exists>s'. so_mark_step_completed ops wid name (Serializable v) s = (Inr (), s') \<and> good s' \<and>
      runs s' = runs s \<and>
      steps s' = (if steps s wid name = None then (steps s)(wid := (steps s wid)(name \<mapsto> v)) else steps s)"
    and mark_opaque_law: "good s \<Longrightarrow> so_mark_step_completed ops wid name Opaque s = (Inl TypeError, s)"
    and set_outcome_law: "good s \<Longrightarrow> \<exists>s'. so_set_outcome ops wid st reason s = (Inr (), s') \<and> good s' \<and> steps s' = steps s \<and>
      runs s' = (case runs s wid of None \<Rightarrow> runs s | Some (inp, _) \<Rightarrow> (runs s)(wid \<mapsto> (inp, Some st, reason)))"
    and get_state_law: "good s \<Longrightarrow> so_get_state ops wid s =
      (case runs s wid of
         None \<Rightarrow> Inl KeyError
       | Some (inp, outcome, reason) \<Rightarrow>
           Inr \<lparr>ws_workflow_id = wid, ws_completed_steps = filter (\<lambda>n. steps s wid n \<noteq> None) step_names,
                ws_outcome = outcome, ws_reason = reason\<rparr>, s)"

text \<open>An engine with a record of the handlers it called, in order.\<close>

definition traced_act :: "('w, 'a) act \<Rightarrow> ('w \<times> string list, 'a) act" where
  "traced_act m c = (case m (fst c) of (r, w') \<Rightarrow> (r, (w', snd c)))"

definition traced :: "'w engine \<Rightarrow> ('w \<times> string list) engine" where
  "traced eng =
     \<lparr>en_handler = (\<lambda>name inp outs c. case en_handler eng name inp outs (fst c) of (r, w') \<Rightarrow> (r, (w', snd c @ [name]))),
      en_heartbeat = map_option (\<lambda>f inp. traced_act (f inp)) (en_heartbeat eng),
      en_current_head_sha = map_option (\<lambda>f inp. traced_act (f inp)) (en_current_head_sha eng),
      en_record_event = map_option (\<lambda>f a b c. traced_act (f a b c)) (en_record_event eng),
      en_step_timeouts = en_step_timeouts eng,
      en_clock = (\<lambda>c. case en_clock eng (fst c) of (t, w') \<Rightarrow> (t, (w', snd c)))\<rparr>"

lemma emit_traced: "snd (snd (emit (traced eng) j ev p c)) = snd c"
  by (auto simp: emit_def traced_def traced_act_def act_simps split: option.splits prod.splits)

lemma checkpoint_traced: "snd (snd (checkpoint (traced eng) inp c)) = snd c"
proof -
  have stop: "snd (snd (stop_with (traced eng) inp ev st reason d)) = snd d" for ev st reason d
    using emit_traced [of eng "wi_job_id inp" ev "[(''reason'', reason)]" d]
    by (auto simp: stop_with_def act_simps split: prod.splits sum.splits)
  have head: "snd (snd (check_head (traced eng) inp d)) = snd d" for d
    using stop
    by (cases "en_current_head_sha eng") (auto simp: check_head_def traced_def traced_act_def act_simps split: prod.splits sum.splits)
  show ?thesis
    using stop head
    by (cases "en_heartbeat eng")
      (auto simp: checkpoint_def traced_def traced_act_def act_simps split: prod.splits sum.splits lease_state.splits)
qed

lemma run_handler_traced: "snd (snd (run_handler (traced eng) inp name outs c)) = snd c @ [name]"
  by (cases "map_of (en_step_timeouts eng) name")
    (auto simp: run_handler_def read_clock_def traced_def act_simps split: prod.splits sum.splits)

text \<open>An engine whose functions never raise, whose lease stays active and whose head stays current.\<close>

definition smooth :: "'w engine \<Rightarrow> workflow_input \<Rightarrow> bool" where
  "smooth eng inp \<longleftrightarrow>
     (\<forall>w. fst (checkpoint eng inp w) = Inr None) \<and>
     (\<forall>name outs w. \<exists>j. fst (run_handler eng inp name outs w) = Inr (Serializable j)) \<and>
     (\<forall>ev p w. fst (emit eng (wi_job_id inp) ev p w) = Inr ())"

context workflow_store
begin

text \<open>A step calls its handler once and records at most that step.\<close>

lemma run_step_effect:
  assumes "good s" "run_step ops (traced eng) wid inp name outs (s, (w, tr)) = (r, (s', (w', tr')))" "steps s wid name = None"
  shows "good s' \<and> runs s' = runs s \<and> tr' = tr @ [name] \<and>
    (steps s' = steps s \<or> (\<exists>v. steps s' = (steps s)(wid := (steps s wid)(name \<mapsto> v)))) \<and>
    (\<forall>v. r = Inr v \<longrightarrow> (\<exists>j. v = Serializable j \<and> steps s' = (steps s)(wid := (steps s wid)(name \<mapsto> j))))"
proof -
  obtain q w1 tr1 where q: "run_handler (traced eng) inp name outs (w, tr) = (q, (w1, tr1))" by (metis surj_pair)
  with run_handler_traced [of eng inp name outs "(w, tr)"] have tr1: "tr1 = tr @ [name]" by simp
  show ?thesis
  proof (cases q)
    case (Inl e)
    with q assms tr1 show ?thesis by (auto simp: run_step_def act_simps)
  next
    case (Inr v)
    show ?thesis
    proof (cases v)
      case Opaque
      with Inr q assms tr1 mark_opaque_law [OF assms(1), of wid name] show ?thesis by (auto simp: run_step_def act_simps)
    next
      case (Serializable j)
      from mark_step_law [OF assms(1), of wid name j] assms(3) obtain s1 where
        m: "so_mark_step_completed ops wid name (Serializable j) s = (Inr (), s1)" "good s1" "runs s1 = runs s"
          "steps s1 = (steps s)(wid := (steps s wid)(name \<mapsto> j))" by auto
      obtain k w2 tr2 where k: "emit (traced eng) (wi_job_id inp) ''workflow.step_completed'' [(''step'', name)] (w1, tr1) = (k, (w2, tr2))"
        by (metis surj_pair)
      with emit_traced [of eng "wi_job_id inp" "''workflow.step_completed''" "[(''step'', name)]" "(w1, tr1)"] have "tr2 = tr1" by simp
      with Inr Serializable q m k tr1 assms(2) show ?thesis
        by (cases k) (auto simp: run_step_def act_simps)
    qed
  qed
qed

definition continues :: "string \<Rightarrow> string list \<Rightarrow> 's \<Rightarrow> workflow_result result \<Rightarrow> 's \<Rightarrow> string list \<Rightarrow> bool" where
  "continues wid names s r s' calls \<longleftrightarrow>
     prefix calls (filter (\<lambda>n. steps s wid n = None) names) \<and>
     (\<forall>n v. steps s wid n = Some v \<longrightarrow> steps s' wid n = Some v) \<and>
     dom (steps s' wid) \<subseteq> dom (steps s wid) \<union> set calls \<and> set (butlast calls) \<subseteq> dom (steps s' wid) \<and>
     (\<forall>x. r = Inr x \<and> wr_status x = Wf_Completed \<longrightarrow>
        calls = filter (\<lambda>n. steps s wid n = None) names \<and> set names \<subseteq> dom (steps s' wid))"

lemma run_steps_continue:
  assumes "good s" "fst ` set outs = dom (steps s wid)" "distinct names"
    "run_steps ops (traced eng) wid inp names outs (s, (w, tr)) = (r, (s', (w', tr')))"
  shows "\<exists>calls. tr' = tr @ calls \<and> continues wid names s r s' calls"
  using assms
proof (induction names arbitrary: s w tr outs)
  case Nil
  from set_outcome_law [OF Nil.prems(1), of wid Wf_Completed None] Nil.prems(4) show ?case
    by (auto simp: act_simps continues_def)
next
  case (Cons name names)
  show ?case
  proof (cases "name \<in> fst ` set outs")
    case True
    with Cons.prems(2) obtain v where v: "steps s wid name = Some v" by auto
    from True Cons.prems(3,4) have d: "distinct names"
      and run: "run_steps ops (traced eng) wid inp names outs (s, (w, tr)) = (r, (s', (w', tr')))" by auto
    from Cons.IH [OF Cons.prems(1,2) d run] obtain calls where "tr' = tr @ calls" "continues wid names s r s' calls" by blast
    with v show ?thesis by (intro exI [of _ calls]) (auto simp: continues_def)
  next
    case False
    with Cons.prems(2) have new: "steps s wid name = None" by auto
    obtain k w1 tr1 where k: "checkpoint (traced eng) inp (w, tr) = (k, (w1, tr1))" by (metis surj_pair)
    with checkpoint_traced [of eng inp "(w, tr)"] have tr1: "tr1 = tr" by simp
    show ?thesis
    proof (cases k)
      case (Inl e)
      with False k tr1 Cons.prems(4) show ?thesis by (auto simp: act_simps continues_def)
    next
      case (Inr stopped)
      show ?thesis
      proof (cases stopped)
        case (Some x)
        with k Inr have "wr_status x \<noteq> Wf_Completed" using checkpoint_status by fastforce
        with set_outcome_law [OF Cons.prems(1), of wid "wr_status x" "wr_reason x"] False k tr1 Inr Some Cons.prems(4)
        show ?thesis by (auto simp: act_simps continues_def)
      next
        case None
        obtain q s2 w2 tr2 where q: "run_step ops (traced eng) wid inp name outs (s, (w1, tr1)) = (q, (s2, (w2, tr2)))"
          by (metis surj_pair)
        note e = run_step_effect [OF Cons.prems(1) q new]
        show ?thesis
        proof (cases q)
          case (Inl x)
          with False k Inr None q Cons.prems(4) have "r = Inl x" "s' = s2" "tr' = tr2" by (auto simp: act_simps)
          with e new tr1 show ?thesis by (auto simp: continues_def split: if_splits)
        next
          case q': (Inr v)
          with e obtain j where j: "steps s2 = (steps s)(wid := (steps s wid)(name \<mapsto> j))" and g: "good s2"
            and t2: "tr2 = tr @ [name]" using tr1 by auto
          have outs: "fst ` set (dict_set name v outs) = dom (steps s2 wid)"
            using Cons.prems(2) by (simp add: keys_dict_set j)
          have "run_steps ops (traced eng) wid inp names (dict_set name v outs) (s2, (w2, tr2)) = (r, (s', (w', tr')))"
            using False k Inr None q q' Cons.prems(4) by (simp add: act_simps)
          from Cons.IH [OF g outs _ this] Cons.prems(3) obtain calls where
            c: "tr' = tr2 @ calls" "continues wid names s2 r s' calls" by auto
          have same: "filter (\<lambda>n. steps s2 wid n = None) names = filter (\<lambda>n. steps s wid n = None) names"
            using Cons.prems(3) by (intro filter_cong) (auto simp: j)
          have "name \<in> dom (steps s' wid)" using c(2) by (auto simp: continues_def j)
          moreover have kept: "steps s' wid n = Some u" if "steps s wid n = Some u" for n u
            using c(2) that new by (cases "n = name") (auto simp: continues_def j)
          ultimately have "continues wid (name # names) s r s' (name # calls)"
            using c(2) same new unfolding continues_def j by (auto split: if_splits)
          with c(1) t2 show ?thesis by auto
        qed
      qed
    qed
  qed
qed

lemma run_steps_smooth:
  assumes "good s" "smooth eng inp"
  shows "fst (run_steps ops eng wid inp names outs (s, w)) = Inr \<lparr>wr_status = Wf_Completed, wr_reason = None\<rparr>"
  using assms(1)
proof (induction names arbitrary: s w outs)
  case Nil
  from set_outcome_law [OF Nil, of wid Wf_Completed None] show ?case by (auto simp: act_simps)
next
  case (Cons name names)
  obtain w1 where k: "checkpoint eng inp w = (Inr None, w1)" using assms(2) unfolding smooth_def by (metis prod.collapse)
  obtain j w2 where h: "run_handler eng inp name outs w1 = (Inr (Serializable j), w2)"
    using assms(2) unfolding smooth_def by (metis prod.collapse)
  obtain s1 where m: "so_mark_step_completed ops wid name (Serializable j) s = (Inr (), s1)" "good s1"
    using mark_step_law [OF Cons.prems, of wid name j] by auto
  obtain w3 where e: "emit eng (wi_job_id inp) ''workflow.step_completed'' [(''step'', name)] w2 = (Inr (), w3)"
    using assms(2) unfolding smooth_def by (metis prod.collapse)
  from Cons.IH [OF Cons.prems, of outs w] Cons.IH [OF m(2), of "dict_set name (Serializable j) outs" w3] k h m e
  show ?case by (simp add: run_step_def act_simps)
qed

lemma advance_final:
  "good s \<Longrightarrow> runs s wid = Some (inp', Some st, reason) \<Longrightarrow>
   advance ops eng wid inp (s, w) = (Inr \<lparr>wr_status = st, wr_reason = reason\<rparr>, (s, w))"
  by (simp add: advance_def act_simps get_state_law)

lemma advance_open:
  assumes "good s" "runs s wid = Some (inp', None, reason)"
  shows "\<exists>outs. fst ` set outs = dom (steps s wid) \<and>
    advance ops eng wid inp (s, w) = run_steps ops eng wid inp step_names outs (s, w)"
proof -
  from completed_outputs_law [OF assms(1), of wid] obtain outs where
    o: "so_completed_outputs ops wid s = (Inr outs, s)" "map_of outs = steps s wid" by blast
  then have "fst ` set (map (\<lambda>(n, v). (n, Serializable v)) outs) = dom (steps s wid)"
    by (metis (no_types, lifting) case_prod_beta dom_map_of_conv_image_fst fst_conv image_cong image_image set_map)
  with assms o show ?thesis
    by (intro exI [of _ "map (\<lambda>(n, v). (n, Serializable v)) outs"]) (simp add: advance_def act_simps get_state_law)
qed

lemma resume_continues:
  assumes "good s" "runs s wid = Some (inp, None, reason)"
    "engine_resume ops (traced eng) wid (s, (w, [])) = (r, (s', (w', calls)))"
  shows "continues wid step_names s r s' calls \<and>
    (smooth (traced eng) inp \<longrightarrow> r = Inr \<lparr>wr_status = Wf_Completed, wr_reason = None\<rparr>)"
proof -
  have "engine_resume ops (traced eng) wid (s, (w, [])) = advance ops (traced eng) wid inp (s, (w, []))"
    using assms(1,2) by (simp add: engine_resume_def act_simps load_input_law)
  with advance_open [OF assms(1,2)] assms(3) obtain outs where o: "fst ` set outs = dom (steps s wid)"
    and run: "run_steps ops (traced eng) wid inp step_names outs (s, (w, [])) = (r, (s', (w', calls)))" by metis
  have "distinct step_names" by (simp add: step_names_def)
  from run_steps_continue [OF assms(1) o this run] run_steps_smooth [OF assms(1), of "traced eng" inp wid step_names outs "(w, [])"] run
  show ?thesis by auto
qed

lemma resume_final:
  "good s \<Longrightarrow> runs s wid = Some (inp, Some st, reason) \<Longrightarrow>
   engine_resume ops eng wid (s, w) = (Inr \<lparr>wr_status = st, wr_reason = reason\<rparr>, (s, w))"
  by (simp add: engine_resume_def act_simps load_input_law advance_final)

end

section \<open>The SQLite store meets the contract\<close>

definition tables_ok :: "workflow_tables \<Rightarrow> bool" where
  "tables_ok t \<longleftrightarrow> distinct (map wu_workflow_id (workflow_runs t)) \<and>
     distinct (map (\<lambda>p. (wp_workflow_id p, wp_step_name p)) (workflow_steps t))"

definition table_runs :: "workflow_tables \<Rightarrow> string \<Rightarrow> run_view option" where
  "table_runs t wid = map_option (\<lambda>r. (wu_input r, wu_outcome r, wu_reason r))
     (fetchone (\<lambda>r. wu_workflow_id r = wid) (workflow_runs t))"

definition table_steps :: "workflow_tables \<Rightarrow> string \<Rightarrow> string \<Rightarrow> json option" where
  "table_steps t wid name = map_option wp_output
     (fetchone (\<lambda>p. wp_workflow_id p = wid \<and> wp_step_name p = name) (workflow_steps t))"

lemma table_steps_iff:
  "tables_ok t \<Longrightarrow> table_steps t wid name = Some v \<longleftrightarrow>
     (\<exists>p \<in> set (workflow_steps t). wp_workflow_id p = wid \<and> wp_step_name p = name \<and> wp_output p = v)"
proof -
  assume ok: "tables_ok t"
  have inj: "p = q" if "p \<in> set (workflow_steps t)" "q \<in> set (workflow_steps t)"
    "wp_workflow_id p = wp_workflow_id q" "wp_step_name p = wp_step_name q" for p q
    using ok that unfolding tables_ok_def distinct_map inj_on_def by blast
  show ?thesis
  proof (cases "fetchone (\<lambda>p. wp_workflow_id p = wid \<and> wp_step_name p = name) (workflow_steps t)")
    case None
    then have "table_steps t wid name = None" by (simp add: table_steps_def)
    with None show ?thesis by (auto simp: fetchone_None)
  next
    case (Some p)
    with fetchone_Some [OF Some] show ?thesis unfolding table_steps_def by (auto dest: inj)
  qed
qed

lemma completed_outputs_map:
  assumes "tables_ok t" "completed_outputs wid t = (Inr outs, t')"
  shows "map_of outs = table_steps t wid"
proof -
  let ?rows = "filter (\<lambda>p. wp_workflow_id p = wid) (workflow_steps t)"
  let ?items = "map (\<lambda>p. (wp_step_name p, wp_output p)) (sort_key (\<lambda>p. (wp_completed_at p, wp_step_name p)) ?rows)"
  have "distinct (workflow_steps t)" "inj_on wp_step_name (set ?rows)"
    using assms(1) by (auto simp: tables_ok_def distinct_map inj_on_def)
  then have di: "distinct (map fst ?items)" by (simp add: o_def distinct_map)
  then have "map_of outs = map_of ?items" using assms(2) by (auto simp: completed_outputs_def dict_of_distinct)
  moreover have "map_of ?items name = table_steps t wid name" for name
  proof (cases "table_steps t wid name")
    case (Some v)
    with table_steps_iff [OF assms(1)] have "(name, v) \<in> set ?items" by force
    with di Some show ?thesis by simp
  next
    case None
    then have "fetchone (\<lambda>p. wp_workflow_id p = wid \<and> wp_step_name p = name) (workflow_steps t) = None"
      by (simp add: table_steps_def)
    then have "name \<notin> fst ` set ?items" by (auto simp: fetchone_None)
    with None show ?thesis by (simp add: map_of_eq_None_iff)
  qed
  ultimately show ?thesis by auto
qed

lemma table_steps_dom: "n \<in> dom (table_steps t wid) \<longleftrightarrow> (wid, n) \<in> (\<lambda>p. (wp_workflow_id p, wp_step_name p)) ` set (workflow_steps t)"
proof -
  have "table_steps t wid n = None \<longleftrightarrow> (\<forall>p \<in> set (workflow_steps t). \<not> (wp_workflow_id p = wid \<and> wp_step_name p = n))"
    by (simp add: table_steps_def fetchone_None)
  then show ?thesis by (auto simp: domIff image_iff)
qed

lemma table_runs_dom: "table_runs t wid = None \<longleftrightarrow> wid \<notin> wu_workflow_id ` set (workflow_runs t)"
  by (auto simp: table_runs_def fetchone_None)

lemma sqlite_ensure_run:
  assumes "tables_ok t"
  shows "\<exists>t'. ensure_run wid inp t = (Inr (), t') \<and> tables_ok t' \<and> table_steps t' = table_steps t \<and>
    table_runs t' = (if table_runs t wid = None then (table_runs t)(wid \<mapsto> (inp, None, None)) else table_runs t)"
proof (cases "wid \<in> wu_workflow_id ` set (workflow_runs t)")
  case True
  with assms show ?thesis by (simp add: ensure_run_def table_runs_dom)
next
  case False
  let ?t' = "snd (ensure_run wid inp t)"
  have "table_runs ?t' = (table_runs t)(wid \<mapsto> (inp, None, None))"
  proof
    fix x
    have "fetchone (\<lambda>r. wu_workflow_id r = wid) (workflow_runs t) = None" using False by (auto simp: fetchone_None)
    with False show "table_runs ?t' x = ((table_runs t)(wid \<mapsto> (inp, None, None))) x"
      by (cases "fetchone (\<lambda>r. wu_workflow_id r = x) (workflow_runs t)")
        (auto simp: ensure_run_def table_runs_def fetchone_append)
  qed
  moreover have "tables_ok ?t'" "table_steps ?t' = table_steps t"
    using assms False by (auto simp: ensure_run_def tables_ok_def table_steps_def fun_eq_iff)
  ultimately show ?thesis using False by (simp add: table_runs_dom ensure_run_def)
qed

lemma sqlite_mark_step:
  assumes "tables_ok t"
  shows "\<exists>t'. mark_step_completed wid name (Serializable v) t = (Inr (), t') \<and> tables_ok t' \<and> table_runs t' = table_runs t \<and>
    table_steps t' = (if table_steps t wid name = None then (table_steps t)(wid := (table_steps t wid)(name \<mapsto> v)) else table_steps t)"
proof (cases "(wid, name) \<in> (\<lambda>p. (wp_workflow_id p, wp_step_name p)) ` set (workflow_steps t)")
  case True
  with assms show ?thesis using table_steps_dom [of name t wid] by (auto simp: mark_step_completed_def)
next
  case False
  let ?t' = "snd (mark_step_completed wid name (Serializable v) t)"
  have none: "fetchone (\<lambda>p. wp_workflow_id p = wid \<and> wp_step_name p = name) (workflow_steps t) = None"
    using False by (auto simp: fetchone_None image_iff)
  have "table_steps ?t' x y = ((table_steps t)(wid := (table_steps t wid)(name \<mapsto> v))) x y" for x y
    using False none
    by (cases "fetchone (\<lambda>p. wp_workflow_id p = x \<and> wp_step_name p = y) (workflow_steps t)")
      (auto simp: mark_step_completed_def table_steps_def fetchone_append)
  then have "table_steps ?t' = (table_steps t)(wid := (table_steps t wid)(name \<mapsto> v))" by blast
  moreover have "tables_ok ?t'" using assms False by (simp add: mark_step_completed_def tables_ok_def)
  moreover have "table_runs ?t' = table_runs t" using False by (simp add: mark_step_completed_def table_runs_def fun_eq_iff)
  moreover have "table_steps t wid name = None" using none by (simp add: table_steps_def)
  ultimately show ?thesis using False by (simp add: mark_step_completed_def)
qed

lemma sqlite_set_outcome:
  assumes "tables_ok t"
  shows "\<exists>t'. set_outcome wid st reason t = (Inr (), t') \<and> tables_ok t' \<and> table_steps t' = table_steps t \<and>
    table_runs t' = (case table_runs t wid of None \<Rightarrow> table_runs t | Some (inp, _) \<Rightarrow> (table_runs t)(wid \<mapsto> (inp, Some st, reason)))"
proof -
  let ?f = "\<lambda>r. r\<lparr>wu_outcome := Some st, wu_reason := reason, wu_updated_at := wt_clock t\<rparr>"
  let ?rows = "update_where (\<lambda>r. wu_workflow_id r = wid) ?f (workflow_runs t)"
  have row: "fetchone (\<lambda>r. wu_workflow_id r = x) (update_where (\<lambda>r. wu_workflow_id r = wid) ?f rs) =
      map_option (\<lambda>r. if x = wid then ?f r else r) (fetchone (\<lambda>r. wu_workflow_id r = x) rs)" for x rs
    by (induction rs) auto
  have "map_option (\<lambda>r. (wu_input r, wu_outcome r, wu_reason r)) (fetchone (\<lambda>r. wu_workflow_id r = x) ?rows) =
      (case table_runs t wid of None \<Rightarrow> table_runs t | Some (inp, _) \<Rightarrow> (table_runs t)(wid \<mapsto> (inp, Some st, reason))) x" for x
    unfolding row
    by (cases "x = wid"; cases "fetchone (\<lambda>r. wu_workflow_id r = x) (workflow_runs t)")
      (auto simp: table_runs_def split: option.splits)
  moreover have "map wu_workflow_id ?rows = map wu_workflow_id (workflow_runs t)" by (simp add: map_update_where)
  ultimately show ?thesis using assms
    by (auto simp: set_outcome_def tables_ok_def table_steps_def table_runs_def fun_eq_iff)
qed

lemma sqlite_get_state:
  assumes "tables_ok t"
  shows "get_state wid t =
    (case table_runs t wid of
       None \<Rightarrow> Inl KeyError
     | Some (inp, outcome, reason) \<Rightarrow>
         Inr \<lparr>ws_workflow_id = wid, ws_completed_steps = filter (\<lambda>n. table_steps t wid n \<noteq> None) step_names,
              ws_outcome = outcome, ws_reason = reason\<rparr>, t)"
proof -
  obtain outs where o: "completed_outputs wid t = (Inr outs, t)" by (simp add: completed_outputs_def)
  from completed_outputs_map [OF assms o] have "n \<in> fst ` set outs \<longleftrightarrow> table_steps t wid n \<noteq> None" for n
    by (metis dom_map_of_conv_image_fst domIff)
  with o show ?thesis
    by (auto simp: get_state_def table_runs_def act_simps split: option.splits)
qed

interpretation sqlite: workflow_store sqlite_store tables_ok table_runs table_steps
proof
  fix s :: workflow_tables and wid inp name v st reason
  assume ok: "tables_ok s"
  show "\<exists>s'. so_ensure_run sqlite_store wid inp s = (Inr (), s') \<and> tables_ok s' \<and> table_steps s' = table_steps s \<and>
      table_runs s' = (if table_runs s wid = None then (table_runs s)(wid \<mapsto> (inp, None, None)) else table_runs s)"
    using sqlite_ensure_run [OF ok] by (simp add: sqlite_store_def)
  show "so_load_input sqlite_store wid s = (case table_runs s wid of None \<Rightarrow> Inl KeyError | Some (inp, _) \<Rightarrow> Inr inp, s)"
    by (simp add: sqlite_store_def load_input_def table_runs_def split: option.splits)
  show "\<exists>outs. so_completed_outputs sqlite_store wid s = (Inr outs, s) \<and> map_of outs = table_steps s wid"
  proof -
    obtain outs where o: "completed_outputs wid s = (Inr outs, s)" by (simp add: completed_outputs_def)
    with completed_outputs_map [OF ok o] show ?thesis by (simp add: sqlite_store_def)
  qed
  show "\<exists>s'. so_mark_step_completed sqlite_store wid name (Serializable v) s = (Inr (), s') \<and> tables_ok s' \<and> table_runs s' = table_runs s \<and>
      table_steps s' = (if table_steps s wid name = None then (table_steps s)(wid := (table_steps s wid)(name \<mapsto> v)) else table_steps s)"
    using sqlite_mark_step [OF ok] by (simp add: sqlite_store_def)
  show "so_mark_step_completed sqlite_store wid name Opaque s = (Inl TypeError, s)"
    by (simp add: sqlite_store_def mark_step_completed_def)
  show "\<exists>s'. so_set_outcome sqlite_store wid st reason s = (Inr (), s') \<and> tables_ok s' \<and> table_steps s' = table_steps s \<and>
      table_runs s' = (case table_runs s wid of None \<Rightarrow> table_runs s | Some (inp, _) \<Rightarrow> (table_runs s)(wid \<mapsto> (inp, Some st, reason)))"
    using sqlite_set_outcome [OF ok] by (simp add: sqlite_store_def)
  show "so_get_state sqlite_store wid s =
      (case table_runs s wid of None \<Rightarrow> Inl KeyError
       | Some (inp, outcome, reason) \<Rightarrow>
           Inr \<lparr>ws_workflow_id = wid, ws_completed_steps = filter (\<lambda>n. table_steps s wid n \<noteq> None) step_names,
                ws_outcome = outcome, ws_reason = reason\<rparr>, s)"
    using sqlite_get_state [OF ok] by (simp add: sqlite_store_def)
qed

section \<open>Properties\<close>

text \<open>C14. A crash loses no finished work and repeats none: resuming an unfinished run calls the handlers of
  exactly the steps that have no recorded output, in pipeline order, up to the one where it stops; recorded
  outputs are never changed; a resume that reports completion has every step recorded, and it does report
  completion when nothing raises and the lease and head stay good; and a run that has an outcome answers
  with it, calling and changing nothing.\<close>

theorem resume_repeats_no_completed_step:
  assumes "tables_ok t" "table_runs t wid = Some (inp, None, reason)"
    "engine_resume sqlite_store (traced eng) wid (t, (w, [])) = (r, (t', (w', calls)))"
  shows "prefix calls (filter (\<lambda>n. table_steps t wid n = None) step_names) \<and>
    (\<forall>n v. table_steps t wid n = Some v \<longrightarrow> table_steps t' wid n = Some v) \<and>
    dom (table_steps t' wid) \<subseteq> dom (table_steps t wid) \<union> set calls \<and> set (butlast calls) \<subseteq> dom (table_steps t' wid) \<and>
    (\<forall>x. r = Inr x \<and> wr_status x = Wf_Completed \<longrightarrow>
       calls = filter (\<lambda>n. table_steps t wid n = None) step_names \<and> set step_names \<subseteq> dom (table_steps t' wid)) \<and>
    (smooth (traced eng) inp \<longrightarrow> r = Inr \<lparr>wr_status = Wf_Completed, wr_reason = None\<rparr>) \<and>
    (\<forall>t2 wid2 inp2 st reason2. tables_ok t2 \<and> table_runs t2 wid2 = Some (inp2, Some st, reason2) \<longrightarrow>
       engine_resume sqlite_store eng wid2 (t2, w) = (Inr \<lparr>wr_status = st, wr_reason = reason2\<rparr>, (t2, w)))"
proof -
  have "\<forall>t2 wid2 inp2 st reason2. tables_ok t2 \<and> table_runs t2 wid2 = Some (inp2, Some st, reason2) \<longrightarrow>
       engine_resume sqlite_store eng wid2 (t2, w) = (Inr \<lparr>wr_status = st, wr_reason = reason2\<rparr>, (t2, w))"
    by (intro allI impI, elim conjE) (rule sqlite.resume_final)
  with sqlite.resume_continues [OF assms] show ?thesis
    unfolding sqlite.continues_def by (elim conjE) (intro conjI, assumption+)
qed

definition idle_engine :: "unit engine" where
  "idle_engine = \<lparr>en_handler = (\<lambda>name inp outs w. (Inr (Serializable JNull), w)), en_heartbeat = Some (\<lambda>inp w. (Inr Active, w)),
     en_current_head_sha = None, en_record_event = None, en_step_timeouts = [], en_clock = (\<lambda>w. (0, w))\<rparr>"

definition half_done :: workflow_tables where
  "half_done = \<lparr>workflow_runs = [\<lparr>wu_workflow_id = ''r'', wu_job_id = ''j'', wu_head_sha = ''h'', wu_trace_id = ''t'',
       wu_lease_token = ''l'', wu_input = \<lparr>wi_job_id = ''j'', wi_head_sha = ''h'', wi_trace_id = ''t'', wi_lease_token = ''l''\<rparr>,
       wu_outcome = None, wu_reason = None, wu_updated_at = 0\<rparr>],
     workflow_steps = [\<lparr>wp_workflow_id = ''r'', wp_step_name = ''fetch'', wp_output = JNull, wp_completed_at = 0\<rparr>], wt_clock = 1\<rparr>"

lemma idle_smooth: "smooth (traced idle_engine) inp"
  by (simp add: smooth_def checkpoint_def check_head_def run_handler_def read_clock_def emit_def traced_def traced_act_def
      idle_engine_def act_simps)

theorem resume_repeats_no_completed_step_witness:
  "\<exists>t' calls. engine_resume sqlite_store (traced idle_engine) ''r'' (half_done, ((), [])) =
      (Inr \<lparr>wr_status = Wf_Completed, wr_reason = None\<rparr>, (t', ((), calls))) \<and>
    calls = [''baseline_review'', ''retrieval'', ''verification'', ''routing'', ''storage''] \<and>
    set step_names \<subseteq> dom (table_steps t' ''r'')"
proof -
  let ?inp = "\<lparr>wi_job_id = ''j'', wi_head_sha = ''h'', wi_trace_id = ''t'', wi_lease_token = ''l''\<rparr>"
  have ok: "tables_ok half_done" by (simp add: tables_ok_def half_done_def)
  have run: "table_runs half_done ''r'' = Some (?inp, None, None)" by (simp add: table_runs_def half_done_def)
  obtain r t' calls where e: "engine_resume sqlite_store (traced idle_engine) ''r'' (half_done, ((), [])) = (r, (t', ((), calls)))"
    by (metis old.unit.exhaust surj_pair)
  note p = resume_repeats_no_completed_step [OF ok run e]
  from p idle_smooth have r: "r = Inr \<lparr>wr_status = Wf_Completed, wr_reason = None\<rparr>" by blast
  with p have "calls = filter (\<lambda>n. table_steps half_done ''r'' n = None) step_names" "set step_names \<subseteq> dom (table_steps t' ''r'')"
    by auto
  with e r show ?thesis by (simp add: table_steps_def half_done_def step_names_def)
qed

text \<open>The LangGraph engine is the plain engine: over a graph runtime that runs a linear chain in order,
  running, resuming and reviewing give the same result, the same exceptions, the same store and the same
  effects on the world, for every store, handlers and input.\<close>

theorem langgraph_engine_agrees:
  assumes "linear_runtime invoke"
  shows "lg_run invoke st eng wid inp c = engine_run st eng wid inp c \<and>
    lg_resume invoke st eng wid c = engine_resume st eng wid c \<and>
    lg_review invoke sha256 st eng job c = engine_review sha256 st eng job c"
  by (simp add: lg_run_def lg_resume_def lg_review_def engine_run_def engine_resume_def engine_review_def lg_advance_eq [OF assms])

definition sequential_runtime :: "('s, 'w) graph_runtime" where
  "sequential_runtime nodes edges = run_chain (map snd nodes)"

theorem langgraph_engine_agrees_witness:
  "lg_resume sequential_runtime sqlite_store idle_engine ''r'' (half_done, ()) =
   engine_resume sqlite_store idle_engine ''r'' (half_done, ())"
proof -
  have "linear_runtime (sequential_runtime :: (workflow_tables, unit) graph_runtime)"
    by (simp add: linear_runtime_def sequential_runtime_def)
  from langgraph_engine_agrees [OF this] show ?thesis by blast
qed

end
