(* ===== verification/Pull_Request.thy ===== *)
theory Pull_Request
  imports Runner_Jobs
begin

text \<open>
  Reading a pull request from GitHub: \<^verbatim>\<open>github/pull_request.py\<close> (the snapshot, its normalisation, the
  paged list of changed files, the completion of patches that GitHub left out),
  \<^verbatim>\<open>github/installation_repositories.py\<close> (the same paged loop), \<^verbatim>\<open>github/open_pull_requests.py\<close> and
  \<^verbatim>\<open>runner/github_access.py\<close>.  The HTTP client is a parameter: a function from a URL to an action that
  changes an arbitrary world and returns a response or raises.  The headers and the time limit, which
  are the same for every request of a call, are part of that parameter.
\<close>

section \<open>The snapshot\<close>

datatype omission_reason =
    Token_Budget
  | Patch_Omitted_By_Github
  | Patch_Truncated_By_Github
  | Omit_Binary
  | Omit_Generated
  | Ignored_Path
  | File_Size_Limit
  | Clone_Timed_Out

datatype github_file_status = File_Added | File_Modified | File_Removed | File_Renamed

record github_pull_request_file =
  gf_filename :: string
  gf_status :: string
  gf_patch :: "string option"
  gf_previous_filename :: "string option"

record pull_request_file =
  pf_path :: string
  pf_status :: github_file_status
  pf_patch :: "string option"
  pf_previous_path :: "string option"
  pf_truncated :: bool
  pf_binary :: bool
  pf_omission_reason :: "omission_reason option"

record pull_request_snapshot =
  snap_repo_owner :: string
  snap_repo_name :: string
  snap_number :: int
  snap_base_sha :: string
  snap_head_sha :: string
  snap_title :: string
  snap_body :: string
  snap_files :: "pull_request_file list"
  snap_identity :: "repository_identity option"
  snap_draft :: bool

text \<open>\<open>PullRequestSnapshot(...)\<close> validates \<open>Field(min_length=1)\<close> and \<open>Field(gt=0)\<close>; the identity and
  the draft flag keep their defaults in both callers.\<close>

definition make_snapshot ::
  "string \<Rightarrow> string \<Rightarrow> int \<Rightarrow> string \<Rightarrow> string \<Rightarrow> string \<Rightarrow> string \<Rightarrow> pull_request_file list \<Rightarrow> pull_request_snapshot result" where
  "make_snapshot owner name n base head title body files =
     (if owner \<noteq> [] \<and> name \<noteq> [] \<and> 0 < n \<and> base \<noteq> [] \<and> head \<noteq> []
      then Inr \<lparr>snap_repo_owner = owner, snap_repo_name = name, snap_number = n, snap_base_sha = base, snap_head_sha = head,
                snap_title = title, snap_body = body, snap_files = files, snap_identity = None, snap_draft = False\<rparr>
      else Inl ValueError)"

definition normalize_file_status :: "string \<Rightarrow> github_file_status result" where
  "normalize_file_status status =
     (if status = ''added'' then Inr File_Added
      else if status = ''modified'' then Inr File_Modified
      else if status = ''removed'' then Inr File_Removed
      else if status = ''renamed'' then Inr File_Renamed
      else Inl ValueError)"

definition normalize_file :: "github_pull_request_file \<Rightarrow> pull_request_file result" where
  "normalize_file file =
     bind_r (normalize_file_status (gf_status file)) (\<lambda>status.
       if gf_filename file = [] then Inl ValueError
       else Inr \<lparr>pf_path = gf_filename file, pf_status = status, pf_patch = gf_patch file,
                 pf_previous_path = gf_previous_filename file, pf_truncated = False, pf_binary = False,
                 pf_omission_reason = None\<rparr>)"

text \<open>A list comprehension whose element expression may raise.\<close>

fun map_r :: "('a \<Rightarrow> 'b result) \<Rightarrow> 'a list \<Rightarrow> 'b list result" where
  "map_r f [] = Inr []"
| "map_r f (x # xs) = bind_r (f x) (\<lambda>y. bind_r (map_r f xs) (\<lambda>ys. Inr (y # ys)))"

text \<open>\<open>x or ""\<close>, and a value that pydantic accepts for a \<open>str\<close> field.\<close>

fun json_truthy :: "json \<Rightarrow> bool" where
  "json_truthy JNull = False"
| "json_truthy (JBool b) = b"
| "json_truthy (JInt i) = (i \<noteq> 0)"
| "json_truthy (JFloat f) = (f \<noteq> Finite 0)"
| "json_truthy (JStr s) = (s \<noteq> [])"
| "json_truthy (JArr xs) = (xs \<noteq> [])"
| "json_truthy (JObj kvs) = (kvs \<noteq> [])"

fun str_field :: "json \<Rightarrow> string result" where
  "str_field (JStr s) = Inr s"
| "str_field _ = Inl ValueError"

definition or_empty :: "json \<Rightarrow> json" where
  "or_empty v = (if json_truthy v then v else JStr [])"

definition normalize_github_pull_request ::
  "pull_request_ref \<Rightarrow> json \<Rightarrow> github_pull_request_file list \<Rightarrow> pull_request_snapshot result" where
  "normalize_github_pull_request ref pull_request files =
     bind_r (bind_r (json_item pull_request ''base'') (\<lambda>b. json_item b ''sha'')) (\<lambda>base_sha.
     bind_r (bind_r (json_item pull_request ''head'') (\<lambda>h. json_item h ''sha'')) (\<lambda>head_sha.
     bind_r (json_item pull_request ''title'') (\<lambda>title.
     bind_r (json_item pull_request ''body'') (\<lambda>body.
     bind_r (map_r normalize_file files) (\<lambda>fs.
     bind_r (str_field base_sha) (\<lambda>base. bind_r (str_field head_sha) (\<lambda>head.
     bind_r (str_field title) (\<lambda>t. bind_r (str_field (or_empty body)) (\<lambda>b.
       make_snapshot (pr_owner ref) (pr_repository ref) (pr_number ref) base head t b fs)))))))))"

definition normalize_github_pull_request_by_repository_id ::
  "(json \<Rightarrow> string) \<Rightarrow> int \<Rightarrow> json \<Rightarrow> github_pull_request_file list \<Rightarrow> pull_request_snapshot result" where
  "normalize_github_pull_request_by_repository_id repr number body files =
     bind_r (bind_r (json_item body ''base'') (\<lambda>b. json_item b ''repo'')) (\<lambda>repo.
     bind_r (bind_r (json_item repo ''owner'') (\<lambda>ow. json_item ow ''login'')) (\<lambda>owner.
     bind_r (json_item repo ''name'') (\<lambda>name.
     bind_r (bind_r (json_item body ''base'') (\<lambda>b. json_item b ''sha'')) (\<lambda>base.
     bind_r (bind_r (json_item body ''head'') (\<lambda>h. json_item h ''sha'')) (\<lambda>head.
     bind_r (json_item body ''title'') (\<lambda>title.
     bind_r (json_item body ''body'') (\<lambda>b.
     bind_r (map_r normalize_file files) (\<lambda>fs.
       make_snapshot (py_str repr owner) (py_str repr name) number (py_str repr base) (py_str repr head)
         (py_str repr title) (py_str repr (or_empty b)) fs))))))))"

section \<open>The paged requests\<close>

record http_reply =
  hr_status :: nat
  hr_body :: "json result"
  hr_links :: "(string \<times> (string \<times> string) list) list"

type_synonym 'w http_get = "string \<Rightarrow> ('w, http_reply) act"

definition raise_for_status :: "http_reply \<Rightarrow> unit result" where
  "raise_for_status reply =
     (if 200 \<le> hr_status reply \<and> hr_status reply \<le> 299 then Inr () else Inl (HTTPStatusError (hr_status reply)))"

definition get_next_link :: "http_reply \<Rightarrow> string option" where
  "get_next_link reply =
     (case map_of (hr_links reply) ''next'' of
        None \<Rightarrow> None
      | Some link \<Rightarrow> (case map_of link ''url'' of Some url \<Rightarrow> if url \<noteq> [] then Some url else None | None \<Rightarrow> None))"

text \<open>\<open>GitHubPullRequestFile.model_validate(file)\<close>: two non-empty strings and two optional ones; further
  keys are ignored.\<close>

fun optional_str_field :: "json option \<Rightarrow> string option result" where
  "optional_str_field None = Inr None"
| "optional_str_field (Some JNull) = Inr None"
| "optional_str_field (Some (JStr s)) = Inr (Some s)"
| "optional_str_field (Some _) = Inl ValueError"

fun validate_file :: "json \<Rightarrow> github_pull_request_file result" where
  "validate_file (JObj kvs) =
     (case (map_of kvs ''filename'', map_of kvs ''status'') of
        (Some (JStr filename), Some (JStr status)) \<Rightarrow>
          if filename = [] \<or> status = [] then Inl ValueError
          else bind_r (optional_str_field (map_of kvs ''patch'')) (\<lambda>patch.
               bind_r (optional_str_field (map_of kvs ''previous_filename'')) (\<lambda>previous.
                 Inr \<lparr>gf_filename = filename, gf_status = status, gf_patch = patch, gf_previous_filename = previous\<rparr>))
      | _ \<Rightarrow> Inl ValueError)"
| "validate_file _ = Inl ValueError"

text \<open>Iteration over a decoded JSON value: a dictionary yields its keys, a string its characters.\<close>

fun json_iter :: "json \<Rightarrow> json list result" where
  "json_iter (JArr xs) = Inr xs"
| "json_iter (JObj kvs) = Inr (map (\<lambda>(k, v). JStr k) kvs)"
| "json_iter (JStr s) = Inr (map (\<lambda>c. JStr [c]) s)"
| "json_iter _ = Inl TypeError"

definition file_page :: "http_reply \<Rightarrow> github_pull_request_file list result" where
  "file_page reply =
     bind_r (raise_for_status reply) (\<lambda>_. bind_r (hr_body reply) (\<lambda>body.
     bind_r (json_iter body) (map_r validate_file)))"

text \<open>The loop \<^verbatim>\<open>while next_url is not None\<close>: one request, its page decoded and appended, the next
  link followed.  Nothing bounds the number of pages; not returning is \<open>None\<close>.\<close>

partial_function (option) fetch_pages ::
  "(http_reply \<Rightarrow> 'a list result) \<Rightarrow> 'w http_get \<Rightarrow> string \<Rightarrow> 'a list \<Rightarrow> 'w \<Rightarrow> ('a list result \<times> 'w) option" where
  "fetch_pages page get url acc w =
     (case get url w of
        (Inl e, w') \<Rightarrow> Some (Inl e, w')
      | (Inr reply, w') \<Rightarrow>
          (case page reply of
             Inl e \<Rightarrow> Some (Inl e, w')
           | Inr xs \<Rightarrow>
               (case get_next_link reply of
                  None \<Rightarrow> Some (Inr (acc @ xs), w')
                | Some next_url \<Rightarrow> fetch_pages page get next_url (acc @ xs) w')))"

definition fetch_all_pull_request_files ::
  "'w http_get \<Rightarrow> string \<Rightarrow> 'w \<Rightarrow> (github_pull_request_file list result \<times> 'w) option" where
  "fetch_all_pull_request_files get url w = fetch_pages file_page get url [] w"

text \<open>\<open>create_token\<close> is the token provider; \<open>get_with token\<close> is the client with the headers that carry
  the token.\<close>

definition fetch_pull_request ::
  "string \<Rightarrow> (int \<Rightarrow> ('w, string) act) \<Rightarrow> (string \<Rightarrow> 'w http_get) \<Rightarrow> int \<Rightarrow> pull_request_ref \<Rightarrow> 'w
   \<Rightarrow> (pull_request_snapshot result \<times> 'w) option" where
  "fetch_pull_request api_base_url create_token get_with installation_id ref w =
     (case create_token installation_id w of
        (Inl e, w1) \<Rightarrow> Some (Inl e, w1)
      | (Inr token, w1) \<Rightarrow>
        let url = api_base_url @ ''/repos/'' @ pr_owner ref @ ''/'' @ pr_repository ref @ ''/pulls/'' @ show_int (pr_number ref)
        in case get_with token url w1 of
             (Inl e, w2) \<Rightarrow> Some (Inl e, w2)
           | (Inr reply, w2) \<Rightarrow>
             (case raise_for_status reply of
                Inl e \<Rightarrow> Some (Inl e, w2)
              | Inr _ \<Rightarrow>
                (case fetch_all_pull_request_files (get_with token) (url @ ''/files'') w2 of
                   None \<Rightarrow> None
                 | Some (Inl e, w3) \<Rightarrow> Some (Inl e, w3)
                 | Some (Inr files, w3) \<Rightarrow>
                     Some (bind_r (hr_body reply) (\<lambda>body. normalize_github_pull_request ref body files), w3))))"

definition fetch_pull_request_by_repository_id ::
  "(json \<Rightarrow> string) \<Rightarrow> string \<Rightarrow> (string \<Rightarrow> 'w http_get) \<Rightarrow> int \<Rightarrow> int \<Rightarrow> string \<Rightarrow> 'w
   \<Rightarrow> (pull_request_snapshot result \<times> 'w) option" where
  "fetch_pull_request_by_repository_id repr api_base_url get_with repository_id number token w =
     (let url = api_base_url @ ''/repositories/'' @ show_int repository_id @ ''/pulls/'' @ show_int number
      in case get_with token url w of
           (Inl e, w1) \<Rightarrow> Some (Inl e, w1)
         | (Inr reply, w1) \<Rightarrow>
           (case bind_r (raise_for_status reply) (\<lambda>_. hr_body reply) of
              Inl e \<Rightarrow> Some (Inl e, w1)
            | Inr body \<Rightarrow>
              (case fetch_all_pull_request_files (get_with token) (url @ ''/files'') w1 of
                 None \<Rightarrow> None
               | Some (Inl e, w2) \<Rightarrow> Some (Inl e, w2)
               | Some (Inr files, w2) \<Rightarrow>
                   Some (normalize_github_pull_request_by_repository_id repr number body files, w2))))"

definition fetch_job_snapshot ::
  "(json \<Rightarrow> string) \<Rightarrow> string \<Rightarrow> (string \<Rightarrow> 'w http_get) \<Rightarrow> job_envelope \<Rightarrow> github_job_token \<Rightarrow> 'w
   \<Rightarrow> (pull_request_snapshot result \<times> 'w) option" where
  "fetch_job_snapshot repr api_base_url get_with job token w =
     (if gt_github_repository_id token \<noteq> je_repository_id job then Some (Inl ValueError, w)
      else fetch_pull_request_by_repository_id repr api_base_url get_with (je_repository_id job)
             (je_pull_request_number job) (gt_token token) w)"

section \<open>The repositories and open pull requests of an installation\<close>

record installation_repository =
  ir_id :: int
  ir_full_name :: string
  ir_private :: bool

record open_pull_request =
  op_number :: int
  op_title :: string
  op_author :: string
  op_head_sha :: string
  op_updated_at :: string

text \<open>\<open>isinstance(x, int)\<close> also accepts a bool, which counts as 0 or 1.\<close>

fun int_instance :: "json \<Rightarrow> int option" where
  "int_instance (JInt i) = Some i"
| "int_instance (JBool b) = Some (if b then 1 else 0)"
| "int_instance _ = None"

fun str_instance :: "json \<Rightarrow> string option" where
  "str_instance (JStr s) = Some s"
| "str_instance _ = None"

definition repository_entry :: "json \<Rightarrow> installation_repository result" where
  "repository_entry raw =
     (if \<not> is_obj raw then Inl ValueError
      else case (int_instance (json_get raw ''id''), str_instance (json_get raw ''full_name'')) of
        (Some i, Some name) \<Rightarrow>
          (case json_get raw ''private'' of
             JBool b \<Rightarrow> Inr \<lparr>ir_id = i, ir_full_name = name, ir_private = b\<rparr>
           | _ \<Rightarrow> Inl ValueError)
      | _ \<Rightarrow> Inl ValueError)"

definition repository_page :: "http_reply \<Rightarrow> installation_repository list result" where
  "repository_page reply =
     bind_r (raise_for_status reply) (\<lambda>_. bind_r (hr_body reply) (\<lambda>body.
       if \<not> is_obj body then Inl ValueError
       else case json_get body ''repositories'' of JArr raws \<Rightarrow> map_r repository_entry raws | _ \<Rightarrow> Inl ValueError))"

definition list_installation_repositories ::
  "string \<Rightarrow> (int \<Rightarrow> ('w, string) act) \<Rightarrow> (string \<Rightarrow> 'w http_get) \<Rightarrow> int \<Rightarrow> 'w
   \<Rightarrow> (installation_repository list result \<times> 'w) option" where
  "list_installation_repositories api_base_url token_provider get_with installation_id w =
     (case token_provider installation_id w of
        (Inl e, w1) \<Rightarrow> Some (Inl e, w1)
      | (Inr token, w1) \<Rightarrow>
          fetch_pages repository_page (get_with token) (api_base_url @ ''/installation/repositories?per_page=100'') [] w1)"

definition open_pull_request_entry :: "json \<Rightarrow> open_pull_request result" where
  "open_pull_request_entry raw =
     (let user = json_get raw ''user''; head = json_get raw ''head''
      in if \<not> is_obj user \<or> \<not> is_obj head then Inl ValueError
      else case (int_instance (json_get raw ''number''), str_instance (json_get raw ''title''),
                 str_instance (json_get raw ''updated_at''), str_instance (json_get user ''login''),
                 str_instance (json_get head ''sha'')) of
        (Some number, Some title, Some updated_at, Some author, Some head_sha) \<Rightarrow>
          Inr \<lparr>op_number = number, op_title = title, op_author = author, op_head_sha = head_sha, op_updated_at = updated_at\<rparr>
      | _ \<Rightarrow> Inl ValueError)"

definition list_open_pull_requests ::
  "string \<Rightarrow> (int \<Rightarrow> ('w, string) act) \<Rightarrow> (string \<Rightarrow> 'w http_get) \<Rightarrow> int \<Rightarrow> int \<Rightarrow> ('w, open_pull_request list) act" where
  "list_open_pull_requests api_base_url token_provider get_with repository_id installation_id =
     bind_a (token_provider installation_id) (\<lambda>token.
     bind_a (get_with token (api_base_url @ ''/repositories/'' @ show_int repository_id @ ''/pulls'')) (\<lambda>reply w.
       (bind_r (raise_for_status reply) (\<lambda>_. bind_r (hr_body reply) (\<lambda>body.
          case body of
            JArr raws \<Rightarrow> map_r open_pull_request_entry
                           (filter (\<lambda>raw. is_obj raw \<and> json_get raw ''draft'' \<noteq> JBool True) raws)
          | _ \<Rightarrow> Inl ValueError)), w)))"

section \<open>Completing the diff\<close>

text \<open>A fetcher recovers the patch of one path, finds none, or raises.\<close>

type_synonym 'w repository_fetcher = "repository_identity \<Rightarrow> string \<Rightarrow> string \<Rightarrow> string \<Rightarrow> ('w, string option) act"

datatype recovery = Nothing_Recovered | Recovered string | Recovery_Omitted omission_reason

fun omission_for_fetcher_error :: "py_exn \<Rightarrow> omission_reason option" where
  "omission_for_fetcher_error CloneTimeout = Some Clone_Timed_Out"
| "omission_for_fetcher_error CloneSizeLimit = Some File_Size_Limit"
| "omission_for_fetcher_error _ = None"

definition recover_or_omit ::
  "'w repository_fetcher \<Rightarrow> pull_request_snapshot \<Rightarrow> pull_request_file \<Rightarrow> ('w, recovery) act" where
  "recover_or_omit fetcher snapshot file w =
     (case snap_identity snapshot of
        None \<Rightarrow> (Inr Nothing_Recovered, w)
      | Some identity \<Rightarrow>
          (case fetcher identity (pf_path file) (snap_base_sha snapshot) (snap_head_sha snapshot) w of
             (Inr None, w') \<Rightarrow> (Inr Nothing_Recovered, w')
           | (Inr (Some patch), w') \<Rightarrow> (Inr (Recovered patch), w')
           | (Inl e, w') \<Rightarrow>
               (case omission_for_fetcher_error e of
                  Some reason \<Rightarrow> (Inr (Recovery_Omitted reason), w')
                | None \<Rightarrow> (Inl e, w'))))"

text \<open>\<open>if file.patch\<close> holds for a non-empty string.\<close>

definition has_patch :: "pull_request_file \<Rightarrow> bool" where
  "has_patch file \<longleftrightarrow> pf_patch file \<noteq> None \<and> pf_patch file \<noteq> Some []"

definition complete_file ::
  "'w repository_fetcher \<Rightarrow> pull_request_snapshot \<Rightarrow> pull_request_file \<Rightarrow> ('w, pull_request_file) act" where
  "complete_file fetcher snapshot file =
     (if pf_binary file then return_a (file\<lparr>pf_omission_reason := Some Omit_Binary, pf_patch := None\<rparr>)
      else if pf_truncated file then return_a (file\<lparr>pf_omission_reason := Some Patch_Truncated_By_Github\<rparr>)
      else if has_patch file then return_a file
      else bind_a (recover_or_omit fetcher snapshot file) (\<lambda>recovered.
        case recovered of
          Nothing_Recovered \<Rightarrow> return_a (file\<lparr>pf_patch := None, pf_omission_reason := Some Patch_Omitted_By_Github\<rparr>)
        | Recovery_Omitted reason \<Rightarrow> return_a (file\<lparr>pf_patch := None, pf_omission_reason := Some reason\<rparr>)
        | Recovered patch \<Rightarrow> return_a (file\<lparr>pf_patch := Some patch, pf_omission_reason := None\<rparr>)))"

fun map_a :: "('a \<Rightarrow> ('w, 'b) act) \<Rightarrow> 'a list \<Rightarrow> ('w, 'b list) act" where
  "map_a f [] = return_a []"
| "map_a f (x # xs) = bind_a (f x) (\<lambda>y. bind_a (map_a f xs) (\<lambda>ys. return_a (y # ys)))"

definition ensure_complete_diff ::
  "'w repository_fetcher \<Rightarrow> pull_request_snapshot \<Rightarrow> ('w, pull_request_snapshot) act" where
  "ensure_complete_diff fetcher snapshot =
     bind_a (map_a (complete_file fetcher snapshot) (snap_files snapshot)) (\<lambda>completed.
       return_a (snapshot\<lparr>snap_files := completed\<rparr>))"

section \<open>Facts about pages\<close>

lemma map_r_Inr: "map_r f xs = Inr ys \<longleftrightarrow> list_all2 (\<lambda>x y. f x = Inr y) xs ys"
  by (induction xs arbitrary: ys) (auto simp: bind_r_Inr list_all2_Cons1)

lemma map_a_Inr: "map_a f xs w = (Inr ys, w') \<Longrightarrow> list_all2 (\<lambda>x y. \<exists>v v'. f x v = (Inr y, v')) xs ys"
proof (induction xs arbitrary: ys w)
  case (Cons x xs)
  then show ?case
    by (fastforce simp: act_simps list_all2_Cons1 split: prod.splits sum.splits)
qed (simp add: act_simps)

text \<open>A finite chain of pages: each URL answers with a page that decodes, all but the last link to the
  next.\<close>

inductive page_chain ::
  "(http_reply \<Rightarrow> 'a list result) \<Rightarrow> 'w http_get \<Rightarrow> string \<Rightarrow> 'w \<Rightarrow> 'a list list \<Rightarrow> 'w \<Rightarrow> bool"
  for page :: "http_reply \<Rightarrow> 'a list result" and get :: "'w http_get" where
  last_page: "get url w = (Inr reply, w') \<Longrightarrow> page reply = Inr xs \<Longrightarrow> get_next_link reply = None \<Longrightarrow>
     page_chain page get url w [xs] w'"
| next_page: "get url w = (Inr reply, w1) \<Longrightarrow> page reply = Inr xs \<Longrightarrow> get_next_link reply = Some url' \<Longrightarrow>
     page_chain page get url' w1 pages w' \<Longrightarrow> page_chain page get url w (xs # pages) w'"

inductive_cases page_chainE: "page_chain page get url w pages w'"

lemma fetch_pages_chain:
  "page_chain page get url w pages w' \<Longrightarrow> fetch_pages page get url acc w = Some (Inr (acc @ concat pages), w')"
proof (induction arbitrary: acc rule: page_chain.induct)
  case (last_page url w reply w' xs)
  then show ?case by (subst fetch_pages.simps) simp
next
  case (next_page url w reply w1 xs url' pages w')
  then show ?case by (subst fetch_pages.simps) simp
qed

text \<open>Conversely the loop returns a list only at the end of a chain.\<close>

lemma fetch_pages_returns:
  "fetch_pages page get url acc w = Some r \<Longrightarrow>
   \<forall>ys w'. r = (Inr ys, w') \<longrightarrow> (\<exists>pages. page_chain page get url w pages w' \<and> ys = acc @ concat pages)"
proof (erule fetch_pages.raw_induct [rotated], intro allI impI)
  fix f page get url acc w r ys w'
  assume ih: "\<And>page get url acc w r. f page get url acc w = Some r \<Longrightarrow>
      \<forall>ys w'. r = (Inr ys, w') \<longrightarrow> (\<exists>pages. page_chain page get url w pages w' \<and> ys = acc @ concat pages)"
    and body: "(case get url w of (Inl e, w') \<Rightarrow> Some (Inl e, w')
        | (Inr reply, w') \<Rightarrow> case page reply of Inl e \<Rightarrow> Some (Inl e, w')
          | Inr xs \<Rightarrow> case get_next_link reply of None \<Rightarrow> Some (Inr (acc @ xs), w')
            | Some next_url \<Rightarrow> f page get next_url (acc @ xs) w') = Some r"
    and r: "r = (Inr ys, w')"
  obtain reply w1 where get: "get url w = (Inr reply, w1)"
    using body r by (auto split: prod.splits sum.splits)
  with body r obtain xs where page: "page reply = Inr xs" by (auto split: sum.splits)
  show "\<exists>pages. page_chain page get url w pages w' \<and> ys = acc @ concat pages"
  proof (cases "get_next_link reply")
    case None
    with body r get page have "page_chain page get url w [xs] w' \<and> ys = acc @ concat [xs]"
      by (auto intro: last_page)
    then show ?thesis by blast
  next
    case (Some url')
    with body get page have "f page get url' (acc @ xs) w1 = Some r" by simp
    from ih [OF this] r obtain pages where "page_chain page get url' w1 pages w'" "ys = (acc @ xs) @ concat pages"
      by blast
    with Some get page have "page_chain page get url w (xs # pages) w' \<and> ys = acc @ concat (xs # pages)"
      by (auto intro: next_page)
    then show ?thesis by blast
  qed
qed

lemma fetch_pages_iff:
  "fetch_pages page get url [] w = Some (Inr ys, w') \<longleftrightarrow>
   (\<exists>pages. page_chain page get url w pages w' \<and> ys = concat pages)"
  using fetch_pages_returns [of page get url "[]" w "(Inr ys, w')"] fetch_pages_chain [of page get url w _ w' "[]"]
  by auto

section \<open>Facts about completion\<close>

definition accounted :: "pull_request_file \<Rightarrow> bool" where
  "accounted file \<longleftrightarrow> pf_patch file \<noteq> None \<or> pf_omission_reason file \<noteq> None"

lemma complete_file_spec:
  "complete_file fetcher snapshot file w = (Inr file', w') \<Longrightarrow>
   accounted file' \<and> pf_path file' = pf_path file \<and> pf_status file' = pf_status file \<and>
   pf_previous_path file' = pf_previous_path file \<and> (has_patch file \<and> \<not> pf_binary file \<longrightarrow> pf_patch file' = pf_patch file)"
  by (auto simp: complete_file_def act_simps accounted_def has_patch_def
      split: if_splits prod.splits sum.splits recovery.splits)

lemma ensure_complete_diff_spec:
  assumes "ensure_complete_diff fetcher snapshot w = (Inr snapshot', w')"
  shows "list_all2 (\<lambda>file file'. accounted file' \<and> pf_path file' = pf_path file \<and>
           (has_patch file \<and> \<not> pf_binary file \<longrightarrow> pf_patch file' = pf_patch file)) (snap_files snapshot) (snap_files snapshot')"
    and "snapshot' = snapshot\<lparr>snap_files := snap_files snapshot'\<rparr>"
proof -
  from assms obtain completed where c: "map_a (complete_file fetcher snapshot) (snap_files snapshot) w = (Inr completed, w')"
    and s: "snapshot' = snapshot\<lparr>snap_files := completed\<rparr>"
    by (auto simp: ensure_complete_diff_def act_simps split: prod.splits sum.splits)
  show "snapshot' = snapshot\<lparr>snap_files := snap_files snapshot'\<rparr>" using s by simp
  show "list_all2 (\<lambda>file file'. accounted file' \<and> pf_path file' = pf_path file \<and>
           (has_patch file \<and> \<not> pf_binary file \<longrightarrow> pf_patch file' = pf_patch file)) (snap_files snapshot) (snap_files snapshot')"
  proof -
    have "list_all2 (\<lambda>file file'. accounted file' \<and> pf_path file' = pf_path file \<and>
           (has_patch file \<and> \<not> pf_binary file \<longrightarrow> pf_patch file' = pf_patch file)) (snap_files snapshot) completed"
      by (rule list_all2_mono [OF map_a_Inr [OF c]]) (elim exE, drule complete_file_spec, simp)
    then show ?thesis by (simp add: s)
  qed
qed

text \<open>Only the two clone bounds are turned into a reason; any other error of the fetcher ends the
  completion.\<close>

lemma complete_file_raises:
  "complete_file fetcher snapshot file w = (Inl e, w') \<Longrightarrow>
   \<exists>identity. snap_identity snapshot = Some identity \<and> \<not> has_patch file \<and>
     fetcher identity (pf_path file) (snap_base_sha snapshot) (snap_head_sha snapshot) w = (Inl e, w') \<and>
     e \<noteq> CloneTimeout \<and> e \<noteq> CloneSizeLimit"
  by (auto simp: complete_file_def recover_or_omit_def act_simps
      split: if_splits prod.splits sum.splits option.splits recovery.splits)

section \<open>Properties\<close>

lemma fetch_pages_total:
  assumes "\<And>u v reply v' u'. get u v = (Inr reply, v') \<Longrightarrow> get_next_link reply = Some u' \<Longrightarrow> rank u' < (rank u :: nat)"
  shows "\<exists>r. fetch_pages page get url acc w = Some r"
proof (induction "rank url" arbitrary: url acc w rule: less_induct)
  case less
  obtain r w1 where get: "get url w = (r, w1)" by (metis surj_pair)
  show ?case
  proof (cases r)
    case (Inl e)
    then show ?thesis using get by (subst fetch_pages.simps) simp
  next
    case (Inr reply)
    have "\<exists>r. fetch_pages page get u acc' w1 = Some r" if "get_next_link reply = Some u" for u acc'
      using less assms [of url w reply w1 u] get Inr that by simp
    then show ?thesis using get Inr
      by (subst fetch_pages.simps) (simp split: sum.split option.split)
  qed
qed

text \<open>C15. The list of changed files is complete and the loop ends: when the links that GitHub sends lead
  forward (each next URL is of smaller rank than the one it came from, as page numbers up to a last page
  are), the fetch returns, and when it returns files they are exactly those of every page of the chain
  from the first URL to the page without a next link, in order.\<close>

theorem fetch_all_files_terminates:
  fixes get :: "'w http_get" and rank :: "string \<Rightarrow> nat"
  assumes "\<And>u v reply v' u'. get u v = (Inr reply, v') \<Longrightarrow> get_next_link reply = Some u' \<Longrightarrow> rank u' < rank u"
  shows "\<exists>r w'. fetch_all_pull_request_files get url w = Some (r, w') \<and>
           (\<forall>files. r = Inr files \<longleftrightarrow> (\<exists>pages. page_chain file_page get url w pages w' \<and> files = concat pages))"
proof -
  obtain r w' where f: "fetch_pages file_page get url [] w = Some (r, w')"
    using fetch_pages_total [of get rank file_page url "[]" w] assms by (metis surj_pair)
  have "r = Inr files \<longleftrightarrow> (\<exists>pages. page_chain file_page get url w pages w' \<and> files = concat pages)" for files
    using fetch_pages_iff [of file_page get url w files w'] f by auto
  with f show ?thesis by (auto simp: fetch_all_pull_request_files_def)
qed

definition sample_file_json :: "string \<Rightarrow> json" where
  "sample_file_json name =
     JObj [(''filename'', JStr name), (''status'', JStr ''modified''), (''patch'', JStr ''@@ -1 +1 @@'')]"

definition sample_pages :: "nat http_get" where
  "sample_pages url w =
     (if url = ''u1'' then (Inr \<lparr>hr_status = 200, hr_body = Inr (JArr [sample_file_json ''a'']),
                             hr_links = [(''next'', [(''url'', ''u2'')])]\<rparr>, w + 1)
      else if url = ''u2'' then (Inr \<lparr>hr_status = 200, hr_body = Inr (JArr [sample_file_json ''b'']), hr_links = []\<rparr>, w + 1)
      else (Inl TransportError, w + 1))"

definition sample_file :: "string \<Rightarrow> github_pull_request_file" where
  "sample_file name = \<lparr>gf_filename = name, gf_status = ''modified'', gf_patch = Some ''@@ -1 +1 @@'', gf_previous_filename = None\<rparr>"

lemma sample_page_chain: "page_chain file_page sample_pages ''u1'' 0 [[sample_file ''a''], [sample_file ''b'']] 2"
  by (rule next_page [where url' = "''u2''"])
     (auto simp: sample_pages_def file_page_def raise_for_status_def sample_file_json_def sample_file_def get_next_link_def
       intro!: last_page)

theorem fetch_all_files_terminates_witness:
  "fetch_all_pull_request_files sample_pages ''u1'' 0 = Some (Inr [sample_file ''a'', sample_file ''b''], 2)"
proof -
  have rank: "(if u' = ''u1'' then 1 else 0) < (if u = ''u1'' then 1 else (0::nat))"
    if "sample_pages u v = (Inr reply, v')" "get_next_link reply = Some u'" for u v reply v' u'
    using that by (auto simp: sample_pages_def get_next_link_def split: if_splits)
  obtain r w' where f: "fetch_all_pull_request_files sample_pages ''u1'' 0 = Some (r, w')"
    and r: "\<forall>files. r = Inr files \<longleftrightarrow> (\<exists>pages. page_chain file_page sample_pages ''u1'' 0 pages w' \<and> files = concat pages)"
    using fetch_all_files_terminates [of sample_pages "\<lambda>u. if u = ''u1'' then 1 else 0" "''u1''" 0] rank by blast
  have "fetch_all_pull_request_files sample_pages ''u1'' 0 = Some (Inr [sample_file ''a'', sample_file ''b''], 2)"
    using fetch_pages_chain [OF sample_page_chain, of "[]"] by (simp add: fetch_all_pull_request_files_def)
  with f r show ?thesis by simp
qed

end
