(* ===== verification/Prompt_Boundaries.thy ===== *)
theory Prompt_Boundaries
  imports Py_Strings
begin

text \<open>
  Quoting repository text in a prompt, \<^verbatim>\<open>security/prompt_boundaries.py\<close>: the marker strip, which loops
  until no marker is left, and \<open>wrap_untrusted\<close>, which puts the text between one begin marker and one
  end marker.  \<open>UntrustedText\<close> is a wrapper whose only exit is \<open>wrap_untrusted\<close>.
\<close>

section \<open>Quoting\<close>

definition untrusted_begin :: string where
  "untrusted_begin = ''-----BEGIN UNTRUSTED INPUT-----''"

definition untrusted_end :: string where
  "untrusted_end = ''-----END UNTRUSTED INPUT-----''"

datatype untrusted_text = UntrustedText (raw_text: string)

fun strip_markers :: "string \<Rightarrow> string result" where
  "strip_markers text =
     (if contains untrusted_begin text \<or> contains untrusted_end text
      then let text' = replace_sub untrusted_end [] (replace_sub untrusted_begin [] text)
           in if length text \<le> length text' then Inl RuntimeError else strip_markers text'
      else Inr text)"

declare strip_markers.simps [simp del]

definition wrap_untrusted :: "string \<Rightarrow> untrusted_text \<Rightarrow> string result" where
  "wrap_untrusted label content =
     bind_r (strip_markers label) (\<lambda>safe_label.
     bind_r (strip_markers (raw_text content)) (\<lambda>safe_content.
       let wrapped = untrusted_begin @ newline # ''name: '' @ safe_label @ newline # safe_content @ newline # untrusted_end
       in if count_sub untrusted_begin wrapped \<noteq> 1 \<or> count_sub untrusted_end wrapped \<noteq> 1 then Inl RuntimeError
          else Inr wrapped))"

fun wrap_all :: "string \<Rightarrow> untrusted_text list \<Rightarrow> string list result" where
  "wrap_all label [] = Inr []"
| "wrap_all label (x # xs) =
     bind_r (wrap_untrusted label x) (\<lambda>s. bind_r (wrap_all label xs) (\<lambda>ss. Inr (s # ss)))"

definition wrap_untrusted_review_inputs ::
  "untrusted_text \<Rightarrow> untrusted_text \<Rightarrow> untrusted_text \<Rightarrow> untrusted_text list \<Rightarrow> untrusted_text list \<Rightarrow>
   untrusted_text list \<Rightarrow> string list result" where
  "wrap_untrusted_review_inputs diff title body commit_messages review_comments retrieved_chunks =
     bind_r (wrap_untrusted ''diff'' diff) (\<lambda>d.
     bind_r (wrap_untrusted ''pr_title'' title) (\<lambda>t.
     bind_r (wrap_untrusted ''pr_body'' body) (\<lambda>b.
     bind_r (wrap_all ''commit_message'' commit_messages) (\<lambda>ms.
     bind_r (wrap_all ''review_comment'' review_comments) (\<lambda>cs.
     bind_r (wrap_all ''retrieved_chunk'' retrieved_chunks) (\<lambda>rs.
       Inr ([d, t, b] @ ms @ cs @ rs)))))))"

section \<open>Markers and line breaks\<close>

lemma marker_nonempty [simp]: "untrusted_begin \<noteq> []" "untrusted_end \<noteq> []"
  by (simp_all add: untrusted_begin_def untrusted_end_def)

lemma strip_shrinks:
  assumes "contains untrusted_begin s \<or> contains untrusted_end s"
  shows "length (replace_sub untrusted_end [] (replace_sub untrusted_begin [] s)) < length s"
proof (cases "contains untrusted_begin s")
  case True
  then show ?thesis
    using replace_sub_empty_shorter [of untrusted_begin s]
      replace_sub_empty_shorter [of untrusted_end "replace_sub untrusted_begin [] s"] by simp
next
  case False
  then have "replace_sub untrusted_begin [] s = s" by (rule replace_sub_absent [OF marker_nonempty(1)])
  then show ?thesis using assms False replace_sub_empty_shorter [of untrusted_end s] by simp
qed

definition marker_free :: "string \<Rightarrow> bool" where
  "marker_free s \<longleftrightarrow> \<not> contains untrusted_begin s \<and> \<not> contains untrusted_end s"

lemma strip_markers_spec:
  "\<exists>t. strip_markers s = Inr t \<and> marker_free t \<and> subseq t s \<and> (marker_free s \<longrightarrow> t = s)"
proof (induction s rule: strip_markers.induct)
  case (1 s)
  show ?case
  proof (cases "marker_free s")
    case True
    then show ?thesis by (subst strip_markers.simps) (simp add: marker_free_def)
  next
    case False
    let ?t = "replace_sub untrusted_end [] (replace_sub untrusted_begin [] s)"
    have "subseq ?t s" using replace_sub_subseq [OF marker_nonempty(2)] replace_sub_subseq [OF marker_nonempty(1)]
      by (metis subseq_order.trans)
    moreover have "strip_markers s = strip_markers ?t"
      using False strip_shrinks [of s] by (subst strip_markers.simps) (simp add: marker_free_def)
    moreover obtain t where "strip_markers ?t = Inr t" "marker_free t" "subseq t ?t"
      using 1 False strip_shrinks [of s] by (auto simp: marker_free_def Let_def)
    ultimately show ?thesis using False subseq_order.trans by metis
  qed
qed

lemma newline_not_in_marker [simp]: "newline \<notin> set untrusted_begin" "newline \<notin> set untrusted_end"
  by (simp_all add: untrusted_begin_def untrusted_end_def)

lemma marker_self_counts:
  "count_sub untrusted_begin untrusted_begin = 1" "count_sub untrusted_end untrusted_end = 1"
  "count_sub untrusted_begin untrusted_end = 0" "count_sub untrusted_end untrusted_begin = 0"
  by code_simp+

lemma name_line_counts:
  "marker_free l \<Longrightarrow> count_sub untrusted_begin (''name: '' @ l) = 0"
  "marker_free l \<Longrightarrow> count_sub untrusted_end (''name: '' @ l) = 0"
  by (simp_all add: count_sub_zero marker_free_def) (simp_all add: startswith_def untrusted_begin_def untrusted_end_def)

lemmas wrapped_counts = count_sub_sep [OF marker_nonempty(1) newline_not_in_marker(1)]
  count_sub_sep [OF marker_nonempty(2) newline_not_in_marker(2)] marker_self_counts name_line_counts

lemma wrapped_count:
  assumes "marker_free l" "marker_free c"
  shows "count_sub untrusted_begin (untrusted_begin @ newline # (''name: '' @ l) @ newline # c @ newline # untrusted_end) = 1"
    and "count_sub untrusted_end (untrusted_begin @ newline # (''name: '' @ l) @ newline # c @ newline # untrusted_end) = 1"
  using assms by (simp_all only: wrapped_counts) (simp_all add: marker_free_def count_sub_zero)

lemma wrap_returns:
  obtains s where "wrap_untrusted label content = Inr s"
proof -
  obtain l c where "strip_markers label = Inr l" "marker_free l" "strip_markers (raw_text content) = Inr c" "marker_free c"
    using strip_markers_spec by metis
  then show thesis using that wrapped_count [of l c] by (simp add: wrap_untrusted_def)
qed

lemma wrap_all_returns: "\<exists>ss. wrap_all label xs = Inr ss"
proof (induction xs)
  case (Cons x xs)
  obtain s where "wrap_untrusted label x = Inr s" by (rule wrap_returns)
  with Cons show ?case by auto
qed simp

lemma wrap_review_inputs_returns: "\<exists>ss. wrap_untrusted_review_inputs diff title body ms cs rs = Inr ss"
proof -
  obtain d t b where "wrap_untrusted ''diff'' diff = Inr d" "wrap_untrusted ''pr_title'' title = Inr t"
    "wrap_untrusted ''pr_body'' body = Inr b" by (metis wrap_returns)
  then show ?thesis
    using wrap_all_returns [of "''commit_message''" ms] wrap_all_returns [of "''review_comment''" cs]
      wrap_all_returns [of "''retrieved_chunk''" rs] by (auto simp: wrap_untrusted_review_inputs_def)
qed

section \<open>Properties\<close>

text \<open>C16. Repository text cannot break out of its quotation: for every label and every text the marker
  strip ends and \<open>wrap_untrusted\<close> returns; what it returns is one begin marker, a label line, the text and
  one end marker, neither marker occurs anywhere else in it, and the quoted text is the original with
  characters removed, the original itself when that contains no marker.\<close>

theorem wrap_untrusted_quotes:
  "\<exists>l c. wrap_untrusted label content =
           Inr (untrusted_begin @ newline # ''name: '' @ l @ newline # c @ newline # untrusted_end) \<and>
         marker_free l \<and> marker_free c \<and> subseq c (raw_text content) \<and>
         (marker_free (raw_text content) \<longrightarrow> c = raw_text content) \<and>
         count_sub untrusted_begin (untrusted_begin @ newline # ''name: '' @ l @ newline # c @ newline # untrusted_end) = 1 \<and>
         count_sub untrusted_end (untrusted_begin @ newline # ''name: '' @ l @ newline # c @ newline # untrusted_end) = 1"
proof -
  obtain l where l: "strip_markers label = Inr l" "marker_free l" using strip_markers_spec by metis
  obtain c where c: "strip_markers (raw_text content) = Inr c" "marker_free c" "subseq c (raw_text content)"
      "marker_free (raw_text content) \<longrightarrow> c = raw_text content" using strip_markers_spec by metis
  show ?thesis
    using l c wrapped_count [OF l(2) c(2)] by (intro exI [of _ l] exI [of _ c]) (simp add: wrap_untrusted_def)
qed

lemma plain_text_marker_free: "marker_free ''ab''"
  by code_simp

theorem wrap_untrusted_quotes_witness:
  "marker_free ''ab'' \<and> (\<exists>l. wrap_untrusted ''diff'' (UntrustedText ''ab'') =
     Inr (untrusted_begin @ newline # ''name: '' @ l @ newline # ''ab'' @ newline # untrusted_end))"
  using wrap_untrusted_quotes [of "''diff''" "UntrustedText ''ab''"] plain_text_marker_free by auto

end
