(* ===== verification/Aggregate.thy ===== *)
theory Aggregate
  imports Diff_Review
begin

text \<open>
  Merging the findings of several reviewers, \<^verbatim>\<open>reviewer/aggregate_findings.py\<close>, and the specialist
  reviewers, \<^verbatim>\<open>reviewer/specialists.py\<close>: candidates of one file and one normalised category whose lines
  overlap become one finding.  The reviewers themselves are parameters.
\<close>

section \<open>The merge\<close>

fun severity_rank :: "severity \<Rightarrow> nat" where
  "severity_rank Info = 0"
| "severity_rank Low = 1"
| "severity_rank Medium = 2"
| "severity_rank High = 3"
| "severity_rank Critical = 4"

text \<open>\<open>value.casefold()\<close> within the modelled characters: lower case, and the sharp s as two letters.  The
  micro sign, whose folding is a Greek letter outside the range, is kept.\<close>

definition py_casefold :: "string \<Rightarrow> string" where
  "py_casefold s = concat (map (\<lambda>c. if c = CHR 0xDF then ''ss'' else [lower_char c]) s)"

definition normalise_category :: "string \<Rightarrow> string" where
  "normalise_category value = py_join ''-'' (split_ws (replace_sub ''_'' ''-'' (py_casefold value)))"

definition cluster_start :: "finding_candidate list \<Rightarrow> int" where
  "cluster_start cluster = Min (set (map fc_line_start cluster))"

definition cluster_end :: "finding_candidate list \<Rightarrow> int" where
  "cluster_end cluster = Max (set (map fc_line_end cluster))"

definition cluster_overlaps :: "finding_candidate \<Rightarrow> finding_candidate list \<Rightarrow> bool" where
  "cluster_overlaps item cluster \<longleftrightarrow> fc_line_start item \<le> cluster_end cluster \<and> cluster_start cluster \<le> fc_line_end item"

text \<open>The format \<^verbatim>\<open>:010d\<close> of a number that is not negative.\<close>

definition zero_padded :: "int \<Rightarrow> string" where
  "zero_padded n = (let s = show_int n in replicate (10 - length s) CHR ''0'' @ s)"

definition aggregate_sort_key ::
  "string \<Rightarrow> string \<Rightarrow> finding_candidate \<Rightarrow> string \<times> string \<times> string \<times> string \<times> string \<times> string \<times> string \<times> string" where
  "aggregate_sort_key repository head_sha item =
     (repository, head_sha, fc_file_path item, normalise_category (fc_category item), zero_padded (fc_line_start item),
      zero_padded (fc_line_end item), fc_title item, fc_rationale item)"

text \<open>\<open>max(xs, key=k)\<close>: the first element with the greatest key.\<close>

fun max_by :: "('a \<Rightarrow> 'k::linorder) \<Rightarrow> 'a \<Rightarrow> 'a list \<Rightarrow> 'a" where
  "max_by k best [] = best"
| "max_by k best (x # xs) = max_by k (if k best < k x then x else best) xs"

definition pick_key :: "finding_candidate \<Rightarrow> nat \<times> string \<times> string" where
  "pick_key item = (severity_rank (fc_severity item), fc_title item, fc_rationale item)"

definition pick_representative :: "finding_candidate list \<Rightarrow> finding_candidate" where
  "pick_representative cluster = max_by pick_key (hd cluster) (tl cluster)"

definition same_key :: "finding_candidate \<Rightarrow> finding_candidate \<Rightarrow> bool" where
  "same_key a b \<longleftrightarrow> fc_file_path a = fc_file_path b \<and> normalise_category (fc_category a) = normalise_category (fc_category b)"

fun place :: "finding_candidate \<Rightarrow> finding_candidate list list \<Rightarrow> finding_candidate list list" where
  "place item [] = [[item]]"
| "place item (cluster # clusters) =
     (if same_key item (hd cluster) \<and> cluster_overlaps item cluster then (cluster @ [item]) # clusters
      else cluster # place item clusters)"

definition clusters_of :: "finding_candidate list \<Rightarrow> finding_candidate list list" where
  "clusters_of ordered = foldl (\<lambda>clusters item. place item clusters) [] ordered"

definition merge_cluster :: "finding_candidate list \<Rightarrow> finding_candidate" where
  "merge_cluster cluster =
     (pick_representative cluster)
       \<lparr>fc_line_start := cluster_start cluster, fc_line_end := cluster_end cluster,
        fc_evidence := sort (remdups (concat (map fc_evidence cluster)))\<rparr>"

definition aggregate_findings :: "string \<Rightarrow> string \<Rightarrow> finding_candidate list \<Rightarrow> finding_candidate list" where
  "aggregate_findings repository head_sha findings =
     map merge_cluster (clusters_of (sort_key (aggregate_sort_key repository head_sha) findings))"

section \<open>Specialists\<close>

definition specialist_concerns :: "string list" where
  "specialist_concerns = [''security'', ''correctness'', ''tests'', ''docs'']"

type_synonym 'w specialist_fn =
  "pull_request_snapshot \<Rightarrow> packed_diff \<Rightarrow> review_context_item list \<Rightarrow> ('w, finding_candidate list) act"

record specialist_run =
  sr_candidates :: "finding_candidate list"
  sr_timed_out_concerns :: "string list"
  sr_missing_concerns :: "string list"

text \<open>The loop over the concerns: a specialist that exceeds its deadline loses only its own findings, any
  other exception ends the run.\<close>

fun collect_specialists ::
  "(string \<Rightarrow> 'w specialist_fn option) \<Rightarrow> pull_request_snapshot \<Rightarrow> packed_diff \<Rightarrow> review_context_item list
   \<Rightarrow> string list \<Rightarrow> finding_candidate list \<Rightarrow> string list \<Rightarrow> ('w, finding_candidate list \<times> string list) act" where
  "collect_specialists reviewers snapshot packed context [] collected timed_out = return_a (collected, timed_out)"
| "collect_specialists reviewers snapshot packed context (concern # concerns) collected timed_out =
     (case reviewers concern of
        None \<Rightarrow> collect_specialists reviewers snapshot packed context concerns collected timed_out
      | Some reviewer \<Rightarrow> (\<lambda>w.
          case reviewer snapshot packed context w of
            (Inr found, w') \<Rightarrow> collect_specialists reviewers snapshot packed context concerns (collected @ found) timed_out w'
          | (Inl e, w') \<Rightarrow>
              if e = SpecialistTimeout
              then collect_specialists reviewers snapshot packed context concerns collected (timed_out @ [concern]) w'
              else (Inl e, w')))"

definition run_specialists ::
  "pull_request_snapshot \<Rightarrow> packed_diff \<Rightarrow> review_context_item list \<Rightarrow> (string \<Rightarrow> 'w specialist_fn option) \<Rightarrow> bool
   \<Rightarrow> ('w, specialist_run) act" where
  "run_specialists snapshot packed context reviewers specialist_mode =
     (if \<not> specialist_mode then return_a \<lparr>sr_candidates = [], sr_timed_out_concerns = [], sr_missing_concerns = []\<rparr>
      else bind_a (collect_specialists reviewers snapshot packed context specialist_concerns [] []) (\<lambda>(collected, timed_out).
        return_a \<lparr>sr_candidates = aggregate_findings (snap_repo_owner snapshot @ ''/'' @ snap_repo_name snapshot)
                                    (snap_head_sha snapshot) collected,
                  sr_timed_out_concerns = timed_out,
                  sr_missing_concerns = filter (\<lambda>c. reviewers c = None) specialist_concerns\<rparr>))"

section \<open>Padded numerals\<close>

lemma read_nat_Cons: "read_nat (c # s) = digit_val c * 10 ^ length s + read_nat s"
proof -
  have "foldl (\<lambda>n c. 10 * n + digit_val c) a s = a * 10 ^ length s + foldl (\<lambda>n c. 10 * n + digit_val c) 0 s" for a
  proof (induction s arbitrary: a rule: rev_induct)
    case (snoc x xs)
    show ?case by (simp add: snoc [of a] distrib_left)
  qed simp
  from this [of "digit_val c"] show ?thesis by (simp add: read_nat_def)
qed

lemma digit_val_less: "is_digit c \<Longrightarrow> digit_val c < 10"
  unfolding is_digit_def digit_val_def by linarith

lemma read_nat_bound: "\<forall>c \<in> set s. is_digit c \<Longrightarrow> read_nat s < 10 ^ length s"
proof (induction s)
  case (Cons c s)
  then have "digit_val c \<le> 9" "read_nat s < 10 ^ length s" using digit_val_less [of c] by auto
  then have "digit_val c * 10 ^ length s + read_nat s < 9 * 10 ^ length s + 10 ^ length s"
    by (intro add_le_less_mono mult_le_mono1)
  then show ?case by (simp add: read_nat_Cons)
qed (simp add: read_nat_def)

lemma read_nat_mono:
  "length s = length t \<Longrightarrow> \<forall>c \<in> set s \<union> set t. is_digit c \<Longrightarrow> s \<le> t \<Longrightarrow> read_nat s \<le> read_nat t"
proof (induction s t rule: list_induct2)
  case (Cons c s d t)
  show ?case
  proof (cases "c = d")
    case True
    with Cons show ?thesis by (simp add: read_nat_Cons)
  next
    case False
    with Cons.prems have "c < d" by auto
    then have "digit_val c < digit_val d" using Cons.prems(1)
      by (auto simp: less_char_def digit_val_def is_digit_def)
    moreover have "read_nat s < 10 ^ length s" using Cons.prems read_nat_bound by simp
    ultimately have "digit_val c * 10 ^ length s + read_nat s < (digit_val c + 1) * 10 ^ length s" by simp
    also have "\<dots> \<le> digit_val d * 10 ^ length t" using \<open>digit_val c < digit_val d\<close> Cons.hyps
      by (metis Suc_eq_plus1 Suc_leI mult_le_mono1)
    finally show ?thesis by (simp add: read_nat_Cons)
  qed
qed simp

lemma length_show_nat: "n < 10 ^ k \<Longrightarrow> 0 < k \<Longrightarrow> length (show_nat n) \<le> k"
proof (induction n arbitrary: k rule: show_nat.induct)
  case (1 n)
  show ?case
  proof (cases "n < 10")
    case False
    then obtain j where k: "k = Suc j" "0 < j" using 1(2,3) by (cases k; cases "k - 1") auto
    then have "n div 10 < 10 ^ j" using 1(2) by (simp add: less_mult_imp_div_less mult.commute)
    with 1(1) False k show ?thesis by (simp add: show_nat.simps [of n])
  qed (use 1 in \<open>simp add: show_nat.simps [of n]\<close>)
qed

lemma zero_padded_mono:
  assumes "0 \<le> m" "0 \<le> n" "m < 10 ^ 10" "n < 10 ^ 10" "zero_padded m \<le> zero_padded n"
  shows "m \<le> n"
proof -
  have pad: "length (zero_padded i) = 10 \<and> (\<forall>c \<in> set (zero_padded i). is_digit c) \<and> read_nat (zero_padded i) = nat i"
    if "0 \<le> i" "i < 10 ^ 10" for i :: int
  proof -
    have len: "length (show_nat (nat i)) \<le> 10" using that by (intro length_show_nat) (simp_all add: nat_less_iff)
    have "read_nat (replicate k CHR ''0'' @ s) = read_nat s" for k s
      by (induction k) (simp_all add: read_nat_Cons digit_val_def)
    then show ?thesis
      using that len show_nat_digits by (auto simp: zero_padded_def show_int_def Let_def is_digit_def)
  qed
  have "read_nat (zero_padded m) \<le> read_nat (zero_padded n)"
    using pad [OF assms(1,3)] pad [OF assms(2,4)] assms(5) by (intro read_nat_mono) auto
  then show ?thesis using pad [OF assms(1,3)] pad [OF assms(2,4)] assms(1,2) by simp
qed

section \<open>Clusters\<close>

definition range_of :: "finding_candidate \<Rightarrow> int set" where
  "range_of c = {fc_line_start c..fc_line_end c}"

text \<open>A cluster: candidates of one key whose ranges together fill the span of the cluster.\<close>

definition cluster_ok :: "finding_candidate list \<Rightarrow> bool" where
  "cluster_ok cl \<longleftrightarrow> cl \<noteq> [] \<and> (\<forall>m \<in> set cl. same_key m (hd cl) \<and> fc_line_start m \<le> fc_line_end m) \<and>
     {cluster_start cl..cluster_end cl} = (\<Union>m \<in> set cl. range_of m)"

text \<open>Two clusters of one key do not overlap.\<close>

definition apart :: "finding_candidate list \<Rightarrow> finding_candidate list \<Rightarrow> bool" where
  "apart cl cl' \<longleftrightarrow> (same_key (hd cl) (hd cl') \<longrightarrow> cluster_end cl < cluster_start cl' \<or> cluster_end cl' < cluster_start cl)"

lemma same_key_simps: "same_key a a" "same_key a b \<Longrightarrow> same_key b a" "same_key a b \<Longrightarrow> same_key b c \<Longrightarrow> same_key a c"
  by (auto simp: same_key_def)

lemma apart_sym: "apart cl cl' \<Longrightarrow> apart cl' cl"
  by (auto simp: apart_def same_key_def)

lemma cluster_bounds_snoc:
  "cl \<noteq> [] \<Longrightarrow> cluster_start (cl @ [x]) = min (cluster_start cl) (fc_line_start x)"
  "cl \<noteq> [] \<Longrightarrow> cluster_end (cl @ [x]) = max (cluster_end cl) (fc_line_end x)"
  by (simp_all add: cluster_start_def cluster_end_def min.commute max.commute)

lemma cluster_bounds_single [simp]: "cluster_start [x] = fc_line_start x" "cluster_end [x] = fc_line_end x"
  by (simp_all add: cluster_start_def cluster_end_def)

lemma cluster_start_member: "cl \<noteq> [] \<Longrightarrow> \<exists>m \<in> set cl. cluster_start cl = fc_line_start m"
proof -
  assume "cl \<noteq> []"
  then have "cluster_start cl \<in> set (map fc_line_start cl)" unfolding cluster_start_def by (intro Min_in) auto
  then show ?thesis by auto
qed

lemma cluster_ok_single: "fc_line_start x \<le> fc_line_end x \<Longrightarrow> cluster_ok [x]"
  by (simp add: cluster_ok_def range_of_def same_key_simps)

lemma cluster_ok_snoc:
  assumes "cluster_ok cl" "same_key x (hd cl)" "fc_line_start x \<le> fc_line_end x" "cluster_overlaps x cl"
    "cluster_start cl \<le> fc_line_start x"
  shows "cluster_ok (cl @ [x])"
proof -
  have "{cluster_start (cl @ [x])..cluster_end (cl @ [x])} = {cluster_start cl..cluster_end cl} \<union> range_of x"
    using assms(3-5) cluster_bounds_snoc [of cl x] assms(1) [unfolded cluster_ok_def, THEN conjunct1]
    by (auto simp: cluster_overlaps_def range_of_def)
  with assms show ?thesis by (auto simp: cluster_ok_def)
qed

definition clusters_ok :: "finding_candidate list list \<Rightarrow> bool" where
  "clusters_ok cls \<longleftrightarrow> (\<forall>cl \<in> set cls. cluster_ok cl) \<and> sorted_wrt apart cls"

lemma clusters_ok_Cons: "clusters_ok (cl # cls) \<longleftrightarrow> cluster_ok cl \<and> (\<forall>cl' \<in> set cls. apart cl cl') \<and> clusters_ok cls"
  by (auto simp: clusters_ok_def)

text \<open>An item that joins a cluster, or opens one, stays apart from a cluster that it does not overlap.\<close>

lemma apart_snoc:
  assumes "cluster_ok cl" "cluster_ok cl'" "apart cl cl'" "same_key x (hd cl)" "cluster_overlaps x cl"
    "\<forall>m \<in> set cl'. same_key x m \<longrightarrow> fc_line_start m \<le> fc_line_start x"
    "cluster_start cl \<le> fc_line_start x"
  shows "apart (cl @ [x]) cl'"
  unfolding apart_def
proof
  have ne: "cl \<noteq> []" "cl' \<noteq> []" using assms(1,2) by (auto simp: cluster_ok_def)
  assume "same_key (hd (cl @ [x])) (hd cl')"
  with ne have key: "same_key (hd cl) (hd cl')" by simp
  obtain m where m: "m \<in> set cl'" "cluster_start cl' = fc_line_start m" using cluster_start_member ne by blast
  have "same_key x m" using m assms(2,4) key by (meson cluster_ok_def same_key_simps)
  then have "cluster_start cl' \<le> fc_line_start x" using assms(6) m by simp
  with assms(3,5,7) key ne show "cluster_end (cl @ [x]) < cluster_start cl' \<or> cluster_end cl' < cluster_start (cl @ [x])"
    by (auto simp: apart_def cluster_bounds_snoc cluster_overlaps_def)
qed

lemma apart_new:
  assumes "cluster_ok cl" "\<not> (same_key x (hd cl) \<and> cluster_overlaps x cl)"
  shows "apart cl [x]"
  using assms by (auto simp: apart_def cluster_overlaps_def same_key_def)

lemma place_mset: "mset (concat (place x cls)) = add_mset x (mset (concat cls))"
  by (induction cls) auto

lemma place_cases:
  obtains "\<forall>d \<in> set cls. \<not> (same_key x (hd d) \<and> cluster_overlaps x d)" "place x cls = cls @ [[x]]"
  | pre d post where "cls = pre @ d # post" "same_key x (hd d)" "cluster_overlaps x d" "place x cls = pre @ (d @ [x]) # post"
proof (induction cls arbitrary: thesis)
  case Nil
  then show ?case by simp
next
  case (Cons cl cls)
  show ?case
  proof (cases "same_key x (hd cl) \<and> cluster_overlaps x cl")
    case True
    then show ?thesis using Cons.prems(2) [of "[]" cl cls] by simp
  next
    case False
    then have p: "place x (cl # cls) = cl # place x cls" by auto
    show ?thesis
    proof (rule Cons.IH)
      assume "\<forall>d \<in> set cls. \<not> (same_key x (hd d) \<and> cluster_overlaps x d)" "place x cls = cls @ [[x]]"
      with False p Cons.prems(1) show thesis by simp
    next
      fix pre d post
      assume "cls = pre @ d # post" "same_key x (hd d)" "cluster_overlaps x d" "place x cls = pre @ (d @ [x]) # post"
      with p Cons.prems(2) [of "cl # pre" d post] show thesis by simp
    qed
  qed
qed

lemma place_ok:
  assumes ok: "clusters_ok cls" and x: "fc_line_start x \<le> fc_line_end x"
    and before: "\<forall>m \<in> set (concat cls). same_key x m \<longrightarrow> fc_line_start m \<le> fc_line_start x"
  shows "clusters_ok (place x cls)"
proof (rule place_cases [of cls x])
  assume "\<forall>d \<in> set cls. \<not> (same_key x (hd d) \<and> cluster_overlaps x d)" and p: "place x cls = cls @ [[x]]"
  then have "\<forall>d \<in> set cls. apart d [x]" using ok apart_new by (auto simp: clusters_ok_def)
  with ok x p show ?thesis by (simp add: clusters_ok_def sorted_wrt_append cluster_ok_single)
next
  fix pre d post
  assume cls: "cls = pre @ d # post" and d: "same_key x (hd d)" "cluster_overlaps x d" and p: "place x cls = pre @ (d @ [x]) # post"
  have okd: "cluster_ok d" and oks: "e \<in> set pre \<union> set post \<Longrightarrow> cluster_ok e" for e using ok cls by (auto simp: clusters_ok_def)
  have apd: "e \<in> set pre \<union> set post \<Longrightarrow> apart d e" for e using ok cls apart_sym by (auto simp: clusters_ok_def sorted_wrt_append)
  obtain m where "m \<in> set d" "cluster_start d = fc_line_start m" using cluster_start_member [of d] okd by (auto simp: cluster_ok_def)
  moreover have "same_key x m" using \<open>m \<in> set d\<close> okd d(1) by (meson cluster_ok_def same_key_simps)
  ultimately have st: "cluster_start d \<le> fc_line_start x" using before cls by auto
  have new: "apart (d @ [x]) e" if "e \<in> set pre \<union> set post" for e
    using apart_snoc [OF okd oks [OF that] apd [OF that] d _ st] before cls that by auto
  have "sorted_wrt apart (pre @ (d @ [x]) # post)"
    using ok cls new apart_sym by (auto simp: clusters_ok_def sorted_wrt_append)
  moreover have "cluster_ok (d @ [x])" by (rule cluster_ok_snoc [OF okd d(1) x d(2) st])
  ultimately show ?thesis using p oks by (auto simp: clusters_ok_def)
qed

lemma clusters_of_snoc: "clusters_of (xs @ [x]) = place x (clusters_of xs)"
  by (simp add: clusters_of_def)

lemma clusters_of_ok:
  assumes "sorted_wrt (\<lambda>a b. same_key b a \<longrightarrow> fc_line_start a \<le> fc_line_start b) xs"
    "\<forall>x \<in> set xs. fc_line_start x \<le> fc_line_end x"
  shows "clusters_ok (clusters_of xs) \<and> mset (concat (clusters_of xs)) = mset xs"
  using assms
proof (induction xs rule: rev_induct)
  case (snoc x xs)
  then have ih: "clusters_ok (clusters_of xs)" and ms: "mset (concat (clusters_of xs)) = mset xs" by (auto simp: sorted_wrt_append)
  have "set (concat (clusters_of xs)) = set xs" using ms by (metis set_mset_mset)
  with snoc.prems have "\<forall>m \<in> set (concat (clusters_of xs)). same_key x m \<longrightarrow> fc_line_start m \<le> fc_line_start x"
    by (auto simp: sorted_wrt_append)
  with place_ok [OF ih] snoc.prems(2) ms show ?case
    unfolding clusters_of_snoc place_mset by simp
qed (simp add: clusters_of_def clusters_ok_def)

text \<open>The sort puts the candidates of one key in the order of their first line, as long as the numbers
  fit the ten digits of the sort key.\<close>

lemma sorted_by_line:
  assumes "\<forall>x \<in> set xs. 0 \<le> fc_line_start x \<and> fc_line_start x < 10 ^ 10"
  shows "sorted_wrt (\<lambda>a b. same_key b a \<longrightarrow> fc_line_start a \<le> fc_line_start b) (sort_key (aggregate_sort_key repository head_sha) xs)"
proof (rule sorted_wrt_mono_rel)
  show "sorted_wrt (\<lambda>a b. aggregate_sort_key repository head_sha a \<le> aggregate_sort_key repository head_sha b)
          (sort_key (aggregate_sort_key repository head_sha) xs)"
    using sorted_sort_key [of "aggregate_sort_key repository head_sha" xs] by (simp add: sorted_map)
  fix a b
  assume "a \<in> set (sort_key (aggregate_sort_key repository head_sha) xs)" "b \<in> set (sort_key (aggregate_sort_key repository head_sha) xs)"
    and le: "aggregate_sort_key repository head_sha a \<le> aggregate_sort_key repository head_sha b"
  then have "0 \<le> fc_line_start a" "fc_line_start a < 10 ^ 10" "0 \<le> fc_line_start b" "fc_line_start b < 10 ^ 10" using assms by auto
  then show "same_key b a \<longrightarrow> fc_line_start a \<le> fc_line_start b"
    using le zero_padded_mono [of "fc_line_start a" "fc_line_start b"]
    by (auto simp: aggregate_sort_key_def same_key_def less_eq_prod_def less_prod_def)
qed

section \<open>Merged findings\<close>

lemma max_by_in: "max_by k best xs \<in> set (best # xs)"
  by (induction k best xs rule: max_by.induct) auto

lemma max_by_greatest: "x \<in> set (best # xs) \<Longrightarrow> k x \<le> k (max_by k best xs)"
proof (induction k best xs arbitrary: x rule: max_by.induct)
  case (2 k best y ys)
  show ?case
    using "2.IH" [of x] "2.IH" [of y] "2.IH" [of best] "2.prems"
    by (auto split: if_splits intro: order_trans less_imp_le)
qed simp

lemma pick_representative_spec:
  assumes "cl \<noteq> []"
  shows "pick_representative cl \<in> set cl" "m \<in> set cl \<Longrightarrow> severity_rank (fc_severity m) \<le> severity_rank (fc_severity (pick_representative cl))"
proof -
  have cl: "set (hd cl # tl cl) = set cl" using assms by simp
  show "pick_representative cl \<in> set cl" using max_by_in [of pick_key "hd cl" "tl cl"] unfolding cl pick_representative_def .
  show "severity_rank (fc_severity m) \<le> severity_rank (fc_severity (pick_representative cl))" if "m \<in> set cl"
  proof -
    have "pick_key m \<le> pick_key (pick_representative cl)"
      unfolding pick_representative_def by (rule max_by_greatest) (simp only: cl that)
    then show ?thesis by (auto simp: pick_key_def less_eq_prod_def)
  qed
qed

lemma merge_cluster_simps [simp]:
  "fc_line_start (merge_cluster cl) = cluster_start cl" "fc_line_end (merge_cluster cl) = cluster_end cl"
  "fc_file_path (merge_cluster cl) = fc_file_path (pick_representative cl)"
  "fc_category (merge_cluster cl) = fc_category (pick_representative cl)"
  "fc_severity (merge_cluster cl) = fc_severity (pick_representative cl)"
  "set (fc_evidence (merge_cluster cl)) = (\<Union>m \<in> set cl. set (fc_evidence m))"
  "range_of (merge_cluster cl) = {cluster_start cl..cluster_end cl}"
  by (simp_all add: merge_cluster_def range_of_def)

lemma merge_cluster_key: "cluster_ok cl \<Longrightarrow> m \<in> set cl \<Longrightarrow> same_key m (merge_cluster cl)"
proof -
  assume ok: "cluster_ok cl" and m: "m \<in> set cl"
  then have "same_key m (hd cl)" "same_key (pick_representative cl) (hd cl)"
    using pick_representative_spec(1) [of cl] unfolding cluster_ok_def by blast+
  then show ?thesis by (simp add: same_key_def)
qed

lemma merge_cluster_ok:
  assumes "cluster_ok cl" "\<forall>m \<in> set cl. candidate_ok m"
  shows "candidate_ok (merge_cluster cl)"
proof -
  have ne: "cl \<noteq> []" using assms(1) by (simp add: cluster_ok_def)
  have p: "candidate_ok (pick_representative cl)" using pick_representative_spec(1) [OF ne] assms(2) by blast
  obtain m where m: "m \<in> set cl" "cluster_start cl = fc_line_start m" using cluster_start_member [OF ne] by blast
  have "fc_line_end m \<le> cluster_end cl" using m(1) by (simp add: cluster_end_def)
  moreover have "0 < fc_line_start m" "fc_line_start m \<le> fc_line_end m" using m(1) assms(2) by (auto simp: candidate_ok_def)
  moreover have "set (fc_evidence m) \<subseteq> set (fc_evidence (merge_cluster cl))" "fc_evidence m \<noteq> []"
    using m(1) assms(2) by (auto simp: candidate_ok_def)
  then have "fc_evidence (merge_cluster cl) \<noteq> []" by (metis set_empty subset_empty)
  ultimately show ?thesis using p m(2) by (auto simp: candidate_ok_def merge_cluster_def)
qed

section \<open>Properties\<close>

text \<open>C20. The merge neither loses nor repeats a finding: for well-formed candidates with line numbers below
  ten billion, every candidate is covered by a merged finding of its file and category that has all its
  lines, all its evidence and at least its severity; the merged findings are well formed, two of them for
  the same file and category never share a line, and no merged finding covers a line that no candidate of
  its file and category covers.\<close>

theorem aggregate_covers_without_overlap:
  assumes ok: "\<forall>c \<in> set findings. candidate_ok c \<and> fc_line_start c < 10 ^ 10"
  shows "sorted_wrt (\<lambda>a b. same_key a b \<longrightarrow> range_of a \<inter> range_of b = {}) (aggregate_findings repository head_sha findings) \<and>
     (\<forall>c \<in> set findings. \<exists>m \<in> set (aggregate_findings repository head_sha findings). same_key c m \<and>
        range_of c \<subseteq> range_of m \<and> set (fc_evidence c) \<subseteq> set (fc_evidence m) \<and>
        severity_rank (fc_severity c) \<le> severity_rank (fc_severity m)) \<and>
     (\<forall>m \<in> set (aggregate_findings repository head_sha findings). candidate_ok m \<and>
        (\<forall>l \<in> range_of m. \<exists>c \<in> set findings. same_key c m \<and> l \<in> range_of c))"
proof -
  define cls where "cls = clusters_of (sort_key (aggregate_sort_key repository head_sha) findings)"
  have agg: "aggregate_findings repository head_sha findings = map merge_cluster cls"
    by (simp add: aggregate_findings_def cls_def)
  have lines: "\<forall>c \<in> set findings. 0 \<le> fc_line_start c \<and> fc_line_start c < 10 ^ 10"
    "\<forall>c \<in> set findings. fc_line_start c \<le> fc_line_end c"
    using ok by (auto simp: candidate_ok_def)
  have cls: "clusters_ok cls" and ms: "mset (concat cls) = mset findings"
    using clusters_of_ok [OF sorted_by_line [OF lines(1)]] lines(2) by (auto simp: cls_def)
  have members: "set (concat cls) = set findings" using ms by (metis set_mset_mset)
  have okc: "cluster_ok cl" "cl \<noteq> []" if "cl \<in> set cls" for cl using cls that by (auto simp: clusters_ok_def cluster_ok_def)
  have disj: "sorted_wrt (\<lambda>a b. same_key a b \<longrightarrow> range_of a \<inter> range_of b = {}) (map merge_cluster cls)"
    unfolding sorted_wrt_map
  proof (rule sorted_wrt_mono_rel)
    show "sorted_wrt apart cls" using cls by (simp add: clusters_ok_def)
    fix a b assume ab: "a \<in> set cls" "b \<in> set cls" "apart a b"
    have "same_key (hd a) (hd b)" if "same_key (merge_cluster a) (merge_cluster b)"
      using merge_cluster_key [OF okc(1) [OF ab(1)], of "hd a"] merge_cluster_key [OF okc(1) [OF ab(2)], of "hd b"]
        okc(2) [OF ab(1)] okc(2) [OF ab(2)] that by (simp add: same_key_def)
    with ab(3) show "same_key (merge_cluster a) (merge_cluster b) \<longrightarrow> range_of (merge_cluster a) \<inter> range_of (merge_cluster b) = {}"
      by (auto simp: apart_def)
  qed
  have cover: "\<exists>m \<in> set (map merge_cluster cls). same_key c m \<and> range_of c \<subseteq> range_of m \<and>
      set (fc_evidence c) \<subseteq> set (fc_evidence m) \<and> severity_rank (fc_severity c) \<le> severity_rank (fc_severity m)"
    if c: "c \<in> set findings" for c
  proof -
    obtain cl where cl: "cl \<in> set cls" "c \<in> set cl" using c members [symmetric] by auto
    have "range_of c \<subseteq> range_of (merge_cluster cl)" using okc(1) [OF cl(1)] cl(2) by (auto simp: cluster_ok_def)
    with cl merge_cluster_key [OF okc(1) [OF cl(1)] cl(2)] pick_representative_spec(2) [OF okc(2) [OF cl(1)] cl(2)]
    show ?thesis by (auto intro!: bexI [of _ cl])
  qed
  have sound: "candidate_ok m \<and> (\<forall>l \<in> range_of m. \<exists>c \<in> set findings. same_key c m \<and> l \<in> range_of c)"
    if m: "m \<in> set (map merge_cluster cls)" for m
  proof -
    obtain cl where cl: "cl \<in> set cls" "m = merge_cluster cl" using m by auto
    have sub: "set cl \<subseteq> set findings" using cl(1) members by auto
    have "range_of m = (\<Union>c \<in> set cl. range_of c)" using okc(1) [OF cl(1)] cl(2) by (simp add: cluster_ok_def)
    then show ?thesis
      using merge_cluster_ok [OF okc(1) [OF cl(1)]] merge_cluster_key [OF okc(1) [OF cl(1)]] sub ok cl(2) by blast
  qed
  show ?thesis unfolding agg using disj cover sound by blast
qed

definition sample_candidate :: "int \<Rightarrow> int \<Rightarrow> severity \<Rightarrow> string \<Rightarrow> finding_candidate" where
  "sample_candidate a b sev ev =
     \<lparr>fc_concern = Correctness, fc_severity = sev, fc_category = ''Null_Check'', fc_file_path = ''f.py'', fc_line_start = a,
      fc_line_end = b, fc_title = ''t'', fc_rationale = ''r'', fc_evidence = [ev], fc_confidence = 1\<rparr>"

theorem aggregate_covers_without_overlap_witness:
  "\<exists>m \<in> set (aggregate_findings ''o/r'' ''h'' [sample_candidate 9 12 Low ''x'', sample_candidate 3 10 High ''y'']).
     {3..10} \<subseteq> range_of m \<and> severity_rank High \<le> severity_rank (fc_severity m)"
proof -
  have "\<forall>c \<in> set [sample_candidate 9 12 Low ''x'', sample_candidate 3 10 High ''y'']. candidate_ok c \<and> fc_line_start c < 10 ^ 10"
    by (simp add: sample_candidate_def candidate_ok_def)
  from aggregate_covers_without_overlap [OF this, of "''o/r''" "''h''", THEN conjunct2, THEN conjunct1, rule_format,
      of "sample_candidate 3 10 High ''y''"]
  show ?thesis by (auto simp: sample_candidate_def range_of_def)
qed

end
