(* ===== verification/Posting.thy ===== *)
theory Posting
  imports Aggregate Review_Projection
begin

text \<open>
  What leaves the runner: \<^verbatim>\<open>notifications/\<close> (the gate that routes a finding, channel isolation, the
  preview, the fan-out), \<^verbatim>\<open>contracts/notification.py\<close>, \<^verbatim>\<open>security/instruction_sources.py\<close> (the review policy
  and the instruction files) and \<^verbatim>\<open>github/post_review.py\<close>.  The injected callables (sending, submitting,
  listing, looking up and recording) are parameters that act on an arbitrary world.
\<close>

section \<open>Policy and instruction files\<close>

record review_policy =
  rp_instructions_enabled :: bool
  rp_auto_post :: bool
  rp_specialist_mode :: bool
  rp_verification_required :: bool
  rp_public_posting :: bool
  rp_budget_tokens :: int

definition default_review_policy :: review_policy where
  "default_review_policy =
     \<lparr>rp_instructions_enabled = False, rp_auto_post = False, rp_specialist_mode = False, rp_verification_required = True,
      rp_public_posting = False, rp_budget_tokens = 128000\<rparr>"

record instruction_source =
  is_path :: string
  is_default_branch :: string
  is_commit_sha :: string
  is_content_hash :: string
  is_byte_size :: int
  is_truncated :: bool
  is_content :: string

definition allowed_instruction_paths :: "string list" where
  "allowed_instruction_paths = [''CLAUDE.md'', ''AGENTS.md'', ''.pr-reviewer.md'']"

definition max_instruction_files :: nat where
  "max_instruction_files = 2"

definition max_instruction_bytes :: nat where
  "max_instruction_bytes = 4096"

definition truncation_marker :: string where
  "truncation_marker = newline # ''[truncated]'' @ [newline]"

text \<open>\<open>decode\<close> is the UTF-8 decoder that replaces invalid bytes.\<close>

definition source_from_bytes ::
  "(string \<Rightarrow> string) \<Rightarrow> (string \<Rightarrow> string) \<Rightarrow> string \<Rightarrow> string \<Rightarrow> string \<Rightarrow> string \<Rightarrow> instruction_source result" where
  "source_from_bytes decode sha256 path branch sha raw =
     (let truncated = max_instruction_bytes < length raw;
          body = (if truncated then take max_instruction_bytes raw else raw);
          content = (if truncated then decode body @ truncation_marker else decode body)
      in if path \<noteq> [] \<and> branch \<noteq> [] \<and> sha \<noteq> [] \<and> length (sha256 content) = 64
         then Inr \<lparr>is_path = path, is_default_branch = branch, is_commit_sha = sha, is_content_hash = sha256 content,
                   is_byte_size = int (length raw), is_truncated = truncated, is_content = content\<rparr>
         else Inl ValueError)"

fun load_paths ::
  "(string \<Rightarrow> string) \<Rightarrow> (string \<Rightarrow> string) \<Rightarrow> (string \<Rightarrow> string \<Rightarrow> ('w, string option) act) \<Rightarrow> string \<Rightarrow> string
   \<Rightarrow> instruction_source list \<Rightarrow> string list \<Rightarrow> ('w, instruction_source list) act" where
  "load_paths decode sha256 read_file branch sha loaded [] = return_a loaded"
| "load_paths decode sha256 read_file branch sha loaded (path # paths) =
     (if max_instruction_files \<le> length loaded then return_a loaded
      else bind_a (read_file path sha) (\<lambda>raw.
        case raw of
          None \<Rightarrow> load_paths decode sha256 read_file branch sha loaded paths
        | Some bytes \<Rightarrow> bind_a (lift_r (source_from_bytes decode sha256 path branch sha bytes)) (\<lambda>source.
            load_paths decode sha256 read_file branch sha (loaded @ [source]) paths)))"

definition load_repository_instructions ::
  "(string \<Rightarrow> string) \<Rightarrow> (string \<Rightarrow> string) \<Rightarrow> ('w, string \<times> string) act \<Rightarrow> (string \<Rightarrow> string \<Rightarrow> ('w, string option) act)
   \<Rightarrow> review_policy \<Rightarrow> ('w, instruction_source list) act" where
  "load_repository_instructions decode sha256 default_branch read_file policy =
     (if \<not> rp_instructions_enabled policy then return_a []
      else bind_a default_branch (\<lambda>(branch, sha).
        load_paths decode sha256 read_file branch sha [] allowed_instruction_paths))"

definition apply_instructions :: "review_policy \<Rightarrow> string list \<Rightarrow> review_policy \<times> string" where
  "apply_instructions policy texts = (policy, py_join [newline, newline] texts)"

section \<open>The gate\<close>

record sensitivity_score =
  ss_path :: string
  ss_fix_density :: rat
  ss_fix_count :: int
  ss_commit_count :: int
  ss_caller_count :: int
  ss_structural_flags :: "string list"
  ss_evidence :: "string list"

datatype confidentiality = Restricted | Ordinary

datatype notify_purpose = Security_Alert | Review_Ping

record gate_decision =
  ga_queue_for_human :: bool
  ga_confidentiality :: confidentiality
  ga_notify_purpose :: "notify_purpose option"
  ga_allow_public_post :: bool
  ga_reason :: string

definition is_high_sensitivity :: "sensitivity_score \<Rightarrow> bool" where
  "is_high_sensitivity score \<longleftrightarrow>
     ss_structural_flags score \<noteq> [] \<or> 1 / 4 \<le> ss_fix_density score \<or> 3 \<le> ss_caller_count score"

definition private_finding :: "finding \<Rightarrow> bool" where
  "private_finding f \<longleftrightarrow> fi_concern f = Security \<and> (\<not> fi_public_safe f \<or> fi_severity f = Critical)"

definition route_finding ::
  "finding \<Rightarrow> review_policy \<Rightarrow> (string \<Rightarrow> sensitivity_score option) option \<Rightarrow> verification_result option \<Rightarrow> gate_decision" where
  "route_finding f policy sensitivity_by_path verification =
     (let private = private_finding f;
          score = (case sensitivity_by_path of None \<Rightarrow> None | Some m \<Rightarrow> m (fi_file_path f));
          high = (case score of None \<Rightarrow> False | Some s \<Rightarrow> is_high_sensitivity s);
          inconclusive = (case verification of None \<Rightarrow> False
                          | Some v \<Rightarrow> vr_status v = Check_Failed \<or> vr_status v = Check_Inconclusive);
          allow = (rp_auto_post policy \<and> rp_public_posting policy \<and> fi_verified f \<and> fi_public_safe f \<and>
                   \<not> private \<and> \<not> high \<and> \<not> inconclusive);
          reason = (if private then ''unsafe or critical security finding''
                    else if \<not> fi_verified f \<or> inconclusive then ''unverified or inconclusive finding''
                    else if high then ''high-sensitivity file''
                    else if \<not> allow then ''policy queues for a person''
                    else ''public-safe and verified'')
      in \<lparr>ga_queue_for_human = \<not> allow, ga_confidentiality = (if private then Restricted else Ordinary),
          ga_notify_purpose = (if private then Some Security_Alert else None), ga_allow_public_post = allow,
          ga_reason = reason\<rparr>)"

section \<open>Notifications\<close>

datatype transport_name = Slack | Telegram | Discord

record notification_channel =
  nc_id :: string
  nc_transport :: transport_name
  nc_purpose :: notify_purpose
  nc_confidentiality :: confidentiality
  nc_revoked :: bool

record notification_preview =
  np_title :: string
  np_body :: string
  np_confidentiality :: confidentiality

definition build_preview :: "finding \<Rightarrow> confidentiality \<Rightarrow> notification_preview" where
  "build_preview f conf =
     (if conf = Restricted then
        \<lparr>np_title = ''Review finding needs attention'',
         np_body = fi_title f @ newline # fi_file_path f @ '':'' @ show_int (fi_line_start f) @ newline # fi_rationale f,
         np_confidentiality = conf\<rparr>
      else \<lparr>np_title = ''Your pull request was reviewed'', np_body = ''A review finished.'', np_confidentiality = conf\<rparr>)"

text \<open>\<open>assert_job_isolation\<close>: a channel id that carries both purposes must be restricted throughout.\<close>

definition channel_group :: "notification_channel list \<Rightarrow> string \<Rightarrow> notification_channel list" where
  "channel_group channels i = filter (\<lambda>c. nc_id c = i) channels"

definition assert_job_isolation :: "notification_channel list \<Rightarrow> unit result" where
  "assert_job_isolation channels =
     (if \<exists>i \<in> set (map nc_id channels).
           set (map nc_purpose (channel_group channels i)) = {Security_Alert, Review_Ping} \<and>
           (\<exists>c \<in> set (channel_group channels i). nc_confidentiality c \<noteq> Restricted)
      then Inl ChannelIsolationError else Inr ())"

record send_result =
  sn_ok :: bool
  sn_error_kind :: "string option"

record channel_delivery =
  cd_channel_id :: string
  cd_ok :: bool
  cd_error_kind :: "string option"

type_synonym 'w send_fn = "notification_channel \<Rightarrow> notification_preview \<Rightarrow> ('w, send_result) act"

definition delivery :: "notification_channel \<Rightarrow> bool \<Rightarrow> string option \<Rightarrow> channel_delivery" where
  "delivery c ok kind = \<lparr>cd_channel_id = nc_id c, cd_ok = ok, cd_error_kind = kind\<rparr>"

text \<open>The loop over the channels; the remembered keys are returned with the deliveries because a set that
  the caller passed in is changed in place.\<close>

fun dispatch_loop ::
  "notification_preview \<Rightarrow> 'w send_fn \<Rightarrow> string \<Rightarrow> notification_channel list \<Rightarrow> (string \<times> string) set \<Rightarrow> channel_delivery list
   \<Rightarrow> 'w \<Rightarrow> channel_delivery list \<times> (string \<times> string) set \<times> 'w" where
  "dispatch_loop preview send key [] remembered deliveries w = (deliveries, remembered, w)"
| "dispatch_loop preview send key (c # cs) remembered deliveries w =
     (if nc_revoked c then dispatch_loop preview send key cs remembered (deliveries @ [delivery c False (Some ''revoked'')]) w
      else if (key, nc_id c) \<in> remembered then
        dispatch_loop preview send key cs remembered (deliveries @ [delivery c True (Some ''duplicate'')]) w
      else case send c preview w of
        (Inl e, w') \<Rightarrow>
          dispatch_loop preview send key cs remembered (deliveries @ [delivery c False (Some ''delivery_failed'')]) w'
      | (Inr result, w') \<Rightarrow>
          if sn_ok result then
            dispatch_loop preview send key cs (insert (key, nc_id c) remembered) (deliveries @ [delivery c True None]) w'
          else
            dispatch_loop preview send key cs remembered
              (deliveries @ [delivery c False (case sn_error_kind result of
                 Some k \<Rightarrow> if k \<noteq> [] then Some k else Some ''delivery_failed'' | None \<Rightarrow> Some ''delivery_failed'')]) w')"

definition dispatch_notifications ::
  "notification_preview \<Rightarrow> notification_channel list \<Rightarrow> 'w send_fn \<Rightarrow> string \<Rightarrow> (string \<times> string) set \<Rightarrow> 'w
   \<Rightarrow> (channel_delivery list \<times> (string \<times> string) set) result \<times> 'w" where
  "dispatch_notifications preview channels send key seen w =
     (if np_confidentiality preview = Restricted \<and> (\<exists>c \<in> set channels. nc_confidentiality c \<noteq> Restricted)
      then (Inl RestrictedContentRefused, w)
      else case dispatch_loop preview send key channels seen [] w of (ds, seen', w') \<Rightarrow> (Inr (ds, seen'), w'))"

section \<open>Posting a review\<close>

record route_decision =
  rd_allow_public_post :: bool
  rd_confidentiality :: confidentiality

datatype comment_side = Side_Right | Side_Left

record review_comment =
  cm_path :: string
  cm_line :: int
  cm_side :: comment_side
  cm_body :: string

record review_submission =
  rs_commit_id :: string
  rs_body :: string
  rs_comments :: "review_comment list"

record posted_review =
  po_github_review_id :: "string option"
  po_comment_ids :: "string list"
  po_response_status :: "int option"
  po_body :: string
  po_comments :: "review_comment list"
  po_summary_only :: bool
  po_idempotency_key :: string

record 'w poster =
  pt_current_head_sha :: "('w, string) act"
  pt_submit :: "review_submission \<Rightarrow> ('w, posted_review) act"
  pt_list_reviews :: "(pull_request_ref \<Rightarrow> ('w, posted_review list) act) option"
  pt_lookup :: "(string \<Rightarrow> ('w, posted_review option) act) option"
  pt_record_post :: "(posted_review \<Rightarrow> ('w, unit) act) option"
  pt_record_event :: "(string \<Rightarrow> string \<Rightarrow> json \<Rightarrow> ('w, unit) act) option"

definition posting_idempotency_key :: "pull_request_ref \<Rightarrow> string \<Rightarrow> string \<Rightarrow> string" where
  "posting_idempotency_key ref head_sha policy_version =
     pr_owner ref @ ''/'' @ pr_repository ref @ ''#'' @ show_int (pr_number ref) @ ''@'' @ head_sha @ '':'' @ policy_version"

definition marker :: "string \<Rightarrow> string" where
  "marker key = ''<!-- pr-reviewer:post:'' @ key @ '' -->''"

definition is_public :: "finding \<Rightarrow> route_decision \<Rightarrow> bool" where
  "is_public f d \<longleftrightarrow> fi_status f \<noteq> Rejected \<and> rd_confidentiality d \<noteq> Restricted \<and> rd_allow_public_post d"

text \<open>\<open>_new_side_numbers\<close> runs the same loop as \<open>_new_side_lines\<close> of the review.\<close>

definition anchor :: "finding \<Rightarrow> file_patch list \<Rightarrow> (file_patch \<Rightarrow> string) \<Rightarrow> review_comment option" where
  "anchor f patches render =
     (case List.find (\<lambda>p. fp_path p = fi_file_path f) patches of
        None \<Rightarrow> None
      | Some patch \<Rightarrow>
          if fi_line_start f \<notin> new_side_lines (render patch) then None
          else Some \<lparr>cm_path = fp_path patch, cm_line = fi_line_start f, cm_side = Side_Right, cm_body = fi_title f\<rparr>)"

definition existing :: "'w poster \<Rightarrow> string \<Rightarrow> pull_request_ref \<Rightarrow> ('w, posted_review option) act" where
  "existing pt key ref =
     bind_a (case pt_lookup pt of None \<Rightarrow> return_a None | Some lookup \<Rightarrow> lookup key) (\<lambda>found.
       case found of
         Some p \<Rightarrow> return_a (Some p)
       | None \<Rightarrow>
           (case pt_list_reviews pt of
              None \<Rightarrow> return_a None
            | Some listing \<Rightarrow> bind_a (listing ref) (\<lambda>reviews.
                return_a (map_option (\<lambda>r. r\<lparr>po_idempotency_key := key\<rparr>)
                            (List.find (\<lambda>r. contains (marker key) (po_body r)) reviews)))))"

definition emit_posted :: "'w poster \<Rightarrow> (finding \<times> route_decision) list \<Rightarrow> posted_review \<Rightarrow> ('w, unit) act" where
  "emit_posted pt findings posted =
     (case (pt_record_event pt, po_github_review_id posted, po_response_status posted) of
        (Some record_ev, Some rid, Some status) \<Rightarrow>
          record_ev (case findings of [] \<Rightarrow> [] | (f, _) # _ \<Rightarrow> fi_review_job_id f) ''github.review_posted''
            (JObj [(''github_review_id'', JStr rid), (''response_status'', JInt status),
                   (''comment_count'', JInt (int (length (po_comment_ids posted))))])
      | _ \<Rightarrow> return_a ())"

definition submission_of ::
  "string \<Rightarrow> string \<Rightarrow> file_patch list \<Rightarrow> (file_patch \<Rightarrow> string) \<Rightarrow> finding list \<Rightarrow> review_submission" where
  "submission_of head_sha key patches render public =
     \<lparr>rs_commit_id = head_sha,
      rs_body = marker key @ newline # py_join [newline] (map (\<lambda>f. ''- '' @ fi_title f) public),
      rs_comments = List.map_filter (\<lambda>f. anchor f patches render) public\<rparr>"

text \<open>The submission with its recovery: a timeout is settled by looking for the review.\<close>

definition submit_or_recover ::
  "'w poster \<Rightarrow> string \<Rightarrow> pull_request_ref \<Rightarrow> review_submission \<Rightarrow> ('w, posted_review) act" where
  "submit_or_recover pt key ref submission w =
     (case pt_submit pt submission w of
        (Inr posted, w') \<Rightarrow> (Inr posted, w')
      | (Inl e, w') \<Rightarrow>
          if e \<noteq> HttpTimeout then (Inl e, w')
          else bind_a (existing pt key ref) (\<lambda>recovered.
                 case recovered of None \<Rightarrow> raise_a HttpTimeout | Some p \<Rightarrow> return_a p) w')"

definition post_review ::
  "'w poster \<Rightarrow> (file_patch \<Rightarrow> string) \<Rightarrow> pull_request_ref \<Rightarrow> string \<Rightarrow> (finding \<times> route_decision) list \<Rightarrow> string
   \<Rightarrow> file_patch list \<Rightarrow> ('w, posted_review option) act" where
  "post_review pt render ref head_sha findings key patches =
     bind_a (existing pt key ref) (\<lambda>found.
       case found of
         Some p \<Rightarrow> return_a (Some p)
       | None \<Rightarrow>
           let public = map fst (filter (\<lambda>(f, d). is_public f d) findings)
           in if public = [] then return_a None
              else let submission = submission_of head_sha key patches render public
              in bind_a (pt_current_head_sha pt) (\<lambda>live.
                   if \<not> reviewed_head_is_current head_sha live then raise_a StalePullRequestHead
                   else bind_a (submit_or_recover pt key ref submission) (\<lambda>posted.
                     let posted = posted\<lparr>po_idempotency_key := key,
                                         po_summary_only := (rs_comments submission = []),
                                         po_body := (if po_body posted \<noteq> [] then po_body posted else rs_body submission),
                                         po_comments := (if po_comments posted \<noteq> [] then po_comments posted
                                                         else rs_comments submission)\<rparr>
                     in bind_a (case pt_record_post pt of None \<Rightarrow> return_a () | Some record_post \<Rightarrow> record_post posted) (\<lambda>_.
                        bind_a (emit_posted pt findings posted) (\<lambda>_. return_a (Some posted))))))"

section \<open>What is submitted\<close>

text \<open>A poster that notes each submission before passing it on, over a world that carries the notes.\<close>

definition noting :: "'w poster \<Rightarrow> (review_submission list \<times> 'w) poster" where
  "noting pt =
     \<lparr>pt_current_head_sha = on_world (pt_current_head_sha pt),
      pt_submit = (\<lambda>sub c. case pt_submit pt sub (snd c) of (r, w') \<Rightarrow> (r, (fst c @ [sub], w'))),
      pt_list_reviews = map_option (\<lambda>f ref. on_world (f ref)) (pt_list_reviews pt),
      pt_lookup = map_option (\<lambda>f key. on_world (f key)) (pt_lookup pt),
      pt_record_post = map_option (\<lambda>f p. on_world (f p)) (pt_record_post pt),
      pt_record_event = map_option (\<lambda>f j n v. on_world (f j n v)) (pt_record_event pt)\<rparr>"

text \<open>An action that submits nothing keeps the notes.\<close>

definition silent :: "('s \<times> 'w, 'a) act \<Rightarrow> bool" where
  "silent m \<longleftrightarrow> (\<forall>c. fst (snd (m c)) = fst c)"

lemma silent_intros [intro, simp]:
  "silent (on_world m)" "silent (return_a x)" "silent (raise_a e)"
  by (simp_all add: silent_def on_world_def act_simps split: prod.splits)

lemma silent_bind [intro]: "silent m \<Longrightarrow> (\<And>x. silent (f x)) \<Longrightarrow> silent (bind_a m f)"
  unfolding silent_def by (auto simp: act_simps split: prod.splits sum.splits) (metis fst_conv snd_conv)+

lemma silent_existing [simp]: "silent (existing (noting pt) key ref)"
  unfolding existing_def noting_def by (intro silent_bind) (auto split: option.splits)

lemma silent_record [simp]:
  "silent (case pt_record_post (noting pt) of None \<Rightarrow> return_a () | Some record_post \<Rightarrow> record_post posted)"
  "silent (emit_posted (noting pt) findings posted)"
  by (auto simp: noting_def emit_posted_def split: option.splits list.splits)

lemma silent_snd: "silent m \<Longrightarrow> m c = (r, c') \<Longrightarrow> fst c' = fst c"
  unfolding silent_def by (metis fst_conv snd_conv)

lemma submit_or_recover_notes:
  "submit_or_recover (noting pt) key ref sub c = (r, c') \<Longrightarrow> fst c' = fst c @ [sub]"
proof -
  assume s: "submit_or_recover (noting pt) key ref sub c = (r, c')"
  obtain q w' where q: "pt_submit pt sub (snd c) = (q, w')" by (metis surj_pair)
  have "silent (bind_a (existing (noting pt) key ref) (\<lambda>recovered. case recovered of None \<Rightarrow> raise_a HttpTimeout | Some p \<Rightarrow> return_a p))"
    by (intro silent_bind) (auto split: option.splits)
  from silent_snd [OF this] s q show ?thesis
    by (cases q) (auto simp: submit_or_recover_def noting_def split: if_splits)
qed

definition publics :: "(finding \<times> route_decision) list \<Rightarrow> finding list" where
  "publics findings = map fst (filter (\<lambda>(f, d). is_public f d) findings)"

lemma post_review_notes:
  assumes "post_review (noting pt) render ref head_sha findings key patches (notes, w) = (r, (notes', w'))"
  shows "notes' = notes \<or>
     (notes' = notes @ [submission_of head_sha key patches render (publics findings)] \<and> publics findings \<noteq> [] \<and>
      (\<exists>v v'. existing (noting pt) key ref (notes, w) = (Inr None, (notes, v)) \<and>
         pt_current_head_sha pt v = (Inr head_sha, v')))"
proof -
  obtain e n1 w1 where e: "existing (noting pt) key ref (notes, w) = (e, (n1, w1))" by (metis surj_pair)
  have n1: "n1 = notes" using silent_snd [OF silent_existing e] by simp
  show ?thesis
  proof (cases "e = Inr None \<and> publics findings \<noteq> []")
    case False
    then show ?thesis using assms e n1
      by (cases e) (auto simp: post_review_def act_simps publics_def split: option.splits sum.splits if_splits)
  next
    case True
    obtain h w2 where h: "pt_current_head_sha pt w1 = (h, w2)" by (metis surj_pair)
    have hn: "pt_current_head_sha (noting pt) (notes, w1) = (h, (notes, w2))" using h by (simp add: noting_def on_world_def)
    show ?thesis
    proof (cases "h = Inr head_sha")
      case False
      then show ?thesis using assms e n1 True hn
        by (cases h) (auto simp: post_review_def act_simps publics_def Let_def reviewed_head_is_current_def)
    next
      case live: True
      let ?sub = "submission_of head_sha key patches render (publics findings)"
      obtain s n3 w3 where s: "submit_or_recover (noting pt) key ref ?sub (notes, w2) = (s, (n3, w3))" by (metis surj_pair)
      have n3: "n3 = notes @ [?sub]" using submit_or_recover_notes [OF s] by simp
      define tail where "tail posted = bind_a (case pt_record_post (noting pt) of None \<Rightarrow> return_a () | Some record_post \<Rightarrow> record_post posted)
          (\<lambda>_. bind_a (emit_posted (noting pt) findings posted) (\<lambda>_. return_a (Some posted)))" for posted
      have silent_tail: "silent (tail posted)" for posted unfolding tail_def by (intro silent_bind silent_record silent_intros)
      have "notes' = n3"
      proof (cases s)
        case (Inl x)
        then show ?thesis using assms e n1 True hn live s
          by (simp add: post_review_def act_simps publics_def Let_def reviewed_head_is_current_def)
      next
        case (Inr p)
        then obtain p' where "tail p' (n3, w3) = (r, (notes', w'))"
          using assms e n1 True hn live s
          by (simp add: post_review_def act_simps publics_def Let_def reviewed_head_is_current_def tail_def)
        from silent_snd [OF silent_tail this] show ?thesis by simp
      qed
      with n3 True e n1 h live show ?thesis by blast
    qed
  qed
qed

text \<open>The posting half of a gate decision, copied by the caller.\<close>

definition decision_of :: "gate_decision \<Rightarrow> route_decision" where
  "decision_of g = \<lparr>rd_allow_public_post = ga_allow_public_post g, rd_confidentiality = ga_confidentiality g\<rparr>"

definition publishable :: "review_policy \<Rightarrow> finding \<Rightarrow> bool" where
  "publishable policy f \<longleftrightarrow> rp_auto_post policy \<and> rp_public_posting policy \<and> fi_verified f \<and> fi_public_safe f \<and>
     \<not> (fi_concern f = Security \<and> fi_severity f = Critical) \<and> fi_status f \<noteq> Rejected"

lemma public_gated:
  assumes "is_public f (decision_of (route_finding f policy sens ver))"
  shows "publishable policy f"
  using assms by (auto simp: is_public_def decision_of_def route_finding_def publishable_def private_finding_def Let_def)

lemma publics_gated:
  assumes "\<forall>(f, d) \<in> set findings. \<exists>sens ver. d = decision_of (route_finding f policy sens ver)" "f \<in> set (publics findings)"
  shows "f \<in> fst ` set findings \<and> publishable policy f"
proof -
  obtain d where d: "(f, d) \<in> set findings" "is_public f d" using assms(2) by (auto simp: publics_def)
  with assms(1) obtain sens ver where "d = decision_of (route_finding f policy sens ver)" by auto
  with d show ?thesis using public_gated by force
qed

lemma anchor_Some:
  "anchor f patches render = Some c \<Longrightarrow> cm_path c = fi_file_path f \<and> cm_line c = fi_line_start f \<and> cm_body c = fi_title f \<and>
     (\<exists>patch \<in> set patches. fp_path patch = fi_file_path f \<and> fi_line_start f \<in> new_side_lines (render patch))"
  by (auto simp: anchor_def find_Some_iff split: option.splits if_splits)

lemma marker_in_body: "contains (marker key) (rs_body (submission_of head_sha key patches render public))"
  by (simp add: contains_sublist submission_of_def)

text \<open>The fan-out sends only to live channels that were not served before, and what is restricted only to
  restricted channels.\<close>

lemma dispatch_skips:
  assumes "nc_revoked c \<or> (key, nc_id c) \<in> seen"
  shows "dispatch_loop preview send key (c # cs) seen ds w =
     dispatch_loop preview send key cs seen (ds @ [delivery c (\<not> nc_revoked c) (Some (if nc_revoked c then ''revoked'' else ''duplicate''))]) w"
  using assms by auto

lemma dispatch_again_sends_nothing:
  assumes "\<forall>c \<in> set cs. nc_revoked c \<or> (key, nc_id c) \<in> seen"
  shows "\<exists>ds'. dispatch_loop preview send key cs seen ds w = (ds', seen, w)"
  using assms
proof (induction cs arbitrary: ds)
  case (Cons c cs)
  then show ?case using dispatch_skips [of c key seen preview send cs ds w] by auto
qed simp

section \<open>Properties\<close>

text \<open>C21. Only what the gate let through is posted, once, on the head that was reviewed: whatever the host
  answers, a call of \<open>post_review\<close> with decisions taken from the gate submits at most one review; it submits
  one only when no earlier post was found and the live head was just read and is the reviewed one; the review
  carries the idempotency marker by which a later call finds it, its summary lists exactly the public
  findings, and each of them, and each inline comment, belongs to a finding that is verified, safe to
  publish, not a critical security finding and not rejected, under a policy with automatic public posting.\<close>

theorem only_gated_findings_are_posted:
  assumes gated: "\<forall>(f, d) \<in> set findings. \<exists>sens ver. d = decision_of (route_finding f policy sens ver)"
    and run: "post_review (noting pt) render ref head_sha findings key patches (notes, w) = (r, (notes', w'))"
  shows "notes' = notes \<or>
     (\<exists>sub public. notes' = notes @ [sub] \<and> rs_commit_id sub = head_sha \<and> contains (marker key) (rs_body sub) \<and>
        rs_body sub = marker key @ newline # py_join [newline] (map (\<lambda>f. ''- '' @ fi_title f) public) \<and>
        (\<forall>f \<in> set public. f \<in> fst ` set findings \<and> publishable policy f) \<and>
        (\<forall>c \<in> set (rs_comments sub). \<exists>f \<in> set public. cm_path c = fi_file_path f \<and> cm_line c = fi_line_start f \<and>
           cm_body c = fi_title f \<and> (\<exists>patch \<in> set patches. fp_path patch = fi_file_path f \<and>
             fi_line_start f \<in> new_side_lines (render patch))) \<and>
        (\<exists>v v'. existing (noting pt) key ref (notes, w) = (Inr None, (notes, v)) \<and> pt_current_head_sha pt v = (Inr head_sha, v')))"
proof (cases "notes' = notes")
  case False
  let ?sub = "submission_of head_sha key patches render (publics findings)"
  from post_review_notes [OF run] False
  have notes': "notes' = notes @ [?sub]" and live: "\<exists>v v'. existing (noting pt) key ref (notes, w) = (Inr None, (notes, v)) \<and>
      pt_current_head_sha pt v = (Inr head_sha, v')" by auto
  have comments: "\<exists>f \<in> set (publics findings). cm_path c = fi_file_path f \<and> cm_line c = fi_line_start f \<and> cm_body c = fi_title f \<and>
      (\<exists>patch \<in> set patches. fp_path patch = fi_file_path f \<and> fi_line_start f \<in> new_side_lines (render patch))"
    if "c \<in> set (rs_comments ?sub)" for c
    using that anchor_Some by (fastforce simp: submission_of_def in_map_filter)
  have "notes' = notes @ [?sub] \<and> rs_commit_id ?sub = head_sha \<and> contains (marker key) (rs_body ?sub) \<and>
      rs_body ?sub = marker key @ newline # py_join [newline] (map (\<lambda>f. ''- '' @ fi_title f) (publics findings))"
    using notes' marker_in_body by (simp add: submission_of_def)
  with publics_gated [OF gated] comments live show ?thesis by blast
qed simp

definition sample_finding :: finding where
  "sample_finding = \<lparr>fi_id = ''f1'', fi_review_job_id = ''j'', fi_concern = Correctness, fi_severity = High, fi_category = ''c'',
     fi_file_path = ''f.py'', fi_line_start = 2, fi_line_end = 2, fi_title = ''t'', fi_rationale = ''r'', fi_evidence = [''e''],
     fi_confidence = 1, fi_verified = True, fi_verification_method = Static, fi_public_safe = True, fi_status = Draft\<rparr>"

definition posting_policy :: review_policy where
  "posting_policy = default_review_policy\<lparr>rp_auto_post := True, rp_public_posting := True\<rparr>"

definition sample_poster :: "nat poster" where
  "sample_poster = \<lparr>pt_current_head_sha = return_a ''h'',
     pt_submit = (\<lambda>sub w. (Inr \<lparr>po_github_review_id = Some ''9'', po_comment_ids = [], po_response_status = Some 200, po_body = [],
        po_comments = [], po_summary_only = False, po_idempotency_key = []\<rparr>, w + 1)),
     pt_list_reviews = None, pt_lookup = None, pt_record_post = None, pt_record_event = None\<rparr>"

definition sample_ref :: pull_request_ref where
  "sample_ref = \<lparr>pr_owner = ''o'', pr_repository = ''r'', pr_number = 7\<rparr>"

definition sample_post :: "(review_submission list \<times> nat, posted_review option) act" where
  "sample_post = post_review (noting sample_poster) render_hunks sample_ref ''h''
     [(sample_finding, decision_of (route_finding sample_finding posting_policy None None))] ''k'' [as_file_patch sample_changed_file]"

lemma sample_post_submits: "fst (snd (sample_post ([], 0))) \<noteq> []"
  by code_simp

theorem only_gated_findings_are_posted_witness:
  "\<exists>sub. fst (snd (sample_post ([], 0))) = [sub] \<and> rs_commit_id sub = ''h'' \<and> contains (marker ''k'') (rs_body sub)"
proof -
  obtain r notes' w' where run: "sample_post ([], 0) = (r, (notes', w'))" by (metis surj_pair)
  from only_gated_findings_are_posted [OF _ run [unfolded sample_post_def], of posting_policy]
  have "notes' = [] \<or> (\<exists>sub. notes' = [sub] \<and> rs_commit_id sub = ''h'' \<and> contains (marker ''k'') (rs_body sub))" by auto
  with sample_post_submits run show ?thesis by auto
qed

end
