(* ===== verification/Local_Store.thy ===== *)
theory Local_Store
  imports Posting Budgets
begin

text \<open>
  The runner's SQLite state, \<^verbatim>\<open>local_store/sqlite.py\<close> with \<^verbatim>\<open>local_store/budget.py\<close>, the local half of
  \<^verbatim>\<open>security/retention.py\<close> and \<^verbatim>\<open>notifications/feedback.py\<close>: claimed jobs, snapshots, findings, human decisions,
  events, acknowledgements that could not be delivered, budget reservations.  The tables are lists of rows in
  insertion order; a store method is a function on the record, given the instant that the column default
  \<open>strftime('now')\<close> reads.  The schema declares foreign keys, but SQLite enforces them only under a pragma
  that the code never sets, so they are no part of the model; primary keys, the \<open>or ignore\<close> and
  \<open>or replace\<close> clauses and the check constraints are.  A JSON column keeps the value that was written.
\<close>

section \<open>Tables\<close>

datatype local_job_status = Local_Claimed | Local_Completed | Local_Abandoned

record local_job =
  lj_job_id :: string
  lj_installation_id :: int
  lj_repository_id :: int
  lj_pull_request_number :: int
  lj_base_sha :: string
  lj_head_sha :: string
  lj_policy_version :: string
  lj_budget :: job_budget
  lj_trace_id :: string
  lj_lease_token :: string
  lj_status :: local_job_status
  lj_claimed_at :: timestamp

record local_human_decision =
  hd_id :: int
  hd_finding_id :: string
  hd_decision :: string
  hd_decided_by :: string
  hd_note :: "string option"
  hd_created_at :: timestamp
  hd_original_hash :: string
  hd_edited_hash :: string

record local_event =
  le_sequence :: int
  le_job_id :: "string option"
  le_trace_id :: string
  le_event_type :: string
  le_payload :: json
  le_created_at :: timestamp

datatype pending_reason = Lease_Denied | Network_Unreachable

record pending_acknowledgement =
  pa_id :: int
  pa_job_id :: string
  pa_lease_token :: string
  pa_result :: job_acknowledgement
  pa_reason :: pending_reason
  pa_attempts :: int
  pa_created_at :: timestamp

record local_finding_row =
  lf_finding :: finding
  lf_created_at :: timestamp

record local_budget_row =
  lb_job_id :: string
  lb_reserved_tokens :: int
  lb_reserved_cost_usd :: usd

text \<open>The three counters are SQLite's \<open>autoincrement\<close> sequences: the last value handed out.\<close>

record local_store =
  ls_jobs :: "local_job list"
  ls_snapshots :: "(string \<times> pull_request_snapshot) list"
  ls_findings :: "local_finding_row list"
  ls_decisions :: "local_human_decision list"
  ls_events :: "local_event list"
  ls_pending :: "pending_acknowledgement list"
  ls_budgets :: "local_budget_row list"
  ls_decision_seq :: int
  ls_event_seq :: int
  ls_pending_seq :: int

definition empty_store :: local_store where
  "empty_store = \<lparr>ls_jobs = [], ls_snapshots = [], ls_findings = [], ls_decisions = [], ls_events = [], ls_pending = [],
     ls_budgets = [], ls_decision_seq = 0, ls_event_seq = 0, ls_pending_seq = 0\<rparr>"

section \<open>Jobs\<close>

definition job_row :: "timestamp \<Rightarrow> job_envelope \<Rightarrow> local_job" where
  "job_row now job =
     \<lparr>lj_job_id = je_job_id job, lj_installation_id = je_installation_id job, lj_repository_id = je_repository_id job,
      lj_pull_request_number = je_pull_request_number job, lj_base_sha = je_base_sha job, lj_head_sha = je_head_sha job,
      lj_policy_version = je_policy_version job, lj_budget = je_budget job, lj_trace_id = je_trace_id job,
      lj_lease_token = je_lease_token job, lj_status = Local_Claimed, lj_claimed_at = now\<rparr>"

definition record_claimed :: "timestamp \<Rightarrow> job_envelope \<Rightarrow> local_store \<Rightarrow> local_store" where
  "record_claimed now job st =
     (if \<exists>r \<in> set (ls_jobs st). lj_job_id r = je_job_id job then st
      else st\<lparr>ls_jobs := ls_jobs st @ [job_row now job]\<rparr>)"

definition get_job :: "string \<Rightarrow> local_store \<Rightarrow> local_job option" where
  "get_job job_id st = fetchone (\<lambda>r. lj_job_id r = job_id) (ls_jobs st)"

definition list_claimed :: "local_store \<Rightarrow> local_job list" where
  "list_claimed st = sort_key lj_claimed_at (filter (\<lambda>r. lj_status r = Local_Claimed) (ls_jobs st))"

definition set_job_status :: "local_job_status \<Rightarrow> string \<Rightarrow> local_store \<Rightarrow> local_store" where
  "set_job_status status job_id st =
     st\<lparr>ls_jobs := update_where (\<lambda>r. lj_job_id r = job_id) (\<lambda>r. r\<lparr>lj_status := status\<rparr>) (ls_jobs st)\<rparr>"

definition mark_abandoned :: "string \<Rightarrow> local_store \<Rightarrow> local_store" where
  "mark_abandoned = set_job_status Local_Abandoned"

definition mark_completed :: "string \<Rightarrow> local_store \<Rightarrow> local_store" where
  "mark_completed = set_job_status Local_Completed"

text \<open>The deletes of \<open>purge_repository\<close> for one job.\<close>

definition purge_job :: "string \<Rightarrow> local_store \<Rightarrow> local_store" where
  "purge_job job_id st =
     (let finding_ids = map (\<lambda>r. fi_id (lf_finding r)) (filter (\<lambda>r. fi_review_job_id (lf_finding r) = job_id) (ls_findings st))
      in st\<lparr>ls_pending := filter (\<lambda>r. pa_job_id r \<noteq> job_id) (ls_pending st),
            ls_decisions := filter (\<lambda>r. hd_finding_id r \<notin> set finding_ids) (ls_decisions st),
            ls_findings := filter (\<lambda>r. fi_review_job_id (lf_finding r) \<noteq> job_id) (ls_findings st),
            ls_snapshots := filter (\<lambda>r. fst r \<noteq> job_id) (ls_snapshots st),
            ls_events := filter (\<lambda>r. le_job_id r \<noteq> Some job_id) (ls_events st),
            ls_budgets := filter (\<lambda>r. lb_job_id r \<noteq> job_id) (ls_budgets st),
            ls_jobs := filter (\<lambda>r. lj_job_id r \<noteq> job_id) (ls_jobs st)\<rparr>)"

definition purge_repository :: "int \<Rightarrow> local_store \<Rightarrow> local_store" where
  "purge_repository repository_id st =
     foldl (\<lambda>st job_id. purge_job job_id st) st
       (map lj_job_id (filter (\<lambda>r. lj_repository_id r = repository_id) (ls_jobs st)))"

definition purge_expired_local :: "int \<Rightarrow> timestamp \<Rightarrow> timestamp \<Rightarrow> local_store \<Rightarrow> local_store result" where
  "purge_expired_local repository_id now deadline st =
     (if deadline \<le> now then Inl RuntimeError else Inr (purge_repository repository_id st))"

section \<open>Snapshots, findings, decisions, events\<close>

text \<open>\<open>insert or replace\<close>: the old row of the key goes, the new one comes last.  A snapshot keeps neither
  identity nor draft flag.\<close>

definition record_snapshot :: "string \<Rightarrow> pull_request_snapshot \<Rightarrow> local_store \<Rightarrow> local_store result" where
  "record_snapshot job_id snapshot st =
     (if 0 < snap_number snapshot
      then Inr (st\<lparr>ls_snapshots := filter (\<lambda>r. fst r \<noteq> job_id) (ls_snapshots st) @ [(job_id, snapshot)]\<rparr>)
      else Inl CheckViolation)"

definition get_snapshot :: "string \<Rightarrow> local_store \<Rightarrow> pull_request_snapshot result option" where
  "get_snapshot job_id st =
     map_option (\<lambda>(_, s). make_snapshot (snap_repo_owner s) (snap_repo_name s) (snap_number s) (snap_base_sha s) (snap_head_sha s)
        (snap_title s) (snap_body s) (snap_files s)) (fetchone (\<lambda>r. fst r = job_id) (ls_snapshots st))"

definition finding_row_ok :: "finding \<Rightarrow> bool" where
  "finding_row_ok f \<longleftrightarrow> 0 < fi_line_start f \<and> fi_line_start f \<le> fi_line_end f \<and> 0 \<le> fi_confidence f \<and> fi_confidence f \<le> 1"

definition record_finding :: "timestamp \<Rightarrow> finding \<Rightarrow> local_store \<Rightarrow> local_store result" where
  "record_finding now f st =
     (if finding_row_ok f
      then Inr (st\<lparr>ls_findings := filter (\<lambda>r. fi_id (lf_finding r) \<noteq> fi_id f) (ls_findings st) @
                                  [\<lparr>lf_finding = f, lf_created_at = now\<rparr>]\<rparr>)
      else Inl CheckViolation)"

definition list_findings_for_job :: "string \<Rightarrow> local_store \<Rightarrow> finding list result" where
  "list_findings_for_job job_id st =
     map_r validate_finding
       (map lf_finding (sort_key lf_created_at (filter (\<lambda>r. fi_review_job_id (lf_finding r) = job_id) (ls_findings st))))"

definition record_decision ::
  "timestamp \<Rightarrow> string \<Rightarrow> string \<Rightarrow> string \<Rightarrow> string option \<Rightarrow> string \<Rightarrow> string \<Rightarrow> local_store \<Rightarrow> local_store result" where
  "record_decision now finding_id decision decided_by note original_hash edited_hash st =
     (if decision \<in> {''approved'', ''rejected'', ''disputed'', ''edited''}
      then Inr (st\<lparr>ls_decisions := ls_decisions st @
                     [\<lparr>hd_id = ls_decision_seq st + 1, hd_finding_id = finding_id, hd_decision = decision, hd_decided_by = decided_by,
                       hd_note = note, hd_created_at = now, hd_original_hash = original_hash, hd_edited_hash = edited_hash\<rparr>],
                   ls_decision_seq := ls_decision_seq st + 1\<rparr>)
      else Inl CheckViolation)"

definition list_decisions_for_finding :: "string \<Rightarrow> local_store \<Rightarrow> local_human_decision list" where
  "list_decisions_for_finding finding_id st =
     sort_key hd_created_at (filter (\<lambda>r. hd_finding_id r = finding_id) (ls_decisions st))"

text \<open>\<open>feedback.py\<close>: the actions are the four decisions of the schema.\<close>

datatype feedback_action = Fb_Approved | Fb_Rejected | Fb_Disputed | Fb_Edited

fun feedback_text :: "feedback_action \<Rightarrow> string" where
  "feedback_text Fb_Approved = ''approved''"
| "feedback_text Fb_Rejected = ''rejected''"
| "feedback_text Fb_Disputed = ''disputed''"
| "feedback_text Fb_Edited = ''edited''"

definition record_human_feedback ::
  "timestamp \<Rightarrow> string \<Rightarrow> string \<Rightarrow> feedback_action \<Rightarrow> string option \<Rightarrow> string \<Rightarrow> string \<Rightarrow> local_store \<Rightarrow> local_store result" where
  "record_human_feedback now finding_id actor action note original_hash edited_hash st =
     record_decision now finding_id (feedback_text action) actor note original_hash edited_hash st"

definition record_local_event ::
  "timestamp \<Rightarrow> string option \<Rightarrow> string \<Rightarrow> string \<Rightarrow> json \<Rightarrow> local_store \<Rightarrow> local_event \<times> local_store" where
  "record_local_event now job_id trace_id event_type payload st =
     (let e = \<lparr>le_sequence = ls_event_seq st + 1, le_job_id = job_id, le_trace_id = trace_id, le_event_type = event_type,
               le_payload = payload, le_created_at = now\<rparr>
      in (e, st\<lparr>ls_events := ls_events st @ [e], ls_event_seq := ls_event_seq st + 1\<rparr>))"

definition list_all_events :: "local_store \<Rightarrow> local_event list" where
  "list_all_events st = sort_key le_sequence (ls_events st)"

definition list_events_for_trace :: "string \<Rightarrow> local_store \<Rightarrow> local_event list" where
  "list_events_for_trace trace_id st = sort_key le_sequence (filter (\<lambda>e. le_trace_id e = trace_id) (ls_events st))"

section \<open>Pending acknowledgements\<close>

definition record_pending ::
  "timestamp \<Rightarrow> string \<Rightarrow> string \<Rightarrow> job_acknowledgement \<Rightarrow> pending_reason \<Rightarrow> local_store \<Rightarrow> local_store" where
  "record_pending now job_id lease_token ack reason st =
     st\<lparr>ls_pending := ls_pending st @
          [\<lparr>pa_id = ls_pending_seq st + 1, pa_job_id = job_id, pa_lease_token = lease_token, pa_result = ack, pa_reason = reason,
            pa_attempts = 0, pa_created_at = now\<rparr>],
        ls_pending_seq := ls_pending_seq st + 1\<rparr>"

definition list_pending :: "local_store \<Rightarrow> pending_acknowledgement list" where
  "list_pending st = sort_key pa_created_at (ls_pending st)"

definition resolve :: "int \<Rightarrow> local_store \<Rightarrow> local_store" where
  "resolve entry_id st = st\<lparr>ls_pending := filter (\<lambda>r. pa_id r \<noteq> entry_id) (ls_pending st)\<rparr>"

definition bump_attempt :: "int \<Rightarrow> local_store \<Rightarrow> local_store" where
  "bump_attempt entry_id st =
     st\<lparr>ls_pending := update_where (\<lambda>r. pa_id r = entry_id) (\<lambda>r. r\<lparr>pa_attempts := pa_attempts r + 1\<rparr>) (ls_pending st)\<rparr>"

section \<open>Budget of a job\<close>

record budget_status =
  bs_spent_tokens :: int
  bs_spent_cost_usd :: usd
  bs_max_tokens :: int
  bs_max_cost_usd :: usd

definition remaining_tokens :: "budget_status \<Rightarrow> int" where
  "remaining_tokens b = max (bs_max_tokens b - bs_spent_tokens b) 0"

definition remaining_cost_usd :: "budget_status \<Rightarrow> usd" where
  "remaining_cost_usd b = max (bs_max_cost_usd b - bs_spent_cost_usd b) 0"

text \<open>\<open>BudgetLimit(...)\<close> of a claimed job has both bounds.\<close>

definition job_limit :: "local_job \<Rightarrow> budget_limit" where
  "job_limit job = \<lparr>bl_max_tokens = Some (jb_max_tokens (lj_budget job)), bl_max_cost_usd = Some (jb_max_cost_usd (lj_budget job))\<rparr>"

definition get_budget_status :: "string \<Rightarrow> local_store \<Rightarrow> budget_status option" where
  "get_budget_status job_id st =
     (case get_job job_id st of
        None \<Rightarrow> None
      | Some job \<Rightarrow>
          if \<not> is_configured (Some (job_limit job)) then None
          else let row = fetchone (\<lambda>r. lb_job_id r = job_id) (ls_budgets st)
               in Some \<lparr>bs_spent_tokens = (case row of Some r \<Rightarrow> lb_reserved_tokens r | None \<Rightarrow> 0),
                        bs_spent_cost_usd = (case row of Some r \<Rightarrow> lb_reserved_cost_usd r | None \<Rightarrow> 0),
                        bs_max_tokens = jb_max_tokens (lj_budget job), bs_max_cost_usd = jb_max_cost_usd (lj_budget job)\<rparr>)"

text \<open>\<^verbatim>\<open>printf('%.6f', x)\<close>: the cost is kept with six decimals.  The double arithmetic of SQLite is modelled
  by exact rationals.\<close>

definition six_decimals :: "rat \<Rightarrow> rat" where
  "six_decimals q = of_int \<lfloor>q * 1000000 + 1 / 2\<rfloor> / 1000000"

definition ensure_budget_row :: "string \<Rightarrow> local_store \<Rightarrow> local_store" where
  "ensure_budget_row job_id st =
     (if \<exists>r \<in> set (ls_budgets st). lb_job_id r = job_id then st
      else st\<lparr>ls_budgets := ls_budgets st @ [\<lparr>lb_job_id = job_id, lb_reserved_tokens = 0, lb_reserved_cost_usd = 0\<rparr>]\<rparr>)"

definition reserves :: "local_job \<Rightarrow> int \<Rightarrow> usd \<Rightarrow> local_budget_row \<Rightarrow> bool" where
  "reserves job tokens cost r \<longleftrightarrow> lb_job_id r = lj_job_id job \<and>
     lb_reserved_tokens r + tokens \<le> jb_max_tokens (lj_budget job) \<and>
     lb_reserved_cost_usd r + cost \<le> jb_max_cost_usd (lj_budget job)"

text \<open>The exception leaves the inserted row in the open transaction, which the next commit of the store
  writes, so the row is part of the state afterwards.\<close>

definition reserve_job_budget :: "string \<Rightarrow> int \<Rightarrow> usd \<Rightarrow> local_store \<Rightarrow> unit result \<times> local_store" where
  "reserve_job_budget job_id tokens cost st =
     (case get_job job_id st of
        None \<Rightarrow> (Inl (BudgetDenied ''unset''), st)
      | Some job \<Rightarrow>
          if \<not> is_configured (Some (job_limit job)) then (Inl (BudgetDenied ''unset''), st)
          else let st = ensure_budget_row job_id st
               in if rowcount (reserves job tokens cost) (ls_budgets st) \<noteq> 1 then (Inl (BudgetDenied ''insufficient''), st)
                  else if \<exists>r \<in> set (ls_budgets st). reserves job tokens cost r \<and> lb_reserved_tokens r + tokens < 0
                  then (Inl CheckViolation, st)
                  else (Inr (), st\<lparr>ls_budgets := update_where (reserves job tokens cost)
                          (\<lambda>r. r\<lparr>lb_reserved_tokens := lb_reserved_tokens r + tokens,
                                 lb_reserved_cost_usd := six_decimals (lb_reserved_cost_usd r + cost)\<rparr>) (ls_budgets st)\<rparr>))"

section \<open>Opening the store\<close>

text \<open>\<open>_run_migrations\<close> over the applied files with their checksums and the files of the directory in name
  order; the effect of a script is the schema above.\<close>

fun run_migrations ::
  "(string \<Rightarrow> string) \<Rightarrow> (string \<times> string) list \<Rightarrow> (string \<times> string) list \<Rightarrow> (string \<times> string) list result" where
  "run_migrations sha256 applied [] = Inr applied"
| "run_migrations sha256 applied ((name, sql) # files) =
     (case map_of applied name of
        Some checksum \<Rightarrow>
          if checksum \<noteq> sha256 sql then Inl LocalStoreCorrupted else run_migrations sha256 applied files
      | None \<Rightarrow> run_migrations sha256 (applied @ [(name, sha256 sql)]) files)"

section \<open>What erasing a repository removes\<close>

definition repository_jobs :: "int \<Rightarrow> local_store \<Rightarrow> string set" where
  "repository_jobs repository_id st = lj_job_id ` {r \<in> set (ls_jobs st). lj_repository_id r = repository_id}"

definition without_jobs :: "string set \<Rightarrow> local_store \<Rightarrow> local_store" where
  "without_jobs ids st =
     st\<lparr>ls_jobs := filter (\<lambda>r. lj_job_id r \<notin> ids) (ls_jobs st),
        ls_snapshots := filter (\<lambda>r. fst r \<notin> ids) (ls_snapshots st),
        ls_findings := filter (\<lambda>r. fi_review_job_id (lf_finding r) \<notin> ids) (ls_findings st),
        ls_decisions := filter (\<lambda>d. \<forall>r \<in> set (ls_findings st). fi_review_job_id (lf_finding r) \<in> ids \<longrightarrow>
                                        hd_finding_id d \<noteq> fi_id (lf_finding r)) (ls_decisions st),
        ls_events := filter (\<lambda>r. \<forall>i \<in> ids. le_job_id r \<noteq> Some i) (ls_events st),
        ls_pending := filter (\<lambda>r. pa_job_id r \<notin> ids) (ls_pending st),
        ls_budgets := filter (\<lambda>r. lb_job_id r \<notin> ids) (ls_budgets st)\<rparr>"

lemma without_no_jobs: "without_jobs {} st = st"
  by (simp add: without_jobs_def)

lemma purge_job_without: "purge_job i st = without_jobs {i} st"
  by (rule local_store.equality) (auto simp: purge_job_def without_jobs_def Let_def intro!: filter_cong)

lemma without_jobs_twice: "without_jobs A (without_jobs B st) = without_jobs (A \<union> B) st"
  by (rule local_store.equality) (auto simp: without_jobs_def intro!: filter_cong)

lemma purge_jobs_without: "foldl (\<lambda>st i. purge_job i st) st ids = without_jobs (set ids) st"
proof (induction ids arbitrary: st)
  case Nil
  then show ?case by (simp add: without_no_jobs)
next
  case (Cons i ids)
  then show ?case by (simp add: purge_job_without without_jobs_twice)
qed

lemma purge_repository_without: "purge_repository rid st = without_jobs (repository_jobs rid st) st"
  by (simp add: purge_repository_def purge_jobs_without repository_jobs_def)

section \<open>The budget of a job is kept\<close>

lemma six_decimals_mono: "p \<le> q \<Longrightarrow> six_decimals p \<le> six_decimals q"
  by (simp add: six_decimals_def divide_right_mono floor_mono)

lemma six_decimals_again: "six_decimals (six_decimals q) = six_decimals q"
proof -
  have "\<lfloor>(of_int k :: rat) + 1 / 2\<rfloor> = k" for k :: int by linarith
  then show ?thesis by (simp add: six_decimals_def)
qed

text \<open>Every reservation is within the budget of its job, up to the sixth decimal of the cost.\<close>

definition reservations_within :: "local_store \<Rightarrow> bool" where
  "reservations_within st \<longleftrightarrow>
     (\<forall>r \<in> set (ls_budgets st). \<forall>job. get_job (lb_job_id r) st = Some job \<longrightarrow>
        (lb_reserved_tokens r = 0 \<or> lb_reserved_tokens r \<le> jb_max_tokens (lj_budget job)) \<and>
        (lb_reserved_cost_usd r = 0 \<or> lb_reserved_cost_usd r \<le> six_decimals (jb_max_cost_usd (lj_budget job))))"

lemma get_job_id: "get_job i st = Some job \<Longrightarrow> lj_job_id job = i"
  unfolding get_job_def by (drule fetchone_Some) simp

lemma ensure_budget_row_within: "reservations_within st \<Longrightarrow> reservations_within (ensure_budget_row i st)"
  by (auto simp: reservations_within_def ensure_budget_row_def get_job_def)

lemma reserve_within:
  assumes "reservations_within st"
  shows "reservations_within (snd (reserve_job_budget i tokens cost st))"
proof (cases "get_job i st")
  case None
  with assms show ?thesis by (simp add: reserve_job_budget_def)
next
  case (Some job)
  let ?st = "ensure_budget_row i st"
  let ?f = "\<lambda>r. r\<lparr>lb_reserved_tokens := lb_reserved_tokens r + tokens, lb_reserved_cost_usd := six_decimals (lb_reserved_cost_usd r + cost)\<rparr>"
  let ?new = "?st\<lparr>ls_budgets := update_where (reserves job tokens cost) ?f (ls_budgets ?st)\<rparr>"
  have within: "reservations_within ?st" using assms by (rule ensure_budget_row_within)
  have jobs: "get_job k ?new = get_job k ?st" "get_job k ?st = get_job k st" for k
    by (auto simp: get_job_def ensure_budget_row_def)
  have "reservations_within ?new"
    unfolding reservations_within_def
  proof (intro ballI allI impI)
    fix r job' assume r: "r \<in> set (ls_budgets ?new)" "get_job (lb_job_id r) ?new = Some job'"
    from r(1) obtain q where q: "q \<in> set (ls_budgets ?st)" "r = (if reserves job tokens cost q then ?f q else q)"
      by (auto simp: set_update_where)
    show "(lb_reserved_tokens r = 0 \<or> lb_reserved_tokens r \<le> jb_max_tokens (lj_budget job')) \<and>
        (lb_reserved_cost_usd r = 0 \<or> lb_reserved_cost_usd r \<le> six_decimals (jb_max_cost_usd (lj_budget job')))"
    proof (cases "reserves job tokens cost q")
      case True
      then have "lb_job_id r = i" using q Some by (auto simp: reserves_def dest: get_job_id)
      with r(2) Some jobs have "job' = job" by simp
      with True q show ?thesis by (auto simp: reserves_def intro: six_decimals_mono)
    next
      case False
      then show ?thesis using q r(2) within jobs by (auto simp: reservations_within_def)
    qed
  qed
  with within assms Some show ?thesis by (auto simp: reserve_job_budget_def Let_def)
qed

lemma reserve_job_budget_covered:
  assumes "reserve_job_budget i tokens cost st = (Inr (), st')"
  shows "\<exists>job r r'. get_job i st = Some job \<and> r' \<in> set (ls_budgets st') \<and> lb_job_id r' = i \<and>
     lb_reserved_tokens r' \<le> jb_max_tokens (lj_budget job) \<and>
     lb_reserved_cost_usd r' \<le> six_decimals (jb_max_cost_usd (lj_budget job)) \<and>
     r \<in> set (ls_budgets (ensure_budget_row i st)) \<and> lb_job_id r = i \<and>
     lb_reserved_tokens r' = lb_reserved_tokens r + tokens \<and>
     lb_reserved_cost_usd r' = six_decimals (lb_reserved_cost_usd r + cost)"
proof -
  from assms obtain job where job: "get_job i st = Some job"
    by (cases "get_job i st") (auto simp: reserve_job_budget_def)
  let ?st = "ensure_budget_row i st"
  from assms job have one: "rowcount (reserves job tokens cost) (ls_budgets ?st) = 1"
    by (auto simp: reserve_job_budget_def Let_def split: if_splits)
  then obtain r where r: "r \<in> set (ls_budgets ?st)" "reserves job tokens cost r"
    using rowcount_zero [of "reserves job tokens cost" "ls_budgets ?st"] by auto
  let ?f = "\<lambda>r. r\<lparr>lb_reserved_tokens := lb_reserved_tokens r + tokens, lb_reserved_cost_usd := six_decimals (lb_reserved_cost_usd r + cost)\<rparr>"
  have st': "ls_budgets st' = update_where (reserves job tokens cost) ?f (ls_budgets ?st)"
    using assms job one by (auto simp: reserve_job_budget_def Let_def split: if_splits)
  with r have "?f r \<in> set (ls_budgets st')" by (auto simp: set_update_where image_iff intro!: bexI [of _ r])
  moreover have "lb_job_id r = i" using r(2) get_job_id [OF job] by (simp add: reserves_def)
  ultimately show ?thesis using job r by (intro exI [of _ job] exI [of _ r] exI [of _ "?f r"]) (auto simp: reserves_def intro: six_decimals_mono)
qed

section \<open>Properties\<close>

text \<open>Erasing a repository after its retention deadline is refused when the deadline has passed before the
  purge could run; otherwise it removes exactly what belongs to the repository's jobs from every table, and every
  other row stays, in its order: the jobs themselves, their snapshots, findings, events, undelivered
  acknowledgements and reservations, and the decisions on their findings.\<close>

theorem purge_erases_exactly_the_repository:
  "purge_expired_local rid now deadline st =
     (if deadline \<le> now then Inl RuntimeError else Inr (without_jobs (repository_jobs rid st) st))"
  by (simp add: purge_expired_local_def purge_repository_without)

end
