(* ===== verification/Daemon.thy ===== *)
theory Daemon
  imports Local_Store Runner_Jobs
begin

text \<open>
  The installed runner: \<^verbatim>\<open>runner/client.py\<close> (the job protocol over HTTP), \<^verbatim>\<open>runner/revocation.py\<close>,
  \<^verbatim>\<open>runner/secrets.py\<close> (the file store) and \<^verbatim>\<open>runner/daemon.py\<close>: polling, recovery, delivery and replay of acknowledgements.  The daemon acts on its
  local store, its revocation gate and a world; the client, the secret store, the review and the clock are
  parameters that act on the world.
\<close>

section \<open>The HTTP client\<close>

datatype claim_answer =
    Claim_Job job_envelope
  | Claim_None
  | Claim_Denied runner_auth_denial_reason

record wire_reply =
  wr_status_code :: int
  wr_json :: "json result"

type_synonym 'w http_post = "string \<Rightarrow> json \<Rightarrow> ('w, wire_reply) act"

text \<open>\<open>_detail_reason\<close>: a \<open>ValueError\<close> of the decoder gives the empty reason.\<close>

definition detail_reason :: "wire_reply \<Rightarrow> string" where
  "detail_reason reply =
     (case wr_json reply of
        Inr payload \<Rightarrow> (case json_get payload ''detail'' of JStr d \<Rightarrow> if is_obj payload then d else [] | _ \<Rightarrow> [])
      | Inl _ \<Rightarrow> [])"

text \<open>\<open>decode\<close> is \<open>JobEnvelope.model_validate\<close>; a payload without a \<open>get\<close> method raises.\<close>

definition client_claim :: "(json \<Rightarrow> job_envelope result) \<Rightarrow> 'w http_post \<Rightarrow> ('w, claim_answer) act" where
  "client_claim decode post =
     bind_a (post ''/api/runner/jobs/claim'' JNull) (\<lambda>reply.
       if wr_status_code reply = 401 then
         return_a (Claim_Denied (if detail_reason reply = ''revoked_runner'' then Credential_Revoked_Runner else Unknown_Credential))
       else bind_a (lift_r (wr_json reply)) (\<lambda>payload.
         if \<not> is_obj payload then raise_a TypeError
         else if json_get payload ''status'' = JStr ''no_job'' \<or> payload = JObj [] then return_a Claim_None
         else bind_a (lift_r (decode payload)) (\<lambda>e. return_a (Claim_Job e))))"

definition client_heartbeat :: "'w http_post \<Rightarrow> string \<Rightarrow> string \<Rightarrow> ('w, lease_state) act" where
  "client_heartbeat post job_id lease_token =
     bind_a (post (''/api/runner/jobs/'' @ job_id @ ''/heartbeat'') (JObj [(''lease_token'', JStr lease_token)])) (\<lambda>reply.
     bind_a (lift_r (wr_json reply)) (\<lambda>payload.
       if \<not> is_obj payload then raise_a TypeError
       else return_a (if json_get payload ''status'' = JStr ''active'' then Active
                      else if json_get payload ''status'' = JStr ''cancelled'' then Lease_Cancelled
                      else Invalid_Or_Expired)))"

definition client_raise_for_status :: "wire_reply \<Rightarrow> unit result" where
  "client_raise_for_status reply =
     (if 200 \<le> wr_status_code reply \<and> wr_status_code reply \<le> 299 then Inr ()
      else Inl (HTTPStatusError (nat (wr_status_code reply))))"

definition client_acknowledge ::
  "(job_acknowledgement \<Rightarrow> json) \<Rightarrow> 'w http_post \<Rightarrow> string \<Rightarrow> string \<Rightarrow> job_acknowledgement \<Rightarrow> ('w, unit) act" where
  "client_acknowledge dump post job_id lease_token ack =
     bind_a (post (''/api/runner/jobs/'' @ job_id @ ''/ack'') (JObj [(''lease_token'', JStr lease_token), (''result'', dump ack)])) (\<lambda>reply.
       if wr_status_code reply = 409 \<or> detail_reason reply = ''invalid_or_expired'' then raise_a JobProtocolDenied
       else lift_r (client_raise_for_status reply))"

section \<open>The revocation gate and the secret store\<close>

record revocation_gate =
  rg_stop_new_work :: bool
  rg_revoked_installations :: "int list"

definition new_gate :: revocation_gate where
  "new_gate = \<lparr>rg_stop_new_work = False, rg_revoked_installations = []\<rparr>"

definition allow_new_work :: "revocation_gate \<Rightarrow> bool" where
  "allow_new_work g = (\<not> rg_stop_new_work g)"

definition note_runner_revoked :: "revocation_gate \<Rightarrow> revocation_gate" where
  "note_runner_revoked g = g\<lparr>rg_stop_new_work := True\<rparr>"

definition note_installation_revoked :: "int \<Rightarrow> revocation_gate \<Rightarrow> revocation_gate" where
  "note_installation_revoked i g = g\<lparr>rg_revoked_installations := List.insert i (rg_revoked_installations g), rg_stop_new_work := True\<rparr>"

text \<open>The file store keeps one file per name, with path separators replaced.\<close>

definition secret_file_name :: "string \<Rightarrow> string" where
  "secret_file_name name = replace_sub [CHR 0x5C] ''_'' (replace_sub ''/'' ''_'' name) @ ''.secret''"

definition file_secret_set :: "string \<Rightarrow> string \<Rightarrow> (string \<Rightarrow> string option) \<Rightarrow> (string \<Rightarrow> string option)" where
  "file_secret_set name v files = files(secret_file_name name \<mapsto> v)"

definition file_secret_get :: "string \<Rightarrow> (string \<Rightarrow> string option) \<Rightarrow> string option" where
  "file_secret_get name files = files (secret_file_name name)"

definition file_secret_delete :: "string \<Rightarrow> (string \<Rightarrow> string option) \<Rightarrow> (string \<Rightarrow> string option)" where
  "file_secret_delete name files = files(secret_file_name name := None)"

section \<open>The daemon\<close>

record 'w runner_client =
  cl_claim :: "('w, claim_answer) act"
  cl_heartbeat :: "string \<Rightarrow> string \<Rightarrow> ('w, lease_state) act"
  cl_acknowledge :: "string \<Rightarrow> string \<Rightarrow> job_acknowledgement \<Rightarrow> ('w, unit) act"
  cl_set_credential :: "string \<Rightarrow> ('w, unit) act"

record 'w daemon =
  dm_client :: "'w runner_client"
  dm_secret_get :: "(string \<Rightarrow> ('w, string option) act) option"
  dm_review :: "(job_envelope \<Rightarrow> ('w, job_acknowledgement) act) option"
  dm_now :: "'w \<Rightarrow> timestamp"

type_synonym 'w runner_state = "(local_store \<times> revocation_gate) \<times> 'w"

type_synonym ('w, 'a) daemon_act = "('w runner_state, 'a) act"

definition on_local :: "'w daemon \<Rightarrow> (timestamp \<Rightarrow> local_store \<Rightarrow> local_store) \<Rightarrow> ('w, unit) daemon_act" where
  "on_local dm f c = (case c of ((st, g), w) \<Rightarrow> (Inr (), ((f (dm_now dm w) st, g), w)))"

definition read_local :: "(local_store \<Rightarrow> 'a) \<Rightarrow> ('w, 'a) daemon_act" where
  "read_local f c = (Inr (f (fst (fst c))), c)"

definition on_gate :: "(revocation_gate \<Rightarrow> revocation_gate) \<Rightarrow> ('w, unit) daemon_act" where
  "on_gate f c = (case c of ((st, g), w) \<Rightarrow> (Inr (), ((st, f g), w)))"

text \<open>\<^verbatim>\<open>try: m except (errors): handler\<close>.\<close>

definition catch_a :: "('c, 'a) act \<Rightarrow> (py_exn \<Rightarrow> ('c, 'a) act option) \<Rightarrow> ('c, 'a) act" where
  "catch_a m h c =
     (case m c of
        (Inr x, c') \<Rightarrow> (Inr x, c')
      | (Inl e, c') \<Rightarrow> (case h e of None \<Rightarrow> (Inl e, c') | Some k \<Rightarrow> k c'))"

definition refresh_credential :: "'w daemon \<Rightarrow> ('w, unit) daemon_act" where
  "refresh_credential dm =
     (case dm_secret_get dm of
        None \<Rightarrow> return_a ()
      | Some get \<Rightarrow> bind_a (on_world (get ''runner_credential'')) (\<lambda>credential.
          case credential of None \<Rightarrow> return_a () | Some c \<Rightarrow> on_world (cl_set_credential (dm_client dm) c)))"

text \<open>\<open>None\<close> stands for a claim that did not reach the control plane.\<close>

definition try_claim :: "'w daemon \<Rightarrow> ('w, claim_answer option) daemon_act" where
  "try_claim dm =
     catch_a (bind_a (on_world (cl_claim (dm_client dm))) (\<lambda>a. return_a (Some a)))
       (\<lambda>e. if e = TransportError then Some (return_a None) else None)"

definition mark_pending_terminal :: "'w daemon \<Rightarrow> string \<Rightarrow> ('w, unit) daemon_act" where
  "mark_pending_terminal dm job_id =
     bind_a (on_local dm (\<lambda>_. mark_completed job_id)) (\<lambda>_.
       on_local dm (\<lambda>_ st. foldl (\<lambda>st e. if pa_job_id e = job_id then resolve (pa_id e) st else st) st (list_pending st)))"

definition retryable :: "py_exn \<Rightarrow> bool" where
  "retryable e \<longleftrightarrow> e = JobProtocolDenied \<or> e = TransportError"

definition land_pending_result :: "'w daemon \<Rightarrow> string \<Rightarrow> job_acknowledgement \<Rightarrow> ('w, unit) daemon_act" where
  "land_pending_result dm job_id ack =
     bind_a (refresh_credential dm) (\<lambda>_.
     bind_a (try_claim dm) (\<lambda>claimed.
       case claimed of
         None \<Rightarrow> return_a ()
       | Some (Claim_Denied reason) \<Rightarrow>
           bind_a (if reason = Credential_Revoked_Runner then on_gate note_runner_revoked else return_a ())
             (\<lambda>_. mark_pending_terminal dm job_id)
       | Some Claim_None \<Rightarrow> mark_pending_terminal dm job_id
       | Some (Claim_Job e) \<Rightarrow>
           if je_job_id e = job_id then
             bind_a (catch_a (bind_a (on_world (cl_acknowledge (dm_client dm) (je_job_id e) (je_lease_token e) ack)) (\<lambda>_. return_a True))
                       (\<lambda>err. if retryable err then Some (return_a False) else None)) (\<lambda>landed.
               if landed then mark_pending_terminal dm job_id else return_a ())
           else bind_a (on_local dm (\<lambda>now. record_claimed now e)) (\<lambda>_. mark_pending_terminal dm job_id)))"

definition complete_job :: "'w daemon \<Rightarrow> string \<Rightarrow> string \<Rightarrow> job_acknowledgement \<Rightarrow> ('w, unit) daemon_act" where
  "complete_job dm job_id lease_token ack c =
     (case on_world (cl_acknowledge (dm_client dm) job_id lease_token ack) c of
        (Inr _, c') \<Rightarrow> on_local dm (\<lambda>_. mark_completed job_id) c'
      | (Inl e, c') \<Rightarrow>
          if e = JobProtocolDenied then
            bind_a (on_local dm (\<lambda>now. record_pending now job_id lease_token ack Lease_Denied))
              (\<lambda>_. land_pending_result dm job_id ack) c'
          else if e = TransportError then
            bind_a (on_local dm (\<lambda>now. record_pending now job_id lease_token ack Network_Unreachable))
              (\<lambda>_. raise_a TransportError) c'
          else (Inl e, c'))"

definition run_claimed_job :: "'w daemon \<Rightarrow> job_envelope \<Rightarrow> ('w, unit) daemon_act" where
  "run_claimed_job dm e =
     bind_a (on_local dm (\<lambda>now. record_claimed now e)) (\<lambda>_.
       case dm_review dm of
         None \<Rightarrow> return_a ()
       | Some review \<Rightarrow> bind_a (on_world (review e)) (\<lambda>ack. complete_job dm (je_job_id e) (je_lease_token e) ack))"

definition process_once :: "'w daemon \<Rightarrow> ('w, unit) daemon_act" where
  "process_once dm c =
     (if \<not> allow_new_work (snd (fst c)) then (Inr (), c)
      else bind_a (refresh_credential dm) (\<lambda>_.
           bind_a (try_claim dm) (\<lambda>claimed.
             case claimed of
               None \<Rightarrow> return_a ()
             | Some (Claim_Denied reason) \<Rightarrow>
                 if reason = Credential_Revoked_Runner then on_gate note_runner_revoked else return_a ()
             | Some Claim_None \<Rightarrow> return_a ()
             | Some (Claim_Job e) \<Rightarrow> run_claimed_job dm e)) c)"

text \<open>The loop until the stop event, here set after the given number of rounds.\<close>

fun poll_loop :: "'w daemon \<Rightarrow> nat \<Rightarrow> ('w, unit) daemon_act" where
  "poll_loop dm 0 = return_a ()"
| "poll_loop dm (Suc n) =
     bind_a (process_once dm) (\<lambda>_ c. if \<not> allow_new_work (snd (fst c)) then (Inr (), c) else poll_loop dm n c)"

definition envelope_from_local_job :: "local_job \<Rightarrow> job_envelope result" where
  "envelope_from_local_job job =
     (if 0 < lj_pull_request_number job \<and> lj_base_sha job \<noteq> [] \<and> lj_head_sha job \<noteq> [] \<and> lj_policy_version job \<noteq> [] \<and>
         lj_lease_token job \<noteq> []
      then Inr \<lparr>je_job_id = lj_job_id job, je_installation_id = lj_installation_id job, je_repository_id = lj_repository_id job,
                je_pull_request_number = lj_pull_request_number job, je_base_sha = lj_base_sha job, je_head_sha = lj_head_sha job,
                je_policy_version = lj_policy_version job, je_budget = lj_budget job, je_trace_id = lj_trace_id job,
                je_lease_token = lj_lease_token job\<rparr>
      else Inl ValueError)"

definition recover_job :: "'w daemon \<Rightarrow> local_job \<Rightarrow> ('w, unit) daemon_act" where
  "recover_job dm job =
     bind_a (catch_a (bind_a (on_world (cl_heartbeat (dm_client dm) (lj_job_id job) (lj_lease_token job))) (\<lambda>l. return_a (Some l)))
               (\<lambda>e. if e = TransportError then Some (return_a None) else None)) (\<lambda>lease.
       case lease of
         None \<Rightarrow> return_a ()
       | Some Active \<Rightarrow>
           (case dm_review dm of
              None \<Rightarrow> return_a ()
            | Some review \<Rightarrow>
                bind_a (lift_r (envelope_from_local_job job)) (\<lambda>e.
                bind_a (on_world (review e)) (\<lambda>ack. complete_job dm (je_job_id e) (je_lease_token e) ack)))
       | Some _ \<Rightarrow> on_local dm (\<lambda>_. mark_abandoned (lj_job_id job)))"

fun each_a :: "('a \<Rightarrow> ('c, unit) act) \<Rightarrow> 'a list \<Rightarrow> ('c, unit) act" where
  "each_a f [] = return_a ()"
| "each_a f (x # xs) = bind_a (f x) (\<lambda>_. each_a f xs)"

definition recover :: "'w daemon \<Rightarrow> ('w, unit) daemon_act" where
  "recover dm = bind_a (read_local list_claimed) (each_a (recover_job dm))"

definition replay_entry :: "'w daemon \<Rightarrow> pending_acknowledgement \<Rightarrow> ('w, unit) daemon_act" where
  "replay_entry dm entry =
     (if pa_reason entry = Lease_Denied then land_pending_result dm (pa_job_id entry) (pa_result entry)
      else bind_a (catch_a (bind_a (on_world (cl_acknowledge (dm_client dm) (pa_job_id entry) (pa_lease_token entry) (pa_result entry)))
                              (\<lambda>_. return_a True))
                     (\<lambda>err. if retryable err then Some (return_a False) else None)) (\<lambda>landed.
             if \<not> landed then on_local dm (\<lambda>_. bump_attempt (pa_id entry))
             else bind_a (on_local dm (\<lambda>_. resolve (pa_id entry))) (\<lambda>_.
                    on_local dm (\<lambda>_. mark_completed (pa_job_id entry)))))"

definition replay_pending_acknowledgements :: "'w daemon \<Rightarrow> ('w, unit) daemon_act" where
  "replay_pending_acknowledgements dm = bind_a (read_local list_pending) (each_a (replay_entry dm))"

text \<open>The synchronous part of \<open>start\<close>; the poll loop then runs in its own thread.\<close>

definition start :: "'w daemon \<Rightarrow> ('w, unit) daemon_act" where
  "start dm = bind_a (recover dm) (\<lambda>_. replay_pending_acknowledgements dm)"

section \<open>Notes of the protocol\<close>

text \<open>A client that notes each acknowledgement that landed and each answer to a claim.\<close>

datatype protocol_note = Landed string job_acknowledgement | Answered claim_answer

definition noted :: "('a \<Rightarrow> protocol_note) \<Rightarrow> ('w, 'a) act \<Rightarrow> (protocol_note list \<times> 'w, 'a) act" where
  "noted f m c =
     (case m (snd c) of
        (Inr x, w') \<Rightarrow> (Inr x, (fst c @ [f x], w'))
      | (Inl e, w') \<Rightarrow> (Inl e, (fst c, w')))"

definition noting_daemon :: "'w daemon \<Rightarrow> (protocol_note list \<times> 'w) daemon" where
  "noting_daemon dm =
     \<lparr>dm_client =
        \<lparr>cl_claim = noted Answered (cl_claim (dm_client dm)),
         cl_heartbeat = (\<lambda>j t. on_world (cl_heartbeat (dm_client dm) j t)),
         cl_acknowledge = (\<lambda>j t a. noted (\<lambda>_. Landed j a) (cl_acknowledge (dm_client dm) j t a)),
         cl_set_credential = (\<lambda>c. on_world (cl_set_credential (dm_client dm) c))\<rparr>,
      dm_secret_get = map_option (\<lambda>get n. on_world (get n)) (dm_secret_get dm),
      dm_review = map_option (\<lambda>review e. on_world (review e)) (dm_review dm),
      dm_now = (\<lambda>c. dm_now dm (snd c))\<rparr>"

lemma noting_daemon_simps [simp]:
  "cl_claim (dm_client (noting_daemon dm)) = noted Answered (cl_claim (dm_client dm))"
  "cl_acknowledge (dm_client (noting_daemon dm)) j t a = noted (\<lambda>_. Landed j a) (cl_acknowledge (dm_client dm) j t a)"
  "dm_now (noting_daemon dm) c = dm_now dm (snd c)"
  by (simp_all add: noting_daemon_def)

lemma mark_pending_terminal_notes:
  "mark_pending_terminal dm job_id ((st, g), n) = (r, c') \<Longrightarrow> \<exists>st'. r = Inr () \<and> c' = ((st', g), n)"
  by (auto simp: mark_pending_terminal_def act_simps on_local_def)

lemma refresh_credential_frame:
  "refresh_credential (noting_daemon dm) ((st, g), (notes, w)) = (r, c') \<Longrightarrow> \<exists>w'. c' = ((st, g), (notes, w'))"
  by (auto simp: refresh_credential_def noting_daemon_def act_simps split: option.splits prod.splits sum.splits)

lemma try_claim_notes:
  assumes "try_claim (noting_daemon dm) ((st, g), (notes, w)) = (r, c')"
  shows "\<exists>w'. (r = Inr None \<and> c' = ((st, g), (notes, w'))) \<or> (\<exists>e. r = Inl e \<and> c' = ((st, g), (notes, w'))) \<or>
     (\<exists>a. r = Inr (Some a) \<and> c' = ((st, g), (notes @ [Answered a], w')))"
proof -
  obtain q w' where q: "cl_claim (dm_client dm) w = (q, w')" by (metis surj_pair)
  with assms show ?thesis
    by (cases q) (auto simp: try_claim_def catch_a_def act_simps noted_def split: if_splits)
qed

text \<open>What may have become of a finished result: it landed, it waits in the store, or a claim was answered
  with something else than the job.\<close>

definition answered_otherwise :: "string \<Rightarrow> protocol_note list \<Rightarrow> bool" where
  "answered_otherwise job_id new \<longleftrightarrow> (\<exists>a. Answered a \<in> set new \<and> \<not> (\<exists>e. a = Claim_Job e \<and> je_job_id e = job_id))"

definition waits :: "string \<Rightarrow> job_acknowledgement \<Rightarrow> local_store \<Rightarrow> bool" where
  "waits job_id ack st \<longleftrightarrow> (\<exists>e \<in> set (ls_pending st). pa_job_id e = job_id \<and> pa_result e = ack)"

lemma land_pending_notes:
  assumes "land_pending_result (noting_daemon dm) job_id ack ((st, g), (notes, w)) = (r, ((st', g'), (notes', w')))"
  shows "\<exists>new. notes' = notes @ new \<and> (ls_pending st' = ls_pending st \<or> Landed job_id ack \<in> set new \<or> answered_otherwise job_id new)"
proof -
  obtain q c1 where q: "refresh_credential (noting_daemon dm) ((st, g), (notes, w)) = (q, c1)" by (metis surj_pair)
  obtain w1 where c1: "c1 = ((st, g), (notes, w1))" using refresh_credential_frame [OF q] by blast
  obtain t c2 where t: "try_claim (noting_daemon dm) ((st, g), (notes, w1)) = (t, c2)" by (metis surj_pair)
  show ?thesis
  proof (cases "\<exists>u a. q = Inr u \<and> t = Inr (Some a)")
    case False
    then show ?thesis using assms q c1 try_claim_notes [OF t] t
      by (cases q) (auto simp: land_pending_result_def act_simps)
  next
    case True
    then obtain a where a: "q = Inr ()" "t = Inr (Some a)" by auto
    then obtain w2 where c2: "c2 = ((st, g), (notes @ [Answered a], w2))" using try_claim_notes [OF t] by auto
    show ?thesis
    proof (cases "\<exists>e. a = Claim_Job e \<and> je_job_id e = job_id")
      case False
      have "\<exists>st' g' w'. r = Inr () \<and> ((st', g'), (notes', w')) = ((st', g'), (notes @ [Answered a], w'))"
        using assms q c1 t a c2 False
        by (cases a) (auto simp: land_pending_result_def act_simps on_gate_def on_local_def mark_pending_terminal_def split: if_splits)
      with False show ?thesis by (auto simp: answered_otherwise_def)
    next
      case True
      then obtain e where e: "a = Claim_Job e" "je_job_id e = job_id" by blast
      obtain k w3 where k: "cl_acknowledge (dm_client dm) job_id (je_lease_token e) ack w2 = (k, w3)" by (metis surj_pair)
      show ?thesis
      proof (cases k)
        case (Inl err)
        then show ?thesis using assms q c1 t a c2 e k
          by (auto simp: land_pending_result_def act_simps catch_a_def noted_def split: if_splits)
      next
        case (Inr u)
        then have "notes' = notes @ [Answered a, Landed job_id ack]" using assms q c1 t a c2 e k
          by (auto simp: land_pending_result_def act_simps catch_a_def noted_def mark_pending_terminal_def on_local_def)
        then show ?thesis by auto
      qed
    qed
  qed
qed

lemma record_pending_waits: "waits job_id ack (record_pending now job_id token ack reason st)"
  by (simp add: waits_def record_pending_def)

lemma complete_job_notes:
  assumes answers: "\<forall>j t a v e v'. cl_acknowledge (dm_client dm) j t a v = (Inl e, v') \<longrightarrow> retryable e"
    and run: "complete_job (noting_daemon dm) job_id token ack ((st, g), (notes, w)) = (r, ((st', g'), (notes', w')))"
  shows "\<exists>new. notes' = notes @ new \<and> (Landed job_id ack \<in> set new \<or> waits job_id ack st' \<or> answered_otherwise job_id new)"
proof -
  obtain k w1 where k: "cl_acknowledge (dm_client dm) job_id token ack w = (k, w1)" by (metis surj_pair)
  show ?thesis
  proof (cases k)
    case (Inr u)
    then have "notes' = notes @ [Landed job_id ack]" using run k
      by (auto simp: complete_job_def act_simps noted_def on_local_def)
    then show ?thesis by auto
  next
    case (Inl e)
    let ?st = "\<lambda>reason. record_pending (dm_now dm w1) job_id token ack reason st"
    from answers k Inl have "retryable e" by blast
    then consider "e = JobProtocolDenied" | "e = TransportError" by (auto simp: retryable_def)
    then show ?thesis
    proof cases
      case 1
      then have "land_pending_result (noting_daemon dm) job_id ack ((?st Lease_Denied, g), (notes, w1)) = (r, ((st', g'), (notes', w')))"
        using run k Inl by (simp add: complete_job_def act_simps noted_def on_local_def)
      from land_pending_notes [OF this] record_pending_waits [of job_id ack "dm_now dm w1" token Lease_Denied st]
      show ?thesis by (auto simp: waits_def)
    next
      case 2
      then have "notes' = notes" "st' = ?st Network_Unreachable"
        using run k Inl by (auto simp: complete_job_def act_simps noted_def on_local_def)
      then show ?thesis using record_pending_waits by auto
    qed
  qed
qed

lemma bump_attempt_waits:
  assumes "waits job_id ack st"
  shows "waits job_id ack (bump_attempt i st)"
proof -
  from assms obtain e where e: "e \<in> set (ls_pending st)" "pa_job_id e = job_id" "pa_result e = ack" by (auto simp: waits_def)
  let ?e = "if pa_id e = i then e\<lparr>pa_attempts := pa_attempts e + 1\<rparr> else e"
  have "?e \<in> set (ls_pending (bump_attempt i st))" using e(1) by (auto simp: bump_attempt_def set_update_where image_iff)
  moreover have "pa_job_id ?e = job_id" "pa_result ?e = ack" using e by simp_all
  ultimately show ?thesis unfolding waits_def by blast
qed

lemma replay_entry_notes:
  assumes answers: "\<forall>j t a v e v'. cl_acknowledge (dm_client dm) j t a v = (Inl e, v') \<longrightarrow> retryable e"
    and run: "replay_entry (noting_daemon dm) entry ((st, g), (notes, w)) = (r, ((st', g'), (notes', w')))"
    and entry: "entry \<in> set (ls_pending st)"
  shows "\<exists>new. notes' = notes @ new \<and>
     (Landed (pa_job_id entry) (pa_result entry) \<in> set new \<or> waits (pa_job_id entry) (pa_result entry) st' \<or>
      answered_otherwise (pa_job_id entry) new)"
proof -
  have w: "waits (pa_job_id entry) (pa_result entry) st" using entry by (auto simp: waits_def)
  show ?thesis
  proof (cases "pa_reason entry = Lease_Denied")
    case True
    with run have "land_pending_result (noting_daemon dm) (pa_job_id entry) (pa_result entry) ((st, g), (notes, w)) =
        (r, ((st', g'), (notes', w')))" by (simp add: replay_entry_def)
    from land_pending_notes [OF this] w show ?thesis by (auto simp: waits_def)
  next
    case False
    obtain k w1 where k: "cl_acknowledge (dm_client dm) (pa_job_id entry) (pa_lease_token entry) (pa_result entry) w = (k, w1)"
      by (metis surj_pair)
    show ?thesis
    proof (cases k)
      case (Inr u)
      then have "notes' = notes @ [Landed (pa_job_id entry) (pa_result entry)]" using run k False
        by (auto simp: replay_entry_def act_simps catch_a_def noted_def on_local_def)
      then show ?thesis by auto
    next
      case (Inl e)
      then have "retryable e" using answers k by blast
      then have "notes' = notes" "st' = bump_attempt (pa_id entry) st" using run k False Inl
        by (auto simp: replay_entry_def act_simps catch_a_def noted_def on_local_def)
      then show ?thesis using bump_attempt_waits [OF w] by auto
    qed
  qed
qed

text \<open>Any other answer of the control plane, a server error for one, is neither recorded nor retried: the
  exception leaves the daemon with the store as it was.\<close>

lemma server_error_loses_the_result:
  assumes "cl_acknowledge (dm_client dm) job_id token ack w = (Inl (HTTPStatusError n), w')"
  shows "complete_job dm job_id token ack ((st, g), w) = (Inl (HTTPStatusError n), ((st, g), w'))"
  using assms by (simp add: complete_job_def act_simps)

text \<open>A reply to the claim that is no JSON, such as the page of a proxy, ends the poll loop.\<close>

lemma undecodable_claim_ends_the_loop:
  assumes "post ''/api/runner/jobs/claim'' JNull w = (Inr \<lparr>wr_status_code = 503, wr_json = Inl ValueError\<rparr>, w')"
    "dm_secret_get dm = None" "cl_claim (dm_client dm) = client_claim decode post" "allow_new_work g"
  shows "poll_loop dm (Suc n) ((st, g), w) = (Inl ValueError, ((st, g), w'))"
  using assms by (simp add: process_once_def refresh_credential_def try_claim_def catch_a_def client_claim_def lift_r_def act_simps)

text \<open>Claiming a job again keeps the row of the first claim: its lease token and status are stale.\<close>

lemma reclaimed_job_keeps_stale_lease:
  assumes "get_job (je_job_id e) st = Some row"
  shows "record_claimed now e st = st"
  using fetchone_Some [OF assms [unfolded get_job_def]] by (auto simp: record_claimed_def)

section \<open>Properties\<close>


definition unreachable_daemon :: "nat daemon" where
  "unreachable_daemon =
     \<lparr>dm_client = \<lparr>cl_claim = raise_a TransportError, cl_heartbeat = (\<lambda>_ _. raise_a TransportError),
                   cl_acknowledge = (\<lambda>_ _ _. raise_a TransportError), cl_set_credential = (\<lambda>_. return_a ())\<rparr>,
      dm_secret_get = None, dm_review = None, dm_now = (\<lambda>w. int w)\<rparr>"


end
