(* ===== verification/Runner_Service.thy ===== *)
theory Runner_Service
  imports Daemon
begin

text \<open>
  The runner against the control plane.  The routes of \<^verbatim>\<open>control_plane/runner_jobs.py\<close> are served as the HTTP
  endpoint that \<^verbatim>\<open>runner/client.py\<close> talks to: a path and a JSON body in, a status and a JSON body out, the
  contracts of \<^verbatim>\<open>contracts/runner.py\<close> encoded and validated on both sides.  The text of a \<open>Decimal\<close> is a
  parameter; the lease token that the next claim mints and the clock are part of the world.
\<close>

section \<open>The contracts on the wire\<close>

definition envelope_json :: "(usd \<Rightarrow> string) \<Rightarrow> job_envelope \<Rightarrow> json" where
  "envelope_json show_usd e =
     JObj [(''job_id'', JStr (je_job_id e)), (''installation_id'', JInt (je_installation_id e)),
           (''repository_id'', JInt (je_repository_id e)), (''pull_request_number'', JInt (je_pull_request_number e)),
           (''base_sha'', JStr (je_base_sha e)), (''head_sha'', JStr (je_head_sha e)),
           (''policy_version'', JStr (je_policy_version e)),
           (''budget'', JObj [(''max_tokens'', JInt (jb_max_tokens (je_budget e))),
                              (''max_cost_usd'', JStr (show_usd (jb_max_cost_usd (je_budget e))))]),
           (''trace_id'', JStr (je_trace_id e)), (''lease_token'', JStr (je_lease_token e))]"

text \<open>Validation of the values of the right JSON kind; a missing or an extra field is an error.\<close>

fun int_field :: "json \<Rightarrow> int result" where
  "int_field (JInt i) = Inr i"
| "int_field _ = Inl ValueError"

definition usd_field :: "(string \<Rightarrow> usd result) \<Rightarrow> json \<Rightarrow> usd result" where
  "usd_field read_usd j = bind_r (str_field j) read_usd"

definition keys_within :: "string list \<Rightarrow> json \<Rightarrow> bool" where
  "keys_within ks j = (case j of JObj kvs \<Rightarrow> (\<forall>(k, _) \<in> set kvs. k \<in> set ks) | _ \<Rightarrow> False)"

definition budget_of_json :: "(string \<Rightarrow> usd result) \<Rightarrow> json \<Rightarrow> job_budget result" where
  "budget_of_json read_usd j =
     (if \<not> keys_within [''max_tokens'', ''max_cost_usd''] j then Inl ValueError
      else bind_r (int_field (json_get j ''max_tokens'')) (\<lambda>tokens.
           bind_r (usd_field read_usd (json_get j ''max_cost_usd'')) (\<lambda>cost.
             if 0 \<le> tokens \<and> 0 \<le> cost then Inr \<lparr>jb_max_tokens = tokens, jb_max_cost_usd = cost\<rparr> else Inl ValueError)))"

definition envelope_ok :: "job_envelope \<Rightarrow> bool" where
  "envelope_ok e \<longleftrightarrow> 0 < je_pull_request_number e \<and> je_base_sha e \<noteq> [] \<and> je_head_sha e \<noteq> [] \<and> je_policy_version e \<noteq> [] \<and>
     je_lease_token e \<noteq> [] \<and> 0 \<le> jb_max_tokens (je_budget e) \<and> 0 \<le> jb_max_cost_usd (je_budget e)"

definition envelope_of_json :: "(string \<Rightarrow> usd result) \<Rightarrow> json \<Rightarrow> job_envelope result" where
  "envelope_of_json read_usd j =
     (if \<not> keys_within [''job_id'', ''installation_id'', ''repository_id'', ''pull_request_number'', ''base_sha'', ''head_sha'',
            ''policy_version'', ''budget'', ''trace_id'', ''lease_token''] j then Inl ValueError
      else bind_r (str_field (json_get j ''job_id'')) (\<lambda>job_id.
           bind_r (int_field (json_get j ''installation_id'')) (\<lambda>inst.
           bind_r (int_field (json_get j ''repository_id'')) (\<lambda>repo.
           bind_r (int_field (json_get j ''pull_request_number'')) (\<lambda>n.
           bind_r (str_field (json_get j ''base_sha'')) (\<lambda>base.
           bind_r (str_field (json_get j ''head_sha'')) (\<lambda>head.
           bind_r (str_field (json_get j ''policy_version'')) (\<lambda>policy.
           bind_r (budget_of_json read_usd (json_get j ''budget'')) (\<lambda>budget.
           bind_r (str_field (json_get j ''trace_id'')) (\<lambda>trace.
           bind_r (str_field (json_get j ''lease_token'')) (\<lambda>token.
             let e = \<lparr>je_job_id = job_id, je_installation_id = inst, je_repository_id = repo, je_pull_request_number = n,
                      je_base_sha = base, je_head_sha = head, je_policy_version = policy, je_budget = budget,
                      je_trace_id = trace, je_lease_token = token\<rparr>
             in if envelope_ok e then Inr e else Inl ValueError)))))))))))"

definition acknowledgement_json :: "(usd \<Rightarrow> string) \<Rightarrow> job_acknowledgement \<Rightarrow> json" where
  "acknowledgement_json show_usd a =
     JObj [(''terminal_state'', JStr (terminal_text (ja_terminal_state a))),
           (''error_class'', case ja_error_class a of None \<Rightarrow> JNull | Some c \<Rightarrow> JStr c),
           (''input_tokens'', JInt (ja_input_tokens a)), (''output_tokens'', JInt (ja_output_tokens a)),
           (''cost_usd'', JStr (show_usd (ja_cost_usd a))), (''latency_ms'', JInt (ja_latency_ms a)),
           (''local_result_hash'', JStr (ja_local_result_hash a))]"

definition terminal_of_json :: "json \<Rightarrow> job_terminal_state result" where
  "terminal_of_json j =
     (if j = JStr ''succeeded'' then Inr Ack_Succeeded else if j = JStr ''failed'' then Inr Ack_Failed else Inl ValueError)"

definition optional_str :: "json \<Rightarrow> string option result" where
  "optional_str j = (if j = JNull then Inr None else bind_r (str_field j) (\<lambda>s. Inr (Some s)))"

definition acknowledgement_of_json :: "(string \<Rightarrow> usd result) \<Rightarrow> json \<Rightarrow> job_acknowledgement result" where
  "acknowledgement_of_json read_usd j =
     (if \<not> keys_within [''terminal_state'', ''error_class'', ''input_tokens'', ''output_tokens'', ''cost_usd'', ''latency_ms'',
            ''local_result_hash''] j then Inl ValueError
      else bind_r (terminal_of_json (json_get j ''terminal_state'')) (\<lambda>state.
           bind_r (optional_str (json_get j ''error_class'')) (\<lambda>err.
           bind_r (int_field (json_get j ''input_tokens'')) (\<lambda>input.
           bind_r (int_field (json_get j ''output_tokens'')) (\<lambda>output.
           bind_r (usd_field read_usd (json_get j ''cost_usd'')) (\<lambda>cost.
           bind_r (int_field (json_get j ''latency_ms'')) (\<lambda>latency.
           bind_r (str_field (json_get j ''local_result_hash'')) (\<lambda>result_hash.
             validate_acknowledgement
               \<lparr>ja_terminal_state = state, ja_error_class = err, ja_input_tokens = input, ja_output_tokens = output,
                ja_cost_usd = cost, ja_latency_ms = latency, ja_local_result_hash = result_hash\<rparr>))))))))"

lemma envelope_round_trip:
  assumes "read_usd (show_usd (jb_max_cost_usd (je_budget e))) = Inr (jb_max_cost_usd (je_budget e))" "envelope_ok e"
  shows "envelope_of_json read_usd (envelope_json show_usd e) = Inr e"
  using assms by (simp add: envelope_of_json_def envelope_json_def keys_within_def budget_of_json_def usd_field_def envelope_ok_def Let_def)

lemma acknowledgement_round_trip:
  assumes "read_usd (show_usd (ja_cost_usd a)) = Inr (ja_cost_usd a)" "validate_acknowledgement a = Inr a"
  shows "acknowledgement_of_json read_usd (acknowledgement_json show_usd a) = Inr a"
proof -
  have "terminal_of_json (JStr (terminal_text (ja_terminal_state a))) = Inr (ja_terminal_state a)"
    by (cases "ja_terminal_state a") (simp_all add: terminal_of_json_def)
  moreover have "optional_str (case ja_error_class a of None \<Rightarrow> JNull | Some c \<Rightarrow> JStr c) = Inr (ja_error_class a)"
    by (cases "ja_error_class a") (simp_all add: optional_str_def)
  ultimately show ?thesis using assms
    by (simp add: acknowledgement_of_json_def acknowledgement_json_def keys_within_def usd_field_def validate_acknowledgement_def split: if_splits)
qed

lemma made_envelope_ok: "make_job_envelope j t = Inr e \<Longrightarrow> envelope_ok e \<and> je_lease_token e = t"
  by (auto simp: make_job_envelope_def bind_r_Inr envelope_ok_def split: if_splits)

section \<open>The routes as an endpoint\<close>

record hosted_world =
  hw_db :: hosted_db
  hw_now :: timestamp
  hw_lease_token :: string
  hw_credential :: string

definition ok_reply :: "json \<Rightarrow> wire_reply" where
  "ok_reply j = \<lparr>wr_status_code = 200, wr_json = Inr j\<rparr>"

text \<open>FastAPI answers an \<open>HTTPException\<close> with its detail; any other exception is a 500 whose body is no JSON.\<close>

definition error_reply :: "py_exn \<Rightarrow> wire_reply" where
  "error_reply e =
     (case e of
        HTTPException n d \<Rightarrow> \<lparr>wr_status_code = int n, wr_json = Inr (JObj [(''detail'', JStr d)])\<rparr>
      | _ \<Rightarrow> \<lparr>wr_status_code = 500, wr_json = Inl ValueError\<rparr>)"

fun lease_text :: "lease_state \<Rightarrow> string" where
  "lease_text Active = ''active''"
| "lease_text Invalid_Or_Expired = ''invalid_or_expired''"
| "lease_text Lease_Cancelled = ''cancelled''"

definition jobs_path :: string where "jobs_path = ''/api/runner/jobs/''"

text \<open>The job and the operation of a path \<^verbatim>\<open>/api/runner/jobs/{job_id}/<operation>\<close>.\<close>

definition job_path :: "string \<Rightarrow> (string \<times> string) option" where
  "job_path path =
     (if startswith path jobs_path
      then let rest = drop (length jobs_path) path
           in Some (takeWhile (\<lambda>c. c \<noteq> CHR ''/'') rest, dropWhile (\<lambda>c. c \<noteq> CHR ''/'') rest)
      else None)"

definition with_db :: "hosted_world \<Rightarrow> (json \<times> hosted_db) result \<Rightarrow> wire_reply result \<times> hosted_world" where
  "with_db w r =
     (case r of
        Inl e \<Rightarrow> (Inr (error_reply e), w)
      | Inr (j, db) \<Rightarrow> (Inr (ok_reply j), w\<lparr>hw_db := db\<rparr>))"

definition hosted_post :: "(string \<Rightarrow> string) \<Rightarrow> (usd \<Rightarrow> string) \<Rightarrow> (string \<Rightarrow> usd result) \<Rightarrow> hosted_world http_post" where
  "hosted_post hash show_usd read_usd path body w =
     (let authorization = Some (bearer_prefix @ hw_credential w);
          invalid = HTTPException 422 ''invalid body'';
          missing = HTTPException 404 ''Not Found'';
          token = (case str_field (json_get body ''lease_token'') of Inl _ \<Rightarrow> Inl invalid | Inr t \<Rightarrow> Inr t)
      in with_db w
        (if path = jobs_path @ ''claim'' then
           bind_r (claim_jobs_route hash (hw_now w) {} (hw_lease_token w) authorization (hw_db w)) (\<lambda>(claimed, db).
             Inr (case claimed of None \<Rightarrow> JObj [(''status'', JStr ''no_job'')] | Some e \<Rightarrow> envelope_json show_usd e, db))
         else case job_path path of
           None \<Rightarrow> Inl missing
         | Some (job_id, operation) \<Rightarrow>
             if operation = ''/heartbeat'' then
               bind_r token (\<lambda>t.
               bind_r (heartbeat_jobs_route hash (hw_now w) job_id t authorization (hw_db w)) (\<lambda>(lease, db).
                 Inr (JObj [(''status'', JStr (lease_text lease))], db)))
             else if operation = ''/ack'' then
               bind_r token (\<lambda>t.
               bind_r (case acknowledgement_of_json read_usd (json_get body ''result'') of Inl _ \<Rightarrow> Inl invalid | Inr a \<Rightarrow> Inr a) (\<lambda>ack.
               bind_r (acknowledge_jobs_route hash show_usd (hw_now w) job_id t ack authorization (hw_db w)) (\<lambda>db.
                 Inr (JObj [(''status'', JStr ''ok'')], db))))
             else Inl missing))"

definition hosted_client :: "(string \<Rightarrow> string) \<Rightarrow> (usd \<Rightarrow> string) \<Rightarrow> (string \<Rightarrow> usd result) \<Rightarrow> hosted_world runner_client" where
  "hosted_client hash show_usd read_usd =
     (let post = hosted_post hash show_usd read_usd
      in \<lparr>cl_claim = client_claim (envelope_of_json read_usd) post, cl_heartbeat = client_heartbeat post,
          cl_acknowledge = client_acknowledge (acknowledgement_json show_usd) post,
          cl_set_credential = (\<lambda>c w. (Inr (), w\<lparr>hw_credential := c\<rparr>))\<rparr>)"

definition hosted_daemon ::
  "(string \<Rightarrow> string) \<Rightarrow> (usd \<Rightarrow> string) \<Rightarrow> (string \<Rightarrow> usd result) \<Rightarrow> (job_envelope \<Rightarrow> (hosted_world, job_acknowledgement) act) \<Rightarrow>
   hosted_world daemon" where
  "hosted_daemon hash show_usd read_usd review =
     \<lparr>dm_client = hosted_client hash show_usd read_usd, dm_secret_get = None, dm_review = Some review, dm_now = hw_now\<rparr>"

lemma hosted_daemon_simps [simp]:
  "dm_client (hosted_daemon h s r review) = hosted_client h s r"
  "dm_secret_get (hosted_daemon h s r review) = None"
  "dm_review (hosted_daemon h s r review) = Some review"
  "dm_now (hosted_daemon h s r review) = hw_now"
  by (simp_all add: hosted_daemon_def)

section \<open>The client sees what the routes did\<close>

lemma hosted_claim:
  assumes "claim_jobs_route hash (hw_now w) {} (hw_lease_token w) (Some (bearer_prefix @ hw_credential w)) (hw_db w) = Inr (Some e, db)"
    "envelope_ok e" "read_usd (show_usd (jb_max_cost_usd (je_budget e))) = Inr (jb_max_cost_usd (je_budget e))"
  shows "cl_claim (hosted_client hash show_usd read_usd) w = (Inr (Claim_Job e), w\<lparr>hw_db := db\<rparr>)"
proof -
  have "hosted_post hash show_usd read_usd ''/api/runner/jobs/claim'' JNull w = (Inr (ok_reply (envelope_json show_usd e)), w\<lparr>hw_db := db\<rparr>)"
    using assms(1) by (simp add: hosted_post_def jobs_path_def with_db_def)
  moreover have "is_obj (envelope_json show_usd e)" "json_get (envelope_json show_usd e) ''status'' = JNull" "envelope_json show_usd e \<noteq> JObj []"
    by (simp_all add: envelope_json_def)
  ultimately show ?thesis using envelope_round_trip [of read_usd show_usd e, OF assms(3, 2)]
    by (simp add: hosted_client_def Let_def client_claim_def act_simps ok_reply_def lift_r_def)
qed

lemma job_path_of:
  assumes "CHR ''/'' \<notin> set job_id"
  shows "job_path (''/api/runner/jobs/'' @ job_id @ ''/ack'') = Some (job_id, ''/ack'')"
proof -
  have all: "\<And>c. c \<in> set job_id \<Longrightarrow> c \<noteq> CHR ''/''" using assms by blast
  have "drop (length jobs_path) (''/api/runner/jobs/'' @ job_id @ ''/ack'') = job_id @ ''/ack''"
    "startswith (''/api/runner/jobs/'' @ job_id @ ''/ack'') jobs_path"
    by (simp_all add: jobs_path_def startswith_def)
  moreover have "takeWhile (\<lambda>c. c \<noteq> CHR ''/'') (job_id @ ''/ack'') = job_id" "dropWhile (\<lambda>c. c \<noteq> CHR ''/'') (job_id @ ''/ack'') = ''/ack''"
    using all by (simp_all add: takeWhile_append2 dropWhile_append2)
  ultimately show ?thesis by (simp only: job_path_def Let_def if_True)
qed

lemma ack_path_not_claim:
  assumes "CHR ''/'' \<notin> set job_id"
  shows "''/api/runner/jobs/'' @ job_id @ ''/ack'' \<noteq> jobs_path @ ''claim''"
proof
  assume "''/api/runner/jobs/'' @ job_id @ ''/ack'' = jobs_path @ ''claim''"
  then have "job_id @ ''/ack'' = ''claim''" by (simp add: jobs_path_def)
  then have "CHR ''/'' \<in> set ''claim''" by (metis in_set_conv_decomp)
  then show False by simp
qed

lemma hosted_acknowledge:
  assumes "CHR ''/'' \<notin> set job_id" "validate_acknowledgement ack = Inr ack" "read_usd (show_usd (ja_cost_usd ack)) = Inr (ja_cost_usd ack)"
    "acknowledge_jobs_route hash show_usd (hw_now w) job_id token ack (Some (bearer_prefix @ hw_credential w)) (hw_db w) = Inr db"
  shows "cl_acknowledge (hosted_client hash show_usd read_usd) job_id token ack w = (Inr (), w\<lparr>hw_db := db\<rparr>)"
proof -
  have "hosted_post hash show_usd read_usd (''/api/runner/jobs/'' @ job_id @ ''/ack'')
      (JObj [(''lease_token'', JStr token), (''result'', acknowledgement_json show_usd ack)]) w =
      (Inr (ok_reply (JObj [(''status'', JStr ''ok'')])), w\<lparr>hw_db := db\<rparr>)"
    using assms(4) acknowledgement_round_trip [of read_usd show_usd ack, OF assms(3, 2)] job_path_of [OF assms(1)] ack_path_not_claim [OF assms(1)]
    by (simp add: hosted_post_def with_db_def del: append_Cons append.simps)
  then show ?thesis
    by (simp add: hosted_client_def Let_def client_acknowledge_def act_simps ok_reply_def lift_r_def client_raise_for_status_def detail_reason_def)
qed

section \<open>One round of the poll loop\<close>

lemma authenticated_prefix:
  "authenticate_bearer hash (Some (bearer_prefix @ c)) db =
     (case authenticate_runner hash c db of
        Inl Unknown_Credential \<Rightarrow> Inl (HTTPException 401 ''unknown_credential'')
      | Inl Credential_Revoked_Runner \<Rightarrow> Inl (HTTPException 401 ''revoked_runner'')
      | Inr runner \<Rightarrow> Inr runner)"
  by (simp add: authenticate_bearer_def)

lemma authenticate_same_runners: "runners db = runners db' \<Longrightarrow> authenticate_bearer hash a db = authenticate_bearer hash a db'"
proof -
  assume "runners db = runners db'"
  then have "authenticate_runner hash c db = authenticate_runner hash c db'" for c by (simp add: authenticate_runner_def)
  then show ?thesis by (simp add: authenticate_bearer_def cong: option.case_cong if_cong)
qed

text \<open>A claimed job leaves its row leased to the runner.\<close>

lemma claimed_row:
  assumes "queue_ok db" "claim_job hash now skip token run db = Inr (Some e, db')"
  obtains j where "j \<in> set (review_jobs db')" "rj_id j = je_job_id e" "rj_status j = Running" "presents_lease hash run token j"
    "rj_locked_until j = Some (now + minutes 5)" "envelope_ok e" "je_lease_token e = token" "runners db' = runners db"
proof -
  have uniq: "jobs_unique (review_jobs db)" using assms(1) by (simp add: queue_ok_def)
  from uniq assms(2) obtain j where j: "make_job_envelope j token = Inr e" "j \<in> set (review_jobs db)"
    "db' = db\<lparr>review_jobs := update_where (\<lambda>r. r = j) (runner_lease now run (hash token)) (review_jobs db)\<rparr>"
    by (cases rule: claim_job_cases) auto
  have "runner_lease now run (hash token) j \<in> set (review_jobs db')" using j by (auto simp: in_update_where)
  with that [of "runner_lease now run (hash token) j"] j(3) envelope_fields [OF j(1)] made_envelope_ok [OF j(1)] show thesis
    by (simp add: presents_lease_def review_job_lease_interval_def)
qed

lemma mark_completed_fresh:
  assumes "get_job (je_job_id e) st = None"
  shows "mark_completed (je_job_id e) (record_claimed now e st) =
     st\<lparr>ls_jobs := ls_jobs st @ [(job_row now e)\<lparr>lj_status := Local_Completed\<rparr>]\<rparr>"
proof -
  have none: "\<forall>r \<in> set (ls_jobs st). lj_job_id r \<noteq> je_job_id e" using assms by (simp add: get_job_def fetchone_None)
  then have "update_where (\<lambda>r. lj_job_id r = je_job_id e) (\<lambda>r. r\<lparr>lj_status := Local_Completed\<rparr>) (ls_jobs st) = ls_jobs st"
    by (simp add: update_where_none)
  with none show ?thesis
    by (simp add: mark_completed_def set_job_status_def record_claimed_def update_where_append job_row_def)
qed

section \<open>Properties\<close>

text \<open>C23. One round of the runner's poll loop against the control plane's routes, over JSON in both directions:
  when the credential is accepted and the claim hands out a job that the runner has not seen, and the review
  returns an acknowledgement within the five minutes of the lease while the job's row and the runners stay as
  they were, then the round ends without an exception; in the control plane the job carries the terminal state of
  the acknowledgement and exactly one event was added, which records it; on the runner the job is completed and
  nothing waits for delivery that did not wait before.\<close>

theorem poll_round_completes_a_job:
  assumes "queue_ok (hw_db w)" "allow_new_work g" "get_job (je_job_id e) st = None" "CHR ''/'' \<notin> set (je_job_id e)"
    and claim: "claim_jobs_route hash (hw_now w) {} (hw_lease_token w) (Some (bearer_prefix @ hw_credential w)) (hw_db w) = Inr (Some e, db1)"
    and usd: "read_usd (show_usd (jb_max_cost_usd (je_budget e))) = Inr (jb_max_cost_usd (je_budget e))"
      "read_usd (show_usd (ja_cost_usd ack)) = Inr (ja_cost_usd ack)"
    and review: "review e (w\<lparr>hw_db := db1\<rparr>) = (Inr ack, w2)" "validate_acknowledgement ack = Inr ack"
      "hw_now w2 < hw_now w + minutes 5" "hw_credential w2 = hw_credential w" "queue_ok (hw_db w2)"
      "runners (hw_db w2) = runners db1" "\<forall>j \<in> set (review_jobs db1). rj_id j = je_job_id e \<longrightarrow> j \<in> set (review_jobs (hw_db w2))"
  shows "\<exists>db3. process_once (hosted_daemon hash show_usd read_usd review) ((st, g), w) =
       (Inr (), ((st\<lparr>ls_jobs := ls_jobs st @ [(job_row (hw_now w) e)\<lparr>lj_status := Local_Completed\<rparr>]\<rparr>, g), w2\<lparr>hw_db := db3\<rparr>)) \<and>
     (\<exists>j \<in> set (review_jobs db3). rj_id j = je_job_id e \<and> rj_status j = (if ja_terminal_state ack = Ack_Succeeded then Succeeded else Failed)) \<and>
     (\<exists>ev. agent_events db3 = agent_events (hw_db w2) @ [ev] \<and> ae_review_job_id ev = Some (je_job_id e) \<and>
        ae_event_type ev = ''review_job_acknowledged'' \<and> ae_payload ev = ack_payload show_usd ack)"
proof -
  let ?auth = "Some (bearer_prefix @ hw_credential w)"
  from claim obtain runner where runner: "authenticate_bearer hash ?auth (hw_db w) = Inr runner"
    "claim_job hash (hw_now w) {} (hw_lease_token w) (ar_runner_id runner) (hw_db w) = Inr (Some e, db1)"
    by (auto simp: claim_jobs_route_def bind_r_Inr)
  from claimed_row [OF assms(1) runner(2)] obtain j where j: "j \<in> set (review_jobs db1)" "rj_id j = je_job_id e" "rj_status j = Running"
    "presents_lease hash (ar_runner_id runner) (hw_lease_token w) j" "rj_locked_until j = Some (hw_now w + minutes 5)"
    and e: "envelope_ok e" "je_lease_token e = hw_lease_token w" "runners db1 = runners (hw_db w)" by blast
  let ?ev = "\<lparr>ae_sequence = Suc (length (agent_events (hw_db w2))), ae_review_job_id = Some (rj_id j),
             ae_event_type = ''review_job_acknowledged'', ae_payload = ack_payload show_usd ack, ae_created_at = hw_now w2\<rparr>"
  let ?db3 = "(hw_db w2)\<lparr>review_jobs := map (\<lambda>r. if r = j then ack_row (hw_now w2) ack j else r) (review_jobs (hw_db w2)),
         agent_events := agent_events (hw_db w2) @ [?ev]\<rparr>"
  have there: "j \<in> set (review_jobs (hw_db w2))" using j(1, 2) review(7) by blast
  have "acknowledge_job hash show_usd (hw_now w2) (ar_runner_id runner) (je_job_id e) (hw_lease_token w) ack (hw_db w2) = Inr ?db3"
    using acknowledge_running [OF review(5) there j(3, 4, 5) review(3, 2), of show_usd] j(2) by simp
  then have "acknowledge_jobs_route hash show_usd (hw_now w2) (je_job_id e) (je_lease_token e) ack (Some (bearer_prefix @ hw_credential w2)) (hw_db w2) = Inr ?db3"
    using runner(1) authenticate_same_runners [of "hw_db w2" "hw_db w" hash ?auth] e review(4, 6)
    by (simp add: acknowledge_jobs_route_def denied_409_def)
  note ack = hosted_acknowledge [where read_usd = read_usd and show_usd = show_usd, OF assms(4) review(2) usd(2) this]
  note claimed = hosted_claim [where read_usd = read_usd and show_usd = show_usd, OF claim e(1) usd(1)]
  have run: "process_once (hosted_daemon hash show_usd read_usd review) ((st, g), w) =
       (Inr (), ((st\<lparr>ls_jobs := ls_jobs st @ [(job_row (hw_now w) e)\<lparr>lj_status := Local_Completed\<rparr>]\<rparr>, g), w2\<lparr>hw_db := ?db3\<rparr>))"
    using assms(2) claimed ack review(1) mark_completed_fresh [OF assms(3), of "hw_now w"]
    by (simp add: process_once_def refresh_credential_def try_claim_def catch_a_def act_simps run_claimed_job_def on_local_def complete_job_def)
  have "ack_row (hw_now w2) ack j \<in> set (review_jobs ?db3)" using there by force
  moreover have "rj_id (ack_row (hw_now w2) ack j) = je_job_id e"
    "rj_status (ack_row (hw_now w2) ack j) = (if ja_terminal_state ack = Ack_Succeeded then Succeeded else Failed)"
    using j(2) by (simp_all add: ack_row_def)
  ultimately have "\<exists>j \<in> set (review_jobs ?db3). rj_id j = je_job_id e \<and> rj_status j = (if ja_terminal_state ack = Ack_Succeeded then Succeeded else Failed)"
    by blast
  moreover have "agent_events ?db3 = agent_events (hw_db w2) @ [?ev] \<and> ae_review_job_id ?ev = Some (je_job_id e) \<and>
        ae_event_type ?ev = ''review_job_acknowledged'' \<and> ae_payload ?ev = ack_payload show_usd ack" using j(2) by simp
  ultimately show ?thesis using run by blast
qed

definition fleet_world :: hosted_world where
  "fleet_world = \<lparr>hw_db = fleet_db, hw_now = 5, hw_lease_token = ''tok'', hw_credential = ''c''\<rparr>"

text \<open>A review of three seconds, and a text for the two amounts of the round.\<close>

definition quick_review :: "job_envelope \<Rightarrow> (hosted_world, job_acknowledgement) act" where
  "quick_review e w = (Inr sample_ack, w\<lparr>hw_now := hw_now w + 3\<rparr>)"

definition two_amounts :: "usd \<Rightarrow> string" where
  "two_amounts c = (if c = 0 then ''0'' else ''max'')"

definition read_amount :: "usd \<Rightarrow> string \<Rightarrow> usd result" where
  "read_amount m s = (if s = ''0'' then Inr 0 else Inr m)"

lemma claim_job_any_hash:
  "claim_job hash now skip t r db = Inr (Some e, db') \<Longrightarrow> \<exists>db''. claim_job hash' now skip t r db = Inr (Some e, db'')"
  by (auto simp: claim_job_def bind_r_Inr split: option.splits if_splits)

lemma fleet_claimed_id: "claim_job hash now skip t r fleet_db = Inr (Some e, db') \<Longrightarrow> je_job_id e = ''j1''"
proof -
  assume c: "claim_job hash now skip t r fleet_db = Inr (Some e, db')"
  have uniq: "jobs_unique (review_jobs fleet_db)" using fleet_ok(1) by (simp add: queue_ok_def)
  from uniq c obtain j where "j \<in> set (review_jobs fleet_db)" "make_job_envelope j t = Inr e"
    by (cases rule: claim_job_cases) auto
  then show ?thesis using envelope_fields [of j t e] by (simp add: fleet_db_def enqueued_row_def new_review_job_def)
qed

theorem poll_round_completes_a_job_witness:
  "\<exists>e db3 read_usd. process_once (hosted_daemon (\<lambda>_. ''h'') two_amounts read_usd quick_review) ((empty_store, new_gate), fleet_world) =
     (Inr (), ((empty_store\<lparr>ls_jobs := [(job_row 5 e)\<lparr>lj_status := Local_Completed\<rparr>]\<rparr>, new_gate), fleet_world\<lparr>hw_now := 8, hw_db := db3\<rparr>)) \<and>
     (\<exists>j \<in> set (review_jobs db3). rj_id j = ''j1'' \<and> rj_status j = Succeeded)"
proof -
  have "rn_id tenant_runner = ''r1''" "runners fleet_db = [tenant_runner]" by (simp_all add: tenant_runner_def fleet_db_def tenant_db_def empty_db_def)
  then have auth: "authenticate_bearer (\<lambda>_. ''h'') (Some (bearer_prefix @ ''c'')) fleet_db =
      Inr \<lparr>ar_runner_id = ''r1'', ar_device_name = ''laptop'', ar_mode = Analysis_Only\<rparr>"
    by (simp add: authenticate_bearer_def authenticate_runner_def tenant_runner_def)
  obtain e db1 where c: "claim_job (\<lambda>_. ''h'') 5 {} ''tok'' ''r1'' fleet_db = Inr (Some e, db1)"
    using fleet_claims claim_job_any_hash by blast
  have id: "je_job_id e = ''j1''" using fleet_claimed_id [OF c] .
  let ?w2 = "fleet_world\<lparr>hw_now := 8, hw_db := db1\<rparr>"
  let ?read = "read_amount (jb_max_cost_usd (je_budget e))"
  have claim: "claim_jobs_route (\<lambda>_. ''h'') (hw_now fleet_world) {} (hw_lease_token fleet_world) (Some (bearer_prefix @ hw_credential fleet_world)) (hw_db fleet_world) = Inr (Some e, db1)"
    using auth c by (simp add: claim_jobs_route_def fleet_world_def)
  have rest: "queue_ok (hw_db fleet_world)" "allow_new_work new_gate" "get_job (je_job_id e) empty_store = None" "CHR ''/'' \<notin> set (je_job_id e)"
    "quick_review e (fleet_world\<lparr>hw_db := db1\<rparr>) = (Inr sample_ack, ?w2)" "hw_now ?w2 < hw_now fleet_world + minutes 5"
    "hw_credential ?w2 = hw_credential fleet_world" "queue_ok (hw_db ?w2)"
    "runners (hw_db ?w2) = runners db1" "\<forall>j \<in> set (review_jobs db1). rj_id j = je_job_id e \<longrightarrow> j \<in> set (review_jobs (hw_db ?w2))"
    using id fleet_ok claim_job_preserves(1) [OF fleet_ok(1) c]
    by (simp_all add: fleet_world_def allow_new_work_def new_gate_def get_job_def empty_store_def quick_review_def)
  have usd: "?read (two_amounts (jb_max_cost_usd (je_budget e))) = Inr (jb_max_cost_usd (je_budget e))"
    "?read (two_amounts (ja_cost_usd sample_ack)) = Inr (ja_cost_usd sample_ack)"
    by (simp_all add: read_amount_def two_amounts_def sample_ack_def)
  note round = poll_round_completes_a_job [where review = quick_review and read_usd = ?read and show_usd = two_amounts,
      OF rest(1-4) claim usd rest(5) sample_ack_valid rest(6-10)]
  then show ?thesis using id by (auto simp: fleet_world_def empty_store_def sample_ack_def)
qed

end
