(* ===== verification/Sandbox.thy ===== *)
theory Sandbox
  imports Diff_Review
begin

text \<open>
  Verification of a finding in a container: \<^verbatim>\<open>containers/runtime.py\<close> (the specification and the probe
  report), \<^verbatim>\<open>containers/docker.py\<close> (the probe and the run, both as argument vectors) and
  \<^verbatim>\<open>verification/docker_sandbox.py\<close> (the policy, the rewritten run, the cleanup).  The command runner, the
  clock, the temporary directory and the container name are parameters; the runtime is the Docker runtime,
  the only implementation of the protocol in the program.
\<close>

section \<open>The contract\<close>

record container_probe =
  cp_docker_cli_found :: bool
  cp_daemon_running :: bool
  cp_socket_accessible :: bool
  cp_image_pull_succeeded :: bool
  cp_runs_as_non_root :: bool
  cp_network_isolated :: bool
  cp_resource_limits_enforced :: bool
  cp_platform_supported :: bool

definition full_mode_ready :: "container_probe \<Rightarrow> bool" where
  "full_mode_ready p \<longleftrightarrow> cp_docker_cli_found p \<and> cp_daemon_running p \<and> cp_socket_accessible p \<and> cp_image_pull_succeeded p \<and>
     cp_runs_as_non_root p \<and> cp_network_isolated p \<and> cp_resource_limits_enforced p \<and> cp_platform_supported p"

record sandbox_spec =
  sp_image_digest :: string
  sp_command :: "string list"
  sp_work_directory :: string
  sp_cpu_limit :: string
  sp_memory_limit_mb :: int
  sp_pids_limit :: int
  sp_timeout_seconds :: int

definition make_sandbox_spec :: "sandbox_spec \<Rightarrow> sandbox_spec result" where
  "make_sandbox_spec s =
     (if sp_command s = [] then Inl ValueError
      else if \<not> contains ''@sha256:'' (sp_image_digest s) then Inl ValueError else Inr s)"

record sandbox_result =
  sx_exit_code :: int
  sx_stdout :: string
  sx_stderr :: string
  sx_timed_out :: bool
  sx_output_truncated :: bool

section \<open>Docker\<close>

record command_output =
  co_returncode :: int
  co_stdout :: string
  co_stderr :: string

type_synonym 'w command_runner = "string list \<Rightarrow> rat \<Rightarrow> ('w, command_output) act"

record 'w docker_runtime =
  dr_runner :: "'w command_runner"
  dr_probe_image :: string
  dr_platform :: string
  dr_probe_timeout :: rat

definition sandbox_argv_flags :: "string list" where
  "sandbox_argv_flags =
     [''--rm'', ''--network'', ''none'', ''--read-only'', ''--user'', ''65532:65532'', ''--cap-drop'', ''ALL'',
      ''--security-opt'', ''no-new-privileges'']"

definition classify_connectivity :: "command_output \<Rightarrow> bool \<times> bool \<times> bool" where
  "classify_connectivity out =
     (if co_returncode out = 127 then (False, False, False)
      else if co_returncode out = 0 then (True, True, True)
      else if contains ''permission denied'' (py_lower (co_stderr out)) then (True, True, False)
      else (True, False, True))"

definition unsupported_limit_markers :: "string list" where
  "unsupported_limit_markers = [''no memory limit support'', ''no swap limit support'', ''does not support'', ''not supported'']"

definition limits_unsupported :: "string \<Rightarrow> bool" where
  "limits_unsupported stderr \<longleftrightarrow> (\<exists>m \<in> set unsupported_limit_markers. contains m (py_lower stderr))"

text \<open>The output cap counts UTF-8 bytes: one for an ASCII character, two for the others of the modelled
  range; a character cut by the cap is dropped.\<close>

definition utf8_width :: "char \<Rightarrow> int" where
  "utf8_width c = (if (of_char c :: nat) < 128 then 1 else 2)"

definition utf8_length :: "string \<Rightarrow> int" where
  "utf8_length s = sum_list (map utf8_width s)"

fun take_bytes :: "int \<Rightarrow> string \<Rightarrow> string" where
  "take_bytes n [] = []"
| "take_bytes n (c # cs) = (if utf8_width c \<le> n then c # take_bytes (n - utf8_width c) cs else [])"

definition max_output_bytes :: int where
  "max_output_bytes = 65536"

definition cap_output :: "string \<Rightarrow> string \<times> bool" where
  "cap_output s = (if utf8_length s \<le> max_output_bytes then (s, False) else (take_bytes max_output_bytes s, True))"

text \<open>The commands of the probe.\<close>

definition version_command :: "string list" where
  "version_command = [''docker'', ''version'', ''--format'', ''{{.Server.Version}}'']"

definition pull_command :: "string \<Rightarrow> string list" where
  "pull_command img = [''docker'', ''pull'', ''--quiet'', img]"

definition nonroot_command :: "string \<Rightarrow> string list" where
  "nonroot_command img = [''docker'', ''run'', ''--rm'', ''--user'', ''65532:65532'', img, ''id'', ''-u'']"

definition network_command :: "string \<Rightarrow> string list" where
  "network_command img =
     [''docker'', ''run'', ''--rm'', ''--network'', ''none'', img, ''wget'', ''-qO-'', ''--timeout=2'', ''https://1.1.1.1'']"

definition limits_command :: "string \<Rightarrow> string list" where
  "limits_command img = [''docker'', ''run'', ''--rm'', ''--memory'', ''64m'', ''--pids-limit'', ''64'', img, ''true'']"

definition probe_report :: "bool \<Rightarrow> bool \<times> bool \<times> bool \<Rightarrow> bool \<Rightarrow> bool \<Rightarrow> bool \<Rightarrow> bool \<Rightarrow> container_probe" where
  "probe_report platform connectivity pulled nonroot isolated limits =
     (let (cli, daemon, socket) = connectivity
      in \<lparr>cp_docker_cli_found = cli, cp_daemon_running = daemon, cp_socket_accessible = socket, cp_image_pull_succeeded = pulled,
          cp_runs_as_non_root = nonroot, cp_network_isolated = isolated, cp_resource_limits_enforced = limits,
          cp_platform_supported = platform\<rparr>)"

definition probe_run :: "'w docker_runtime \<Rightarrow> string list \<Rightarrow> ('w, command_output) act" where
  "probe_run rt argv = dr_runner rt argv (dr_probe_timeout rt)"

text \<open>The texts of the failures, which no caller of the modelled code reads, are left out.\<close>

definition probe :: "'w docker_runtime \<Rightarrow> ('w, container_probe) act" where
  "probe rt =
     (let platform = dr_platform rt = ''Linux'' \<or> dr_platform rt = ''Darwin''; img = dr_probe_image rt
      in bind_a (probe_run rt version_command) (\<lambda>version.
         let conn = classify_connectivity version
         in if conn \<noteq> (True, True, True) then return_a (probe_report platform conn False False False False)
         else bind_a (probe_run rt (pull_command img)) (\<lambda>pull.
           if co_returncode pull \<noteq> 0 then return_a (probe_report platform conn False False False False)
           else bind_a (probe_run rt (nonroot_command img)) (\<lambda>nonroot.
                bind_a (probe_run rt (network_command img)) (\<lambda>network.
                bind_a (probe_run rt (limits_command img)) (\<lambda>limits.
                  return_a (probe_report platform conn True
                    (co_returncode nonroot = 0 \<and> py_strip (co_stdout nonroot) \<notin> {[], ''0''})
                    (co_returncode network \<noteq> 0)
                    (co_returncode limits = 0 \<and> \<not> limits_unsupported (co_stderr limits)))))))))"

definition sandbox_argv :: "sandbox_spec \<Rightarrow> string list" where
  "sandbox_argv s =
     [''docker'', ''run''] @ sandbox_argv_flags @
     [''--pids-limit'', show_int (sp_pids_limit s), ''--memory'', show_int (sp_memory_limit_mb s) @ ''m'', ''--cpus'', sp_cpu_limit s,
      ''--mount'', ''type=bind,source='' @ sp_work_directory s @ '',target=/work'', sp_image_digest s] @ sp_command s"

definition docker_run :: "'w docker_runtime \<Rightarrow> sandbox_spec \<Rightarrow> ('w, sandbox_result) act" where
  "docker_run rt s w =
     (case dr_runner rt (sandbox_argv s) (of_int (sp_timeout_seconds s)) w of
        (Inl e, w') \<Rightarrow>
          if e = CommandTimeoutError
          then (Inr \<lparr>sx_exit_code = -1, sx_stdout = [], sx_stderr = ''sandbox command exceeded its timeout'',
                     sx_timed_out = True, sx_output_truncated = False\<rparr>, w')
          else (Inl e, w')
      | (Inr out, w') \<Rightarrow>
          (Inr \<lparr>sx_exit_code = co_returncode out, sx_stdout = fst (cap_output (co_stdout out)),
                sx_stderr = fst (cap_output (co_stderr out)), sx_timed_out = False,
                sx_output_truncated = (snd (cap_output (co_stdout out)) \<or> snd (cap_output (co_stderr out)))\<rparr>, w'))"

section \<open>Verification\<close>

definition valid_command_id :: "string \<Rightarrow> bool" where
  "valid_command_id s \<longleftrightarrow>
     (case s of [] \<Rightarrow> False
      | c # cs \<Rightarrow> CHR ''a'' \<le> c \<and> c \<le> CHR ''z'' \<and>
          (\<forall>d \<in> set cs. (CHR ''a'' \<le> d \<and> d \<le> CHR ''z'') \<or> is_digit d \<or> d = CHR ''_''))"

record verification_policy =
  vp_image_digest :: string
  vp_allowed_command_ids :: "string list"
  vp_required_head_sha :: string
  vp_command_id :: "string option"
  vp_cpu_limit :: string
  vp_memory_limit_mb :: int
  vp_pids_limit :: int
  vp_timeout_seconds :: int
  vp_disk_limit_mb :: int

definition make_verification_policy :: "verification_policy \<Rightarrow> verification_policy result" where
  "make_verification_policy p =
     (if \<not> contains ''@sha256:'' (vp_image_digest p) then Inl ValueError
      else if vp_timeout_seconds p \<le> 0 then Inl ValueError
      else case vp_command_id p of
        None \<Rightarrow> Inr p
      | Some cid \<Rightarrow>
          if cid \<notin> set (vp_allowed_command_ids p) then Inl ValueError
          else if \<not> valid_command_id cid then Inl ValueError else Inr p)"

definition default_commands :: "(string \<times> string list) list" where
  "default_commands = [(''true'', [''true'']), (''false'', [''false'']), (''id_user'', [''id'', ''-u''])]"

text \<open>\<open>_RewriteRunner\<close> adds a name, a label and a sized tmpfs to every \<^verbatim>\<open>docker run\<close> and refuses one that
  mentions the Docker socket.\<close>

definition rewrite_argv :: "string \<Rightarrow> int \<Rightarrow> string list \<Rightarrow> string list" where
  "rewrite_argv name disk argv =
     (if take 2 argv = [''docker'', ''run'']
      then [''docker'', ''run'', ''--name'', name, ''--label'', ''pr-reviewer.sandbox=1'', ''--init'', ''--tmpfs'',
            ''/tmp:size='' @ show_int disk @ ''m,uid=65532,gid=65532''] @ drop 2 argv
      else argv)"

definition rewrite_runner :: "string \<Rightarrow> int \<Rightarrow> 'w command_runner \<Rightarrow> 'w command_runner" where
  "rewrite_runner name disk inner argv timeout =
     (if take 2 argv = [''docker'', ''run''] \<and> contains ''docker.sock'' (py_join '' '' (rewrite_argv name disk argv))
      then raise_a RuntimeError else inner (rewrite_argv name disk argv) timeout)"

definition guard_runtime :: "string \<Rightarrow> int \<Rightarrow> 'w docker_runtime \<Rightarrow> 'w docker_runtime" where
  "guard_runtime name disk rt = rt\<lparr>dr_runner := rewrite_runner name disk (dr_runner rt)\<rparr>"

definition or_text :: "string \<Rightarrow> string \<Rightarrow> string" where
  "or_text a b = (if a \<noteq> [] then a else b)"

definition result_from_sandbox :: "sandbox_result \<Rightarrow> verification_result" where
  "result_from_sandbox raw =
     (let detail = py_strip (or_text (sx_stdout raw) (sx_stderr raw))
      in if sx_timed_out raw \<or> sx_output_truncated raw then
           \<lparr>vr_status = Check_Inconclusive, vr_method = Sandbox, vr_route_to_human = True,
            vr_detail = or_text detail ''sandbox timed out or output was truncated''\<rparr>
         else if sx_exit_code raw = 0 then
           \<lparr>vr_status = Check_Passed, vr_method = Sandbox, vr_route_to_human = False, vr_detail = detail\<rparr>
         else \<lparr>vr_status = Check_Failed, vr_method = Sandbox, vr_route_to_human = True, vr_detail = detail\<rparr>)"

record 'w sandbox_host =
  sh_container_suffix :: "('w, string) act"
  sh_mkdtemp :: "('w, string) act"
  sh_monotonic :: "('w, rat) act"
  sh_rmtree :: "string \<Rightarrow> ('w, unit) act"

text \<open>\<^verbatim>\<open>try: body finally: final\<close>.\<close>

definition finally_a :: "('w, 'a) act \<Rightarrow> ('w, unit) act \<Rightarrow> ('w, 'a) act" where
  "finally_a body final w =
     (case body w of (r, w') \<Rightarrow> (case final w' of (Inl e, w'') \<Rightarrow> (Inl e, w'') | (Inr _, w'') \<Rightarrow> (r, w'')))"

definition remove_command :: "string \<Rightarrow> string list" where
  "remove_command name = [''docker'', ''rm'', ''-f'', name]"

definition cleanup ::
  "'w sandbox_host \<Rightarrow> 'w docker_runtime \<Rightarrow> string \<Rightarrow> string \<Rightarrow> rat \<Rightarrow> ('w, unit) act" where
  "cleanup host rt name work deadline =
     bind_a (sh_monotonic host) (\<lambda>now.
       if deadline - now \<le> 0 then raise_a RuntimeError
       else bind_a (\<lambda>w. case dr_runner rt (remove_command name) (deadline - now) w of
                (Inl e, w') \<Rightarrow> (Inl (if e = CommandTimeoutError then RuntimeError else e), w')
              | (Inr out, w') \<Rightarrow> (Inr (), w')) (\<lambda>_. sh_rmtree host work))"

definition spec_of :: "verification_policy \<Rightarrow> string list \<Rightarrow> string \<Rightarrow> sandbox_spec" where
  "spec_of policy argv work =
     \<lparr>sp_image_digest = vp_image_digest policy, sp_command = argv, sp_work_directory = work,
      sp_cpu_limit = vp_cpu_limit policy, sp_memory_limit_mb = vp_memory_limit_mb policy,
      sp_pids_limit = vp_pids_limit policy, sp_timeout_seconds = vp_timeout_seconds policy\<rparr>"

definition run_in_sandbox ::
  "'w sandbox_host \<Rightarrow> 'w docker_runtime \<Rightarrow> verification_policy \<Rightarrow> string list \<Rightarrow> ('w, verification_result) act" where
  "run_in_sandbox host rt policy argv =
     bind_a (sh_container_suffix host) (\<lambda>suffix.
     bind_a (sh_mkdtemp host) (\<lambda>work.
     bind_a (sh_monotonic host) (\<lambda>start.
       let name = ''prrev-sbx-'' @ suffix
       in finally_a
            (bind_a (lift_r (make_sandbox_spec (spec_of policy argv work))) (\<lambda>s.
             bind_a (docker_run (guard_runtime name (vp_disk_limit_mb policy) rt) s) (\<lambda>raw.
               return_a (result_from_sandbox raw))))
            (cleanup host rt name work (start + 10 + of_int (vp_timeout_seconds policy))))))"

definition verify_finding ::
  "'w sandbox_host \<Rightarrow> 'w docker_runtime \<Rightarrow> (string \<times> string list) list \<Rightarrow> verification_policy
   \<Rightarrow> finding_candidate \<Rightarrow> pull_request_snapshot \<Rightarrow> ('w, verification_result) act" where
  "verify_finding host rt commands policy candidate snapshot =
     (let static = check_static candidate snapshot (vp_required_head_sha policy)
      in if vr_status static \<noteq> Check_Passed then return_a static
         else case vp_command_id policy of
           None \<Rightarrow> return_a static
         | Some cid \<Rightarrow>
             bind_a (probe rt) (\<lambda>p.
               if \<not> cp_docker_cli_found p \<or> \<not> full_mode_ready p then
                 return_a \<lparr>vr_status = Check_Inconclusive, vr_method = Sandbox, vr_route_to_human = True,
                           vr_detail = ''docker is missing or isolation is not ready; routed to a person''\<rparr>
               else case map_of (commands @ default_commands) cid of
                 None \<Rightarrow> raise_a ValueError
               | Some argv \<Rightarrow>
                   if \<not> valid_command_id cid then raise_a ValueError else run_in_sandbox host rt policy argv))"

section \<open>The commands that are issued\<close>

text \<open>A runtime that notes every argument vector before it runs it.\<close>

definition noting_runtime :: "'w docker_runtime \<Rightarrow> (string list list \<times> 'w) docker_runtime" where
  "noting_runtime rt =
     \<lparr>dr_runner = (\<lambda>argv t c. case dr_runner rt argv t (snd c) of (r, w') \<Rightarrow> (r, (fst c @ [argv], w'))),
      dr_probe_image = dr_probe_image rt, dr_platform = dr_platform rt, dr_probe_timeout = dr_probe_timeout rt\<rparr>"

definition noting_host :: "'w sandbox_host \<Rightarrow> (string list list \<times> 'w) sandbox_host" where
  "noting_host host =
     \<lparr>sh_container_suffix = on_world (sh_container_suffix host), sh_mkdtemp = on_world (sh_mkdtemp host),
      sh_monotonic = on_world (sh_monotonic host), sh_rmtree = (\<lambda>work. on_world (sh_rmtree host work))\<rparr>"

definition issues :: "(string list \<Rightarrow> bool) \<Rightarrow> (string list list \<times> 'w, 'a) act \<Rightarrow> bool" where
  "issues P m \<longleftrightarrow> (\<forall>c. \<exists>new. fst (snd (m c)) = fst c @ new \<and> list_all P new)"

lemma issues_simps [simp]:
  "issues P (return_a x)" "issues P (raise_a e)" "issues P (on_world k)" "issues P (lift_r r)"
  by (auto simp: issues_def act_simps lift_r_def split: prod.splits intro: exI [of _ "[]"])

lemma issues_bind [intro]:
  assumes "issues P m" "\<And>x. issues P (f x)"
  shows "issues P (bind_a m f)"
  unfolding issues_def
proof
  fix c
  obtain r c1 where m: "m c = (r, c1)" by (metis surj_pair)
  obtain new where new: "fst c1 = fst c @ new" "list_all P new" using assms(1) m unfolding issues_def by (metis snd_conv)
  show "\<exists>new. fst (snd (bind_a m f c)) = fst c @ new \<and> list_all P new"
  proof (cases r)
    case (Inl e)
    then show ?thesis using m new by (auto simp: act_simps)
  next
    case (Inr x)
    obtain more where "fst (snd (f x c1)) = fst c1 @ more" "list_all P more" using assms(2) unfolding issues_def by blast
    then have "fst (snd (bind_a m f c)) = fst c @ (new @ more)" "list_all P (new @ more)" using m Inr new by (simp_all add: act_simps)
    then show ?thesis by blast
  qed
qed

lemma issues_finally [intro]:
  assumes "issues P m" "issues P k"
  shows "issues P (finally_a m k)"
  unfolding issues_def
proof
  fix c
  obtain r c1 where m: "m c = (r, c1)" by (metis surj_pair)
  obtain q c2 where k: "k c1 = (q, c2)" by (metis surj_pair)
  obtain new where "fst c1 = fst c @ new" "list_all P new" using assms(1) m unfolding issues_def by (metis snd_conv)
  moreover obtain more where "fst c2 = fst c1 @ more" "list_all P more" using assms(2) k unfolding issues_def by (metis snd_conv)
  ultimately have "fst c2 = fst c @ (new @ more)" "list_all P (new @ more)" by simp_all
  then show "\<exists>new. fst (snd (finally_a m k c)) = fst c @ new \<and> list_all P new"
    using m k by (auto simp: finally_a_def split: sum.splits)
qed

lemma issues_runner: "P argv \<Longrightarrow> issues P (dr_runner (noting_runtime rt) argv t)"
  by (auto simp: issues_def noting_runtime_def split: prod.splits)

lemma issues_handle:
  "issues P m \<Longrightarrow> issues P (\<lambda>w. case m w of (Inl e, w') \<Rightarrow> (g e, w') | (Inr x, w') \<Rightarrow> (h x, w'))"
  unfolding issues_def by (auto split: prod.splits sum.splits) (metis fst_conv snd_conv)+

definition probe_commands :: "string \<Rightarrow> string list list" where
  "probe_commands img = [version_command, pull_command img, nonroot_command img, network_command img, limits_command img]"

lemma issues_if: "issues P m \<Longrightarrow> issues P k \<Longrightarrow> issues P (if b then m else k)"
  by simp

lemma noting_runtime_simps [simp]:
  "dr_probe_image (noting_runtime rt) = dr_probe_image rt" "dr_platform (noting_runtime rt) = dr_platform rt"
  "dr_probe_timeout (noting_runtime rt) = dr_probe_timeout rt"
  by (simp_all add: noting_runtime_def)

lemmas issues_intros = issues_bind issues_if issues_runner issues_simps issues_finally

lemma issues_probe:
  assumes "\<And>a. a \<in> set (probe_commands (dr_probe_image rt)) \<Longrightarrow> P a"
  shows "issues P (probe (noting_runtime rt))"
  unfolding probe_def Let_def probe_run_def noting_runtime_simps
  by (intro issues_intros assms) (simp_all add: probe_commands_def)

text \<open>An isolated run: the unconditional flags, the pinned image with an allowlisted command at the end, no
  mention of the Docker socket.\<close>

definition isolated :: "(string \<times> string list) list \<Rightarrow> verification_policy \<Rightarrow> string list \<Rightarrow> bool" where
  "isolated commands policy argv \<longleftrightarrow>
     take 2 argv = [''docker'', ''run''] \<and> sublist sandbox_argv_flags argv \<and>
     \<not> contains ''docker.sock'' (py_join '' '' argv) \<and> contains ''@sha256:'' (vp_image_digest policy) \<and>
     (\<exists>cid cmd. vp_command_id policy = Some cid \<and> map_of (commands @ default_commands) cid = Some cmd \<and>
        suffix (vp_image_digest policy # cmd) argv)"

definition guarded_argv :: "verification_policy \<Rightarrow> string list \<Rightarrow> string \<Rightarrow> string \<Rightarrow> string list" where
  "guarded_argv policy cmd work name = rewrite_argv name (vp_disk_limit_mb policy) (sandbox_argv (spec_of policy cmd work))"

lemma guarded_argv_isolated:
  assumes "vp_command_id policy = Some cid" "map_of (commands @ default_commands) cid = Some cmd"
    "contains ''@sha256:'' (vp_image_digest policy)" "\<not> contains ''docker.sock'' (py_join '' '' (guarded_argv policy cmd work name))"
  shows "isolated commands policy (guarded_argv policy cmd work name)"
proof -
  let ?pre = "[''--name'', name, ''--label'', ''pr-reviewer.sandbox=1'', ''--init'', ''--tmpfs'',
            ''/tmp:size='' @ show_int (vp_disk_limit_mb policy) @ ''m,uid=65532,gid=65532'']"
  let ?mid = "[''--pids-limit'', show_int (vp_pids_limit policy), ''--memory'', show_int (vp_memory_limit_mb policy) @ ''m'',
      ''--cpus'', vp_cpu_limit policy, ''--mount'', ''type=bind,source='' @ work @ '',target=/work'']"
  have argv: "guarded_argv policy cmd work name =
      [''docker'', ''run''] @ ?pre @ sandbox_argv_flags @ ?mid @ (vp_image_digest policy # cmd)"
    by (simp add: guarded_argv_def rewrite_argv_def sandbox_argv_def spec_of_def)
  have "suffix (vp_image_digest policy # cmd) (guarded_argv policy cmd work name)"
    unfolding suffix_def argv by (rule exI [of _ "[''docker'', ''run''] @ ?pre @ sandbox_argv_flags @ ?mid"]) simp
  moreover have "sublist sandbox_argv_flags (guarded_argv policy cmd work name)"
    unfolding sublist_def argv
    by (rule exI [of _ "[''docker'', ''run''] @ ?pre"], rule exI [of _ "?mid @ (vp_image_digest policy # cmd)"]) simp
  moreover have "take 2 (guarded_argv policy cmd work name) = [''docker'', ''run'']" unfolding argv by simp
  ultimately show ?thesis using assms unfolding isolated_def by blast
qed

lemma noting_docker_run:
  assumes "docker_run (guard_runtime name (vp_disk_limit_mb policy) (noting_runtime rt)) (spec_of policy cmd work) (notes, w) = (r, (notes', w'))"
  shows "(contains ''docker.sock'' (py_join '' '' (guarded_argv policy cmd work name)) \<and> notes' = notes \<and> r = Inl RuntimeError) \<or>
     (\<not> contains ''docker.sock'' (py_join '' '' (guarded_argv policy cmd work name)) \<and>
      notes' = notes @ [guarded_argv policy cmd work name] \<and>
      (\<forall>raw. r = Inr raw \<and> \<not> sx_timed_out raw \<longrightarrow>
         (\<exists>t out v v'. dr_runner rt (guarded_argv policy cmd work name) t v = (Inr out, v') \<and> sx_exit_code raw = co_returncode out)))"
proof -
  have run: "take 2 (sandbox_argv (spec_of policy cmd work)) = [''docker'', ''run'']" by (simp add: sandbox_argv_def)
  obtain q v where q: "dr_runner rt (guarded_argv policy cmd work name) (of_int (vp_timeout_seconds policy)) w = (q, v)" by (metis surj_pair)
  have t: "sp_timeout_seconds (spec_of policy cmd work) = vp_timeout_seconds policy" by (simp add: spec_of_def)
  show ?thesis
  proof (cases "contains ''docker.sock'' (py_join '' '' (guarded_argv policy cmd work name))")
    case True
    then show ?thesis using assms run
      by (simp add: docker_run_def guard_runtime_def rewrite_runner_def guarded_argv_def act_simps)
  next
    case False
    then have "dr_runner (guard_runtime name (vp_disk_limit_mb policy) (noting_runtime rt)) (sandbox_argv (spec_of policy cmd work))
        (of_int (vp_timeout_seconds policy)) (notes, w) = (q, (notes @ [guarded_argv policy cmd work name], v))"
      using run q by (simp add: guard_runtime_def rewrite_runner_def guarded_argv_def noting_runtime_def)
    with assms False q t show ?thesis
      by (cases q) (auto simp: docker_run_def split: if_splits, blast)
  qed
qed

definition sandbox_body ::
  "'w docker_runtime \<Rightarrow> verification_policy \<Rightarrow> string list \<Rightarrow> string \<Rightarrow> string \<Rightarrow> ('w, verification_result) act" where
  "sandbox_body rt policy cmd work name =
     bind_a (lift_r (make_sandbox_spec (spec_of policy cmd work))) (\<lambda>s.
     bind_a (docker_run (guard_runtime name (vp_disk_limit_mb policy) rt) s) (\<lambda>raw. return_a (result_from_sandbox raw)))"

lemma sandbox_body_notes:
  assumes cid: "vp_command_id policy = Some cid" "map_of (commands @ default_commands) cid = Some cmd"
    and run: "sandbox_body (noting_runtime rt) policy cmd work name (notes, w) = (r, (notes', w'))"
  shows "\<exists>new. notes' = notes @ new \<and> list_all (isolated commands policy) new \<and>
     (\<forall>v. r = Inr v \<and> vr_status v = Check_Passed \<longrightarrow>
        (\<exists>argv \<in> set new. \<exists>t out v v'. dr_runner rt argv t v = (Inr out, v') \<and> co_returncode out = 0))"
proof (cases "make_sandbox_spec (spec_of policy cmd work)")
  case (Inl e)
  with run show ?thesis by (auto simp: sandbox_body_def act_simps lift_r_def intro!: exI [of _ "[]"])
next
  case (Inr s)
  then have s: "s = spec_of policy cmd work" and img: "contains ''@sha256:'' (vp_image_digest policy)"
    by (auto simp: make_sandbox_spec_def spec_of_def split: if_splits)
  obtain q c1 where q: "docker_run (guard_runtime name (vp_disk_limit_mb policy) (noting_runtime rt)) (spec_of policy cmd work) (notes, w) = (q, c1)"
    by (metis surj_pair)
  have c1: "c1 = (notes', w')" using run Inr s q
    by (cases q) (auto simp: sandbox_body_def act_simps lift_r_def)
  note d = noting_docker_run [OF q [unfolded c1]]
  show ?thesis
  proof (cases "contains ''docker.sock'' (py_join '' '' (guarded_argv policy cmd work name))")
    case True
    with d run Inr s q show ?thesis by (auto simp: sandbox_body_def act_simps lift_r_def intro!: exI [of _ "[]"])
  next
    case False
    with d have n: "notes' = notes @ [guarded_argv policy cmd work name]"
      and ex: "\<forall>raw. q = Inr raw \<and> \<not> sx_timed_out raw \<longrightarrow>
         (\<exists>t out v v'. dr_runner rt (guarded_argv policy cmd work name) t v = (Inr out, v') \<and> sx_exit_code raw = co_returncode out)"
      by auto
    have "isolated commands policy (guarded_argv policy cmd work name)" by (rule guarded_argv_isolated [OF cid img False])
    moreover have "\<exists>t out v v'. dr_runner rt (guarded_argv policy cmd work name) t v = (Inr out, v') \<and> co_returncode out = 0"
      if rv: "r = Inr v" and pv: "vr_status v = Check_Passed" for v
    proof -
      obtain raw where raw: "q = Inr raw" "v = result_from_sandbox raw"
        using run Inr s q rv by (cases q) (auto simp: sandbox_body_def act_simps lift_r_def)
      then have "\<not> sx_timed_out raw" "sx_exit_code raw = 0"
        using pv by (auto simp: result_from_sandbox_def Let_def split: if_splits)
      with ex raw(1) show ?thesis by metis
    qed
    ultimately show ?thesis using n by (auto intro!: exI [of _ "[guarded_argv policy cmd work name]"])
  qed
qed

definition allowed_argv :: "string \<Rightarrow> (string \<times> string list) list \<Rightarrow> verification_policy \<Rightarrow> string list \<Rightarrow> bool" where
  "allowed_argv img commands policy argv \<longleftrightarrow>
     argv \<in> set (probe_commands img) \<or> isolated commands policy argv \<or> (\<exists>name. argv = remove_command name)"

lemma issues_cleanup:
  "(\<And>name. P (remove_command name)) \<Longrightarrow> issues P (cleanup (noting_host host) (noting_runtime rt) name work deadline)"
  unfolding cleanup_def noting_host_def sandbox_host.simps
  by (intro issues_bind issues_if issues_handle issues_runner issues_simps)

lemma finally_a_Inr: "finally_a m k c = (Inr v, c') \<Longrightarrow> \<exists>c1 u. m c = (Inr v, c1) \<and> k c1 = (Inr u, c')"
  by (auto simp: finally_a_def split: prod.splits sum.splits)

definition passed_in :: "'w docker_runtime \<Rightarrow> (string \<times> string list) list \<Rightarrow> verification_policy \<Rightarrow> string list list \<Rightarrow> bool" where
  "passed_in rt commands policy new \<longleftrightarrow>
     (\<exists>argv \<in> set new. isolated commands policy argv \<and> (\<exists>t out v v'. dr_runner rt argv t v = (Inr out, v') \<and> co_returncode out = 0))"

lemma guarded_run_notes:
  assumes cid: "vp_command_id policy = Some cid" "map_of (commands @ default_commands) cid = Some cmd"
    and run: "finally_a (sandbox_body (noting_runtime rt) policy cmd work name)
       (cleanup (noting_host host) (noting_runtime rt) name work deadline) (notes, w) = (r, (notes', w'))"
  shows "\<exists>new. notes' = notes @ new \<and> list_all (allowed_argv img commands policy) new \<and>
     (\<forall>v. r = Inr v \<and> vr_status v = Check_Passed \<longrightarrow> passed_in rt commands policy new)"
proof -
  obtain b n1 w1 where b: "sandbox_body (noting_runtime rt) policy cmd work name (notes, w) = (b, (n1, w1))" by (metis surj_pair)
  obtain k c2 where k: "cleanup (noting_host host) (noting_runtime rt) name work deadline (n1, w1) = (k, c2)" by (metis surj_pair)
  obtain new where new: "n1 = notes @ new" "list_all (isolated commands policy) new"
    "\<forall>v. b = Inr v \<and> vr_status v = Check_Passed \<longrightarrow>
        (\<exists>argv \<in> set new. \<exists>t out v v'. dr_runner rt argv t v = (Inr out, v') \<and> co_returncode out = 0)"
    using sandbox_body_notes [OF cid b] by blast
  obtain more where more: "fst c2 = n1 @ more" "list_all (\<lambda>a. \<exists>name. a = remove_command name) more"
    using issues_cleanup [of "\<lambda>a. \<exists>name. a = remove_command name" host rt name work deadline] k unfolding issues_def
    by (metis fst_conv snd_conv)
  have c2: "c2 = (notes', w')" and rb: "\<And>v. r = Inr v \<Longrightarrow> b = Inr v"
    using run b k by (auto simp: finally_a_def split: sum.splits)
  have "notes' = notes @ (new @ more)" using new(1) more(1) c2 by simp
  moreover have "list_all (allowed_argv img commands policy) (new @ more)"
    using new(2) more(2) by (auto simp: list_all_iff allowed_argv_def)
  moreover have "passed_in rt commands policy (new @ more)" if "r = Inr v" "vr_status v = Check_Passed" for v
  proof -
    have "\<exists>argv \<in> set new. \<exists>t out v v'. dr_runner rt argv t v = (Inr out, v') \<and> co_returncode out = 0"
      using new(3) rb [OF that(1)] that(2) by blast
    with new(2) show ?thesis unfolding passed_in_def list_all_iff by (metis UnCI set_append)
  qed
  ultimately show ?thesis by blast
qed

lemma run_in_sandbox_notes:
  assumes cid: "vp_command_id policy = Some cid" "map_of (commands @ default_commands) cid = Some cmd"
    and run: "run_in_sandbox (noting_host host) (noting_runtime rt) policy cmd (notes, w) = (r, (notes', w'))"
  shows "\<exists>new. notes' = notes @ new \<and> list_all (allowed_argv img commands policy) new \<and>
     (\<forall>v. r = Inr v \<and> vr_status v = Check_Passed \<longrightarrow> passed_in rt commands policy new)"
proof -
  obtain a w1 where a: "sh_container_suffix host w = (a, w1)" by (metis surj_pair)
  obtain b w2 where b: "sh_mkdtemp host w1 = (b, w2)" by (metis surj_pair)
  obtain c w3 where c: "sh_monotonic host w2 = (c, w3)" by (metis surj_pair)
  show ?thesis
  proof (cases "\<exists>suffix work start. a = Inr suffix \<and> b = Inr work \<and> c = Inr start")
    case True
    then obtain suffix work start where v: "a = Inr suffix" "b = Inr work" "c = Inr start" by blast
    have "finally_a (sandbox_body (noting_runtime rt) policy cmd work (''prrev-sbx-'' @ suffix))
       (cleanup (noting_host host) (noting_runtime rt) (''prrev-sbx-'' @ suffix) work (start + 10 + of_int (vp_timeout_seconds policy)))
       (notes, w3) = (r, (notes', w'))"
      using run a b c v by (simp add: run_in_sandbox_def noting_host_def act_simps Let_def sandbox_body_def)
    from guarded_run_notes [OF cid this] show ?thesis .
  next
    case False
    then have "notes' = notes \<and> (\<forall>v. r \<noteq> Inr v)"
      using run a b c by (auto simp: run_in_sandbox_def noting_host_def act_simps split: sum.splits)
    then show ?thesis by (auto intro!: exI [of _ "[]"])
  qed
qed

section \<open>Properties\<close>


definition sample_runtime :: "nat docker_runtime" where
  "sample_runtime =
     \<lparr>dr_runner = (\<lambda>argv t w. (Inr \<lparr>co_returncode = (if argv = network_command ''busybox'' then 1 else 0), co_stdout = ''65532'',
                                  co_stderr = []\<rparr>, w + 1)),
      dr_probe_image = ''busybox'', dr_platform = ''Linux'', dr_probe_timeout = 30\<rparr>"

definition sample_host :: "nat sandbox_host" where
  "sample_host = \<lparr>sh_container_suffix = return_a ''abc'', sh_mkdtemp = return_a ''/tmp/w'', sh_monotonic = return_a 5,
                  sh_rmtree = (\<lambda>_. return_a ())\<rparr>"

definition sample_verification_policy :: verification_policy where
  "sample_verification_policy =
     \<lparr>vp_image_digest = ''img@sha256:0'', vp_allowed_command_ids = [''true''], vp_required_head_sha = ''h'', vp_command_id = Some ''true'',
      vp_cpu_limit = ''1'', vp_memory_limit_mb = 512, vp_pids_limit = 128, vp_timeout_seconds = 120, vp_disk_limit_mb = 64\<rparr>"

definition sample_claim :: finding_candidate where
  "sample_claim =
     \<lparr>fc_concern = Correctness, fc_severity = Low, fc_category = ''c'', fc_file_path = ''f.py'', fc_line_start = 2,
      fc_line_end = 2, fc_title = ''t'', fc_rationale = ''r'', fc_evidence = [''e''], fc_confidence = 1\<rparr>"

definition sample_verify :: "(string list list \<times> nat, verification_result) act" where
  "sample_verify = verify_finding (noting_host sample_host) (noting_runtime sample_runtime) [] sample_verification_policy
     sample_claim sample_snapshot"

lemma sample_verify_passes:
  "\<not> isl (fst (sample_verify ([], 0))) \<and> vr_status (projr (fst (sample_verify ([], 0)))) = Check_Passed"
  by code_simp


end
