(* ===== verification/Trace.thy ===== *)
theory Trace
  imports Local_Store Runner_Jobs "HOL-Library.Product_Lexorder" "HOL-Library.Multiset"
begin

text \<open>
  Reconstruction of one review from the two stores, \<^verbatim>\<open>observability/trace.py\<close> with its callers
  \<open>LocalStore.fetch_trace\<close> and \<^verbatim>\<open>cli/trace.py\<close>: the merge of the hosted and the local events, the chain of
  spans and the redaction of payloads.  An instant stands for its text: \<open>isoformat\<close> only renders it.
\<close>

section \<open>Events, segments\<close>

datatype trace_origin = Hosted_Origin | Local_Origin

datatype trace_placement = Proven | Unordered

datatype redaction_level = Redacted_Level | Debug_Level

record trace_event =
  te_sequence :: int
  te_kind :: string
  te_payload :: json
  te_created_at :: timestamp

record store_trace =
  st_trace_id :: string
  st_events :: "trace_event list"

record trace_segment =
  sg_origin :: trace_origin
  sg_trace_id :: string
  sg_span_id :: string
  sg_parent_span_id :: "string option"
  sg_timestamp :: timestamp
  sg_kind :: string
  sg_payload :: json
  sg_placement :: trace_placement

record trace_reconstruction =
  tr_job_id :: string
  tr_trace_id :: "string option"
  tr_segments :: "trace_segment list"
  tr_missing_origins :: "trace_origin list"

definition trace_is_complete :: "trace_reconstruction \<Rightarrow> bool" where
  "trace_is_complete r \<longleftrightarrow> tr_missing_origins r = []"

section \<open>Redaction\<close>

definition ascii_lower :: "char \<Rightarrow> bool" where
  "ascii_lower c \<longleftrightarrow> (97::nat) \<le> of_char c \<and> (of_char c :: nat) \<le> 122"

definition ascii_upper :: "char \<Rightarrow> bool" where
  "ascii_upper c \<longleftrightarrow> (65::nat) \<le> of_char c \<and> (of_char c :: nat) \<le> 90"

definition lower_or_digit :: "char \<Rightarrow> bool" where
  "lower_or_digit c \<longleftrightarrow> ascii_lower c \<or> is_digit c"

text \<open>\<open>findall\<close> of \<^verbatim>\<open>[A-Z]?[a-z0-9]+|[A-Z]+(?![a-z])\<close>: at an upper-case letter the first alternative needs a lower-case
  letter or digit next; the second takes the run of capitals and gives its last one back when a lower-case
  letter follows.\<close>

function word_scan :: "string \<Rightarrow> string list" where
  "word_scan [] = []"
| "word_scan (c # cs) =
     (if lower_or_digit c then takeWhile lower_or_digit (c # cs) # word_scan (dropWhile lower_or_digit cs)
      else if ascii_upper c then
        (if cs \<noteq> [] \<and> lower_or_digit (hd cs) then (c # takeWhile lower_or_digit cs) # word_scan (dropWhile lower_or_digit cs)
         else let run = takeWhile ascii_upper cs; rest = dropWhile ascii_upper cs
              in if run \<noteq> [] \<and> rest \<noteq> [] \<and> ascii_lower (hd rest)
                 then (c # butlast run) # word_scan (drop (length run - 1) cs)
                 else (c # run) # word_scan rest)
      else word_scan cs)"
  by pat_completeness auto
termination
  by (relation "measure length") (auto simp: le_imp_less_Suc length_dropWhile_le)

fun split_where :: "(char \<Rightarrow> bool) \<Rightarrow> string \<Rightarrow> string list" where
  "split_where p [] = [[]]"
| "split_where p (c # cs) =
     (if p c then [] # split_where p cs
      else (case split_where p cs of [] \<Rightarrow> [[c]] | w # ws \<Rightarrow> (c # w) # ws))"

text \<open>An empty part has no words, so a run of separators splits as one.\<close>

definition key_words :: "string \<Rightarrow> string list" where
  "key_words key = map py_lower (concat (map word_scan (split_where (\<lambda>c. c = CHR ''_'' \<or> c = CHR ''-'') key)))"

definition secret_key_markers :: "string list" where
  "secret_key_markers = [''token'', ''key'', ''secret'', ''password'', ''credential'', ''authorization'', ''bearer'']"

definition sensitive_content_keys :: "string list" where
  "sensitive_content_keys = [''patch'', ''diff'', ''source'', ''sourcetext'', ''source_text'', ''content'', ''code'', ''rationale'',
     ''prompt'', ''output'', ''rawoutput'', ''raw_output'', ''body'']"

definition looks_like_secret_key :: "string \<Rightarrow> bool" where
  "looks_like_secret_key key \<longleftrightarrow> (\<exists>w \<in> set (key_words key). w \<in> set secret_key_markers)"

definition mask :: "json \<Rightarrow> string \<Rightarrow> json" where
  "mask v category =
     (case v of
        JStr s \<Rightarrow> JStr (''<redacted:'' @ category @ '':'' @ show_nat (length s) @ '' chars>'')
      | _ \<Rightarrow> JStr (''<redacted:'' @ category @ ''>''))"

definition content_key :: "redaction_level \<Rightarrow> string \<Rightarrow> bool" where
  "content_key level key \<longleftrightarrow> level = Redacted_Level \<and> py_lower key \<in> set sensitive_content_keys"

text \<open>\<open>_redact_field\<close> is the body of the mapping case.\<close>

fun redact_value :: "redaction_level \<Rightarrow> json \<Rightarrow> json" where
  "redact_value level (JObj kvs) =
     JObj (map (\<lambda>kv. (fst kv,
       if looks_like_secret_key (fst kv) then mask (snd kv) ''secret''
       else if content_key level (fst kv) then mask (snd kv) ''content''
       else redact_value level (snd kv))) kvs)"
| "redact_value level (JArr vs) = JArr (map (redact_value level) vs)"
| "redact_value level v = v"

section \<open>The merge\<close>

definition hosted_post_local_kinds :: "string list" where
  "hosted_post_local_kinds = [''review_job_acknowledged'']"

fun origin_text :: "trace_origin \<Rightarrow> string" where
  "origin_text Hosted_Origin = ''hosted''"
| "origin_text Local_Origin = ''local''"

definition span_of :: "trace_origin \<Rightarrow> trace_event \<Rightarrow> string" where
  "span_of origin e = origin_text origin @ '':'' @ show_int (te_sequence e)"

definition placement_of :: "trace_origin \<Rightarrow> trace_event \<Rightarrow> trace_placement" where
  "placement_of origin e =
     (if origin = Local_Origin \<or> te_kind e \<in> set hosted_post_local_kinds then Proven else Unordered)"

fun chain_from :: "trace_origin \<Rightarrow> string \<Rightarrow> redaction_level \<Rightarrow> string option \<Rightarrow> trace_event list \<Rightarrow> trace_segment list" where
  "chain_from origin trace_id level previous [] = []"
| "chain_from origin trace_id level previous (e # es) =
     \<lparr>sg_origin = origin, sg_trace_id = trace_id, sg_span_id = span_of origin e, sg_parent_span_id = previous,
      sg_timestamp = te_created_at e, sg_kind = te_kind e, sg_payload = redact_value level (te_payload e),
      sg_placement = placement_of origin e\<rparr> # chain_from origin trace_id level (Some (span_of origin e)) es"

definition build_hosted_chain :: "string \<Rightarrow> trace_event list \<Rightarrow> redaction_level \<Rightarrow> trace_segment list" where
  "build_hosted_chain trace_id events level = chain_from Hosted_Origin trace_id level None (sort_key te_sequence events)"

definition build_local_chain :: "string \<Rightarrow> trace_event list \<Rightarrow> redaction_level \<Rightarrow> trace_segment list" where
  "build_local_chain trace_id events level = chain_from Local_Origin trace_id level None (sort_key te_sequence events)"

definition events_of :: "store_trace option \<Rightarrow> trace_event list" where
  "events_of t = (case t of None \<Rightarrow> [] | Some s \<Rightarrow> st_events s)"

definition traces_disagree :: "store_trace option \<Rightarrow> store_trace option \<Rightarrow> bool" where
  "traces_disagree hosted local_trace \<longleftrightarrow>
     (case (hosted, local_trace) of (Some h, Some l) \<Rightarrow> st_trace_id h \<noteq> st_trace_id l | _ \<Rightarrow> False)"

lemma traces_disagree_iff [simp]:
  "traces_disagree hosted local_trace \<longleftrightarrow> (\<exists>h l. hosted = Some h \<and> local_trace = Some l \<and> st_trace_id h \<noteq> st_trace_id l)"
  by (auto simp: traces_disagree_def split: option.splits)

definition reconstruct_trace ::
  "string \<Rightarrow> store_trace option \<Rightarrow> store_trace option \<Rightarrow> redaction_level \<Rightarrow> trace_reconstruction result" where
  "reconstruct_trace job_id hosted local_trace level =
     (if traces_disagree hosted local_trace then Inl (Exception_Of ''TraceIntegrityError'')
      else let trace_id = (case hosted of Some h \<Rightarrow> Some (st_trace_id h) | None \<Rightarrow> map_option st_trace_id local_trace);
               shown = (case trace_id of None \<Rightarrow> [] | Some t \<Rightarrow> t);
               hosted_segments = build_hosted_chain shown (events_of hosted) level;
               local_segments = build_local_chain shown (events_of local_trace) level;
               pre_local = filter (\<lambda>s. sg_kind s \<notin> set hosted_post_local_kinds) hosted_segments;
               post_local = filter (\<lambda>s. sg_kind s \<in> set hosted_post_local_kinds) hosted_segments;
               post_local = (case post_local of
                  [] \<Rightarrow> []
                | s # ss \<Rightarrow> if local_segments = [] then s # ss
                            else s\<lparr>sg_parent_span_id := Some (sg_span_id (last local_segments))\<rparr> # ss)
           in Inr \<lparr>tr_job_id = job_id, tr_trace_id = trace_id, tr_segments = pre_local @ local_segments @ post_local,
                   tr_missing_origins = (if hosted = None then [Hosted_Origin] else []) @
                                        (if local_trace = None then [Local_Origin] else [])\<rparr>)"

section \<open>The two stores\<close>

definition fetch_local_trace :: "string \<Rightarrow> local_store \<Rightarrow> store_trace option" where
  "fetch_local_trace job_id st =
     (case get_job job_id st of
        None \<Rightarrow> None
      | Some job \<Rightarrow> Some \<lparr>st_trace_id = lj_trace_id job,
          st_events = map (\<lambda>e. \<lparr>te_sequence = le_sequence e, te_kind = le_event_type e, te_payload = le_payload e,
                                 te_created_at = le_created_at e\<rparr>) (list_events_for_trace (lj_trace_id job) st)\<rparr>)"

definition hosted_trace_of :: "(uuid \<times> agent_event list) \<Rightarrow> store_trace" where
  "hosted_trace_of t =
     \<lparr>st_trace_id = fst t,
      st_events = map (\<lambda>e. \<lparr>te_sequence = int (ae_sequence e), te_kind = ae_event_type e, te_payload = ae_payload e,
                             te_created_at = ae_created_at e\<rparr>) (snd t)\<rparr>"

text \<open>The command: \<open>store\<close> is \<open>None\<close> when the local file is corrupted.  The result is the exit code with the
  reconstruction that is printed.\<close>

definition cli_trace_run ::
  "string \<Rightarrow> redaction_level \<Rightarrow> hosted_db \<Rightarrow> local_store option \<Rightarrow> (int \<times> trace_reconstruction option) result" where
  "cli_trace_run job_id level db store =
     (let hosted = map_option hosted_trace_of (fetch_hosted_trace job_id db);
          local_trace = (case store of None \<Rightarrow> None | Some st \<Rightarrow> fetch_local_trace job_id st)
      in if hosted = None \<and> local_trace = None then Inr (1, None)
         else bind_r (reconstruct_trace job_id hosted local_trace level) (\<lambda>r. Inr (0, Some r)))"

section \<open>Order of the segments\<close>

text \<open>The rank of an event in the merged trace: hosted events with no proven place, the local chain, the
  acknowledgement.\<close>

fun trace_rank :: "trace_origin \<times> trace_event \<Rightarrow> nat" where
  "trace_rank (Local_Origin, e) = 1"
| "trace_rank (Hosted_Origin, e) = (if te_kind e \<in> set hosted_post_local_kinds then 2 else 0)"

definition trace_key :: "trace_origin \<times> trace_event \<Rightarrow> nat \<times> int" where
  "trace_key x = (trace_rank x, te_sequence (snd x))"

definition shown_event :: "redaction_level \<Rightarrow> trace_origin \<times> trace_event \<Rightarrow> trace_origin \<times> string \<times> string \<times> json \<times> trace_placement" where
  "shown_event level x =
     (fst x, span_of (fst x) (snd x), te_kind (snd x), redact_value level (te_payload (snd x)), placement_of (fst x) (snd x))"

definition shown_segment :: "trace_segment \<Rightarrow> trace_origin \<times> string \<times> string \<times> json \<times> trace_placement" where
  "shown_segment s = (sg_origin s, sg_span_id s, sg_kind s, sg_payload s, sg_placement s)"

lemma shown_segment_parent [simp]: "shown_segment (s\<lparr>sg_parent_span_id := p\<rparr>) = shown_segment s"
  by (simp add: shown_segment_def)

lemma chain_shown: "map shown_segment (chain_from origin t level prev es) = map (\<lambda>e. shown_event level (origin, e)) es"
  by (induction es arbitrary: prev) (simp_all add: shown_segment_def shown_event_def)

lemma chain_filter_shown:
  "map shown_segment (filter (\<lambda>s. P (sg_kind s)) (chain_from origin t level prev es)) =
     map (\<lambda>e. shown_event level (origin, e)) (filter (\<lambda>e. P (te_kind e)) es)"
  by (induction es arbitrary: prev) (simp_all add: shown_segment_def shown_event_def)

lemma filter_same_key_sort: "filter (\<lambda>x. P x \<and> f x = c) (sort_key f xs) = filter (\<lambda>x. P x \<and> f x = c) xs"
proof -
  have "sort_key f (filter (\<lambda>x. P x \<and> f x = c) xs) = filter (\<lambda>x. P x \<and> f x = c) xs"
    by (induction xs) (auto simp: insort_is_Cons)
  then show ?thesis by (simp add: filter_sort)
qed

lemma merged_sort:
  fixes hs ls :: "trace_event list"
  defines "late \<equiv> \<lambda>e. te_kind e \<in> set hosted_post_local_kinds"
  shows "sort_key trace_key (map (Pair Hosted_Origin) hs @ map (Pair Local_Origin) ls) =
    map (Pair Hosted_Origin) (filter (\<lambda>e. \<not> late e) (sort_key te_sequence hs)) @
    map (Pair Local_Origin) (sort_key te_sequence ls) @
    map (Pair Hosted_Origin) (filter late (sort_key te_sequence hs))"
    (is "sort_key _ ?xs = ?ys")
proof (rule properties_for_sort_key)
  have "mset (filter (\<lambda>e. \<not> late e) (sort_key te_sequence hs)) + mset (filter late (sort_key te_sequence hs)) = mset hs"
    by (simp add: multiset_partition [symmetric] add.commute)
  then show "mset ?ys = mset ?xs"
    by (simp add: image_mset_union [symmetric] add.commute add.left_commute del: image_mset_union mset_filter)
next
  fix k assume "k \<in> set ?ys"
  show "filter (\<lambda>x. trace_key k = trace_key x) ?ys = filter (\<lambda>x. trace_key k = trace_key x) ?xs"
  proof (cases "trace_rank k = 1")
    case True
    then have "trace_key k = trace_key (Hosted_Origin, e) \<longleftrightarrow> False"
      "trace_key k = trace_key (Local_Origin, e) \<longleftrightarrow> te_sequence e = te_sequence (snd k)" for e
      by (auto simp: trace_key_def)
    then show ?thesis using filter_same_key_sort [of "\<lambda>_. True" te_sequence "te_sequence (snd k)" ls]
      by (simp add: filter_map o_def)
  next
    case False
    let ?P = "\<lambda>e. late e = (trace_rank k = 2)"
    have "trace_rank k = 0 \<or> trace_rank k = 2" using False by (cases k rule: trace_rank.cases) auto
    then have key: "trace_key k = trace_key (Hosted_Origin, e) \<longleftrightarrow> ?P e \<and> te_sequence e = te_sequence (snd k)"
      "trace_key k = trace_key (Local_Origin, e) \<longleftrightarrow> False" for e
      using False by (auto simp: trace_key_def late_def)
    show ?thesis using filter_same_key_sort [of ?P te_sequence "te_sequence (snd k)" hs]
      by (cases "trace_rank k = 2") (simp_all add: filter_map o_def key cong: conj_cong)
  qed
next
  have ranked: "sorted (map trace_key (map (Pair org) zs))" if "sorted (map te_sequence zs)" "\<forall>e \<in> set zs. trace_rank (org, e) = c" for org zs c
  proof -
    have "map trace_key (map (Pair org) zs) = map (\<lambda>e. (c, te_sequence e)) zs" using that(2) by (simp add: trace_key_def)
    then show ?thesis unfolding \<open>map trace_key _ = _\<close> using that(1) by (simp add: sorted_map)
  qed
  have "sorted (map te_sequence (filter p (sort_key te_sequence hs)))" for p
    by (simp add: filter_sort)
  with ranked [of "filter (\<lambda>e. \<not> late e) (sort_key te_sequence hs)" Hosted_Origin 0] ranked [of "sort_key te_sequence ls" Local_Origin 1]
    ranked [of "filter late (sort_key te_sequence hs)" Hosted_Origin 2]
  show "sorted (map trace_key ?ys)"
    by (auto simp: sorted_append trace_key_def late_def)
qed

lemma reconstruct_segments:
  assumes "reconstruct_trace job_id hosted local_trace level = Inr r"
  shows "map shown_segment (tr_segments r) =
    map (shown_event level) (sort_key trace_key (map (Pair Hosted_Origin) (events_of hosted) @ map (Pair Local_Origin) (events_of local_trace)))"
proof -
  let ?t = "case (case hosted of Some h \<Rightarrow> Some (st_trace_id h) | None \<Rightarrow> map_option st_trace_id local_trace) of None \<Rightarrow> [] | Some t \<Rightarrow> t"
  from assms have "map shown_segment (tr_segments r) =
    map shown_segment (filter (\<lambda>s. sg_kind s \<notin> set hosted_post_local_kinds) (build_hosted_chain ?t (events_of hosted) level)) @
    map shown_segment (build_local_chain ?t (events_of local_trace) level) @
    map shown_segment (filter (\<lambda>s. sg_kind s \<in> set hosted_post_local_kinds) (build_hosted_chain ?t (events_of hosted) level))"
    by (simp add: reconstruct_trace_def Let_def split: if_splits list.splits; force)
  then show ?thesis
    unfolding merged_sort
    by (simp add: build_hosted_chain_def build_local_chain_def chain_shown o_def
        chain_filter_shown [where P = "\<lambda>k. k \<in> set hosted_post_local_kinds"]
        chain_filter_shown [where P = "\<lambda>k. k \<notin> set hosted_post_local_kinds"])
qed

lemma reconstruct_defined:
  "(\<exists>r. reconstruct_trace job_id hosted local_trace level = Inr r) \<longleftrightarrow>
     \<not> (\<exists>h l. hosted = Some h \<and> local_trace = Some l \<and> st_trace_id h \<noteq> st_trace_id l)"
  unfolding reconstruct_trace_def Let_def traces_disagree_iff by (simp only: if_split [of "\<lambda>x. \<exists>r. x = Inr r"]) blast

section \<open>The two stores name one trace\<close>

lemma envelope_trace: "make_job_envelope j t = Inr e \<Longrightarrow> rj_trace_id j = Some (je_trace_id e) \<and> rj_id j = je_job_id e"
  by (auto simp: make_job_envelope_def bind_r_Inr require_column_def split: if_splits option.splits)

text \<open>A job that the runner records when it claims it can be traced from both sides at once: the two stores
  agree on the trace, so the command finds a complete one.\<close>

lemma claimed_job_is_traceable:
  assumes ok: "queue_ok db" and claim: "claim_job hash now skip token run db = Inr (Some e, db')"
    and fresh: "get_job (je_job_id e) st = None"
  shows "\<exists>r. cli_trace_run (je_job_id e) level db' (Some (record_claimed now' e st)) = Inr (0, Some r) \<and> trace_is_complete r"
proof -
  have uniq: "jobs_unique (review_jobs db)" using ok by (simp add: queue_ok_def)
  from uniq claim obtain j where j: "make_job_envelope j token = Inr e" "j \<in> set (review_jobs db)"
    "db' = db\<lparr>review_jobs := update_where (\<lambda>r. r = j) (runner_lease now run (hash token)) (review_jobs db)\<rparr>"
    by (cases rule: claim_job_cases) auto
  let ?j = "runner_lease now run (hash token) j"
  have there: "?j \<in> set (review_jobs db')" "rj_id ?j = je_job_id e" "rj_trace_id ?j = Some (je_trace_id e)"
    using j envelope_trace [OF j(1)] by (auto simp: in_update_where runner_lease_def lease_def)
  have "jobs_unique (review_jobs db')" using claim_job_preserves(1) [OF ok claim] by (simp add: queue_ok_def)
  then have "rj_id r = je_job_id e \<longleftrightarrow> r = ?j" if "r \<in> set (review_jobs db')" for r
    using unique_id [OF _ that there(1)] there(2) by auto
  from fetchone_single [OF this there(1)] have hosted: "\<exists>evs. fetch_hosted_trace (je_job_id e) db' = Some (je_trace_id e, evs)"
    using there(3) by (simp add: fetch_hosted_trace_def)
  have "\<forall>r \<in> set (ls_jobs st). lj_job_id r \<noteq> je_job_id e" using fresh by (simp add: get_job_def fetchone_None)
  then have "fetchone (\<lambda>r. lj_job_id r = je_job_id e) (ls_jobs st) = None" by (simp add: fetchone_None)
  then have "get_job (je_job_id e) (record_claimed now' e st) = Some (job_row now' e)"
    using \<open>\<forall>r \<in> set (ls_jobs st). _\<close> by (simp add: get_job_def record_claimed_def fetchone_append) (simp add: job_row_def)
  then obtain t where l: "fetch_local_trace (je_job_id e) (record_claimed now' e st) = Some t" "st_trace_id t = je_trace_id e"
    by (simp add: fetch_local_trace_def job_row_def)
  from hosted obtain h where h: "map_option hosted_trace_of (fetch_hosted_trace (je_job_id e) db') = Some h" "st_trace_id h = je_trace_id e"
    by (auto simp: hosted_trace_of_def)
  have "\<exists>r. reconstruct_trace (je_job_id e) (Some h) (Some t) level = Inr r"
    using h(2) l(2) by (simp add: reconstruct_defined)
  then obtain r where r: "reconstruct_trace (je_job_id e) (Some h) (Some t) level = Inr r" by blast
  then have "tr_missing_origins r = []" by (auto simp: reconstruct_trace_def Let_def split: if_splits)
  with r show ?thesis unfolding cli_trace_run_def h(1) l(1) option.case Let_def by (simp add: l(1) trace_is_complete_def)
qed

section \<open>What redaction removes\<close>

text \<open>No field of a secret or (at the default level) a content name holds anything but a mask, at any depth.\<close>

definition is_mask :: "json \<Rightarrow> bool" where
  "is_mask v \<longleftrightarrow> (\<exists>old category. category \<in> {''secret'', ''content''} \<and> v = mask old category)"

definition masked_key :: "redaction_level \<Rightarrow> string \<Rightarrow> bool" where
  "masked_key level k \<longleftrightarrow> looks_like_secret_key k \<or> content_key level k"

inductive field_of :: "string \<Rightarrow> json \<Rightarrow> json \<Rightarrow> bool" where
  here: "(k, v) \<in> set kvs \<Longrightarrow> field_of k v (JObj kvs)"
| in_field: "(k', w) \<in> set kvs \<Longrightarrow> field_of k v w \<Longrightarrow> field_of k v (JObj kvs)"
| in_item: "w \<in> set ws \<Longrightarrow> field_of k v w \<Longrightarrow> field_of k v (JArr ws)"

inductive_cases field_of_objE: "field_of k v (JObj kvs)"
inductive_cases field_of_arrE: "field_of k v (JArr ws)"
inductive_cases field_of_leafE: "field_of k v JNull" "field_of k v (JBool b)" "field_of k v (JInt i)" "field_of k v (JFloat q)" "field_of k v (JStr s)"

lemma mask_is_mask: "c \<in> {''secret'', ''content''} \<Longrightarrow> is_mask (mask v c)"
  by (auto simp: is_mask_def)

lemma mask_leaf: "\<not> field_of k v (mask w c)"
  by (auto simp: mask_def split: json.splits elim: field_of_leafE)

lemma redacted_fields:
  "field_of k v (redact_value level j) \<Longrightarrow> masked_key level k \<Longrightarrow> is_mask v"
proof (induction level j rule: redact_value.induct)
  case (1 level kvs)
  from 1(2) [unfolded redact_value.simps] show ?case
  proof (cases rule: field_of.cases)
    case here
    then show ?thesis using \<open>masked_key level k\<close> by (auto simp: masked_key_def mask_is_mask split: if_splits)
  next
    case (in_field k' w)
    then obtain x where x: "(k', x) \<in> set kvs"
      "w = (if looks_like_secret_key k' then mask x ''secret'' else if content_key level k' then mask x ''content'' else redact_value level x)"
      by auto
    with in_field(2) have plain: "\<not> looks_like_secret_key k'" "\<not> content_key level k'" by (auto simp: mask_leaf split: if_splits)
    with x in_field(2) \<open>masked_key level k\<close> show ?thesis using "1.IH" [of "(k', x)"] by simp
  qed
next
  case (2 level vs)
  from 2(2) [unfolded redact_value.simps] show ?case
    by (cases rule: field_of_arrE) (use 2 in auto)
qed (auto elim: field_of_leafE)

lemma redact_value_plain: "\<forall>k v. field_of k v j \<longrightarrow> \<not> masked_key level k \<Longrightarrow> redact_value level j = j"
proof (induction level j rule: redact_value.induct)
  case (1 level kvs)
  have "(fst kv, if looks_like_secret_key (fst kv) then mask (snd kv) ''secret''
       else if content_key level (fst kv) then mask (snd kv) ''content''
       else redact_value level (snd kv)) = kv" if kv: "kv \<in> set kvs" for kv
  proof -
    have "(fst kv, snd kv) \<in> set kvs" using kv by simp
    with 1(2) here have plain: "\<not> masked_key level (fst kv)" by blast
    moreover have "\<forall>k v. field_of k v (snd kv) \<longrightarrow> \<not> masked_key level k"
      using 1(2) in_field [OF \<open>(fst kv, snd kv) \<in> set kvs\<close>] by blast
    ultimately show ?thesis using "1.IH" [OF kv] by (auto simp: masked_key_def)
  qed
  then show ?case by (simp cong: map_cong)
next
  case (2 level vs)
  then have "redact_value level v = v" if "v \<in> set vs" for v using that in_item by blast
  then show ?case by (simp cong: map_cong)
qed simp_all

section \<open>Properties\<close>

text \<open>C25. The merged trace is ordered by what the stores recorded and never by a clock.  A trace is rebuilt
  unless the two stores name different traces; the segments, as origin, span, kind, redacted payload and
  placement, are the events of both stores sorted by rank and then by the store's own sequence number, where
  the local chain stands between the hosted events of unproven place and the acknowledgement; so neither the
  instants nor the order in which the events were fetched matter beyond ties of the sequence.  A store without
  the job is reported as missing.\<close>

theorem reconstruct_trace_ordered:
  "(if \<exists>h l. hosted = Some h \<and> local_trace = Some l \<and> st_trace_id h \<noteq> st_trace_id l
    then reconstruct_trace job_id hosted local_trace level = Inl (Exception_Of ''TraceIntegrityError'')
    else \<exists>r. reconstruct_trace job_id hosted local_trace level = Inr r \<and>
      map shown_segment (tr_segments r) =
        map (shown_event level) (sort_key trace_key
          (map (Pair Hosted_Origin) (events_of hosted) @ map (Pair Local_Origin) (events_of local_trace))) \<and>
      tr_missing_origins r = (if hosted = None then [Hosted_Origin] else []) @ (if local_trace = None then [Local_Origin] else []))"
proof (cases "\<exists>h l. hosted = Some h \<and> local_trace = Some l \<and> st_trace_id h \<noteq> st_trace_id l")
  case True
  then show ?thesis by (simp add: reconstruct_trace_def)
next
  case False
  then obtain r where r: "reconstruct_trace job_id hosted local_trace level = Inr r"
    using reconstruct_defined [of job_id hosted local_trace level] by blast
  moreover have "tr_missing_origins r = (if hosted = None then [Hosted_Origin] else []) @ (if local_trace = None then [Local_Origin] else [])"
    using r by (auto simp: reconstruct_trace_def Let_def split: if_splits)
  ultimately show ?thesis using False reconstruct_segments [OF r] by (simp only: if_False) blast
qed



text \<open>Names written as one word are not recognised.\<close>

lemma one_word_key_is_shown:
  "redact_value Redacted_Level (JObj [(''apikey'', JStr ''sk-1''), (''APIKEY'', JStr ''sk-2''), (''accessTokens'', JArr [JStr ''t''])]) =
     JObj [(''apikey'', JStr ''sk-1''), (''APIKEY'', JStr ''sk-2''), (''accessTokens'', JArr [JStr ''t''])]"
  by code_simp

end
