(* ===== verification/Retry.thy ===== *)
theory Retry
  imports Hosted_Db
begin

text \<open>
  Retries and circuits: \<^verbatim>\<open>reliability/retry.py\<close>, \<^verbatim>\<open>reliability/circuit.py\<close>, \<^verbatim>\<open>models/provider_errors.py\<close> and
  \<^verbatim>\<open>models/retry.py\<close>.  The operation, the sleep and the random source act on a world; the monotonic clock reads
  it.  Floating point numbers are exact rationals here; the parser of a \<open>Retry-After\<close> value is a parameter.
\<close>

section \<open>Backoff\<close>

definition retry_after_seconds :: "(string \<Rightarrow> rat option) \<Rightarrow> (string \<times> string) list option \<Rightarrow> rat option" where
  "retry_after_seconds read_float headers =
     (case headers of
        None \<Rightarrow> None
      | Some hs \<Rightarrow>
          (case (case map_of hs ''Retry-After'' of None \<Rightarrow> map_of hs ''retry-after'' | Some v \<Rightarrow> Some v) of
             None \<Rightarrow> None
           | Some raw \<Rightarrow> map_option (max 0) (read_float raw)))"

definition next_backoff :: "nat \<Rightarrow> rat \<Rightarrow> rat \<Rightarrow> rat option \<Rightarrow> rat \<Rightarrow> rat \<Rightarrow> rat" where
  "next_backoff attempt base_seconds cap_seconds retry_after sample jitter =
     (case retry_after of
        Some r \<Rightarrow> min (max 0 r) cap_seconds
      | None \<Rightarrow> min cap_seconds (base_seconds * 2 ^ attempt) * (1 - jitter + 2 * jitter * sample))"

definition is_neon_interruption :: "string \<Rightarrow> string \<Rightarrow> bool" where
  "is_neon_interruption class_name message \<longleftrightarrow>
     class_name = ''OperationalError'' \<or> contains ''server closed the connection'' (py_lower message) \<or>
     contains ''connection unexpectedly'' (py_lower message)"

section \<open>The retry loop\<close>

record ('w, 'a) retry_env =
  re_operation :: "('w, 'a) act"
  re_is_retryable :: "py_exn \<Rightarrow> bool"
  re_deadline :: rat
  re_clock :: "'w \<Rightarrow> rat"
  re_sleep :: "rat \<Rightarrow> ('w, unit) act"
  re_base_seconds :: rat
  re_cap_seconds :: rat
  re_rng :: "'w \<Rightarrow> rat \<times> 'w"
  re_retry_after :: "py_exn \<Rightarrow> rat option"

definition backoff_jitter :: rat where "backoff_jitter = 1 / 10"

text \<open>The delay after a failure; the random source is only read when the error names no delay.\<close>

definition retry_delay_after :: "('w, 'a) retry_env \<Rightarrow> nat \<Rightarrow> py_exn \<Rightarrow> 'w \<Rightarrow> rat \<times> 'w" where
  "retry_delay_after env attempt e w =
     (case re_retry_after env e of
        Some r \<Rightarrow> (next_backoff attempt (re_base_seconds env) (re_cap_seconds env) (Some r) 0 backoff_jitter, w)
      | None \<Rightarrow> (let (sample, w') = re_rng env w
                 in (next_backoff attempt (re_base_seconds env) (re_cap_seconds env) None sample backoff_jitter, w')))"

text \<open>The iterations of \<open>range(max_attempts)\<close> that are left; with none at all the final assertion fails.\<close>

fun retry_attempts :: "('w, 'a) retry_env \<Rightarrow> nat \<Rightarrow> nat \<Rightarrow> ('w, 'a) act" where
  "retry_attempts env 0 attempt w = (Inl AssertionError, w)"
| "retry_attempts env (Suc n) attempt w =
     (if re_deadline env \<le> re_clock env w then (Inl RetryDeadlineExceeded, w)
      else case re_operation env w of
        (Inr x, w1) \<Rightarrow> (Inr x, w1)
      | (Inl e, w1) \<Rightarrow>
          if \<not> re_is_retryable env e \<or> n = 0 then (Inl e, w1)
          else (case retry_delay_after env attempt e w1 of
                  (delay, w2) \<Rightarrow>
                    if re_deadline env - re_clock env w2 < delay then (Inl RetryDeadlineExceeded, w2)
                    else (case re_sleep env delay w2 of
                            (Inl err, w3) \<Rightarrow> (Inl err, w3)
                          | (Inr _, w3) \<Rightarrow> retry_attempts env n (Suc attempt) w3)))"

definition run_with_retry :: "('w, 'a) retry_env \<Rightarrow> nat \<Rightarrow> ('w, 'a) act" where
  "run_with_retry env max_attempts = retry_attempts env max_attempts 0"

section \<open>Provider failures\<close>

datatype provider_error_kind =
    Retryable_Rate_Limit | Out_Of_Tokens | Bad_Key | Provider_Overloaded | Bad_Request | Unknown_Failure

record provider_failure =
  pf_provider :: string
  pf_kind :: provider_error_kind
  pf_reason :: string
  pf_retry_after_seconds :: "rat option"

definition error_message :: "(json \<Rightarrow> string) \<Rightarrow> json \<Rightarrow> string" where
  "error_message repr body =
     (case json_get body ''error'' of
        JObj err \<Rightarrow>
          py_lower (py_join '' '' (map (\<lambda>f. case map_of err f of None \<Rightarrow> [] | Some v \<Rightarrow> py_str repr v) [''code'', ''type'', ''message'']))
      | _ \<Rightarrow> [])"

definition classify_provider_failure ::
  "(json \<Rightarrow> string) \<Rightarrow> string \<Rightarrow> int \<Rightarrow> (string \<times> string) list \<Rightarrow> json \<Rightarrow> provider_error_kind" where
  "classify_provider_failure repr provider status_code headers body =
     (if status_code = 401 then Bad_Key
      else if status_code = 400 then Bad_Request
      else if status_code = 503 \<or> status_code = 529 then Provider_Overloaded
      else if provider = ''anthropic'' \<and> status_code = 402 then Out_Of_Tokens
      else if provider = ''anthropic'' \<and> status_code = 429 then
        (if \<exists>(k, _) \<in> set headers. py_lower k = ''retry-after'' then Retryable_Rate_Limit else Out_Of_Tokens)
      else if provider = ''openai'' \<and> status_code = 429 then
        (let message = error_message repr body
         in if \<exists>marker \<in> set [''credit balance'', ''spend limit'', ''usage limit'', ''quota'']. contains marker message then Out_Of_Tokens
            else if contains ''rate limit'' message then Retryable_Rate_Limit
            else Unknown_Failure)
      else Unknown_Failure)"

definition is_retryable_kind :: "provider_error_kind \<Rightarrow> bool" where
  "is_retryable_kind kind \<longleftrightarrow> kind = Retryable_Rate_Limit"

record 'f stopped_early_review =
  se_findings :: "'f list"
  se_provider :: string
  se_reason :: string

definition stopped_early :: "'f list \<Rightarrow> string \<Rightarrow> string \<Rightarrow> 'f stopped_early_review" where
  "stopped_early findings provider reason = \<lparr>se_findings = findings, se_provider = provider, se_reason = reason\<rparr>"

definition summary_fields :: "'f stopped_early_review \<Rightarrow> json" where
  "summary_fields r = JObj [(''status'', JStr ''stopped_early''), (''stopped_early'', JBool True)]"

section \<open>Retries of provider calls\<close>

record retry_policy =
  rp_max_attempts :: int
  rp_max_elapsed_seconds :: rat
  rp_initial_delay_seconds :: rat
  rp_max_delay_seconds :: rat

definition make_retry_policy :: "int \<Rightarrow> rat \<Rightarrow> rat \<Rightarrow> rat \<Rightarrow> retry_policy result" where
  "make_retry_policy max_attempts max_elapsed initial_delay max_delay =
     (if max_attempts < 1 \<or> max_elapsed \<le> 0 \<or> initial_delay \<le> 0 \<or> max_delay \<le> 0 then Inl ValueError
      else Inr \<lparr>rp_max_attempts = max_attempts, rp_max_elapsed_seconds = max_elapsed,
                rp_initial_delay_seconds = initial_delay, rp_max_delay_seconds = max_delay\<rparr>)"

definition retry_delay :: "provider_failure \<Rightarrow> nat \<Rightarrow> retry_policy \<Rightarrow> rat" where
  "retry_delay failure attempt_number policy =
     (case pf_retry_after_seconds failure of
        Some r \<Rightarrow> r
      | None \<Rightarrow> min (rp_initial_delay_seconds policy * 2 ^ (attempt_number - 1)) (rp_max_delay_seconds policy))"

text \<open>The result is a failure (\<open>Inl\<close>) or a value (\<open>Inr\<close>), as \<open>RetryResult\<close> demands exactly one.\<close>

fun provider_attempts ::
  "retry_policy \<Rightarrow> ('w, provider_failure + 'a) act \<Rightarrow> ('w \<Rightarrow> rat) \<Rightarrow> (rat \<Rightarrow> ('w, unit) act) \<Rightarrow> rat \<Rightarrow> nat \<Rightarrow> nat \<Rightarrow>
   provider_failure option \<Rightarrow> ('w, provider_failure + 'a) act" where
  "provider_attempts policy attempt clock sleep started 0 k last_failure w = (Inl AssertionError, w)"
| "provider_attempts policy attempt clock sleep started (Suc n) k last_failure w =
     (if 1 < k \<and> rp_max_elapsed_seconds policy \<le> clock w - started then
        (case last_failure of None \<Rightarrow> (Inl AssertionError, w) | Some f \<Rightarrow> (Inr (Inl f), w))
      else case attempt w of
        (Inl e, w1) \<Rightarrow> (Inl e, w1)
      | (Inr (Inr x), w1) \<Rightarrow> (Inr (Inr x), w1)
      | (Inr (Inl f), w1) \<Rightarrow>
          if \<not> is_retryable_kind (pf_kind f) \<or> n = 0 then (Inr (Inl f), w1)
          else let remaining = rp_max_elapsed_seconds policy - (clock w1 - started);
                   delay = retry_delay f k policy
               in if remaining \<le> 0 \<or> remaining < delay then (Inr (Inl f), w1)
                  else (case sleep delay w1 of
                          (Inl e, w2) \<Rightarrow> (Inl e, w2)
                        | (Inr _, w2) \<Rightarrow> provider_attempts policy attempt clock sleep started n (Suc k) (Some f) w2))"

definition retry_provider_call ::
  "retry_policy \<Rightarrow> ('w, provider_failure + 'a) act \<Rightarrow> ('w \<Rightarrow> rat) \<Rightarrow> (rat \<Rightarrow> ('w, unit) act) \<Rightarrow> ('w, provider_failure + 'a) act" where
  "retry_provider_call policy attempt clock sleep w =
     provider_attempts policy attempt clock sleep (clock w) (nat (rp_max_attempts policy)) 1 None w"

section \<open>Circuits\<close>

datatype circuit_state_name = Circuit_Closed | Circuit_Open | Circuit_Half_Open

record circuit_snapshot =
  cs_connector :: string
  cs_state :: circuit_state_name
  cs_consecutive_failures :: int
  cs_probe_after_monotonic :: "rat option"

definition load_or_unknown :: "string \<Rightarrow> circuit_snapshot option result \<Rightarrow> circuit_snapshot option result" where
  "load_or_unknown connector loaded =
     (case loaded of
        Inl e \<Rightarrow> if e = Exception_Of ''CircuitStateUnreadable''
          then Inr (Some \<lparr>cs_connector = connector, cs_state = Circuit_Open, cs_consecutive_failures = 0, cs_probe_after_monotonic = None\<rparr>)
          else Inl e
      | Inr s \<Rightarrow> Inr s)"

definition allow_call :: "circuit_snapshot option \<Rightarrow> rat \<Rightarrow> bool" where
  "allow_call snapshot now =
     (case snapshot of
        None \<Rightarrow> True
      | Some s \<Rightarrow>
          if cs_state s = Circuit_Closed \<or> cs_state s = Circuit_Half_Open then True
          else (case cs_probe_after_monotonic s of None \<Rightarrow> False | Some t \<Rightarrow> t \<le> now))"

definition seconds_until_probe :: "circuit_snapshot \<Rightarrow> rat \<Rightarrow> rat" where
  "seconds_until_probe s now =
     (case cs_probe_after_monotonic s of None \<Rightarrow> 0 | Some t \<Rightarrow> max 0 (t - now))"

lemma unreadable_circuit_denies:
  "load_or_unknown c (Inl (Exception_Of ''CircuitStateUnreadable'')) = Inr s \<Longrightarrow> \<not> allow_call s now"
  by (auto simp: load_or_unknown_def allow_call_def)

lemma open_circuit_probes:
  "cs_state s = Circuit_Open \<Longrightarrow> allow_call (Some s) now \<longleftrightarrow> cs_probe_after_monotonic s \<noteq> None \<and> seconds_until_probe s now = 0"
  by (auto simp: allow_call_def seconds_until_probe_def split: option.splits)

section \<open>What a retry may do\<close>

text \<open>Notes of the attempts and sleeps with the instant of the clock.\<close>

datatype retry_note = Attempted rat | Slept rat rat

definition noting_attempt :: "('w \<Rightarrow> rat) \<Rightarrow> ('w, 'a) act \<Rightarrow> (retry_note list \<times> 'w, 'a) act" where
  "noting_attempt clock m c = (case m (snd c) of (r, w') \<Rightarrow> (r, (fst c @ [Attempted (clock (snd c))], w')))"

definition noting_sleep :: "('w \<Rightarrow> rat) \<Rightarrow> (rat \<Rightarrow> ('w, unit) act) \<Rightarrow> rat \<Rightarrow> (retry_note list \<times> 'w, unit) act" where
  "noting_sleep clock sleep d c = (case sleep d (snd c) of (r, w') \<Rightarrow> (r, (fst c @ [Slept (clock (snd c)) d], w')))"

definition attempts_in :: "retry_note list \<Rightarrow> nat" where
  "attempts_in notes = length (filter (\<lambda>n. case n of Attempted _ \<Rightarrow> True | _ \<Rightarrow> False) notes)"

text \<open>Every attempt starts before the deadline and no sleep ends after it; no sleep is longer than the bound.\<close>

definition notes_before :: "rat \<Rightarrow> retry_note list \<Rightarrow> bool" where
  "notes_before deadline ns \<longleftrightarrow> (\<forall>n \<in> set ns. case n of Attempted t \<Rightarrow> t < deadline | Slept t d \<Rightarrow> t + d \<le> deadline)"

definition sleeps_at_most :: "rat \<Rightarrow> retry_note list \<Rightarrow> bool" where
  "sleeps_at_most longest ns \<longleftrightarrow> (\<forall>t d. Slept t d \<in> set ns \<longrightarrow> d \<le> longest)"

lemma retry_note_simps [simp]:
  "attempts_in [] = 0" "attempts_in (Attempted t # ns) = Suc (attempts_in ns)" "attempts_in (Slept t d # ns) = attempts_in ns"
  "notes_before D []" "notes_before D (Attempted t # ns) \<longleftrightarrow> t < D \<and> notes_before D ns"
  "notes_before D (Slept t d # ns) \<longleftrightarrow> t + d \<le> D \<and> notes_before D ns"
  "sleeps_at_most L []" "sleeps_at_most L (Attempted t # ns) \<longleftrightarrow> sleeps_at_most L ns"
  "sleeps_at_most L (Slept t d # ns) \<longleftrightarrow> d \<le> L \<and> sleeps_at_most L ns"
  by (auto simp: attempts_in_def notes_before_def sleeps_at_most_def)

lemma noting_eval:
  "noting_attempt clock m (ns, w) = (case m w of (r, w') \<Rightarrow> (r, (ns @ [Attempted (clock w)], w')))"
  "noting_sleep clock sleep d (ns, w) = (case sleep d w of (r, w') \<Rightarrow> (r, (ns @ [Slept (clock w) d], w')))"
  by (simp_all add: noting_attempt_def noting_sleep_def)

definition noting_env :: "('w, 'a) retry_env \<Rightarrow> (retry_note list \<times> 'w, 'a) retry_env" where
  "noting_env env =
     \<lparr>re_operation = noting_attempt (re_clock env) (re_operation env), re_is_retryable = re_is_retryable env,
      re_deadline = re_deadline env, re_clock = (\<lambda>c. re_clock env (snd c)), re_sleep = noting_sleep (re_clock env) (re_sleep env),
      re_base_seconds = re_base_seconds env, re_cap_seconds = re_cap_seconds env,
      re_rng = (\<lambda>c. case re_rng env (snd c) of (s, w') \<Rightarrow> (s, (fst c, w'))), re_retry_after = re_retry_after env\<rparr>"

lemma noting_env_simps [simp]:
  "re_operation (noting_env env) = noting_attempt (re_clock env) (re_operation env)"
  "re_is_retryable (noting_env env) = re_is_retryable env" "re_deadline (noting_env env) = re_deadline env"
  "re_clock (noting_env env) c = re_clock env (snd c)" "re_sleep (noting_env env) = noting_sleep (re_clock env) (re_sleep env)"
  by (simp_all add: noting_env_def)

lemma next_backoff_bound:
  assumes "0 \<le> base" "0 \<le> cap" "0 \<le> s" "s \<le> 1"
  shows "next_backoff k base cap r s backoff_jitter \<le> 11 / 10 * cap" "0 \<le> next_backoff k base cap r s backoff_jitter"
proof -
  have f: "1 - backoff_jitter + 2 * backoff_jitter * s \<le> 11 / 10" "0 \<le> 1 - backoff_jitter + 2 * backoff_jitter * s"
    using assms by (simp_all add: backoff_jitter_def)
  have m: "0 \<le> min cap (base * 2 ^ k)" "min cap (base * 2 ^ k) \<le> cap" using assms by simp_all
  have "min cap (base * 2 ^ k) * (1 - backoff_jitter + 2 * backoff_jitter * s) \<le> cap * (11 / 10)"
    using f m assms(2) by (intro mult_mono)
  moreover have "0 \<le> min cap (base * 2 ^ k) * (1 - backoff_jitter + 2 * backoff_jitter * s)"
    using f m by (intro mult_nonneg_nonneg)
  ultimately
  show "next_backoff k base cap r s backoff_jitter \<le> 11 / 10 * cap" "0 \<le> next_backoff k base cap r s backoff_jitter"
    using assms by (auto simp: next_backoff_def mult.commute split: option.splits)
qed

definition sample_range :: "('w, 'a) retry_env \<Rightarrow> bool" where
  "sample_range env \<longleftrightarrow> 0 \<le> re_base_seconds env \<and> 0 \<le> re_cap_seconds env \<and> (\<forall>w. 0 \<le> fst (re_rng env w) \<and> fst (re_rng env w) \<le> 1)"

lemma noted_delay:
  assumes "sample_range env" "retry_delay_after (noting_env env) k e (ns, w) = (d, c')"
  shows "d \<le> 11 / 10 * re_cap_seconds env \<and> (\<exists>w'. c' = (ns, w'))"
proof (cases "re_retry_after env e")
  case None
  obtain s w' where s: "re_rng env w = (s, w')" by (metis surj_pair)
  then have "0 \<le> s" "s \<le> 1" using assms(1) unfolding sample_range_def by (metis fst_conv)+
  then show ?thesis using assms None s next_backoff_bound(1) [of "re_base_seconds env" "re_cap_seconds env" s k None]
    by (auto simp: retry_delay_after_def noting_env_def sample_range_def)
next
  case (Some r)
  then show ?thesis using assms next_backoff_bound(1) [of "re_base_seconds env" "re_cap_seconds env" 0 k "Some r"]
    by (auto simp: retry_delay_after_def noting_env_def sample_range_def)
qed

lemma retry_notes:
  assumes "sample_range env"
  shows "retry_attempts (noting_env env) n k (ns, w) = (r, (ns', w')) \<Longrightarrow>
    \<exists>new. ns' = ns @ new \<and> attempts_in new \<le> n \<and> notes_before (re_deadline env) new \<and> sleeps_at_most (11 / 10 * re_cap_seconds env) new"
proof (induction n arbitrary: k ns w)
  case 0
  then show ?case by simp
next
  case (Suc n)
  show ?case
  proof (cases "re_deadline env \<le> re_clock env w")
    case True
    then show ?thesis using Suc.prems by simp
  next
    case early: False
    obtain q w1 where q: "re_operation env w = (q, w1)" by (metis surj_pair)
    let ?one = "ns @ [Attempted (re_clock env w)]"
    obtain d c2 where d: "retry_delay_after (noting_env env) k (projl q) (?one, w1) = (d, c2)" by (metis surj_pair)
    obtain w2 where c2: "c2 = (?one, w2)" "d \<le> 11 / 10 * re_cap_seconds env" using noted_delay [OF assms d] by blast
    obtain s w3 where s: "re_sleep env d w2 = (s, w3)" by (metis surj_pair)
    show ?thesis
    proof (cases "\<exists>e. q = Inl e \<and> re_is_retryable env e \<and> n \<noteq> 0 \<and> d \<le> re_deadline env - re_clock env w2")
      case False
      then have "ns' = ?one" using Suc.prems early q d c2
        by (cases q) (auto simp: noting_eval not_less split: if_splits)
      then show ?thesis using early by (intro exI [of _ "[Attempted (re_clock env w)]"]) auto
    next
      case True
      then obtain e where e: "q = Inl e" "re_is_retryable env e" "n \<noteq> 0" "d \<le> re_deadline env - re_clock env w2" by blast
      let ?two = "?one @ [Slept (re_clock env w2) d]"
      show ?thesis
      proof (cases s)
        case (Inl err)
        then have "ns' = ?two" using Suc.prems early q d c2 e s
          by (auto simp: noting_eval not_less)
        then show ?thesis using early e c2
          by (intro exI [of _ "[Attempted (re_clock env w), Slept (re_clock env w2) d]"]) auto
      next
        case (Inr u)
        then have "retry_attempts (noting_env env) n (Suc k) (?two, w3) = (r, (ns', w'))" using Suc.prems early q d c2 e s
          by (auto simp: noting_eval not_less)
        from Suc.IH [OF this] obtain new where "ns' = ?two @ new" "attempts_in new \<le> n"
          "notes_before (re_deadline env) new \<and> sleeps_at_most (11 / 10 * re_cap_seconds env) new" by blast
        then show ?thesis using early e c2
          by (intro exI [of _ "Attempted (re_clock env w) # Slept (re_clock env w2) d # new"]) auto
      qed
    qed
  qed
qed

text \<open>The provider loop: its deadline is its start plus the elapsed bound of the policy; a sleep is never longer
  than what is left.\<close>

lemma provider_notes:
  "provider_attempts policy (noting_attempt clock attempt) (\<lambda>c. clock (snd c)) (noting_sleep clock sleep) started n k prev (ns, w) =
     (r, (ns', w')) \<Longrightarrow> 0 < k \<Longrightarrow> 1 < k \<or> clock w - started < rp_max_elapsed_seconds policy \<Longrightarrow>
   \<exists>new. ns' = ns @ new \<and> attempts_in new \<le> n \<and> notes_before (started + rp_max_elapsed_seconds policy) new"
proof (induction n arbitrary: k prev ns w)
  case 0
  then show ?case by simp
next
  case (Suc n)
  let ?D = "started + rp_max_elapsed_seconds policy"
  show ?case
  proof (cases "1 < k \<and> rp_max_elapsed_seconds policy \<le> clock w - started")
    case True
    then show ?thesis using Suc.prems(1) by (cases prev) auto
  next
    case early: False
    then have t: "clock w < ?D" using Suc.prems(3) by auto
    obtain q w1 where q: "attempt w = (q, w1)" by (metis surj_pair)
    let ?one = "ns @ [Attempted (clock w)]"
    show ?thesis
    proof (cases "\<exists>f. q = Inr (Inl f) \<and> is_retryable_kind (pf_kind f) \<and> n \<noteq> 0 \<and>
        \<not> (rp_max_elapsed_seconds policy - (clock w1 - started) \<le> 0 \<or> rp_max_elapsed_seconds policy - (clock w1 - started) < retry_delay f k policy)")
      case False
      then have "ns' = ?one" using Suc.prems(1) early q
        by (auto simp: noting_eval Let_def split: sum.splits if_splits)
      then show ?thesis using t by (intro exI [of _ "[Attempted (clock w)]"]) auto
    next
      case True
      then obtain f where f: "q = Inr (Inl f)" "is_retryable_kind (pf_kind f)" "n \<noteq> 0"
        "0 < rp_max_elapsed_seconds policy - (clock w1 - started)"
        "retry_delay f k policy \<le> rp_max_elapsed_seconds policy - (clock w1 - started)" by auto
      let ?d = "retry_delay f k policy"
      obtain s w2 where s: "sleep ?d w1 = (s, w2)" by (metis surj_pair)
      let ?two = "?one @ [Slept (clock w1) ?d]"
      show ?thesis
      proof (cases s)
        case (Inl err)
        then have "ns' = ?two" using Suc.prems(1) early q f s
          by (auto simp: noting_eval Let_def)
        then show ?thesis using t f by (intro exI [of _ "[Attempted (clock w), Slept (clock w1) ?d]"]) (auto simp: algebra_simps)
      next
        case (Inr u)
        then have "provider_attempts policy (noting_attempt clock attempt) (\<lambda>c. clock (snd c)) (noting_sleep clock sleep) started n (Suc k) (Some f)
            (?two, w2) = (r, (ns', w'))" using Suc.prems(1) early q f s
          by (auto simp: noting_eval Let_def)
        from Suc.IH [OF this] Suc.prems(2) obtain new where "ns' = ?two @ new" "attempts_in new \<le> n" "notes_before ?D new" by auto
        then show ?thesis using t f by (intro exI [of _ "Attempted (clock w) # Slept (clock w1) ?d # new"]) (auto simp: algebra_simps)
      qed
    qed
  qed
qed

text \<open>The jitter is applied after the cap.\<close>

lemma jitter_exceeds_cap: "next_backoff 10 (1 / 2) 30 None 1 backoff_jitter = 33"
  by (simp add: next_backoff_def backoff_jitter_def)

section \<open>Properties\<close>

text \<open>C28. Both retry loops keep to their limits whatever the operation and the clock do.  \<open>run_with_retry\<close> makes
  at most the given number of attempts, starts none at or after the deadline, and never sleeps past it or for
  more than a tenth above the cap (the jitter comes after the cap); \<open>retry_provider_call\<close> under a valid policy makes
  at most its number of attempts, none of them later than the elapsed bound after its start, and never sleeps
  past that bound.\<close>

theorem retries_stay_within_limits:
  "(sample_range env \<and> run_with_retry (noting_env env) max_attempts ([], w) = (r, (ns, w')) \<longrightarrow>
     attempts_in ns \<le> max_attempts \<and> notes_before (re_deadline env) ns \<and> sleeps_at_most (11 / 10 * re_cap_seconds env) ns) \<and>
   (make_retry_policy m elapsed initial longest = Inr policy \<and>
    retry_provider_call policy (noting_attempt clock attempt) (\<lambda>c. clock (snd c)) (noting_sleep clock sleep) ([], v) = (q, (ns2, v')) \<longrightarrow>
     attempts_in ns2 \<le> nat m \<and> notes_before (clock v + elapsed) ns2)"
proof (intro conjI impI; elim conjE)
  assume "sample_range env" "run_with_retry (noting_env env) max_attempts ([], w) = (r, (ns, w'))"
  then show "attempts_in ns \<le> max_attempts" "notes_before (re_deadline env) ns" "sleeps_at_most (11 / 10 * re_cap_seconds env) ns"
    using retry_notes [of env max_attempts 0 "[]" w r ns w'] by (simp_all add: run_with_retry_def)
next
  assume p: "make_retry_policy m elapsed initial longest = Inr policy"
    and run: "retry_provider_call policy (noting_attempt clock attempt) (\<lambda>c. clock (snd c)) (noting_sleep clock sleep) ([], v) = (q, (ns2, v'))"
  then have "rp_max_attempts policy = m" "rp_max_elapsed_seconds policy = elapsed" "0 < elapsed"
    by (auto simp: make_retry_policy_def split: if_splits)
  with provider_notes [OF run [unfolded retry_provider_call_def]]
  show "attempts_in ns2 \<le> nat m" "notes_before (clock v + elapsed) ns2" by simp_all
qed

text \<open>An operation that fails once; the world is the clock.\<close>

definition flaky_env :: "(rat, nat) retry_env" where
  "flaky_env =
     \<lparr>re_operation = (\<lambda>w. if w < 1 then (Inl TransportError, w) else (Inr 7, w)), re_is_retryable = (\<lambda>e. e = TransportError),
      re_deadline = 60, re_clock = id, re_sleep = (\<lambda>d w. (Inr (), w + d)), re_base_seconds = 1, re_cap_seconds = 30,
      re_rng = (\<lambda>w. (1, w)), re_retry_after = (\<lambda>_. None)\<rparr>"

theorem retries_stay_within_limits_witness:
  "\<exists>ns. run_with_retry (noting_env flaky_env) 5 ([], 0) = (Inr 7, (ns, 11 / 10)) \<and> attempts_in ns \<le> 5 \<and> notes_before 60 ns"
proof -
  have "sample_range flaky_env" by (simp add: sample_range_def flaky_env_def)
  moreover have run: "run_with_retry (noting_env flaky_env) 5 ([], 0) = (Inr 7, ([Attempted 0, Slept 0 (11 / 10), Attempted (11 / 10)], 11 / 10))"
    by (simp add: run_with_retry_def eval_nat_numeral noting_env_def flaky_env_def noting_eval retry_delay_after_def next_backoff_def backoff_jitter_def)
  ultimately show ?thesis using retries_stay_within_limits [of flaky_env 5 0 "Inr 7"] by (auto simp: flaky_env_def)
qed

end
