(* ===== verification/Model_Calls.thy ===== *)
theory Model_Calls
  imports Diff_Review
begin

text \<open>
  The model adapters: \<^verbatim>\<open>models/provider.py\<close>, \<^verbatim>\<open>models/providers.py\<close>, \<^verbatim>\<open>models/openai_provider.py\<close>,
  \<^verbatim>\<open>models/anthropic_provider.py\<close> and the catalogue \<^verbatim>\<open>models/catalogue.py\<close>.  The HTTP client acts on a world that the
  clock reads; the JSON decoder and encoder, the digest and the validation of a \<open>FindingCandidate\<close> are
  parameters.  The price of a call is kept in units of \<open>10\<^sup>-\<^sup>8\<close> dollars, exact for the decimal prices of the table
  (the 28 digits of the decimal context are never used up).
\<close>

section \<open>Requests and responses\<close>

record full_model_request = model_request +
  mr_untrusted_inputs :: "(string \<times> string) list"

definition request_ok :: "'a full_model_request_scheme \<Rightarrow> bool" where
  "request_ok r \<longleftrightarrow> mr_model r \<noteq> [] \<and> mr_prompt_name r \<noteq> [] \<and> mr_prompt_version r \<noteq> [] \<and> mr_prompt_content r \<noteq> [] \<and>
     mr_schema_name r \<noteq> [] \<and> 0 < mr_timeout_seconds r \<and> 0 < mr_max_output_tokens r \<and>
     (\<forall>(name, _) \<in> set (mr_untrusted_inputs r). name \<noteq> [])"

record model_response =
  ms_parsed :: json
  ms_output_hash :: string
  ms_provider_request_id :: "string option"
  ms_provider :: string
  ms_model :: string
  ms_prompt_name :: string
  ms_prompt_version :: string
  ms_input_tokens :: int
  ms_output_tokens :: int
  ms_cost_usd :: string
  ms_latency_ms :: int

definition response_ok :: "model_response \<Rightarrow> bool" where
  "response_ok r \<longleftrightarrow> length (ms_output_hash r) = 64 \<and> 0 \<le> ms_input_tokens r \<and> 0 \<le> ms_output_tokens r \<and> 0 \<le> ms_latency_ms r"

abbreviation ModelTimeout :: py_exn where "ModelTimeout \<equiv> Exception_Of ''ModelTimeout''"
abbreviation InvalidModelJson :: py_exn where "InvalidModelJson \<equiv> Exception_Of ''InvalidModelJson''"
abbreviation ModelSchemaMismatch :: py_exn where "ModelSchemaMismatch \<equiv> Exception_Of ''ModelSchemaMismatch''"
abbreviation ModelContextLimit :: py_exn where "ModelContextLimit \<equiv> Exception_Of ''ModelContextLimit''"
abbreviation ModelRateLimit :: py_exn where "ModelRateLimit \<equiv> Exception_Of ''ModelRateLimit''"
abbreviation ModelProviderFailure :: py_exn where "ModelProviderFailure \<equiv> Exception_Of ''ModelProviderFailure''"
abbreviation ModelKeyInvalid :: py_exn where "ModelKeyInvalid \<equiv> Exception_Of ''ModelKeyInvalid''"

fun quote_all :: "(string \<times> string) list \<Rightarrow> string list result" where
  "quote_all [] = Inr []"
| "quote_all ((name, content) # blocks) =
     bind_r (wrap_untrusted name (UntrustedText content)) (\<lambda>q. bind_r (quote_all blocks) (\<lambda>qs. Inr (q # qs)))"

definition render_untrusted_user_message :: "'a full_model_request_scheme \<Rightarrow> string result" where
  "render_untrusted_user_message r = bind_r (quote_all (mr_untrusted_inputs r)) (\<lambda>qs. Inr (py_join [newline, newline] qs))"

definition model_call_ledger_fields :: "model_response \<Rightarrow> json" where
  "model_call_ledger_fields r =
     JObj [(''provider'', JStr (ms_provider r)), (''model'', JStr (ms_model r)), (''input_tokens'', JInt (ms_input_tokens r)),
           (''output_tokens'', JInt (ms_output_tokens r)), (''cost_usd'', JStr (ms_cost_usd r)), (''latency_ms'', JInt (ms_latency_ms r)),
           (''output_hash'', JStr (ms_output_hash r)),
           (''provider_request_id'', case ms_provider_request_id r of None \<Rightarrow> JNull | Some i \<Rightarrow> JStr i),
           (''prompt_name'', JStr (ms_prompt_name r)), (''prompt_version'', JStr (ms_prompt_version r))]"

section \<open>Prices\<close>

text \<open>Prices per million tokens of input and output, in cents: \<open>10\<^sup>-\<^sup>8\<close> dollars per token.\<close>

definition price_per_million :: "((string \<times> string) \<times> (int \<times> int)) list" where
  "price_per_million =
     [((''openai'', ''gpt-4o-mini''), (15, 60)), ((''anthropic'', ''claude-3-5-haiku-latest''), (80, 400))]"

definition cost_units :: "string \<Rightarrow> string \<Rightarrow> int \<Rightarrow> int \<Rightarrow> int option" where
  "cost_units provider model input_tokens output_tokens =
     map_option (\<lambda>(i, out). i * input_tokens + out * output_tokens) (map_of price_per_million (provider, model))"

definition strip_zeros :: "string \<Rightarrow> string" where
  "strip_zeros s = rev (dropWhile (\<lambda>c. c = CHR ''0'') (rev s))"

fun fixed_digits :: "nat \<Rightarrow> nat \<Rightarrow> string" where
  "fixed_digits 0 n = []"
| "fixed_digits (Suc k) n = fixed_digits k (n div 10) @ [digit_char (n mod 10)]"

text \<open>The positional text without trailing zeros, and without a point when no decimals are left.\<close>

definition usd_text :: "int \<Rightarrow> string" where
  "usd_text units =
     (let n = nat \<bar>units\<bar>; decimals = strip_zeros (fixed_digits 8 (n mod 100000000))
      in (if units < 0 then ''-'' else []) @ show_nat (n div 100000000) @ (if decimals = [] then [] else CHR ''.'' # decimals))"

definition cost_usd_for :: "string \<Rightarrow> string \<Rightarrow> int \<Rightarrow> int \<Rightarrow> string result" where
  "cost_usd_for provider model input_tokens output_tokens =
     (case cost_units provider model input_tokens output_tokens of
        None \<Rightarrow> Inl ModelProviderFailure
      | Some units \<Rightarrow> Inr (usd_text units))"

section \<open>Completion\<close>

record completion_env =
  ce_loads :: "string \<Rightarrow> json result"
  ce_dumps :: "json \<Rightarrow> string"
  ce_sha256 :: "string \<Rightarrow> string"
  ce_valid_candidate :: "json \<Rightarrow> bool"
  ce_repr :: "json \<Rightarrow> string"

fun is_list :: "json \<Rightarrow> bool" where
  "is_list (JArr _) = True"
| "is_list _ = False"

definition matches_schema :: "completion_env \<Rightarrow> string \<Rightarrow> json \<Rightarrow> bool" where
  "matches_schema env schema parsed \<longleftrightarrow>
     (if schema = ''FindingCandidate'' then ce_valid_candidate env parsed
      else schema = ''ReviewFindingsDraft'' \<and> is_list (json_get parsed ''findings''))"

definition finish_completion ::
  "completion_env \<Rightarrow> string \<Rightarrow> 'a full_model_request_scheme \<Rightarrow> string \<Rightarrow> int \<Rightarrow> int \<Rightarrow> string option \<Rightarrow> int \<Rightarrow> model_response result" where
  "finish_completion env vendor request content input_tokens output_tokens provider_request_id latency_ms =
     (case ce_loads env content of
        Inl _ \<Rightarrow> Inl InvalidModelJson
      | Inr parsed \<Rightarrow>
          if \<not> is_obj parsed then Inl InvalidModelJson
          else if \<not> matches_schema env (mr_schema_name request) parsed then Inl ModelSchemaMismatch
          else bind_r (cost_usd_for vendor (mr_model request) input_tokens output_tokens) (\<lambda>cost.
            let r = \<lparr>ms_parsed = parsed, ms_output_hash = ce_sha256 env (ce_dumps env parsed), ms_provider_request_id = provider_request_id,
                     ms_provider = vendor, ms_model = mr_model request, ms_prompt_name = mr_prompt_name request,
                     ms_prompt_version = mr_prompt_version request, ms_input_tokens = input_tokens, ms_output_tokens = output_tokens,
                     ms_cost_usd = cost, ms_latency_ms = latency_ms\<rparr>
            in if response_ok r then Inr r else Inl ValueError))"

record http_reply =
  hr_status_code :: int
  hr_json :: "json result"

definition raise_for_provider_status :: "(json \<Rightarrow> string) \<Rightarrow> http_reply \<Rightarrow> unit result" where
  "raise_for_provider_status repr response =
     (if hr_status_code response = 200 then Inr ()
      else if hr_status_code response = 429 then Inl ModelRateLimit
      else let payload = (case hr_json response of Inl _ \<Rightarrow> JObj [] | Inr p \<Rightarrow> p);
               err = json_get payload ''error'';
               field = (\<lambda>k. if is_obj err \<and> json_truthy (json_get err k) then py_str repr (json_get err k) else [])
           in if hr_status_code response = 400 \<and>
                 (field ''code'' = ''context_length_exceeded'' \<or> contains ''too long'' (py_lower (field ''message'')))
              then Inl ModelContextLimit else Inl ModelProviderFailure)"

section \<open>The adapters\<close>

definition provider_auth_headers :: "string \<Rightarrow> string \<Rightarrow> (string \<times> string) list" where
  "provider_auth_headers provider api_key =
     (if provider = ''openai'' then [(''authorization'', ''Bearer '' @ api_key)]
      else [(''x-api-key'', api_key), (''anthropic-version'', ''2023-06-01'')])"

type_synonym 'w provider_post = "string \<Rightarrow> json \<Rightarrow> (string \<times> string) list \<Rightarrow> ('w, http_reply) act"

definition message :: "string \<Rightarrow> string \<Rightarrow> json" where
  "message role content = JObj [(''role'', JStr role), (''content'', JStr content)]"

definition openai_body :: "'a full_model_request_scheme \<Rightarrow> string \<Rightarrow> json" where
  "openai_body request user =
     JObj [(''model'', JStr (mr_model request)), (''max_tokens'', JInt (mr_max_output_tokens request)),
           (''response_format'', JObj [(''type'', JStr ''json_object'')]),
           (''messages'', JArr [message ''system'' (mr_prompt_content request), message ''user'' user])]"

definition anthropic_body :: "'a full_model_request_scheme \<Rightarrow> string \<Rightarrow> json" where
  "anthropic_body request user =
     JObj [(''model'', JStr (mr_model request)), (''max_tokens'', JInt (mr_max_output_tokens request)),
           (''system'', JStr (mr_prompt_content request)), (''messages'', JArr [message ''user'' user])]"

text \<open>\<open>payload[0]\<close>: everything but a non-empty list ends in an error that the caller classifies alike.\<close>

fun json_first :: "json \<Rightarrow> json result" where
  "json_first (JArr (v # _)) = Inr v"
| "json_first _ = Inl TypeError"

definition openai_content :: "json \<Rightarrow> json result" where
  "openai_content payload =
     bind_r (json_item payload ''choices'') (\<lambda>choices. bind_r (json_first choices) (\<lambda>choice.
     bind_r (json_item choice ''message'') (\<lambda>m. json_item m ''content'')))"

definition anthropic_content :: "json \<Rightarrow> json result" where
  "anthropic_content payload =
     bind_r (json_item payload ''content'') (\<lambda>blocks. bind_r (json_first blocks) (\<lambda>block. json_item block ''text''))"

text \<open>\<open>usage = payload.get("usage") or {}\<close>, then \<open>int(usage.get(name, 0))\<close>.\<close>

definition usage_count :: "json \<Rightarrow> string \<Rightarrow> int result" where
  "usage_count payload name =
     (let usage = json_get payload ''usage''
      in if \<not> json_truthy usage then Inr 0
         else case usage of
           JObj kvs \<Rightarrow> (case map_of kvs name of None \<Rightarrow> Inr 0 | Some v \<Rightarrow> py_int v)
         | _ \<Rightarrow> Inl (Exception_Of ''AttributeError''))"

text \<open>The \<open>except\<close> clause of the adapters.\<close>

definition as_provider_failure :: "'a result \<Rightarrow> 'a result" where
  "as_provider_failure r =
     (case r of Inl e \<Rightarrow> if e \<in> {KeyError, TypeError, ValueError} then Inl ModelProviderFailure else Inl e | Inr x \<Rightarrow> Inr x)"

definition read_reply ::
  "completion_env \<Rightarrow> (json \<Rightarrow> json result) \<Rightarrow> string \<Rightarrow> string \<Rightarrow> json \<Rightarrow> (string \<times> int \<times> int \<times> string option) result" where
  "read_reply env content_of input_name output_name payload =
     as_provider_failure
       (bind_r (content_of payload) (\<lambda>content.
        bind_r (usage_count payload input_name) (\<lambda>input_tokens.
        bind_r (usage_count payload output_name) (\<lambda>output_tokens.
          Inr (py_str (ce_repr env) content, input_tokens, output_tokens,
               if json_get payload ''id'' = JNull then None else Some (py_str (ce_repr env) (json_get payload ''id'')))))))"

definition complete_json ::
  "completion_env \<Rightarrow> 'w provider_post \<Rightarrow> ('w \<Rightarrow> rat) \<Rightarrow> string \<Rightarrow> string \<Rightarrow> ('a full_model_request_scheme \<Rightarrow> string \<Rightarrow> json) \<Rightarrow>
   (json \<Rightarrow> json result) \<Rightarrow> string \<Rightarrow> string \<Rightarrow> string \<Rightarrow> 'a full_model_request_scheme \<Rightarrow> ('w, model_response) act" where
  "complete_json env post clock vendor path body content_of input_name output_name api_key request w =
     bind_a (lift_r (render_untrusted_user_message request)) (\<lambda>user.
     bind_a (\<lambda>w. case post path (body request user) (provider_auth_headers vendor api_key) w of
               (Inl e, w') \<Rightarrow> (Inl (if e = HttpTimeout then ModelTimeout else e), w')
             | (Inr reply, w') \<Rightarrow> (Inr reply, w')) (\<lambda>reply w'.
       (let latency_ms = max 0 (\<lfloor>(clock w' - clock w) * 1000\<rfloor>)
        in bind_r (raise_for_provider_status (ce_repr env) reply) (\<lambda>_.
           bind_r (hr_json reply) (\<lambda>payload.
           bind_r (read_reply env content_of input_name output_name payload) (\<lambda>(content, input_tokens, output_tokens, request_id).
             finish_completion env vendor request content input_tokens output_tokens request_id latency_ms))), w'))) w"

definition openai_complete_json ::
  "completion_env \<Rightarrow> 'w provider_post \<Rightarrow> ('w \<Rightarrow> rat) \<Rightarrow> string \<Rightarrow> 'a full_model_request_scheme \<Rightarrow> ('w, model_response) act" where
  "openai_complete_json env post clock =
     complete_json env post clock ''openai'' ''/v1/chat/completions'' openai_body openai_content ''prompt_tokens'' ''completion_tokens''"

definition anthropic_complete_json ::
  "completion_env \<Rightarrow> 'w provider_post \<Rightarrow> ('w \<Rightarrow> rat) \<Rightarrow> string \<Rightarrow> 'a full_model_request_scheme \<Rightarrow> ('w, model_response) act" where
  "anthropic_complete_json env post clock =
     complete_json env post clock ''anthropic'' ''/v1/messages'' anthropic_body anthropic_content ''input_tokens'' ''output_tokens''"

definition verify_provider_api_key :: "(string \<Rightarrow> (string \<times> string) list \<Rightarrow> ('w, http_reply) act) \<Rightarrow> string \<Rightarrow> string \<Rightarrow> ('w, unit) act" where
  "verify_provider_api_key get_url provider_id api_key =
     bind_a (get_url ''/v1/models'' (provider_auth_headers provider_id api_key)) (\<lambda>reply.
       if hr_status_code reply = 401 \<or> hr_status_code reply = 403 then raise_a ModelKeyInvalid
       else if hr_status_code reply \<noteq> 200 then raise_a ModelProviderFailure
       else return_a ())"

section \<open>The catalogue\<close>

definition catalogue :: "(string \<times> string list) list" where
  "catalogue =
     [(''openai'', [''gpt-4o-mini'', ''gpt-4o'', ''gpt-4.1-mini'', ''gpt-4.1'', ''o3-mini'']),
      (''anthropic'', [''claude-3-5-haiku-latest'', ''claude-3-5-sonnet-latest'', ''claude-3-7-sonnet-latest'',
         ''claude-sonnet-4-20250514'', ''claude-haiku-4-20250414''])]"

definition models_for :: "string \<Rightarrow> string list result" where
  "models_for provider_id = (case map_of catalogue provider_id of None \<Rightarrow> Inl KeyError | Some ms \<Rightarrow> Inr ms)"

definition is_known_provider_model :: "string \<Rightarrow> string \<Rightarrow> bool" where
  "is_known_provider_model provider_id model_id =
     (case models_for provider_id of Inl _ \<Rightarrow> False | Inr ms \<Rightarrow> model_id \<in> set ms)"

definition default_model_for :: "string \<Rightarrow> string result" where
  "default_model_for provider_id = bind_r (models_for provider_id) (\<lambda>ms. Inr (hd ms))"

section \<open>The text of a price\<close>

definition decimal_value :: "string \<Rightarrow> rat" where
  "decimal_value s =
     (let digits_before = takeWhile (\<lambda>c. c \<noteq> CHR ''.'') s; digits_after = drop 1 (dropWhile (\<lambda>c. c \<noteq> CHR ''.'') s)
      in of_nat (read_nat digits_before) + of_nat (read_nat digits_after) / 10 ^ length digits_after)"

lemma read_nat_append: "read_nat (a @ b) = read_nat a * 10 ^ length b + read_nat b"
proof (induction b rule: rev_induct)
  case (snoc c b)
  have "read_nat (a @ b @ [c]) = read_nat ((a @ b) @ [c])" by simp
  then show ?case using snoc by (simp add: read_nat_snoc del: append_assoc)
qed (simp add: read_nat_def)

lemma read_zeros: "read_nat (replicate k CHR ''0'') = 0"
  by (induction k) (simp_all add: read_nat_def digit_val_def)

lemma fixed_digits_props: "length (fixed_digits k n) = k" "read_nat (fixed_digits k n) = n mod 10 ^ k"
proof (induction k arbitrary: n)
  case 0
  { case 1 show ?case by simp next case 2 show ?case by (simp add: read_nat_def) }
next
  case (Suc k)
  { case 1 show ?case by (simp add: Suc) next case 2 show ?case by (simp add: Suc read_nat_snoc mod_mult2_eq) }
qed

lemma strip_zeros_split: "\<exists>k. s = strip_zeros s @ replicate k CHR ''0''"
proof -
  let ?z = "takeWhile (\<lambda>c. c = CHR ''0'') (rev s)"
  have "?z = replicate (length ?z) CHR ''0''" by (rule replicate_eqI) (auto dest: set_takeWhileD)
  then have "rev ?z = replicate (length ?z) CHR ''0''" by (metis rev_replicate)
  moreover have "rev (dropWhile (\<lambda>c. c = CHR ''0'') (rev s)) @ rev ?z = rev (?z @ dropWhile (\<lambda>c. c = CHR ''0'') (rev s))" by (simp del: takeWhile_dropWhile_id)
  then have "s = strip_zeros s @ rev ?z" unfolding strip_zeros_def by simp
  ultimately show ?thesis by metis
qed

lemma stripped_value: "rat_of_nat (read_nat (strip_zeros s)) / 10 ^ length (strip_zeros s) = of_nat (read_nat s) / 10 ^ length s"
proof -
  obtain k where k: "s = strip_zeros s @ replicate k CHR ''0''" using strip_zeros_split by blast
  have "read_nat s = read_nat (strip_zeros s) * 10 ^ k" by (subst k) (simp add: read_nat_append read_zeros)
  moreover have "length s = length (strip_zeros s) + k" by (subst k) simp
  ultimately show ?thesis by (simp add: power_add)
qed

lemma show_nat_no_point: "takeWhile (\<lambda>c. c \<noteq> CHR ''.'') (show_nat n @ CHR ''.'' # s) = show_nat n"
  "dropWhile (\<lambda>c. c \<noteq> CHR ''.'') (show_nat n @ CHR ''.'' # s) = CHR ''.'' # s"
  "takeWhile (\<lambda>c. c \<noteq> CHR ''.'') (show_nat n) = show_nat n" "dropWhile (\<lambda>c. c \<noteq> CHR ''.'') (show_nat n) = []"
proof -
  have "\<And>c. c \<in> set (show_nat n) \<Longrightarrow> c \<noteq> CHR ''.''" using show_nat_digits by (fastforce simp: is_digit_def)
  then show "takeWhile (\<lambda>c. c \<noteq> CHR ''.'') (show_nat n @ CHR ''.'' # s) = show_nat n"
    "dropWhile (\<lambda>c. c \<noteq> CHR ''.'') (show_nat n @ CHR ''.'' # s) = CHR ''.'' # s"
    "takeWhile (\<lambda>c. c \<noteq> CHR ''.'') (show_nat n) = show_nat n" "dropWhile (\<lambda>c. c \<noteq> CHR ''.'') (show_nat n) = []"
    by (simp_all add: takeWhile_append2 dropWhile_append2)
qed

lemma usd_text_value:
  assumes "0 \<le> units"
  shows "decimal_value (usd_text units) = of_int units / 100000000"
proof -
  let ?n = "nat units"
  let ?d = "strip_zeros (fixed_digits 8 (?n mod 100000000))"
  have f: "length (fixed_digits 8 (?n mod 100000000)) = 8" "read_nat (fixed_digits 8 (?n mod 100000000)) = ?n mod 100000000"
    by (simp_all only: fixed_digits_props) simp
  have d: "rat_of_nat (read_nat ?d) / 10 ^ length ?d = of_nat (?n mod 100000000) / 100000000"
    using stripped_value [of "fixed_digits 8 (?n mod 100000000)"] unfolding f by simp
  have split: "rat_of_nat (?n div 100000000) + of_nat (?n mod 100000000) / 100000000 = of_nat ?n / 100000000"
  proof -
    have "rat_of_nat ?n = of_nat (?n div 100000000 * 100000000 + ?n mod 100000000)" by (simp only: div_mult_mod_eq)
    then have "rat_of_nat ?n = of_nat (?n div 100000000) * 100000000 + of_nat (?n mod 100000000)"
      unfolding of_nat_add of_nat_mult of_nat_numeral .
    then show ?thesis by (simp add: field_simps)
  qed
  have "decimal_value (usd_text units) = rat_of_nat (?n div 100000000) + of_nat (read_nat ?d) / 10 ^ length ?d"
    using assms by (simp add: usd_text_def decimal_value_def Let_def show_nat_no_point read_nat_def [of "[]"])
  then show ?thesis unfolding d split using assms by (simp add: of_nat_nat)
qed

section \<open>Catalogue and prices\<close>

text \<open>Eight of the ten models that can be chosen have no price, so a call of them fails after it was paid for.\<close>

lemma catalogue_models_without_price:
  "filter (\<lambda>(p, m). cost_units p m 1 1 = None) (concat (map (\<lambda>(p, ms). map (Pair p) ms) catalogue)) =
     [(''openai'', ''gpt-4o''), (''openai'', ''gpt-4.1-mini''), (''openai'', ''gpt-4.1''), (''openai'', ''o3-mini''),
      (''anthropic'', ''claude-3-5-sonnet-latest''), (''anthropic'', ''claude-3-7-sonnet-latest''),
      (''anthropic'', ''claude-sonnet-4-20250514''), (''anthropic'', ''claude-haiku-4-20250414'')]"
  by code_simp

lemma unpriced_model_fails: "cost_units v (mr_model q) i out = None \<Longrightarrow> finish_completion env v q c i out rid ms \<noteq> Inr r"
proof -
  assume "cost_units v (mr_model q) i out = None"
  then have "cost_usd_for v (mr_model q) i out = Inl ModelProviderFailure" by (simp add: cost_usd_for_def)
  then show ?thesis by (auto simp: finish_completion_def split: sum.splits if_splits)
qed

lemma finish_completion_ok:
  assumes "finish_completion env vendor request content i out rid ms = Inr r"
  shows "ce_loads env content = Inr (ms_parsed r) \<and> is_obj (ms_parsed r) \<and> matches_schema env (mr_schema_name request) (ms_parsed r) \<and>
    ms_output_hash r = ce_sha256 env (ce_dumps env (ms_parsed r)) \<and> ms_provider r = vendor \<and> ms_model r = mr_model request \<and>
    ms_prompt_name r = mr_prompt_name request \<and> ms_prompt_version r = mr_prompt_version request \<and> ms_provider_request_id r = rid \<and>
    ms_input_tokens r = i \<and> ms_output_tokens r = out \<and> response_ok r \<and>
    (\<exists>p q. map_of price_per_million (vendor, mr_model request) = Some (p, q) \<and> ms_cost_usd r = usd_text (p * i + q * out))"
  using assms by (auto simp: finish_completion_def bind_r_Inr cost_usd_for_def cost_units_def Let_def split: sum.splits if_splits option.splits)

section \<open>Properties\<close>

text \<open>C29. A model call that returns is typed and priced: the provider answered 200 to one request built from the
  prompt and the quoted untrusted inputs; the parsed output is an object of the requested schema and the hash is
  that of its canonical text; model, prompt and version are those of the request; the token counts are those
  of the reply and not negative; and the recorded cost, read as a decimal number, is the price of exactly those
  tokens.\<close>

theorem model_call_typed_and_priced:
  assumes "complete_json env post clock vendor path body content_of input_name output_name key request w = (Inr r, w')"
  shows "\<exists>user reply payload content rid p q.
    render_untrusted_user_message request = Inr user \<and>
    post path (body request user) (provider_auth_headers vendor key) w = (Inr reply, w') \<and> hr_status_code reply = 200 \<and>
    hr_json reply = Inr payload \<and>
    read_reply env content_of input_name output_name payload = Inr (content, ms_input_tokens r, ms_output_tokens r, rid) \<and>
    ce_loads env content = Inr (ms_parsed r) \<and> is_obj (ms_parsed r) \<and> matches_schema env (mr_schema_name request) (ms_parsed r) \<and>
    ms_output_hash r = ce_sha256 env (ce_dumps env (ms_parsed r)) \<and> ms_model r = mr_model request \<and>
    ms_prompt_name r = mr_prompt_name request \<and> ms_prompt_version r = mr_prompt_version request \<and> response_ok r \<and>
    map_of price_per_million (vendor, mr_model request) = Some (p, q) \<and>
    decimal_value (ms_cost_usd r) = of_int (p * ms_input_tokens r + q * ms_output_tokens r) / 100000000"
proof -
  from assms obtain user where user: "render_untrusted_user_message request = Inr user"
    by (cases "render_untrusted_user_message request") (auto simp: complete_json_def act_simps lift_r_def)
  obtain x v where post: "post path (body request user) (provider_auth_headers vendor key) w = (x, v)" by (metis surj_pair)
  with assms user obtain reply where reply: "x = Inr reply" by (cases x) (auto simp: complete_json_def act_simps lift_r_def)
  from assms user post reply obtain payload content i out rid ms where
    steps: "v = w'" "raise_for_provider_status (ce_repr env) reply = Inr ()" "hr_json reply = Inr payload"
      "read_reply env content_of input_name output_name payload = Inr (content, i, out, rid)"
      "finish_completion env vendor request content i out rid ms = Inr r"
    by (auto simp: complete_json_def act_simps lift_r_def bind_r_Inr Let_def)
  have "hr_status_code reply = 200" using steps(2) by (auto simp: raise_for_provider_status_def Let_def split: if_splits)
  from finish_completion_ok [OF steps(5)] obtain p q where f: "map_of price_per_million (vendor, mr_model request) = Some (p, q)"
    "ms_cost_usd r = usd_text (p * i + q * out)" "ms_input_tokens r = i" "ms_output_tokens r = out" "response_ok r" by blast
  have "0 \<le> p \<and> 0 \<le> q" using f(1) by (auto simp: price_per_million_def split: if_splits)
  moreover have "0 \<le> i" "0 \<le> out" using f(3-5) by (auto simp: response_ok_def)
  ultimately have "decimal_value (ms_cost_usd r) = of_int (p * ms_input_tokens r + q * ms_output_tokens r) / 100000000"
    unfolding f(2-4) by (intro usd_text_value) simp
  with finish_completion_ok [OF steps(5)] user post reply steps f(1, 3, 4) \<open>hr_status_code reply = 200\<close> show ?thesis by blast
qed

definition sample_env :: completion_env where
  "sample_env = \<lparr>ce_loads = (\<lambda>_. Inr (JObj [(''findings'', JArr [])])), ce_dumps = (\<lambda>_. []), ce_sha256 = (\<lambda>_. replicate 64 CHR ''a''),
     ce_valid_candidate = (\<lambda>_. True), ce_repr = (\<lambda>_. [])\<rparr>"

definition sample_request :: full_model_request where
  "sample_request = \<lparr>mr_model = ''gpt-4o-mini'', mr_prompt_name = ''p'', mr_prompt_version = ''1'', mr_prompt_content = ''c'',
     mr_schema_name = ''ReviewFindingsDraft'', mr_timeout_seconds = 60, mr_max_output_tokens = 9, mr_untrusted_inputs = []\<rparr>"

definition sample_post :: "nat provider_post" where
  "sample_post path body headers w =
     (Inr \<lparr>hr_status_code = 200, hr_json = Inr (JObj [
        (''choices'', JArr [JObj [(''message'', JObj [(''content'', JStr ''{}'')])]]),
        (''usage'', JObj [(''prompt_tokens'', JInt 1000), (''completion_tokens'', JInt 10)])])\<rparr>, w)"

lemma sample_digits: "digit_char 0 = CHR ''0''" "digit_char 1 = CHR ''1''" "digit_char (Suc 0) = CHR ''1''" "digit_char 5 = CHR ''5''" "digit_char 6 = CHR ''6''"
  by code_simp+

lemma sample_price: "usd_text 15600 = ''0.000156''"
proof -
  have "fixed_digits (Suc (Suc (Suc (Suc (Suc (Suc (Suc (Suc 0)))))))) 15600 = ''00015600''" by (simp add: sample_digits)
  then have "fixed_digits 8 15600 = ''00015600''" by (simp only: numeral_nat One_nat_def)
  then show ?thesis by (simp add: usd_text_def strip_zeros_def show_nat.simps [of 0] sample_digits)
qed

theorem model_call_typed_and_priced_witness:
  "\<exists>r. openai_complete_json sample_env sample_post (\<lambda>_. 0) ''k'' sample_request 0 = (Inr r, 0) \<and>
     ms_cost_usd r = ''0.000156'' \<and> decimal_value (ms_cost_usd r) = 15600 / 100000000"
proof -
  have ex: "\<exists>r. openai_complete_json sample_env sample_post (\<lambda>_. 0) ''k'' sample_request 0 = (Inr r, 0) \<and>
      ms_cost_usd r = ''0.000156'' \<and> ms_input_tokens r = 1000 \<and> ms_output_tokens r = 10"
    by (simp add: openai_complete_json_def complete_json_def act_simps lift_r_def render_untrusted_user_message_def sample_request_def
        sample_post_def sample_env_def raise_for_provider_status_def read_reply_def as_provider_failure_def openai_content_def
        usage_count_def finish_completion_def matches_schema_def cost_usd_for_def cost_units_def price_per_million_def
        response_ok_def Let_def sample_price)
  then obtain r where r: "openai_complete_json sample_env sample_post (\<lambda>_. 0) ''k'' sample_request 0 = (Inr r, 0)"
    "ms_cost_usd r = ''0.000156''" "ms_input_tokens r = 1000" "ms_output_tokens r = 10" by blast
  from model_call_typed_and_priced [OF r(1) [unfolded openai_complete_json_def]] obtain p q where
    "map_of price_per_million (''openai'', mr_model sample_request) = Some (p, q)"
    "decimal_value (ms_cost_usd r) = of_int (p * ms_input_tokens r + q * ms_output_tokens r) / 100000000" by blast
  then show ?thesis using r by (intro exI [of _ r]) (simp add: price_per_million_def sample_request_def)
qed

end
