(* ===== verification/Evals.thy ===== *)
theory Evals
  imports Posting "HOL-Library.Multiset" "HOL-Library.List_Lexorder" "HOL-Library.Char_ord"
begin

text \<open>
  The evaluation of a reviewer: \<^verbatim>\<open>evals/types.py\<close>, \<open>match_findings.py\<close>, \<open>metrics.py\<close>, \<open>regression_gate.py\<close>,
  \<open>run_eval.py\<close>, \<open>scorecard.py\<close>, \<open>feature_flags.py\<close>, \<open>fixture_reviewer.py\<close> and \<open>feedback_candidates.py\<close>.  A reviewer acts on
  a world; a rate is an exact rational; a date is a day number.
\<close>

section \<open>Cases\<close>

datatype eval_split = Split_Dev | Split_Holdout

record eval_label =
  el_concern :: concern
  el_category :: string
  el_file_path :: string
  el_line_start :: int
  el_line_end :: int

definition make_eval_label :: "concern \<Rightarrow> string \<Rightarrow> string \<Rightarrow> int \<Rightarrow> int \<Rightarrow> eval_label result" where
  "make_eval_label concern category path lo hi =
     (if category \<noteq> [] \<and> path \<noteq> [] \<and> 0 < lo \<and> 0 < hi \<and> lo \<le> hi
      then Inr \<lparr>el_concern = concern, el_category = category, el_file_path = path, el_line_start = lo, el_line_end = hi\<rparr>
      else Inl ValueError)"

record eval_case =
  ec_id :: string
  ec_split :: eval_split
  ec_diff :: string
  ec_expected_labels :: "eval_label list"
  ec_source_evidence :: "string list"
  ec_human_auditor :: "string option"
  ec_committed_at :: int

definition eval_case_ok :: "eval_case \<Rightarrow> bool" where
  "eval_case_ok c \<longleftrightarrow> ec_id c \<noteq> [] \<and> ec_diff c \<noteq> [] \<and> ec_expected_labels c \<noteq> [] \<and> ec_source_evidence c \<noteq> [] \<and>
     (ec_split c = Split_Holdout \<longrightarrow> ec_human_auditor c \<noteq> None \<and> ec_human_auditor c \<noteq> Some [])"

definition validate_eval_case :: "eval_case \<Rightarrow> eval_case result" where
  "validate_eval_case c = (if eval_case_ok c then Inr c else Inl ValueError)"

text \<open>\<open>model_copy\<close> does not validate again.\<close>

definition assign_time_split :: "int \<Rightarrow> eval_case list \<Rightarrow> eval_case list" where
  "assign_time_split holdout_after cases =
     map (\<lambda>c. c\<lparr>ec_split := (if holdout_after < ec_committed_at c then Split_Holdout else Split_Dev)\<rparr>) cases"

section \<open>Matching\<close>

record match_result =
  mt_matched :: "(eval_label \<times> finding_candidate) list"
  mt_unmatched_expected :: "eval_label list"
  mt_unmatched_actual :: "finding_candidate list"
  mt_needs_human_match :: bool

definition normalise_category :: "string \<Rightarrow> string" where
  "normalise_category v = replace_sub '' '' ''-'' (replace_sub ''_'' ''-'' (py_lower (py_strip v)))"

definition lines_overlap :: "eval_label \<Rightarrow> finding_candidate \<Rightarrow> bool" where
  "lines_overlap l c \<longleftrightarrow> \<not> (el_line_end l < fc_line_start c \<or> fc_line_end c < el_line_start l)"

definition structural_match :: "eval_label \<Rightarrow> finding_candidate \<Rightarrow> bool" where
  "structural_match l c \<longleftrightarrow> el_concern l = fc_concern c \<and> el_file_path l = fc_file_path c \<and> lines_overlap l c \<and>
     normalise_category (el_category l) = normalise_category (fc_category c)"

definition near_miss :: "eval_label \<Rightarrow> finding_candidate \<Rightarrow> bool" where
  "near_miss l c \<longleftrightarrow>
     (if structural_match l c then False
      else el_concern l = fc_concern c \<and> normalise_category (el_category l) = normalise_category (fc_category c) \<and>
           el_file_path l \<noteq> fc_file_path c)"

text \<open>The first hit in the remaining candidates and the candidates without it (\<open>pop(hit_index)\<close>).\<close>

fun take_first :: "('a \<Rightarrow> bool) \<Rightarrow> 'a list \<Rightarrow> ('a \<times> 'a list) option" where
  "take_first p [] = None"
| "take_first p (x # xs) = (if p x then Some (x, xs) else map_option (\<lambda>(y, ys). (y, x # ys)) (take_first p xs))"

fun match_labels ::
  "eval_label list \<Rightarrow> finding_candidate list \<Rightarrow> (eval_label \<times> finding_candidate) list \<times> eval_label list \<times> finding_candidate list" where
  "match_labels [] remaining = ([], [], remaining)"
| "match_labels (l # ls) remaining =
     (case take_first (structural_match l) remaining of
        None \<Rightarrow> (case match_labels ls remaining of (m, u, a) \<Rightarrow> (m, l # u, a))
      | Some (c, rest) \<Rightarrow> (case match_labels ls rest of (m, u, a) \<Rightarrow> ((l, c) # m, u, a)))"

definition match_findings :: "eval_label list \<Rightarrow> finding_candidate list \<Rightarrow> match_result" where
  "match_findings expected actual =
     (case match_labels expected actual of
        (m, u, a) \<Rightarrow> \<lparr>mt_matched = m, mt_unmatched_expected = u, mt_unmatched_actual = a,
                      mt_needs_human_match = (\<exists>l \<in> set u. \<exists>c \<in> set a. near_miss l c)\<rparr>)"

section \<open>Metrics\<close>

record eval_metrics =
  em_precision_per_finding :: rat
  em_precision_per_case :: rat
  em_recall_per_finding :: rat
  em_recall_per_case :: rat
  em_false_findings_per_pr :: rat
  em_selectivity :: rat
  em_verified_finding_rate :: rat
  em_latency_ms :: int
  em_cost_usd :: rat
  em_needs_human_rate :: rat
  em_reviewed_pr_count :: int
  em_useful_finding_count :: int
  em_rule_adherence :: "(string \<times> rat) list"

definition in_unit :: "rat \<Rightarrow> bool" where
  "in_unit q \<longleftrightarrow> 0 \<le> q \<and> q \<le> 1"

definition eval_metrics_ok :: "eval_metrics \<Rightarrow> bool" where
  "eval_metrics_ok m \<longleftrightarrow> in_unit (em_precision_per_finding m) \<and> in_unit (em_precision_per_case m) \<and> in_unit (em_recall_per_finding m) \<and>
     in_unit (em_recall_per_case m) \<and> 0 \<le> em_false_findings_per_pr m \<and> in_unit (em_selectivity m) \<and>
     in_unit (em_verified_finding_rate m) \<and> 0 \<le> em_latency_ms m \<and> 0 \<le> em_cost_usd m \<and> in_unit (em_needs_human_rate m) \<and>
     0 \<le> em_reviewed_pr_count m \<and> 0 \<le> em_useful_finding_count m"

definition ratio :: "int \<Rightarrow> int \<Rightarrow> rat" where
  "ratio numerator denominator = (if denominator = 0 then 0 else of_int numerator / of_int denominator)"

definition case_is_precise :: "match_result \<Rightarrow> bool" where
  "case_is_precise r \<longleftrightarrow> mt_matched r \<noteq> [] \<and> mt_unmatched_actual r = [] \<and> \<not> mt_needs_human_match r"

definition case_is_recalled :: "match_result \<Rightarrow> bool" where
  "case_is_recalled r \<longleftrightarrow> mt_matched r \<noteq> [] \<and> mt_unmatched_expected r = [] \<and> \<not> mt_needs_human_match r"

definition sum_of :: "('a \<Rightarrow> nat) \<Rightarrow> 'a list \<Rightarrow> int" where
  "sum_of f xs = int (sum_list (map f xs))"

definition count_of :: "('a \<Rightarrow> bool) \<Rightarrow> 'a list \<Rightarrow> int" where
  "count_of p xs = int (length (filter p xs))"

definition compute_metrics :: "match_result list \<Rightarrow> int \<Rightarrow> int \<Rightarrow> rat \<Rightarrow> eval_metrics result" where
  "compute_metrics results reviewed_pr_count latency_ms cost_usd =
     (let true_positives = sum_of (\<lambda>r. length (mt_matched r)) results;
          predicted = sum_of (\<lambda>r. length (mt_matched r) + length (mt_unmatched_actual r)) results;
          expected = sum_of (\<lambda>r. length (mt_matched r) + length (mt_unmatched_expected r)) results;
          false_findings = sum_of (\<lambda>r. length (mt_unmatched_actual r)) results;
          cases_with_a_finding = count_of (\<lambda>r. mt_matched r \<noteq> [] \<or> mt_unmatched_actual r \<noteq> []) results;
          case_count = int (length results);
          m = \<lparr>em_precision_per_finding = ratio true_positives predicted,
               em_precision_per_case = ratio (count_of case_is_precise results) case_count,
               em_recall_per_finding = ratio true_positives expected,
               em_recall_per_case = ratio (count_of case_is_recalled results) case_count,
               em_false_findings_per_pr = ratio false_findings reviewed_pr_count,
               em_selectivity = ratio cases_with_a_finding case_count, em_verified_finding_rate = 0, em_latency_ms = latency_ms,
               em_cost_usd = cost_usd, em_needs_human_rate = ratio (count_of mt_needs_human_match results) case_count,
               em_reviewed_pr_count = reviewed_pr_count, em_useful_finding_count = true_positives,
               em_rule_adherence = [(''retrieval_only'', 0), (''executable_check_only'', 0), (''both'', 0)]\<rparr>
      in if eval_metrics_ok m then Inr m else Inl ValueError)"

section \<open>The regression gate\<close>

record eval_thresholds =
  eh_min_precision_per_finding :: rat
  eh_max_false_findings_per_pr :: rat
  eh_min_high_value_recall :: rat
  eh_max_cost_usd :: rat
  eh_max_latency_ms :: int

record gate_result =
  gr_passed :: bool
  gr_blocked_metrics :: "string list"

definition compare_eval_reports :: "eval_metrics \<Rightarrow> eval_metrics \<Rightarrow> eval_thresholds \<Rightarrow> gate_result" where
  "compare_eval_reports cand base thresholds =
     (let blocked =
        (if em_precision_per_finding cand < em_precision_per_finding base \<or>
            em_precision_per_finding cand < eh_min_precision_per_finding thresholds then [''precision_per_finding''] else []) @
        (if em_false_findings_per_pr base < em_false_findings_per_pr cand \<or>
            eh_max_false_findings_per_pr thresholds < em_false_findings_per_pr cand then [''false_findings_per_pr''] else []) @
        (if em_recall_per_finding cand < em_recall_per_finding base \<or>
            em_recall_per_finding cand < eh_min_high_value_recall thresholds then [''high_value_recall''] else []) @
        (if em_cost_usd base < em_cost_usd cand \<or> eh_max_cost_usd thresholds < em_cost_usd cand then [''cost_usd''] else []) @
        (if em_latency_ms base < em_latency_ms cand \<or> eh_max_latency_ms thresholds < em_latency_ms cand then [''latency_ms''] else [])
      in \<lparr>gr_passed = (blocked = []), gr_blocked_metrics = blocked\<rparr>)"

definition brier_score :: "(rat \<times> bool) list \<Rightarrow> rat" where
  "brier_score predictions =
     (if predictions = [] then 0
      else sum_list (map (\<lambda>(c, hit). (c - (if hit then 1 else 0)) ^ 2) predictions) / of_nat (length predictions))"

record calibration_bucket =
  cb_lower :: rat
  cb_upper :: rat
  cb_count :: nat
  cb_accuracy :: rat
  cb_mean_confidence :: rat

definition bucket_of :: "rat \<Rightarrow> rat \<Rightarrow> (rat \<times> bool) list \<Rightarrow> calibration_bucket list" where
  "bucket_of lower upper members =
     (if members = [] then []
      else [\<lparr>cb_lower = lower, cb_upper = upper, cb_count = length members,
             cb_accuracy = of_nat (length (filter snd members)) / of_nat (length members),
             cb_mean_confidence = sum_list (map fst members) / of_nat (length members)\<rparr>])"

text \<open>Neighbouring edges bound a bucket; the last one includes its upper edge.\<close>

fun calibration_buckets :: "(rat \<times> bool) list \<Rightarrow> rat list \<Rightarrow> calibration_bucket list" where
  "calibration_buckets predictions [lower, upper] =
     bucket_of lower upper (filter (\<lambda>p. lower \<le> fst p \<and> fst p \<le> upper) predictions)"
| "calibration_buckets predictions (lower # upper # edges) =
     bucket_of lower upper (filter (\<lambda>p. lower \<le> fst p \<and> fst p < upper) predictions) @ calibration_buckets predictions (upper # edges)"
| "calibration_buckets predictions _ = []"

definition default_edges :: "rat list" where
  "default_edges = [0, 1 / 5, 2 / 5, 3 / 5, 4 / 5, 1]"

record drift_snapshot =
  ds_rejection_rate :: rat
  ds_dispute_rate :: rat
  ds_no_finding_rate :: rat
  ds_cost_usd :: rat
  ds_latency_ms :: int
  ds_retrieval_miss_rate :: rat

definition detect_drift :: "drift_snapshot \<Rightarrow> drift_snapshot \<Rightarrow> string list" where
  "detect_drift current baseline =
     (if ds_rejection_rate baseline < ds_rejection_rate current then [''rejection_rate''] else []) @
     (if ds_dispute_rate baseline < ds_dispute_rate current then [''dispute_rate''] else []) @
     (if ds_no_finding_rate baseline < ds_no_finding_rate current then [''no_finding_rate''] else []) @
     (if ds_cost_usd baseline < ds_cost_usd current then [''cost_usd''] else []) @
     (if ds_latency_ms baseline < ds_latency_ms current then [''latency_ms''] else []) @
     (if ds_retrieval_miss_rate baseline < ds_retrieval_miss_rate current then [''retrieval_miss_rate''] else [])"

section \<open>Runs\<close>

type_synonym 'w eval_reviewer = "eval_case \<Rightarrow> ('w, finding_candidate list) act"

definition baseline_blocked :: "string \<Rightarrow> py_exn" where
  "baseline_blocked reason = Exception_Of (''BaselineBlocked: '' @ reason)"

definition blocked_reason :: "py_exn \<Rightarrow> string option" where
  "blocked_reason e =
     (case e of Exception_Of s \<Rightarrow> if startswith s ''BaselineBlocked: '' then Some (drop 17 s) else None | _ \<Rightarrow> None)"

fun review_cases :: "'w eval_reviewer \<Rightarrow> eval_case list \<Rightarrow> ('w, match_result list) act" where
  "review_cases reviewer [] = return_a []"
| "review_cases reviewer (c # cs) =
     bind_a (reviewer c) (\<lambda>actual. bind_a (review_cases reviewer cs) (\<lambda>rest.
       return_a (match_findings (ec_expected_labels c) actual # rest)))"

definition repeated :: "int \<Rightarrow> 'a list \<Rightarrow> 'a list" where
  "repeated n xs = concat (replicate (nat n) xs)"

definition run_eval :: "'w eval_reviewer \<Rightarrow> eval_case list \<Rightarrow> int \<Rightarrow> ('w, eval_metrics) act" where
  "run_eval reviewer cases repeats =
     (if cases = [] \<or> repeats < 1 then raise_a ValueError
      else bind_a (review_cases reviewer (repeated repeats cases)) (\<lambda>results.
        lift_r (compute_metrics results (int (length results)) 0 0)))"

definition holdout_of :: "eval_case list \<Rightarrow> eval_case list" where
  "holdout_of cases = filter (\<lambda>c. ec_split c = Split_Holdout) cases"

definition run_diff_only_baseline :: "eval_case list \<Rightarrow> 'w eval_reviewer \<Rightarrow> int \<Rightarrow> ('w, eval_metrics) act" where
  "run_diff_only_baseline cases reviewer repeats =
     (if holdout_of cases = [] then raise_a (baseline_blocked ''holdout is empty; refusing to report a baseline'')
      else run_eval reviewer (holdout_of cases) repeats)"

definition run_retrieval_comparison ::
  "eval_case list \<Rightarrow> 'w eval_reviewer \<Rightarrow> 'w eval_reviewer \<Rightarrow> int \<Rightarrow> ('w, eval_metrics \<times> eval_metrics) act" where
  "run_retrieval_comparison cases without_retrieval with_retrieval repeats =
     (if holdout_of cases = [] then raise_a (baseline_blocked ''holdout is empty; refusing to report a retrieval comparison'')
      else bind_a (run_eval without_retrieval (holdout_of cases) repeats) (\<lambda>a.
           bind_a (run_eval with_retrieval (holdout_of cases) repeats) (\<lambda>b. return_a (a, b))))"

definition run_context_source_comparison ::
  "eval_case list \<Rightarrow> 'w eval_reviewer \<Rightarrow> 'w eval_reviewer \<Rightarrow> 'w eval_reviewer \<Rightarrow> int \<Rightarrow>
   ('w, eval_metrics \<times> eval_metrics \<times> eval_metrics) act" where
  "run_context_source_comparison cases profile_only graph_only profile_plus_graph repeats =
     (if holdout_of cases = [] then raise_a (baseline_blocked ''holdout is empty; refusing to report a context-source comparison'')
      else bind_a (run_eval profile_only (holdout_of cases) repeats) (\<lambda>a.
           bind_a (run_eval graph_only (holdout_of cases) repeats) (\<lambda>b.
           bind_a (run_eval profile_plus_graph (holdout_of cases) repeats) (\<lambda>c. return_a (a, b, c)))))"

definition run_specialist_comparison ::
  "eval_case list \<Rightarrow> 'w eval_reviewer \<Rightarrow> 'w eval_reviewer \<Rightarrow> int \<Rightarrow> ('w, eval_metrics \<times> eval_metrics) act" where
  "run_specialist_comparison cases one_agent specialists repeats =
     (if holdout_of cases = [] then raise_a (baseline_blocked ''holdout is empty; refusing to report a specialist comparison'')
      else bind_a (run_eval one_agent (holdout_of cases) repeats) (\<lambda>a.
           bind_a (run_eval specialists (holdout_of cases) repeats) (\<lambda>b. return_a (a, b))))"

definition useful_findings_per_dollar :: "eval_metrics \<Rightarrow> rat result" where
  "useful_findings_per_dollar m =
     (if em_cost_usd m \<le> 0 then Inl (baseline_blocked ''cost_usd is zero; refusing to report useful findings per dollar'')
      else Inr (of_int (em_useful_finding_count m) / em_cost_usd m))"

section \<open>Scorecard and feature flags\<close>

datatype card_value = Number rat | Refusal string

record scorecard =
  sc_precision_per_finding :: card_value
  sc_precision_per_case :: card_value
  sc_recall_per_finding :: card_value
  sc_recall_per_case :: card_value
  sc_false_findings_per_pr :: card_value
  sc_cost_usd :: card_value
  sc_reviewed_pr_count :: card_value

definition refused_card :: "string \<Rightarrow> scorecard" where
  "refused_card why =
     \<lparr>sc_precision_per_finding = Refusal why, sc_precision_per_case = Refusal why, sc_recall_per_finding = Refusal why,
      sc_recall_per_case = Refusal why, sc_false_findings_per_pr = Refusal why, sc_cost_usd = Refusal why,
      sc_reviewed_pr_count = Refusal why\<rparr>"

definition measured_card :: "eval_metrics \<Rightarrow> scorecard" where
  "measured_card m =
     \<lparr>sc_precision_per_finding = Number (em_precision_per_finding m), sc_precision_per_case = Number (em_precision_per_case m),
      sc_recall_per_finding = Number (em_recall_per_finding m), sc_recall_per_case = Number (em_recall_per_case m),
      sc_false_findings_per_pr = Number (em_false_findings_per_pr m), sc_cost_usd = Number (em_cost_usd m),
      sc_reviewed_pr_count = Number (of_int (em_reviewed_pr_count m))\<rparr>"

definition generate_scorecard :: "'w eval_reviewer \<Rightarrow> eval_case list \<Rightarrow> int \<Rightarrow> ('w, scorecard) act" where
  "generate_scorecard reviewer cases repeats w =
     (case run_diff_only_baseline cases reviewer repeats w of
        (Inl e, w') \<Rightarrow> (case blocked_reason e of None \<Rightarrow> (Inl e, w') | Some why \<Rightarrow> (Inr (refused_card why), w'))
      | (Inr m, w') \<Rightarrow> (Inr (measured_card m), w'))"

record feature_flag =
  ff_name :: string
  ff_enabled :: bool
  ff_measurement :: string

definition unreachable_reviewer :: "unit eval_reviewer" where
  "unreachable_reviewer c = raise_a AssertionError"

definition refusal_of :: "(unit, 'a) act \<Rightarrow> string result" where
  "refusal_of m =
     (case fst (m ()) of
        Inl e \<Rightarrow> (case blocked_reason e of None \<Rightarrow> Inl e | Some why \<Rightarrow> Inr why)
      | Inr _ \<Rightarrow> Inl AssertionError)"

definition retrieval_refusal :: "eval_case list \<Rightarrow> string result" where
  "retrieval_refusal cases = refusal_of (run_retrieval_comparison cases unreachable_reviewer unreachable_reviewer 3)"

definition code_graph_refusal :: "eval_case list \<Rightarrow> string result" where
  "code_graph_refusal cases =
     refusal_of (run_context_source_comparison cases unreachable_reviewer unreachable_reviewer unreachable_reviewer 3)"

definition specialists_refusal :: "eval_case list \<Rightarrow> string result" where
  "specialists_refusal cases = refusal_of (run_specialist_comparison cases unreachable_reviewer unreachable_reviewer 3)"

definition langgraph_refusal :: "eval_case list \<Rightarrow> string result" where
  "langgraph_refusal cases = refusal_of (run_diff_only_baseline cases unreachable_reviewer 3)"

definition generate_feature_flags :: "eval_case list \<Rightarrow> feature_flag list result" where
  "generate_feature_flags cases =
     bind_r (retrieval_refusal cases) (\<lambda>r.
     bind_r (code_graph_refusal cases) (\<lambda>g.
     bind_r (specialists_refusal cases) (\<lambda>s.
     bind_r (langgraph_refusal cases) (\<lambda>l.
       Inr [\<lparr>ff_name = ''retrieval'', ff_enabled = False, ff_measurement = r\<rparr>,
            \<lparr>ff_name = ''code_graph'', ff_enabled = False, ff_measurement = g\<rparr>,
            \<lparr>ff_name = ''specialists'', ff_enabled = rp_specialist_mode default_review_policy, ff_measurement = s\<rparr>,
            \<lparr>ff_name = ''langgraph'', ff_enabled = False, ff_measurement = l\<rparr>]))))"

section \<open>Fixture reviewers\<close>

datatype fixture_mode = Perfect | Silent | Noisy | Flaky

definition fixture_candidate :: "eval_case \<Rightarrow> string option \<Rightarrow> string option \<Rightarrow> finding_candidate" where
  "fixture_candidate c path title =
     (let l = hd (ec_expected_labels c)
      in \<lparr>fc_concern = el_concern l, fc_severity = High, fc_category = el_category l,
          fc_file_path = (case path of Some p \<Rightarrow> p | None \<Rightarrow> el_file_path l), fc_line_start = el_line_start l,
          fc_line_end = el_line_end l, fc_title = (case title of Some t \<Rightarrow> t | None \<Rightarrow> ''Missing null check''),
          fc_rationale = ''widget.value can be None.'', fc_evidence = [el_file_path l @ '':'' @ show_int (el_line_start l)],
          fc_confidence = 4 / 5\<rparr>)"

text \<open>The world is the step counter of the flaky reviewer.\<close>

definition fixture_review :: "fixture_mode \<Rightarrow> int eval_reviewer" where
  "fixture_review mode c step =
     (let (mode, step) =
        (if mode = Flaky
         then (if step mod 4 = 1 then Silent else if step mod 4 = 2 then Noisy else Perfect, step + 1)
         else (mode, step));
          matched = fixture_candidate c None None
      in (Inr (if mode = Silent then []
               else if mode = Noisy then [matched, fixture_candidate c (Some ''src/other.py'') (Some ''unrelated style nit'')]
               else [matched]), step))"

section \<open>Feedback\<close>

record feedback_event =
  fe_finding_fingerprint :: string
  fe_action :: string
  fe_actor :: string
  fe_human_audited :: bool
  fe_observed_at :: "timestamp option"

record feedback_candidate =
  fb_finding_fingerprint :: string
  fb_human_audited :: bool
  fb_evidence_count :: nat

definition event_is_fresh :: "timestamp \<Rightarrow> int \<Rightarrow> feedback_event \<Rightarrow> bool" where
  "event_is_fresh now max_age e = (case fe_observed_at e of None \<Rightarrow> False | Some t \<Rightarrow> now - max_age \<le> t)"

definition feedback_group :: "timestamp \<Rightarrow> int \<Rightarrow> feedback_event list \<Rightarrow> string \<Rightarrow> feedback_event list" where
  "feedback_group now max_age events fingerprint =
     filter (\<lambda>e. fe_action e = ''disputed'' \<and> event_is_fresh now max_age e \<and> fe_finding_fingerprint e = fingerprint) events"

text \<open>Only candidates come out: prompts, policy, labels and routing are discarded arguments, and the other fields
  of the result are always empty.\<close>

definition consider_feedback :: "feedback_event list \<Rightarrow> int \<Rightarrow> timestamp \<Rightarrow> int \<Rightarrow> feedback_candidate list" where
  "consider_feedback events min_repeats now max_age =
     (let fresh = filter (\<lambda>e. fe_action e = ''disputed'' \<and> event_is_fresh now max_age e) events;
          fingerprints = sort (remdups (map fe_finding_fingerprint fresh))
      in concat (map (\<lambda>fp.
           let group = feedback_group now max_age events fp
           in if int (length group) < min_repeats \<or> \<not> (\<exists>e \<in> set group. fe_human_audited e) then []
              else [\<lparr>fb_finding_fingerprint = fp, fb_human_audited = True, fb_evidence_count = length group\<rparr>]) fingerprints))"

section \<open>Matching is a maximal partial assignment\<close>

lemma take_first_Some:
  "take_first p xs = Some (y, ys) \<Longrightarrow> p y \<and> mset xs = add_mset y (mset ys) \<and> set ys \<subseteq> set xs"
  by (induction xs arbitrary: ys) (auto split: if_splits)

lemma take_first_None: "take_first p xs = None \<longleftrightarrow> (\<forall>x \<in> set xs. \<not> p x)"
  by (induction xs) auto

lemma match_labels_spec:
  "match_labels ls actual = (m, u, a) \<Longrightarrow>
     mset (map fst m) + mset u = mset ls \<and> mset (map snd m) + mset a = mset actual \<and> set a \<subseteq> set actual \<and>
     (\<forall>(l, c) \<in> set m. structural_match l c) \<and> (\<forall>l \<in> set u. \<forall>c \<in> set a. \<not> structural_match l c)"
proof (induction ls arbitrary: actual m u a)
  case (Cons l ls)
  show ?case
  proof (cases "take_first (structural_match l) actual")
    case None
    then obtain u' where "match_labels ls actual = (m, u', a)" "u = l # u'" using Cons.prems by (auto split: prod.splits)
    with Cons.IH [of actual m u' a] None show ?thesis by (auto simp: take_first_None)
  next
    case (Some y)
    then obtain c rest where c: "take_first (structural_match l) actual = Some (c, rest)" by (cases y) auto
    then obtain m' where "match_labels ls rest = (m', u, a)" "m = (l, c) # m'" using Cons.prems by (auto split: prod.splits)
    with Cons.IH [of rest m' u a] take_first_Some [OF c] show ?thesis by auto
  qed
qed simp

lemma match_findings_unfold:
  obtains m u a where "match_labels expected actual = (m, u, a)"
    "match_findings expected actual = \<lparr>mt_matched = m, mt_unmatched_expected = u, mt_unmatched_actual = a,
       mt_needs_human_match = (\<exists>l \<in> set u. \<exists>c \<in> set a. near_miss l c)\<rparr>"
proof -
  obtain m u a where "match_labels expected actual = (m, u, a)" by (metis surj_pair)
  then show thesis by (intro that) (simp_all add: match_findings_def)
qed

section \<open>Metrics are rates\<close>

lemma ratio_unit: "0 \<le> n \<Longrightarrow> n \<le> d \<Longrightarrow> in_unit (ratio n d)"
  by (auto simp: ratio_def in_unit_def divide_le_eq_1)

lemma ratio_nonneg: "0 \<le> n \<Longrightarrow> 0 \<le> d \<Longrightarrow> 0 \<le> ratio n d"
  by (simp add: ratio_def)

lemma sum_of_le: "(\<And>r. f r \<le> g r) \<Longrightarrow> 0 \<le> sum_of f rs \<and> sum_of f rs \<le> sum_of g rs"
  by (simp add: sum_of_def sum_list_mono)

lemma count_of_le: "0 \<le> count_of p rs \<and> count_of p rs \<le> int (length rs)"
  by (simp add: count_of_def)

lemma compute_metrics_total:
  assumes "0 \<le> n" "0 \<le> latency" "0 \<le> cost"
  shows "\<exists>m. compute_metrics results n latency cost = Inr m \<and> eval_metrics_ok m"
proof -
  have tp: "0 \<le> sum_of (\<lambda>r. length (mt_matched r)) results"
    "sum_of (\<lambda>r. length (mt_matched r)) results \<le> sum_of (\<lambda>r. length (mt_matched r) + length (mt_unmatched_actual r)) results"
    "sum_of (\<lambda>r. length (mt_matched r)) results \<le> sum_of (\<lambda>r. length (mt_matched r) + length (mt_unmatched_expected r)) results"
    using sum_of_le [of "\<lambda>r. length (mt_matched r)" "\<lambda>r. length (mt_matched r) + length (mt_unmatched_actual r)" results]
      sum_of_le [of "\<lambda>r. length (mt_matched r)" "\<lambda>r. length (mt_matched r) + length (mt_unmatched_expected r)" results] by auto
  have ff: "0 \<le> sum_of (\<lambda>r. length (mt_unmatched_actual r)) results" by (simp add: sum_of_def)
  show ?thesis
    using assms tp ff count_of_le [of _ results]
    by (simp add: compute_metrics_def Let_def eval_metrics_ok_def ratio_unit ratio_nonneg) (simp add: in_unit_def)
qed

section \<open>Buckets\<close>

lemma bucket_count: "sum_list (map cb_count (bucket_of lo hi ps)) = length ps"
  by (simp add: bucket_of_def)

lemma length_filter_split:
  "length (filter p xs) + length (filter q xs) = length (filter (\<lambda>x. p x \<or> q x) xs)" if "\<And>x. \<not> (p x \<and> q x)"
  using that by (induction xs) auto

lemma calibration_counts:
  "sorted_wrt (<) edges \<Longrightarrow> 2 \<le> length edges \<Longrightarrow>
   sum_list (map cb_count (calibration_buckets ps edges)) = length (filter (\<lambda>p. hd edges \<le> fst p \<and> fst p \<le> last edges) ps)"
proof (induction ps edges rule: calibration_buckets.induct)
  case (2 ps lo hi e es)
  have "hi < last (e # es)" using 2(2) last_in_set [of "e # es"] by auto
  moreover have "lo < hi" using 2(2) by auto
  moreover have "sum_list (map cb_count (calibration_buckets ps (hi # e # es))) =
      length (filter (\<lambda>p. hi \<le> fst p \<and> fst p \<le> last (e # es)) ps)"
    using 2 by simp
  moreover have "lo \<le> x \<and> x < hi \<or> hi \<le> x \<and> x \<le> last (e # es) \<longleftrightarrow> lo \<le> x \<and> x \<le> last (e # es)" for x
    using \<open>hi < last (e # es)\<close> \<open>lo < hi\<close> by (auto simp del: last.simps)
  ultimately show ?case
    using length_filter_split [of "\<lambda>p. lo \<le> fst p \<and> fst p < hi" "\<lambda>p. hi \<le> fst p \<and> fst p \<le> last (e # es)" ps]
    by (simp add: bucket_count del: last.simps) (simp only: last.simps list.distinct if_False)
qed (simp_all add: bucket_count)

lemma brier_unit: "\<forall>(c, hit) \<in> set ps. 0 \<le> c \<and> c \<le> 1 \<Longrightarrow> in_unit (brier_score ps)"
proof -
  let ?f = "\<lambda>(c, hit). (c - (if hit then 1 else 0 :: rat)) ^ 2"
  assume "\<forall>(c, hit) \<in> set ps. 0 \<le> c \<and> c \<le> 1"
  then have b: "0 \<le> ?f p \<and> ?f p \<le> 1" if "p \<in> set ps" for p
  proof -
    obtain c hit where p: "p = (c, hit)" by (cases p)
    have "0 \<le> c" "c \<le> 1" using \<open>\<forall>(c, hit) \<in> set ps. _\<close> that p by auto
    then have "\<bar>c - (if hit then 1 else 0)\<bar> \<le> 1" by auto
    then show ?thesis unfolding p by (simp add: abs_square_le_1)
  qed
  then have "sum_list (map ?f ps) \<le> sum_list (map (\<lambda>_. 1) ps)" by (intro sum_list_mono) auto
  moreover have "0 \<le> sum_list (map ?f ps)" using b by (intro sum_list_nonneg) auto
  ultimately show ?thesis by (auto simp: brier_score_def in_unit_def sum_list_triv divide_le_eq_1)
qed

section \<open>Runs of the fixture reviewers\<close>

lemma match_perfect:
  assumes "ec_expected_labels c = [l]" "el_line_start l \<le> el_line_end l"
  shows "match_findings (ec_expected_labels c) [fixture_candidate c None None] =
     \<lparr>mt_matched = [(l, fixture_candidate c None None)], mt_unmatched_expected = [], mt_unmatched_actual = [], mt_needs_human_match = False\<rparr>"
proof -
  have "structural_match l (fixture_candidate c None None)"
    using assms by (simp add: structural_match_def lines_overlap_def fixture_candidate_def)
  then show ?thesis using assms by (simp add: match_findings_def)
qed

lemma review_cases_const:
  assumes "\<And>c w. c \<in> set cs \<Longrightarrow> reviewer c w = (Inr (out c), w)"
  shows "review_cases reviewer cs w = (Inr (map (\<lambda>c. match_findings (ec_expected_labels c) (out c)) cs), w)"
  using assms by (induction cs) (simp_all add: act_simps)

lemma set_repeated: "set (repeated n cs) \<subseteq> set cs" "0 < n \<Longrightarrow> cs \<noteq> [] \<Longrightarrow> repeated n cs \<noteq> []"
proof -
  show "set (repeated n cs) \<subseteq> set cs" by (auto simp: repeated_def)
  show "repeated n cs \<noteq> []" if pos: "0 < n" and ne: "cs \<noteq> []"
  proof -
    obtain k where "nat n = Suc k" using pos gr0_implies_Suc [of "nat n"] by auto
    with ne show ?thesis by (simp add: repeated_def)
  qed
qed

lemma sum_of_const: "\<forall>r \<in> set rs. f r = (k :: nat) \<Longrightarrow> sum_of f rs = int (k * length rs)"
  by (induction rs) (auto simp: sum_of_def algebra_simps)

lemma count_of_all: "\<forall>r \<in> set rs. p r \<Longrightarrow> count_of p rs = int (length rs)"
  by (simp add: count_of_def)

lemma perfect_run:
  assumes ne: "cases \<noteq> []" and rep: "1 \<le> repeats"
    and one: "\<forall>c \<in> set cases. \<exists>l. ec_expected_labels c = [l] \<and> el_line_start l \<le> el_line_end l"
  shows "\<exists>m. run_eval (fixture_review Perfect) cases repeats w = (Inr m, w) \<and> em_precision_per_finding m = 1 \<and>
      em_recall_per_finding m = 1 \<and> em_precision_per_case m = 1 \<and> em_recall_per_case m = 1 \<and> em_false_findings_per_pr m = 0"
proof -
  let ?cs = "repeated repeats cases"
  have cs: "?cs \<noteq> []" "\<forall>c \<in> set ?cs. \<exists>l. ec_expected_labels c = [l] \<and> el_line_start l \<le> el_line_end l"
    using set_repeated [of repeats cases] ne rep one by auto
  let ?p = "map (\<lambda>c. match_findings (ec_expected_labels c) [fixture_candidate c None None]) ?cs"
  have p: "\<forall>r \<in> set ?p. length (mt_matched r) = 1 \<and> mt_unmatched_expected r = [] \<and> mt_unmatched_actual r = [] \<and> \<not> mt_needs_human_match r"
    using cs(2) match_perfect by auto
  have pos: "int (length ?p) \<noteq> 0" using cs(1) by simp
  have sums: "sum_of (\<lambda>r. length (mt_matched r)) ?p = int (length ?p)"
    "sum_of (\<lambda>r. length (mt_matched r) + length (mt_unmatched_actual r)) ?p = int (length ?p)"
    "sum_of (\<lambda>r. length (mt_matched r) + length (mt_unmatched_expected r)) ?p = int (length ?p)"
    "sum_of (\<lambda>r. length (mt_unmatched_actual r)) ?p = 0"
    using sum_of_const [of ?p "\<lambda>r. length (mt_matched r)" 1] sum_of_const [of ?p "\<lambda>r. length (mt_matched r) + length (mt_unmatched_actual r)" 1]
      sum_of_const [of ?p "\<lambda>r. length (mt_matched r) + length (mt_unmatched_expected r)" 1]
      sum_of_const [of ?p "\<lambda>r. length (mt_unmatched_actual r)" 0] p by auto
  have counts: "count_of case_is_precise ?p = int (length ?p)" "count_of case_is_recalled ?p = int (length ?p)"
    using p by (intro count_of_all; auto simp: case_is_precise_def case_is_recalled_def)+
  obtain m where m: "compute_metrics ?p (int (length ?p)) 0 0 = Inr m" using compute_metrics_total [of "int (length ?p)" 0 0 ?p] by auto
  have "run_eval (fixture_review Perfect) cases repeats w = (Inr m, w)"
    using ne rep m review_cases_const [of ?cs "fixture_review Perfect" "\<lambda>c. [fixture_candidate c None None]" w]
    by (simp add: run_eval_def act_simps lift_r_def fixture_review_def)
  moreover have "em_precision_per_finding m = 1 \<and> em_recall_per_finding m = 1 \<and> em_precision_per_case m = 1 \<and> em_recall_per_case m = 1 \<and>
      em_false_findings_per_pr m = 0"
    using m pos unfolding compute_metrics_def Let_def sums counts by (auto simp: ratio_def split: if_splits)
  ultimately show ?thesis by blast
qed

lemma silent_run:
  assumes ne: "cases \<noteq> []" and rep: "1 \<le> repeats"
  shows "\<exists>m. run_eval (fixture_review Silent) cases repeats w = (Inr m, w) \<and> em_precision_per_finding m = 0 \<and>
      em_recall_per_finding m = 0 \<and> em_precision_per_case m = 0 \<and> em_recall_per_case m = 0"
proof -
  let ?cs = "repeated repeats cases"
  let ?q = "map (\<lambda>c. match_findings (ec_expected_labels c) []) ?cs"
  have q: "\<forall>r \<in> set ?q. length (mt_matched r) = 0"
  proof -
    have "mt_matched (match_findings ls []) = []" for ls
    proof -
      have "match_labels ls [] = ([], ls, [])" by (induction ls) auto
      then show ?thesis by (simp add: match_findings_def)
    qed
    then show ?thesis by auto
  qed
  have sums: "sum_of (\<lambda>r. length (mt_matched r)) ?q = 0" using sum_of_const [OF q] by simp
  have counts: "count_of case_is_precise ?q = 0" "count_of case_is_recalled ?q = 0"
    using q by (auto simp: count_of_def case_is_precise_def case_is_recalled_def filter_empty_conv)
  obtain m where m: "compute_metrics ?q (int (length ?q)) 0 0 = Inr m" using compute_metrics_total [of "int (length ?q)" 0 0 ?q] by auto
  have "run_eval (fixture_review Silent) cases repeats w = (Inr m, w)"
    using ne rep m review_cases_const [of ?cs "fixture_review Silent" "\<lambda>c. []" w]
    by (simp add: run_eval_def act_simps lift_r_def fixture_review_def)
  moreover have "em_precision_per_finding m = 0 \<and> em_recall_per_finding m = 0 \<and> em_precision_per_case m = 0 \<and> em_recall_per_case m = 0"
    using m unfolding compute_metrics_def Let_def sums counts by (auto simp: ratio_def split: if_splits)
  ultimately show ?thesis by blast
qed

lemma gate_against_itself:
  "gr_passed (compare_eval_reports x x t) =
     (eh_min_precision_per_finding t \<le> em_precision_per_finding x \<and> em_false_findings_per_pr x \<le> eh_max_false_findings_per_pr t \<and>
      eh_min_high_value_recall t \<le> em_recall_per_finding x \<and> em_cost_usd x \<le> eh_max_cost_usd t \<and> em_latency_ms x \<le> eh_max_latency_ms t)"
  by (simp add: compare_eval_reports_def Let_def not_less)

text \<open>A fingerprint is promoted exactly on enough fresh disputes, one of them audited by a human.\<close>

lemma feedback_promoted:
  "0 < min_repeats \<Longrightarrow> fp \<in> fb_finding_fingerprint ` set (consider_feedback events min_repeats now max_age) \<longleftrightarrow>
     min_repeats \<le> int (length (feedback_group now max_age events fp)) \<and> (\<exists>e \<in> set (feedback_group now max_age events fp). fe_human_audited e)"
  by (auto simp: consider_feedback_def Let_def feedback_group_def not_less image_iff split: if_splits)

text \<open>Once there is a holdout case the flag table cannot be generated any more.\<close>

lemma feature_flags_need_an_empty_holdout:
  "(\<exists>flags. generate_feature_flags cases = Inr flags) \<longleftrightarrow> holdout_of cases = []"
proof (cases "holdout_of cases")
  case Nil
  then have "\<exists>s. retrieval_refusal cases = Inr s" "\<exists>s. code_graph_refusal cases = Inr s" "\<exists>s. specialists_refusal cases = Inr s"
    "\<exists>s. langgraph_refusal cases = Inr s"
    by (simp_all add: retrieval_refusal_def code_graph_refusal_def specialists_refusal_def langgraph_refusal_def refusal_of_def
        run_retrieval_comparison_def run_context_source_comparison_def run_specialist_comparison_def run_diff_only_baseline_def
        act_simps baseline_blocked_def blocked_reason_def startswith_def)
  with Nil show ?thesis by (auto simp: generate_feature_flags_def bind_r_Inr)
next
  case (Cons c cs)
  then have "repeated 3 (holdout_of cases) = c # cs @ concat (replicate 2 (c # cs))"
    by (simp add: repeated_def eval_nat_numeral)
  with Cons have "retrieval_refusal cases = Inl AssertionError"
    by (simp add: retrieval_refusal_def refusal_of_def run_retrieval_comparison_def run_eval_def unreachable_reviewer_def act_simps
        blocked_reason_def)
  with Cons show ?thesis by (auto simp: generate_feature_flags_def)
qed

section \<open>Properties\<close>

text \<open>Matching is a maximal partial assignment: every expected label and every actual finding is used at most
  once and none is lost; a matched pair agrees on concern, file, overlapping lines and normalised category; no
  unmatched label still matches an unmatched finding; and the result asks for a human exactly when an unmatched
  label and an unmatched finding differ only in the file (or the lines) while their files differ.\<close>

theorem match_findings_maximal:
  "mset (map fst (mt_matched (match_findings expected actual))) + mset (mt_unmatched_expected (match_findings expected actual)) = mset expected \<and>
   mset (map snd (mt_matched (match_findings expected actual))) + mset (mt_unmatched_actual (match_findings expected actual)) = mset actual \<and>
   list_all (\<lambda>(l, c). structural_match l c) (mt_matched (match_findings expected actual)) \<and>
   list_all (\<lambda>l. list_all (\<lambda>c. \<not> structural_match l c) (mt_unmatched_actual (match_findings expected actual)))
     (mt_unmatched_expected (match_findings expected actual)) \<and>
   mt_needs_human_match (match_findings expected actual) =
     list_ex (\<lambda>l. list_ex (near_miss l) (mt_unmatched_actual (match_findings expected actual)))
       (mt_unmatched_expected (match_findings expected actual))"
proof -
  obtain m u a where m: "match_labels expected actual = (m, u, a)"
    "match_findings expected actual = \<lparr>mt_matched = m, mt_unmatched_expected = u, mt_unmatched_actual = a,
       mt_needs_human_match = (\<exists>l \<in> set u. \<exists>c \<in> set a. near_miss l c)\<rparr>" by (rule match_findings_unfold)
  from match_labels_spec [OF m(1)] show ?thesis unfolding m(2) by (simp add: list_all_iff list_ex_iff)
qed

text \<open>An evaluation reports rates and separates good from bad.  Over a non-empty list of cases, each with one
  well-formed label, the perfect reviewer scores one on precision and recall, per finding and per case, with no
  false finding, and the silent reviewer scores zero on all of them; whatever the reviewer returns, the metrics of
  a run are defined and every rate lies between zero and one; and a run passes the regression gate against itself
  exactly when it meets the thresholds.\<close>

theorem evaluation_is_sound:
  "(cases \<noteq> [] \<and> 1 \<le> repeats \<and> (\<forall>c \<in> set cases. \<exists>l. ec_expected_labels c = [l] \<and> el_line_start l \<le> el_line_end l) \<longrightarrow>
     (\<exists>m. run_eval (fixture_review Perfect) cases repeats w = (Inr m, w) \<and> em_precision_per_finding m = 1 \<and> em_recall_per_finding m = 1 \<and>
        em_precision_per_case m = 1 \<and> em_recall_per_case m = 1 \<and> em_false_findings_per_pr m = 0) \<and>
     (\<exists>m. run_eval (fixture_review Silent) cases repeats w = (Inr m, w) \<and> em_precision_per_finding m = 0 \<and> em_recall_per_finding m = 0 \<and>
        em_precision_per_case m = 0 \<and> em_recall_per_case m = 0)) \<and>
   (\<exists>m. compute_metrics results (int n) 0 0 = Inr m \<and> eval_metrics_ok m) \<and>
   gr_passed (compare_eval_reports x x t) =
     (eh_min_precision_per_finding t \<le> em_precision_per_finding x \<and> em_false_findings_per_pr x \<le> eh_max_false_findings_per_pr t \<and>
      eh_min_high_value_recall t \<le> em_recall_per_finding x \<and> em_cost_usd x \<le> eh_max_cost_usd t \<and> em_latency_ms x \<le> eh_max_latency_ms t)"
  using compute_metrics_total [of "int n" 0 0 results] gate_against_itself [of x t]
  by (intro conjI impI perfect_run silent_run) auto

definition sample_case :: eval_case where
  "sample_case = \<lparr>ec_id = ''c'', ec_split = Split_Holdout, ec_diff = ''d'',
     ec_expected_labels = [\<lparr>el_concern = Security, el_category = ''sql'', el_file_path = ''a.py'', el_line_start = 2, el_line_end = 4\<rparr>],
     ec_source_evidence = [''e''], ec_human_auditor = Some ''h'', ec_committed_at = 5\<rparr>"

theorem evaluation_is_sound_witness:
  "\<exists>m. run_eval (fixture_review Perfect) [sample_case] 3 0 = (Inr m, 0) \<and> em_precision_per_finding m = 1"
proof -
  have "\<forall>c \<in> set [sample_case]. \<exists>l. ec_expected_labels c = [l] \<and> el_line_start l \<le> el_line_end l" by (simp add: sample_case_def)
  then show ?thesis using conjunct1 [OF evaluation_is_sound [of "[sample_case]" 3 0 "[]" 0 undefined undefined]] by auto
qed

end
