(* ===== verification/Holdout.thy ===== *)
theory Holdout
  imports Evals
begin

text \<open>
  How the holdout of the evaluation comes about: \<^verbatim>\<open>evals/mine_candidates.py\<close> takes candidates from the history,
  \<^verbatim>\<open>evals/holdout_sheet.py\<close> writes them to a sheet of unjudged rows, lets a person judge the rows in a terminal
  dialogue and builds cases from judged rows only.  The output of git, the JSON decoder, the validation of a label
  and the parser of a date are parameters.  A terminal is the list of the lines that are still to be read; what is
  printed is left out.  A sheet is the list of its rows, each a dictionary.
\<close>

section \<open>Candidates\<close>

definition estimate_diff_tokens :: "string \<Rightarrow> int" where
  "estimate_diff_tokens t = (if t = [] then 0 else max 1 ((int (length t) + 3) div 4))"

definition even_sample :: "'a list \<Rightarrow> int \<Rightarrow> 'a list" where
  "even_sample items n =
     (if n \<le> 0 \<or> items = [] then []
      else if int (length items) \<le> n then items
      else map (\<lambda>i. items ! ((i * length items) div nat n)) [0..<nat n])"

record eval_candidate =
  ea_source_evidence :: "string list"
  ea_diff :: string
  ea_committed_at :: "string option"
  ea_sha :: string
  ea_files :: "string list"

record skipped_mine_commit =
  sm_sha :: string
  sm_subject :: string
  sm_token_count :: int
  sm_token_budget :: int

definition stripped_lines :: "string \<Rightarrow> string list" where
  "stripped_lines t = filter (\<lambda>l. l \<noteq> []) (map py_strip (splitlines t))"

text \<open>One commit: the subject with the committer date (\<open>%s%n%cs\<close>), the touched files and the patch.\<close>

definition mine_commit ::
  "int \<Rightarrow> (string \<Rightarrow> string) \<Rightarrow> (string \<Rightarrow> string) \<Rightarrow> (string \<Rightarrow> string) \<Rightarrow> string \<Rightarrow> skipped_mine_commit + eval_candidate" where
  "mine_commit budget meta_of files_of patch_of sha =
     (let meta = splitlines (meta_of sha);
          first = (case meta of [] \<Rightarrow> [] | m # _ \<Rightarrow> py_strip m);
          subject = (if first = [] then sha else first);
          committed = (case meta of _ # d # _ \<Rightarrow> if py_strip d = [] then None else Some (py_strip d) | _ \<Rightarrow> None);
          patch = patch_of sha;
          tokens = estimate_diff_tokens patch
      in if budget < tokens
         then Inl \<lparr>sm_sha = sha, sm_subject = subject, sm_token_count = tokens, sm_token_budget = budget\<rparr>
         else Inr \<lparr>ea_source_evidence = [subject], ea_diff = patch, ea_committed_at = committed, ea_sha = sha,
                   ea_files = stripped_lines (files_of sha)\<rparr>)"

definition mine_eval_candidates ::
  "int \<Rightarrow> (string \<Rightarrow> string) \<Rightarrow> (string \<Rightarrow> string) \<Rightarrow> (string \<Rightarrow> string) \<Rightarrow> string list \<Rightarrow> eval_candidate list \<times> skipped_mine_commit list" where
  "mine_eval_candidates budget meta_of files_of patch_of shas =
     (let mined = map (mine_commit budget meta_of files_of patch_of) shas
      in (List.map_filter (\<lambda>x. case x of Inr c \<Rightarrow> Some c | Inl _ \<Rightarrow> None) mined,
          List.map_filter (\<lambda>x. case x of Inl s \<Rightarrow> Some s | Inr _ \<Rightarrow> None) mined))"

section \<open>The sheet\<close>

type_synonym sheet_row = "(string \<times> json) list"

definition padded3 :: "nat \<Rightarrow> string" where
  "padded3 n = (let s = show_nat n in replicate (3 - length s) CHR ''0'' @ s)"

definition candidate_row :: "string \<Rightarrow> nat \<Rightarrow> eval_candidate \<Rightarrow> sheet_row" where
  "candidate_row id_prefix index c =
     [(''id'', JStr (id_prefix @ ''-'' @ padded3 index)), (''sha'', JStr (ea_sha c)),
      (''committed_at'', JStr (case ea_committed_at c of None \<Rightarrow> [] | Some d \<Rightarrow> d)),
      (''subject'', JStr (case ea_source_evidence c of [] \<Rightarrow> [] | s # _ \<Rightarrow> s)), (''files'', JArr (map JStr (ea_files c))),
      (''token_count'', JInt (estimate_diff_tokens (ea_diff c))), (''source_evidence'', JArr (map JStr (ea_source_evidence c))),
      (''diff'', JStr (ea_diff c)), (''verdict'', JStr []), (''human_auditor'', JStr []), (''split'', JStr []), (''labels'', JArr [])]"

definition write_candidate_sheet :: "string \<Rightarrow> eval_candidate list \<Rightarrow> sheet_row list" where
  "write_candidate_sheet id_prefix candidates =
     map (\<lambda>(i, c). candidate_row id_prefix (Suc i) c) (enumerate 0 candidates)"

text \<open>\<open>str(row.get(k) or "")\<close>.\<close>

definition row_text :: "(json \<Rightarrow> string) \<Rightarrow> sheet_row \<Rightarrow> string \<Rightarrow> string" where
  "row_text repr row k = py_str repr (or_empty (json_get (JObj row) k))"

definition row_verdict :: "(json \<Rightarrow> string) \<Rightarrow> sheet_row \<Rightarrow> string" where
  "row_verdict repr row = py_strip (row_text repr row ''verdict'')"

text \<open>Iterating over a JSON value.\<close>

fun iter_json :: "json \<Rightarrow> json list result" where
  "iter_json (JArr vs) = Inr vs"
| "iter_json (JStr s) = Inr (map (\<lambda>c. JStr [c]) s)"
| "iter_json (JObj kvs) = Inr (map (\<lambda>kv. JStr (fst kv)) kvs)"
| "iter_json _ = Inl TypeError"

abbreviation HoldoutUnjudged :: py_exn where "HoldoutUnjudged \<equiv> Exception_Of ''HoldoutUnjudged''"

record sheet_env =
  se_repr :: "json \<Rightarrow> string"
  se_loads :: "string \<Rightarrow> json result"
  se_read_label :: "json \<Rightarrow> eval_label result"
  se_parse_date :: "string \<Rightarrow> int result"

definition include_case :: "sheet_env \<Rightarrow> sheet_row \<Rightarrow> eval_case result" where
  "include_case env row =
     (let auditor = py_strip (row_text (se_repr env) row ''human_auditor'');
          split_raw = py_strip (row_text (se_repr env) row ''split'');
          labels_raw = json_get (JObj row) ''labels'';
          committed_raw = py_strip (row_text (se_repr env) row ''committed_at'');
          diff = row_text (se_repr env) row ''diff'';
          evidence = json_get (JObj row) ''source_evidence''
      in if auditor = [] \<or> split_raw \<notin> {''dev'', ''holdout''} \<or> \<not> json_truthy labels_raw then Inl HoldoutUnjudged
         else if committed_raw = [] \<or> diff = [] \<or> \<not> json_truthy evidence then Inl HoldoutUnjudged
         else bind_r (bind_r (iter_json labels_raw) (map_r (se_read_label env))) (\<lambda>labels.
              bind_r (bind_r (iter_json evidence) (map_r str_field)) (\<lambda>sources.
              bind_r (se_parse_date env committed_raw) (\<lambda>committed.
                validate_eval_case
                  \<lparr>ec_id = row_text (se_repr env) row ''id'', ec_split = (if split_raw = ''holdout'' then Split_Holdout else Split_Dev),
                   ec_diff = diff, ec_expected_labels = labels, ec_source_evidence = sources, ec_human_auditor = Some auditor,
                   ec_committed_at = committed\<rparr>))))"

fun build_holdout :: "sheet_env \<Rightarrow> sheet_row list \<Rightarrow> eval_case list result" where
  "build_holdout env [] = Inr []"
| "build_holdout env (row # rows) =
     (let verdict = row_verdict (se_repr env) row
      in if verdict = [] then Inl HoldoutUnjudged
         else if verdict = ''exclude'' then build_holdout env rows
         else if verdict \<noteq> ''include'' then Inl HoldoutUnjudged
         else bind_r (include_case env row) (\<lambda>c. bind_r (build_holdout env rows) (\<lambda>cs. Inr (c # cs))))"

section \<open>Reading answers\<close>

type_synonym 'a dialogue = "(string list, 'a) act"

text \<open>\<open>None\<close> at the end of the input.\<close>

definition read_line :: "string option dialogue" where
  "read_line stdin = (case stdin of [] \<Rightarrow> (Inr None, []) | l # ls \<Rightarrow> (Inr (Some l), ls))"

text \<open>The pages of a diff: an empty line shows the next one, \<open>q\<close> the rest is skipped, anything else asks again.\<close>

fun page_diff :: "nat \<Rightarrow> string list \<Rightarrow> string list" where
  "page_diff remaining [] = []"
| "page_diff remaining (raw # rest) =
     (if remaining \<le> 40 then raw # rest
      else let token = py_lower (py_strip raw)
           in if token = ''q'' \<or> token = ''quit'' then rest
              else if token = [] then page_diff (remaining - 40) rest
              else page_diff remaining rest)"

definition show_diff :: "bool \<Rightarrow> string \<Rightarrow> unit dialogue" where
  "show_diff tty diff stdin = (Inr (), if tty then page_diff (max 1 (length (splitlines diff))) stdin else stdin)"

definition pick_numbered :: "string \<Rightarrow> 'a list \<Rightarrow> 'a option" where
  "pick_numbered raw options =
     (case int_of_string (py_strip raw) of
        Inl _ \<Rightarrow> None
      | Inr index \<Rightarrow> if index < 1 \<or> int (length options) < index then None else Some (options ! nat (index - 1)))"

definition parse_line_range :: "string \<Rightarrow> (int \<times> int) option" where
  "parse_line_range raw =
     (let t = py_strip raw; dash = CHR ''-'';
          bounds = (if dash \<in> set t
            then let left = takeWhile (\<lambda>c. c \<noteq> dash) t; right = drop 1 (dropWhile (\<lambda>c. c \<noteq> dash) t)
                 in if right = [] \<or> dash \<in> set right then Inl ValueError
                    else bind_r (int_of_string (py_strip left)) (\<lambda>a. bind_r (int_of_string (py_strip right)) (\<lambda>b. Inr (a, b)))
            else bind_r (int_of_string t) (\<lambda>a. Inr (a, a)))
      in if t = [] then None
         else case bounds of Inl _ \<Rightarrow> None | Inr (a, b) \<Rightarrow> if a < 1 \<or> b < a then None else Some (a, b))"

fun concern_text :: "concern \<Rightarrow> string" where
  "concern_text Security = ''security''"
| "concern_text Correctness = ''correctness''"
| "concern_text Tests = ''tests''"
| "concern_text Docs = ''docs''"
| "concern_text Maintainability = ''maintainability''"

definition label_json :: "eval_label \<Rightarrow> json" where
  "label_json l =
     JObj [(''concern'', JStr (concern_text (el_concern l))), (''category'', JStr (el_category l)),
           (''file_path'', JStr (el_file_path l)), (''line_start'', JInt (el_line_start l)), (''line_end'', JInt (el_line_end l))]"

definition parse_json_labels :: "sheet_env \<Rightarrow> string \<Rightarrow> eval_label list option" where
  "parse_json_labels env raw =
     (case se_loads env raw of
        Inr (JArr items) \<Rightarrow>
          if items = [] then None else (case map_r (se_read_label env) items of Inl _ \<Rightarrow> None | Inr ls \<Rightarrow> Some ls)
      | _ \<Rightarrow> None)"

section \<open>The dialogue for one row\<close>

definition concern_choices :: "concern list" where
  "concern_choices = [Security, Correctness, Tests, Docs, Maintainability]"

fun prompt_concern :: "sheet_env \<Rightarrow> bool \<Rightarrow> string list \<Rightarrow> (concern + eval_label list) option \<times> string list" where
  "prompt_concern env allow_json [] = (None, [])"
| "prompt_concern env allow_json (raw # rest) =
     (let s = py_strip raw
      in if allow_json \<and> startswith s ''['' then
           (case parse_json_labels env s of None \<Rightarrow> prompt_concern env allow_json rest | Some ls \<Rightarrow> (Some (Inr ls), rest))
         else (case pick_numbered s concern_choices of None \<Rightarrow> prompt_concern env allow_json rest | Some c \<Rightarrow> (Some (Inl c), rest)))"

fun prompt_category :: "string list \<Rightarrow> string option \<times> string list" where
  "prompt_category [] = (None, [])"
| "prompt_category (raw # rest) = (if py_strip raw \<noteq> [] then (Some (py_strip raw), rest) else prompt_category rest)"

fun prompt_file_path :: "string list \<Rightarrow> string list \<Rightarrow> string option \<times> string list" where
  "prompt_file_path paths [] = (None, [])"
| "prompt_file_path paths (raw # rest) =
     (case pick_numbered (py_strip raw) paths of None \<Rightarrow> prompt_file_path paths rest | Some p \<Rightarrow> (Some p, rest))"

fun prompt_line_range :: "string list \<Rightarrow> (int \<times> int) option \<times> string list" where
  "prompt_line_range [] = (None, [])"
| "prompt_line_range (raw # rest) =
     (case parse_line_range raw of None \<Rightarrow> prompt_line_range rest | Some b \<Rightarrow> (Some b, rest))"

text \<open>One label from the four answers, or a whole list given as JSON.  The constructor of the label checks its
  fields again.\<close>

definition prompt_one_label :: "sheet_env \<Rightarrow> string list \<Rightarrow> bool \<Rightarrow> ((eval_label + eval_label list) option) dialogue" where
  "prompt_one_label env files allow_json stdin =
     (case prompt_concern env allow_json stdin of
        (None, s) \<Rightarrow> (Inr None, s)
      | (Some (Inr ls), s) \<Rightarrow> (Inr (Some (Inr ls)), s)
      | (Some (Inl concern), s) \<Rightarrow>
          (case prompt_category s of
             (None, s) \<Rightarrow> (Inr None, s)
           | (Some category, s) \<Rightarrow>
               (case prompt_file_path (filter (\<lambda>p. py_strip p \<noteq> []) files) s of
                  (None, s) \<Rightarrow> (Inr None, s)
                | (Some path, s) \<Rightarrow>
                    (case prompt_line_range s of
                       (None, s) \<Rightarrow> (Inr None, s)
                     | (Some (lo, hi), s) \<Rightarrow>
                         (case make_eval_label concern category path lo hi of
                            Inl e \<Rightarrow> (Inl e, s)
                          | Inr l \<Rightarrow> (Inr (Some (Inl l)), s))))))"

fun prompt_add_another :: "string list \<Rightarrow> bool option \<times> string list" where
  "prompt_add_another [] = (None, [])"
| "prompt_add_another (raw # rest) =
     (let token = py_lower (py_strip raw)
      in if token = ''y'' \<or> token = ''yes'' then (Some True, rest)
         else if token = ''n'' \<or> token = ''no'' then (Some False, rest)
         else prompt_add_another rest)"

text \<open>Every prompt leaves a suffix of the input, a proper one when it has an answer.\<close>

lemma prompt_concern_length: "length (snd (prompt_concern env aj s)) \<le> length s" "fst (prompt_concern env aj s) \<noteq> None \<Longrightarrow> length (snd (prompt_concern env aj s)) < length s"
  by (induction s) (auto simp: Let_def split: option.splits)

lemma prompt_category_length: "length (snd (prompt_category s)) \<le> length s"
  by (induction s) auto

lemma prompt_file_path_length: "length (snd (prompt_file_path ps s)) \<le> length s"
  by (induction s) (auto split: option.splits)

lemma prompt_line_range_length: "length (snd (prompt_line_range s)) \<le> length s"
  by (induction s) (auto split: option.splits)

lemma prompt_add_another_length: "length (snd (prompt_add_another s)) \<le> length s"
  by (induction s) (auto simp: Let_def)

lemma page_diff_length: "length (page_diff n s) \<le> length s"
  by (induction n s rule: page_diff.induct) (auto simp: Let_def)

lemma prompt_one_label_length:
  "length (snd (prompt_one_label env files aj s)) \<le> length s"
  "fst (prompt_one_label env files aj s) = Inr (Some x) \<Longrightarrow> length (snd (prompt_one_label env files aj s)) < length s"
proof -
  obtain c s1 where c: "prompt_concern env aj s = (c, s1)" by (metis surj_pair)
  obtain g s2 where g: "prompt_category s1 = (g, s2)" by (metis surj_pair)
  obtain p s3 where p: "prompt_file_path (filter (\<lambda>p. py_strip p \<noteq> []) files) s2 = (p, s3)" by (metis surj_pair)
  obtain r s4 where r: "prompt_line_range s3 = (r, s4)" by (metis surj_pair)
  have len: "length s1 \<le> length s" "c \<noteq> None \<Longrightarrow> length s1 < length s" "length s2 \<le> length s1" "length s3 \<le> length s2" "length s4 \<le> length s3"
    using prompt_concern_length [of env aj s] prompt_category_length [of s1] prompt_file_path_length [of "filter (\<lambda>p. py_strip p \<noteq> []) files" s2]
      prompt_line_range_length [of s3] c g p r by auto
  show "length (snd (prompt_one_label env files aj s)) \<le> length s"
    unfolding prompt_one_label_def c using len g p r by (auto split: option.splits sum.splits)
  show "length (snd (prompt_one_label env files aj s)) < length s" if "fst (prompt_one_label env files aj s) = Inr (Some x)"
    using that unfolding prompt_one_label_def c using len g p r by (auto split: option.splits sum.splits)
qed

lemma label_answers_shorten:
  "prompt_one_label env files aj s = (Inr (Some x), s1) \<Longrightarrow> prompt_add_another s1 = (y, s2) \<Longrightarrow> length s2 < length s"
  using prompt_one_label_length(2) [of env files aj s x] prompt_add_another_length [of s1] by simp

function prompt_labels :: "sheet_env \<Rightarrow> string list \<Rightarrow> eval_label list \<Rightarrow> (eval_label list option) dialogue" where
  "prompt_labels env files labels stdin =
     (case prompt_one_label env files (labels = []) stdin of
        (Inl e, s) \<Rightarrow> (Inl e, s)
      | (Inr None, s) \<Rightarrow> (Inr None, s)
      | (Inr (Some (Inr ls)), s) \<Rightarrow> (Inr (Some ls), s)
      | (Inr (Some (Inl l)), s) \<Rightarrow>
          (case prompt_add_another s of
             (None, s) \<Rightarrow> (Inr None, s)
           | (Some False, s) \<Rightarrow> (Inr (Some (labels @ [l])), s)
           | (Some True, s) \<Rightarrow> prompt_labels env files (labels @ [l]) s))"
  by pat_completeness auto
termination
  by (relation "measure (\<lambda>(env, files, labels, stdin). length stdin)") (simp, simp, metis label_answers_shorten)

fun prompt_split :: "string list \<Rightarrow> eval_split option \<times> string list" where
  "prompt_split [] = (None, [])"
| "prompt_split (raw # rest) =
     (if py_strip raw = ''dev'' then (Some Split_Dev, rest)
      else if py_strip raw = ''holdout'' then (Some Split_Holdout, rest)
      else prompt_split rest)"

definition split_from_committed_at :: "int \<Rightarrow> int \<Rightarrow> eval_split" where
  "split_from_committed_at committed_at holdout_after =
     (let stub = \<lparr>ec_id = ''derive-split'', ec_split = Split_Dev, ec_diff = ''placeholder'',
                  ec_expected_labels = [\<lparr>el_concern = Correctness, el_category = ''derive'', el_file_path = ''derive.py'',
                                         el_line_start = 1, el_line_end = 1\<rparr>],
                  ec_source_evidence = [''derive''], ec_human_auditor = Some ''derive'', ec_committed_at = committed_at\<rparr>
      in ec_split (hd (assign_time_split holdout_after [stub])))"

datatype split_choice = Split_Stop | Split_Again | Split_Chosen eval_split

definition choose_split :: "sheet_env \<Rightarrow> int option \<Rightarrow> sheet_row \<Rightarrow> split_choice dialogue" where
  "choose_split env split_after row stdin =
     (case split_after of
        None \<Rightarrow> (case prompt_split stdin of (None, s) \<Rightarrow> (Inr Split_Stop, s) | (Some sp, s) \<Rightarrow> (Inr (Split_Chosen sp), s))
      | Some after \<Rightarrow>
          let raw = py_strip (row_text (se_repr env) row ''committed_at'')
          in if raw = [] then (Inr Split_Again, stdin)
             else (case se_parse_date env raw of
                     Inl e \<Rightarrow> (Inl e, stdin)
                   | Inr d \<Rightarrow> (Inr (Split_Chosen (split_from_committed_at d after)), stdin)))"

fun split_text :: "eval_split \<Rightarrow> string" where
  "split_text Split_Dev = ''dev''"
| "split_text Split_Holdout = ''holdout''"

definition excluded_row :: "sheet_row \<Rightarrow> sheet_row" where
  "excluded_row row = dict_set ''verdict'' (JStr ''exclude'') row"

definition included_row :: "string \<Rightarrow> eval_split \<Rightarrow> eval_label list \<Rightarrow> sheet_row \<Rightarrow> sheet_row" where
  "included_row auditor sp labels row =
     dict_set ''labels'' (JArr (map label_json labels)) (dict_set ''split'' (JStr (split_text sp))
       (dict_set ''human_auditor'' (JStr auditor) (dict_set ''verdict'' (JStr ''include'') row)))"

definition row_files :: "sheet_env \<Rightarrow> sheet_row \<Rightarrow> string list" where
  "row_files env row = (case json_get (JObj row) ''files'' of JArr vs \<Rightarrow> map (py_str (se_repr env)) vs | _ \<Rightarrow> [])"

lemma prompt_split_length: "length (snd (prompt_split s)) \<le> length s"
  by (induction s) auto

lemma prompt_labels_length: "length (snd (prompt_labels env files labels s)) \<le> length s"
proof (induction "length s" arbitrary: labels s rule: less_induct)
  case less
  obtain r s1 where r: "prompt_one_label env files (labels = []) s = (r, s1)" by (metis surj_pair)
  obtain y s2 where y: "prompt_add_another s1 = (y, s2)" by (metis surj_pair)
  have len: "length s1 \<le> length s" "length s2 \<le> length s1"
    using prompt_one_label_length(1) [of env files "labels = []" s] prompt_add_another_length [of s1] r y by simp_all
  show ?case
  proof (cases "\<exists>l. r = Inr (Some (Inl l)) \<and> y = Some True")
    case True
    then obtain l where l: "r = Inr (Some (Inl l))" "y = Some True" by blast
    with label_answers_shorten [of env files "labels = []" s "Inl l" s1 y s2] r y have "length s2 < length s" by simp
    with less [of s2 "labels @ [l]"] l r y show ?thesis
      by (subst prompt_labels.simps) (simp del: prompt_labels.simps)
  next
    case False
    with r y len show ?thesis
      by (subst prompt_labels.simps) (auto simp del: prompt_labels.simps split: sum.splits option.splits bool.splits)
  qed
qed

lemma choose_split_length: "length (snd (choose_split env after row s)) \<le> length s"
  using prompt_split_length [of s] by (auto simp: choose_split_def Let_def split: option.splits prod.splits sum.splits)

lemma shown_stdin:
  "(if b then stdin else snd (show_diff tty d stdin)) = c # rest \<Longrightarrow> length rest < length stdin"
  using page_diff_length [of "max 1 (length (splitlines d))" stdin] by (auto simp: show_diff_def split: if_splits)

lemma judged_stdin:
  "(if b then stdin else snd (show_diff tty d stdin)) = c # rest \<Longrightarrow> (r, rest1) = prompt_labels env fs ls rest \<Longrightarrow>
   (q, rest2) = choose_split env after row rest1 \<Longrightarrow> length rest2 < length stdin"
  using shown_stdin [of b stdin tty d c rest] prompt_labels_length [of env fs ls rest] choose_split_length [of env after row rest1]
  by (metis snd_conv le_less_trans le_trans)

section \<open>Judging a sheet\<close>

text \<open>The loop of \<open>review_sheet\<close>: the sheet is written after every judgement, so the rows at the end, also of an
  exception, are the file.  \<open>shown\<close> is the row whose diff was shown last.\<close>

function review_from ::
  "sheet_env \<Rightarrow> string \<Rightarrow> int option \<Rightarrow> bool \<Rightarrow> sheet_row list \<Rightarrow> nat \<Rightarrow> nat option \<Rightarrow> string list \<Rightarrow> unit result \<times> sheet_row list" where
  "review_from env auditor after tty rows index shown stdin =
     (if length rows \<le> index then (Inr (), rows)
      else if row_verdict (se_repr env) (rows ! index) \<noteq> [] then review_from env auditor after tty rows (Suc index) shown stdin
      else case (if shown = Some index then stdin else snd (show_diff tty (row_text (se_repr env) (rows ! index) ''diff'') stdin)) of
        [] \<Rightarrow> (Inr (), rows)
      | command # rest \<Rightarrow>
          (let token = py_lower (py_strip command)
           in if token = ''q'' \<or> token = ''quit'' then (Inr (), rows)
              else if token = ''s'' \<or> token = ''skip'' then review_from env auditor after tty rows (Suc index) (Some index) rest
              else if token = ''e'' \<or> token = ''exclude''
              then review_from env auditor after tty (rows[index := excluded_row (rows ! index)]) (Suc index) (Some index) rest
              else if token = ''i'' \<or> token = ''include'' then
                (case prompt_labels env (row_files env (rows ! index)) [] rest of
                   (Inl e, _) \<Rightarrow> (Inl e, rows)
                 | (Inr None, _) \<Rightarrow> (Inr (), rows)
                 | (Inr (Some labels), rest1) \<Rightarrow>
                     (case choose_split env after (rows ! index) rest1 of
                        (Inl e, _) \<Rightarrow> (Inl e, rows)
                      | (Inr Split_Stop, _) \<Rightarrow> (Inr (), rows)
                      | (Inr Split_Again, rest2) \<Rightarrow> review_from env auditor after tty rows index (Some index) rest2
                      | (Inr (Split_Chosen sp), rest2) \<Rightarrow>
                          review_from env auditor after tty (rows[index := included_row auditor sp labels (rows ! index)]) (Suc index) (Some index) rest2))
              else review_from env auditor after tty rows index (Some index) rest))"
  by pat_completeness auto

termination
proof (relation "measures [\<lambda>(env, auditor, after, tty, rows, index, shown, stdin). length stdin,
    \<lambda>(env, auditor, after, tty, rows, index, shown, stdin). length rows - index]", goal_cases)
  case 1
  then show ?case by simp
next
  case 2
  then show ?case by simp
qed (auto simp del: prompt_labels.simps intro: shown_stdin judged_stdin)

declare review_from.simps [simp del] prompt_labels.simps [simp del]

definition review_sheet ::
  "sheet_env \<Rightarrow> string \<Rightarrow> int option \<Rightarrow> bool \<Rightarrow> sheet_row list \<Rightarrow> string list \<Rightarrow> unit result \<times> sheet_row list" where
  "review_sheet env auditor after tty rows stdin =
     (if py_strip auditor = [] then (Inl ValueError, rows)
      else review_from env (py_strip auditor) after tty rows 0 None stdin)"

section \<open>What the dialogue may change\<close>

lemma map_r_props: "map_r f xs = Inr ys \<Longrightarrow> length ys = length xs \<and> (\<forall>y \<in> set ys. \<exists>x \<in> set xs. f x = Inr y)"
proof (induction xs arbitrary: ys)
  case (Cons a xs)
  then obtain z zs where "f a = Inr z" "map_r f xs = Inr zs" "ys = z # zs" by (auto simp: bind_r_Inr)
  with Cons.IH [of zs] show ?case by auto
qed simp

definition label_ok :: "eval_label \<Rightarrow> bool" where
  "label_ok l \<longleftrightarrow> el_category l \<noteq> [] \<and> el_file_path l \<noteq> [] \<and> 0 < el_line_start l \<and> el_line_start l \<le> el_line_end l"

definition labels_ok :: "eval_label list \<Rightarrow> bool" where
  "labels_ok ls \<longleftrightarrow> ls \<noteq> [] \<and> (\<forall>l \<in> set ls. label_ok l)"

text \<open>What the code relies on of pydantic: a label that was validated keeps the constraints of its fields.\<close>

definition validates_labels :: "sheet_env \<Rightarrow> bool" where
  "validates_labels env \<longleftrightarrow> (\<forall>j l. se_read_label env j = Inr l \<longrightarrow> label_ok l)"

lemma parse_json_labels_ok: "validates_labels env \<Longrightarrow> parse_json_labels env raw = Some ls \<Longrightarrow> labels_ok ls"
  by (auto simp: parse_json_labels_def labels_ok_def validates_labels_def split: sum.splits json.splits if_splits dest!: map_r_props)

lemma prompt_concern_labels: "validates_labels env \<Longrightarrow> prompt_concern env aj s = (Some (Inr ls), t) \<Longrightarrow> labels_ok ls"
  by (induction s) (auto simp: Let_def parse_json_labels_ok split: if_splits option.splits)

lemma prompt_one_label_ok:
  assumes "validates_labels env" "prompt_one_label env files aj s = (Inr (Some x), t)"
  shows "case x of Inl l \<Rightarrow> label_ok l | Inr ls \<Rightarrow> labels_ok ls"
  using assms prompt_concern_labels [OF assms(1), of aj s]
  by (auto simp: prompt_one_label_def make_eval_label_def label_ok_def split: option.splits prod.splits sum.splits if_splits)

lemma prompt_labels_ok:
  "validates_labels env \<Longrightarrow> \<forall>l \<in> set labels. label_ok l \<Longrightarrow> prompt_labels env files labels s = (Inr (Some ls), t) \<Longrightarrow> labels_ok ls"
proof (induction "length s" arbitrary: labels s rule: less_induct)
  case less
  obtain r s1 where r: "prompt_one_label env files (labels = []) s = (r, s1)" by (metis surj_pair)
  obtain y s2 where y: "prompt_add_another s1 = (y, s2)" by (metis surj_pair)
  from less.prems(3) r y obtain x where x: "r = Inr (Some x)"
    by (subst (asm) prompt_labels.simps) (auto split: sum.splits option.splits)
  from prompt_one_label_ok [OF less.prems(1) r [unfolded x]] have ok: "case x of Inl l \<Rightarrow> label_ok l | Inr ls \<Rightarrow> labels_ok ls" .
  show ?case
  proof (cases x)
    case (Inr ls')
    with less.prems(3) r x ok show ?thesis by (subst (asm) prompt_labels.simps) simp
  next
    case (Inl l)
    with ok less.prems(2) have all: "\<forall>l' \<in> set (labels @ [l]). label_ok l'" by simp
    from Inl less.prems(3) r x y have "(y = Some False \<and> ls = labels @ [l]) \<or> (y = Some True \<and> prompt_labels env files (labels @ [l]) s2 = (Inr (Some ls), t))"
      by (subst (asm) prompt_labels.simps) (auto split: option.splits bool.splits)
    with all less.hyps [of s2 "labels @ [l]"] label_answers_shorten [OF r [unfolded x] y] less.prems(1) show ?thesis
      by (auto simp: labels_ok_def)
  qed
qed

text \<open>A judgement of an unjudged row by this auditor.\<close>

inductive judged :: "sheet_env \<Rightarrow> string \<Rightarrow> sheet_row \<Rightarrow> sheet_row \<Rightarrow> bool" for env auditor where
  exclude: "row_verdict (se_repr env) row = [] \<Longrightarrow> judged env auditor row (excluded_row row)"
| incl: "row_verdict (se_repr env) row = [] \<Longrightarrow> labels_ok labels \<Longrightarrow> judged env auditor row (included_row auditor sp labels row)"

definition sheet_step :: "sheet_env \<Rightarrow> string \<Rightarrow> sheet_row list \<Rightarrow> sheet_row list \<Rightarrow> bool" where
  "sheet_step env auditor rows rows' \<longleftrightarrow> list_all2 (\<lambda>r r'. r' = r \<or> judged env auditor r r') rows rows'"

lemma verdict_of_set: "row_verdict repr (dict_set ''verdict'' (JStr v) row) = py_strip v"
  by (cases "v = []") (auto simp: row_verdict_def row_text_def or_empty_def py_strip_def)

lemma judged_verdict: "judged env auditor r r' \<Longrightarrow> row_verdict (se_repr env) r' = ''exclude'' \<or> row_verdict (se_repr env) r' = ''include''"
proof (induction rule: judged.induct)
  case (exclude row)
  have "py_strip ''exclude'' = ''exclude''" by code_simp
  then show ?case by (simp add: excluded_row_def verdict_of_set)
next
  case (incl row labels sp)
  have "py_strip ''include'' = ''include''" by code_simp
  then show ?case by (simp add: included_row_def row_verdict_def row_text_def or_empty_def)
qed

lemma sheet_step_refl: "sheet_step env auditor rows rows"
  by (simp add: sheet_step_def list_all2_refl)

lemma sheet_step_update:
  assumes step: "sheet_step env auditor (rows[i := r]) rows'" and r: "judged env auditor (rows ! i) r"
  shows "sheet_step env auditor rows rows'"
  unfolding sheet_step_def list_all2_conv_all_nth
proof (intro conjI allI impI)
  show "length rows = length rows'" using step by (simp add: sheet_step_def list_all2_conv_all_nth)
  fix k assume k: "k < length rows"
  then have "rows' ! k = rows[i := r] ! k \<or> judged env auditor (rows[i := r] ! k) (rows' ! k)"
    using step by (auto simp: sheet_step_def list_all2_conv_all_nth)
  moreover have "\<not> judged env auditor r x" for x
    using judged_verdict [OF r] by (auto elim: judged.cases)
  ultimately show "rows' ! k = rows ! k \<or> judged env auditor (rows ! k) (rows' ! k)"
    using r k by (cases "k = i") auto
qed

lemma review_from_judges:
  "validates_labels env \<Longrightarrow> review_from env auditor after tty rows index shown stdin = (res, rows') \<Longrightarrow> sheet_step env auditor rows rows'"
proof (induction "length stdin * Suc (length rows) + (length rows - index)" arbitrary: rows index shown stdin rule: less_induct)
  case less
  note run = less.prems(2) [unfolded review_from.simps [of env auditor after tty rows index shown stdin]]
  let ?row = "rows ! index"
  have later: "sheet_step env auditor rs rows'" if "length s < length stdin" "length rs = length rows"
    "review_from env auditor after tty rs i sh s = (res, rows')" for rs i sh s
  proof (rule less.hyps [OF _ less.prems(1) that(3)])
    have "Suc (length s) * Suc (length rows) \<le> length stdin * Suc (length rows)" using that(1) by (intro mult_le_mono1) simp
    then show "length s * Suc (length rs) + (length rs - i) < length stdin * Suc (length rows) + (length rows - index)"
      using that(2) by simp
  qed
  show ?case
  proof (cases "index < length rows")
    case False
    with run show ?thesis by (simp add: sheet_step_refl)
  next
    case inside: True
    show ?thesis
    proof (cases "row_verdict (se_repr env) ?row = []")
      case False
      with run inside have "review_from env auditor after tty rows (Suc index) shown stdin = (res, rows')" by simp
      with inside less.prems(1) show ?thesis by (intro less.hyps) auto
    next
      case open_row: True
      let ?in = "if shown = Some index then stdin else snd (show_diff tty (row_text (se_repr env) ?row ''diff'') stdin)"
      show ?thesis
      proof (cases ?in)
        case Nil
        with run inside open_row show ?thesis by (simp add: sheet_step_refl)
      next
        case (Cons command rest)
        have short: "length rest < length stdin" by (rule shown_stdin [OF Cons])
        obtain lab rest1 where lab: "prompt_labels env (row_files env ?row) [] rest = (lab, rest1)" by (metis surj_pair)
        obtain sp rest2 where sp: "choose_split env after ?row rest1 = (sp, rest2)" by (metis surj_pair)
        have short2: "length rest2 < length stdin" by (rule judged_stdin [OF Cons lab [symmetric] sp [symmetric]])
        from run inside open_row Cons lab sp consider
          (stay) "rows' = rows"
        | (go) i s where "length s < length stdin" "review_from env auditor after tty rows i (Some index) s = (res, rows')"
        | (ex) "review_from env auditor after tty (rows[index := excluded_row ?row]) (Suc index) (Some index) rest = (res, rows')"
        | (inc) labels split where "lab = Inr (Some labels)" "sp = Inr (Split_Chosen split)"
            "review_from env auditor after tty (rows[index := included_row auditor split labels ?row]) (Suc index) (Some index) rest2 = (res, rows')"
          using short short2
          by (auto simp: Let_def split: if_splits sum.splits option.splits split_choice.splits)
        then show ?thesis
        proof cases
          case stay
          then show ?thesis by (simp add: sheet_step_refl)
        next
          case (go i s)
          then show ?thesis using later by blast
        next
          case ex
          with later [OF short] have "sheet_step env auditor (rows[index := excluded_row ?row]) rows'" by simp
          then show ?thesis by (rule sheet_step_update) (rule exclude [OF open_row])
        next
          case (inc labels split)
          with later [OF short2] have "sheet_step env auditor (rows[index := included_row auditor split labels ?row]) rows'" by simp
          moreover have "labels_ok labels" using prompt_labels_ok [OF less.prems(1), of "[]"] lab inc(1) by simp
          ultimately show ?thesis by (rule sheet_step_update [OF _ incl [OF open_row]])
        qed
      qed
    qed
  qed
qed

section \<open>Only judged rows become cases\<close>

lemma build_holdout_spec:
  "build_holdout env rows = Inr cases \<Longrightarrow>
     (\<forall>row \<in> set rows. row_verdict (se_repr env) row \<in> {''include'', ''exclude''}) \<and>
     list_all2 (\<lambda>row c. include_case env row = Inr c) (filter (\<lambda>row. row_verdict (se_repr env) row = ''include'') rows) cases"
proof (induction rows arbitrary: cases)
  case (Cons row rows)
  then show ?case by (auto simp: Let_def bind_r_Inr split: if_splits)
qed simp

lemma include_case_ok:
  "include_case env row = Inr c \<Longrightarrow> eval_case_ok c \<and> ec_expected_labels c \<noteq> [] \<and>
     ec_human_auditor c = Some (py_strip (row_text (se_repr env) row ''human_auditor'')) \<and> py_strip (row_text (se_repr env) row ''human_auditor'') \<noteq> []"
  by (auto simp: include_case_def Let_def bind_r_Inr validate_eval_case_def eval_case_ok_def split: if_splits)

lemma fresh_row_unjudged: "row_verdict repr (candidate_row p i c) = []"
  by (simp add: row_verdict_def row_text_def candidate_row_def or_empty_def py_strip_def)

lemma fresh_sheet_unbuildable: "candidates \<noteq> [] \<Longrightarrow> build_holdout env (write_candidate_sheet p candidates) = Inl HoldoutUnjudged"
  by (cases candidates) (simp_all add: write_candidate_sheet_def fresh_row_unjudged)

section \<open>Properties\<close>

text \<open>C27. No case without a human.  Whatever is typed, judging a sheet changes a row only from unjudged to excluded
  or to included with the auditor's name, a split and a non-empty list of well-formed labels, and every other row
  stays as it was; without an auditor nothing changes.  A sheet as it was mined builds no holdout.  When a sheet builds one,
  every row was judged, and the cases are those of the included rows in their order, each with a named auditor and
  labels.\<close>

theorem no_case_without_a_human:
  "(validates_labels env \<and> review_sheet env auditor after tty rows stdin = (res, rows') \<longrightarrow>
     (if py_strip auditor = [] then rows' = rows
      else list_all2 (\<lambda>r r'. r' = r \<or> judged env (py_strip auditor) r r') rows rows')) \<and>
   (candidates \<noteq> [] \<longrightarrow> build_holdout env (write_candidate_sheet id_prefix candidates) = Inl HoldoutUnjudged) \<and>
   (build_holdout env rows = Inr cases \<longrightarrow>
     (\<forall>row \<in> set rows. row_verdict (se_repr env) row \<in> {''include'', ''exclude''}) \<and>
     list_all2 (\<lambda>row c. eval_case_ok c \<and> ec_expected_labels c \<noteq> [] \<and>
         ec_human_auditor c = Some (py_strip (row_text (se_repr env) row ''human_auditor'')) \<and> ec_human_auditor c \<noteq> Some [])
       (filter (\<lambda>row. row_verdict (se_repr env) row = ''include'') rows) cases)"
proof (intro conjI impI)
  assume "validates_labels env \<and> review_sheet env auditor after tty rows stdin = (res, rows')"
  then show "if py_strip auditor = [] then rows' = rows else list_all2 (\<lambda>r r'. r' = r \<or> judged env (py_strip auditor) r r') rows rows'"
    using review_from_judges [of env "py_strip auditor" after tty rows 0 None stdin res rows']
    by (auto simp: review_sheet_def sheet_step_def)
next
  assume "candidates \<noteq> []"
  then show "build_holdout env (write_candidate_sheet id_prefix candidates) = Inl HoldoutUnjudged" by (rule fresh_sheet_unbuildable)
next
  assume b: "build_holdout env rows = Inr cases"
  then show "\<forall>row \<in> set rows. row_verdict (se_repr env) row \<in> {''include'', ''exclude''}" using build_holdout_spec by blast
  show "list_all2 (\<lambda>row c. eval_case_ok c \<and> ec_expected_labels c \<noteq> [] \<and>
         ec_human_auditor c = Some (py_strip (row_text (se_repr env) row ''human_auditor'')) \<and> ec_human_auditor c \<noteq> Some [])
       (filter (\<lambda>row. row_verdict (se_repr env) row = ''include'') rows) cases"
    using conjunct2 [OF build_holdout_spec [OF b]] by (rule list_all2_mono) (use include_case_ok in auto)
qed

definition sample_sheet_env :: sheet_env where
  "sample_sheet_env = \<lparr>se_repr = (\<lambda>_. []), se_loads = (\<lambda>_. Inl ValueError), se_read_label = (\<lambda>_. Inl ValueError), se_parse_date = (\<lambda>_. Inr 5)\<rparr>"

definition sample_sheet :: "sheet_row list" where
  "sample_sheet = write_candidate_sheet ''cand''
     [\<lparr>ea_source_evidence = [''fix''], ea_diff = ''d'', ea_committed_at = Some ''2026-01-02'', ea_sha = ''a1'', ea_files = [''a.py'']\<rparr>]"

definition sample_script :: "string list" where
  "sample_script = [''i'', ''2'', ''null check'', ''1'', ''3-4'', ''n'', ''holdout'']"

theorem no_case_without_a_human_witness:
  "\<exists>rows'. review_sheet sample_sheet_env ''ada'' None False sample_sheet sample_script = (Inr (), rows') \<and>
     list_all2 (\<lambda>r r'. r' = r \<or> judged sample_sheet_env ''ada'' r r') sample_sheet rows' \<and> rows' \<noteq> sample_sheet"
proof -
  have "validates_labels sample_sheet_env" by (simp add: validates_labels_def sample_sheet_env_def)
  moreover have run: "fst (review_sheet sample_sheet_env ''ada'' None False sample_sheet sample_script) = Inr ()"
    "snd (review_sheet sample_sheet_env ''ada'' None False sample_sheet sample_script) \<noteq> sample_sheet" by code_simp+
  have "py_strip ''ada'' = ''ada''" by code_simp
  ultimately show ?thesis
    using conjunct1 [OF no_case_without_a_human [of sample_sheet_env "''ada''" None False sample_sheet sample_script "Inr ()"
        "snd (review_sheet sample_sheet_env ''ada'' None False sample_sheet sample_script)" "[]" "[]" "[]"]] run
    by (intro exI [of _ "snd (review_sheet sample_sheet_env ''ada'' None False sample_sheet sample_script)"]) (auto simp: prod_eq_iff)
qed

end
