(* ===== verification/Chunking.thy ===== *)
theory Chunking
  imports Pull_Request
begin

text \<open>
  Splitting source files into retrieval chunks (\<open>retrieval/chunk_code.py\<close>): the walk over the
  syntax tree of a Python file, the overlapping line windows of every other file, and the walk over
  the checked-out tree.  The parser of the \<open>ast\<close> module, SHA-256 and the UTF-8 decoder are
  parameters; the file system is a tree of directories whose linked directories are left out, since
  \<open>os.walk\<close> does not follow them.  Line numbers are natural numbers, counted from 1.
\<close>

section \<open>Chunks\<close>

definition window_size_lines :: nat where
  "window_size_lines = 40"

definition window_overlap_lines :: nat where
  "window_overlap_lines = 10"

definition skip_directories :: "string list" where
  "skip_directories = [''.git'', ''__pycache__'']"

definition language_by_suffix :: "(string \<times> string) list" where
  "language_by_suffix =
     [(''.py'', ''python''), (''.js'', ''javascript''), (''.ts'', ''typescript''), (''.tsx'', ''typescript''),
      (''.jsx'', ''javascript''), (''.md'', ''markdown''), (''.json'', ''json''), (''.rs'', ''rust''), (''.go'', ''go'')]"

datatype chunking_strategy = Ast_Python | Line_Window

record code_chunk =
  ch_file_path :: string
  ch_language :: string
  ch_start_line :: nat
  ch_end_line :: nat
  ch_content :: string
  ch_content_hash :: string
  ch_identity :: string
  ch_strategy :: chunking_strategy
  ch_symbol_name :: "string option"

text \<open>\<open>Path(p).name\<close> and \<open>Path(p).suffix\<close>: empty components and single dots vanish; the suffix starts at the
  last dot of the name, unless that dot is its first or its last character.\<close>

fun path_parts :: "string \<Rightarrow> string list" where
  "path_parts [] = [[]]"
| "path_parts (c # cs) =
     (if c = CHR ''/'' then [] # path_parts cs
      else case path_parts cs of [] \<Rightarrow> [[c]] | p # ps \<Rightarrow> (c # p) # ps)"

definition path_name :: "string \<Rightarrow> string" where
  "path_name path =
     (case rev (filter (\<lambda>p. p \<noteq> [] \<and> p \<noteq> ''.'') (path_parts path)) of [] \<Rightarrow> [] | n # _ \<Rightarrow> n)"

definition path_suffix :: "string \<Rightarrow> string" where
  "path_suffix path =
     (let name = path_name path;
          ext = rev (takeWhile (\<lambda>c. c \<noteq> CHR ''.'') (rev name))
      in if CHR ''.'' \<in> set name \<and> ext \<noteq> [] \<and> length ext + 1 < length name then CHR ''.'' # ext else [])"

definition language_for :: "string \<Rightarrow> string" where
  "language_for file_path =
     (let suf = py_lower (path_suffix file_path)
      in case map_of language_by_suffix suf of
           Some language \<Rightarrow> language
         | None \<Rightarrow> if suf \<noteq> [] then (if startswith suf ''.'' then tl suf else suf) else ''text'')"

definition slice_lines :: "string list \<Rightarrow> nat \<Rightarrow> nat \<Rightarrow> string" where
  "slice_lines lines start_line end_line = py_join [newline] (drop (start_line - 1) (take end_line lines))"

definition make_chunk ::
  "(string \<Rightarrow> string) \<Rightarrow> string \<Rightarrow> nat \<Rightarrow> nat \<Rightarrow> string \<Rightarrow> chunking_strategy \<Rightarrow> string \<Rightarrow> string option \<Rightarrow> code_chunk" where
  "make_chunk sha256 file_path start_line end_line content strategy identity symbol_name =
     \<lparr>ch_file_path = file_path, ch_language = language_for file_path, ch_start_line = start_line,
      ch_end_line = end_line, ch_content = content, ch_content_hash = sha256 content,
      ch_identity = identity, ch_strategy = strategy, ch_symbol_name = symbol_name\<rparr>"

section \<open>Line windows\<close>

function window_chunks :: "(string \<Rightarrow> string) \<Rightarrow> string \<Rightarrow> string list \<Rightarrow> nat \<Rightarrow> code_chunk list" where
  "window_chunks sha256 file_path lines start =
     (if start \<le> length lines
      then let end_line = min (start + window_size_lines - 1) (length lines);
               chunk = make_chunk sha256 file_path start end_line (slice_lines lines start end_line) Line_Window
                 (file_path @ '':window:'' @ show_nat start @ '':'' @ show_nat end_line) None
           in chunk # (if length lines \<le> end_line then []
                       else window_chunks sha256 file_path lines (start + (window_size_lines - window_overlap_lines)))
      else [])"
  by pat_completeness auto
termination
  by (relation "measure (\<lambda>(sha256, file_path, lines, start). Suc (length lines) - start)")
    (auto simp: window_size_lines_def window_overlap_lines_def)

declare window_chunks.simps [simp del]

definition chunk_windows :: "(string \<Rightarrow> string) \<Rightarrow> string \<Rightarrow> string \<Rightarrow> code_chunk list" where
  "chunk_windows sha256 file_path source =
     (let lines = splitlines source in if lines = [] then [] else window_chunks sha256 file_path lines 1)"

section \<open>Python definitions\<close>

text \<open>What the walk reads of a syntax tree: functions and classes with their name, line, the lines of their
  decorators, their last line and their children (\<open>ast.iter_child_nodes\<close>); every other node is its
  children.\<close>

datatype ast_node =
    Ast_Def string nat "nat list" "nat option" "ast_node list"
  | Ast_Other "ast_node list"

definition node_line_range :: "nat \<Rightarrow> nat list \<Rightarrow> nat option \<Rightarrow> nat \<times> nat" where
  "node_line_range lineno decorators end_lineno =
     (foldl (\<lambda>start d. if d < start then d else start) lineno decorators,
      case end_lineno of Some e \<Rightarrow> e | None \<Rightarrow> lineno)"

definition qualify :: "string \<Rightarrow> string \<Rightarrow> string" where
  "qualify outer name = (if outer \<noteq> [] then outer @ ''.'' @ name else name)"

fun walk_python ::
  "(string \<Rightarrow> string) \<Rightarrow> string \<Rightarrow> string list \<Rightarrow> string \<Rightarrow> ast_node list \<Rightarrow> code_chunk list" where
  "walk_python sha256 file_path lines outer [] = []"
| "walk_python sha256 file_path lines outer (Ast_Def name lineno decorators end_lineno kids # rest) =
     (let qualified = qualify outer name;
          (start, end_line) = node_line_range lineno decorators end_lineno
      in make_chunk sha256 file_path start end_line (slice_lines lines start end_line) Ast_Python
           (file_path @ ''::'' @ qualified) (Some qualified) #
         walk_python sha256 file_path lines qualified kids @ walk_python sha256 file_path lines outer rest)"
| "walk_python sha256 file_path lines outer (Ast_Other kids # rest) =
     walk_python sha256 file_path lines outer kids @ walk_python sha256 file_path lines outer rest"

text \<open>\<open>parse\<close> yields the children of the module, or raises \<open>SyntaxError\<close> or another exception.\<close>

type_synonym parser = "string \<Rightarrow> ast_node list result"

definition syntax_error :: py_exn where
  "syntax_error = Exception_Of ''SyntaxError''"

definition chunk_python :: "parser \<Rightarrow> (string \<Rightarrow> string) \<Rightarrow> string \<Rightarrow> string \<Rightarrow> code_chunk list result" where
  "chunk_python parse sha256 file_path source =
     bind_r (parse source) (\<lambda>tree. Inr (walk_python sha256 file_path (splitlines source) [] tree))"

definition chunk_source :: "parser \<Rightarrow> (string \<Rightarrow> string) \<Rightarrow> string \<Rightarrow> string \<Rightarrow> code_chunk list result" where
  "chunk_source parse sha256 file_path source =
     (if path_suffix file_path = ''.py''
      then case chunk_python parse sha256 file_path source of
             Inr chunks \<Rightarrow> Inr chunks
           | Inl e \<Rightarrow> if e = syntax_error then Inr (chunk_windows sha256 file_path source) else Inl e
      else Inr (chunk_windows sha256 file_path source))"

section \<open>The checked-out tree\<close>

record fs_file =
  ff_is_symlink :: bool
  ff_is_file :: bool
  ff_bytes :: string

datatype fs_dir = Fs_Dir "(string \<times> fs_dir) list" "(string \<times> fs_file) list"

text \<open>\<open>os.walk\<close>, top down, with the pruning of \<open>dirnames\<close> in its body: the files of a directory, then its
  directories in order.  The path of a file is relative to the root.\<close>

definition join_path :: "string \<Rightarrow> string \<Rightarrow> string" where
  "join_path dir name = (if dir = [] then name else dir @ ''/'' @ name)"

fun walk_dirs :: "string \<Rightarrow> (string \<times> fs_dir) list \<Rightarrow> (string \<times> fs_file) list" where
  "walk_dirs dir [] = []"
| "walk_dirs dir ((name, Fs_Dir dirs files) # rest) =
     (if name \<in> set skip_directories then []
      else map (\<lambda>(f, x). (join_path (join_path dir name) f, x)) files @ walk_dirs (join_path dir name) dirs) @
     walk_dirs dir rest"

fun os_walk :: "fs_dir \<Rightarrow> (string \<times> fs_file) list" where
  "os_walk (Fs_Dir dirs files) = files @ walk_dirs [] dirs"

definition readable_text ::
  "(string \<Rightarrow> string option) \<Rightarrow> string set \<Rightarrow> string set \<Rightarrow> string \<Rightarrow> fs_file \<Rightarrow> string option" where
  "readable_text decode generated ignored relative f =
     (if ff_is_symlink f \<or> \<not> ff_is_file f then None
      else if relative \<in> generated \<or> relative \<in> ignored then None
      else if CHR 0x00 \<in> set (ff_bytes f) then None
      else decode (ff_bytes f))"

fun chunk_files ::
  "parser \<Rightarrow> (string \<Rightarrow> string) \<Rightarrow> (string \<Rightarrow> string option) \<Rightarrow> string set \<Rightarrow> string set \<Rightarrow>
   (string \<times> fs_file) list \<Rightarrow> code_chunk list \<Rightarrow> code_chunk list result" where
  "chunk_files parse sha256 decode generated ignored [] chunks = Inr chunks"
| "chunk_files parse sha256 decode generated ignored ((relative, f) # rest) chunks =
     (case readable_text decode generated ignored relative f of
        None \<Rightarrow> chunk_files parse sha256 decode generated ignored rest chunks
      | Some source \<Rightarrow>
          bind_r (chunk_source parse sha256 relative source) (\<lambda>new.
            chunk_files parse sha256 decode generated ignored rest (chunks @ new)))"

definition chunk_tree ::
  "parser \<Rightarrow> (string \<Rightarrow> string) \<Rightarrow> (string \<Rightarrow> string option) \<Rightarrow> fs_dir \<Rightarrow> string set option \<Rightarrow> string set option \<Rightarrow>
   code_chunk list result" where
  "chunk_tree parse sha256 decode checkout generated_paths ignored_paths =
     chunk_files parse sha256 decode (case generated_paths of Some g \<Rightarrow> g | None \<Rightarrow> {})
       (case ignored_paths of Some i \<Rightarrow> i | None \<Rightarrow> {}) (os_walk checkout) []"

section \<open>What the windows cover\<close>

definition window_of :: "(string \<Rightarrow> string) \<Rightarrow> string \<Rightarrow> string list \<Rightarrow> code_chunk \<Rightarrow> bool" where
  "window_of sha256 file_path lines c \<longleftrightarrow>
     1 \<le> ch_start_line c \<and> ch_start_line c \<le> ch_end_line c \<and> ch_end_line c \<le> length lines \<and>
     ch_end_line c < ch_start_line c + window_size_lines \<and> ch_file_path c = file_path \<and>
     ch_content c = py_join [newline] (drop (ch_start_line c - 1) (take (ch_end_line c) lines)) \<and>
     ch_content_hash c = sha256 (ch_content c) \<and> ch_symbol_name c = None \<and>
     ch_identity c = file_path @ '':window:'' @ show_nat (ch_start_line c) @ '':'' @ show_nat (ch_end_line c)"

lemmas window_sizes = window_size_lines_def window_overlap_lines_def

lemma window_chunks_windows:
  "1 \<le> start \<Longrightarrow> c \<in> set (window_chunks sha256 file_path lines start) \<Longrightarrow>
   window_of sha256 file_path lines c \<and> start \<le> ch_start_line c"
proof (induction sha256 file_path lines start rule: window_chunks.induct)
  case (1 sha256 file_path lines start)
  from "1.prems"(2) have le: "start \<le> length lines"
    by (subst (asm) window_chunks.simps) (auto split: if_splits)
  let ?e = "min (start + window_size_lines - 1) (length lines)"
  consider (here) "ch_start_line c = start" "ch_end_line c = ?e" "window_of sha256 file_path lines c"
    | (later) "\<not> length lines \<le> ?e"
        "c \<in> set (window_chunks sha256 file_path lines (start + (window_size_lines - window_overlap_lines)))"
    using "1.prems" le
    by (subst (asm) window_chunks.simps)
      (auto simp: Let_def make_chunk_def slice_lines_def window_of_def window_sizes split: if_splits)
  then show ?case
  proof cases
    case here
    then show ?thesis by simp
  next
    case later
    with "1.IH" [OF le refl refl later(1)] "1.prems"(1) show ?thesis by force
  qed
qed

lemma window_chunks_cover:
  "start \<le> n \<Longrightarrow> n \<le> length lines \<Longrightarrow>
   \<exists>c \<in> set (window_chunks sha256 file_path lines start). ch_start_line c \<le> n \<and> n \<le> ch_end_line c"
proof (induction sha256 file_path lines start rule: window_chunks.induct)
  case (1 sha256 file_path lines start)
  then have le: "start \<le> length lines" by simp
  let ?e = "min (start + window_size_lines - 1) (length lines)"
  note unfold = window_chunks.simps [of sha256 file_path lines start]
  show ?case
  proof (cases "n \<le> ?e")
    case True
    with "1.prems" le show ?thesis by (simp add: unfold Let_def make_chunk_def)
  next
    case False
    with "1.prems" have more: "\<not> length lines \<le> ?e" by simp
    moreover have "start + (window_size_lines - window_overlap_lines) \<le> n"
      using False "1.prems" by (auto simp: window_sizes)
    ultimately show ?thesis using "1.IH" [OF le refl refl more] "1.prems" le by (auto simp: unfold Let_def)
  qed
qed

definition overlaps_next :: "code_chunk \<Rightarrow> code_chunk \<Rightarrow> bool" where
  "overlaps_next a b \<longleftrightarrow> ch_end_line a + 1 = ch_start_line b + window_overlap_lines \<and>
     ch_end_line a + 1 = ch_start_line a + window_size_lines"

lemma window_chunks_overlap: "successively overlaps_next (window_chunks sha256 file_path lines start)"
proof (induction sha256 file_path lines start rule: window_chunks.induct)
  case (1 sha256 file_path lines start)
  let ?next = "start + (window_size_lines - window_overlap_lines)"
  note unfold = window_chunks.simps [of sha256 file_path lines start]
  show ?case
  proof (cases "start \<le> length lines \<and> \<not> length lines \<le> min (start + window_size_lines - 1) (length lines)")
    case True
    then have le: "start \<le> length lines"
      and more: "\<not> length lines \<le> min (start + window_size_lines - 1) (length lines)" by auto
    obtain c cs where rest: "window_chunks sha256 file_path lines ?next = c # cs" and "ch_start_line c = ?next"
      using more by (subst (asm) window_chunks.simps) (auto simp: window_chunks.simps [of _ _ _ ?next] Let_def make_chunk_def window_sizes)
    with True "1.IH" [OF le refl refl more] show ?thesis
      by (auto simp: unfold Let_def make_chunk_def overlaps_next_def window_sizes)
  next
    case False
    then show ?thesis by (auto simp: unfold Let_def)
  qed
qed

text \<open>Line windows.  Claim: the windows of a file cover each of its lines, hold at most 40 lines each, are
  numbered within the file with exactly the lines of their range as content, and each window shares exactly
  its last ten lines with the next one; an empty file has none.\<close>

theorem chunk_windows_cover:
  "(\<forall>n. 1 \<le> n \<and> n \<le> length (splitlines source) \<longrightarrow>
      (\<exists>c \<in> set (chunk_windows sha256 file_path source). ch_start_line c \<le> n \<and> n \<le> ch_end_line c)) \<and>
   (\<forall>c \<in> set (chunk_windows sha256 file_path source). window_of sha256 file_path (splitlines source) c) \<and>
   successively overlaps_next (chunk_windows sha256 file_path source)"
  using window_chunks_cover [of 1 _ "splitlines source" sha256 file_path]
    window_chunks_windows [of 1 _ sha256 file_path "splitlines source"]
    window_chunks_overlap [of sha256 file_path "splitlines source" 1]
  by (auto simp: chunk_windows_def Let_def)

definition sample_text :: string where
  "sample_text = concat (replicate 45 [CHR ''x'', newline])"

lemma chunk_windows_cover_witness:
  "map (\<lambda>c. (ch_start_line c, ch_end_line c)) (chunk_windows id ''notes.md'' sample_text) = [(1, 40), (31, 45)] \<and>
   (\<exists>c \<in> set (chunk_windows id ''notes.md'' sample_text). ch_start_line c \<le> 45 \<and> 45 \<le> ch_end_line c)"
proof -
  have run: "map (\<lambda>c. (ch_start_line c, ch_end_line c)) (chunk_windows id ''notes.md'' sample_text) = [(1, 40), (31, 45)]"
    by code_simp
  have "length (splitlines sample_text) = 45" by code_simp
  with run chunk_windows_cover [of sample_text id "''notes.md''"] show ?thesis by simp
qed

section \<open>Symbols\<close>

text \<open>The qualified names of the definitions of a tree, outer definitions first; line numbers play no part.\<close>

fun qualified_names :: "string \<Rightarrow> ast_node list \<Rightarrow> string list" where
  "qualified_names outer [] = []"
| "qualified_names outer (Ast_Def name _ _ _ kids # rest) =
     qualify outer name # qualified_names (qualify outer name) kids @ qualified_names outer rest"
| "qualified_names outer (Ast_Other kids # rest) = qualified_names outer kids @ qualified_names outer rest"

lemma walk_python_symbols:
  "map ch_symbol_name (walk_python sha256 file_path lines outer nodes) = map Some (qualified_names outer nodes)"
  by (induction sha256 file_path lines outer nodes rule: walk_python.induct)
    (auto simp: make_chunk_def Let_def node_line_range_def)

text \<open>The identities of the chunks of a Python file depend on its path and the names of its definitions only:
  an edit that moves lines keeps them.\<close>

lemma walk_python_identities:
  "map ch_identity (walk_python sha256 file_path lines outer nodes) =
   map (\<lambda>q. file_path @ ''::'' @ q) (qualified_names outer nodes)"
  by (induction sha256 file_path lines outer nodes rule: walk_python.induct)
    (auto simp: make_chunk_def Let_def node_line_range_def)

lemma node_line_range_first:
  "fst (node_line_range lineno decorators end_lineno) = Min (insert lineno (set decorators))"
proof -
  have "(\<lambda>start d. if d < start then d else start) = (\<lambda>start d :: nat. min d start)"
    by (auto simp: fun_eq_iff)
  then show ?thesis
    using Min.set_eq_fold [of lineno decorators] by (simp add: node_line_range_def foldl_conv_fold)
qed

section \<open>Selected files\<close>

definition selected :: "(string \<Rightarrow> string option) \<Rightarrow> string set \<Rightarrow> string set \<Rightarrow> (string \<times> fs_file) list \<Rightarrow> (string \<times> string) list" where
  "selected decode generated ignored fs =
     List.map_filter (\<lambda>(relative, f). map_option (Pair relative) (readable_text decode generated ignored relative f)) fs"

lemma chunk_files_selected:
  "chunk_files parse sha256 decode generated ignored fs chunks =
   bind_r (map_r (\<lambda>(relative, source). chunk_source parse sha256 relative source) (selected decode generated ignored fs))
     (\<lambda>new. Inr (chunks @ concat new))"
proof (induction parse sha256 decode generated ignored fs chunks rule: chunk_files.induct)
  case (2 parse sha256 decode generated ignored relative f rest chunks)
  show ?case
  proof (cases "readable_text decode generated ignored relative f")
    case None
    with 2(1) show ?thesis by (simp add: selected_def List.map_filter_simps)
  next
    case (Some source)
    show ?thesis
    proof (cases "chunk_source parse sha256 relative source")
      case (Inr new)
      from 2(2) [OF Some, of new] Some Inr show ?thesis
        by (cases "map_r (\<lambda>(relative, source). chunk_source parse sha256 relative source) (selected decode generated ignored rest)")
          (simp_all add: selected_def List.map_filter_simps)
    qed (simp add: Some selected_def List.map_filter_simps)
  qed
qed (simp add: selected_def List.map_filter_simps)

end
