(* ===== verification/Retrieval.thy ===== *)
theory Retrieval
  imports Chunking Diff_Review
begin

text \<open>
  Retrieval on the runner's own Postgres: the embedding contract (\<open>retrieval/embed.py\<close>), the indexing of a
  commit as one generation of embedded chunks (\<open>retrieval/index_repository.py\<close>), reciprocal rank fusion
  (\<open>retrieval/rrf.py\<close>) and the hybrid search (\<open>retrieval/hybrid_search.py\<close>).

  The two tables are lists of rows with the constraints of
  \<open>postgres_migrations/202608311400_retrieval_generations.sql\<close>; a transaction that raises leaves them as
  they were.  The embedder, the vector distance and the full-text functions of the database, and the
  identifiers it generates are parameters.  Scores and embeddings are exact rationals where the program has
  floats.  The invariant shows that a repository never has two active generations, and every search reads
  chunks of the active generation of the asked commit only.
\<close>

section \<open>Embedding\<close>

definition v1_embedding_dimensions :: nat where
  "v1_embedding_dimensions = 1536"

definition embedding_contract_error :: py_exn where
  "embedding_contract_error = Exception_Of ''EmbeddingContractError''"

definition embedding_dimension_error :: py_exn where
  "embedding_dimension_error = Exception_Of ''EmbeddingDimensionError''"

record embedding_provider =
  ep_model_name :: string
  ep_dimensions :: nat
  ep_embed :: "string list \<Rightarrow> rat list list result"

text \<open>What the catalogue of the database answers: the type of \<open>code_chunks.embedding\<close>, if the column exists,
  and the check constraints of \<open>embedding_generations\<close>.\<close>

definition assert_v1_embedding_contract :: "string option \<Rightarrow> string list \<Rightarrow> unit result" where
  "assert_v1_embedding_contract typ checks =
     (if typ \<noteq> Some (''vector('' @ show_nat v1_embedding_dimensions @ '')'') then Inl embedding_contract_error
      else if \<not> contains ''1536'' (py_join '' '' checks) then Inl embedding_contract_error
      else Inr ())"

definition embed_texts :: "embedding_provider \<Rightarrow> string list \<Rightarrow> rat list list result" where
  "embed_texts provider texts =
     (if ep_dimensions provider \<noteq> v1_embedding_dimensions then Inl embedding_dimension_error
      else if texts = [] then Inr []
      else bind_r (ep_embed provider texts) (\<lambda>vectors.
             if length vectors \<noteq> length texts then Inl embedding_dimension_error
             else if \<exists>v \<in> set vectors. length v \<noteq> v1_embedding_dimensions then Inl embedding_dimension_error
             else Inr vectors))"

text \<open>\<open>format(value, ".8f")\<close>: rounded to eight decimals, a tie to the even digit.\<close>

definition round_even :: "rat \<Rightarrow> int" where
  "round_even q =
     (let n = \<lfloor>q\<rfloor>; r = q - of_int n
      in if r < 1 / 2 then n else if 1 / 2 < r then n + 1 else if even n then n else n + 1)"

definition format_8f :: "rat \<Rightarrow> string" where
  "format_8f q =
     (let n = nat (round_even (\<bar>q\<bar> * 10 ^ 8));
          frac = show_nat (n mod 10 ^ 8)
      in (if q < 0 then ''-'' else []) @ show_nat (n div 10 ^ 8) @ ''.'' @ replicate (8 - length frac) (CHR ''0'') @ frac)"

definition vector_literal :: "rat list \<Rightarrow> string" where
  "vector_literal values = ''['' @ py_join '','' (map format_8f values) @ '']''"

section \<open>The tables\<close>

datatype generation_state = Building | Active | Retired

record generation_row =
  gr_id :: uuid
  gr_installation_id :: int
  gr_repository_id :: int
  gr_commit_sha :: string
  gr_model_name :: string
  gr_dimensions :: nat
  gr_state :: generation_state

record chunk_row =
  cr_id :: uuid
  cr_generation_id :: uuid
  cr_chunk :: code_chunk
  cr_embedding :: string

record vector_db =
  generations :: "generation_row list"
  code_chunks :: "chunk_row list"

record index_generation =
  ig_id :: uuid
  ig_installation_id :: int
  ig_repository_id :: int
  ig_commit_sha :: string
  ig_model_name :: string
  ig_dimensions :: nat
  ig_state :: string

definition insert_generation :: "uuid \<Rightarrow> int \<Rightarrow> int \<Rightarrow> string \<Rightarrow> string \<Rightarrow> vector_db \<Rightarrow> vector_db result" where
  "insert_generation gid installation repository commit model db =
     (if \<not> in_integer installation \<or> \<not> in_integer repository then Inl DataError
      else if gid \<in> gr_id ` set (generations db) then Inl UniqueViolation
      else Inr (db\<lparr>generations := generations db @
             [\<lparr>gr_id = gid, gr_installation_id = installation, gr_repository_id = repository, gr_commit_sha = commit,
               gr_model_name = model, gr_dimensions = v1_embedding_dimensions, gr_state = Building\<rparr>]\<rparr>))"

definition insert_chunk :: "uuid \<Rightarrow> uuid \<Rightarrow> code_chunk \<Rightarrow> rat list \<Rightarrow> vector_db \<Rightarrow> vector_db result" where
  "insert_chunk cid gid chunk vector db =
     (if \<not> (0 < ch_start_line chunk \<and> ch_start_line chunk \<le> ch_end_line chunk) then Inl CheckViolation
      else if length vector \<noteq> v1_embedding_dimensions then Inl DataError
      else if cid \<in> cr_id ` set (code_chunks db) then Inl UniqueViolation
      else if \<exists>r \<in> set (code_chunks db). cr_generation_id r = gid \<and> ch_identity (cr_chunk r) = ch_identity chunk
        then Inl UniqueViolation
      else if gid \<notin> gr_id ` set (generations db) then Inl ForeignKeyViolation
      else Inr (db\<lparr>code_chunks := code_chunks db @
             [\<lparr>cr_id = cid, cr_generation_id = gid, cr_chunk = chunk, cr_embedding = vector_literal vector\<rparr>]\<rparr>))"

text \<open>\<open>fresh i\<close> is the identifier of the \<open>i\<close>-th chunk of the generation.\<close>

fun insert_chunks :: "(nat \<Rightarrow> uuid) \<Rightarrow> nat \<Rightarrow> uuid \<Rightarrow> (code_chunk \<times> rat list) list \<Rightarrow> vector_db \<Rightarrow> vector_db result" where
  "insert_chunks fresh i gid [] db = Inr db"
| "insert_chunks fresh i gid ((chunk, vector) # rest) db =
     bind_r (insert_chunk (fresh i) gid chunk vector db) (\<lambda>db'. insert_chunks fresh (Suc i) gid rest db')"

definition retire_others :: "int \<Rightarrow> int \<Rightarrow> uuid \<Rightarrow> vector_db \<Rightarrow> vector_db" where
  "retire_others installation repository gid db =
     db\<lparr>generations := update_where (\<lambda>g. gr_installation_id g = installation \<and> gr_repository_id g = repository \<and>
            gr_state g = Active \<and> gr_id g \<noteq> gid) (\<lambda>g. g\<lparr>gr_state := Retired\<rparr>) (generations db)\<rparr>"

text \<open>The partial unique index \<open>embedding_generations_one_active\<close>.\<close>

definition one_active :: "vector_db \<Rightarrow> bool" where
  "one_active db \<longleftrightarrow>
     distinct (map (\<lambda>g. (gr_installation_id g, gr_repository_id g))
       (filter (\<lambda>g. gr_state g = Active) (generations db)))"

definition activate :: "uuid \<Rightarrow> vector_db \<Rightarrow> vector_db result" where
  "activate gid db =
     (let db' = db\<lparr>generations := update_where (\<lambda>g. gr_id g = gid \<and> gr_state g = Building)
                     (\<lambda>g. g\<lparr>gr_state := Active\<rparr>) (generations db)\<rparr>
      in if one_active db' then Inr db' else Inl UniqueViolation)"

definition zip_strict :: "'a list \<Rightarrow> 'b list \<Rightarrow> ('a \<times> 'b) list result" where
  "zip_strict xs ys = (if length xs = length ys then Inr (zip xs ys) else Inl ValueError)"

text \<open>The body of the \<open>try\<close>; an exception in it rolls the transaction back.\<close>

definition write_generation ::
  "uuid \<Rightarrow> (nat \<Rightarrow> uuid) \<Rightarrow> int \<Rightarrow> int \<Rightarrow> string \<Rightarrow> string \<Rightarrow> code_chunk list \<Rightarrow> rat list list \<Rightarrow> vector_db \<Rightarrow> vector_db result" where
  "write_generation gid fresh installation repository commit model chunks vectors db =
     bind_r (insert_generation gid installation repository commit model db) (\<lambda>db1.
     bind_r (zip_strict chunks vectors) (\<lambda>pairs.
     bind_r (insert_chunks fresh 0 gid pairs db1) (\<lambda>db2.
       activate gid (retire_others installation repository gid db2))))"

record index_request =
  iq_installation_id :: int
  iq_repository_id :: int
  iq_commit_sha :: string
  iq_embedder :: embedding_provider
  iq_generated_paths :: "string set option"
  iq_ignored_paths :: "string set option"

record index_env =
  ie_column_type :: "string option"
  ie_checks :: "string list"
  ie_parse :: parser
  ie_sha256 :: "string \<Rightarrow> string"
  ie_decode :: "string \<Rightarrow> string option"
  ie_generation_id :: uuid
  ie_chunk_ids :: "nat \<Rightarrow> uuid"

definition index_repository :: "index_env \<Rightarrow> fs_dir \<Rightarrow> index_request \<Rightarrow> (vector_db, index_generation) act" where
  "index_repository env checkout req db =
     (case bind_r (assert_v1_embedding_contract (ie_column_type env) (ie_checks env)) (\<lambda>_.
           bind_r (chunk_tree (ie_parse env) (ie_sha256 env) (ie_decode env) checkout
                     (iq_generated_paths req) (iq_ignored_paths req)) (\<lambda>chunks.
           bind_r (embed_texts (iq_embedder req) (map ch_content chunks)) (\<lambda>vectors.
             Inr (chunks, vectors)))) of
        Inl e \<Rightarrow> (Inl e, db)
      | Inr (chunks, vectors) \<Rightarrow>
          (case write_generation (ie_generation_id env) (ie_chunk_ids env) (iq_installation_id req)
                  (iq_repository_id req) (iq_commit_sha req) (ep_model_name (iq_embedder req)) chunks vectors db of
             Inl e \<Rightarrow> (Inl e, db)
           | Inr db' \<Rightarrow>
               (Inr \<lparr>ig_id = ie_generation_id env, ig_installation_id = iq_installation_id req,
                     ig_repository_id = iq_repository_id req, ig_commit_sha = iq_commit_sha req,
                     ig_model_name = ep_model_name (iq_embedder req), ig_dimensions = v1_embedding_dimensions,
                     ig_state = ''active''\<rparr>, db')))"

section \<open>Queries\<close>

text \<open>The functions of the database: the sort key of its collation, the cosine distance of two vector
  literals, and the full-text match and rank of a content for a query.\<close>

record search_functions =
  sf_collate :: "string \<Rightarrow> string"
  sf_distance :: "string \<Rightarrow> string \<Rightarrow> rat"
  sf_matches :: "string \<Rightarrow> string \<Rightarrow> bool"
  sf_rank :: "string \<Rightarrow> string \<Rightarrow> rat"

text \<open>The join of the chunks with their generation, restricted by a condition on the generation.\<close>

definition joined :: "(generation_row \<Rightarrow> bool) \<Rightarrow> vector_db \<Rightarrow> chunk_row list" where
  "joined p db =
     concat (map (\<lambda>c. map (\<lambda>g. c) (filter (\<lambda>g. gr_id g = cr_generation_id c \<and> p g) (generations db))) (code_chunks db))"

definition active_of :: "int \<Rightarrow> int \<Rightarrow> generation_row \<Rightarrow> bool" where
  "active_of installation repository g \<longleftrightarrow>
     gr_installation_id g = installation \<and> gr_repository_id g = repository \<and> gr_state g = Active"

definition queryable_chunks :: "search_functions \<Rightarrow> int \<Rightarrow> int \<Rightarrow> vector_db \<Rightarrow> code_chunk list" where
  "queryable_chunks sf installation repository db =
     map cr_chunk (sort_key (\<lambda>r. (sf_collate sf (ch_file_path (cr_chunk r)), ch_start_line (cr_chunk r)))
       (joined (active_of installation repository) db))"

definition sql_limit :: "int \<Rightarrow> 'a list \<Rightarrow> 'a list result" where
  "sql_limit limit rows = (if limit < 0 then Inl DataError else Inr (take (nat limit) rows))"

definition exact_nearest_chunks ::
  "search_functions \<Rightarrow> int \<Rightarrow> int \<Rightarrow> rat list \<Rightarrow> int \<Rightarrow> vector_db \<Rightarrow> code_chunk list result" where
  "exact_nearest_chunks sf installation repository query limit db =
     bind_r (sql_limit limit (sort_key (\<lambda>r. sf_distance sf (cr_embedding r) (vector_literal query))
               (joined (active_of installation repository) db))) (\<lambda>rows. Inr (map cr_chunk rows))"

section \<open>Reciprocal rank fusion\<close>

type_synonym fusion = "(string \<times> rat) list \<times> (string \<times> nat) list \<times> nat"

definition dict_get :: "'v \<Rightarrow> 'k \<Rightarrow> ('k \<times> 'v) list \<Rightarrow> 'v" where
  "dict_get d k kvs = (case map_of kvs k of Some v \<Rightarrow> v | None \<Rightarrow> d)"

fun fuse_ranking :: "int \<Rightarrow> int \<Rightarrow> string list \<Rightarrow> fusion \<Rightarrow> fusion result" where
  "fuse_ranking k rank [] st = Inr st"
| "fuse_ranking k rank (item # ranking) (scores, first_seen, order) =
     (if k + rank = 0 then Inl (Exception_Of ''ZeroDivisionError'')
      else let scores' = dict_set item (dict_get 0 item scores + 1 / of_int (k + rank)) scores
           in if item \<notin> fst ` set first_seen
              then fuse_ranking k (rank + 1) ranking (scores', dict_set item order first_seen, order + 1)
              else fuse_ranking k (rank + 1) ranking (scores', first_seen, order))"

fun fuse_rankings :: "int \<Rightarrow> string list list \<Rightarrow> fusion \<Rightarrow> fusion result" where
  "fuse_rankings k [] st = Inr st"
| "fuse_rankings k (ranking # rankings) st = bind_r (fuse_ranking k 1 ranking st) (fuse_rankings k rankings)"

definition reciprocal_rank_fusion :: "string list list \<Rightarrow> int \<Rightarrow> string list result" where
  "reciprocal_rank_fusion rankings k =
     bind_r (fuse_rankings k rankings ([], [], 0)) (\<lambda>(scores, first_seen, order).
       Inr (sort_key (\<lambda>item. (- dict_get 0 item scores, dict_get 0 item first_seen)) (map fst scores)))"

definition rrf_default_k :: int where
  "rrf_default_k = 60"

section \<open>Hybrid search\<close>

definition retrieval_enabled_default :: bool where
  "retrieval_enabled_default = False"

definition candidate_multiplier :: int where
  "candidate_multiplier = 4"

record retrieval_query =
  rq_installation_id :: int
  rq_repository_id :: int
  rq_commit_sha :: string
  rq_text :: string

record retrieved_chunk =
  rc_chunk_id :: string
  rc_file_path :: string
  rc_line_start :: nat
  rc_line_end :: nat
  rc_content :: string
  rc_content_hash :: string
  rc_identity :: string

text \<open>\<open>keep\<close> is the additional condition and \<open>order\<close> the sort key of the statement.\<close>

definition rank_ids ::
  "retrieval_query \<Rightarrow> (chunk_row \<Rightarrow> bool) \<Rightarrow> (chunk_row \<Rightarrow> rat) \<Rightarrow> int \<Rightarrow> vector_db \<Rightarrow> string list result" where
  "rank_ids query keep order limit db =
     bind_r (sql_limit limit (sort_key order (filter keep
       (joined (\<lambda>g. active_of (rq_installation_id query) (rq_repository_id query) g \<and>
                    gr_commit_sha g = rq_commit_sha query) db))))
       (\<lambda>rows. Inr (map cr_id rows))"

definition retrieved_of_row :: "chunk_row \<Rightarrow> retrieved_chunk" where
  "retrieved_of_row r =
     \<lparr>rc_chunk_id = cr_id r, rc_file_path = ch_file_path (cr_chunk r), rc_line_start = ch_start_line (cr_chunk r),
      rc_line_end = ch_end_line (cr_chunk r), rc_content = ch_content (cr_chunk r),
      rc_content_hash = ch_content_hash (cr_chunk r), rc_identity = ch_identity (cr_chunk r)\<rparr>"

definition load_chunks :: "string list \<Rightarrow> vector_db \<Rightarrow> retrieved_chunk list" where
  "load_chunks chunk_ids db =
     (if chunk_ids = [] then []
      else let rows = filter (\<lambda>r. cr_id r \<in> set chunk_ids) (code_chunks db);
               by_id = map_of (rev (map (\<lambda>r. (cr_id r, retrieved_of_row r)) rows))
           in List.map_filter by_id chunk_ids)"

fun fit_chunks :: "(string \<Rightarrow> int) \<Rightarrow> int \<Rightarrow> retrieved_chunk list \<Rightarrow> retrieved_chunk list" where
  "fit_chunks count_tokens remaining [] = []"
| "fit_chunks count_tokens remaining (chunk # chunks) =
     (let cost = count_tokens (rc_content chunk)
      in if cost \<le> remaining then chunk # fit_chunks count_tokens (remaining - cost) chunks
         else fit_chunks count_tokens remaining chunks)"

definition fit_retrieved_chunks ::
  "packed_diff \<Rightarrow> retrieved_chunk list \<Rightarrow> context_budget \<Rightarrow> (string \<Rightarrow> int) \<Rightarrow> retrieved_chunk list" where
  "fit_retrieved_chunks packed chunks budget count_tokens =
     fit_chunks count_tokens (cb_tokens budget - pd_prompt_tokens packed) chunks"

definition wrap_retrieved_chunks :: "retrieved_chunk list \<Rightarrow> string list result" where
  "wrap_retrieved_chunks chunks = map_r (\<lambda>c. wrap_untrusted ''retrieved_chunk'' (UntrustedText (rc_content c))) chunks"

definition selection_event_payload :: "string list \<Rightarrow> json" where
  "selection_event_payload chunk_ids =
     JObj [(''chunk_ids'', JStr (py_join '','' chunk_ids)), (''count'', JInt (int (length chunk_ids)))]"

record 'w retrieval_options =
  ro_packed :: "packed_diff option"
  ro_budget :: "context_budget option"
  ro_count_tokens :: "(string \<Rightarrow> int) option"
  ro_limit :: int
  ro_record_selection :: "(string list \<Rightarrow> ('w, unit) act) option"
  ro_enabled :: "bool option"

definition retrieve_candidates ::
  "search_functions \<Rightarrow> retrieval_query \<Rightarrow> vector_db \<Rightarrow> embedding_provider \<Rightarrow> int \<Rightarrow> retrieved_chunk list result" where
  "retrieve_candidates sf query db embedder limit =
     (let candidate_limit = max limit (limit * candidate_multiplier)
      in bind_r (embed_texts embedder [rq_text query]) (\<lambda>vectors.
         bind_r (rank_ids query (\<lambda>_. True) (\<lambda>r. sf_distance sf (cr_embedding r) (vector_literal (hd vectors)))
                   candidate_limit db) (\<lambda>vector_ids.
         bind_r (rank_ids query (\<lambda>r. sf_matches sf (ch_content (cr_chunk r)) (rq_text query))
                   (\<lambda>r. - sf_rank sf (ch_content (cr_chunk r)) (rq_text query)) candidate_limit db) (\<lambda>lexical_ids.
         bind_r (reciprocal_rank_fusion [vector_ids, lexical_ids] rrf_default_k) (\<lambda>fused.
           Inr (take (nat limit) (load_chunks fused db)))))))"

definition fit_options :: "'w retrieval_options \<Rightarrow> retrieved_chunk list \<Rightarrow> retrieved_chunk list result" where
  "fit_options opts chunks =
     (case (ro_packed opts, ro_budget opts) of
        (Some packed, Some budget) \<Rightarrow>
          (case ro_count_tokens opts of
             None \<Rightarrow> Inl TypeError
           | Some count_tokens \<Rightarrow> Inr (fit_retrieved_chunks packed chunks budget count_tokens))
      | _ \<Rightarrow> Inr chunks)"

definition retrieve_context ::
  "search_functions \<Rightarrow> retrieval_query \<Rightarrow> vector_db \<Rightarrow> embedding_provider \<Rightarrow> 'w retrieval_options \<Rightarrow>
   ('w, retrieved_chunk list) act" where
  "retrieve_context sf query db embedder opts =
     (if \<not> (case ro_enabled opts of Some b \<Rightarrow> b | None \<Rightarrow> retrieval_enabled_default) then return_a []
      else bind_a (lift_r (bind_r (retrieve_candidates sf query db embedder (ro_limit opts)) (fit_options opts)))
        (\<lambda>chunks. case ro_record_selection opts of
           None \<Rightarrow> return_a chunks
         | Some record_selection \<Rightarrow>
             bind_a (record_selection (map rc_chunk_id chunks)) (\<lambda>_. return_a chunks)))"

section \<open>The fused order\<close>

text \<open>The specification: the score of an item is the sum of the reciprocals of its ranks, and the result is
  the items in the order of their first occurrence, stably sorted by descending score.\<close>

fun ranking_score :: "int \<Rightarrow> int \<Rightarrow> string list \<Rightarrow> string \<Rightarrow> rat" where
  "ranking_score k rank [] x = 0"
| "ranking_score k rank (y # ys) x = (if y = x then 1 / of_int (k + rank) else 0) + ranking_score k (rank + 1) ys x"

definition rrf_score :: "int \<Rightarrow> string list list \<Rightarrow> string \<Rightarrow> rat" where
  "rrf_score k rankings x = sum_list (map (\<lambda>r. ranking_score k 1 r x) rankings)"

definition first_occurrences :: "'a list \<Rightarrow> 'a list" where
  "first_occurrences xs = rev (remdups (rev xs))"

lemma first_occurrences_snoc:
  "first_occurrences (xs @ [x]) = (if x \<in> set xs then first_occurrences xs else first_occurrences xs @ [x])"
  by (simp add: first_occurrences_def)

lemma set_first_occurrences [simp]: "set (first_occurrences xs) = set xs"
  by (simp add: first_occurrences_def)

lemma distinct_first_occurrences [simp]: "distinct (first_occurrences xs)"
  by (simp add: first_occurrences_def)

text \<open>The state of the loop after some \<open>items\<close>: both dictionaries list them by first occurrence.\<close>

definition fused :: "string list \<Rightarrow> (string \<Rightarrow> rat) \<Rightarrow> fusion \<Rightarrow> bool" where
  "fused items score st \<longleftrightarrow>
     (case st of (scores, first_seen, order) \<Rightarrow>
        map fst scores = first_occurrences items \<and>
        first_seen = zip (first_occurrences items) [0..<length (first_occurrences items)] \<and>
        order = length (first_occurrences items) \<and> (\<forall>x. dict_get 0 x scores = score x))"

lemma keys_of_dict_set:
  "map fst (dict_set k v d) = (if k \<in> fst ` set d then map fst d else map fst d @ [k])"
proof (induction d)
  case (Cons x d)
  then show ?case by (cases x) simp
qed simp

lemma zip_upt_snoc: "zip (xs @ [x]) [0..<Suc (length xs)] = zip xs [0..<length xs] @ [(x, length xs)]"
  by simp

lemma keys_zip_upt [simp]: "fst ` set (zip xs [0..<length xs]) = set xs"
  by (metis length_map list.set_map map_fst_zip map_nth)

lemma dict_get_dict_set: "dict_get d x (dict_set k v kvs) = (if x = k then v else dict_get d x kvs)"
  by (simp add: dict_get_def)

lemma fused_snoc:
  assumes "fused items score (scores, first_seen, order)"
  shows "fused (items @ [x]) (\<lambda>y. score y + (if x = y then v else 0))
    (dict_set x (dict_get 0 x scores + v) scores,
     if x \<notin> fst ` set first_seen then dict_set x order first_seen else first_seen,
     if x \<notin> fst ` set first_seen then order + 1 else order)"
proof -
  have keys: "fst ` set scores = set items"
    using assms by (auto simp: fused_def simp flip: list.set_map)
  show ?thesis
  proof (cases "x \<in> set items")
    case True
    with assms keys show ?thesis
      by (simp add: fused_def first_occurrences_snoc keys_of_dict_set dict_get_dict_set)
  next
    case False
    with assms keys have "dict_set x order first_seen = first_seen @ [(x, order)]"
      by (simp add: fused_def dict_set_new)
    with False assms keys show ?thesis
      by (simp add: fused_def first_occurrences_snoc keys_of_dict_set dict_get_dict_set)
  qed
qed

lemma fuse_ranking_fused:
  assumes "0 \<le> k" and "1 \<le> rank" and "fused items score st"
  shows "\<exists>st'. fuse_ranking k rank ranking st = Inr st' \<and>
    fused (items @ ranking) (\<lambda>x. score x + ranking_score k rank ranking x) st'"
  using assms
proof (induction ranking arbitrary: rank items score st)
  case (Cons x ranking)
  obtain scores first_seen order where st: "st = (scores, first_seen, order)" by (cases st)
  let ?v = "1 / of_int (k + rank) :: rat"
  note snoc = fused_snoc [OF Cons.prems(3) [unfolded st], of x ?v]
  from Cons.prems have "1 \<le> rank + 1" "k + rank \<noteq> 0" by auto
  with Cons.IH [OF Cons.prems(1) _ snoc, of "rank + 1"] Cons.prems(1) st show ?case
    by (auto simp: Let_def add.assoc split: if_splits)
qed auto

lemma fuse_rankings_fused:
  assumes "0 \<le> k" and "fused items score st"
  shows "\<exists>st'. fuse_rankings k rankings st = Inr st' \<and>
    fused (items @ concat rankings) (\<lambda>x. score x + rrf_score k rankings x) st'"
  using assms
proof (induction rankings arbitrary: items score st)
  case (Cons ranking rankings)
  from fuse_ranking_fused [OF Cons.prems(1) _ Cons.prems(2), of 1 ranking] obtain st1 where
    st1: "fuse_ranking k 1 ranking st = Inr st1"
      "fused (items @ ranking) (\<lambda>x. score x + ranking_score k 1 ranking x) st1" by auto
  from Cons.IH [OF Cons.prems(1) st1(2)] st1(1) show ?case
    by (auto simp: rrf_score_def add.assoc)
qed (simp add: rrf_score_def)

text \<open>A second key that grows along the list changes nothing of a stable sort.\<close>

lemma sort_key_increasing:
  fixes f :: "'a \<Rightarrow> 'k::linorder" and g :: "'a \<Rightarrow> nat"
  assumes "sorted (map g xs)"
  shows "sort_key (\<lambda>x. (f x, g x)) xs = sort_key f xs"
proof (rule sym, rule properties_for_sort_key)
  show "mset (sort_key (\<lambda>x. (f x, g x)) xs) = mset xs" by simp
  have "sorted_wrt (\<lambda>a b. (f a, g a) \<le> (f b, g b)) (sort_key (\<lambda>x. (f x, g x)) xs)"
    using sorted_sort_key [of "\<lambda>x. (f x, g x)" xs] by (simp add: sorted_wrt_map)
  then show "sorted (map f (sort_key (\<lambda>x. (f x, g x)) xs))"
    unfolding sorted_map by (rule sorted_wrt_mono_rel [rotated]) (auto simp: less_eq_prod_def)
  fix k
  have "sorted (map (\<lambda>x. (f x, g x)) (filter (\<lambda>x. f k = f x) xs))"
  proof -
    have "sorted (map g (filter (\<lambda>x. f k = f x) xs))" using assms by (rule sorted_filter)
    then have "sorted_wrt (\<lambda>a b. g a \<le> g b) (filter (\<lambda>x. f k = f x) xs)" by (simp add: sorted_wrt_map)
    then show ?thesis unfolding sorted_map
      by (rule sorted_wrt_mono_rel [rotated]) (auto simp: less_eq_prod_def)
  qed
  then show "filter (\<lambda>x. f k = f x) (sort_key (\<lambda>x. (f x, g x)) xs) = filter (\<lambda>x. f k = f x) xs"
    by (simp add: filter_sort sort_key_id_if_sorted)
qed

lemma positions_sorted:
  assumes "distinct xs"
  shows "map (\<lambda>x. dict_get 0 x (zip xs [0..<length xs])) xs = [0..<length xs]"
  using assms
  by (intro nth_equalityI) (auto simp: dict_get_def map_of_zip_nth)

lemma fuse_all:
  assumes "0 \<le> k"
  obtains scores first_seen order where
    "fuse_rankings k rankings ([], [], 0) = Inr (scores, first_seen, order)"
    "map fst scores = first_occurrences (concat rankings)"
    "first_seen = zip (first_occurrences (concat rankings)) [0..<length (first_occurrences (concat rankings))]"
    "\<And>x. dict_get 0 x scores = rrf_score k rankings x"
proof -
  have "fused [] (\<lambda>_. 0) ([], [], 0)" by (simp add: fused_def first_occurrences_def dict_get_def)
  from fuse_rankings_fused [OF assms this, of rankings] show thesis by (auto simp: fused_def intro: that)
qed

lemma fusion_items:
  assumes "0 \<le> k" and "reciprocal_rank_fusion rankings k = Inr r"
  shows "distinct r \<and> set r = set (concat rankings)"
proof -
  obtain scores first_seen order where
    "fuse_rankings k rankings ([], [], 0) = Inr (scores, first_seen, order)" "map fst scores = first_occurrences (concat rankings)"
    using fuse_all [OF assms(1), of rankings] by metis
  with assms(2) show ?thesis by (auto simp: reciprocal_rank_fusion_def)
qed

text \<open>Fusion.  Claim: for a non-negative constant the fusion returns exactly the items of the rankings, each
  once, in the order of descending summed reciprocal rank, equal scores in the order of first
  occurrence.\<close>

theorem reciprocal_rank_fusion_refines:
  assumes "0 \<le> k"
  shows "reciprocal_rank_fusion rankings k =
    Inr (sort_key (\<lambda>x. - rrf_score k rankings x) (first_occurrences (concat rankings)))"
proof -
  obtain scores first_seen order where
    run: "fuse_rankings k rankings ([], [], 0) = Inr (scores, first_seen, order)"
    and st: "map fst scores = first_occurrences (concat rankings)"
      "first_seen = zip (first_occurrences (concat rankings)) [0..<length (first_occurrences (concat rankings))]"
      "\<And>x. dict_get 0 x scores = rrf_score k rankings x"
    using fuse_all [OF assms, of rankings] by metis
  have "sort_key (\<lambda>x. (- rrf_score k rankings x, dict_get 0 x first_seen)) (first_occurrences (concat rankings)) =
      sort_key (\<lambda>x. - rrf_score k rankings x) (first_occurrences (concat rankings))"
    by (rule sort_key_increasing) (simp add: st(2) positions_sorted)
  with run st show ?thesis by (simp add: reciprocal_rank_fusion_def)
qed

lemma reciprocal_rank_fusion_refines_witness:
  "reciprocal_rank_fusion [[''a'', ''b''], [''b'', ''c'']] 60 = Inr [''b'', ''a'', ''c''] \<and>
   rrf_score 60 [[''a'', ''b''], [''b'', ''c'']] ''b'' = 1 / 62 + 1 / 61"
proof -
  let ?rs = "[[''a'', ''b''], [''b'', ''c'']]"
  have sc: "rrf_score 60 ?rs ''a'' = 1 / 61" "rrf_score 60 ?rs ''b'' = 1 / 62 + 1 / 61" "rrf_score 60 ?rs ''c'' = 1 / 62"
    by (simp_all add: rrf_score_def)
  then have "sort_key (\<lambda>x. - rrf_score 60 ?rs x) [''a'', ''b'', ''c''] = [''b'', ''a'', ''c'']"
    by simp
  moreover have "first_occurrences (concat ?rs) = [''a'', ''b'', ''c'']" by code_simp
  ultimately show ?thesis using reciprocal_rank_fusion_refines [of 60 ?rs] sc by simp
qed

section \<open>Generations\<close>

text \<open>The invariant of the two tables: the keys are unique, a repository has at most one active generation,
  a generation holds an identity once, and every chunk belongs to a generation.\<close>

definition chunk_key :: "chunk_row \<Rightarrow> uuid \<times> string" where
  "chunk_key r = (cr_generation_id r, ch_identity (cr_chunk r))"

definition db_ok :: "vector_db \<Rightarrow> bool" where
  "db_ok db \<longleftrightarrow>
     distinct (map gr_id (generations db)) \<and> one_active db \<and> distinct (map cr_id (code_chunks db)) \<and>
     distinct (map chunk_key (code_chunks db)) \<and> cr_generation_id ` set (code_chunks db) \<subseteq> gr_id ` set (generations db)"

lemma joined_filter:
  assumes "distinct (map gr_id (generations db))"
  shows "joined p db = filter (\<lambda>c. \<exists>g \<in> set (generations db). gr_id g = cr_generation_id c \<and> p g) (code_chunks db)"
proof -
  have one: "map (\<lambda>g. c) (filter (\<lambda>g. gr_id g = k \<and> p g) gs) = (if \<exists>g \<in> set gs. gr_id g = k \<and> p g then [c] else [])"
    if "distinct (map gr_id gs)" for c :: chunk_row and k and gs
    using that
  proof (induction gs)
    case (Cons g gs)
    then show ?case by (auto simp: filter_empty_conv image_iff)
  qed simp
  have "concat (map (\<lambda>c. if q c then [c] else []) cs) = filter q cs" for q :: "chunk_row \<Rightarrow> bool" and cs
    by (induction cs) auto
  then show ?thesis unfolding joined_def one [OF assms] by simp
qed

lemma insert_chunk_ok:
  assumes "insert_chunk cid gid chunk vector db = Inr db'" and "db_ok db"
  shows "db_ok db' \<and> generations db' = generations db \<and>
    (\<exists>row. code_chunks db' = code_chunks db @ [row] \<and> cr_generation_id row = gid \<and> cr_chunk row = chunk)"
proof -
  from assms(1) have new: "cid \<notin> cr_id ` set (code_chunks db)" "gid \<in> gr_id ` set (generations db)"
    "(gid, ch_identity chunk) \<notin> chunk_key ` set (code_chunks db)"
    "db' = db\<lparr>code_chunks := code_chunks db @
       [\<lparr>cr_id = cid, cr_generation_id = gid, cr_chunk = chunk, cr_embedding = vector_literal vector\<rparr>]\<rparr>"
    by (auto simp: insert_chunk_def chunk_key_def split: if_splits)
  then have "db_ok db'" using assms(2) by (simp add: db_ok_def one_active_def chunk_key_def)
  with new show ?thesis by simp
qed

lemma insert_chunks_ok:
  assumes "insert_chunks fresh i gid pairs db = Inr db'" and "db_ok db"
  shows "db_ok db' \<and> generations db' = generations db \<and>
    (\<exists>rows. code_chunks db' = code_chunks db @ rows \<and> (\<forall>r \<in> set rows. cr_generation_id r = gid) \<and>
      map cr_chunk rows = map fst pairs)"
  using assms
proof (induction fresh i gid pairs db rule: insert_chunks.induct)
  case (2 fresh i gid chunk vector rest db)
  from 2(2) obtain db1 where step: "insert_chunk (fresh i) gid chunk vector db = Inr db1"
    and rest: "insert_chunks fresh (Suc i) gid rest db1 = Inr db'" by (auto simp: bind_r_Inr)
  from insert_chunk_ok [OF step 2(3)] obtain row where
    row: "db_ok db1" "generations db1 = generations db" "code_chunks db1 = code_chunks db @ [row]"
      "cr_generation_id row = gid" "cr_chunk row = chunk" by auto
  from 2(1) [OF rest row(1)] obtain rows where
    "db_ok db'" "generations db' = generations db1" "code_chunks db' = code_chunks db1 @ rows"
    "\<forall>r \<in> set rows. cr_generation_id r = gid" "map cr_chunk rows = map fst rest" by auto
  with row show ?case by (intro conjI exI [of _ "row # rows"]) auto
qed auto

lemma insert_generation_ok:
  assumes "insert_generation gid inst repo commit model db = Inr db'" and "db_ok db"
  shows "db_ok db' \<and> code_chunks db' = code_chunks db \<and> gid \<notin> gr_id ` set (generations db) \<and>
    (\<exists>g. generations db' = generations db @ [g] \<and> gr_id g = gid \<and> gr_installation_id g = inst \<and>
      gr_repository_id g = repo \<and> gr_commit_sha g = commit \<and> gr_state g = Building)"
proof -
  from assms(1) have new: "gid \<notin> gr_id ` set (generations db)"
    "db' = db\<lparr>generations := generations db @
       [\<lparr>gr_id = gid, gr_installation_id = inst, gr_repository_id = repo, gr_commit_sha = commit,
         gr_model_name = model, gr_dimensions = v1_embedding_dimensions, gr_state = Building\<rparr>]\<rparr>"
    by (auto simp: insert_generation_def split: if_splits)
  moreover from new assms(2) have "db_ok db'" by (simp add: db_ok_def one_active_def subset_insertI2)
  ultimately show ?thesis by simp
qed

text \<open>Retiring the others and activating the new generation, row by row.\<close>

definition switched :: "int \<Rightarrow> int \<Rightarrow> uuid \<Rightarrow> generation_row \<Rightarrow> generation_row" where
  "switched inst repo gid g =
     (if gr_installation_id g = inst \<and> gr_repository_id g = repo \<and> gr_state g = Active \<and> gr_id g \<noteq> gid
      then g\<lparr>gr_state := Retired\<rparr>
      else if gr_id g = gid \<and> gr_state g = Building then g\<lparr>gr_state := Active\<rparr> else g)"

lemma activate_retire:
  assumes "activate gid (retire_others inst repo gid db) = Inr db'"
  shows "generations db' = map (switched inst repo gid) (generations db) \<and> code_chunks db' = code_chunks db \<and> one_active db'"
  using assms
  by (auto simp: activate_def retire_others_def Let_def update_where_def switched_def split: if_splits)

lemma switched_simps [simp]:
  "gr_id (switched inst repo gid g) = gr_id g"
  "gr_installation_id (switched inst repo gid g) = gr_installation_id g"
  "gr_repository_id (switched inst repo gid g) = gr_repository_id g"
  "gr_commit_sha (switched inst repo gid g) = gr_commit_sha g"
  by (auto simp: switched_def)

lemma write_generation_ok:
  assumes "write_generation gid fresh inst repo commit model chunks vectors db = Inr db'" and ok: "db_ok db"
  obtains g rows where "db_ok db'" "generations db' = map (switched inst repo gid) (generations db @ [g])"
    "gr_id g = gid" "gr_installation_id g = inst" "gr_repository_id g = repo" "gr_commit_sha g = commit" "gr_state g = Building"
    "gid \<notin> gr_id ` set (generations db)" "code_chunks db' = code_chunks db @ rows"
    "\<forall>r \<in> set rows. cr_generation_id r = gid" "map cr_chunk rows = chunks"
proof -
  from assms(1) obtain db1 pairs db2 where
    gen: "insert_generation gid inst repo commit model db = Inr db1" and zip: "zip_strict chunks vectors = Inr pairs"
    and ins: "insert_chunks fresh 0 gid pairs db1 = Inr db2"
    and act: "activate gid (retire_others inst repo gid db2) = Inr db'"
    by (auto simp: write_generation_def bind_r_Inr)
  from insert_generation_ok [OF gen ok] obtain g where
    g: "db_ok db1" "code_chunks db1 = code_chunks db" "gid \<notin> gr_id ` set (generations db)" "generations db1 = generations db @ [g]"
      "gr_id g = gid" "gr_installation_id g = inst" "gr_repository_id g = repo" "gr_commit_sha g = commit" "gr_state g = Building" by auto
  from insert_chunks_ok [OF ins g(1)] obtain rows where
    rows: "db_ok db2" "generations db2 = generations db1" "code_chunks db2 = code_chunks db1 @ rows"
      "\<forall>r \<in> set rows. cr_generation_id r = gid" "map cr_chunk rows = map fst pairs" by auto
  from activate_retire [OF act] rows g have
    new: "generations db' = map (switched inst repo gid) (generations db @ [g])" "code_chunks db' = code_chunks db2" "one_active db'"
    by auto
  have "map gr_id (generations db') = map gr_id (generations db2)" using new rows g by (simp add: comp_def)
  then have "db_ok db'" using rows(1) new(2,3) unfolding db_ok_def by (metis list.set_map)
  moreover have "map fst pairs = chunks" using zip by (auto simp: zip_strict_def split: if_splits)
  ultimately show thesis using that new g rows by simp
qed

lemma switched_other:
  assumes "(i, r) \<noteq> (inst, repo)" and "gr_id g \<noteq> gid \<or> (gr_installation_id g, gr_repository_id g) = (inst, repo)"
  shows "active_of i r (switched inst repo gid g) \<longleftrightarrow> active_of i r g"
  using assms by (auto simp: active_of_def switched_def)

lemma one_active_switched:
  assumes "one_active db" and "gid \<notin> gr_id ` set (generations db)" and "gr_id g = gid" and "gr_state g = Building"
    and "gr_installation_id g = inst" and "gr_repository_id g = repo"
    and "generations db' = map (switched inst repo gid) (generations db @ [g])"
  shows "one_active db'"
proof -
  let ?key = "\<lambda>g. (gr_installation_id g, gr_repository_id g)"
  have kept: "gr_state (switched inst repo gid h) = Active \<longleftrightarrow> gr_state h = Active \<and> ?key h \<noteq> (inst, repo)"
    if "h \<in> set (generations db)" for h
    using that assms(2) by (auto simp: switched_def)
  have "filter (\<lambda>h. gr_state (switched inst repo gid h) = Active) (generations db) =
      filter (\<lambda>h. ?key h \<noteq> (inst, repo)) (filter (\<lambda>h. gr_state h = Active) (generations db))"
    using kept by (auto intro: filter_cong)
  moreover have "gr_state (switched inst repo gid g) = Active" using assms by (simp add: switched_def)
  moreover have "distinct (map ?key (filter (\<lambda>h. ?key h \<noteq> (inst, repo)) (filter (\<lambda>h. gr_state h = Active) (generations db))))"
    using assms(1) unfolding one_active_def by (rule distinct_map_filter)
  ultimately show ?thesis
    using assms(5-7) by (auto simp: one_active_def filter_map comp_def)
qed

text \<open>When the identifiers are fresh and the line ranges are proper, only a repeated identity stops the
  insertion of the chunks.\<close>

definition fresh_ids :: "(nat \<Rightarrow> uuid) \<Rightarrow> nat \<Rightarrow> vector_db \<Rightarrow> bool" where
  "fresh_ids fresh i db \<longleftrightarrow> inj fresh \<and> (\<forall>j \<ge> i. fresh j \<notin> cr_id ` set (code_chunks db))"

definition proper_range :: "code_chunk \<Rightarrow> bool" where
  "proper_range c \<longleftrightarrow> 0 < ch_start_line c \<and> ch_start_line c \<le> ch_end_line c"

lemma insert_chunks_iff:
  assumes "fresh_ids fresh i db" and "gid \<in> gr_id ` set (generations db)"
    and "\<forall>(c, v) \<in> set pairs. proper_range c \<and> length v = v1_embedding_dimensions"
  shows "(\<exists>db'. insert_chunks fresh i gid pairs db = Inr db') \<longleftrightarrow>
    distinct (map (\<lambda>(c, v). (gid, ch_identity c)) pairs) \<and>
    (\<lambda>(c, v). (gid, ch_identity c)) ` set pairs \<inter> chunk_key ` set (code_chunks db) = {}"
  using assms
proof (induction pairs arbitrary: i db)
  case (Cons p pairs)
  obtain c v where p: "p = (c, v)" by (cases p)
  show ?case
  proof (cases "(gid, ch_identity c) \<in> chunk_key ` set (code_chunks db)")
    case True
    then have "\<exists>r \<in> set (code_chunks db). cr_generation_id r = gid \<and> ch_identity (cr_chunk r) = ch_identity c"
      by (auto simp: chunk_key_def)
    with Cons.prems True p show ?thesis
      by (auto simp: insert_chunk_def fresh_ids_def proper_range_def bind_r_Inr split: if_splits)
  next
    case False
    define db1 where "db1 = db\<lparr>code_chunks := code_chunks db @
       [\<lparr>cr_id = fresh i, cr_generation_id = gid, cr_chunk = c, cr_embedding = vector_literal v\<rparr>]\<rparr>"
    have "insert_chunk (fresh i) gid c v db = Inr db1"
      using Cons.prems False p
      by (auto simp: insert_chunk_def fresh_ids_def proper_range_def db1_def chunk_key_def image_iff)
    moreover have "fresh_ids fresh (Suc i) db1"
      using Cons.prems(1) by (auto simp: fresh_ids_def db1_def inj_eq)
    moreover have "gid \<in> gr_id ` set (generations db1)" using Cons.prems(2) by (simp add: db1_def)
    moreover have "chunk_key ` set (code_chunks db1) = insert (gid, ch_identity c) (chunk_key ` set (code_chunks db))"
      by (simp add: db1_def chunk_key_def)
    ultimately show ?thesis using Cons.IH [of "Suc i" db1] Cons.prems(3) False p by auto
  qed
qed simp

lemma joined_switched:
  assumes ids: "distinct (map gr_id (generations db'))" and gens: "generations db' = map (switched inst repo gid) (generations db @ [g])"
    and "gr_id g = gid" and "gid \<notin> gr_id ` set (generations db)" and chunks: "code_chunks db' = code_chunks db @ rows"
    and rows: "\<forall>r \<in> set rows. cr_generation_id r = gid" and old: "\<forall>c \<in> set (code_chunks db). cr_generation_id c \<noteq> gid"
  shows "joined p db' =
    filter (\<lambda>c. \<exists>h \<in> set (generations db). gr_id h = cr_generation_id c \<and> p (switched inst repo gid h)) (code_chunks db) @
    (if p (switched inst repo gid g) then rows else [])"
proof -
  have "(\<exists>h \<in> set (generations db'). gr_id h = cr_generation_id c \<and> p h) \<longleftrightarrow>
      (\<exists>h \<in> set (generations db). gr_id h = cr_generation_id c \<and> p (switched inst repo gid h))"
    if "c \<in> set (code_chunks db)" for c
    using that old assms(3) by (auto simp: gens)
  moreover have "(\<exists>h \<in> set (generations db'). gr_id h = cr_generation_id c \<and> p h) \<longleftrightarrow> p (switched inst repo gid g)"
    if "c \<in> set rows" for c
    using that rows assms(3,4) by (auto simp: gens image_iff)
  ultimately show ?thesis unfolding joined_filter [OF ids] chunks by (auto cong: filter_cong)
qed

section \<open>Properties of the index\<close>

text \<open>C30. Indexing.  Claim: from tables that satisfy the invariant, a successful indexing leaves tables that
  satisfy it, in which the searchable chunks of the repository are exactly the chunks of the checked-out tree,
  no more and no less, and those of every other repository are what they were; an indexing that raises leaves
  the tables untouched, so no half-built generation is ever searchable.\<close>

theorem index_replaces_searchable_chunks:
  assumes ok: "db_ok db" and run: "index_repository env checkout req db = (r, db')"
  shows "(\<forall>g. r = Inr g \<longrightarrow> db_ok db' \<and>
      (\<exists>chunks. chunk_tree (ie_parse env) (ie_sha256 env) (ie_decode env) checkout (iq_generated_paths req)
            (iq_ignored_paths req) = Inr chunks \<and>
         mset (queryable_chunks sf (iq_installation_id req) (iq_repository_id req) db') = mset chunks) \<and>
      (\<forall>i q. (i, q) \<noteq> (iq_installation_id req, iq_repository_id req) \<longrightarrow>
         queryable_chunks sf i q db' = queryable_chunks sf i q db)) \<and>
    (\<forall>e. r = Inl e \<longrightarrow> db' = db)"
proof (cases r)
  case (Inl e)
  with run show ?thesis by (auto simp: index_repository_def split: sum.splits prod.splits)
next
  case (Inr gen)
  let ?inst = "iq_installation_id req" and ?repo = "iq_repository_id req" and ?gid = "ie_generation_id env"
  from run Inr obtain chunks vectors where
    tree: "chunk_tree (ie_parse env) (ie_sha256 env) (ie_decode env) checkout (iq_generated_paths req) (iq_ignored_paths req) = Inr chunks"
    and wr: "write_generation ?gid (ie_chunk_ids env) ?inst ?repo (iq_commit_sha req) (ep_model_name (iq_embedder req))
      chunks vectors db = Inr db'"
    by (auto simp: index_repository_def bind_r_Inr split: sum.splits prod.splits)
  obtain g rows where new: "db_ok db'" "generations db' = map (switched ?inst ?repo ?gid) (generations db @ [g])"
    "gr_id g = ?gid" "gr_installation_id g = ?inst" "gr_repository_id g = ?repo" "gr_state g = Building"
    "?gid \<notin> gr_id ` set (generations db)" "code_chunks db' = code_chunks db @ rows"
    "\<forall>r \<in> set rows. cr_generation_id r = ?gid" "map cr_chunk rows = chunks"
    by (rule write_generation_ok [OF wr ok]) auto
  have "cr_generation_id ` set (code_chunks db) \<subseteq> gr_id ` set (generations db)" using ok by (simp add: db_ok_def)
  with new(7) have old: "\<forall>c \<in> set (code_chunks db). cr_generation_id c \<noteq> ?gid" by (metis image_subset_iff)
  have ids: "distinct (map gr_id (generations db))" "distinct (map gr_id (generations db'))"
    using ok new(1) by (auto simp: db_ok_def)
  note join = joined_switched [OF ids(2) new(2,3,7,8,9) old]
  have "\<not> active_of ?inst ?repo (switched ?inst ?repo ?gid h)" if "h \<in> set (generations db)" for h
    using that new(7) by (auto simp: active_of_def switched_def image_iff)
  moreover have "active_of ?inst ?repo (switched ?inst ?repo ?gid g)"
    using new by (simp add: active_of_def switched_def)
  ultimately have "joined (active_of ?inst ?repo) db' = rows"
    unfolding join by (auto simp: filter_empty_conv)
  then have mine: "mset (queryable_chunks sf ?inst ?repo db') = mset chunks"
    unfolding queryable_chunks_def new(10) [symmetric] mset_map mset_sort by simp
  have "queryable_chunks sf i q db' = queryable_chunks sf i q db" if ne: "(i, q) \<noteq> (?inst, ?repo)" for i q
  proof -
    have eq: "active_of i q (switched ?inst ?repo ?gid h) \<longleftrightarrow> active_of i q h" if "h \<in> set (generations db)" for h
      using that switched_other [OF ne] new(7) by (metis image_eqI)
    have "\<not> active_of i q (switched ?inst ?repo ?gid g)" using ne new(4,5) by (auto simp: active_of_def)
    then have "joined (active_of i q) db' = joined (active_of i q) db"
      unfolding join joined_filter [OF ids(1)] using eq by (auto cong: bex_cong)
    then show ?thesis by (simp add: queryable_chunks_def)
  qed
  with Inr new(1) tree mine show ?thesis by auto
qed

text \<open>Completeness of the index.  Claim: when the schema and the embedder keep their contract, the numbers fit their
  columns, the generated identifiers are new and every chunk has a proper line range, indexing succeeds if and
  only if no two chunks have the same identity.  Two definitions of one qualified name in a Python file, such as
  a property with its setter or an overloaded function, therefore stop the indexing of the whole repository.\<close>

theorem index_succeeds_iff_identities_distinct:
  assumes ok: "db_ok db" and "assert_v1_embedding_contract (ie_column_type env) (ie_checks env) = Inr ()"
    and tree: "chunk_tree (ie_parse env) (ie_sha256 env) (ie_decode env) checkout (iq_generated_paths req)
      (iq_ignored_paths req) = Inr chunks"
    and emb: "embed_texts (iq_embedder req) (map ch_content chunks) = Inr vectors"
    and "in_integer (iq_installation_id req)" and "in_integer (iq_repository_id req)"
    and gid: "ie_generation_id env \<notin> gr_id ` set (generations db)" and fresh: "fresh_ids (ie_chunk_ids env) 0 db"
    and ranges: "\<forall>c \<in> set chunks. proper_range c"
  shows "(\<exists>g db'. index_repository env checkout req db = (Inr g, db')) \<longleftrightarrow> distinct (map ch_identity chunks)"
proof -
  let ?inst = "iq_installation_id req" and ?repo = "iq_repository_id req" and ?gid = "ie_generation_id env"
  have lens: "length vectors = length chunks" "\<forall>v \<in> set vectors. length v = v1_embedding_dimensions"
    using emb by (auto simp: embed_texts_def bind_r_Inr split: if_splits)
  obtain db1 where gen: "insert_generation ?gid ?inst ?repo (iq_commit_sha req) (ep_model_name (iq_embedder req)) db = Inr db1"
    using assms(5,6) gid by (simp add: insert_generation_def)
  from insert_generation_ok [OF gen ok] obtain g where
    g: "db_ok db1" "code_chunks db1 = code_chunks db" "generations db1 = generations db @ [g]"
      "gr_id g = ?gid" "gr_installation_id g = ?inst" "gr_repository_id g = ?repo" "gr_state g = Building" by auto
  have unused: "(?gid, x) \<notin> chunk_key ` set (code_chunks db1)" for x
  proof -
    have "cr_generation_id ` set (code_chunks db) \<subseteq> gr_id ` set (generations db)" using ok by (simp add: db_ok_def)
    with gid g(2) show ?thesis by (auto simp: chunk_key_def)
  qed
  have pairs: "\<forall>(c, v) \<in> set (zip chunks vectors). proper_range c \<and> length v = v1_embedding_dimensions"
    using ranges lens by (auto dest: set_zip_leftD set_zip_rightD)
  have "(\<exists>db2. insert_chunks (ie_chunk_ids env) 0 ?gid (zip chunks vectors) db1 = Inr db2) \<longleftrightarrow>
      distinct (map (\<lambda>(c, v). (?gid, ch_identity c)) (zip chunks vectors))"
    using insert_chunks_iff [OF _ _ pairs, of "ie_chunk_ids env" 0 db1 ?gid] fresh g unused
    by (auto simp: fresh_ids_def)
  also have "map (\<lambda>(c, v). (?gid, ch_identity c)) (zip chunks vectors) = map (Pair ?gid) (map ch_identity (map fst (zip chunks vectors)))"
    by (simp add: split_def)
  also have "distinct \<dots> \<longleftrightarrow> distinct (map ch_identity chunks)"
    using lens by (simp add: distinct_map inj_on_def)
  finally have ins: "(\<exists>db2. insert_chunks (ie_chunk_ids env) 0 ?gid (zip chunks vectors) db1 = Inr db2) \<longleftrightarrow>
      distinct (map ch_identity chunks)" .
  have act: "\<exists>db3. activate ?gid (retire_others ?inst ?repo ?gid db2) = Inr db3"
    if "insert_chunks (ie_chunk_ids env) 0 ?gid (zip chunks vectors) db1 = Inr db2" for db2
  proof -
    define db3 where "db3 = db2\<lparr>generations := map (switched ?inst ?repo ?gid) (generations db2)\<rparr>"
    have "generations db2 = generations db @ [g]" using insert_chunks_ok [OF that g(1)] g(3) by simp
    then have "one_active db3"
      using one_active_switched [of db ?gid g ?inst ?repo db3] ok gid g(4-7) by (simp add: db3_def db_ok_def)
    moreover have "(retire_others ?inst ?repo ?gid db2)\<lparr>generations := update_where (\<lambda>g. gr_id g = ?gid \<and> gr_state g = Building)
        (\<lambda>g. g\<lparr>gr_state := Active\<rparr>) (generations (retire_others ?inst ?repo ?gid db2))\<rparr> = db3"
      by (auto simp: db3_def retire_others_def update_where_def switched_def)
    ultimately show ?thesis by (simp add: activate_def)
  qed
  have "write_generation ?gid (ie_chunk_ids env) ?inst ?repo (iq_commit_sha req) (ep_model_name (iq_embedder req)) chunks vectors db =
      bind_r (insert_chunks (ie_chunk_ids env) 0 ?gid (zip chunks vectors) db1)
        (\<lambda>db2. activate ?gid (retire_others ?inst ?repo ?gid db2))"
    by (simp add: write_generation_def gen zip_strict_def lens)
  then have "(\<exists>db3. write_generation ?gid (ie_chunk_ids env) ?inst ?repo (iq_commit_sha req) (ep_model_name (iq_embedder req))
      chunks vectors db = Inr db3) \<longleftrightarrow> distinct (map ch_identity chunks)"
    using ins act by (auto simp: bind_r_Inr)
  then show ?thesis by (auto simp: index_repository_def assms(2) tree emb split: sum.splits)
qed

section \<open>A sample index\<close>

definition sample_embedder :: embedding_provider where
  "sample_embedder = \<lparr>ep_model_name = ''m'', ep_dimensions = 1536,
     ep_embed = (\<lambda>texts. Inr (map (\<lambda>_. replicate 1536 0) texts))\<rparr>"

definition sample_request :: index_request where
  "sample_request = \<lparr>iq_installation_id = 1, iq_repository_id = 7, iq_commit_sha = ''abc'', iq_embedder = sample_embedder,
     iq_generated_paths = None, iq_ignored_paths = None\<rparr>"

text \<open>The parser of the sample sees a class with a property and its setter.\<close>

definition sample_env :: index_env where
  "sample_env = \<lparr>ie_column_type = Some ''vector(1536)'', ie_checks = [''CHECK ((dimensions = 1536))''],
     ie_parse = (\<lambda>_. Inr [Ast_Def ''C'' 1 [] (Some 5)
       [Ast_Def ''x'' 3 [2] (Some 3) [], Ast_Def ''x'' 5 [4] (Some 5) []]]),
     ie_sha256 = id, ie_decode = Some, ie_generation_id = ''g'', ie_chunk_ids = show_nat\<rparr>"

definition sample_checkout :: "string \<Rightarrow> fs_dir" where
  "sample_checkout name = Fs_Dir [(''.git'', Fs_Dir [] [(''HEAD'', \<lparr>ff_is_symlink = False, ff_is_file = True, ff_bytes = ''ref''\<rparr>)])]
     [(name, \<lparr>ff_is_symlink = False, ff_is_file = True, ff_bytes = ''hello''\<rparr>)]"

definition sample_search :: search_functions where
  "sample_search = \<lparr>sf_collate = id, sf_distance = (\<lambda>_ _. 0), sf_matches = (\<lambda>content q. contains q content),
     sf_rank = (\<lambda>_ _. 1)\<rparr>"

definition empty_db :: vector_db where
  "empty_db = \<lparr>generations = [], code_chunks = []\<rparr>"

definition sample_tree :: "string \<Rightarrow> code_chunk list result" where
  "sample_tree name = chunk_tree (ie_parse sample_env) (ie_sha256 sample_env) (ie_decode sample_env) (sample_checkout name)
     (iq_generated_paths sample_request) (iq_ignored_paths sample_request)"

lemma sample_db_ok: "db_ok empty_db"
  by (simp add: db_ok_def empty_db_def one_active_def)

lemma sample_contract: "assert_v1_embedding_contract (ie_column_type sample_env) (ie_checks sample_env) = Inr ()"
  by code_simp

lemma sample_embed: "texts \<noteq> [] \<Longrightarrow> embed_texts sample_embedder texts = Inr (map (\<lambda>_. replicate 1536 0) texts)"
  by (simp add: embed_texts_def sample_embedder_def v1_embedding_dimensions_def)

lemma index_succeeds_iff_identities_distinct_witness:
  "\<not> (\<exists>g db'. index_repository sample_env (sample_checkout ''a.py'') sample_request empty_db = (Inr g, db'))"
proof -
  obtain chunks where tree: "sample_tree ''a.py'' = Inr chunks"
    and ids: "map ch_identity chunks = [''a.py::C'', ''a.py::C.x'', ''a.py::C.x'']"
    and ranges: "map (\<lambda>c. (ch_start_line c, ch_end_line c)) chunks = [(1, 5), (2, 3), (4, 5)]"
  proof -
    have "map_sum id (map ch_identity) (sample_tree ''a.py'') = Inr [''a.py::C'', ''a.py::C.x'', ''a.py::C.x'']"
      "map_sum id (map (\<lambda>c. (ch_start_line c, ch_end_line c))) (sample_tree ''a.py'') = Inr [(1, 5), (2, 3), (4, 5)]"
      by code_simp+
    with that show thesis by (cases "sample_tree ''a.py''") auto
  qed
  then have some: "map ch_content chunks \<noteq> []" by auto
  have "\<forall>c \<in> set chunks. proper_range c"
    using ranges by (auto simp: map_eq_Cons_conv proper_range_def)
  moreover have "fresh_ids (ie_chunk_ids sample_env) 0 empty_db"
    by (simp add: fresh_ids_def sample_env_def empty_db_def inj_def)
  ultimately show ?thesis
    using index_succeeds_iff_identities_distinct [OF sample_db_ok sample_contract tree [unfolded sample_tree_def],
        unfolded sample_request_def index_request.simps, OF sample_embed [OF some]] ids
    by (simp add: sample_request_def in_integer_def empty_db_def)
qed

lemma index_replaces_searchable_chunks_witness:
  "\<exists>g db' c. index_repository sample_env (sample_checkout ''a.md'') sample_request empty_db = (Inr g, db') \<and>
     queryable_chunks sample_search 1 7 db' = [c] \<and> ch_content c = ''hello''"
proof -
  obtain c where tree: "sample_tree ''a.md'' = Inr [c]" and c: "ch_content c = ''hello''" "proper_range c"
  proof -
    have "map_sum id (map (\<lambda>c. (ch_content c, proper_range c))) (sample_tree ''a.md'') = Inr [(''hello'', True)]"
      by code_simp
    with that show thesis by (cases "sample_tree ''a.md''") (auto simp: map_eq_Cons_conv)
  qed
  have embed: "embed_texts (iq_embedder sample_request) (map ch_content [c]) = Inr [replicate 1536 0]"
    by (simp add: sample_request_def sample_embed)
  obtain g db' where run: "index_repository sample_env (sample_checkout ''a.md'') sample_request empty_db = (Inr g, db')"
    using c(2) unfolding index_repository_def sample_contract tree [unfolded sample_tree_def] bind_r_simps embed
    by (auto simp: write_generation_def insert_generation_def insert_chunk_def zip_strict_def activate_def retire_others_def
        one_active_def sample_request_def sample_env_def empty_db_def in_integer_def proper_range_def v1_embedding_dimensions_def Let_def)
  have "iq_installation_id sample_request = 1" "iq_repository_id sample_request = 7" by (simp_all add: sample_request_def)
  with index_replaces_searchable_chunks [OF sample_db_ok run, of sample_search] tree have "mset (queryable_chunks sample_search 1 7 db') = {#c#}"
    by (auto simp: sample_tree_def)
  with run c(1) show ?thesis by auto
qed

section \<open>Runs of the indexer\<close>

inductive index_step :: "vector_db \<Rightarrow> vector_db \<Rightarrow> bool" where
  run: "index_repository env checkout req db = (r, db') \<Longrightarrow> index_step db db'"

lemma index_step_ok: "db_ok db \<Longrightarrow> index_step db db' \<Longrightarrow> db_ok db'"
proof (erule index_step.cases, goal_cases)
  case (1 env checkout req db0 r db1)
  show ?case
  proof (cases r)
    case (Inl e)
    with 1 show ?thesis by (auto simp: index_repository_def split: sum.splits prod.splits)
  next
    case (Inr g)
    with 1 obtain chunks vectors where "write_generation (ie_generation_id env) (ie_chunk_ids env) (iq_installation_id req)
        (iq_repository_id req) (iq_commit_sha req) (ep_model_name (iq_embedder req)) chunks vectors db = Inr db'"
      by (auto simp: index_repository_def bind_r_Inr split: sum.splits prod.splits)
    from write_generation_ok [OF this 1(1)] show ?thesis by blast
  qed
qed

interpretation index: invariant_system "\<lambda>db. db = empty_db" index_step db_ok
  by unfold_locales (auto simp: sample_db_ok intro: index_step_ok)

lemma one_active_reachable: "index_step\<^sup>*\<^sup>* empty_db db \<Longrightarrow> one_active db"
  using index.inv_reachable [of empty_db db] by (simp add: db_ok_def)

section \<open>What a search returns\<close>

definition searchable :: "retrieval_query \<Rightarrow> vector_db \<Rightarrow> chunk_row \<Rightarrow> bool" where
  "searchable query db row \<longleftrightarrow> row \<in> set (code_chunks db) \<and>
     (\<exists>g \<in> set (generations db). gr_id g = cr_generation_id row \<and>
        active_of (rq_installation_id query) (rq_repository_id query) g \<and> gr_commit_sha g = rq_commit_sha query)"

lemma rank_ids_searchable:
  assumes "rank_ids query keep order limit db = Inr ids"
  shows "\<forall>i \<in> set ids. \<exists>row. searchable query db row \<and> cr_id row = i"
  using assms
  by (fastforce simp: rank_ids_def bind_r_Inr sql_limit_def joined_def searchable_def split: if_splits dest: in_set_takeD)

text \<open>The loaded chunks, with the condition on the rows that the statement has.\<close>

lemma load_chunks_by_id:
  obtains by_id where "load_chunks ids db = List.map_filter by_id ids"
    "\<And>i c. by_id i = Some c \<Longrightarrow> \<exists>row \<in> set (code_chunks db). cr_id row = i \<and> c = retrieved_of_row row"
proof -
  let ?m = "map_of (rev (map (\<lambda>r. (cr_id r, retrieved_of_row r)) (filter (\<lambda>r. cr_id r \<in> set ids) (code_chunks db))))"
  have "load_chunks ids db = List.map_filter ?m ids"
    by (simp add: load_chunks_def Let_def List.map_filter_simps)
  moreover have "\<exists>row \<in> set (code_chunks db). cr_id row = i \<and> c = retrieved_of_row row" if "?m i = Some c" for i c
    using map_of_SomeD [OF that] by auto
  ultimately show thesis by (rule that)
qed

lemma load_chunks_ids: "distinct ids \<Longrightarrow> distinct (map rc_chunk_id (load_chunks ids db))"
proof (rule load_chunks_by_id [of ids db])
  fix by_id
  assume "distinct ids" and eq: "load_chunks ids db = List.map_filter by_id ids"
    and rows: "\<And>i c. by_id i = Some c \<Longrightarrow> \<exists>row \<in> set (code_chunks db). cr_id row = i \<and> c = retrieved_of_row row"
  have key: "rc_chunk_id c = i" if "by_id i = Some c" for i c
    using rows [OF that] by (auto simp: retrieved_of_row_def)
  have "map rc_chunk_id (List.map_filter by_id is) = filter (\<lambda>i. by_id i \<noteq> None) is" for "is"
    by (induction "is") (auto simp: List.map_filter_simps key split: option.splits)
  with eq \<open>distinct ids\<close> show ?thesis by simp
qed

lemma load_chunks_rows:
  "c \<in> set (load_chunks ids db) \<Longrightarrow> \<exists>row \<in> set (code_chunks db). cr_id row \<in> set ids \<and> c = retrieved_of_row row"
proof (rule load_chunks_by_id [of ids db])
  fix by_id
  assume c: "c \<in> set (load_chunks ids db)" and eq: "load_chunks ids db = List.map_filter by_id ids"
    and rows: "\<And>i c. by_id i = Some c \<Longrightarrow> \<exists>row \<in> set (code_chunks db). cr_id row = i \<and> c = retrieved_of_row row"
  from c obtain i where "i \<in> set ids" "by_id i = Some c" unfolding eq by (auto simp: List.map_filter_def)
  with rows show ?thesis by metis
qed

lemma retrieve_candidates_ok:
  assumes "db_ok db" and "retrieve_candidates sf query db embedder limit = Inr chunks"
  shows "(\<forall>c \<in> set chunks. \<exists>row. searchable query db row \<and> c = retrieved_of_row row) \<and>
    distinct (map rc_chunk_id chunks) \<and> int (length chunks) \<le> limit"
proof -
  let ?limit = "max limit (limit * candidate_multiplier)"
  from assms(2) obtain order keep order' vs ls fused where
    vs: "rank_ids query (\<lambda>_. True) order ?limit db = Inr vs" and ls: "rank_ids query keep order' ?limit db = Inr ls"
    and fu: "reciprocal_rank_fusion [vs, ls] rrf_default_k = Inr fused"
    and chunks: "chunks = take (nat limit) (load_chunks fused db)"
    by (auto simp: retrieve_candidates_def Let_def bind_r_Inr)
  have "0 \<le> limit" using vs by (auto simp: rank_ids_def bind_r_Inr sql_limit_def candidate_multiplier_def max_def split: if_splits)
  then have len: "int (length chunks) \<le> limit" by (simp add: chunks)
  from fusion_items [OF _ fu] have items: "distinct fused" "set fused = set vs \<union> set ls" by (auto simp: rrf_default_k_def)
  have "distinct (map rc_chunk_id (load_chunks fused db))" using load_chunks_ids items(1) by blast
  then have dist: "distinct (map rc_chunk_id chunks)" by (simp add: chunks distinct_take flip: take_map)
  have "\<exists>row. searchable query db row \<and> c = retrieved_of_row row" if "c \<in> set chunks" for c
  proof -
    from that obtain row where row: "row \<in> set (code_chunks db)" "cr_id row \<in> set fused" "c = retrieved_of_row row"
      using load_chunks_rows in_set_takeD unfolding chunks by metis
    with items rank_ids_searchable [OF vs] rank_ids_searchable [OF ls] obtain row' where
      row': "searchable query db row'" "cr_id row' = cr_id row" by blast
    then have "row' = row" using assms(1) row(1) by (auto simp: db_ok_def searchable_def distinct_map dest: inj_onD)
    with row row' show ?thesis by blast
  qed
  with len dist show ?thesis by blast
qed

text \<open>What fitting selects is a part of the candidates, in their order.\<close>

definition part_of :: "retrieved_chunk list \<Rightarrow> retrieved_chunk list \<Rightarrow> bool" where
  "part_of r chunks \<longleftrightarrow> set r \<subseteq> set chunks \<and> length r \<le> length chunks \<and>
     (distinct (map rc_chunk_id chunks) \<longrightarrow> distinct (map rc_chunk_id r))"

lemma fit_chunks_sub: "part_of (fit_chunks tokens remaining chunks) chunks"
  unfolding part_of_def
  by (induction tokens remaining chunks rule: fit_chunks.induct) (auto simp: Let_def)

lemma fit_chunks_cost:
  assumes "\<forall>s. 0 \<le> tokens s"
  shows "sum_list (map (tokens \<circ> rc_content) (fit_chunks tokens remaining chunks)) \<le> max 0 remaining"
  using assms
  by (induction tokens remaining chunks rule: fit_chunks.induct) (auto simp: Let_def max_def)

lemma part_of_refl: "part_of r r"
  by (simp add: part_of_def)

lemma fit_options_sub: "fit_options opts chunks = Inr r \<Longrightarrow> part_of r chunks"
  by (auto simp: part_of_refl fit_options_def fit_retrieved_chunks_def fit_chunks_sub split: option.splits)

text \<open>Search.  Claim: every chunk a search returns is a stored chunk of the active generation of the asked
  installation, repository and commit; no chunk is returned twice, at most \<open>limit\<close> are, and when they are fitted
  to a packed diff their tokens stay within what the budget leaves.  Without being enabled explicitly the search
  returns nothing and does nothing.\<close>

theorem retrieve_context_sound:
  assumes "db_ok db" and "retrieve_context sf query db embedder opts w = (Inr chunks, w')"
  shows "(\<forall>c \<in> set chunks. \<exists>row. searchable query db row \<and> c = retrieved_of_row row) \<and>
    distinct (map rc_chunk_id chunks) \<and> int (length chunks) \<le> max 0 (ro_limit opts) \<and>
    (\<forall>packed budget tokens. ro_packed opts = Some packed \<and> ro_budget opts = Some budget \<and>
        ro_count_tokens opts = Some tokens \<and> (\<forall>s. 0 \<le> tokens s) \<longrightarrow>
      sum_list (map (tokens \<circ> rc_content) chunks) \<le> max 0 (cb_tokens budget - pd_prompt_tokens packed)) \<and>
    (ro_enabled opts \<noteq> Some True \<longrightarrow> chunks = [] \<and> w' = w)"
proof (cases "ro_enabled opts = Some True")
  case False
  then have "\<not> (case ro_enabled opts of Some b \<Rightarrow> b | None \<Rightarrow> retrieval_enabled_default)"
    by (auto simp: retrieval_enabled_default_def split: option.splits)
  with assms(2) have "chunks = []" "w' = w" by (simp_all add: retrieve_context_def return_a_def)
  then show ?thesis by simp
next
  case True
  with assms(2) obtain candidates where
    cand: "retrieve_candidates sf query db embedder (ro_limit opts) = Inr candidates" and fit: "fit_options opts candidates = Inr chunks"
    by (auto simp: retrieve_context_def act_simps lift_r_def bind_r_Inr split: sum.splits option.splits prod.splits)
  note ok = retrieve_candidates_ok [OF assms(1) cand]
  from fit_options_sub [OF fit] have "set chunks \<subseteq> set candidates" "length chunks \<le> length candidates"
    "distinct (map rc_chunk_id candidates) \<longrightarrow> distinct (map rc_chunk_id chunks)" by (auto simp: part_of_def)
  then have "\<forall>c \<in> set chunks. \<exists>row. searchable query db row \<and> c = retrieved_of_row row"
    "distinct (map rc_chunk_id chunks)" "int (length chunks) \<le> ro_limit opts"
    using ok by (blast, blast, linarith)
  moreover have "sum_list (map (tokens \<circ> rc_content) chunks) \<le> max 0 (cb_tokens budget - pd_prompt_tokens packed)"
    if "ro_packed opts = Some packed" "ro_budget opts = Some budget" "ro_count_tokens opts = Some tokens" "\<forall>s. 0 \<le> tokens s"
    for packed budget tokens
    using that fit fit_chunks_cost by (auto simp: fit_options_def fit_retrieved_chunks_def)
  ultimately show ?thesis using True by auto
qed

text \<open>A repository with an active and a retired generation of one chunk each.\<close>

definition sample_row :: "uuid \<Rightarrow> uuid \<Rightarrow> string \<Rightarrow> chunk_row" where
  "sample_row cid gid content = \<lparr>cr_id = cid, cr_generation_id = gid,
     cr_chunk = make_chunk id ''a.md'' 1 1 content Line_Window ''a.md:window:1:1'' None, cr_embedding = ''[]''\<rparr>"

definition sample_generation :: "uuid \<Rightarrow> string \<Rightarrow> generation_state \<Rightarrow> generation_row" where
  "sample_generation gid commit state = \<lparr>gr_id = gid, gr_installation_id = 1, gr_repository_id = 7,
     gr_commit_sha = commit, gr_model_name = ''m'', gr_dimensions = 1536, gr_state = state\<rparr>"

definition sample_db :: vector_db where
  "sample_db = \<lparr>generations = [sample_generation ''old'' ''c1'' Retired, sample_generation ''new'' ''c2'' Active],
     code_chunks = [sample_row ''1'' ''old'' ''was'', sample_row ''2'' ''new'' ''is'']\<rparr>"

definition sample_query :: retrieval_query where
  "sample_query = \<lparr>rq_installation_id = 1, rq_repository_id = 7, rq_commit_sha = ''c2'', rq_text = ''is''\<rparr>"

definition sample_options :: "unit retrieval_options" where
  "sample_options = \<lparr>ro_packed = None, ro_budget = None, ro_count_tokens = None, ro_limit = 8,
     ro_record_selection = None, ro_enabled = Some True\<rparr>"

lemma retrieve_context_sound_witness:
  "\<exists>c. retrieve_context sample_search sample_query sample_db sample_embedder sample_options () = (Inr [c], ()) \<and>
     rc_content c = ''is'' \<and> (\<exists>row. searchable sample_query sample_db row \<and> c = retrieved_of_row row)"
proof -
  let ?c = "retrieved_of_row (sample_row ''2'' ''new'' ''is'')"
  have rank: "rank_ids sample_query keep order 32 sample_db =
      Inr (if keep (sample_row ''2'' ''new'' ''is'') then [''2''] else [])" for keep order
    by (simp add: rank_ids_def sql_limit_def joined_def sample_db_def sample_query_def sample_generation_def
        sample_row_def active_of_def)
  have "sf_matches sample_search (ch_content (cr_chunk (sample_row ''2'' ''new'' ''is''))) (rq_text sample_query)"
    by code_simp
  moreover have "reciprocal_rank_fusion [[''2''], [''2'']] rrf_default_k = Inr [''2'']"
    by (simp add: reciprocal_rank_fusion_def rrf_default_k_def)
  moreover have "load_chunks [''2''] sample_db = [?c]"
    by (simp add: load_chunks_def sample_db_def sample_row_def List.map_filter_simps)
  ultimately have "retrieve_candidates sample_search sample_query sample_db sample_embedder 8 = Inr [?c]"
    by (simp add: retrieve_candidates_def candidate_multiplier_def sample_embed rank Let_def)
  then have run: "retrieve_context sample_search sample_query sample_db sample_embedder sample_options () = (Inr [?c], ())"
    by (simp add: retrieve_context_def sample_options_def fit_options_def act_simps lift_r_def)
  moreover have "db_ok sample_db"
    by (simp add: db_ok_def one_active_def chunk_key_def sample_db_def sample_generation_def sample_row_def)
  ultimately show ?thesis
    using retrieve_context_sound [of sample_db sample_search sample_query sample_embedder sample_options "()" "[?c]" "()"]
    by (auto simp: retrieved_of_row_def sample_row_def make_chunk_def)
qed

end
