(* ===== verification/Code_Graph.thy ===== *)
theory Code_Graph
  imports Posting
begin

text \<open>
  The directed code graph (\<open>retrieval/code_graph.py\<close>) and the sensitivity scores computed from it
  and from the history of the repository (\<open>retrieval/sensitivity.py\<close>).

  The walk of \<open>blast_radius\<close> is the breadth-first loop of the code, with its queue, its set of seen
  callers and its deadline; \<open>blast_radius_exact\<close> shows that it returns, without repetition, exactly the
  symbols that reach the given one over at most \<open>depth\<close> extracted call or re-export edges, and
  \<open>blast_radius_timeout\<close> that running out of time is the only way it fails.  The monotonic clock is a
  parameter (the sequence of its readings), as are the outputs of the \<open>git\<close> commands.
\<close>

section \<open>The graph\<close>

record graph_node =
  gn_id :: string
  gn_label :: string
  gn_source_file :: string

record graph_edge =
  ge_source :: string
  ge_target :: string
  ge_relation :: string
  ge_confidence :: string

record code_graph =
  cg_nodes :: "(string \<times> graph_node) list"
  cg_edges :: "graph_edge list"

definition blast_relations :: "string list" where
  "blast_relations = [''calls'', ''re_exports'']"

definition walk_seconds :: rat where
  "walk_seconds = 5"

definition blast_edge :: "graph_edge \<Rightarrow> bool" where
  "blast_edge e \<longleftrightarrow> ge_confidence e = ''EXTRACTED'' \<and> ge_relation e \<in> set blast_relations"

text \<open>\<open>inbound.get(current, [])\<close>: the sources of the kept edges into a symbol, in the order of the file.\<close>

definition inbound :: "graph_edge list \<Rightarrow> string \<Rightarrow> string list" where
  "inbound edges current = map ge_source (filter (\<lambda>e. blast_edge e \<and> ge_target e = current) edges)"

definition known :: "code_graph \<Rightarrow> string list" where
  "known g = map fst (cg_nodes g) @ concat (map (\<lambda>e. [ge_source e, ge_target e]) (cg_edges g))"

type_synonym walk_state = "string set \<times> string list \<times> (string \<times> int) list"

text \<open>The inner loop over the callers of one symbol.\<close>

fun visit_callers :: "int \<Rightarrow> string list \<Rightarrow> walk_state \<Rightarrow> walk_state" where
  "visit_callers level [] st = st"
| "visit_callers level (caller # cs) (seen, found, queue) =
     (if caller \<in> seen then visit_callers level cs (seen, found, queue)
      else visit_callers level cs (insert caller seen, found @ [caller], queue @ [(caller, level + 1)]))"

definition unseen :: "graph_edge list \<Rightarrow> string set \<Rightarrow> string set" where
  "unseen edges seen = set (map ge_source edges) - seen"

lemma visit_callers_measure:
  assumes "visit_callers level cs (seen, found, queue) = (seen', found', queue')"
    and "set cs \<subseteq> set (map ge_source edges)"
  shows "card (unseen edges seen') + length queue' = card (unseen edges seen) + length queue"
  using assms
proof (induction level cs "(seen, found, queue)" arbitrary: seen found queue rule: visit_callers.induct)
  case (2 level caller cs seen found queue)
  show ?case
  proof (cases "caller \<in> seen")
    case True
    with 2 show ?thesis by simp
  next
    case False
    with 2 have "card (unseen edges seen') + length queue' =
        card (unseen edges (insert caller seen)) + length (queue @ [(caller, level + 1)])"
      by simp
    moreover have "caller \<in> unseen edges seen" "unseen edges (insert caller seen) = unseen edges seen - {caller}"
      using False 2 by (auto simp: unseen_def)
    then have "Suc (card (unseen edges (insert caller seen))) = card (unseen edges seen)"
      by (metis card_Suc_Diff1 finite_Diff finite_set unseen_def)
    ultimately show ?thesis by simp
  qed
qed simp

lemma inbound_sources: "set (inbound edges current) \<subseteq> set (map ge_source edges)"
  by (auto simp: inbound_def)

text \<open>The loop \<^verbatim>\<open>while queue\<close>; \<open>clock i\<close> is the \<open>i\<close>-th reading of the monotonic clock.\<close>

function walk ::
  "graph_edge list \<Rightarrow> int \<Rightarrow> (nat \<Rightarrow> rat) \<Rightarrow> rat \<Rightarrow> nat \<Rightarrow> walk_state \<Rightarrow> string list result" where
  "walk edges depth clock deadline i (seen, found, []) = Inr found"
| "walk edges depth clock deadline i (seen, found, (current, level) # queue) =
     (if deadline - clock i \<le> 0 then Inl RuntimeError
      else if depth \<le> level then walk edges depth clock deadline (Suc i) (seen, found, queue)
      else walk edges depth clock deadline (Suc i)
             (visit_callers level (inbound edges current) (seen, found, queue)))"
  by pat_completeness auto
termination
proof (relation "measure (\<lambda>(edges, depth, clock, deadline, i, seen, found, queue).
    card (unseen edges seen) + length queue)", goal_cases)
  case 1
  show ?case by simp
next
  case 2
  then show ?case by simp
next
  case (3 edges depth clock deadline i seen found current level queue)
  obtain seen' found' queue' where
    st: "visit_callers level (inbound edges current) (seen, found, queue) = (seen', found', queue')"
    by (metis prod_cases3)
  then show ?case
    using visit_callers_measure [OF st inbound_sources] by simp
qed

definition blast_radius :: "(nat \<Rightarrow> rat) \<Rightarrow> code_graph \<Rightarrow> string \<Rightarrow> int \<Rightarrow> string list result" where
  "blast_radius clock g symbol depth =
     (if symbol \<notin> set (known g) then Inr []
      else walk (cg_edges g) depth clock (clock 0 + walk_seconds) 1 ({}, [], [(symbol, 0)]))"

subsection \<open>Loading\<close>

definition attr_get :: "json \<Rightarrow> string \<Rightarrow> json result" where
  "attr_get v key = (if is_obj v then Inr (json_get v key) else Inl (Exception_Of ''AttributeError''))"

definition or_json :: "json \<Rightarrow> json \<Rightarrow> json" where
  "or_json v w = (if json_truthy v then v else w)"

definition load_node :: "(json \<Rightarrow> string) \<Rightarrow> json \<Rightarrow> (string \<times> graph_node) result" where
  "load_node repr item =
     bind_r (json_item item ''id'') (\<lambda>ident.
     bind_r (attr_get item ''label'') (\<lambda>label.
     bind_r (attr_get item ''source_file'') (\<lambda>src.
       Inr (py_str repr ident,
            \<lparr>gn_id = py_str repr ident, gn_label = py_str repr (or_json label ident),
             gn_source_file = py_str repr (or_json src (JStr []))\<rparr>))))"

definition load_edge :: "(json \<Rightarrow> string) \<Rightarrow> json \<Rightarrow> graph_edge result" where
  "load_edge repr item =
     bind_r (json_item item ''source'') (\<lambda>source.
     bind_r (json_item item ''target'') (\<lambda>target.
     bind_r (attr_get item ''relation'') (\<lambda>relation.
     bind_r (attr_get item ''confidence'') (\<lambda>confidence.
       Inr \<lparr>ge_source = py_str repr source, ge_target = py_str repr target,
            ge_relation = py_str repr (or_json relation (JStr [])),
            ge_confidence = py_str repr (or_json confidence (JStr ''INFERRED''))\<rparr>))))"

text \<open>The argument is the decoded file.\<close>

definition load_code_graph :: "(json \<Rightarrow> string) \<Rightarrow> json \<Rightarrow> code_graph result" where
  "load_code_graph repr data =
     bind_r (attr_get data ''links'') (\<lambda>links.
     bind_r (if links = JNull then bind_r (attr_get data ''edges'') (\<lambda>es. Inr (or_json es (JArr []))) else Inr links)
       (\<lambda>raw_links.
     bind_r (attr_get data ''nodes'') (\<lambda>ns.
     bind_r (json_iter (or_json ns (JArr []))) (\<lambda>raw_nodes.
     bind_r (map_r (load_node repr) raw_nodes) (\<lambda>nodes.
     bind_r (json_iter raw_links) (\<lambda>raw_edges.
     bind_r (map_r (load_edge repr) raw_edges) (\<lambda>edges.
       Inr \<lparr>cg_nodes = dict_of nodes, cg_edges = edges\<rparr>)))))))"

section \<open>What the walk finds\<close>

text \<open>\<open>(c, t)\<close> is in the relation when an extracted edge goes from \<open>c\<close> into \<open>t\<close>; \<open>reaches_within\<close> are the symbols
  that reach the given one in one to \<open>n\<close> steps.\<close>

definition calls_into :: "graph_edge list \<Rightarrow> (string \<times> string) set" where
  "calls_into edges = {(c, t). c \<in> set (inbound edges t)}"

definition reaches_within :: "graph_edge list \<Rightarrow> string \<Rightarrow> nat \<Rightarrow> string set" where
  "reaches_within edges symbol n = {c. \<exists>k. 1 \<le> k \<and> k \<le> n \<and> (c, symbol) \<in> calls_into edges ^^ k}"

lemma reaches_within_0 [simp]: "reaches_within edges symbol 0 = {}"
  by (auto simp: reaches_within_def)

lemma reaches_within_mono: "m \<le> n \<Longrightarrow> reaches_within edges symbol m \<subseteq> reaches_within edges symbol n"
  unfolding reaches_within_def using le_trans by blast

lemma reaches_within_Suc:
  "reaches_within edges symbol (Suc n) = reaches_within edges symbol n \<union> {c. (c, symbol) \<in> calls_into edges ^^ Suc n}"
  unfolding reaches_within_def by (auto simp del: relpow.simps simp: le_Suc_eq)

lemma calls_step:
  "(c, symbol) \<in> calls_into edges ^^ Suc n \<longleftrightarrow> (\<exists>y. (c, y) \<in> calls_into edges \<and> (y, symbol) \<in> calls_into edges ^^ n)"
  by (meson relpow_Suc_E2 relpow_Suc_I2)

lemma visit_callers_spec:
  "\<exists>new. visit_callers level cs (seen, found, queue) =
      (seen \<union> set cs, found @ new, queue @ map (\<lambda>c. (c, level + 1)) new) \<and>
    set new = set cs - seen \<and> distinct new"
proof (induction level cs "(seen, found, queue)" arbitrary: seen found queue rule: visit_callers.induct)
  case (2 level caller cs seen found queue)
  show ?case
  proof (cases "caller \<in> seen")
    case True
    with 2(1) [OF True] show ?thesis by (auto simp: insert_absorb)
  next
    case False
    with 2(2) [OF False] obtain new where
      "visit_callers level cs (insert caller seen, found @ [caller], queue @ [(caller, level + 1)]) =
        (insert caller seen \<union> set cs, (found @ [caller]) @ new,
         (queue @ [(caller, level + 1)]) @ map (\<lambda>c. (c, level + 1)) new)"
      "set new = set cs - insert caller seen" "distinct new"
      by blast
    with False show ?thesis by (intro exI [of _ "caller # new"]) auto
  qed
qed simp

text \<open>The queue holds the rest \<open>A\<close> of one level and the part \<open>B\<close> of the next that is already found.\<close>

definition level_queue :: "nat \<Rightarrow> string list \<Rightarrow> string list \<Rightarrow> (string \<times> int) list" where
  "level_queue l A B = map (\<lambda>c. (c, int l)) A @ map (\<lambda>c. (c, int l + 1)) B"

definition bfs :: "graph_edge list \<Rightarrow> string \<Rightarrow> nat \<Rightarrow> string list \<Rightarrow> string list \<Rightarrow> string set \<Rightarrow> bool" where
  "bfs edges symbol l A B seen \<longleftrightarrow>
     reaches_within edges symbol l \<subseteq> seen \<and> seen \<subseteq> reaches_within edges symbol (Suc l) \<and>
     (\<forall>x. (x, symbol) \<in> calls_into edges ^^ Suc l \<longrightarrow> x \<in> seen \<or> (\<exists>a \<in> set A. (x, a) \<in> calls_into edges)) \<and>
     seen - reaches_within edges symbol l \<subseteq> set B \<and>
     (\<forall>a \<in> set A. (a, symbol) \<in> calls_into edges ^^ l) \<and>
     (\<forall>b \<in> set B. (b, symbol) \<in> calls_into edges ^^ Suc l)"

lemma bfs_start: "bfs edges symbol 0 [symbol] [] {}"
  by (auto simp: bfs_def)

lemma bfs_visit:
  assumes inv: "bfs edges symbol l (a # A) B seen" and new: "set new = set (inbound edges a) - seen"
  shows "bfs edges symbol l A (B @ new) (seen \<union> set (inbound edges a))"
proof -
  have callers: "c \<in> set (inbound edges a) \<longleftrightarrow> (c, a) \<in> calls_into edges" for c
    by (simp add: calls_into_def)
  with inv have next_level: "(c, symbol) \<in> calls_into edges ^^ Suc l" if "c \<in> set (inbound edges a)" for c
    using that unfolding bfs_def calls_step by auto
  then have "set (inbound edges a) \<subseteq> reaches_within edges symbol (Suc l)"
    unfolding reaches_within_Suc by blast
  with inv new callers next_level show ?thesis
    unfolding bfs_def by (auto simp del: relpow.simps)
qed

lemma bfs_shift:
  assumes inv: "bfs edges symbol l [] B seen"
  shows bfs_level_done: "seen = reaches_within edges symbol (Suc l)" and bfs_next_level: "bfs edges symbol (Suc l) B [] seen"
proof -
  show eq: "seen = reaches_within edges symbol (Suc l)"
    using inv unfolding bfs_def reaches_within_Suc by auto
  have "x \<in> seen \<or> (\<exists>b \<in> set B. (x, b) \<in> calls_into edges)" if x: "(x, symbol) \<in> calls_into edges ^^ Suc (Suc l)" for x
  proof -
    from x obtain y where y: "(x, y) \<in> calls_into edges" "(y, symbol) \<in> calls_into edges ^^ Suc l"
      unfolding calls_step [where n = "Suc l"] by blast
    then have "y \<in> seen" using eq unfolding reaches_within_Suc by blast
    show ?thesis
    proof (cases "y \<in> reaches_within edges symbol l")
      case True
      then obtain k where "1 \<le> k" "k \<le> l" "(y, symbol) \<in> calls_into edges ^^ k"
        unfolding reaches_within_def by blast
      with y(1) have "(x, symbol) \<in> calls_into edges ^^ Suc k" and "Suc k \<le> Suc l"
        unfolding calls_step by auto
      then show ?thesis unfolding eq reaches_within_def by (metis (mono_tags, lifting) One_nat_def Suc_le_mono le0 mem_Collect_eq)
    next
      case False
      with \<open>y \<in> seen\<close> inv have "y \<in> set B" unfolding bfs_def by blast
      with y(1) show ?thesis by blast
    qed
  qed
  with inv eq show "bfs edges symbol (Suc l) B [] seen"
    unfolding bfs_def by (simp del: relpow.simps add: reaches_within_mono)
qed

lemma bfs_exhausted:
  assumes "bfs edges symbol l [] [] seen"
  shows "reaches_within edges symbol (l + n) = seen"
  using assms
proof (induction n arbitrary: l)
  case 0
  then show ?case by (auto simp: bfs_def)
next
  case (Suc n)
  from Suc.IH [OF bfs_next_level [OF Suc.prems]] show ?case by simp
qed

lemma walk_drained:
  assumes "\<forall>j. clock j < deadline" and "\<forall>(c, l) \<in> set queue. depth \<le> l"
  shows "walk edges depth clock deadline i (seen, found, queue) = Inr found"
  using assms
  by (induction queue arbitrary: i) (auto simp: not_le)

lemma level_queue_simps [simp]:
  "level_queue l (a # A) B = (a, int l) # level_queue l A B"
  "level_queue l [] [] = []"
  "level_queue l [] (b # B) = level_queue (Suc l) (b # B) []"
  "level_queue l A B @ map (\<lambda>c. (c, int l + 1)) new = level_queue l A (B @ new)"
  by (simp_all add: level_queue_def add.commute)

definition on_course :: "graph_edge list \<Rightarrow> string \<Rightarrow> int \<Rightarrow> nat \<Rightarrow> string list \<Rightarrow> string list \<Rightarrow> string set \<Rightarrow> bool" where
  "on_course edges symbol depth l A B seen \<longleftrightarrow>
     bfs edges symbol l A B seen \<and> (int l < depth \<or> int l = depth \<and> B = [] \<and> seen = reaches_within edges symbol l)"

lemma on_course_shift:
  assumes "on_course edges symbol depth l [] B seen" and "B \<noteq> []"
  shows "on_course edges symbol depth (Suc l) B [] seen"
  using assms bfs_shift [of edges symbol l B seen] unfolding on_course_def by auto

lemma on_course_end:
  assumes "on_course edges symbol depth l [] [] seen"
  shows "seen = reaches_within edges symbol (nat depth)"
proof -
  from assms have "bfs edges symbol l [] [] seen" "int l \<le> depth" by (auto simp: on_course_def)
  then show ?thesis using bfs_exhausted [of edges symbol l seen "nat depth - l"] by simp
qed

lemma walk_finds_first:
  assumes "on_course edges symbol depth l A B seen" and "int l = depth" and "set found = seen" and "\<forall>j. clock j < deadline"
  shows "walk edges depth clock deadline i (seen, found, level_queue l A B) = Inr found \<and> set found = reaches_within edges symbol (nat depth)"
proof -
  have "B = []" "seen = reaches_within edges symbol (nat depth)" using assms(1,2) by (auto simp: on_course_def)
  with assms(2-4) walk_drained [of clock deadline "level_queue l A B" depth edges i seen found] show ?thesis
    by (auto simp: level_queue_def)
qed

lemma walk_finds:
  assumes "on_course edges symbol depth l A B seen" and "queue = level_queue l A B"
    and "set found = seen" and "distinct found" and "\<forall>j. clock j < deadline"
  shows "\<exists>r. walk edges depth clock deadline i (seen, found, queue) = Inr r \<and> distinct r \<and>
    set r = reaches_within edges symbol (nat depth)"
  using assms
proof (induction edges depth clock deadline i "(seen, found, queue)" arbitrary: seen found queue l A B rule: walk.induct)
  case (1 edges depth clock deadline i seen found)
  then have "A = []" "B = []" by (simp_all add: level_queue_def)
  with 1 on_course_end show ?case by auto
next
  case (2 edges depth clock deadline i seen found current level queue)
  obtain l' A' B' where course: "on_course edges symbol depth l' (current # A') B' seen"
    and level: "level = int l'" and queue: "queue = level_queue l' A' B'"
  proof (cases A)
    case Nil
    with 2(4) obtain B'' where "B = current # B''" by (cases B) (auto simp: level_queue_def)
    with 2(3,4) Nil that [of "Suc l" B'' "[]"] on_course_shift [of edges symbol depth l B seen] show thesis by simp
  next
    case (Cons a A'')
    with 2(3,4) that [of l A'' B] show thesis by simp
  qed
  have in_time: "\<not> deadline - clock i \<le> 0" using 2(7) by (simp add: not_le)
  show ?case
  proof (cases "depth \<le> level")
    case True
    with course level have "int l' = depth" by (auto simp: on_course_def)
    from walk_finds_first [OF course this 2(5,7)] level queue 2(6) show ?thesis by simp
  next
    case False
    obtain new where visit: "visit_callers level (inbound edges current) (seen, found, queue) =
        (seen \<union> set (inbound edges current), found @ new, queue @ map (\<lambda>c. (c, level + 1)) new)"
      and new: "set new = set (inbound edges current) - seen" "distinct new"
      using visit_callers_spec by blast
    have "on_course edges symbol depth l' A' (B' @ new) (seen \<union> set (inbound edges current))"
      using course False level bfs_visit [OF _ new(1)] by (auto simp: on_course_def)
    from 2(2) [OF in_time False visit this] 2(5-7) new level queue visit in_time False
    show ?thesis by auto
  qed
qed

lemma walk_timeout: "walk edges depth clock deadline i st = Inl e \<Longrightarrow> e = RuntimeError"
  by (induction edges depth clock deadline i st rule: walk.induct) (auto split: if_splits)

section \<open>Sensitivity\<close>

text \<open>A character of a word, in the sense of \<open>\b\<close>: alphanumeric or the underscore.\<close>

definition is_word :: "char \<Rightarrow> bool" where
  "is_word c \<longleftrightarrow> (let n = (of_char c :: nat) in
     (48 \<le> n \<and> n \<le> 57) \<or> (65 \<le> n \<and> n \<le> 90) \<or> (97 \<le> n \<and> n \<le> 122) \<or>
     n \<in> {95, 170, 178, 179, 181, 185, 186, 188, 189, 190} \<or> (192 \<le> n \<and> n \<noteq> 215 \<and> n \<noteq> 247))"

definition word_at :: "string \<Rightarrow> string \<Rightarrow> bool" where
  "word_at w s \<longleftrightarrow> startswith (py_lower s) w \<and>
     (case drop (length w) s of [] \<Rightarrow> True | d # _ \<Rightarrow> \<not> is_word d)"

text \<open>\<^verbatim>\<open>re.compile(r"\b(fix|revert)\b", re.IGNORECASE).search(subject)\<close>; the flag says whether the
  character before is one of a word.\<close>

fun fix_subject :: "bool \<Rightarrow> string \<Rightarrow> bool" where
  "fix_subject before [] = False"
| "fix_subject before (c # cs) =
     ((\<not> before \<and> (word_at ''fix'' (c # cs) \<or> word_at ''revert'' (c # cs))) \<or> fix_subject (is_word c) cs)"

definition marker_needles :: "(string \<times> string list) list" where
  "marker_needles =
     [(''auth'', [''auth'', ''oauth'', ''session'']),
      (''tokens'', [''token'', ''jwt'']),
      (''crypto'', [''crypto'', ''secret'']),
      (''migrations'', [''migration'', ''migrations'']),
      (''deletion'', [''delete'', ''destroy'', ''drop'']),
      (''money'', [''money'', ''stripe'', ''billing'', ''payment''])]"

text \<open>What the repository answers: whether \<open>.git\<close> exists, the regular files below the root as their path
  components, and the exit status and output of the two \<open>git\<close> commands (a \<open>TimeoutExpired\<close> is raised).\<close>

record repository_view =
  rv_has_git :: bool
  rv_files :: "string list list"
  rv_ls_files :: "(int \<times> string) result"
  rv_log :: "string \<Rightarrow> (int \<times> string) result"

definition non_empty_lines :: "string \<Rightarrow> string list" where
  "non_empty_lines out = filter (\<lambda>l. l \<noteq> []) (splitlines out)"

definition tracked_paths :: "repository_view \<Rightarrow> string list result" where
  "tracked_paths repo =
     (if \<not> rv_has_git repo
      then Inr (map (py_join ''/'') (filter (\<lambda>parts. ''graphify-out'' \<notin> set parts) (rv_files repo)))
      else bind_r (rv_ls_files repo) (\<lambda>(returncode, out).
             Inr (if returncode \<noteq> 0 then [] else non_empty_lines out)))"

definition fix_history :: "repository_view \<Rightarrow> string \<Rightarrow> (nat \<times> nat) result" where
  "fix_history repo path =
     (if \<not> rv_has_git repo then Inr (0, 0)
      else bind_r (rv_log repo path) (\<lambda>(returncode, out).
             Inr (if returncode \<noteq> 0 then (0, 0)
                  else let subjects = non_empty_lines out
                       in (length (filter (fix_subject False) subjects), length subjects))))"

definition file_of :: "code_graph \<Rightarrow> string \<Rightarrow> string option" where
  "file_of g = map_of (rev (map (\<lambda>(k, n). (gn_id n, gn_source_file n)) (cg_nodes g)))"

definition label_of :: "code_graph \<Rightarrow> string \<Rightarrow> string option" where
  "label_of g = map_of (rev (map (\<lambda>(k, n). (gn_id n, gn_label n)) (cg_nodes g)))"

text \<open>\<open>callers.get(path, set())\<close> and \<open>imported.get(path, ())\<close> of the two dictionaries.\<close>

definition extracted_callers :: "code_graph \<Rightarrow> string \<Rightarrow> string list" where
  "extracted_callers g path =
     remdups (map ge_source (filter (\<lambda>e. ge_confidence e = ''EXTRACTED'' \<and> ge_relation e = ''calls'' \<and>
       file_of g (ge_target e) = Some path \<and> path \<noteq> []) (cg_edges g)))"

definition extracted_imports :: "code_graph \<Rightarrow> string \<Rightarrow> string list" where
  "extracted_imports g path =
     map (\<lambda>e. case label_of g (ge_target e) of Some label \<Rightarrow> label | None \<Rightarrow> ge_target e)
       (filter (\<lambda>e. ge_confidence e = ''EXTRACTED'' \<and> ge_relation e \<in> {''imports'', ''imports_from''} \<and>
         file_of g (ge_source e) = Some path \<and> path \<noteq> []) (cg_edges g))"

definition structural_flags :: "string \<Rightarrow> string list \<Rightarrow> string list" where
  "structural_flags path imported =
     (let haystack = py_lower (path @ '' '' @ py_join '' '' imported)
      in map fst (filter (\<lambda>(name, needles). \<exists>needle \<in> set needles. contains needle haystack) marker_needles))"

definition score_path :: "repository_view \<Rightarrow> code_graph \<Rightarrow> string \<Rightarrow> (string \<times> sensitivity_score) result" where
  "score_path repo g path =
     bind_r (fix_history repo path) (\<lambda>(fix_count, commit_count).
       let density = (if commit_count \<noteq> 0 then rat_of_nat fix_count / rat_of_nat commit_count else 0);
           caller_count = length (extracted_callers g path);
           flags = structural_flags path (extracted_imports g path);
           evidence = [show_nat caller_count @ '' EXTRACTED callers'',
                       show_nat fix_count @ '' fix-or-revert commits of '' @ show_nat commit_count @
                         '' --follow --no-merges''] @
                      (if flags \<noteq> [] then [''structural flags: '' @ py_join '','' flags] else [])
       in Inr (path, \<lparr>ss_path = path, ss_fix_density = density, ss_fix_count = int fix_count,
                      ss_commit_count = int commit_count, ss_caller_count = int caller_count,
                      ss_structural_flags = flags, ss_evidence = evidence\<rparr>))"

definition score_sensitivity :: "repository_view \<Rightarrow> code_graph \<Rightarrow> (string \<times> sensitivity_score) list result" where
  "score_sensitivity repo g =
     bind_r (tracked_paths repo) (\<lambda>tracked.
       map_r (score_path repo g)
         (sort (remdups (tracked @ filter (\<lambda>f. f \<noteq> []) (map (gn_source_file \<circ> snd) (cg_nodes g))))))"

definition prompt_facts :: "sensitivity_score \<Rightarrow> string" where
  "prompt_facts score =
     ss_path score @ '' has '' @ show_int (ss_fix_count score) @ '' prior fixes and '' @
     show_int (ss_caller_count score) @ '' callers''"

lemma fix_history_bounds: "fix_history repo path = Inr (f, c) \<Longrightarrow> f \<le> c"
  by (auto simp: fix_history_def bind_r_Inr Let_def split: if_splits)

definition score_sound :: "sensitivity_score \<Rightarrow> bool" where
  "score_sound s \<longleftrightarrow> 0 \<le> ss_fix_density s \<and> ss_fix_density s \<le> 1 \<and> ss_fix_count s \<le> ss_commit_count s \<and>
     ss_fix_density s * of_int (ss_commit_count s) = of_int (ss_fix_count s)"

lemma score_path_sound:
  assumes "score_path repo g path = Inr (k, s)"
  shows "k = path \<and> ss_path s = path \<and> score_sound s \<and>
    ss_caller_count s = int (card {ge_source e | e. e \<in> set (cg_edges g) \<and> ge_confidence e = ''EXTRACTED'' \<and>
      ge_relation e = ''calls'' \<and> file_of g (ge_target e) = Some path \<and> path \<noteq> []})"
proof -
  from assms obtain f c where hist: "fix_history repo path = Inr (f, c)"
    by (auto simp: score_path_def bind_r_Inr)
  have callers: "length (extracted_callers g path) =
      card {ge_source e | e. e \<in> set (cg_edges g) \<and> ge_confidence e = ''EXTRACTED'' \<and>
        ge_relation e = ''calls'' \<and> file_of g (ge_target e) = Some path \<and> path \<noteq> []}"
    unfolding extracted_callers_def length_remdups_card_conv by (rule arg_cong [where f = card]) auto
  from fix_history_bounds [OF hist] assms hist callers show ?thesis
    by (auto simp: score_path_def score_sound_def Let_def divide_le_eq)
qed

section \<open>Properties\<close>

lemma unknown_has_no_callers:
  assumes "symbol \<notin> set (known g)"
  shows "(c, symbol) \<notin> calls_into (cg_edges g) ^^ Suc n"
proof -
  from assms have "inbound (cg_edges g) symbol = []" by (auto simp: known_def inbound_def filter_empty_conv)
  then show ?thesis by (auto simp: calls_into_def)
qed

text \<open>Blast radius.  Claim: as long as the clock stays below the deadline, the walk from a symbol returns,
  without repetition, exactly the symbols from which the given one is reached over a chain of one to \<open>depth\<close>
  extracted call or re-export edges followed in their direction; edges of lower confidence or of other
  relations never count, cycles included.\<close>

theorem blast_radius_exact:
  assumes "\<forall>i. clock i < clock 0 + walk_seconds"
  shows "\<exists>callers. blast_radius clock g symbol depth = Inr callers \<and> distinct callers \<and>
    set callers = {c. \<exists>k. 1 \<le> k \<and> int k \<le> depth \<and> (c, symbol) \<in> calls_into (cg_edges g) ^^ k}"
proof -
  have eq: "{c. \<exists>k. 1 \<le> k \<and> int k \<le> depth \<and> (c, symbol) \<in> calls_into (cg_edges g) ^^ k} =
      reaches_within (cg_edges g) symbol (nat depth)"
    unfolding reaches_within_def by (auto simp: le_nat_iff nat_le_iff)
  show ?thesis
  proof (cases "symbol \<in> set (known g)")
    case False
    have "(c, symbol) \<notin> calls_into (cg_edges g) ^^ k" if "1 \<le> k" for c k
      using unknown_has_no_callers [OF False, of c "k - 1"] that by (cases k) (simp_all del: relpow.simps)
    then have "reaches_within (cg_edges g) symbol (nat depth) = {}" by (auto simp: reaches_within_def)
    with False eq show ?thesis by (simp add: blast_radius_def)
  next
    case known: True
    show ?thesis
    proof (cases "depth < 0")
      case True
      then show ?thesis
        using known eq walk_drained [OF assms, of "[(symbol, 0)]" depth "cg_edges g" 1 "{}" "[]"]
        by (simp add: blast_radius_def)
    next
      case False
      then have "on_course (cg_edges g) symbol depth 0 [symbol] [] {}"
        using bfs_start by (auto simp: on_course_def)
      from walk_finds [OF this _ _ _ assms, of "[(symbol, 0)]" "[]" 1] known eq show ?thesis
        by (simp add: blast_radius_def)
    qed
  qed
qed

definition sample_edge :: "string \<Rightarrow> string \<Rightarrow> string \<Rightarrow> string \<Rightarrow> graph_edge" where
  "sample_edge s t r c = \<lparr>ge_source = s, ge_target = t, ge_relation = r, ge_confidence = c\<rparr>"

definition sample_graph :: code_graph where
  "sample_graph = \<lparr>cg_nodes = [],
     cg_edges = [sample_edge ''b'' ''a'' ''calls'' ''EXTRACTED'', sample_edge ''c'' ''b'' ''re_exports'' ''EXTRACTED'',
                 sample_edge ''d'' ''a'' ''calls'' ''INFERRED'', sample_edge ''a'' ''b'' ''calls'' ''EXTRACTED'',
                 sample_edge ''e'' ''c'' ''calls'' ''EXTRACTED'']\<rparr>"

lemma blast_radius_exact_witness:
  "blast_radius (\<lambda>_. 0) sample_graph ''a'' 2 = Inr [''b'', ''c'', ''a''] \<and>
   set [''b'', ''c'', ''a''] =
     {c. \<exists>k. 1 \<le> k \<and> int k \<le> 2 \<and> (c, ''a'') \<in> calls_into (cg_edges sample_graph) ^^ k}"
proof -
  have run: "blast_radius (\<lambda>_. 0) sample_graph ''a'' 2 = Inr [''b'', ''c'', ''a'']"
    by code_simp
  with blast_radius_exact [of "\<lambda>_. 0" sample_graph "''a''" 2] show ?thesis
    by (simp add: walk_seconds_def)
qed

text \<open>Running out of time is the only failure of the walk, and it never yields a partial answer.\<close>

lemma blast_radius_timeout: "blast_radius clock g symbol depth = Inl e \<Longrightarrow> e = RuntimeError"
  unfolding blast_radius_def using walk_timeout by (auto split: if_splits)

text \<open>Sensitivity scores.  Claim: a completed scoring has exactly one entry for every tracked path and every
  source file of the graph, in lexicographic order; each entry counts at most as many fixes as commits, its
  density is their ratio and lies between 0 and 1, and its callers are the distinct symbols with an extracted
  call into the file.\<close>

theorem score_sensitivity_sound:
  assumes "score_sensitivity repo g = Inr scores" and "tracked_paths repo = Inr tracked"
  shows "sorted (map fst scores) \<and> distinct (map fst scores) \<and>
    fst ` set scores = set tracked \<union> {gn_source_file n | k n. (k, n) \<in> set (cg_nodes g) \<and> gn_source_file n \<noteq> []} \<and>
    (\<forall>(path, s) \<in> set scores. ss_path s = path \<and> score_sound s \<and>
      ss_caller_count s = int (card {ge_source e | e. e \<in> set (cg_edges g) \<and> ge_confidence e = ''EXTRACTED'' \<and>
        ge_relation e = ''calls'' \<and> file_of g (ge_target e) = Some path \<and> path \<noteq> []}))"
proof -
  define ps where "ps = sort (remdups (tracked @ filter (\<lambda>f. f \<noteq> []) (map (gn_source_file \<circ> snd) (cg_nodes g))))"
  from assms have all: "list_all2 (\<lambda>p y. score_path repo g p = Inr y) ps scores"
    by (simp add: score_sensitivity_def map_r_Inr ps_def)
  have own_key: "fst y = p" if "score_path repo g p = Inr y" for p y
    using score_path_sound [of repo g p "fst y" "snd y"] that by simp
  have keys: "map fst scores = ps"
    using all by (induction ps scores rule: list_all2_induct) (simp_all add: own_key)
  have entry: "score_path repo g (fst y) = Inr y" if y: "y \<in> set scores" for y
  proof -
    from all y obtain p where "score_path repo g p = Inr y" by (auto simp: list_all2_conv_all_nth in_set_conv_nth)
    with own_key show ?thesis by metis
  qed
  note keys
  moreover have "\<forall>(path, s) \<in> set scores. ss_path s = path \<and> score_sound s \<and>
      ss_caller_count s = int (card {ge_source e | e. e \<in> set (cg_edges g) \<and> ge_confidence e = ''EXTRACTED'' \<and>
        ge_relation e = ''calls'' \<and> file_of g (ge_target e) = Some path \<and> path \<noteq> []})"
    using entry score_path_sound by fastforce
  moreover have "fst ` set scores = set ps" using keys by (metis list.set_map)
  moreover have "set ps = set tracked \<union> {gn_source_file n | k n. (k, n) \<in> set (cg_nodes g) \<and> gn_source_file n \<noteq> []}"
    by (force simp: ps_def)
  moreover have "sorted ps \<and> distinct ps" by (simp add: ps_def)
  ultimately show ?thesis by simp
qed

definition sample_repository :: repository_view where
  "sample_repository = \<lparr>rv_has_git = True, rv_files = [], rv_ls_files = Inr (0, ''login.py'' @ [newline]),
     rv_log = (\<lambda>_. Inr (0, ''Fix login'' @ [newline] @ ''prefix names'' @ [newline]))\<rparr>"

lemma score_sensitivity_sound_witness:
  "\<exists>s. score_sensitivity sample_repository sample_graph = Inr [(''login.py'', s)] \<and> ss_fix_count s = 1 \<and>
     ss_commit_count s = 2 \<and> score_sound s"
proof -
  let ?s = "\<lparr>ss_path = ''login.py'', ss_fix_density = 1 / 2, ss_fix_count = 1, ss_commit_count = 2,
      ss_caller_count = 0, ss_structural_flags = [],
      ss_evidence = [''0 EXTRACTED callers'', ''1 fix-or-revert commits of 2 --follow --no-merges'']\<rparr>"
  have "score_path sample_repository sample_graph ''login.py'' = Inr (''login.py'', ?s)"
    by code_simp
  moreover have "tracked_paths sample_repository = Inr [''login.py'']" by code_simp
  ultimately have "score_sensitivity sample_repository sample_graph = Inr [(''login.py'', ?s)]"
    by (simp add: score_sensitivity_def sample_graph_def)
  with score_sensitivity_sound [of sample_repository sample_graph "[(''login.py'', ?s)]" "[''login.py'']"]
    \<open>tracked_paths sample_repository = Inr [''login.py'']\<close> show ?thesis by auto
qed

end
