(* ===== verification/Repo_Profile.thy ===== *)
theory Repo_Profile
  imports Posting
begin

text \<open>
  The inferred repository profile (\<open>retrieval/repo_profile.py\<close>): the claims a model drafts about a repository,
  their storage, and how they enter a prompt, always as a block of their own beside the asserted instruction
  files.  The model, the canonical digest of the claims, the commit of the checkout and the generated
  identifiers are parameters; instants are microseconds.
\<close>

section \<open>Claims and profiles\<close>

definition profile_prompt_version :: string where
  "profile_prompt_version = ''repo-profile-v1''"

definition profile_policy_window :: timestamp where
  "profile_policy_window = seconds (14 * 86400)"

definition min_generation_tokens :: int where
  "min_generation_tokens = 32"

definition profile_stale :: py_exn where
  "profile_stale = Exception_Of ''ProfileStale''"

definition profile_budget_exceeded :: py_exn where
  "profile_budget_exceeded = Exception_Of ''ProfileBudgetExceeded''"

datatype budget_scope = Scope_Repository | Scope_Pull_Request

record profile_budget =
  pb_tokens :: int
  pb_scope :: budget_scope

datatype claim_status = Candidate | Promoted

record profile_claim =
  pc_kind :: string
  pc_text :: string
  pc_supporting_paths :: "string list"
  pc_status :: claim_status

record repo_profile =
  rp_repository_id :: int
  rp_commit_sha :: string
  rp_model :: string
  rp_prompt_version :: string
  rp_generated_at :: timestamp
  rp_content_hash :: string
  rp_claims :: "profile_claim list"

definition make_claim :: "string \<Rightarrow> string \<Rightarrow> string list \<Rightarrow> claim_status \<Rightarrow> profile_claim result" where
  "make_claim kind body paths status =
     (if kind = [] \<or> body = [] then Inl ValueError
      else Inr \<lparr>pc_kind = kind, pc_text = body, pc_supporting_paths = paths, pc_status = status\<rparr>)"

definition make_profile ::
  "int \<Rightarrow> string \<Rightarrow> string \<Rightarrow> string \<Rightarrow> timestamp \<Rightarrow> string \<Rightarrow> profile_claim list \<Rightarrow> repo_profile result" where
  "make_profile repository commit model version generated hash claims =
     (if length commit \<noteq> 40 \<or> model = [] \<or> version = [] \<or> length hash \<noteq> 64 then Inl ValueError
      else Inr \<lparr>rp_repository_id = repository, rp_commit_sha = commit, rp_model = model, rp_prompt_version = version,
                rp_generated_at = generated, rp_content_hash = hash, rp_claims = claims\<rparr>)"

section \<open>Prompt blocks\<close>

datatype block_weight = Asserted | Inferred

record prompt_block =
  bl_weight :: block_weight
  bl_texts :: "string list"

definition instruction_prompt_block :: "instruction_source list \<Rightarrow> prompt_block" where
  "instruction_prompt_block sources = \<lparr>bl_weight = Asserted, bl_texts = map is_content sources\<rparr>"

definition apply_profile :: "review_policy \<Rightarrow> repo_profile \<Rightarrow> review_policy \<times> string" where
  "apply_profile policy profile = (policy, py_join [newline] (map pc_text (rp_claims profile)))"

definition assemble_prompt_blocks :: "instruction_source list \<Rightarrow> repo_profile \<Rightarrow> prompt_block \<times> prompt_block" where
  "assemble_prompt_blocks instructions profile =
     (instruction_prompt_block instructions, \<lparr>bl_weight = Inferred, bl_texts = map pc_text (rp_claims profile)\<rparr>)"

section \<open>Writing claims\<close>

definition apply_claim_write ::
  "(profile_claim list \<Rightarrow> profile_claim \<Rightarrow> string) \<Rightarrow> profile_claim list \<Rightarrow> profile_claim \<Rightarrow> profile_claim list result" where
  "apply_claim_write decide claims incoming =
     (let action = decide claims incoming
      in if action = ''ADD'' then Inr (claims @ [incoming])
         else if action = ''NOOP'' then Inr claims
         else if action = ''UPDATE'' then (if claims = [] then Inr [incoming] else Inr (incoming # tl claims))
         else if action = ''REPLACE'' then Inr [incoming]
         else Inl ValueError)"

definition promote_claim :: "profile_claim \<Rightarrow> profile_claim" where
  "promote_claim claim = claim\<lparr>pc_status := Promoted\<rparr>"

section \<open>Generation\<close>

definition supporting_paths :: "(json \<Rightarrow> string) \<Rightarrow> (string \<times> json) list \<Rightarrow> string list" where
  "supporting_paths repr draft = (case json_get (JObj draft) ''supporting_paths'' of JArr items \<Rightarrow> map (py_str repr) items | _ \<Rightarrow> [])"

definition candidate_claim :: "(json \<Rightarrow> string) \<Rightarrow> (string \<times> json) list \<Rightarrow> profile_claim result" where
  "candidate_claim repr draft =
     (let kind = json_get (JObj draft) ''kind''; body = json_get (JObj draft) ''text''
      in make_claim (py_str repr (if json_truthy kind then kind else JStr ''focus'')) (py_str repr (or_empty body))
           (supporting_paths repr draft) Candidate)"

text \<open>\<open>git rev-parse HEAD\<close>: the exit status and the output.\<close>

definition head_sha :: "int \<Rightarrow> string \<Rightarrow> string result" where
  "head_sha returncode out =
     (let sha = py_strip out in if returncode \<noteq> 0 \<or> length sha \<noteq> 40 then Inl RuntimeError else Inr sha)"

record 'w profile_env =
  pe_repr :: "json \<Rightarrow> string"
  pe_digest :: "profile_claim list \<Rightarrow> string"
  pe_rev_parse :: "('w, int \<times> string) act"
  pe_model_name :: string
  pe_generate :: "string \<Rightarrow> ('w, (string \<times> json) list list) act"
  pe_record :: "(json \<Rightarrow> ('w, unit) act) option"

definition profile_event :: "int \<Rightarrow> string \<Rightarrow> string \<Rightarrow> nat \<Rightarrow> json" where
  "profile_event repository commit digest n =
     JObj [(''repository_id'', JInt repository), (''commit_sha'', JStr commit), (''content_hash'', JStr digest),
           (''count'', JInt (int n))]"

definition generate_repo_profile ::
  "'w profile_env \<Rightarrow> string \<Rightarrow> profile_budget \<Rightarrow> int \<Rightarrow> timestamp \<Rightarrow> ('w, repo_profile) act" where
  "generate_repo_profile env repo_path budget repository now =
     (if pb_scope budget \<noteq> Scope_Repository then raise_a profile_budget_exceeded
      else if pb_tokens budget < min_generation_tokens then raise_a profile_budget_exceeded
      else bind_a (pe_rev_parse env) (\<lambda>(returncode, out).
           bind_a (lift_r (head_sha returncode out)) (\<lambda>commit.
           bind_a (pe_generate env repo_path) (\<lambda>drafts.
           bind_a (lift_r (map_r (candidate_claim (pe_repr env)) drafts)) (\<lambda>claims.
           let digest = pe_digest env claims
           in bind_a (lift_r (make_profile repository commit (pe_model_name env) profile_prompt_version now digest claims)) (\<lambda>profile.
              case pe_record env of
                None \<Rightarrow> return_a profile
              | Some record_profile \<Rightarrow>
                  bind_a (record_profile (profile_event repository commit digest (length claims))) (\<lambda>_. return_a profile)))))))"

definition usable_profile :: "timestamp \<Rightarrow> timestamp \<Rightarrow> repo_profile \<Rightarrow> repo_profile result" where
  "usable_profile now window profile =
     (if window < now - rp_generated_at profile then Inl profile_stale else Inr profile)"

definition claim_recency_weight :: "timestamp \<Rightarrow> timestamp \<Rightarrow> real" where
  "claim_recency_weight generated_at now =
     (let days = real_of_int (now - generated_at) / 1000000 / 86400 in exp (- (5 / 100) * (if days < 0 then 0 else days)))"

section \<open>Storage\<close>

record profile_row =
  pr_id :: uuid
  pr_profile :: repo_profile

record claim_row =
  cl_profile_id :: uuid
  cl_claim :: profile_claim

record profile_db =
  profile_rows :: "profile_row list"
  claim_rows :: "claim_row list"

definition store_repo_profile :: "uuid \<Rightarrow> repo_profile \<Rightarrow> (profile_db, uuid) act" where
  "store_repo_profile profile_id profile db =
     (if \<not> in_integer (rp_repository_id profile) then (Inl DataError, db)
      else if profile_id \<in> pr_id ` set (profile_rows db) then (Inl UniqueViolation, db)
      else (Inr profile_id,
            \<lparr>profile_rows = profile_rows db @ [\<lparr>pr_id = profile_id, pr_profile = profile\<rparr>],
             claim_rows = claim_rows db @ map (\<lambda>c. \<lparr>cl_profile_id = profile_id, cl_claim = c\<rparr>) (rp_claims profile)\<rparr>))"

section \<open>Properties\<close>

lemma candidate_claim_ok:
  "candidate_claim repr draft = Inr c \<Longrightarrow> pc_status c = Candidate \<and> pc_kind c \<noteq> [] \<and> pc_text c \<noteq> []"
  by (auto simp: candidate_claim_def make_claim_def Let_def split: if_splits)

lemma map_r_all: "map_r f xs = Inr ys \<Longrightarrow> (\<And>x y. f x = Inr y \<Longrightarrow> P y) \<Longrightarrow> \<forall>y \<in> set ys. P y"
  by (induction xs arbitrary: ys) (auto simp: bind_r_Inr)

text \<open>A claim write keeps to the claims it is given.\<close>

lemma apply_claim_write_sub:
  "apply_claim_write decide claims incoming = Inr r \<Longrightarrow> set r \<subseteq> insert incoming (set claims)"
  by (auto simp: apply_claim_write_def Let_def split: if_splits dest: list.set_sel(2))

lemma claim_recency_weight_bounds:
  "0 < claim_recency_weight generated_at now \<and> claim_recency_weight generated_at now \<le> 1"
  by (simp add: claim_recency_weight_def Let_def)

lemma claim_recency_weight_decays:
  "now \<le> later \<Longrightarrow> claim_recency_weight generated_at later \<le> claim_recency_weight generated_at now"
  by (auto simp: claim_recency_weight_def Let_def divide_le_cancel)

lemma generate_repo_profile_success:
  assumes run: "generate_repo_profile env path budget repository now w = (Inr profile, w')"
  shows "pb_scope budget = Scope_Repository" and "32 \<le> pb_tokens budget" and "length (rp_commit_sha profile) = 40"
    and "rp_repository_id profile = repository" and "rp_generated_at profile = now"
    and "rp_content_hash profile = pe_digest env (rp_claims profile)"
    and "\<forall>c \<in> set (rp_claims profile). pc_status c = Candidate \<and> pc_kind c \<noteq> [] \<and> pc_text c \<noteq> []"
proof -
  from run show budget: "pb_scope budget = Scope_Repository" "32 \<le> pb_tokens budget"
    by (auto simp: generate_repo_profile_def act_simps min_generation_tokens_def split: if_splits)
  with run obtain rc out commit drafts claims where
    "head_sha rc out = Inr commit" and claims: "map_r (candidate_claim (pe_repr env)) drafts = Inr claims"
    and made: "make_profile repository commit (pe_model_name env) profile_prompt_version now (pe_digest env claims) claims = Inr profile"
    by (auto simp: generate_repo_profile_def act_simps lift_r_def min_generation_tokens_def Let_def
        split: prod.splits sum.splits option.splits)
  from map_r_all [OF claims candidate_claim_ok] have
    all: "\<forall>c \<in> set claims. pc_status c = Candidate \<and> pc_kind c \<noteq> [] \<and> pc_text c \<noteq> []" .
  from made have "profile = \<lparr>rp_repository_id = repository, rp_commit_sha = commit, rp_model = pe_model_name env,
      rp_prompt_version = profile_prompt_version, rp_generated_at = now, rp_content_hash = pe_digest env claims, rp_claims = claims\<rparr>"
    and "length commit = 40"
    by (auto simp: make_profile_def split: if_splits)
  with all show "length (rp_commit_sha profile) = 40" "rp_repository_id profile = repository" "rp_generated_at profile = now"
      "rp_content_hash profile = pe_digest env (rp_claims profile)"
      "\<forall>c \<in> set (rp_claims profile). pc_status c = Candidate \<and> pc_kind c \<noteq> [] \<and> pc_text c \<noteq> []"
    by simp_all
qed

text \<open>Profiles.  Claim: a generated profile was charged to a repository budget of at least 32 tokens, names a full
  commit, and holds only candidate claims with a kind and a text: nothing a model drafts is promoted.  A budget of
  another scope or a smaller one is refused before the checkout is read or the model is called, and a profile
  never changes the review policy it is applied to.\<close>

theorem generated_profile_is_candidate_only:
  "(\<forall>profile w'. generate_repo_profile env path budget repository now w = (Inr profile, w') \<longrightarrow>
      pb_scope budget = Scope_Repository \<and> 32 \<le> pb_tokens budget \<and> length (rp_commit_sha profile) = 40 \<and>
      rp_repository_id profile = repository \<and> rp_generated_at profile = now \<and>
      rp_content_hash profile = pe_digest env (rp_claims profile) \<and>
      (\<forall>c \<in> set (rp_claims profile). pc_status c = Candidate \<and> pc_kind c \<noteq> [] \<and> pc_text c \<noteq> []) \<and>
      fst (apply_profile policy profile) = policy) \<and>
   (pb_scope budget \<noteq> Scope_Repository \<or> pb_tokens budget < 32 \<longrightarrow>
      generate_repo_profile env path budget repository now w = (Inl profile_budget_exceeded, w))"
proof (rule conjI)
  show "pb_scope budget \<noteq> Scope_Repository \<or> pb_tokens budget < 32 \<longrightarrow>
      generate_repo_profile env path budget repository now w = (Inl profile_budget_exceeded, w)"
    by (simp add: generate_repo_profile_def min_generation_tokens_def raise_a_def)
  have "fst (apply_profile policy profile) = policy" for profile by (simp add: apply_profile_def)
  with generate_repo_profile_success [of env path budget repository now w]
  show "\<forall>profile w'. generate_repo_profile env path budget repository now w = (Inr profile, w') \<longrightarrow>
      pb_scope budget = Scope_Repository \<and> 32 \<le> pb_tokens budget \<and> length (rp_commit_sha profile) = 40 \<and>
      rp_repository_id profile = repository \<and> rp_generated_at profile = now \<and>
      rp_content_hash profile = pe_digest env (rp_claims profile) \<and>
      (\<forall>c \<in> set (rp_claims profile). pc_status c = Candidate \<and> pc_kind c \<noteq> [] \<and> pc_text c \<noteq> []) \<and>
      fst (apply_profile policy profile) = policy"
    by simp
qed

definition sample_profile_env :: "nat profile_env" where
  "sample_profile_env = \<lparr>pe_repr = (\<lambda>_. []), pe_digest = (\<lambda>_. replicate 64 (CHR ''0'')),
     pe_rev_parse = return_a (0, replicate 40 (CHR ''a'') @ [newline]), pe_model_name = ''m'',
     pe_generate = (\<lambda>_ calls. (Inr [[(''text'', JStr ''uses psycopg''), (''supporting_paths'', JArr [JStr ''db.py''])]], calls + 1)),
     pe_record = None\<rparr>"

lemma run_value: "map_sum id f (fst x) = Inr t \<Longrightarrow> snd x = w \<Longrightarrow> \<exists>p. x = (Inr p, w) \<and> f p = t"
  by (cases x; cases "fst x") auto

lemma generated_profile_is_candidate_only_witness:
  "\<exists>profile. generate_repo_profile sample_profile_env ''/r'' \<lparr>pb_tokens = 32, pb_scope = Scope_Repository\<rparr> 7 0 0 = (Inr profile, 1) \<and>
     map pc_text (rp_claims profile) = [''uses psycopg''] \<and> (\<forall>c \<in> set (rp_claims profile). pc_status c = Candidate)"
proof -
  obtain profile where run:
    "generate_repo_profile sample_profile_env ''/r'' \<lparr>pb_tokens = 32, pb_scope = Scope_Repository\<rparr> 7 0 0 = (Inr profile, 1)"
    and "map pc_text (rp_claims profile) = [''uses psycopg'']"
  proof -
    let ?run = "generate_repo_profile sample_profile_env ''/r'' \<lparr>pb_tokens = 32, pb_scope = Scope_Repository\<rparr> 7 0 0"
    have "map_sum id (\<lambda>p. map pc_text (rp_claims p)) (fst ?run) = Inr [''uses psycopg'']" "snd ?run = 1" by code_simp+
    then have "\<exists>p. ?run = (Inr p, 1) \<and> map pc_text (rp_claims p) = [''uses psycopg'']" by (rule run_value)
    then show thesis by (elim exE conjE) (rule that)
  qed
  moreover from conjunct1 [OF generated_profile_is_candidate_only, rule_format, OF run] have
    "\<forall>c \<in> set (rp_claims profile). pc_status c = Candidate" by blast
  ultimately show ?thesis by (intro exI [of _ profile] conjI)
qed

end
