(* ===== verification/Connector_Audit.thy ===== *)
theory Connector_Audit
  imports Pull_Request
begin

text \<open>
  The audit record of a connector call and its redaction (\<open>connectors/audit.py\<close>).  The regular
  expressions of the module are functions from a text to the length of the match at its start;
  \<open>re.search\<close> and \<open>re.sub\<close> are the left-to-right scans over them.

  A locale states what two of the patterns have in common: a match lies within a class of characters and
  stays a match when the text goes on.  Its lemmas, that a substitution whose replacement is closed by
  characters outside the class neither leaves nor creates a match, are used for the credential and for the
  private-key pattern, and give the theorem that no redacted text holds either of them.
\<close>

section \<open>Patterns\<close>

type_synonym matcher = "string \<Rightarrow> nat option"

text \<open>\<open>pattern.search(s)\<close>: the start of the first match.\<close>

fun search :: "matcher \<Rightarrow> string \<Rightarrow> nat option" where
  "search m [] = None"
| "search m (c # cs) = (if m (c # cs) \<noteq> None then Some 0 else map_option Suc (search m cs))"

text \<open>\<open>pattern.sub(r, s)\<close>; the patterns of the module match no empty text.\<close>

function re_sub :: "matcher \<Rightarrow> string \<Rightarrow> string \<Rightarrow> string" where
  "re_sub m r [] = []"
| "re_sub m r (c # cs) =
     (case m (c # cs) of Some n \<Rightarrow> r @ re_sub m r (drop (max 1 n) (c # cs)) | None \<Rightarrow> c # re_sub m r cs)"
  by pat_completeness auto
termination
  by (relation "measure (\<lambda>(m, r, s). length s)") auto

definition ascii_letter :: "char \<Rightarrow> bool" where
  "ascii_letter c \<longleftrightarrow> (let n = (of_char c :: nat) in (65 \<le> n \<and> n \<le> 90) \<or> (97 \<le> n \<and> n \<le> 122))"

definition ascii_word :: "char \<Rightarrow> bool" where
  "ascii_word c \<longleftrightarrow> ascii_letter c \<or> is_digit c \<or> c = CHR ''_''"

definition lower_starts :: "string \<Rightarrow> string \<Rightarrow> bool" where
  "lower_starts s p \<longleftrightarrow> startswith (py_lower s) p"

text \<open>\<^verbatim>\<open>(?:gh[a-z]_|github_pat_)[A-Za-z0-9_]{4,}\<close>, ignoring case.\<close>

definition token_prefix :: "string \<Rightarrow> nat option" where
  "token_prefix s =
     (if lower_starts s ''gh'' \<and> 4 \<le> length s \<and> ascii_letter (s ! 2) \<and> s ! 3 = CHR ''_'' then Some 4
      else if lower_starts s ''github_pat_'' then Some 11 else None)"

definition token_at :: matcher where
  "token_at s =
     (case token_prefix s of
        None \<Rightarrow> None
      | Some k \<Rightarrow> let run = takeWhile ascii_word (drop k s) in if 4 \<le> length run then Some (k + length run) else None)"

text \<open>\<^verbatim>\<open>-----BEGIN [A-Z ]*PRIVATE KEY-----\<close>, ignoring case, and the same line with \<open>END\<close>.\<close>

definition pem_letter :: "char \<Rightarrow> bool" where
  "pem_letter c \<longleftrightarrow> ascii_letter c \<or> c = CHR '' ''"

definition endswith :: "string \<Rightarrow> string \<Rightarrow> bool" where
  "endswith s p \<longleftrightarrow> length p \<le> length s \<and> drop (length s - length p) s = p"

definition pem_line_at :: "string \<Rightarrow> matcher" where
  "pem_line_at opening s =
     (if lower_starts s opening
      then let rest = drop (length opening) s; run = takeWhile pem_letter rest
           in if endswith (py_lower run) ''private key'' \<and> startswith (drop (length run) rest) ''-----''
              then Some (length opening + length run + 5) else None
      else None)"

definition pem_header_at :: matcher where
  "pem_header_at = pem_line_at ''-----begin ''"

definition pem_footer_at :: matcher where
  "pem_footer_at = pem_line_at ''-----end ''"

text \<open>\<^verbatim>\<open>header.*?footer\<close>: up to the end of the first footer after the header.\<close>

definition pem_block_at :: matcher where
  "pem_block_at s =
     (case pem_header_at s of
        None \<Rightarrow> None
      | Some n \<Rightarrow>
          (case search pem_footer_at (drop n s) of
             None \<Rightarrow> None
           | Some i \<Rightarrow> (case pem_footer_at (drop (n + i) s) of Some k \<Rightarrow> Some (n + i + k) | None \<Rightarrow> None)))"

text \<open>\<^verbatim>\<open>x-access-token:[^@\s]+\<close> and \<^verbatim>\<open>(?:authorization\s*[:=]\s*)?bearer\s+\S+\<close>, ignoring case.\<close>

definition x_access_at :: matcher where
  "x_access_at s =
     (if lower_starts s ''x-access-token:''
      then let run = takeWhile (\<lambda>c. c \<noteq> CHR ''@'' \<and> \<not> is_space c) (drop 15 s)
           in if run \<noteq> [] then Some (15 + length run) else None
      else None)"

definition plain_bearer_at :: matcher where
  "plain_bearer_at s =
     (if lower_starts s ''bearer''
      then let gap = takeWhile is_space (drop 6 s); run = takeWhile (\<lambda>c. \<not> is_space c) (drop (6 + length gap) s)
           in if gap \<noteq> [] \<and> run \<noteq> [] then Some (6 + length gap + length run) else None
      else None)"

definition bearer_at :: matcher where
  "bearer_at s =
     (if lower_starts s ''authorization''
      then let gap = takeWhile is_space (drop 13 s); k = 13 + length gap
           in case drop k s of
                [] \<Rightarrow> None
              | c # rest \<Rightarrow>
                  if c = CHR '':'' \<or> c = CHR ''=''
                  then let gap' = takeWhile is_space rest
                       in map_option (\<lambda>n. k + 1 + length gap' + n) (plain_bearer_at (drop (length gap') rest))
                  else None
      else plain_bearer_at s)"

section \<open>Redaction\<close>

definition redact_string :: "string \<Rightarrow> string" where
  "redact_string s =
     (let r1 = re_sub pem_block_at ''[redacted-key]'' s;
          r2 = (case search pem_header_at r1 of
                  None \<Rightarrow> r1
                | Some start \<Rightarrow> take start r1 @ ''[redacted-key]'');
          r3 = re_sub x_access_at ''[redacted-git-url]'' r2;
          r4 = re_sub bearer_at ''[redacted-auth]'' r3;
          r5 = re_sub token_at ''[redacted-token]'' r4
      in replace_sub ''stolen_auth'' ''[redacted]'' r5)"

text \<open>On a JSON value; the keys of a dictionary are texts.\<close>

fun redact_audit_value :: "json \<Rightarrow> json" where
  "redact_audit_value (JObj kvs) = JObj (dict_of (map (\<lambda>(k, v). (redact_string k, redact_audit_value v)) kvs))"
| "redact_audit_value (JArr vs) = JArr (map redact_audit_value vs)"
| "redact_audit_value (JStr s) = JStr (redact_string s)"
| "redact_audit_value v = v"

section \<open>The audit record\<close>

datatype connector_operation = Create_Installation_Token | Fetch_Pull_Request | Create_Pull_Request_Review

fun operation_value :: "connector_operation \<Rightarrow> string" where
  "operation_value Create_Installation_Token = ''create_installation_token''"
| "operation_value Fetch_Pull_Request = ''fetch_pull_request''"
| "operation_value Create_Pull_Request_Review = ''create_pull_request_review''"

record connector_audit =
  ca_trace_id :: uuid
  ca_operation :: connector_operation
  ca_external_id :: "string option"
  ca_request_bytes :: int
  ca_response_bytes :: int
  ca_payload_hash :: string

definition reject_secret_text :: "string \<Rightarrow> string result" where
  "reject_secret_text value =
     (if search token_at value \<noteq> None then Inl ValueError
      else if search pem_header_at value \<noteq> None then Inl ValueError
      else Inr value)"

definition hex_digest :: "string \<Rightarrow> bool" where
  "hex_digest s \<longleftrightarrow> length s = 64 \<and> (\<forall>c \<in> set s. is_digit c \<or> c \<in> set ''abcdef'')"

definition make_connector_audit ::
  "uuid \<Rightarrow> connector_operation \<Rightarrow> string option \<Rightarrow> int \<Rightarrow> int \<Rightarrow> string \<Rightarrow> connector_audit result" where
  "make_connector_audit trace_id operation external_id request_bytes response_bytes payload_hash =
     (if request_bytes < 0 \<or> response_bytes < 0 \<or> \<not> hex_digest payload_hash then Inl ValueError
      else bind_r (reject_secret_text ''github'') (\<lambda>_.
           bind_r (reject_secret_text (operation_value operation)) (\<lambda>_.
           bind_r (case external_id of None \<Rightarrow> Inr () | Some x \<Rightarrow> bind_r (reject_secret_text x) (\<lambda>_. Inr ())) (\<lambda>_.
           bind_r (reject_secret_text payload_hash) (\<lambda>_.
             Inr \<lparr>ca_trace_id = trace_id, ca_operation = operation, ca_external_id = external_id,
                  ca_request_bytes = request_bytes, ca_response_bytes = response_bytes, ca_payload_hash = payload_hash\<rparr>)))))"

record connector_run =
  cn_id :: uuid
  cn_review_job_id :: "string option"
  cn_trace_id :: uuid
  cn_connector :: string
  cn_operation :: string
  cn_external_id :: "string option"
  cn_request_bytes :: int
  cn_response_bytes :: int
  cn_payload_hash :: string

text \<open>The insert fails where a byte count leaves the column, or the job does not exist.\<close>

definition record_connector_run ::
  "uuid \<Rightarrow> string set \<Rightarrow> connector_audit \<Rightarrow> string option \<Rightarrow> (connector_run list, string) act" where
  "record_connector_run new_id jobs audit review_job_id rows =
     (if \<not> in_integer (ca_request_bytes audit) \<or> \<not> in_integer (ca_response_bytes audit) then (Inl DataError, rows)
      else if (case review_job_id of None \<Rightarrow> False | Some j \<Rightarrow> j \<notin> jobs) then (Inl ForeignKeyViolation, rows)
      else (Inr new_id,
            rows @ [\<lparr>cn_id = new_id, cn_review_job_id = review_job_id, cn_trace_id = ca_trace_id audit,
                     cn_connector = ''github'', cn_operation = operation_value (ca_operation audit),
                     cn_external_id = map_option redact_string (ca_external_id audit),
                     cn_request_bytes = ca_request_bytes audit, cn_response_bytes = ca_response_bytes audit,
                     cn_payload_hash = ca_payload_hash audit\<rparr>]))"

section \<open>Patterns confined to a class of characters\<close>

lemma search_None_iff: "search m s = None \<longleftrightarrow> (\<forall>t. suffix t s \<and> t \<noteq> [] \<longrightarrow> m t = None)"
proof (induction s)
  case (Cons c cs)
  then show ?case by (auto simp: suffix_Cons)
qed simp

lemma search_Some:
  "search m s = Some i \<Longrightarrow> i < length s \<and> m (drop i s) \<noteq> None \<and> (\<forall>j < i. m (drop j s) = None)"
proof (induction s arbitrary: i)
  case (Cons c cs)
  show ?case
  proof (cases "m (c # cs)")
    case (Some n)
    with Cons.prems show ?thesis by simp
  next
    case None
    with Cons.prems obtain k where "search m cs = Some k" "i = Suc k" by (auto split: if_splits)
    with Cons.IH [of k] None show ?thesis by (auto simp: less_Suc_eq_0_disj)
  qed
qed simp

locale confined =
  fixes m :: matcher and W :: "char \<Rightarrow> bool"
  assumes match_part: "m s = Some n \<Longrightarrow> (\<forall>c \<in> set (take n s). W c) \<and> m (take n s) \<noteq> None"
    and match_grows: "m s \<noteq> None \<Longrightarrow> m (s @ t) \<noteq> None"
begin

lemma match_prefix: "prefix s t \<Longrightarrow> m s \<noteq> None \<Longrightarrow> m t \<noteq> None"
  using match_grows by (auto elim!: prefixE)

lemma match_run: "m s = None \<longleftrightarrow> m (takeWhile W s) = None"
proof
  assume "m s = None"
  then show "m (takeWhile W s) = None" using match_prefix [OF takeWhile_is_prefix] by blast
next
  assume run: "m (takeWhile W s) = None"
  show "m s = None"
  proof (rule ccontr)
    assume "m s \<noteq> None"
    then obtain n where n: "m s = Some n" by blast
    have "takeWhile W s = take n s @ takeWhile W (drop n s)"
      using match_part [OF n] takeWhile_append2 [of "take n s" W "drop n s"] by simp
    then show False using match_part [OF n] run match_grows [of "take n s" "takeWhile W (drop n s)"] by simp
  qed
qed

text \<open>A replacement text that is closed on both sides and holds no match itself.\<close>

definition closed :: "string \<Rightarrow> bool" where
  "closed r \<longleftrightarrow> r \<noteq> [] \<and> \<not> W (hd r) \<and> \<not> W (last r) \<and> search m r = None"

lemma takeWhile_closed: "r \<noteq> [] \<Longrightarrow> \<not> W (last r) \<Longrightarrow> takeWhile W (r @ t) = takeWhile W r"
  by (metis last_in_set takeWhile_append1)

lemma takeWhile_stop: "r \<noteq> [] \<Longrightarrow> \<not> W (hd r) \<Longrightarrow> takeWhile W (xs @ r) = takeWhile W xs"
  by (induction xs) (cases r, auto)

lemma search_append_None:
  assumes "search m r = None" and "search m t = None" and "r \<noteq> [] \<longrightarrow> \<not> W (last r)"
  shows "search m (r @ t) = None"
  using assms
proof (induction r)
  case (Cons c r)
  from Cons.prems have r: "m (c # r) = None" "search m r = None" by (auto split: if_splits)
  have "m (c # r @ t) = None"
    using Cons.prems(3) r(1) match_run [of "c # r @ t"] match_run [of "c # r"] takeWhile_closed [of "c # r" t] by simp
  moreover have "search m (r @ t) = None" using Cons.IH r(2) Cons.prems(2,3) by (cases r) auto
  ultimately show ?case by simp
qed simp

text \<open>A substitution shortens the run at the start of a text, whatever pattern it replaces.\<close>

lemma re_sub_run:
  "\<not> W (hd r) \<Longrightarrow> r \<noteq> [] \<Longrightarrow> prefix (takeWhile W (re_sub n r s)) (takeWhile W s)"
proof (induction n r s rule: re_sub.induct)
  case (2 n r c cs)
  show ?case
  proof (cases "n (c # cs)")
    case None
    with 2 show ?thesis by simp
  next
    case (Some k)
    then have "takeWhile W (re_sub n r (c # cs)) = []" using 2(3,4) by (cases r) auto
    then show ?thesis by simp
  qed
qed simp

lemma re_sub_step:
  assumes "m (c # cs) = None" and "closed r"
  shows "m (c # re_sub n r cs) = None"
proof -
  have "prefix (takeWhile W (c # re_sub n r cs)) (takeWhile W (c # cs))"
    using re_sub_run [of r n cs] assms(2) by (simp add: closed_def)
  then show ?thesis using match_prefix match_run assms(1) by metis
qed

lemma re_sub_keeps_clean: "search m s = None \<Longrightarrow> closed r \<Longrightarrow> search m (re_sub n r s) = None"
proof (induction n r s rule: re_sub.induct)
  case (2 n r c cs)
  show ?case
  proof (cases "n (c # cs)")
    case None
    with 2 re_sub_step [of c cs r n] show ?thesis by (auto split: if_splits)
  next
    case (Some k)
    have "search m (drop (max 1 k) (c # cs)) = None"
      using 2(3) unfolding search_None_iff by (meson suffix_drop suffix_order.trans)
    with 2(2) [OF Some _ 2(4)] Some 2(4) show ?thesis
      by (simp add: search_append_None closed_def)
  qed
qed simp

lemma re_sub_cleans:
  assumes "closed r"
  shows "search m (re_sub m r s) = None"
proof (induction s rule: length_induct)
  case (1 s)
  show ?case
  proof (cases s)
    case s: (Cons c cs)
    show ?thesis
    proof (cases "m (c # cs)")
      case None
      with 1 s re_sub_step [OF None assms, of m] show ?thesis by simp
    next
      case (Some k)
      have "length (drop (max 1 k) (c # cs)) < length s" using s by simp
      with 1 have "search m (re_sub m r (drop (max 1 k) (c # cs))) = None" by blast
      with Some s assms show ?thesis by (simp add: search_append_None closed_def)
    qed
  qed simp
qed

text \<open>Cutting a text at its first match.\<close>

lemma cut_cleans:
  assumes "search m s = Some i" and "closed r"
  shows "search m (take i s @ r) = None"
proof -
  have "m (drop j (take i s) @ r) = None" if "j < i" for j
  proof -
    have "takeWhile W (drop j (take i s) @ r) = takeWhile W (drop j (take i s))"
      using assms(2) by (simp add: closed_def takeWhile_stop)
    moreover have "prefix (takeWhile W (drop j (take i s))) (drop j s)"
      by (metis append_take_drop_id drop_append prefixI prefix_order.trans takeWhile_is_prefix)
    ultimately show ?thesis
      using match_prefix match_run search_Some [OF assms(1)] that by metis
  qed
  then have "search m (drop j (take i s) @ r) = None" if "j \<le> i" for j
    using that
  proof (induction "i - j" arbitrary: j)
    case 0
    then show ?case using assms(2) by (simp add: closed_def)
  next
    case (Suc k)
    then have "j < i" "search m (drop (Suc j) (take i s) @ r) = None" by auto
    moreover have "drop j (take i s) = take i s ! j # drop (Suc j) (take i s)"
      using \<open>j < i\<close> search_Some [OF assms(1)] Cons_nth_drop_Suc [of j "take i s"] by simp
    ultimately show ?case using Suc.prems(1) [of j] by simp
  qed
  from this [of 0] show ?thesis by simp
qed

end

section \<open>The credential and the private-key pattern\<close>

lemma py_lower_simps [simp]:
  "py_lower [] = []" "py_lower (c # s) = lower_char c # py_lower s" "py_lower (s @ t) = py_lower s @ py_lower t"
  "length (py_lower s) = length s"
  by (simp_all add: py_lower_def)

lemma lower_starts_append: "lower_starts s p \<Longrightarrow> lower_starts (s @ t) p"
  by (auto simp: lower_starts_def startswith_prefix)

lemma lower_starts_take: "lower_starts s p \<Longrightarrow> length p \<le> n \<Longrightarrow> lower_starts (take n s) p"
  by (simp add: lower_starts_def startswith_def py_lower_def take_map)

lemma lower_starts_length: "lower_starts s p \<Longrightarrow> length p \<le> length s"
  by (metis length_map lower_starts_def prefix_length_le py_lower_def startswith_prefix)

text \<open>The characters of a text that begins with a lower-case literal.\<close>

lemma lower_char_cases:
  assumes "(of_char (lower_char c) :: nat) < 128"
  shows "lower_char c = c \<or> ((65::nat) \<le> of_char c \<and> (of_char c :: nat) \<le> 90)"
proof (rule ccontr)
  assume *: "\<not> ?thesis"
  then have "(192::nat) \<le> of_char c" "(of_char c :: nat) \<le> 222" "lower_char c = char_of ((of_char c :: nat) + 32)"
    by (auto simp: lower_char_def split: if_splits)
  then have "(of_char (lower_char c) :: nat) = of_char c + 32" by simp
  with assms \<open>(192::nat) \<le> of_char c\<close> show False by simp
qed

lemma lower_starts_chars:
  assumes "lower_starts s p" and lit: "list_all (\<lambda>d. (of_char d :: nat) < 128 \<and> W d) p"
    and upper: "\<forall>c. (65::nat) \<le> of_char c \<and> (of_char c :: nat) \<le> 90 \<longrightarrow> W c"
  shows "\<forall>c \<in> set (take (length p) s). W c"
proof
  fix c assume c: "c \<in> set (take (length p) s)"
  have "map lower_char (take (length p) s) = p"
    using assms(1) by (simp add: lower_starts_def startswith_def py_lower_def take_map)
  with c have "lower_char c \<in> set p" by (metis image_eqI list.set_map)
  with lit have "(of_char (lower_char c) :: nat) < 128" "W (lower_char c)" by (auto simp: list_all_iff)
  with lower_char_cases [of c] upper show "W c" by auto
qed

lemma upper_ascii_letter: "(65::nat) \<le> of_char c \<Longrightarrow> (of_char c :: nat) \<le> 90 \<Longrightarrow> ascii_letter c"
  by (simp add: ascii_letter_def)

lemma pat_not_gh:
  assumes "lower_starts s ''github_pat_''"
  shows "\<not> lower_starts s ''gh''"
proof -
  from assms have eq: "take (length ''github_pat_'') (py_lower s) = ''github_pat_''"
    by (simp only: lower_starts_def startswith_def)
  have "take 2 (py_lower s) = ''gi''"
    using arg_cong [OF eq, of "take 2"] by (simp add: numeral_eq_Suc)
  then show ?thesis by (simp add: lower_starts_def startswith_def numeral_eq_Suc)
qed

lemma token_prefix_word:
  assumes "token_prefix s = Some k"
  shows "(\<forall>c \<in> set (take k s). ascii_word c) \<and> k \<le> length s \<and> (\<forall>n \<ge> k. token_prefix (take n s) = Some k) \<and>
    (\<forall>t. token_prefix (s @ t) = Some k)"
proof (cases "lower_starts s ''gh'' \<and> 4 \<le> length s \<and> ascii_letter (s ! 2) \<and> s ! 3 = CHR ''_''")
  case True
  then obtain a b c d rest where s: "s = a # b # c # d # rest"
    by (auto simp: numeral_eq_Suc Suc_le_length_iff)
  have "\<forall>x \<in> set (take (length ''gh'') s). ascii_word x"
    using True by (intro lower_starts_chars) (simp_all add: ascii_word_def ascii_letter_def)
  with True s have "\<forall>x \<in> set (take 4 s). ascii_word x" by (simp add: ascii_word_def)
  moreover have "k = 4" using True assms by (simp add: token_prefix_def)
  ultimately show ?thesis
    using True by (auto simp: token_prefix_def lower_starts_take lower_starts_append nth_append)
next
  case False
  then have "lower_starts s ''github_pat_''" "k = 11" using assms by (auto simp: token_prefix_def split: if_splits)
  moreover from this have "\<forall>x \<in> set (take (length ''github_pat_'') s). ascii_word x"
    by (intro lower_starts_chars) (simp_all add: ascii_word_def ascii_letter_def)
  ultimately show ?thesis
    using lower_starts_length [of s "''github_pat_''"] pat_not_gh lower_starts_take lower_starts_append
    by (simp add: token_prefix_def numeral_eq_Suc)
qed

lemma run_then_rest: "takeWhile P xs @ drop (length (takeWhile P xs)) xs = xs"
  by (metis dropWhile_eq_drop takeWhile_dropWhile_id)

lemma run_mono: "length (takeWhile P xs) \<le> length (takeWhile P (xs @ ys))"
  by (induction xs) auto

lemma take_run: "take (k + length (takeWhile P (drop k s))) s = take k s @ takeWhile P (drop k s)"
  by (simp add: take_add takeWhile_eq_take [symmetric])

interpretation token: confined token_at ascii_word
proof
  fix s n assume n: "token_at s = Some n"
  then obtain k where k: "token_prefix s = Some k" "n = k + length (takeWhile ascii_word (drop k s))"
    "4 \<le> length (takeWhile ascii_word (drop k s))"
    by (auto simp: token_at_def Let_def split: option.splits if_splits)
  have "take n s = take k s @ takeWhile ascii_word (drop k s)"
    using k(2) take_run by blast
  moreover from this have "takeWhile ascii_word (drop k (take n s)) = takeWhile ascii_word (drop k s)"
    using token_prefix_word [OF k(1)] by simp
  moreover have "token_prefix (take n s) = Some k" using token_prefix_word [OF k(1)] k(2) by simp
  ultimately have "token_at (take n s) \<noteq> None" using k(3) by (simp add: token_at_def Let_def)
  with \<open>take n s = _\<close> token_prefix_word [OF k(1)]
  show "(\<forall>c \<in> set (take n s). ascii_word c) \<and> token_at (take n s) \<noteq> None" by (auto dest: set_takeWhileD)
next
  fix s t assume "token_at s \<noteq> None"
  then obtain k where k: "token_prefix s = Some k" "4 \<le> length (takeWhile ascii_word (drop k s))"
    by (auto simp: token_at_def Let_def split: option.splits if_splits)
  have "length (takeWhile ascii_word (drop k s)) \<le> length (takeWhile ascii_word (drop k s @ drop (k - length s) t))"
    by (rule run_mono)
  with k token_prefix_word [OF k(1)] show "token_at (s @ t) \<noteq> None" by (auto simp: token_at_def Let_def)
qed

definition pem_char :: "char \<Rightarrow> bool" where
  "pem_char c \<longleftrightarrow> pem_letter c \<or> c = CHR ''-''"

lemma takeWhile_then: "(\<forall>x \<in> set xs. P x) \<Longrightarrow> ys \<noteq> [] \<Longrightarrow> \<not> P (hd ys) \<Longrightarrow> takeWhile P (xs @ ys) = xs"
  by (cases ys) auto

text \<open>A text matches a key line exactly when it is an opening, letters that end in the two words, five dashes,
  and anything.\<close>

lemma pem_line_at_iff:
  "pem_line_at opening s = Some n \<longleftrightarrow>
     (\<exists>a run rest. s = a @ run @ ''-----'' @ rest \<and> length a = length opening \<and> py_lower a = opening \<and>
        (\<forall>c \<in> set run. pem_letter c) \<and> endswith (py_lower run) ''private key'' \<and> n = length opening + length run + 5)"
proof
  assume *: "pem_line_at opening s = Some n"
  let ?rest = "drop (length opening) s" let ?run = "takeWhile pem_letter ?rest"
  from * have low: "lower_starts s opening" and w: "endswith (py_lower ?run) ''private key''"
    and d: "startswith (drop (length ?run) ?rest) ''-----''" and n: "n = length opening + length ?run + 5"
    by (auto simp: pem_line_at_def Let_def split: if_splits)
  have "s = take (length opening) s @ ?run @ drop (length ?run) ?rest"
    unfolding run_then_rest by simp
  also have "drop (length ?run) ?rest = ''-----'' @ drop 5 (drop (length ?run) ?rest)"
    using startswith_dest [OF d] by simp
  finally have "s = take (length opening) s @ ?run @ ''-----'' @ drop 5 (drop (length ?run) ?rest)" .
  moreover have "py_lower (take (length opening) s) = opening"
    using low by (simp add: lower_starts_def startswith_def py_lower_def take_map)
  ultimately show "\<exists>a run rest. s = a @ run @ ''-----'' @ rest \<and> length a = length opening \<and> py_lower a = opening \<and>
        (\<forall>c \<in> set run. pem_letter c) \<and> endswith (py_lower run) ''private key'' \<and> n = length opening + length run + 5"
    using w n lower_starts_length [OF low] by (intro exI conjI) (auto dest: set_takeWhileD)
next
  assume "\<exists>a run rest. s = a @ run @ ''-----'' @ rest \<and> length a = length opening \<and> py_lower a = opening \<and>
        (\<forall>c \<in> set run. pem_letter c) \<and> endswith (py_lower run) ''private key'' \<and> n = length opening + length run + 5"
  then obtain a run rest where s: "s = a @ run @ ''-----'' @ rest" "length a = length opening" "py_lower a = opening"
    "\<forall>c \<in> set run. pem_letter c" "endswith (py_lower run) ''private key''" "n = length opening + length run + 5" by blast
  have "takeWhile pem_letter (run @ ''-----'' @ rest) = run"
    using s(4) by (rule takeWhile_then) (simp_all add: pem_letter_def ascii_letter_def)
  moreover have "lower_starts s opening" using s(1-3) by (simp add: lower_starts_def startswith_def)
  ultimately show "pem_line_at opening s = Some n"
    using s by (simp add: pem_line_at_def startswith_def)
qed

interpretation pem: confined pem_header_at pem_char
proof
  fix s n assume "pem_header_at s = Some n"
  then obtain a run rest where s: "s = a @ run @ ''-----'' @ rest" "length a = length ''-----begin ''" "py_lower a = ''-----begin ''"
    "\<forall>c \<in> set run. pem_letter c" "endswith (py_lower run) ''private key''" "n = length ''-----begin '' + length run + 5"
    unfolding pem_header_at_def pem_line_at_iff by blast
  have take: "take n s = a @ run @ ''-----'' @ []" using s(1,2,6) by simp
  then have "pem_header_at (take n s) = Some n"
    unfolding pem_header_at_def pem_line_at_iff using s by blast
  moreover have "\<forall>c \<in> set (take (length ''-----begin '') a). pem_char c"
    using s(3) by (intro lower_starts_chars)
      (simp_all add: lower_starts_def startswith_def pem_char_def pem_letter_def ascii_letter_def)
  then have "\<forall>c \<in> set a. pem_char c" using s(2) by simp
  ultimately show "(\<forall>c \<in> set (take n s). pem_char c) \<and> pem_header_at (take n s) \<noteq> None"
    using take s(4) by (auto simp: pem_char_def)
next
  fix s t assume "pem_header_at s \<noteq> None"
  then obtain n where "pem_header_at s = Some n" by blast
  then obtain a run rest where s: "s = a @ run @ ''-----'' @ rest" "length a = length ''-----begin ''" "py_lower a = ''-----begin ''"
    "\<forall>c \<in> set run. pem_letter c" "endswith (py_lower run) ''private key''" "n = length ''-----begin '' + length run + 5"
    unfolding pem_header_at_def pem_line_at_iff by blast
  have "s @ t = a @ run @ ''-----'' @ (rest @ t)" using s(1) by simp
  then have "pem_header_at (s @ t) = Some n"
    unfolding pem_header_at_def pem_line_at_iff using s(2-6) by blast
  then show "pem_header_at (s @ t) \<noteq> None" by simp
qed

lemma replacements_closed:
  "token.closed ''[redacted-token]''" "token.closed ''[redacted]''"
  "pem.closed ''[redacted-key]''" "pem.closed ''[redacted-git-url]''" "pem.closed ''[redacted-auth]''"
  "pem.closed ''[redacted-token]''" "pem.closed ''[redacted]''"
  unfolding token.closed_def pem.closed_def by code_simp+

lemma replace_sub_re_sub:
  assumes "p \<noteq> []"
  shows "replace_sub p r s = re_sub (\<lambda>t. if startswith t p then Some (length p) else None) r s"
proof (induction s rule: length_induct)
  case (1 s)
  show ?case
  proof (cases s)
    case s: (Cons c cs)
    have "max 1 (length p) = length p" using assms by (cases p) auto
    moreover have "length (drop (length p) s) < length s" using s assms by (cases p) auto
    ultimately show ?thesis using 1 s assms by (simp add: replace_sub_Cons)
  qed simp
qed

section \<open>Properties\<close>

text \<open>Redaction: no text that has been redacted still holds a GitHub credential or the header of a
  private key, whatever the text was: truncated keys, nested or adjacent credentials, and credentials that a
  replacement might have joined.\<close>

theorem redacted_text_holds_no_credential:
  "search token_at (redact_string s) = None \<and> search pem_header_at (redact_string s) = None"
proof -
  define r1 where "r1 = re_sub pem_block_at ''[redacted-key]'' s"
  define r2 where "r2 = (case search pem_header_at r1 of None \<Rightarrow> r1 | Some start \<Rightarrow> take start r1 @ ''[redacted-key]'')"
  define r4 where "r4 = re_sub bearer_at ''[redacted-auth]'' (re_sub x_access_at ''[redacted-git-url]'' r2)"
  define r5 where "r5 = re_sub token_at ''[redacted-token]'' r4"
  have result: "redact_string s = replace_sub ''stolen_auth'' ''[redacted]'' r5"
    unfolding redact_string_def Let_def r1_def r2_def r4_def r5_def ..
  have "search pem_header_at r2 = None"
    using pem.cut_cleans replacements_closed(3) by (auto simp: r2_def split: option.splits)
  then have "search pem_header_at r5 = None"
    unfolding r4_def r5_def by (simp add: pem.re_sub_keeps_clean replacements_closed)
  moreover have "search token_at r5 = None"
    unfolding r5_def by (simp add: token.re_sub_cleans replacements_closed)
  ultimately show ?thesis
    unfolding result by (simp add: replace_sub_re_sub token.re_sub_keeps_clean pem.re_sub_keeps_clean replacements_closed)
qed

text \<open>A recorded row holds no credential either: the typed fields were checked, the free one is redacted.\<close>

lemma make_connector_audit_clean:
  assumes "make_connector_audit trace op ext req resp hash = Inr audit"
  shows "search token_at (ca_payload_hash audit) = None \<and>
    (\<forall>x. ca_external_id audit = Some x \<longrightarrow> search token_at x = None \<and> search pem_header_at x = None) \<and>
    0 \<le> ca_request_bytes audit \<and> 0 \<le> ca_response_bytes audit"
  using assms
  by (auto simp: make_connector_audit_def reject_secret_text_def bind_r_Inr split: if_splits option.splits)

end
