(* ===== verification/Connectors.thy ===== *)
theory Connectors
  imports Connector_Audit Posting
begin

text \<open>
  The audited GitHub connectors (\<open>connectors/github.py\<close>, \<open>connectors/base.py\<close>): minting an installation
  token, fetching a pull request and posting a review, each with its byte counts, its latency and its audit
  record on success, on a timeout and on an HTTP error.  The wrapped call, the clock, SHA-256 and the recorder
  are parameters; the size of a JSON body is computed as \<open>json.dumps\<close> writes it.
\<close>

section \<open>Sizes and digests\<close>

text \<open>The length of \<^verbatim>\<open>json.dumps(v, separators=(",", ":"))\<close>, which writes ASCII only; floats are written by
  the parameter \<open>repr\<close>.\<close>

definition escaped_len :: "char \<Rightarrow> nat" where
  "escaped_len c =
     (let n = (of_char c :: nat)
      in if n \<in> {8, 9, 10, 12, 13, 34, 92} then 2 else if n < 32 \<or> 126 < n then 6 else 1)"

definition string_len :: "string \<Rightarrow> nat" where
  "string_len s = 2 + sum_list (map escaped_len s)"

fun json_len :: "(json \<Rightarrow> string) \<Rightarrow> json \<Rightarrow> nat" where
  "json_len repr JNull = 4"
| "json_len repr (JBool b) = (if b then 4 else 5)"
| "json_len repr (JInt i) = length (show_int i)"
| "json_len repr (JStr s) = string_len s"
| "json_len repr (JArr vs) = 2 + sum_list (map (json_len repr) vs) + (length vs - 1)"
| "json_len repr (JObj kvs) = 2 + sum_list (map (\<lambda>(k, v). string_len k + 1 + json_len repr v) kvs) + (length kvs - 1)"
| "json_len repr (JFloat f) = length (repr (JFloat f))"

definition json_bytes :: "(json \<Rightarrow> string) \<Rightarrow> json \<Rightarrow> int" where
  "json_bytes repr v = int (json_len repr v)"

text \<open>\<open>len(s.encode())\<close>: a character above the ASCII range takes two bytes.\<close>

definition utf8_len :: "string \<Rightarrow> int" where
  "utf8_len s = sum_list (map (\<lambda>c. if (of_char c :: nat) < 128 then 1 else 2) s)"

definition show_status :: "nat option \<Rightarrow> string" where
  "show_status s = (case s of None \<Rightarrow> ''None'' | Some n \<Rightarrow> show_nat n)"

definition payload_hash :: "(string \<Rightarrow> string) \<Rightarrow> connector_operation \<Rightarrow> nat option \<Rightarrow> int \<Rightarrow> int \<Rightarrow> string" where
  "payload_hash sha256 operation status_code request_bytes response_bytes =
     sha256 (operation_value operation @ '':'' @ show_status status_code @ '':'' @ show_int request_bytes @ '':'' @
             show_int response_bytes)"

section \<open>Results\<close>

datatype connector_outcome = Outcome_Success | Outcome_Error

datatype connector_error_kind = Kind_Timeout | Kind_Http_Error

record 'a connector_result =
  co_operation :: connector_operation
  co_outcome :: connector_outcome
  co_value :: "'a option"
  co_error_kind :: "connector_error_kind option"
  co_status_code :: "nat option"
  co_latency_ms :: int
  co_request_bytes :: int
  co_response_bytes :: int

text \<open>How a wrapped call ends: with a value, with \<open>httpx.TimeoutException\<close>, with \<open>httpx.HTTPStatusError\<close> and the
  size of its body, or with another exception.\<close>

datatype 'a call_end = Call_Value 'a | Call_Timeout | Call_Status nat nat | Call_Raises py_exn

type_synonym ('w, 'a) wrapped_call = "'w \<Rightarrow> 'a call_end \<times> 'w"

record 'w connector_env =
  cx_clock :: "'w \<Rightarrow> rat \<times> 'w"
  cx_sha256 :: "string \<Rightarrow> string"
  cx_repr :: "json \<Rightarrow> string"
  cx_trace_id :: "uuid option"
  cx_review_job_id :: "string option"
  cx_record :: "(connector_audit \<Rightarrow> string option \<Rightarrow> ('w, unit) act) option"

definition latency_ms :: "rat \<Rightarrow> rat \<Rightarrow> int" where
  "latency_ms started ended = max 0 \<lfloor>(ended - started) * 1000\<rfloor>"

definition maybe_record :: "'w connector_env \<Rightarrow> connector_audit \<Rightarrow> ('w, unit) act" where
  "maybe_record env audit =
     (case cx_record env of None \<Rightarrow> return_a () | Some record \<Rightarrow> record audit (cx_review_job_id env))"

definition audit_of ::
  "'w connector_env \<Rightarrow> uuid \<Rightarrow> connector_operation \<Rightarrow> nat option \<Rightarrow> int \<Rightarrow> int \<Rightarrow> connector_audit result" where
  "audit_of env trace_id operation status_code request_bytes response_bytes =
     make_connector_audit trace_id operation None request_bytes response_bytes
       (payload_hash (cx_sha256 env) operation status_code request_bytes response_bytes)"

text \<open>Minting always builds the audit; the two others only with a recorder and a trace.\<close>

definition record_mint :: "'w connector_env \<Rightarrow> uuid \<Rightarrow> nat option \<Rightarrow> int \<Rightarrow> int \<Rightarrow> ('w, unit) act" where
  "record_mint env trace_id status_code request_bytes response_bytes =
     bind_a (lift_r (audit_of env trace_id Create_Installation_Token status_code request_bytes response_bytes)) (maybe_record env)"

definition record_fetch :: "'w connector_env \<Rightarrow> int \<Rightarrow> int \<Rightarrow> nat option \<Rightarrow> ('w, unit) act" where
  "record_fetch env request_bytes response_bytes status_code =
     (case (cx_record env, cx_trace_id env) of
        (Some record, Some trace_id) \<Rightarrow>
          bind_a (lift_r (audit_of env trace_id Fetch_Pull_Request status_code request_bytes response_bytes)) (maybe_record env)
      | _ \<Rightarrow> return_a ())"

definition record_post :: "'w connector_env \<Rightarrow> int \<Rightarrow> int \<Rightarrow> nat option \<Rightarrow> ('w, unit) act" where
  "record_post env request_bytes response_bytes status_code =
     (case (cx_record env, cx_trace_id env) of
        (Some record, Some trace_id) \<Rightarrow>
          bind_a (lift_r (audit_of env trace_id Create_Pull_Request_Review status_code request_bytes response_bytes)) (maybe_record env)
      | _ \<Rightarrow> return_a ())"

definition error_result ::
  "connector_operation \<Rightarrow> connector_error_kind \<Rightarrow> nat option \<Rightarrow> int \<Rightarrow> int \<Rightarrow> int \<Rightarrow> 'a connector_result" where
  "error_result operation kind status_code latency request_bytes response_bytes =
     \<lparr>co_operation = operation, co_outcome = Outcome_Error, co_value = None, co_error_kind = Some kind,
      co_status_code = status_code, co_latency_ms = latency, co_request_bytes = request_bytes,
      co_response_bytes = response_bytes\<rparr>"

definition success_result ::
  "connector_operation \<Rightarrow> 'a \<Rightarrow> nat \<Rightarrow> int \<Rightarrow> int \<Rightarrow> int \<Rightarrow> 'a connector_result" where
  "success_result operation value status_code latency request_bytes response_bytes =
     \<lparr>co_operation = operation, co_outcome = Outcome_Success, co_value = Some value, co_error_kind = None,
      co_status_code = Some status_code, co_latency_ms = latency, co_request_bytes = request_bytes,
      co_response_bytes = response_bytes\<rparr>"

text \<open>The two handlers that the three connectors share; \<open>record\<close> writes the audit for a response size and a
  status, \<open>finish\<close> is what follows a value.\<close>

definition timed_call ::
  "'w connector_env \<Rightarrow> connector_operation \<Rightarrow> int \<Rightarrow> ('w, 'v) wrapped_call \<Rightarrow> (int \<Rightarrow> nat option \<Rightarrow> ('w, unit) act) \<Rightarrow>
   (int \<Rightarrow> 'v \<Rightarrow> ('w, 'a connector_result) act) \<Rightarrow> ('w, 'a connector_result) act" where
  "timed_call env operation request_bytes call record finish w =
     (let (started, w1) = cx_clock env w; (reply, w2) = call w1
      in case reply of
           Call_Raises e \<Rightarrow> (Inl e, w2)
         | Call_Timeout \<Rightarrow>
             let (now, w3) = cx_clock env w2
             in bind_a (record 0 None)
                  (\<lambda>_. return_a (error_result operation Kind_Timeout None (latency_ms started now) request_bytes 0)) w3
         | Call_Status status_code sz \<Rightarrow>
             let (now, w3) = cx_clock env w2
             in bind_a (record (int sz) (Some status_code))
                  (\<lambda>_. return_a (error_result operation Kind_Http_Error (Some status_code) (latency_ms started now)
                         request_bytes (int sz))) w3
         | Call_Value v \<Rightarrow>
             let (now, w3) = cx_clock env w2 in finish (latency_ms started now) v w3)"

section \<open>The three connectors\<close>

record installation_token =
  it_token :: string
  it_expires_at :: string

definition mint_body :: "int list option \<Rightarrow> (string \<times> string) list option \<Rightarrow> (string \<times> json) list" where
  "mint_body repository_ids permissions =
     (case repository_ids of None \<Rightarrow> [] | Some ids \<Rightarrow> [(''repository_ids'', JArr (map JInt ids))]) @
     (case permissions of None \<Rightarrow> [] | Some ps \<Rightarrow> [(''permissions'', JObj (map (\<lambda>(k, v). (k, JStr v)) ps))])"

text \<open>\<open>GitHubAppClient.create_installation_token\<close> (\<open>github/app_client.py\<close>): the request goes to the installation's
  endpoint with the scope exactly as given, no body at all when it is empty; \<open>parse_time\<close> is
  \<open>datetime.fromisoformat\<close> followed by \<open>isoformat\<close>.  The argument \<open>post\<close> is the HTTP client with the signed
  application token in its header, and tells the size of a response next to it.\<close>

type_synonym 'w token_endpoint = "string \<Rightarrow> json option \<Rightarrow> ('w, http_reply \<times> nat) act"

definition github_api_base_url :: string where
  "github_api_base_url = ''https://api.github.com''"

fun non_empty_str :: "json \<Rightarrow> string result" where
  "non_empty_str (JStr s) = (if s = [] then Inl RuntimeError else Inr s)"
| "non_empty_str _ = Inl RuntimeError"

definition token_of_body :: "(string \<Rightarrow> string result) \<Rightarrow> json \<Rightarrow> installation_token result" where
  "token_of_body parse_time data =
     (if \<not> is_obj data then Inl (Exception_Of ''AttributeError'')
      else bind_r (non_empty_str (json_get data ''token'')) (\<lambda>token.
           bind_r (non_empty_str (json_get data ''expires_at'')) (\<lambda>raw.
           bind_r (parse_time (replace_sub ''Z'' ''+00:00'' raw)) (\<lambda>expires_at.
             Inr \<lparr>it_token = token, it_expires_at = expires_at\<rparr>))))"

definition client_create_installation_token ::
  "'w token_endpoint \<Rightarrow> (string \<Rightarrow> string result) \<Rightarrow> int \<Rightarrow> int list option \<Rightarrow> (string \<times> string) list option \<Rightarrow>
   ('w, installation_token) wrapped_call" where
  "client_create_installation_token post parse_time installation_id repository_ids permissions w =
     (let body = mint_body repository_ids permissions;
          url = github_api_base_url @ ''/app/installations/'' @ show_int installation_id @ ''/access_tokens''
      in case post url (if body = [] then None else Some (JObj body)) w of
           (Inl e, w') \<Rightarrow> (if e = HttpTimeout then Call_Timeout else Call_Raises e, w')
         | (Inr (reply, sz), w') \<Rightarrow>
             (case bind_r (raise_for_status reply) (\<lambda>_. bind_r (hr_body reply) (token_of_body parse_time)) of
                Inl (HTTPStatusError status_code) \<Rightarrow> (Call_Status status_code sz, w')
              | Inl e \<Rightarrow> (Call_Raises e, w')
              | Inr token \<Rightarrow> (Call_Value token, w')))"

text \<open>\<open>isoformat()\<close> of the expiry is the text \<open>it_expires_at\<close>.\<close>

definition create_installation_token ::
  "'w connector_env \<Rightarrow> uuid \<Rightarrow> ('w, installation_token) wrapped_call \<Rightarrow> int list option \<Rightarrow> (string \<times> string) list option \<Rightarrow>
   ('w, installation_token connector_result) act" where
  "create_installation_token env trace_id mint repository_ids permissions =
     (let body = mint_body repository_ids permissions;
          request_bytes = (if body \<noteq> [] then json_bytes (cx_repr env) (JObj body) else 0)
      in timed_call env Create_Installation_Token request_bytes mint
           (\<lambda>response_bytes status_code. record_mint env trace_id status_code request_bytes response_bytes)
           (\<lambda>latency token.
              let response_bytes = json_bytes (cx_repr env) (JObj [(''expires_at'', JStr (it_expires_at token))])
              in bind_a (record_mint env trace_id (Some 201) request_bytes response_bytes)
                   (\<lambda>_. return_a (success_result Create_Installation_Token token 201 latency request_bytes response_bytes))))"

definition fetch_pull_request_connector ::
  "'w connector_env \<Rightarrow> pull_request_ref \<Rightarrow> ('w, pull_request_snapshot) wrapped_call \<Rightarrow>
   ('w, pull_request_snapshot connector_result) act" where
  "fetch_pull_request_connector env ref fetch =
     (let request_bytes = utf8_len (''/repos/'' @ pr_owner ref @ ''/'' @ pr_repository ref @ ''/pulls/'' @ show_int (pr_number ref))
      in timed_call env Fetch_Pull_Request request_bytes fetch (record_fetch env request_bytes)
           (\<lambda>latency snapshot.
              let response_bytes = json_bytes (cx_repr env)
                    (JObj [(''file_count'', JInt (int (length (snap_files snapshot)))),
                           (''paths'', JArr (map (JStr \<circ> pf_path) (snap_files snapshot))),
                           (''base_sha'', JStr (snap_base_sha snapshot)), (''head_sha'', JStr (snap_head_sha snapshot))])
              in bind_a (record_fetch env request_bytes response_bytes (Some 200))
                   (\<lambda>_. return_a (success_result Fetch_Pull_Request snapshot 200 latency request_bytes response_bytes))))"

fun side_value :: "comment_side \<Rightarrow> string" where
  "side_value Side_Right = ''RIGHT''"
| "side_value Side_Left = ''LEFT''"

definition submission_payload :: "review_submission \<Rightarrow> json" where
  "submission_payload submission =
     JObj [(''commit_id'', JStr (rs_commit_id submission)), (''event'', JStr ''COMMENT''), (''body'', JStr (rs_body submission)),
           (''comments'', JArr (map (\<lambda>c. JObj [(''path'', JStr (cm_path c)), (''line'', JInt (cm_line c)),
              (''side'', JStr (side_value (cm_side c))), (''body'', JStr (cm_body c))]) (rs_comments submission)))]"

text \<open>\<open>str(item.get("id", ""))\<close>.\<close>

fun id_text :: "(json \<Rightarrow> string) \<Rightarrow> json \<Rightarrow> string result" where
  "id_text repr (JObj kvs) = Inr (case map_of kvs ''id'' of None \<Rightarrow> [] | Some v \<Rightarrow> py_str repr v)"
| "id_text repr _ = Inl (Exception_Of ''AttributeError'')"

definition posted_from ::
  "(json \<Rightarrow> string) \<Rightarrow> review_submission \<Rightarrow> nat \<Rightarrow> json \<Rightarrow> posted_review result" where
  "posted_from repr submission status_code body =
     bind_r (id_text repr body) (\<lambda>review_id.
     bind_r (let cs = json_get body ''comments'' in json_iter (if json_truthy cs then cs else JArr [])) (\<lambda>items.
     bind_r (map_r (id_text repr) items) (\<lambda>comment_ids.
       Inr \<lparr>po_github_review_id = Some review_id, po_comment_ids = comment_ids, po_response_status = Some (int status_code),
            po_body = rs_body submission, po_comments = rs_comments submission, po_summary_only = False,
            po_idempotency_key = []\<rparr>)))"

definition create_pull_request_review ::
  "'w connector_env \<Rightarrow> (json \<Rightarrow> ('w, nat \<times> json result) wrapped_call) \<Rightarrow> review_submission \<Rightarrow>
   ('w, posted_review connector_result) act" where
  "create_pull_request_review env post submission =
     (let payload = submission_payload submission; request_bytes = json_bytes (cx_repr env) payload
      in timed_call env Create_Pull_Request_Review request_bytes (post payload) (record_post env request_bytes)
           (\<lambda>latency (status_code, decoded).
              bind_a (lift_r (bind_r decoded (posted_from (cx_repr env) submission status_code))) (\<lambda>posted.
              let response_bytes = json_bytes (cx_repr env)
                    (JObj [(''id'', JStr (case po_github_review_id posted of Some i \<Rightarrow> i | None \<Rightarrow> [])),
                           (''comment_count'', JInt (int (length (po_comment_ids posted))))])
              in bind_a (record_post env request_bytes response_bytes (Some status_code))
                   (\<lambda>_. return_a (success_result Create_Pull_Request_Review posted status_code latency request_bytes response_bytes)))))"

section \<open>What reaches the audit\<close>

text \<open>The sizes are never negative, so an audit is always accepted when the digest has the shape of one.\<close>

lemma show_int_not_neg: "0 \<le> i \<Longrightarrow> show_int i = show_nat (nat i)"
  by (simp add: show_int_def)

lemma json_bytes_nonneg [simp]: "0 \<le> json_bytes repr v"
  by (simp add: json_bytes_def)

lemma utf8_len_nonneg [simp]: "0 \<le> utf8_len s"
  unfolding utf8_len_def by (rule sum_list_nonneg) auto

lemma hex_digest_not_secret:
  assumes "hex_digest s"
  shows "reject_secret_text s = Inr s"
proof -
  have chars: "is_digit c \<or> c \<in> set ''abcdef''" if "suffix t s" "c \<in> set t" for t c
    using assms that set_mono_suffix [OF that(1)] by (auto simp: hex_digest_def)
  have no_g: "\<not> lower_starts t (CHR ''g'' # p)" if t: "suffix t s" for t p
  proof
    assume "lower_starts t (CHR ''g'' # p)"
    then obtain c cs where c: "t = c # cs" "lower_char c = CHR ''g''"
      by (cases t) (auto simp: lower_starts_def startswith_def)
    from chars [OF t, of c] c(1) have "is_digit c \<or> c \<in> set ''abcdef''" by simp
    then have "lower_char c = c" by (auto simp: lower_char_def is_digit_def)
    with \<open>is_digit c \<or> c \<in> set ''abcdef''\<close> c(2) show False by (auto simp: is_digit_def)
  qed
  have no_dash: "\<not> lower_starts t (CHR ''-'' # p)" if t: "suffix t s" for t p
  proof
    assume "lower_starts t (CHR ''-'' # p)"
    then obtain c cs where c: "t = c # cs" "lower_char c = CHR ''-''"
      by (cases t) (auto simp: lower_starts_def startswith_def)
    from chars [OF t, of c] c(1) have "is_digit c \<or> c \<in> set ''abcdef''" by simp
    then have "lower_char c = c" by (auto simp: lower_char_def is_digit_def)
    with \<open>is_digit c \<or> c \<in> set ''abcdef''\<close> c(2) show False by (auto simp: is_digit_def)
  qed
  have "search token_at s = None" "search pem_header_at s = None"
    unfolding search_None_iff using no_g no_dash
    by (auto simp: token_at_def token_prefix_def pem_header_at_def pem_line_at_def)
  then show ?thesis by (simp add: reject_secret_text_def)
qed

lemma operation_not_secret: "reject_secret_text (operation_value op) = Inr (operation_value op)"
proof -
  have "reject_secret_text (operation_value Create_Installation_Token) = Inr (operation_value Create_Installation_Token)"
    "reject_secret_text (operation_value Fetch_Pull_Request) = Inr (operation_value Fetch_Pull_Request)"
    "reject_secret_text (operation_value Create_Pull_Request_Review) = Inr (operation_value Create_Pull_Request_Review)"
    by code_simp+
  then show ?thesis by (cases op) simp_all
qed

lemma github_not_secret: "reject_secret_text ''github'' = Inr ''github''"
  by code_simp

lemma audit_of_accepted:
  assumes "\<forall>x. hex_digest (cx_sha256 env x)" and "0 \<le> req" and "0 \<le> resp"
  shows "\<exists>a. audit_of env trace op status req resp = Inr a \<and> ca_operation a = op \<and> ca_trace_id a = trace \<and>
    ca_external_id a = None \<and> ca_request_bytes a = req \<and> ca_response_bytes a = resp"
  using assms hex_digest_not_secret
  by (simp add: audit_of_def make_connector_audit_def payload_hash_def operation_not_secret github_not_secret)

text \<open>A result carries a value exactly when it is a success, and an error kind otherwise; latency and sizes are
  not negative.\<close>

definition result_ok :: "'a connector_result \<Rightarrow> bool" where
  "result_ok r \<longleftrightarrow>
     (co_outcome r = Outcome_Success \<longleftrightarrow> co_value r \<noteq> None) \<and> (co_outcome r = Outcome_Success \<longleftrightarrow> co_error_kind r = None) \<and>
     (co_error_kind r = Some Kind_Timeout \<longleftrightarrow> co_status_code r = None) \<and>
     0 \<le> co_latency_ms r \<and> 0 \<le> co_request_bytes r \<and> 0 \<le> co_response_bytes r"

lemma results_ok:
  "0 \<le> req \<Longrightarrow> result_ok (error_result op Kind_Timeout None (latency_ms a b) req 0)"
  "0 \<le> req \<Longrightarrow> result_ok (error_result op Kind_Http_Error (Some c) (latency_ms a b) req (int sz))"
  "0 \<le> req \<Longrightarrow> 0 \<le> resp \<Longrightarrow> result_ok (success_result op v st (latency_ms a b) req resp)"
  by (auto simp: result_ok_def error_result_def success_result_def latency_ms_def)

lemma timed_call_ok:
  assumes "timed_call env op req call rec finish w = (Inr r, w')" and "0 \<le> req"
    and "\<And>a b v w1 r1 w2. finish (latency_ms a b) v w1 = (Inr r1, w2) \<Longrightarrow> result_ok r1"
  shows "result_ok r"
  using assms results_ok(1,2) [OF assms(2)]
  by (auto simp: timed_call_def Let_def act_simps split: prod.splits call_end.splits sum.splits)

lemma connector_results_ok:
  "create_installation_token env trace mint ids perms w = (Inr r, w') \<Longrightarrow> result_ok r"
  "fetch_pull_request_connector env ref fetch w = (Inr s, w') \<Longrightarrow> result_ok s"
  "create_pull_request_review env post submission w = (Inr p, w') \<Longrightarrow> result_ok p"
  unfolding create_installation_token_def fetch_pull_request_connector_def create_pull_request_review_def Let_def
  by (erule timed_call_ok; auto simp: act_simps results_ok split: prod.splits sum.splits)+

text \<open>The scope that is sent is the one that was given, and only a complete token comes back.\<close>

lemma client_token_complete:
  assumes "client_create_installation_token post parse_time inst ids perms w = (Call_Value token, w')"
  shows "it_token token \<noteq> [] \<and>
    (\<exists>reply sz. post (github_api_base_url @ ''/app/installations/'' @ show_int inst @ ''/access_tokens'')
       (if mint_body ids perms = [] then None else Some (JObj (mint_body ids perms))) w = (Inr (reply, sz), w') \<and>
       200 \<le> hr_status reply \<and> hr_status reply \<le> 299)"
proof -
  have complete: "token_of_body parse_time data = Inr token \<Longrightarrow> it_token token \<noteq> []" for data
    by (cases "json_get data ''token''")
      (auto simp: token_of_body_def bind_r_Inr split: if_splits)
  from assms show ?thesis
    using complete
    by (auto simp: client_create_installation_token_def Let_def bind_r_Inr raise_for_status_def
        split: prod.splits sum.splits py_exn.splits if_splits)
qed

text \<open>What a wrapped call would return if the secret parts of its value were others.\<close>

definition with_value :: "('v \<Rightarrow> 'v) \<Rightarrow> ('w, 'v) wrapped_call \<Rightarrow> ('w, 'v) wrapped_call" where
  "with_value f call w = (case call w of (Call_Value v, w') \<Rightarrow> (Call_Value (f v), w') | other \<Rightarrow> other)"

definition retoken :: "(string \<Rightarrow> string) \<Rightarrow> installation_token \<Rightarrow> installation_token" where
  "retoken g token = token\<lparr>it_token := g (it_token token)\<rparr>"

definition rewrite_private :: "(string \<Rightarrow> string) \<Rightarrow> pull_request_snapshot \<Rightarrow> pull_request_snapshot" where
  "rewrite_private g s = s\<lparr>snap_title := g (snap_title s), snap_body := g (snap_body s),
     snap_files := map (\<lambda>f. f\<lparr>pf_patch := map_option g (pf_patch f)\<rparr>) (snap_files s)\<rparr>"

lemma timed_call_with_value:
  assumes "\<And>lat v w1. snd (finish lat (f v) w1) = snd (finish lat v w1)"
  shows "snd (timed_call env op req (with_value f call) rec finish w) = snd (timed_call env op req call rec finish w)"
  using assms by (simp add: timed_call_def with_value_def Let_def split: prod.splits call_end.splits)

text \<open>C32. Non-interference.  Claim: nothing the connectors do, the audit they record included, depends on a minted
  token, or on the title, the description or the patches of a fetched pull request: with any others in their
  place the state after the call is the same.\<close>

theorem secrets_do_not_reach_the_audit:
  "snd (create_installation_token env trace (with_value (retoken g) mint) ids perms w) =
     snd (create_installation_token env trace mint ids perms w) \<and>
   snd (fetch_pull_request_connector env ref (with_value (rewrite_private g) fetch) w) =
     snd (fetch_pull_request_connector env ref fetch w)"
proof
  show "snd (create_installation_token env trace (with_value (retoken g) mint) ids perms w) =
      snd (create_installation_token env trace mint ids perms w)"
    unfolding create_installation_token_def Let_def
    by (rule timed_call_with_value) (simp add: act_simps retoken_def split: prod.splits sum.splits)
  have "map (JStr \<circ> pf_path) (snap_files (rewrite_private g s)) = map (JStr \<circ> pf_path) (snap_files s)" for s
    by (simp add: rewrite_private_def comp_def)
  then show "snd (fetch_pull_request_connector env ref (with_value (rewrite_private g) fetch) w) =
      snd (fetch_pull_request_connector env ref fetch w)"
    unfolding fetch_pull_request_connector_def Let_def
    by (intro timed_call_with_value) (simp add: act_simps rewrite_private_def comp_def split: prod.splits sum.splits)
qed

end
