(* ===== verification/Worker.thy ===== *)
theory Worker
  imports Job_Lifecycle
begin

text \<open>
  The hosted worker (\<open>worker/main.py\<close>): its loop over the queue operations of \<open>Review_Jobs\<close>, the renewal of
  the lease beside a running job and the watch over the job's thread.  Threads and signals are an explicit
  schedule: for each round of the loop it says what the stop event showed, when the claim and the settlement
  happened, which renewals fell due, what other writers did to the database meanwhile, and how the thread of
  the job ended.
\<close>

section \<open>One execution of a job\<close>

text \<open>\<open>jt_polls\<close> are the answers of \<open>stop_event.wait\<close> while the thread is alive, \<open>jt_joined\<close> whether it ended
  within the shutdown deadline once told to stop, \<open>jt_error\<close> the exception it caught.\<close>

record job_trace =
  jt_polls :: "bool list"
  jt_joined :: bool
  jt_error :: "py_exn option"

fun watch :: "bool list \<Rightarrow> job_trace \<Rightarrow> unit result" where
  "watch [] t = (case jt_error t of Some e \<Rightarrow> Inl e | None \<Rightarrow> Inr ())"
| "watch (stop # polls) t = (if stop then (if jt_joined t then Inr () else Inl TimeoutError) else watch polls t)"

definition run_job_with_shutdown_deadline :: "job_trace \<Rightarrow> unit result" where
  "run_job_with_shutdown_deadline t = watch (jt_polls t) t"

text \<open>The renewal thread, at the instants its interval elapsed before the job ended: the first failure is
  reported and ends it.  The text and the class name of an exception are the interpreter's.\<close>

definition get_error_message :: "(py_exn \<Rightarrow> string) \<Rightarrow> (py_exn \<Rightarrow> string) \<Rightarrow> py_exn \<Rightarrow> string" where
  "get_error_message str_of class_name e = (if str_of e = [] then class_name e else str_of e)"

fun renewal_loop :: "(py_exn \<Rightarrow> string) \<Rightarrow> uuid \<Rightarrow> string \<Rightarrow> timestamp list \<Rightarrow> hosted_db \<Rightarrow> string list \<times> hosted_db" where
  "renewal_loop message job_id worker_id [] db = ([], db)"
| "renewal_loop message job_id worker_id (now # rest) db =
     (case renew_review_job_lease now job_id worker_id db of
        Inl e \<Rightarrow> ([''Review job '' @ job_id @ '' lease renewal failed: '' @ message e], db)
      | Inr db' \<Rightarrow> renewal_loop message job_id worker_id rest db')"

section \<open>The loop\<close>

record worker_round =
  wr_stop_before :: bool
  wr_claimed_at :: timestamp
  wr_locked :: "uuid set"
  wr_renewals :: "timestamp list"
  wr_others :: "hosted_db \<Rightarrow> hosted_db"
  wr_trace :: "review_job \<Rightarrow> job_trace"
  wr_stop_after :: bool
  wr_settled_at :: timestamp

datatype round_end = Continue | Returned | Raised py_exn

definition settle :: "hosted_db result \<Rightarrow> hosted_db \<Rightarrow> round_end \<Rightarrow> round_end \<times> hosted_db" where
  "settle r db ending = (case r of Inl e \<Rightarrow> (Raised e, db) | Inr db' \<Rightarrow> (ending, db'))"

definition run_round :: "(py_exn \<Rightarrow> string) \<Rightarrow> string \<Rightarrow> worker_round \<Rightarrow> hosted_db \<Rightarrow> round_end \<times> hosted_db" where
  "run_round message worker_id rd db =
     (if wr_stop_before rd then (Returned, db)
      else case claim_review_job (wr_claimed_at rd) (wr_locked rd) worker_id db of
        (None, db1) \<Rightarrow> (Continue, db1)
      | (Some job, db1) \<Rightarrow>
          let db2 = wr_others rd (snd (renewal_loop message (rj_id job) worker_id (wr_renewals rd) db1))
          in case run_job_with_shutdown_deadline (wr_trace rd job) of
               Inl e \<Rightarrow> settle (fail_review_job (wr_settled_at rd) (rj_id job) worker_id (Some Worker_Crashed) db2) db2 Continue
             | Inr _ \<Rightarrow>
                 if wr_stop_after rd
                 then settle (fail_review_job (wr_settled_at rd) (rj_id job) worker_id (Some Shutdown_Requested) db2) db2 Returned
                 else settle (complete_review_job (wr_settled_at rd) (rj_id job) worker_id db2) db2 Continue)"

text \<open>The loop over a schedule; \<open>max_iterations\<close> counts the rounds that pass the test of the stop event.\<close>

fun run_worker :: "(py_exn \<Rightarrow> string) \<Rightarrow> string \<Rightarrow> nat option \<Rightarrow> worker_round list \<Rightarrow> hosted_db \<Rightarrow> round_end \<times> hosted_db" where
  "run_worker message worker_id limit [] db = (Continue, db)"
| "run_worker message worker_id limit (rd # rds) db =
     (if wr_stop_before rd then (Returned, db)
      else if limit = Some 0 then (Returned, db)
      else case run_round message worker_id rd db of
             (Continue, db') \<Rightarrow> run_worker message worker_id (map_option (\<lambda>n. n - 1) limit) rds db'
           | (ending, db') \<Rightarrow> (ending, db'))"

text \<open>\<open>run_review_job\<close>: the default job of the worker does nothing at all.\<close>

definition stub_trace :: job_trace where
  "stub_trace = \<lparr>jt_polls = [], jt_joined = True, jt_error = None\<rparr>"

section \<open>How a claimed job ends\<close>

definition held :: "uuid \<Rightarrow> string \<Rightarrow> nat \<Rightarrow> hosted_db \<Rightarrow> bool" where
  "held jid w attempts db \<longleftrightarrow> (\<exists>r \<in> set (review_jobs db). owned_by jid w r \<and> rj_attempts r = attempts)"

lemma queue_ok_unique: "queue_ok db \<Longrightarrow> jobs_unique (review_jobs db)"
  by (simp add: queue_ok_def)

lemma renew_held:
  assumes "renew_review_job_lease now jid w db = Inr db'" and "held jid w n db"
  shows "held jid w n db'"
proof -
  let ?f = "\<lambda>r. if leased_by now jid w r then extend_lease now r else r"
  from assms(2) obtain r where r: "r \<in> set (review_jobs db)" "owned_by jid w r" "rj_attempts r = n"
    by (auto simp: held_def)
  have "?f r \<in> set (review_jobs db')" using renew_Inr [OF assms(1)] r(1) by (simp add: set_update_where)
  moreover have "owned_by jid w (?f r) \<and> rj_attempts (?f r) = n" using r(2,3) by (simp add: owned_by_def extend_lease_def)
  ultimately show ?thesis unfolding held_def by blast
qed

lemma renewal_keeps_held:
  "queue_ok db \<Longrightarrow> held jid w n db \<Longrightarrow>
   queue_ok (snd (renewal_loop message jid w ts db)) \<and> held jid w n (snd (renewal_loop message jid w ts db))"
proof (induction ts arbitrary: db)
  case (Cons now rest)
  then show ?case
    by (cases "renew_review_job_lease now jid w db") (simp_all add: renew_queue_ok renew_held)
qed simp

lemma claim_held:
  assumes "queue_ok db" and "claim_review_job now skip w db = (Some job, db1)"
  shows "queue_ok db1 \<and> held (rj_id job) w (rj_attempts job) db1"
proof -
  have "jobs_unique (review_jobs db)" using assms(1) by (simp add: queue_ok_def)
  then show ?thesis
  proof (cases rule: claim_cases [where now = now and skip = skip and w = w])
    case (some j)
    then have "job = lease now w j" "db1 = db\<lparr>review_jobs := update_where (\<lambda>r. r = j) (lease now w) (review_jobs db)\<rparr>"
      using assms(2) by simp_all
    moreover have "lease now w j \<in> set (review_jobs db1)" using some(2) calculation by (force simp: set_update_where)
    ultimately show ?thesis
      using claim_queue_ok [OF assms] by (auto simp: held_def owned_by_def lease_def intro!: bexI [of _ "lease now w j"])
  qed (use assms(2) in simp)
qed

definition settled_row :: "uuid \<Rightarrow> nat \<Rightarrow> job_status \<Rightarrow> string option \<Rightarrow> hosted_db \<Rightarrow> bool" where
  "settled_row jid attempts st err db \<longleftrightarrow>
     (\<exists>r \<in> set (review_jobs db). rj_id r = jid \<and> rj_attempts r = attempts \<and> rj_status r = st \<and> rj_locked_by r = None \<and>
        (\<forall>e. err = Some e \<longrightarrow> rj_last_error r = Some e))"

definition retry_status :: "nat \<Rightarrow> job_status" where
  "retry_status attempts = (if max_review_job_attempts \<le> attempts then Failed else Pending)"

lemma fail_settles:
  assumes "queue_ok db" and "held jid w n db"
  shows "\<exists>db'. fail_review_job now jid w (Some err) db = Inr db' \<and> queue_ok db' \<and>
    settled_row jid n (retry_status n) (Some (error_value err)) db'"
proof -
  from assms(2) obtain r where r: "r \<in> set (review_jobs db)" "owned_by jid w r" "rj_attempts r = n"
    by (auto simp: held_def)
  then have jid: "rj_id r = jid" by (simp add: owned_by_def)
  note run = fail_owned [OF assms(1) r(1) jid r(2), of now err]
  have "settled_row jid n (retry_status n) (Some (error_value err))
      (db\<lparr>review_jobs := map (\<lambda>x. if x = r then fail_row now err r else x) (review_jobs db),
          agent_events := agent_events db @ [fail_event now jid err r (Suc (length (agent_events db)))]\<rparr>)"
    using r(1,3) jid
    unfolding settled_row_def by (intro bexI [of _ "fail_row now err r"]) (auto simp: fail_row_def retry_status_def)
  with run fail_queue_ok [OF assms(1) run] show ?thesis by (intro exI conjI)
qed

lemma complete_settles:
  assumes "queue_ok db" and "held jid w n db"
  shows "\<exists>db'. complete_review_job now jid w db = Inr db' \<and> queue_ok db' \<and> settled_row jid n Succeeded None db'"
proof -
  from assms(2) obtain r where r: "r \<in> set (review_jobs db)" "owned_by jid w r" "rj_attempts r = n"
    by (auto simp: held_def)
  from assms(1) have "jobs_unique (review_jobs db)" by (simp add: queue_ok_def)
  then have "\<exists>db'. complete_review_job now jid w db = Inr db'" using complete_ok r(1,2) by blast
  then obtain db' where run: "complete_review_job now jid w db = Inr db'" ..
  let ?r = "r\<lparr>rj_status := Succeeded, rj_locked_by := None, rj_locked_until := None, rj_updated_at := now\<rparr>"
  have "?r \<in> set (review_jobs db')" using complete_Inr [OF run] r(1,2) by (auto simp: set_update_where intro: rev_image_eqI)
  then have "settled_row jid n Succeeded None db'"
    using r(2,3) unfolding settled_row_def by (intro bexI [of _ ?r]) (simp_all add: owned_by_def)
  with run complete_queue_ok [OF assms(1) run] show ?thesis by blast
qed


definition sample_round :: worker_round where
  "sample_round = \<lparr>wr_stop_before = False, wr_claimed_at = 5, wr_locked = {}, wr_renewals = [6, 7], wr_others = id,
     wr_trace = (\<lambda>_. \<lparr>jt_polls = [False, True], jt_joined = False, jt_error = None\<rparr>), wr_stop_after = True, wr_settled_at = 9\<rparr>"


section \<open>The loop keeps the queue\<close>

lemma settle_queue_ok:
  "queue_ok db \<Longrightarrow> (\<And>db'. r = Inr db' \<Longrightarrow> queue_ok db') \<Longrightarrow> queue_ok (snd (settle r db ending))"
  by (simp add: settle_def split: sum.split)

lemma renewal_queue_ok: "queue_ok db \<Longrightarrow> queue_ok (snd (renewal_loop message jid w ts db))"
proof (induction ts arbitrary: db)
  case (Cons now rest)
  then show ?case by (cases "renew_review_job_lease now jid w db") (simp_all add: renew_queue_ok)
qed simp

lemma round_queue_ok:
  assumes "queue_ok db" and "\<And>d. queue_ok d \<Longrightarrow> queue_ok (wr_others rd d)"
  shows "queue_ok (snd (run_round message w rd db))"
proof -
  obtain res db1 where claim: "claim_review_job (wr_claimed_at rd) (wr_locked rd) w db = (res, db1)" by fastforce
  have "queue_ok db1" using claim_queue_ok [OF assms(1) claim] .
  then have "queue_ok (wr_others rd (snd (renewal_loop message jid w ts db1)))" for jid ts
    by (intro assms(2) renewal_queue_ok)
  with \<open>queue_ok db1\<close> assms(1) claim show ?thesis
    by (auto simp: run_round_def Let_def split: option.split sum.split
        intro!: settle_queue_ok intro: fail_queue_ok complete_queue_ok)
qed

lemma worker_queue_ok:
  assumes "\<forall>rd \<in> set rds. \<forall>d. queue_ok d \<longrightarrow> queue_ok (wr_others rd d)" and "queue_ok db"
  shows "queue_ok (snd (run_worker message w limit rds db))"
  using assms
proof (induction rds arbitrary: limit db)
  case (Cons rd rds)
  from Cons.prems have "queue_ok (snd (run_round message w rd db))" by (intro round_queue_ok) simp_all
  with Cons show ?case by (auto split: round_end.split prod.split)
qed simp

text \<open>A stop request is honoured before the next claim, and no more rounds run than were asked for.\<close>

lemma stop_before_claim: "wr_stop_before rd \<Longrightarrow> run_worker message w limit (rd # rds) db = (Returned, db)"
  by simp

lemma iterations_bounded:
  "n < length rds \<Longrightarrow> run_worker message w (Some n) rds db = run_worker message w (Some n) (take (Suc n) rds) db"
  by (induction rds arbitrary: n db) (auto simp: take_Cons split: nat.split round_end.split prod.split)

text \<open>What the default job does: nothing, so that every job the hosted worker claims is settled as succeeded
  without a review.\<close>

lemma stub_job_succeeds_unreviewed:
  assumes "queue_ok db" and "\<not> wr_stop_before rd" and "\<not> wr_stop_after rd" and "wr_others rd = id"
    and "wr_trace rd = (\<lambda>_. stub_trace)"
    and "claim_review_job (wr_claimed_at rd) (wr_locked rd) w db = (Some job, db1)"
  shows "\<exists>db'. run_round message w rd db = (Continue, db') \<and> settled_row (rj_id job) (rj_attempts job) Succeeded None db'"
proof -
  define db2 where "db2 = snd (renewal_loop message (rj_id job) w (wr_renewals rd) db1)"
  have ok: "queue_ok db2" and held: "held (rj_id job) w (rj_attempts job) db2"
    using claim_held [OF assms(1,6)] renewal_keeps_held unfolding db2_def by blast+
  from complete_settles [OF this, of "wr_settled_at rd"] assms show ?thesis
    by (auto simp: run_round_def run_job_with_shutdown_deadline_def stub_trace_def settle_def Let_def db2_def)
qed

text \<open>The shutdown deadline: the job that does not stop in time is failed like one that crashed, and its
  lease is given up.\<close>

lemma deadline_releases_the_lease:
  assumes "queue_ok db" and "\<not> wr_stop_before rd" and "wr_others rd = id"
    and "claim_review_job (wr_claimed_at rd) (wr_locked rd) w db = (Some job, db1)"
    and "run_job_with_shutdown_deadline (wr_trace rd job) = Inl TimeoutError"
  shows "\<exists>db' r. run_round message w rd db = (Continue, db') \<and> r \<in> set (review_jobs db') \<and> rj_id r = rj_id job \<and>
    rj_locked_by r = None"
proof -
  define db2 where "db2 = snd (renewal_loop message (rj_id job) w (wr_renewals rd) db1)"
  have ok: "queue_ok db2" and held: "held (rj_id job) w (rj_attempts job) db2"
    using claim_held [OF assms(1,4)] renewal_keeps_held unfolding db2_def by blast+
  from fail_settles [OF this, of "wr_settled_at rd" Worker_Crashed] assms show ?thesis
    by (auto simp: run_round_def settle_def Let_def db2_def settled_row_def)
qed

end
