(* ===== verification/Local_Config.thy ===== *)
theory Local_Config
  imports Model_Calls Posting Sign_In
begin

text \<open>
  The two JSON files the runner keeps beside its database: the configuration of each repository
  (\<open>local_store/repo_config.py\<close>, with \<open>prompts/registry.py\<close>) and the log of a review's reasoning
  (\<open>local_store/review_log.py\<close>).  A file is absent, or holds a decoded value or a decoding error; writing
  replaces the value, and the order of keys in it carries no meaning.  pydantic's validation of a stored
  policy is a parameter.  \<open>dict(x)\<close> of a stored value that is no object raises; a list of pairs, which no writer
  of the file produces, is not distinguished from other lists.

  The lemmas are the round trips of the stores, that one repository's settings never touch another's, and that a
  stored prompt version keeps its text.
\<close>

section \<open>JSON files\<close>

type_synonym obj = "(string \<times> json) list"
type_synonym json_file = "json result option"

definition read_object :: "obj \<Rightarrow> json_file \<Rightarrow> obj result" where
  "read_object empty_file f =
     (case f of
        None \<Rightarrow> Inr empty_file
      | Some r \<Rightarrow> bind_r r (\<lambda>v. case v of JObj kvs \<Rightarrow> Inr kvs | _ \<Rightarrow> Inl ValueError))"

definition write_object :: "obj \<Rightarrow> json_file" where
  "write_object kvs = Some (Inr (JObj kvs))"

text \<open>\<open>d.setdefault(k, v)\<close>: the value found or set, and the dictionary.\<close>

definition setdefault :: "string \<Rightarrow> json \<Rightarrow> obj \<Rightarrow> json \<times> obj" where
  "setdefault k v d = (case map_of d k of Some old \<Rightarrow> (old, d) | None \<Rightarrow> (v, dict_set k v d))"

definition get_default :: "json \<Rightarrow> string \<Rightarrow> obj \<Rightarrow> json" where
  "get_default v k d = (case map_of d k of Some x \<Rightarrow> x | None \<Rightarrow> v)"

text \<open>A value used as a dictionary: attribute access on anything else raises.\<close>

fun as_dict :: "json \<Rightarrow> obj result" where
  "as_dict (JObj kvs) = Inr kvs"
| "as_dict _ = Inl (Exception_Of ''AttributeError'')"

fun dict_copy :: "json \<Rightarrow> obj result" where
  "dict_copy (JObj kvs) = Inr kvs"
| "dict_copy (JArr xs) = (if xs = [] then Inr [] else Inl ValueError)"
| "dict_copy (JStr s) = (if s = [] then Inr [] else Inl ValueError)"
| "dict_copy _ = Inl TypeError"

fun require_dict :: "json \<Rightarrow> obj result" where
  "require_dict (JObj kvs) = Inr kvs"
| "require_dict _ = Inl ValueError"

section \<open>Policies and model choices\<close>

record repo_model_choice =
  mc_provider_id :: string
  mc_model_id :: string

definition model_choice_keys :: "string list" where
  "model_choice_keys = [''provider_id'', ''model_id'']"

definition split_repo_entry :: "obj \<Rightarrow> obj \<times> obj" where
  "split_repo_entry entry =
     (filter (\<lambda>(k, v). k \<notin> set model_choice_keys) entry,
      List.map_filter (\<lambda>k. map_option (Pair k) (map_of entry k)) model_choice_keys)"

definition default_repo_model_choice :: "repo_model_choice result" where
  "default_repo_model_choice =
     (case catalogue of
        [] \<Rightarrow> Inl (Exception_Of ''IndexError'')
      | (provider, _) # _ \<Rightarrow>
          bind_r (default_model_for provider) (\<lambda>model. Inr \<lparr>mc_provider_id = provider, mc_model_id = model\<rparr>))"

definition validate_repo_model_choice :: "repo_model_choice \<Rightarrow> repo_model_choice result" where
  "validate_repo_model_choice choice =
     (if is_known_provider_model (mc_provider_id choice) (mc_model_id choice) then Inr choice else Inl ValueError)"

definition policy_dump :: "review_policy \<Rightarrow> obj" where
  "policy_dump p =
     [(''instructions_enabled'', JBool (rp_instructions_enabled p)), (''auto_post'', JBool (rp_auto_post p)),
      (''specialist_mode'', JBool (rp_specialist_mode p)), (''verification_required'', JBool (rp_verification_required p)),
      (''public_posting'', JBool (rp_public_posting p)), (''routing'', JStr ''queue_for_human''),
      (''budget_tokens'', JInt (rp_budget_tokens p))]"

definition empty_config :: obj where
  "empty_config = [(''repositories'', JObj [])]"

definition repo_entry :: "json_file \<Rightarrow> int \<Rightarrow> obj result" where
  "repo_entry f repository_id =
     bind_r (read_object empty_config f) (\<lambda>payload.
     bind_r (as_dict (get_default (JObj []) ''repositories'' payload)) (\<lambda>repositories.
       require_dict (get_default (JObj []) (show_int repository_id) repositories)))"

definition config_get :: "(obj \<Rightarrow> review_policy result) \<Rightarrow> json_file \<Rightarrow> int \<Rightarrow> review_policy result" where
  "config_get validate f repository_id =
     bind_r (repo_entry f repository_id) (\<lambda>entry.
       let (policy_data, choice_data) = split_repo_entry entry
       in if policy_data = [] then Inr default_review_policy else validate policy_data)"

definition get_model_choice :: "(json \<Rightarrow> string) \<Rightarrow> json_file \<Rightarrow> int \<Rightarrow> repo_model_choice result" where
  "get_model_choice repr f repository_id =
     bind_r (repo_entry f repository_id) (\<lambda>entry.
       let (policy_data, choice_data) = split_repo_entry entry
       in case (map_of choice_data ''provider_id'', map_of choice_data ''model_id'') of
            (Some p, Some m) \<Rightarrow> validate_repo_model_choice \<lparr>mc_provider_id = py_str repr p, mc_model_id = py_str repr m\<rparr>
          | _ \<Rightarrow> default_repo_model_choice)"

text \<open>\<open>{**a, **b}\<close>.\<close>

definition merged :: "obj \<Rightarrow> obj \<Rightarrow> obj" where
  "merged a b = foldl (\<lambda>d (k, v). dict_set k v d) a b"

text \<open>The shared shape of the two writers: read, update the entry of the repository, write.\<close>

definition update_entry :: "json_file \<Rightarrow> int \<Rightarrow> (obj \<Rightarrow> obj) \<Rightarrow> json_file result" where
  "update_entry f repository_id change =
     bind_r (read_object empty_config f) (\<lambda>payload.
       let (reps, payload') = setdefault ''repositories'' (JObj []) payload
       in bind_r (as_dict reps) (\<lambda>repositories.
          bind_r (dict_copy (get_default (JObj []) (show_int repository_id) repositories)) (\<lambda>entry.
            Inr (write_object (dict_set ''repositories''
              (JObj (dict_set (show_int repository_id) (JObj (change entry)) repositories)) payload')))))"

definition config_set :: "json_file \<Rightarrow> int \<Rightarrow> review_policy \<Rightarrow> json_file result" where
  "config_set f repository_id policy =
     update_entry f repository_id (\<lambda>entry. merged (policy_dump policy) (snd (split_repo_entry entry)))"

definition set_model_choice :: "json_file \<Rightarrow> int \<Rightarrow> repo_model_choice \<Rightarrow> json_file result" where
  "set_model_choice f repository_id choice =
     bind_r (validate_repo_model_choice choice) (\<lambda>validated.
       update_entry f repository_id (\<lambda>entry.
         let policy_data = fst (split_repo_entry entry);
             policy_data' = (if policy_data = [] then policy_dump default_review_policy else policy_data)
         in merged policy_data' [(''provider_id'', JStr (mc_provider_id validated)), (''model_id'', JStr (mc_model_id validated))]))"

definition all_for :: "(obj \<Rightarrow> review_policy result) \<Rightarrow> json_file \<Rightarrow> int list \<Rightarrow> (int \<times> review_policy) list result" where
  "all_for validate f ids = bind_r (map_r (\<lambda>i. bind_r (config_get validate f i) (\<lambda>p. Inr (i, p))) ids) (\<lambda>kvs. Inr (dict_of kvs))"

definition all_model_choices_for :: "(json \<Rightarrow> string) \<Rightarrow> json_file \<Rightarrow> int list \<Rightarrow> (int \<times> repo_model_choice) list result" where
  "all_model_choices_for repr f ids = bind_r (map_r (\<lambda>i. bind_r (get_model_choice repr f i) (\<lambda>c. Inr (i, c))) ids) (\<lambda>kvs. Inr (dict_of kvs))"

section \<open>Prompt versions\<close>

record prompt_version =
  pv_name :: string
  pv_version :: string
  pv_content :: string

type_synonym prompt_registry = "((string \<times> string) \<times> prompt_version) list"

definition prompt_version_immutable :: py_exn where
  "prompt_version_immutable = Exception_Of ''PromptVersionImmutable''"

definition register :: "string \<Rightarrow> string \<Rightarrow> string \<Rightarrow> prompt_registry \<Rightarrow> (prompt_version \<times> prompt_registry) result" where
  "register name version content versions =
     (if map_of versions (name, version) \<noteq> None then Inl prompt_version_immutable
      else let item = \<lparr>pv_name = name, pv_version = version, pv_content = content\<rparr>
           in Inr (item, dict_set (name, version) item versions))"

definition registry_get :: "string \<Rightarrow> string \<Rightarrow> prompt_registry \<Rightarrow> prompt_version result" where
  "registry_get name version versions =
     (case map_of versions (name, version) of Some item \<Rightarrow> Inr item | None \<Rightarrow> Inl (Exception_Of ''PromptNotFound''))"

record repository_prompt_version =
  rv_version :: string
  rv_content :: string
  rv_locked :: bool

definition repository_prompt_name :: "int \<Rightarrow> string" where
  "repository_prompt_name repository_id = ''repository-'' @ show_int repository_id @ ''-custom''"

text \<open>\<open>sorted(versions, key=lambda item: int(item))\<close>: every key is converted before the sort.\<close>

definition sorted_versions :: "obj \<Rightarrow> string list result" where
  "sorted_versions versions =
     bind_r (map_r (\<lambda>k. bind_r (int_of_string k) (\<lambda>i. Inr (i, k))) (map fst versions)) (\<lambda>keyed.
       Inr (map snd (sort_key fst keyed)))"

definition version_dict :: "obj \<Rightarrow> string \<Rightarrow> obj result" where
  "version_dict versions k = require_dict (get_default JNull k versions)"

definition repository_prompts_entry :: "json_file \<Rightarrow> int \<Rightarrow> obj result" where
  "repository_prompts_entry f repository_id =
     bind_r (read_object empty_config f) (\<lambda>payload.
     bind_r (require_dict (get_default (JObj []) ''repository_prompts'' payload)) (\<lambda>prompts.
       require_dict (get_default (JObj []) (show_int repository_id) prompts)))"

definition list_repository_prompt_versions :: "(json \<Rightarrow> string) \<Rightarrow> json_file \<Rightarrow> int \<Rightarrow> repository_prompt_version list result" where
  "list_repository_prompt_versions repr f repository_id =
     bind_r (repository_prompts_entry f repository_id) (\<lambda>repo_prompts.
     bind_r (require_dict (get_default (JObj []) ''versions'' repo_prompts)) (\<lambda>versions.
     bind_r (sorted_versions versions) (\<lambda>keys.
       map_r (\<lambda>version. bind_r (version_dict versions version) (\<lambda>raw.
         Inr \<lparr>rv_version = version, rv_content = py_str repr (get_default (JStr []) ''content'' raw),
              rv_locked = json_truthy (get_default (JBool False) ''locked'' raw)\<rparr>)) keys)))"

definition get_active_repository_prompt ::
  "(json \<Rightarrow> string) \<Rightarrow> json_file \<Rightarrow> int \<Rightarrow> repository_prompt_version option result" where
  "get_active_repository_prompt repr f repository_id =
     bind_r (repository_prompts_entry f repository_id) (\<lambda>repo_prompts.
       let active = get_default JNull ''active_version'' repo_prompts
       in if \<not> json_truthy active then Inr None
          else bind_r (list_repository_prompt_versions repr f repository_id) (\<lambda>items.
                 Inr (List.find (\<lambda>item. rv_version item = py_str repr active) items)))"

fun register_all :: "(json \<Rightarrow> string) \<Rightarrow> string \<Rightarrow> obj \<Rightarrow> string list \<Rightarrow> prompt_registry \<Rightarrow> prompt_registry result" where
  "register_all repr name versions [] registry = Inr registry"
| "register_all repr name versions (version # rest) registry =
     bind_r (version_dict versions version) (\<lambda>raw.
     bind_r (json_item (JObj raw) ''content'') (\<lambda>content.
     bind_r (register name version (py_str repr content) registry) (\<lambda>(item, registry').
       register_all repr name versions rest registry')))"

definition prompt_registry_for :: "(json \<Rightarrow> string) \<Rightarrow> int \<Rightarrow> obj \<Rightarrow> prompt_registry result" where
  "prompt_registry_for repr repository_id versions =
     bind_r (sorted_versions versions) (\<lambda>keys.
       register_all repr (repository_prompt_name repository_id) versions keys [])"

definition add_repository_prompt ::
  "(json \<Rightarrow> string) \<Rightarrow> int \<Rightarrow> string \<Rightarrow> json_file \<Rightarrow> (repository_prompt_version \<times> json_file) result" where
  "add_repository_prompt repr repository_id content f =
     (let cleaned = py_strip content; key = show_int repository_id
      in if cleaned = [] then Inl ValueError
         else bind_r (read_object empty_config f) (\<lambda>payload.
           let (ps, payload') = setdefault ''repository_prompts'' (JObj []) payload
           in bind_r (as_dict ps) (\<lambda>prompts.
              let (rp, prompts') = setdefault key (JObj [(''versions'', JObj []), (''active_version'', JNull)]) prompts
              in bind_r (as_dict rp) (\<lambda>repo_prompts.
                 let (vs, repo_prompts') = setdefault ''versions'' (JObj []) repo_prompts
                 in bind_r (require_dict vs) (\<lambda>versions.
                    let next_version = show_nat (length versions + 1)
                    in bind_r (prompt_registry_for repr repository_id versions) (\<lambda>registry.
                       bind_r (register (repository_prompt_name repository_id) next_version cleaned registry) (\<lambda>_.
                         let versions' = dict_set next_version (JObj [(''content'', JStr cleaned), (''locked'', JBool False)]) versions;
                             entry = dict_set ''active_version'' (JStr next_version) (dict_set ''versions'' (JObj versions') repo_prompts')
                         in Inr (\<lparr>rv_version = next_version, rv_content = cleaned, rv_locked = False\<rparr>,
                                 write_object (dict_set ''repository_prompts'' (JObj (dict_set key (JObj entry) prompts')) payload')))))))))"

definition lock_version :: "string \<Rightarrow> obj \<Rightarrow> obj result" where
  "lock_version version versions =
     (case map_of versions version of
        None \<Rightarrow> Inl KeyError
      | Some (JObj raw) \<Rightarrow> Inr (dict_set version (JObj (dict_set ''locked'' (JBool True) raw)) versions)
      | Some _ \<Rightarrow> Inl TypeError)"

definition mark_repository_prompt_used :: "int \<Rightarrow> string \<Rightarrow> json_file \<Rightarrow> json_file result" where
  "mark_repository_prompt_used repository_id version f =
     (let key = show_int repository_id
      in bind_r (read_object empty_config f) (\<lambda>payload.
           let (ps, payload') = setdefault ''repository_prompts'' (JObj []) payload
           in bind_r (as_dict ps) (\<lambda>prompts.
              let (rp, prompts') = setdefault key (JObj [(''versions'', JObj [])]) prompts
              in bind_r (as_dict rp) (\<lambda>repo_prompts.
                 let (vs, repo_prompts') = setdefault ''versions'' (JObj []) repo_prompts
                 in bind_r (as_dict vs) (\<lambda>versions.
                    bind_r (lock_version version versions) (\<lambda>versions'.
                      let entry = dict_set ''versions'' (JObj versions') repo_prompts'
                      in Inr (write_object (dict_set ''repository_prompts'' (JObj (dict_set key (JObj entry) prompts')) payload'))))))))"

section \<open>The review log\<close>

record agent_reasoning_record =
  ar_concern :: string
  ar_reasoning :: string
  ar_sequence :: int

definition empty_log :: obj where
  "empty_log = [(''reviews'', JObj [])]"

fun require_list :: "json \<Rightarrow> json list result" where
  "require_list (JArr xs) = Inr xs"
| "require_list _ = Inl ValueError"

definition reasoning_json :: "agent_reasoning_record \<Rightarrow> json" where
  "reasoning_json r = JObj [(''concern'', JStr (ar_concern r)), (''reasoning'', JStr (ar_reasoning r)), (''sequence'', JInt (ar_sequence r))]"

definition append_reasoning ::
  "string \<Rightarrow> string \<Rightarrow> string \<Rightarrow> json_file \<Rightarrow> (agent_reasoning_record \<times> json_file) result" where
  "append_reasoning review_id concern reasoning f =
     (let cleaned = py_strip reasoning
      in if py_strip concern = [] then Inl ValueError
         else if cleaned = [] then Inl ValueError
         else bind_r (read_object empty_log f) (\<lambda>payload.
           let (rs, payload') = setdefault ''reviews'' (JObj []) payload
           in bind_r (as_dict rs) (\<lambda>reviews.
              let (rv, reviews') = setdefault review_id (JObj [(''entries'', JArr [])]) reviews
              in bind_r (as_dict rv) (\<lambda>review.
                 let (es, review') = setdefault ''entries'' (JArr []) review
                 in bind_r (require_list es) (\<lambda>entries.
                    let record = \<lparr>ar_concern = py_strip concern, ar_reasoning = cleaned, ar_sequence = int (length entries) + 1\<rparr>;
                        review'' = dict_set ''entries'' (JArr (entries @ [reasoning_json record])) review'
                    in Inr (record, write_object (dict_set ''reviews'' (JObj (dict_set review_id (JObj review'') reviews')) payload')))))))"

definition reasoning_of_json :: "(json \<Rightarrow> string) \<Rightarrow> json \<Rightarrow> agent_reasoning_record result" where
  "reasoning_of_json repr raw =
     bind_r (require_dict raw) (\<lambda>d.
     bind_r (json_item (JObj d) ''concern'') (\<lambda>c.
     bind_r (json_item (JObj d) ''reasoning'') (\<lambda>r.
     bind_r (bind_r (json_item (JObj d) ''sequence'') py_int) (\<lambda>s.
       Inr \<lparr>ar_concern = py_str repr c, ar_reasoning = py_str repr r, ar_sequence = s\<rparr>))))"

definition list_reasoning :: "(json \<Rightarrow> string) \<Rightarrow> json_file \<Rightarrow> string \<Rightarrow> agent_reasoning_record list result" where
  "list_reasoning repr f review_id =
     bind_r (read_object empty_log f) (\<lambda>payload.
     bind_r (require_dict (get_default (JObj []) ''reviews'' payload)) (\<lambda>reviews.
     bind_r (require_dict (get_default (JObj []) review_id reviews)) (\<lambda>review.
     bind_r (require_list (get_default (JArr []) ''entries'' review)) (\<lambda>entries.
       map_r (reasoning_of_json repr) entries))))"

text \<open>\<open>stored.get("review_job_id")\<close>; an absent key is \<open>None\<close>.\<close>

definition job_of :: "json \<Rightarrow> json" where
  "job_of v = json_get v ''review_job_id''"

definition append_review_summary :: "string \<Rightarrow> obj \<Rightarrow> json_file \<Rightarrow> json_file result" where
  "append_review_summary now payload f =
     (let stored = dict_set ''created_at'' (JStr now) payload
      in bind_r (read_object empty_log f) (\<lambda>top.
           let (ss, top') = setdefault ''review_summaries'' (JArr []) top
           in bind_r (require_list ss) (\<lambda>summaries.
                Inr (write_object (dict_set ''review_summaries''
                  (JArr (filter (\<lambda>item. \<not> is_obj item \<or> job_of item \<noteq> job_of (JObj stored)) summaries @ [JObj stored])) top')))))"

definition list_review_summaries :: "json_file \<Rightarrow> obj list result" where
  "list_review_summaries f =
     bind_r (read_object empty_log f) (\<lambda>payload.
     bind_r (require_list (get_default (JArr []) ''review_summaries'' payload)) (\<lambda>summaries.
       map_r require_dict summaries))"

section \<open>Entries are independent\<close>

lemma get_default_dict_set: "get_default v k (dict_set k' x d) = (if k = k' then x else get_default v k d)"
  by (simp add: get_default_def)

lemma setdefault_get: "fst (setdefault k v d) = get_default v k d"
  by (simp add: setdefault_def get_default_def split: option.splits)

lemma setdefault_keeps: "k \<noteq> k' \<Longrightarrow> map_of (snd (setdefault k v d)) k' = map_of d k'"
  by (simp add: setdefault_def split: option.splits)

lemma get_default_setdefault: "k \<noteq> k' \<Longrightarrow> get_default w k' (snd (setdefault k v d)) = get_default w k' d"
  by (simp add: get_default_def setdefault_keeps)

lemma read_written [simp]: "read_object e (write_object kvs) = Inr kvs"
  by (simp add: read_object_def write_object_def)

text \<open>What a write to the entry of one repository leaves of every entry.\<close>

lemma update_entry_entries:
  assumes "repo_entry f i = Inr e"
  shows "\<exists>f'. update_entry f i change = Inr f' \<and> repo_entry f' i = Inr (change e) \<and>
    (\<forall>j. j \<noteq> i \<longrightarrow> repo_entry f' j = repo_entry f j)"
proof -
  from assms obtain payload reps where
    read: "read_object empty_config f = Inr payload"
    and reps: "as_dict (get_default (JObj []) ''repositories'' payload) = Inr reps"
    and e: "require_dict (get_default (JObj []) (show_int i) reps) = Inr e"
    by (auto simp: repo_entry_def bind_r_Inr)
  define f' where "f' = write_object (dict_set ''repositories'' (JObj (dict_set (show_int i) (JObj (change e)) reps))
      (snd (setdefault ''repositories'' (JObj []) payload)))"
  from e have "dict_copy (get_default (JObj []) (show_int i) reps) = Inr e"
    by (cases "get_default (JObj []) (show_int i) reps") auto
  with read reps have "update_entry f i change = Inr f'"
    by (simp add: update_entry_def f'_def split_beta setdefault_get)
  moreover have "repo_entry f' i = Inr (change e)"
    by (simp add: repo_entry_def f'_def get_default_dict_set)
  moreover have "repo_entry f' j = repo_entry f j" if "j \<noteq> i" for j
    using that read reps by (simp add: repo_entry_def f'_def get_default_dict_set)
  ultimately show ?thesis by blast
qed

lemma choice_lookup:
  "map_of (snd (split_repo_entry e)) k = (if k \<in> set model_choice_keys then map_of e k else None)"
  by (auto simp: split_repo_entry_def model_choice_keys_def List.map_filter_simps split: option.splits)

lemma policy_part_dict_set:
  "k \<in> set model_choice_keys \<Longrightarrow> fst (split_repo_entry (dict_set k v d)) = fst (split_repo_entry d)"
proof (induction d)
  case (Cons x d)
  then show ?case by (cases x) (simp add: split_repo_entry_def)
qed (simp add: split_repo_entry_def)

lemma policy_part_merged:
  "fst ` set b \<subseteq> set model_choice_keys \<Longrightarrow> fst (split_repo_entry (merged a b)) = fst (split_repo_entry a)"
  unfolding merged_def
proof (induction b arbitrary: a)
  case (Cons x b)
  then show ?case by (cases x) (simp add: policy_part_dict_set)
qed simp

lemma policy_part_dump: "fst (split_repo_entry (policy_dump p)) = policy_dump p"
  by (simp add: split_repo_entry_def policy_dump_def model_choice_keys_def)

lemma dump_not_empty: "policy_dump p \<noteq> []"
  by (simp add: policy_dump_def)

lemma choice_keys: "fst ` set (snd (split_repo_entry e)) \<subseteq> set model_choice_keys"
  by (auto simp: split_repo_entry_def List.map_filter_def)

lemma map_of_merged: "map_of (merged a b) = map_of a ++ map_of (rev b)"
  unfolding merged_def
proof (induction b arbitrary: a)
  case (Cons x b)
  then show ?case by (cases x) (auto simp: fun_eq_iff map_add_def split: option.splits)
qed simp

lemma choice_kept:
  assumes "k \<in> set model_choice_keys"
  shows "map_of (merged (policy_dump p) (snd (split_repo_entry e))) k = map_of e k"
proof -
  have "map_of (rev (snd (split_repo_entry e))) k = map_of e k"
    using assms by (auto simp: split_repo_entry_def model_choice_keys_def List.map_filter_simps split: option.splits)
  moreover have "map_of (policy_dump p) k = None"
    using assms by (auto simp: policy_dump_def model_choice_keys_def)
  ultimately show ?thesis by (cases "map_of e k") (simp_all add: map_of_merged map_add_def)
qed

lemma get_model_choice_entry:
  "map_of e ''provider_id'' = map_of e' ''provider_id'' \<Longrightarrow> map_of e ''model_id'' = map_of e' ''model_id'' \<Longrightarrow>
   repo_entry f i = Inr e \<Longrightarrow> repo_entry f' j = Inr e' \<Longrightarrow> get_model_choice repr f i = get_model_choice repr f' j"
  by (simp add: get_model_choice_def split_beta choice_lookup model_choice_keys_def cong: option.case_cong)

text \<open>Repository settings.  Claim: a stored policy is read back, the model choice of the repository stays, and
  every other repository keeps its policy and its model choice; a stored model choice, which is always one of the
  catalogue, is read back and leaves the policies, where pydantic reads a dumped policy back.\<close>

theorem repo_config_round_trip:
  assumes codec: "\<forall>p. validate (policy_dump p) = Inr p" and readable: "repo_entry f i = Inr e"
    and known: "is_known_provider_model (mc_provider_id c) (mc_model_id c)"
  shows "(\<exists>f'. config_set f i p = Inr f' \<and> config_get validate f' i = Inr p \<and>
      (\<forall>j. j \<noteq> i \<longrightarrow> config_get validate f' j = config_get validate f j) \<and>
      (\<forall>j. get_model_choice repr f' j = get_model_choice repr f j)) \<and>
    (\<exists>f'. set_model_choice f i c = Inr f' \<and> get_model_choice repr f' i = Inr c \<and>
      (\<forall>j. j \<noteq> i \<longrightarrow> get_model_choice repr f' j = get_model_choice repr f j) \<and>
      (\<forall>j. config_get validate f' j = config_get validate f j))"
proof
  let ?change = "\<lambda>entry. merged (policy_dump p) (snd (split_repo_entry entry))"
  obtain f' where f': "config_set f i p = Inr f'" "repo_entry f' i = Inr (?change e)"
    "\<And>j. j \<noteq> i \<Longrightarrow> repo_entry f' j = repo_entry f j"
    using update_entry_entries [OF readable, of ?change] by (auto simp: config_set_def)
  have "config_get validate f' i = Inr p"
    using f'(2) codec dump_not_empty
    by (simp add: config_get_def split_beta policy_part_merged choice_keys policy_part_dump)
  moreover have "config_get validate f' j = config_get validate f j" if "j \<noteq> i" for j
    using that f'(3) by (simp add: config_get_def)
  moreover have "get_model_choice repr f' j = get_model_choice repr f j" for j
  proof (cases "j = i")
    case True
    have "map_of (?change e) k = map_of e k" if "k \<in> {''provider_id'', ''model_id''}" for k
      using that by (intro choice_kept) (auto simp: model_choice_keys_def)
    then have "map_of (?change e) ''provider_id'' = map_of e ''provider_id''" "map_of (?change e) ''model_id'' = map_of e ''model_id''"
      by simp_all
    from get_model_choice_entry [OF this f'(2) readable] True show ?thesis by simp
  next
    case False
    then show ?thesis using f'(3) by (simp add: get_model_choice_def)
  qed
  ultimately show "\<exists>f'. config_set f i p = Inr f' \<and> config_get validate f' i = Inr p \<and>
      (\<forall>j. j \<noteq> i \<longrightarrow> config_get validate f' j = config_get validate f j) \<and>
      (\<forall>j. get_model_choice repr f' j = get_model_choice repr f j)" using f'(1) by blast
next
  let ?keep = "\<lambda>entry. if fst (split_repo_entry entry) = [] then policy_dump default_review_policy else fst (split_repo_entry entry)"
  let ?choice = "[(''provider_id'', JStr (mc_provider_id c)), (''model_id'', JStr (mc_model_id c))]"
  obtain f' where f': "set_model_choice f i c = Inr f'" "repo_entry f' i = Inr (merged (?keep e) ?choice)"
    "\<And>j. j \<noteq> i \<Longrightarrow> repo_entry f' j = repo_entry f j"
    using update_entry_entries [OF readable, of "\<lambda>entry. merged (?keep entry) ?choice"] known
    by (auto simp: set_model_choice_def validate_repo_model_choice_def Let_def)
  have "map_of (merged (?keep e) ?choice) ''provider_id'' = Some (JStr (mc_provider_id c))"
    "map_of (merged (?keep e) ?choice) ''model_id'' = Some (JStr (mc_model_id c))"
    by (simp_all add: merged_def)
  then have "get_model_choice repr f' i = Inr c"
    using f'(2) known by (simp add: get_model_choice_def split_beta choice_lookup model_choice_keys_def validate_repo_model_choice_def)
  moreover have "get_model_choice repr f' j = get_model_choice repr f j" if "j \<noteq> i" for j
    using that f'(3) by (simp add: get_model_choice_def)
  moreover have "config_get validate f' j = config_get validate f j" for j
  proof (cases "j = i")
    case True
    have idem: "fst (split_repo_entry (fst (split_repo_entry x))) = fst (split_repo_entry x)" for x
      by (simp add: split_repo_entry_def)
    have "fst (split_repo_entry (merged (?keep e) ?choice)) = ?keep e"
      by (simp add: policy_part_merged model_choice_keys_def policy_part_dump idem)
    moreover have "?keep e \<noteq> []" using dump_not_empty by simp
    ultimately show ?thesis
      using True f'(2) readable codec by (simp add: config_get_def split_beta)
  next
    case False
    then show ?thesis using f'(3) by (simp add: config_get_def)
  qed
  ultimately show "\<exists>f'. set_model_choice f i c = Inr f' \<and> get_model_choice repr f' i = Inr c \<and>
      (\<forall>j. j \<noteq> i \<longrightarrow> get_model_choice repr f' j = get_model_choice repr f j) \<and>
      (\<forall>j. config_get validate f' j = config_get validate f j)" using f'(1) by blast
qed

section \<open>Prompt versions are immutable\<close>

definition prompt_versions :: "json_file \<Rightarrow> int \<Rightarrow> obj result" where
  "prompt_versions f i =
     bind_r (repository_prompts_entry f i) (\<lambda>repo_prompts. require_dict (get_default (JObj []) ''versions'' repo_prompts))"

lemma register_keeps:
  "register name version content registry = Inr (item, registry') \<Longrightarrow>
   map_of registry (name, version) = None \<and> map_of registry' = (map_of registry)((name, version) \<mapsto> item)"
  by (auto simp: register_def Let_def split: if_splits)

lemma register_all_dom:
  "register_all repr name versions keys registry = Inr registry' \<Longrightarrow>
   dom (map_of registry') = dom (map_of registry) \<union> Pair name ` set keys"
proof (induction repr name versions keys registry rule: register_all.induct)
  case (2 repr name versions version rest registry)
  from 2(2) obtain raw content item registry1 where
    raw: "version_dict versions version = Inr raw" "json_item (JObj raw) ''content'' = Inr content"
    and reg: "register name version (py_str repr content) registry = Inr (item, registry1)"
    and rest: "register_all repr name versions rest registry1 = Inr registry'"
    by (auto simp: bind_r_Inr)
  from 2(1) [OF rest] register_keeps [OF reg] show ?case by auto
qed simp

lemma map_r_snd:
  "map_r (\<lambda>k. bind_r (g k) (\<lambda>i. Inr (i, k))) ks = Inr keyed \<Longrightarrow> map snd keyed = ks"
  by (induction ks arbitrary: keyed) (auto simp: bind_r_Inr)

lemma sorted_versions_set: "sorted_versions versions = Inr keys \<Longrightarrow> set keys = fst ` set versions"
proof -
  assume "sorted_versions versions = Inr keys"
  then obtain keyed where keyed: "map_r (\<lambda>k. bind_r (int_of_string k) (\<lambda>i. Inr (i, k))) (map fst versions) = Inr keyed"
    and keys: "keys = map snd (sort_key fst keyed)"
    by (auto simp: sorted_versions_def bind_r_Inr)
  from map_r_snd [OF keyed] have "snd ` set keyed = fst ` set versions" by (metis list.set_map)
  with keys show ?thesis by simp
qed

text \<open>The update that both writers make at one repository, and what it leaves.\<close>

definition put_prompts :: "obj \<Rightarrow> obj \<Rightarrow> int \<Rightarrow> obj \<Rightarrow> json_file" where
  "put_prompts payload prompts i entry =
     write_object (dict_set ''repository_prompts'' (JObj (dict_set (show_int i) (JObj entry) prompts)) payload)"

lemma put_prompts_entry:
  "repository_prompts_entry (put_prompts payload prompts i entry) j =
     (if j = i then Inr entry else require_dict (get_default (JObj []) (show_int j) prompts))"
  by (simp add: repository_prompts_entry_def put_prompts_def get_default_dict_set)

lemma put_prompts_repo:
  "repo_entry (put_prompts payload prompts i entry) j =
     bind_r (as_dict (get_default (JObj []) ''repositories'' payload)) (\<lambda>reps.
       require_dict (get_default (JObj []) (show_int j) reps))"
  by (simp add: repo_entry_def put_prompts_def get_default_dict_set)

lemma get_default_key_setdefault: "get_default w k' (snd (setdefault k v d)) =
    (if k = k' then get_default (if map_of d k = None then v else w) k d else get_default w k' d)"
  by (auto simp: setdefault_def get_default_def split: option.splits)

lemma as_dict_Inr: "as_dict v = Inr kvs \<longleftrightarrow> v = JObj kvs"
  by (cases v) auto

lemma require_dict_Inr: "require_dict v = Inr kvs \<longleftrightarrow> v = JObj kvs"
  by (cases v) auto

lemma setdefault_eq: "setdefault k v d = (get_default v k d, snd (setdefault k v d))"
  by (metis prod.collapse setdefault_get)

lemma add_prompt_run:
  assumes "add_repository_prompt repr i content f = Inr (v, f')"
  obtains payload prompts repo_prompts versions registry item where
    "read_object empty_config f = Inr payload"
    "get_default (JObj []) ''repository_prompts'' payload = JObj prompts"
    "get_default (JObj [(''versions'', JObj []), (''active_version'', JNull)]) (show_int i) prompts = JObj repo_prompts"
    "get_default (JObj []) ''versions'' repo_prompts = JObj versions"
    "prompt_registry_for repr i versions = Inr registry"
    "register (repository_prompt_name i) (show_nat (length versions + 1)) (py_strip content) registry = Inr item"
    "v = \<lparr>rv_version = show_nat (length versions + 1), rv_content = py_strip content, rv_locked = False\<rparr>"
    "f' = put_prompts (snd (setdefault ''repository_prompts'' (JObj []) payload))
       (snd (setdefault (show_int i) (JObj [(''versions'', JObj []), (''active_version'', JNull)]) prompts)) i
       (dict_set ''active_version'' (JStr (rv_version v))
         (dict_set ''versions'' (JObj (dict_set (rv_version v)
            (JObj [(''content'', JStr (rv_content v)), (''locked'', JBool False)]) versions))
          (snd (setdefault ''versions'' (JObj []) repo_prompts))))"
proof -
  from assms have ne: "py_strip content \<noteq> []" by (auto simp: add_repository_prompt_def Let_def split: if_splits)
  from assms ne show thesis
    unfolding add_repository_prompt_def Let_def
    by (subst (asm) setdefault_eq [of "''repository_prompts''"], subst (asm) setdefault_eq [of "show_int i"],
        subst (asm) setdefault_eq [of "''versions''"])
      (auto simp: bind_r_Inr as_dict_Inr require_dict_Inr put_prompts_def intro!: that)
qed

lemma map_r_total: "(\<And>x. x \<in> set xs \<Longrightarrow> f x = Inr (g x)) \<Longrightarrow> map_r f xs = Inr (map g xs)"
  by (induction xs) auto

lemma register_all_dicts:
  "register_all repr name versions keys registry = Inr registry' \<Longrightarrow> k \<in> set keys \<Longrightarrow> \<exists>raw. version_dict versions k = Inr raw"
proof (induction repr name versions keys registry rule: register_all.induct)
  case (2 repr name versions version rest registry)
  then show ?case by (auto simp: bind_r_Inr)
qed simp

lemma sorted_versions_ok: "(\<exists>keys. sorted_versions versions = Inr keys) \<longleftrightarrow> (\<forall>k \<in> fst ` set versions. \<exists>i. int_of_string k = Inr i)"
proof -
  have "(\<exists>keyed. map_r (\<lambda>k. bind_r (int_of_string k) (\<lambda>i. Inr (i, k))) ks = Inr keyed) \<longleftrightarrow>
      (\<forall>k \<in> set ks. \<exists>i. int_of_string k = Inr i)" for ks
    by (induction ks) (auto simp: bind_r_Inr)
  then show ?thesis by (auto simp: sorted_versions_def bind_r_Inr)
qed

lemma find_version:
  "a \<in> set ks \<Longrightarrow> (\<And>k. rv_version (g k) = k) \<Longrightarrow> List.find (\<lambda>item. rv_version item = a) (map g ks) = Some (g a)"
  by (induction ks) auto

lemma int_of_show_nat: "int_of_string (show_nat n) = Inr (int n)"
  using int_of_show_int [of "int n"] by (simp add: show_int_def)

lemma listed_versions:
  assumes entry: "repository_prompts_entry f i = Inr entry" "get_default (JObj []) ''versions'' entry = JObj versions"
    and ints: "\<forall>k \<in> fst ` set versions. \<exists>n. int_of_string k = Inr n"
    and dicts: "\<forall>k \<in> fst ` set versions. \<exists>raw. version_dict versions k = Inr raw"
    and k: "k \<in> fst ` set versions" "version_dict versions k = Inr raw"
  shows "\<exists>items. list_repository_prompt_versions repr f i = Inr items \<and>
    List.find (\<lambda>item. rv_version item = k) items =
      Some \<lparr>rv_version = k, rv_content = py_str repr (get_default (JStr []) ''content'' raw),
            rv_locked = json_truthy (get_default (JBool False) ''locked'' raw)\<rparr>"
proof -
  obtain keys where keys: "sorted_versions versions = Inr keys" using sorted_versions_ok ints by blast
  let ?g = "\<lambda>k. let raw = projr (version_dict versions k) in
    \<lparr>rv_version = k, rv_content = py_str repr (get_default (JStr []) ''content'' raw),
     rv_locked = json_truthy (get_default (JBool False) ''locked'' raw)\<rparr>"
  have "list_repository_prompt_versions repr f i = Inr (map ?g keys)"
    using entry keys dicts sorted_versions_set [OF keys]
    by (simp add: list_repository_prompt_versions_def require_dict_Inr) (rule map_r_total, force simp: Let_def)
  moreover have "List.find (\<lambda>item. rv_version item = k) (map ?g keys) = Some (?g k)"
    using k(1) sorted_versions_set [OF keys] by (intro find_version) (auto simp: Let_def)
  ultimately show ?thesis using k(2) by (auto simp: Let_def)
qed

text \<open>Prompt versions.  Claim: adding a prompt to a repository appends one version under a number that was not
  used, makes it the active one, and leaves every stored version of every repository, and every repository's
  settings, as they were.\<close>

theorem prompt_versions_are_immutable:
  assumes "add_repository_prompt repr i content f = Inr (v, f')"
  shows "\<exists>old. prompt_versions f i = Inr old \<and> rv_version v \<notin> fst ` set old \<and> rv_content v = py_strip content \<and>
      prompt_versions f' i = Inr (old @ [(rv_version v, JObj [(''content'', JStr (rv_content v)), (''locked'', JBool False)])]) \<and>
      get_active_repository_prompt repr f' i = Inr (Some v) \<and>
      (\<forall>j. j \<noteq> i \<longrightarrow> prompt_versions f' j = prompt_versions f j) \<and> (\<forall>j. repo_entry f' j = repo_entry f j)"
proof -
  obtain payload prompts repo_prompts versions registry item where
    read: "read_object empty_config f = Inr payload"
    and prompts: "get_default (JObj []) ''repository_prompts'' payload = JObj prompts"
    and rp: "get_default (JObj [(''versions'', JObj []), (''active_version'', JNull)]) (show_int i) prompts = JObj repo_prompts"
    and vs: "get_default (JObj []) ''versions'' repo_prompts = JObj versions"
    and reg: "prompt_registry_for repr i versions = Inr registry"
    and new: "register (repository_prompt_name i) (show_nat (length versions + 1)) (py_strip content) registry = Inr item"
    and v: "v = \<lparr>rv_version = show_nat (length versions + 1), rv_content = py_strip content, rv_locked = False\<rparr>"
    and f': "f' = put_prompts (snd (setdefault ''repository_prompts'' (JObj []) payload))
       (snd (setdefault (show_int i) (JObj [(''versions'', JObj []), (''active_version'', JNull)]) prompts)) i
       (dict_set ''active_version'' (JStr (rv_version v))
         (dict_set ''versions'' (JObj (dict_set (rv_version v)
            (JObj [(''content'', JStr (rv_content v)), (''locked'', JBool False)]) versions))
          (snd (setdefault ''versions'' (JObj []) repo_prompts))))"
    using assms by (rule add_prompt_run)
  from reg obtain keys where keys: "sorted_versions versions = Inr keys"
    "register_all repr (repository_prompt_name i) versions keys [] = Inr registry"
    by (auto simp: prompt_registry_for_def bind_r_Inr)
  have "(repository_prompt_name i, rv_version v) \<notin> dom (map_of registry)"
    using new v by (cases item) (auto dest!: register_keeps)
  then have fresh: "rv_version v \<notin> fst ` set versions"
    using register_all_dom [OF keys(2)] sorted_versions_set [OF keys(1)] by (metis UnI2 imageI)
  let ?new = "(rv_version v, JObj [(''content'', JStr (rv_content v)), (''locked'', JBool False)])"
  let ?entry = "dict_set ''active_version'' (JStr (rv_version v)) (dict_set ''versions'' (JObj (versions @ [?new]))
      (snd (setdefault ''versions'' (JObj []) repo_prompts)))"
  have entry: "repository_prompts_entry f' i = Inr ?entry"
    using fresh by (simp add: f' put_prompts_entry dict_set_new)
  then have now: "prompt_versions f' i = Inr (versions @ [?new])"
    by (simp add: prompt_versions_def get_default_dict_set)
  have old: "prompt_versions f i = Inr versions"
    using read prompts rp vs
    by (cases "map_of prompts (show_int i)")
      (auto simp: prompt_versions_def repository_prompts_entry_def get_default_def require_dict_Inr)
  have others: "prompt_versions f' j = prompt_versions f j" if "j \<noteq> i" for j
    using that read prompts unfolding prompt_versions_def f' put_prompts_entry
    by (simp add: repository_prompts_entry_def get_default_setdefault)
  have settings: "repo_entry f' j = repo_entry f j" for j
    using read unfolding f' put_prompts_repo by (simp add: repo_entry_def get_default_setdefault)
  have lookup: "version_dict (versions @ [?new]) k = version_dict versions k" if "k \<in> fst ` set versions" for k
    using that by (auto simp: version_dict_def get_default_def map_of_eq_None_iff split: option.splits)
  have "\<exists>items. list_repository_prompt_versions repr f' i = Inr items \<and>
    List.find (\<lambda>item. rv_version item = rv_version v) items =
      Some \<lparr>rv_version = rv_version v, rv_content = py_str repr (get_default (JStr []) ''content'' [(''content'', JStr (rv_content v)), (''locked'', JBool False)]),
            rv_locked = json_truthy (get_default (JBool False) ''locked'' [(''content'', JStr (rv_content v)), (''locked'', JBool False)])\<rparr>"
  proof (rule listed_versions [OF entry])
    show "get_default (JObj []) ''versions'' ?entry = JObj (versions @ [?new])" by (simp add: get_default_dict_set)
    show "\<forall>k \<in> fst ` set (versions @ [?new]). \<exists>n. int_of_string k = Inr n"
      using sorted_versions_ok keys(1) v by (auto simp: int_of_show_nat)
    show "version_dict (versions @ [?new]) (rv_version v) = Inr [(''content'', JStr (rv_content v)), (''locked'', JBool False)]"
      using fresh map_of_eq_None_iff [of versions "rv_version v"] by (simp add: version_dict_def get_default_def map_add_def)
    then show "\<forall>k \<in> fst ` set (versions @ [?new]). \<exists>raw. version_dict (versions @ [?new]) k = Inr raw"
      using register_all_dicts [OF keys(2)] sorted_versions_set [OF keys(1)] lookup by auto
  qed simp
  then have "get_active_repository_prompt repr f' i = Inr (Some v)"
    using entry v by (auto simp: get_active_repository_prompt_def get_default_dict_set get_default_def Let_def)
  with now old others settings fresh v show ?thesis by auto
qed

lemma prompt_versions_are_immutable_witness:
  "\<exists>v f'. add_repository_prompt (\<lambda>_. []) 7 '' Look for races. '' (write_object [(''repository_prompts'',
       JObj [(''7'', JObj [(''versions'', JObj [(''1'', JObj [(''content'', JStr ''Be brief.''), (''locked'', JBool True)])])])])]) = Inr (v, f') \<and>
     rv_version v = ''2'' \<and> get_active_repository_prompt (\<lambda>_. []) f' 7 = Inr (Some v) \<and>
     prompt_versions f' 7 = Inr [(''1'', JObj [(''content'', JStr ''Be brief.''), (''locked'', JBool True)]),
       (''2'', JObj [(''content'', JStr ''Look for races.''), (''locked'', JBool False)])]"
proof -
  let ?f = "write_object [(''repository_prompts'',
       JObj [(''7'', JObj [(''versions'', JObj [(''1'', JObj [(''content'', JStr ''Be brief.''), (''locked'', JBool True)])])])])]"
  let ?run = "add_repository_prompt (\<lambda>_. []) 7 '' Look for races. '' ?f"
  have "map_sum id fst ?run = Inr \<lparr>rv_version = ''2'', rv_content = ''Look for races.'', rv_locked = False\<rparr>" by code_simp
  then obtain f' where run: "?run = Inr (\<lparr>rv_version = ''2'', rv_content = ''Look for races.'', rv_locked = False\<rparr>, f')"
    by (cases ?run) auto
  have old: "prompt_versions ?f 7 = Inr [(''1'', JObj [(''content'', JStr ''Be brief.''), (''locked'', JBool True)])]" by code_simp
  from prompt_versions_are_immutable [OF run] old run show ?thesis by auto
qed

text \<open>Marking a version used locks it and changes no text.\<close>

lemma mark_prompt_keeps_texts:
  assumes "mark_repository_prompt_used i version f = Inr f'" and "prompt_versions f i = Inr old"
  shows "\<exists>raw. map_of old version = Some (JObj raw) \<and>
    prompt_versions f' i = Inr (dict_set version (JObj (dict_set ''locked'' (JBool True) raw)) old)"
proof -
  obtain payload prompts repo_prompts versions versions' where
    read: "read_object empty_config f = Inr payload"
    and prompts: "get_default (JObj []) ''repository_prompts'' payload = JObj prompts"
    and rp: "get_default (JObj [(''versions'', JObj [])]) (show_int i) prompts = JObj repo_prompts"
    and vs: "get_default (JObj []) ''versions'' repo_prompts = JObj versions"
    and locked: "lock_version version versions = Inr versions'"
    and f': "f' = put_prompts (snd (setdefault ''repository_prompts'' (JObj []) payload))
       (snd (setdefault (show_int i) (JObj [(''versions'', JObj [])]) prompts)) i
       (dict_set ''versions'' (JObj versions') (snd (setdefault ''versions'' (JObj []) repo_prompts)))"
  proof -
    from assms(1) show thesis
      unfolding mark_repository_prompt_used_def Let_def
      by (subst (asm) setdefault_eq [of "''repository_prompts''"], subst (asm) setdefault_eq [of "show_int i"],
          subst (asm) setdefault_eq [of "''versions''"])
        (auto simp: bind_r_Inr as_dict_Inr put_prompts_def intro!: that)
  qed
  have "prompt_versions f i = Inr versions"
    using read prompts rp vs
    by (cases "map_of prompts (show_int i)")
      (auto simp: prompt_versions_def repository_prompts_entry_def get_default_def require_dict_Inr)
  moreover have "prompt_versions f' i = Inr versions'"
    by (simp add: prompt_versions_def f' put_prompts_entry get_default_dict_set)
  moreover from locked obtain raw where "map_of versions version = Some (JObj raw)"
      "versions' = dict_set version (JObj (dict_set ''locked'' (JBool True) raw)) versions"
    by (auto simp: lock_version_def split: option.splits json.splits)
  ultimately show ?thesis using assms(2) by auto
qed

section \<open>The log\<close>

lemma append_run:
  assumes "append_reasoning review concern reasoning f = Inr (r, f')"
  obtains payload reviews entry entries where
    "read_object empty_log f = Inr payload" "get_default (JObj []) ''reviews'' payload = JObj reviews"
    "get_default (JObj [(''entries'', JArr [])]) review reviews = JObj entry"
    "get_default (JArr []) ''entries'' entry = JArr entries"
    "r = \<lparr>ar_concern = py_strip concern, ar_reasoning = py_strip reasoning, ar_sequence = int (length entries) + 1\<rparr>"
    "f' = write_object (dict_set ''reviews'' (JObj (dict_set review (JObj (dict_set ''entries''
        (JArr (entries @ [reasoning_json r])) (snd (setdefault ''entries'' (JArr []) entry))))
      (snd (setdefault review (JObj [(''entries'', JArr [])]) reviews)))) (snd (setdefault ''reviews'' (JObj []) payload)))"
proof -
  have list: "require_list v = Inr xs \<longleftrightarrow> v = JArr xs" for v xs by (cases v) auto
  from assms show thesis
    unfolding append_reasoning_def Let_def
    by (subst (asm) setdefault_eq [of "''reviews''"], subst (asm) setdefault_eq [of review],
        subst (asm) setdefault_eq [of "''entries''"])
      (auto simp: bind_r_Inr as_dict_Inr list split: if_splits intro!: that)
qed

lemma map_r_append: "map_r f (xs @ ys) = bind_r (map_r f xs) (\<lambda>a. bind_r (map_r f ys) (\<lambda>b. Inr (a @ b)))"
proof (induction xs)
  case Nil
  then show ?case by (cases "map_r f ys") auto
next
  case (Cons x xs)
  then show ?case by (cases "f x"; cases "map_r f xs"; cases "map_r f ys") auto
qed

text \<open>An appended record is the last one listed, with the next number; the log of every other review stays.\<close>

lemma append_reasoning_lists:
  assumes "append_reasoning review concern reasoning f = Inr (r, f')"
  shows "list_reasoning repr f' review = bind_r (list_reasoning repr f review) (\<lambda>rs. Inr (rs @ [r])) \<and>
    (\<forall>other. other \<noteq> review \<longrightarrow> list_reasoning repr f' other = list_reasoning repr f other)"
proof -
  obtain payload reviews entry entries where
    read: "read_object empty_log f = Inr payload" and revs: "get_default (JObj []) ''reviews'' payload = JObj reviews"
    and entry: "get_default (JObj [(''entries'', JArr [])]) review reviews = JObj entry"
    and entries: "get_default (JArr []) ''entries'' entry = JArr entries"
    and r: "r = \<lparr>ar_concern = py_strip concern, ar_reasoning = py_strip reasoning, ar_sequence = int (length entries) + 1\<rparr>"
    and f': "f' = write_object (dict_set ''reviews'' (JObj (dict_set review (JObj (dict_set ''entries''
        (JArr (entries @ [reasoning_json r])) (snd (setdefault ''entries'' (JArr []) entry))))
      (snd (setdefault review (JObj [(''entries'', JArr [])]) reviews)))) (snd (setdefault ''reviews'' (JObj []) payload)))"
    using assms by (rule append_run)
  have "list_reasoning repr f review = map_r (reasoning_of_json repr) entries"
    using read revs entry entries
    by (cases "map_of reviews review") (auto simp: list_reasoning_def get_default_def)
  moreover have "reasoning_of_json repr (reasoning_json r) = Inr r"
    by (simp add: reasoning_of_json_def reasoning_json_def)
  ultimately have "list_reasoning repr f' review = bind_r (list_reasoning repr f review) (\<lambda>rs. Inr (rs @ [r]))"
    by (simp add: list_reasoning_def f' get_default_dict_set map_r_append)
  moreover have "list_reasoning repr f' other = list_reasoning repr f other" if "other \<noteq> review" for other
    using that read revs by (simp add: list_reasoning_def f' get_default_dict_set get_default_setdefault)
  ultimately show ?thesis by blast
qed

text \<open>A summary replaces the earlier ones of its job and comes last.\<close>

lemma append_review_summary_replaces:
  assumes "append_review_summary now payload f = Inr f'" and "list_review_summaries f = Inr old"
  shows "list_review_summaries f' =
    Inr (filter (\<lambda>s. job_of (JObj s) \<noteq> job_of (JObj (dict_set ''created_at'' (JStr now) payload))) old @
         [dict_set ''created_at'' (JStr now) payload])"
proof -
  let ?new = "dict_set ''created_at'' (JStr now) payload"
  from assms(1) obtain top summaries where top: "read_object empty_log f = Inr top"
    and ss: "get_default (JArr []) ''review_summaries'' top = JArr summaries"
    and f': "f' = write_object (dict_set ''review_summaries''
      (JArr (filter (\<lambda>item. \<not> is_obj item \<or> job_of item \<noteq> job_of (JObj ?new)) summaries @ [JObj ?new]))
      (snd (setdefault ''review_summaries'' (JArr []) top)))"
  proof -
    have list: "require_list v = Inr xs \<longleftrightarrow> v = JArr xs" for v xs by (cases v) auto
    from assms(1) that show thesis
      unfolding append_review_summary_def Let_def
      by (subst (asm) setdefault_eq) (auto simp: bind_r_Inr list)
  qed
  have eq: "map_r require_dict xs = Inr ys \<longleftrightarrow> xs = map JObj ys" for xs ys
  proof (induction xs arbitrary: ys)
    case (Cons x xs)
    then show ?case by (cases ys) (auto simp: bind_r_Inr require_dict_Inr)
  qed auto
  from assms(2) top ss have "summaries = map JObj old" by (simp add: list_review_summaries_def eq)
  then show ?thesis
    by (simp add: list_review_summaries_def f' get_default_dict_set eq filter_map comp_def)
qed

end
