(* ===== verification/Agent_Protocols.thy ===== *)
theory Agent_Protocols
  imports Agent_Surfaces
begin

text \<open>
  The protocols over the core of the agent surfaces: the tools of \<open>mcp_server.py\<close>, the actions of \<open>acp.py\<close>, the
  tasks of \<open>a2a.py\<close>, the JSON commands of \<open>cli_json.py\<close>, the loop over standard input
  (\<open>runner/cli/agent_surface_io.py\<close>) and the command \<open>reviewer review\<close> (\<open>runner/cli/review.py\<close>).  The lemmas
  show that the protocols answer alike, that a session answers every line, and which exit code a review gets.
  \<open>argparse\<close> and the JSON parser are parameters.
\<close>

section \<open>The protocols\<close>

text \<open>Pydantic's validation of the request arguments (the text of its error, or the request), the text of its
  error for an empty message, the request's JSON schema, and Python's \<open>repr\<close>.\<close>

record surface_env =
  sv_validate :: "obj \<Rightarrow> string + agent_review_request"
  sv_empty_message :: string
  sv_schema :: json
  sv_repr :: "json \<Rightarrow> string"

definition required_string :: "obj \<Rightarrow> string \<Rightarrow> surface_exn + string" where
  "required_string arguments key =
     (case map_of arguments key of
        None \<Rightarrow> Inl (Raised KeyError key)
      | Some (JStr (c # cs)) \<Rightarrow> Inr (c # cs)
      | Some _ \<Rightarrow> Inl (Raised ValueError (key @ '' must be a non-empty string'')))"

definition dumped :: "('a \<Rightarrow> 'b) \<Rightarrow> ('s, 'a) sact \<Rightarrow> ('s, 'b) sact" where
  "dumped dump call s = map_option (apfst (map_sum id dump)) (call s)"

text \<open>\<open>_call_tool\<close>, \<open>_call_action\<close> and \<open>_call_command\<close> differ in the text for an unknown name only.\<close>

definition dispatch :: "string \<Rightarrow> surface_env \<Rightarrow> 's backend \<Rightarrow> string \<Rightarrow> obj \<Rightarrow> ('s, json) sact" where
  "dispatch unknown sv be name arguments s =
     (if name = ''review_pull_request''
      then (case sv_validate sv arguments of
              Inl msg \<Rightarrow> Some (Inl (Raised ValueError msg), s)
            | Inr request \<Rightarrow> dumped review_dump (core_review_pull_request be request) s)
      else if name = ''list_findings''
      then (case required_string arguments ''review_id'' of
              Inl e \<Rightarrow> Some (Inl e, s)
            | Inr review_id \<Rightarrow> dumped (\<lambda>fs. JArr (map finding_dump fs)) (core_list_findings be review_id) s)
      else if name = ''list_remediation_prompts''
      then (case required_string arguments ''review_id'' of
              Inl e \<Rightarrow> Some (Inl e, s)
            | Inr review_id \<Rightarrow> dumped (\<lambda>ps. JArr (map prompt_dump ps)) (core_list_remediation_prompts be review_id) s)
      else Some (Inl (Raised ValueError (unknown @ name)), s))"

definition acp_command :: "surface_env \<Rightarrow> 's backend \<Rightarrow> string \<Rightarrow> obj \<Rightarrow> ('s, json) sact" where
  "acp_command = dispatch ''unknown ACP action: ''"

definition a2a_command :: "surface_env \<Rightarrow> 's backend \<Rightarrow> string \<Rightarrow> obj \<Rightarrow> ('s, json) sact" where
  "a2a_command = dispatch ''unknown A2A command: ''"

text \<open>The result model of each surface: \<open>model_dump(exclude_none=True)\<close>.  The error branch raises itself when the
  error has no text.\<close>

definition result_payload :: "surface_env \<Rightarrow> surface_exn + json \<Rightarrow> surface_exn + (string \<times> json)" where
  "result_payload sv r =
     (case r of
        Inr result \<Rightarrow> Inr (''ok'', JObj [(''status'', JStr ''ok''), (''result'', result)])
      | Inl (Refusal code msg action) \<Rightarrow>
          Inr (''refused'', JObj [(''status'', JStr ''refused''), (''refusal'', as_payload code msg action)])
      | Inl (Raised e msg) \<Rightarrow>
          (case agent_surface_error_payload e msg of
             Some err \<Rightarrow> Inr (''error'', JObj [(''status'', JStr ''error''), (''error'', err)])
           | None \<Rightarrow> Inl (Raised ValueError (sv_empty_message sv))))"

definition answered :: "surface_env \<Rightarrow> ('s, json) sact \<Rightarrow> ('s, string \<times> json) sact" where
  "answered sv call s = map_option (apfst (result_payload sv)) (call s)"

definition call_tool :: "surface_env \<Rightarrow> 's backend \<Rightarrow> string \<Rightarrow> obj \<Rightarrow> ('s, json) sact" where
  "call_tool sv be name arguments = dumped snd (answered sv (dispatch ''unknown MCP tool: '' sv be name arguments))"

definition call_action :: "surface_env \<Rightarrow> 's backend \<Rightarrow> string \<Rightarrow> obj \<Rightarrow> ('s, json) sact" where
  "call_action sv be name arguments = dumped snd (answered sv (acp_command sv be name arguments))"

definition tool_entry :: "string \<Rightarrow> string \<Rightarrow> json \<Rightarrow> json" where
  "tool_entry name description schema =
     JObj [(''name'', JStr name), (''description'', JStr description), (''input_schema'', schema)]"

definition review_id_schema :: json where
  "review_id_schema =
     JObj [(''type'', JStr ''object''),
           (''properties'', JObj [(''review_id'', JObj [(''type'', JStr ''string''), (''minLength'', JInt 1)])]),
           (''required'', JArr [JStr ''review_id'']), (''additionalProperties'', JBool False)]"

definition list_tools :: "surface_env \<Rightarrow> json list" where
  "list_tools sv =
     [tool_entry ''review_pull_request'' ''Start a PR review and return the review, findings and remediation prompts.'' (sv_schema sv),
      tool_entry ''list_findings'' ''List findings for a review id.'' review_id_schema,
      tool_entry ''list_remediation_prompts'' ''List remediation prompts for a review id.'' review_id_schema]"

definition list_actions :: "surface_env \<Rightarrow> json list" where
  "list_actions = list_tools"

text \<open>The call the two tool protocols share: \<open>params\<close> must be an object with a name and arguments.\<close>

definition call_params :: "json \<Rightarrow> string \<Rightarrow> string + (string \<times> obj)" where
  "call_params params method =
     (case params of
        JObj kvs \<Rightarrow>
          (case (get_default JNull ''name'' kvs, get_default (JObj []) ''arguments'' kvs) of
             (JStr name, JObj arguments) \<Rightarrow> Inr (name, arguments)
           | _ \<Rightarrow> Inl (method @ '' requires name and arguments''))
      | _ \<Rightarrow> Inl (method @ '' params must be an object''))"

definition json_rpc_error :: "json \<Rightarrow> int \<Rightarrow> string \<Rightarrow> json" where
  "json_rpc_error request_id code msg =
     JObj [(''jsonrpc'', JStr ''2.0''), (''id'', request_id), (''error'', JObj [(''code'', JInt code), (''message'', JStr msg)])]"

definition json_rpc_result :: "json \<Rightarrow> json \<Rightarrow> json" where
  "json_rpc_result request_id result = JObj [(''jsonrpc'', JStr ''2.0''), (''id'', request_id), (''result'', result)]"

definition mcp_handle_json_rpc :: "surface_env \<Rightarrow> 's backend \<Rightarrow> obj \<Rightarrow> ('s, json) sact" where
  "mcp_handle_json_rpc sv be payload s =
     (let request_id = get_default JNull ''id'' payload; rpc_method = get_default JNull ''method'' payload
      in if rpc_method = JStr ''tools/list''
         then Some (Inr (json_rpc_result request_id (JObj [(''tools'', JArr (list_tools sv))])), s)
         else if rpc_method = JStr ''tools/call''
         then (case call_params (get_default JNull ''params'' payload) ''tools/call'' of
                 Inl msg \<Rightarrow> Some (Inr (json_rpc_error request_id (- 32602) msg), s)
               | Inr (name, arguments) \<Rightarrow> dumped (json_rpc_result request_id) (call_tool sv be name arguments) s)
         else Some (Inr (json_rpc_error request_id (- 32602) (''unknown method: '' @ py_str (sv_repr sv) rpc_method)), s))"

definition message_error :: "json \<Rightarrow> string \<Rightarrow> json" where
  "message_error request_id msg =
     JObj [(''id'', request_id), (''error'', JObj [(''code'', JStr ''invalid_request''), (''message'', JStr msg)])]"

definition initialize :: "surface_env \<Rightarrow> json" where
  "initialize sv = JObj [(''protocol'', JStr ''acp''), (''version'', JStr ''1''), (''actions'', JArr (list_actions sv))]"

definition handle_message :: "surface_env \<Rightarrow> 's backend \<Rightarrow> obj \<Rightarrow> ('s, json) sact" where
  "handle_message sv be payload s =
     (let request_id = get_default JNull ''id'' payload; rpc_method = get_default JNull ''method'' payload
      in if rpc_method = JStr ''initialize'' then Some (Inr (JObj [(''id'', request_id), (''result'', initialize sv)]), s)
         else if rpc_method = JStr ''actions/list''
         then Some (Inr (JObj [(''id'', request_id), (''result'', JObj [(''actions'', JArr (list_actions sv))])]), s)
         else if rpc_method = JStr ''actions/call''
         then (case call_params (get_default JNull ''params'' payload) ''actions/call'' of
                 Inl msg \<Rightarrow> Some (Inr (message_error request_id msg), s)
               | Inr (name, arguments) \<Rightarrow>
                   dumped (\<lambda>r. JObj [(''id'', request_id), (''result'', r)]) (call_action sv be name arguments) s)
         else Some (Inr (message_error request_id (''unknown method: '' @ py_str (sv_repr sv) rpc_method)), s))"

subsection \<open>Agent2Agent\<close>

definition message_parts :: "obj \<Rightarrow> surface_exn + json list" where
  "message_parts msg =
     (case get_default (get_default JNull ''content'' msg) ''parts'' msg of
        JArr parts \<Rightarrow> Inr parts
      | _ \<Rightarrow> Inl (Raised ValueError ''message must include parts''))"

definition part_request :: "json \<Rightarrow> (string \<times> obj) option" where
  "part_request part =
     (case part of
        JObj kvs \<Rightarrow>
          (case (get_default (get_default JNull ''type'' kvs) ''kind'' kvs, get_default JNull ''data'' kvs) of
             (JStr kind, JObj data) \<Rightarrow>
               if kind = ''data''
               then (case (get_default JNull ''command'' data, get_default (JObj []) ''arguments'' data) of
                       (JStr command, JObj arguments) \<Rightarrow> Some (command, arguments)
                     | _ \<Rightarrow> None)
               else None
           | _ \<Rightarrow> None)
      | _ \<Rightarrow> None)"

fun first_request :: "json list \<Rightarrow> surface_exn + (string \<times> obj)" where
  "first_request [] = Inl (Raised ValueError ''message must include a data part with command and arguments'')"
| "first_request (part # parts) = (case part_request part of Some r \<Rightarrow> Inr r | None \<Rightarrow> first_request parts)"

definition request_from_message :: "obj \<Rightarrow> surface_exn + (string \<times> obj)" where
  "request_from_message msg = (case message_parts msg of Inl e \<Rightarrow> Inl e | Inr parts \<Rightarrow> first_request parts)"

definition message_id :: "obj \<Rightarrow> string option" where
  "message_id msg = (case get_default JNull ''messageId'' msg of JStr (c # cs) \<Rightarrow> Some (c # cs) | _ \<Rightarrow> None)"

definition task_id :: "obj \<Rightarrow> json \<Rightarrow> string" where
  "task_id msg payload =
     (case json_get (json_get payload ''result'') ''review_id'' of
        JStr review_id \<Rightarrow> review_id
      | _ \<Rightarrow> (case message_id msg of Some i \<Rightarrow> ''review-request-'' @ i | None \<Rightarrow> ''review-request''))"

definition task :: "surface_env \<Rightarrow> obj \<Rightarrow> string \<Rightarrow> json \<Rightarrow> json" where
  "task sv msg state payload =
     (let i = task_id msg payload; context = get_default JNull ''contextId'' msg
      in JObj [(''id'', JStr i), (''contextId'', JStr (if json_truthy context then py_str (sv_repr sv) context else i)),
               (''status'', JObj [(''state'', JStr state)]),
               (''artifacts'', JArr [JObj [(''artifactId'', JStr (i @ ''-result'')), (''name'', JStr ''review-result''),
                  (''parts'', JArr [JObj [(''kind'', JStr ''data''), (''data'', payload)]])]]),
               (''history'', JArr (if message_id msg = None then [] else [JObj msg]))])"

definition task_state :: "string \<Rightarrow> string" where
  "task_state status = (if status = ''ok'' then ''completed'' else if status = ''refused'' then ''rejected'' else ''failed'')"

definition call_message :: "surface_env \<Rightarrow> 's backend \<Rightarrow> obj \<Rightarrow> ('s, json) sact" where
  "call_message sv be msg s =
     (case request_from_message msg of
        Inl e \<Rightarrow> Some (Inl e, s)
      | Inr (command, arguments) \<Rightarrow> a2a_command sv be command arguments s)"

definition handle_message_send :: "surface_env \<Rightarrow> 's backend \<Rightarrow> obj \<Rightarrow> ('s, json) sact" where
  "handle_message_send sv be params s =
     (case get_default JNull ''message'' params of
        JObj msg \<Rightarrow> dumped (\<lambda>(status, payload). task sv msg (task_state status) payload) (answered sv (call_message sv be msg)) s
      | _ \<Rightarrow> Some (Inl (Raised ValueError ''message/send requires a message object''), s))"

definition agent_card :: "string \<Rightarrow> json" where
  "agent_card url =
     JObj [(''protocolVersion'', JStr ''0.3.0''), (''name'', JStr ''PR Reviewer''),
           (''description'', JStr ''Reviews GitHub pull requests and returns findings with remediation prompts.''),
           (''url'', JStr url), (''preferredTransport'', JStr ''JSONRPC''), (''version'', JStr ''1.0.0''),
           (''capabilities'', JObj [(''streaming'', JBool False), (''pushNotifications'', JBool False),
              (''stateTransitionHistory'', JBool False)]),
           (''defaultInputModes'', JArr [JStr ''application/json'']), (''defaultOutputModes'', JArr [JStr ''application/json'']),
           (''skills'', JArr [JObj [(''id'', JStr ''pr-review''), (''name'', JStr ''Pull request review''),
              (''description'', JStr ''Start a review or fetch findings and remediation prompts.''),
              (''inputModes'', JArr [JStr ''application/json'']), (''outputModes'', JArr [JStr ''application/json'']),
              (''tags'', JArr [JStr ''github'', JStr ''pull-request'', JStr ''review''])]])]"

text \<open>A \<open>ValueError\<close> that leaves the handling of a message is reported as invalid parameters.\<close>

definition rpc_reply :: "json \<Rightarrow> surface_exn + json \<Rightarrow> surface_exn + json" where
  "rpc_reply request_id r =
     (case r of
        Inr t \<Rightarrow> Inr (json_rpc_result request_id t)
      | Inl (Raised e msg) \<Rightarrow> if is_value_error e then Inr (json_rpc_error request_id (- 32602) msg) else Inl (Raised e msg)
      | Inl (Refusal c m a) \<Rightarrow> Inl (Refusal c m a))"

definition a2a_handle_json_rpc :: "surface_env \<Rightarrow> string \<Rightarrow> 's backend \<Rightarrow> obj \<Rightarrow> ('s, json) sact" where
  "a2a_handle_json_rpc sv url be payload s =
     (let request_id = get_default JNull ''id'' payload; rpc_method = get_default JNull ''method'' payload
      in if rpc_method = JStr ''message/send''
         then (case get_default JNull ''params'' payload of
                 JObj params \<Rightarrow> map_option (apfst (rpc_reply request_id)) (handle_message_send sv be params s)
               | _ \<Rightarrow> Some (Inr (json_rpc_error request_id (- 32602) ''message/send params must be an object''), s))
         else if rpc_method = JStr ''agent/getAuthenticatedExtendedCard''
         then Some (Inr (json_rpc_result request_id (agent_card url)), s)
         else Some (Inr (json_rpc_error request_id (- 32601) (''unknown method: '' @ py_str (sv_repr sv) rpc_method)), s))"

subsection \<open>JSON commands\<close>

text \<open>What \<open>argparse\<close> makes of the arguments; an error of the parser is a \<open>ValueError\<close> with its text.\<close>

datatype cli_command = Cli_Review string string int | Cli_Findings string | Cli_Prompts string

definition cli_run :: "surface_env \<Rightarrow> (string list \<Rightarrow> string + cli_command) \<Rightarrow> 's backend \<Rightarrow> string list \<Rightarrow> ('s, json) sact" where
  "cli_run sv parse be argv s =
     (case parse argv of
        Inl msg \<Rightarrow> Some (Inl (Raised ValueError msg), s)
      | Inr (Cli_Review owner repository number) \<Rightarrow>
          (case sv_validate sv [(''owner'', JStr owner), (''repository'', JStr repository), (''pull_request'', JInt number)] of
             Inl msg \<Rightarrow> Some (Inl (Raised ValueError msg), s)
           | Inr request \<Rightarrow> dumped review_dump (core_review_pull_request be request) s)
      | Inr (Cli_Findings review_id) \<Rightarrow> dumped (\<lambda>fs. JArr (map finding_dump fs)) (core_list_findings be review_id) s
      | Inr (Cli_Prompts review_id) \<Rightarrow> dumped (\<lambda>ps. JArr (map prompt_dump ps)) (core_list_remediation_prompts be review_id) s)"

definition cli_exit :: "string \<Rightarrow> int" where
  "cli_exit status = (if status = ''ok'' then 0 else if status = ''refused'' then 2 else 1)"

text \<open>The exit code and the document that is printed.\<close>

definition cli_main :: "surface_env \<Rightarrow> (string list \<Rightarrow> string + cli_command) \<Rightarrow> 's backend \<Rightarrow> string list \<Rightarrow> ('s, int \<times> json) sact" where
  "cli_main sv parse be argv s =
     map_option (apfst (map_sum id (\<lambda>(status, payload). (cli_exit status, payload)))) (answered sv (cli_run sv parse be argv) s)"

section \<open>The loop over standard input\<close>

definition parse_error_reply :: json where
  "parse_error_reply = json_rpc_error JNull (- 32700) ''invalid JSON''"

definition invalid_request_reply :: json where
  "invalid_request_reply = json_rpc_error JNull (- 32600) ''request must be a JSON object''"

definition answer_line :: "(string \<Rightarrow> json option) \<Rightarrow> (obj \<Rightarrow> ('s, json) sact) \<Rightarrow> string \<Rightarrow> ('s, json) sact" where
  "answer_line loads handle line s =
     (case loads line of
        None \<Rightarrow> Some (Inr parse_error_reply, s)
      | Some (JObj request) \<Rightarrow> handle request s
      | Some _ \<Rightarrow> Some (Inr invalid_request_reply, s))"

text \<open>The replies written so far, and how the loop ended: none for a loop that never ends, an exception, or the
  end of the input.\<close>

fun run_jsonrpc_stdio_loop ::
  "(string \<Rightarrow> json option) \<Rightarrow> (obj \<Rightarrow> ('s, json) sact) \<Rightarrow> string list \<Rightarrow> 's \<Rightarrow> json list \<times> ((surface_exn + unit) \<times> 's) option" where
  "run_jsonrpc_stdio_loop loads handle [] s = ([], Some (Inr (), s))"
| "run_jsonrpc_stdio_loop loads handle (line # rest) s =
     (if py_strip line = [] then run_jsonrpc_stdio_loop loads handle rest s
      else case answer_line loads handle (py_strip line) s of
             None \<Rightarrow> ([], None)
           | Some (Inl e, s') \<Rightarrow> ([], Some (Inl e, s'))
           | Some (Inr reply, s') \<Rightarrow> apfst (Cons reply) (run_jsonrpc_stdio_loop loads handle rest s'))"

section \<open>The review command\<close>

definition ref_char :: "char \<Rightarrow> bool" where
  "ref_char c \<longleftrightarrow> c \<noteq> CHR ''/'' \<and> c \<noteq> CHR ''#''"

text \<open>The pattern \<open>^[^/#]+/[^/#]+#\d+$\<close>; its end also matches before a final line feed.\<close>

definition parse_ref :: "(string \<Rightarrow> string) \<Rightarrow> string \<Rightarrow> string + (string \<times> string \<times> int)" where
  "parse_ref quote raw =
     (let owner = takeWhile ref_char raw; after_owner = dropWhile ref_char raw;
          repository = takeWhile ref_char (drop 1 after_owner); after_repository = dropWhile ref_char (drop 1 after_owner);
          number = takeWhile is_digit (drop 1 after_repository); tail = dropWhile is_digit (drop 1 after_repository)
      in if owner \<noteq> [] \<and> startswith after_owner ''/'' \<and> repository \<noteq> [] \<and> startswith after_repository ''#'' \<and> number \<noteq> [] \<and>
            (tail = [] \<or> tail = [newline])
         then Inr (owner, repository, int (read_nat number))
         else Inl (''expected owner/repo#pr, got '' @ quote raw))"

definition review_argv :: "string \<Rightarrow> string \<Rightarrow> int \<Rightarrow> string list" where
  "review_argv owner repository number =
     [''review'', ''--owner'', owner, ''--repository'', repository, ''--pull-request'', show_int number]"

definition review_exit :: "string \<Rightarrow> json \<Rightarrow> int" where
  "review_exit status payload =
     (if status = ''refused'' then 2
      else if status \<noteq> ''ok'' then 3
      else if json_truthy (json_get (json_get payload ''result'') ''findings'') then 1 else 0)"

definition review_command :: "surface_env \<Rightarrow> (string \<Rightarrow> string) \<Rightarrow> (string list \<Rightarrow> string + cli_command) \<Rightarrow> 's backend \<Rightarrow> string
    \<Rightarrow> ('s, int \<times> string \<times> json) sact" where
  "review_command sv quote parse be raw s =
     map_option (apfst (map_sum id (\<lambda>(status, payload). (review_exit status payload, status, payload))))
       (answered sv (\<lambda>s. case parse_ref quote raw of
           Inl msg \<Rightarrow> Some (Inl (Raised ValueError msg), s)
         | Inr (owner, repository, number) \<Rightarrow> cli_run sv parse be (review_argv owner repository number) s) s)"

text \<open>The summary for a reader: what goes to standard output and to standard error.\<close>

definition finding_line :: "surface_env \<Rightarrow> json \<Rightarrow> string" where
  "finding_line sv f =
     (let get = (\<lambda>k. py_str (sv_repr sv) (json_get f k))
      in ''  ['' @ get ''severity'' @ ''] '' @ get ''title'' @ '' ('' @ get ''file_path'' @ '':'' @ get ''line_start'' @ ''-'' @ get ''line_end'' @
         '') ['' @ (if json_truthy (json_get f ''verified'') then ''verified'' else ''asserted'') @ '']'')"

definition print_review_result :: "surface_env \<Rightarrow> json \<Rightarrow> string list" where
  "print_review_result sv result =
     (let get = (\<lambda>k. py_str (sv_repr sv) (json_get result k));
          findings = (case json_get result ''findings'' of JArr fs \<Rightarrow> fs | _ \<Rightarrow> [])
      in (''Review '' @ get ''review_id'' @ '' for '' @ get ''owner'' @ ''/'' @ get ''repository'' @ ''#'' @ get ''pull_request'' @
          '' (head '' @ get ''head_sha'' @ ''): status='' @ get ''status'') #
         (if findings = [] then [''No findings.'']
          else (show_nat (length findings) @ '' finding(s):'') # map (finding_line sv) findings))"

definition print_human_summary :: "surface_env \<Rightarrow> string \<Rightarrow> json \<Rightarrow> string list \<times> string list" where
  "print_human_summary sv status payload =
     (let text_of = (\<lambda>part dflt. case json_get payload part of
                       JObj kvs \<Rightarrow> py_str (sv_repr sv) (get_default (JStr dflt) ''message'' kvs)
                     | _ \<Rightarrow> dflt)
      in if status = ''refused'' then ([], [''Review refused: '' @ text_of ''refusal'' ''unknown reason''])
         else if status = ''error'' then ([], [''Review failed: '' @ text_of ''error'' ''unknown error''])
         else (case json_get payload ''result'' of
                 JObj kvs \<Rightarrow> (print_review_result sv (JObj kvs), [])
               | _ \<Rightarrow> ([''Review completed.''], [])))"

section \<open>The protocols answer alike\<close>

definition surface_commands :: "string list" where
  "surface_commands = [''review_pull_request'', ''list_findings'', ''list_remediation_prompts'']"

definition payload_status :: "json \<Rightarrow> string" where
  "payload_status payload = (case json_get payload ''status'' of JStr st \<Rightarrow> st | _ \<Rightarrow> [])"

text \<open>The tool a command of the command line stands for.\<close>

fun tool_of :: "cli_command \<Rightarrow> string \<times> obj" where
  "tool_of (Cli_Review owner repository number) =
     (''review_pull_request'', [(''owner'', JStr owner), (''repository'', JStr repository), (''pull_request'', JInt number)])"
| "tool_of (Cli_Findings review_id) = (''list_findings'', [(''review_id'', JStr review_id)])"
| "tool_of (Cli_Prompts review_id) = (''list_remediation_prompts'', [(''review_id'', JStr review_id)])"

fun names_review :: "cli_command \<Rightarrow> bool" where
  "names_review (Cli_Review owner repository number) = True"
| "names_review (Cli_Findings review_id) = (review_id \<noteq> [])"
| "names_review (Cli_Prompts review_id) = (review_id \<noteq> [])"

lemma dispatch_known: "name \<in> set surface_commands \<Longrightarrow> dispatch u sv be name arguments = dispatch v sv be name arguments"
  by (rule ext) (auto simp: dispatch_def surface_commands_def)

lemma result_payload_status: "result_payload sv r = Inr (st, payload) \<Longrightarrow> payload_status payload = st"
  by (auto simp: result_payload_def payload_status_def split: sum.splits surface_exn.splits option.splits)

lemma map_result_payload:
  "map_sum id (\<lambda>(st, payload). g st payload) (result_payload sv r) =
   map_sum id (\<lambda>payload. g (payload_status payload) payload) (map_sum id snd (result_payload sv r))"
  by (cases "result_payload sv r") (auto simp: result_payload_status)

lemma answered_via_tool:
  assumes "name \<in> set surface_commands" and "\<And>s. call s = dispatch u sv be name arguments s"
  shows "dumped (\<lambda>(st, payload). g st payload) (answered sv call) s =
    dumped (\<lambda>payload. g (payload_status payload) payload) (call_tool sv be name arguments) s"
proof -
  have eq: "call s = dispatch ''unknown MCP tool: '' sv be name arguments s"
    using assms(2) dispatch_known [OF assms(1)] by metis
  show ?thesis
  proof (cases "dispatch ''unknown MCP tool: '' sv be name arguments s")
    case (Some p)
    then show ?thesis using map_result_payload [of g sv "fst p"]
      by (cases p) (simp add: dumped_def answered_def call_tool_def eq)
  qed (simp add: dumped_def answered_def call_tool_def eq)
qed

lemma cli_run_dispatch:
  assumes "parse argv = Inr command" and "names_review command" and "tool_of command = (name, arguments)"
  shows "name \<in> set surface_commands \<and> cli_run sv parse be argv s = dispatch u sv be name arguments s"
proof -
  have eq: "name = fst (tool_of command)" "arguments = snd (tool_of command)" using assms(3) by simp_all
  show ?thesis
  proof (cases command)
    case (Cli_Review owner repository number)
    with assms(1) eq show ?thesis by (simp add: cli_run_def dispatch_def surface_commands_def)
  next
    case (Cli_Findings review_id)
    with assms(1,2) eq show ?thesis
      by (cases review_id) (simp_all add: cli_run_def dispatch_def surface_commands_def required_string_def)
  next
    case (Cli_Prompts review_id)
    with assms(1,2) eq show ?thesis
      by (cases review_id) (simp_all add: cli_run_def dispatch_def surface_commands_def required_string_def)
  qed
qed


text \<open>Without a connection to GitHub every well-formed command is refused and nothing else happens.\<close>

lemma unconnected_is_refused:
  assumes "\<not> gc_connected (be_connection be s)"
    and "name = ''list_findings'' \<or> name = ''list_remediation_prompts''" and "required_string arguments ''review_id'' = Inr i"
  shows "\<exists>msg. call_tool sv be name arguments s =
    Some (Inr (JObj [(''status'', JStr ''refused''),
      (''refusal'', as_payload ''github_not_connected'' msg (Some ''Connect GitHub, then retry the request.''))]), s)"
  using assms
  by (auto simp: call_tool_def dumped_def answered_def dispatch_def core_list_findings_def core_list_remediation_prompts_def
      guarded_def require_github_def result_payload_def Let_def)

lemma unconnected_review_is_refused:
  assumes "\<not> gc_connected (be_connection be s)" and "sv_validate sv arguments = Inr request"
  shows "\<exists>msg. call_tool sv be ''review_pull_request'' arguments s =
    Some (Inr (JObj [(''status'', JStr ''refused''),
      (''refusal'', as_payload ''github_not_connected'' msg (Some ''Connect GitHub, then retry the request.''))]), s)"
  using assms
  by (simp add: call_tool_def dumped_def answered_def dispatch_def core_review_pull_request_def guarded_def require_github_def
      result_payload_def Let_def) (intro exI, rule refl)

text \<open>The text of an exception reaches the client only when it is a \<open>ValueError\<close>.\<close>

lemma error_text_hidden:
  "\<not> is_value_error e \<Longrightarrow> agent_surface_error_payload e msg = agent_surface_error_payload e msg'"
  by (simp add: agent_surface_error_payload_def agent_surface_error_from_exception_def)

section \<open>A session answers every line\<close>

text \<open>A backend that returns, and whose \<open>ValueError\<close>s have a text.\<close>

fun text_ok :: "surface_exn + 'a \<Rightarrow> bool" where
  "text_ok (Inl (Raised e msg)) = (is_value_error e \<longrightarrow> msg \<noteq> [])"
| "text_ok _ = True"

definition answers :: "('s, 'a) sact \<Rightarrow> bool" where
  "answers call \<longleftrightarrow> (\<forall>s. \<exists>r s'. call s = Some (r, s') \<and> text_ok r)"

definition backend_answers :: "'s backend \<Rightarrow> bool" where
  "backend_answers be \<longleftrightarrow> (\<forall>request. answers (be_start be request)) \<and> (\<forall>i. answers (be_findings be i)) \<and> (\<forall>i. answers (be_prompts be i))"

text \<open>Pydantic's errors have a text.\<close>

definition refusals_explained :: "surface_env \<Rightarrow> bool" where
  "refusals_explained sv \<longleftrightarrow> (\<forall>arguments msg. sv_validate sv arguments = Inl msg \<longrightarrow> msg \<noteq> [])"

definition replies :: "('s, 'a) sact \<Rightarrow> bool" where
  "replies call \<longleftrightarrow> (\<forall>s. \<exists>reply s'. call s = Some (Inr reply, s'))"

lemma answersE:
  assumes "answers call"
  obtains r s' where "call s = Some (r, s')" "text_ok r"
  using assms unfolding answers_def by blast

lemma answersI: "(\<And>s. \<exists>r s'. call s = Some (r, s') \<and> text_ok r) \<Longrightarrow> answers call"
  by (simp add: answers_def)

lemma text_ok_map [simp]: "text_ok (map_sum id f r) = text_ok r"
  by (cases r rule: text_ok.cases) simp_all

lemma guarded_answers: "answers call \<Longrightarrow> answers (guarded connection call)"
  by (simp add: answers_def guarded_def require_github_def Let_def)

lemma dumped_answers:
  assumes "answers call"
  shows "answers (dumped dump call)"
proof (rule answersI)
  fix s
  obtain r s' where "call s = Some (r, s')" "text_ok r" using assms by (rule answersE)
  then show "\<exists>r s'. dumped dump call s = Some (r, s') \<and> text_ok r" by (simp add: dumped_def)
qed

lemma error_payload_exists: "text_ok (Inl (Raised e msg)) \<Longrightarrow> \<exists>err. agent_surface_error_payload e msg = Some err"
  by (simp add: agent_surface_error_payload_def agent_surface_error_from_exception_def)

lemma answered_replies:
  assumes "answers call"
  shows "replies (answered sv call)"
  unfolding replies_def
proof
  fix s
  obtain r s' where r: "call s = Some (r, s')" "text_ok r" using assms by (rule answersE)
  have "\<exists>reply. result_payload sv r = Inr reply"
  proof (cases r rule: text_ok.cases)
    case (1 e msg)
    with r(2) error_payload_exists obtain err where "agent_surface_error_payload e msg = Some err" by blast
    with 1 show ?thesis by (simp add: result_payload_def)
  qed (simp_all add: result_payload_def)
  with r(1) show "\<exists>reply s'. answered sv call s = Some (Inr reply, s')" by (auto simp: answered_def)
qed

lemma dumped_replies: "replies call \<Longrightarrow> replies (dumped dump call)"
  by (fastforce simp: replies_def dumped_def)

lemma required_string_text: "text_ok (required_string arguments ''review_id'')"
  by (simp add: required_string_def is_value_error_def split: option.split json.split list.split)

lemma dispatch_answers:
  assumes "backend_answers be" and "refusals_explained sv"
  shows "answers (dispatch (c # unknown) sv be name arguments)"
proof -
  have ops: "answers (dumped review_dump (core_review_pull_request be request))"
    "answers (dumped (\<lambda>fs. JArr (map finding_dump fs)) (core_list_findings be i))"
    "answers (dumped (\<lambda>ps. JArr (map prompt_dump ps)) (core_list_remediation_prompts be i))" for request i
    using assms(1) unfolding backend_answers_def core_review_pull_request_def core_list_findings_def core_list_remediation_prompts_def
    by (blast intro: dumped_answers guarded_answers)+
  note ops = ops [unfolded answers_def, rule_format]
  have r: "text_ok (Inl e :: surface_exn + json)" if "required_string arguments ''review_id'' = Inl e" for e :: surface_exn
    using required_string_text [of arguments] that by (cases e) simp_all
  show ?thesis
  proof (rule answersI)
    fix s
    show "\<exists>r s'. dispatch (c # unknown) sv be name arguments s = Some (r, s') \<and> text_ok r"
      using ops r assms(2) [unfolded refusals_explained_def, rule_format, of arguments]
      by (cases "sv_validate sv arguments"; cases "required_string arguments ''review_id''") (simp_all add: dispatch_def)
  qed
qed

lemma request_from_message_text: "text_ok (map_sum id f (request_from_message msg))"
proof -
  have "text_ok (first_request parts)" for parts
    by (induction parts) (simp_all split: option.split)
  then show ?thesis by (simp add: request_from_message_def message_parts_def split: json.split)
qed

lemma repliesI: "(\<And>s. \<exists>reply s'. call s = Some (Inr reply, s')) \<Longrightarrow> replies call"
  by (simp add: replies_def)

lemma tool_replies:
  assumes "backend_answers be" and "refusals_explained sv"
  shows "replies (call_tool sv be name arguments)" and "replies (call_action sv be name arguments)"
  unfolding call_tool_def call_action_def acp_command_def
  by (rule dumped_replies answered_replies dispatch_answers assms)+

lemma call_message_answers:
  assumes "backend_answers be" and "refusals_explained sv"
  shows "answers (call_message sv be msg)"
proof (rule answersI)
  fix s
  show "\<exists>r s'. call_message sv be msg s = Some (r, s') \<and> text_ok r"
  proof (cases "request_from_message msg")
    case (Inl e)
    then show ?thesis using request_from_message_text [of "\<lambda>_. JNull" msg] by (cases e) (simp_all add: call_message_def a2a_command_def)
  next
    case (Inr r)
    obtain command arguments where "r = (command, arguments)" by fastforce
    with Inr dispatch_answers [OF assms, unfolded answers_def, rule_format] show ?thesis by (simp add: call_message_def a2a_command_def)
  qed
qed

text \<open>The three handlers of requests.\<close>

definition protocol_handlers :: "surface_env \<Rightarrow> string \<Rightarrow> 's backend \<Rightarrow> (obj \<Rightarrow> ('s, json) sact) set" where
  "protocol_handlers sv url be = {mcp_handle_json_rpc sv be, handle_message sv be, a2a_handle_json_rpc sv url be}"

lemma mcp_replies:
  assumes "backend_answers be" and "refusals_explained sv"
  shows "replies (mcp_handle_json_rpc sv be request)"
proof (rule repliesI)
  fix s
  note tool = dumped_replies [OF tool_replies(1) [OF assms], unfolded replies_def, rule_format]
  show "\<exists>reply s'. mcp_handle_json_rpc sv be request s = Some (Inr reply, s')"
    by (simp add: mcp_handle_json_rpc_def Let_def tool split: sum.split prod.split)
qed

lemma acp_replies:
  assumes "backend_answers be" and "refusals_explained sv"
  shows "replies (handle_message sv be request)"
proof (rule repliesI)
  fix s
  note act = dumped_replies [OF tool_replies(2) [OF assms], unfolded replies_def, rule_format]
  show "\<exists>reply s'. handle_message sv be request s = Some (Inr reply, s')"
    by (simp add: handle_message_def Let_def act split: sum.split prod.split)
qed

lemma a2a_replies:
  assumes "backend_answers be" and "refusals_explained sv"
  shows "replies (a2a_handle_json_rpc sv url be request)"
proof (rule repliesI)
  fix s
  have "\<exists>reply s'. map_option (apfst (rpc_reply i)) (handle_message_send sv be params s) = Some (Inr reply, s')" for i params
  proof (cases "\<exists>msg. get_default JNull ''message'' params = JObj msg")
    case True
    then obtain msg where msg: "get_default JNull ''message'' params = JObj msg" ..
    have "replies (dumped (\<lambda>(status, payload). task sv msg (task_state status) payload) (answered sv (call_message sv be msg)))"
      by (rule dumped_replies answered_replies call_message_answers assms)+
    then obtain reply s' where
      "dumped (\<lambda>(status, payload). task sv msg (task_state status) payload) (answered sv (call_message sv be msg)) s = Some (Inr reply, s')"
      unfolding replies_def by fast
    then show ?thesis by (simp add: handle_message_send_def msg rpc_reply_def)
  next
    case False
    then have "handle_message_send sv be params s = Some (Inl (Raised ValueError ''message/send requires a message object''), s)"
      by (simp add: handle_message_send_def split: json.split)
    then show ?thesis by (simp add: rpc_reply_def is_value_error_def)
  qed
  then show "\<exists>reply s'. a2a_handle_json_rpc sv url be request s = Some (Inr reply, s')"
    by (simp add: a2a_handle_json_rpc_def Let_def split: json.split)
qed

lemma loop_replies:
  assumes "\<And>request. replies (handle request)"
  shows "\<exists>out s'. run_jsonrpc_stdio_loop loads handle rest s = (out, Some (Inr (), s')) \<and>
    length out = length (filter (\<lambda>line. py_strip line \<noteq> []) rest)"
proof (induction rest arbitrary: s)
  case (Cons line rest)
  have "\<exists>reply t. answer_line loads handle l s = Some (Inr reply, t)" for l
    using assms unfolding replies_def by (simp add: answer_line_def split: option.split json.split)
  then obtain reply t where "answer_line loads handle (py_strip line) s = Some (Inr reply, t)" by blast
  with Cons [of t] Cons [of s] show ?case by auto
qed simp


definition sample_surface_env :: surface_env where
  "sample_surface_env = \<lparr>sv_validate = (\<lambda>_. Inl ''owner is required''), sv_empty_message = ''empty'', sv_schema = JObj [], sv_repr = (\<lambda>_. [])\<rparr>"

definition unset_env :: "nat live_env" where
  "unset_env = sample_live\<lparr>le_environ := (\<lambda>_. None)\<rparr>"

lemma unset_answers: "backend_answers (live_backend unset_env)"
  by (simp add: backend_answers_def answers_def live_backend_def live_start_def live_findings_def live_prompts_def existing_review_def
      resolve_model_provider_def env_set_def unset_env_def sample_live_def split: option.split)



section \<open>The review command\<close>

text \<open>A reference printed as \<open>owner/repository#number\<close> is read back.\<close>

lemma parse_ref_round_trip:
  assumes "owner \<noteq> []" and "repository \<noteq> []" and "\<forall>c \<in> set owner. ref_char c" and "\<forall>c \<in> set repository. ref_char c"
  shows "parse_ref quote (owner @ ''/'' @ repository @ ''#'' @ show_nat n) = Inr (owner, repository, int n)"
proof -
  have owner: "takeWhile ref_char (owner @ ''/'' @ rest) = owner" "dropWhile ref_char (owner @ ''/'' @ rest) = ''/'' @ rest" for rest
    using assms(3) by (simp_all add: takeWhile_append2 dropWhile_append2 ref_char_def)
  have repository: "takeWhile ref_char (repository @ ''#'' @ rest) = repository" "dropWhile ref_char (repository @ ''#'' @ rest) = ''#'' @ rest" for rest
    using assms(4) by (simp_all add: takeWhile_append2 dropWhile_append2 ref_char_def)
  have digits: "takeWhile is_digit (show_nat n) = show_nat n" "dropWhile is_digit (show_nat n) = []"
    using show_nat_digits by (auto simp: takeWhile_eq_all_conv dropWhile_eq_Nil_conv)
  from assms(1,2) owner [of "repository @ ''#'' @ show_nat n"] repository [of "show_nat n"] show ?thesis
    by (simp add: parse_ref_def Let_def startswith_def digits show_nat_digits)
qed

lemma dumped_Inr: "dumped f call s = Some (Inr y, s') \<longleftrightarrow> (\<exists>x. call s = Some (Inr x, s') \<and> y = f x)"
proof (cases "call s")
  case (Some p)
  then show ?thesis by (cases p; cases "fst p") (auto simp: dumped_def)
qed (simp add: dumped_def)

text \<open>The exit code of a review: 0 without findings, 1 with findings, 2 when refused, 3 otherwise.\<close>

theorem review_exit_code_exact:
  assumes "parse_ref quote raw = Inr (owner, repository, number)"
    and "parse (review_argv owner repository number) = Inr (Cli_Review owner repository number)"
    and "review_command sv quote parse be raw s = Some (Inr (code, status, payload), s')"
  shows "(code = 0 \<longleftrightarrow> (\<exists>review. cli_run sv parse be (review_argv owner repository number) s = Some (Inr (review_dump review), s') \<and> sr_findings review = [])) \<and>
    (code = 1 \<longleftrightarrow> (\<exists>review. cli_run sv parse be (review_argv owner repository number) s = Some (Inr (review_dump review), s') \<and> sr_findings review \<noteq> [])) \<and>
    (code = 2 \<longleftrightarrow> (\<exists>c m a. cli_run sv parse be (review_argv owner repository number) s = Some (Inl (Refusal c m a), s'))) \<and>
    (code = 3 \<longleftrightarrow> (\<exists>e m. cli_run sv parse be (review_argv owner repository number) s = Some (Inl (Raised e m), s')))"
proof -
  obtain r where run: "cli_run sv parse be (review_argv owner repository number) s = Some (r, s')"
    and payload: "result_payload sv r = Inr (status, payload)" and code: "code = review_exit status payload"
    using assms(1,3) by (cases "cli_run sv parse be (review_argv owner repository number) s")
      (auto simp: review_command_def answered_def map_sum_def split: sum.splits)
  have ok: "\<exists>review. r = Inr (review_dump review)" if "r = Inr result" for result
    using run assms(2) that by (auto simp: cli_run_def dumped_Inr split: sum.splits)
  have "review_exit ''ok'' (JObj [(''status'', JStr ''ok''), (''result'', review_dump review)]) = (if sr_findings review = [] then 0 else 1)" for review
    by (simp add: review_exit_def review_dump_def)
  then show ?thesis
    using run payload code ok
    by (cases r) (auto simp: result_payload_def review_exit_def review_dump_def split: surface_exn.splits option.splits)
qed

end
