(* ===== verification/Hosted_Ops.thy ===== *)
theory Hosted_Ops
  imports Job_Lifecycle Budgets Retry
begin

text \<open>
  The operator's side of the control plane: the check of the hosted schema against its allowlist
  (\<open>control_plane/boundary.py\<close>), the metrics (\<open>control_plane/ops.py\<close>), the declaration of notification
  channels (\<open>control_plane/notification_channels.py\<close>) and the migrations of the database
  (\<open>db/migrate.py\<close>, \<open>db/rebase_migration_checksum.py\<close>).  What a migration does to the database is a
  parameter; the results are that the schema check refuses exactly the columns it cannot account for, and that
  every migration is applied once, in order, however often the tool is run and wherever it stopped before.
\<close>

section \<open>The hosted boundary\<close>

text \<open>A column as \<open>information_schema\<close> lists it, with the type of its table.\<close>

record schema_column =
  sc_table_schema :: string
  sc_table_name :: string
  sc_column_name :: string
  sc_ordinal_position :: nat
  sc_data_type :: string
  sc_table_type :: string

definition auto_permit_types :: "string list" where
  "auto_permit_types = [''uuid'', ''timestamp with time zone'', ''integer'', ''bigint'', ''boolean'', ''numeric'']"

definition hosted_exemptions :: "string list" where
  "hosted_exemptions = []"

text \<open>The keys of the allowlist; the reasons are documentation.\<close>

definition allowlist :: "(string \<times> string) list" where
  "allowlist =
     [(''agent_events'', ''event_type''), (''agent_events'', ''payload''), (''github_deliveries'', ''id''),
      (''github_deliveries'', ''event_name''), (''installations'', ''account_login''), (''oauth_states'', ''state_hash''),
      (''oauth_states'', ''binding_hash''), (''oauth_states'', ''return_to''), (''oauth_states'', ''pairing_code_hash''),
      (''pairing_codes'', ''device_name''), (''pairing_codes'', ''code_hash''), (''pairing_codes'', ''challenge''),
      (''pairing_codes'', ''repository_ids''), (''model_calls'', ''provider''), (''model_calls'', ''model_name''),
      (''prompt_versions'', ''name''), (''prompt_versions'', ''version''), (''prompt_versions'', ''content''),
      (''repositories'', ''name''), (''review_jobs'', ''delivery_id''), (''review_jobs'', ''status''),
      (''review_jobs'', ''locked_by''), (''review_jobs'', ''last_error''), (''review_jobs'', ''base_sha''),
      (''review_jobs'', ''head_sha''), (''review_jobs'', ''policy_version''), (''review_jobs'', ''lease_token_hash''),
      (''runners'', ''device_name''), (''runners'', ''credential_hash''), (''runners'', ''mode''), (''runners'', ''platform''),
      (''runners'', ''version''), (''schema_migrations'', ''filename''), (''schema_migrations'', ''checksum''),
      (''connector_runs'', ''connector''), (''connector_runs'', ''operation''), (''connector_runs'', ''external_id''),
      (''connector_runs'', ''payload_hash''), (''notification_channels'', ''name''), (''notification_channels'', ''transport''),
      (''notification_channels'', ''confidentiality''), (''notification_channels'', ''purpose''),
      (''notification_channels'', ''endpoint_hash''), (''repository_budget_reservations'', ''status''),
      (''connector_circuits'', ''connector''), (''connector_circuits'', ''state''),
      (''connector_circuits'', ''last_error_kind''), (''review_findings'', ''id''), (''review_findings'', ''concern''),
      (''review_findings'', ''severity''), (''review_findings'', ''category''), (''review_findings'', ''file_path''),
      (''review_findings'', ''title''), (''review_findings'', ''rationale''), (''review_findings'', ''verification_method''),
      (''review_findings'', ''status''), (''review_findings'', ''verification_reason''),
      (''review_findings'', ''sandbox_run_id''), (''review_findings'', ''command_id''),
      (''review_findings'', ''verification_detail''), (''finding_context_sources'', ''finding_id''),
      (''finding_context_sources'', ''kind''), (''finding_context_sources'', ''name''),
      (''finding_context_sources'', ''reference'')]"

definition hosted_columns :: "schema_column list \<Rightarrow> schema_column list" where
  "hosted_columns cols =
     sort_key (\<lambda>c. (sc_table_name c, sc_ordinal_position c))
       (filter (\<lambda>c. sc_table_schema c = ''public'' \<and> sc_table_type c = ''BASE TABLE'') cols)"

definition accounted_for :: "schema_column \<Rightarrow> bool" where
  "accounted_for c \<longleftrightarrow> sc_table_name c \<in> set hosted_exemptions \<or> sc_data_type c \<in> set auto_permit_types \<or>
     (sc_table_name c, sc_column_name c) \<in> set allowlist"

definition violation_text :: "schema_column \<Rightarrow> string" where
  "violation_text c = sc_table_name c @ ''.'' @ sc_column_name c @ '' ('' @ sc_data_type c @ '')''"

text \<open>The text of \<open>HostedSchemaViolation\<close>, or nothing.\<close>

definition assert_no_private_columns :: "schema_column list \<Rightarrow> string + unit" where
  "assert_no_private_columns cols =
     (let violations = map violation_text (filter (\<lambda>c. \<not> accounted_for c) (hosted_columns cols))
      in if violations = [] then Inr ()
         else Inl (''hosted schema has column(s) that could hold private review data, with no allowlist entry and no exemption: '' @
                   py_join '', '' violations))"

text \<open>Only the empty list of violations passes.\<close>

lemma boundary_exact:
  "assert_no_private_columns cols = Inr () \<longleftrightarrow>
     (\<forall>c \<in> set cols. sc_table_schema c = ''public'' \<and> sc_table_type c = ''BASE TABLE'' \<longrightarrow>
        sc_data_type c \<in> set auto_permit_types \<or> (sc_table_name c, sc_column_name c) \<in> set allowlist)"
  by (auto simp: assert_no_private_columns_def Let_def filter_empty_conv hosted_columns_def accounted_for_def hosted_exemptions_def)

text \<open>An embedding column, which Postgres reports as \<open>USER-DEFINED\<close>, is refused wherever it is added.\<close>

lemma embedding_column_refused:
  assumes "c \<in> set cols" and "sc_table_schema c = ''public''" and "sc_table_type c = ''BASE TABLE''"
    and "sc_data_type c = ''USER-DEFINED''" and "(sc_table_name c, sc_column_name c) \<notin> set allowlist"
  shows "\<exists>msg. assert_no_private_columns cols = Inl msg"
proof (cases "assert_no_private_columns cols")
  case (Inr u)
  then have "assert_no_private_columns cols = Inr ()" by simp
  with assms show ?thesis unfolding boundary_exact by (auto simp: auto_permit_types_def)
qed simp

section \<open>Metrics\<close>

record queue_metrics_row =
  qm_depth :: nat
  qm_claim_latency_ms :: int
  qm_worker_capacity :: nat

definition ready_job :: "timestamp \<Rightarrow> review_job \<Rightarrow> bool" where
  "ready_job now r \<longleftrightarrow> rj_status r = Pending \<and> rj_available_at r \<le> now"

text \<open>Microseconds to milliseconds, rounded half away from zero as the cast to \<open>int\<close> does.\<close>

definition round_ms :: "int \<Rightarrow> int" where
  "round_ms us = (if 0 \<le> us then (us + 500) div 1000 else - ((- us + 500) div 1000))"

definition queue_metrics :: "timestamp \<Rightarrow> hosted_db \<Rightarrow> queue_metrics_row" where
  "queue_metrics now db =
     (let running = filter (\<lambda>r. rj_status r = Running) (review_jobs db)
      in \<lparr>qm_depth = rowcount (ready_job now) (review_jobs db),
          qm_claim_latency_ms = (case rev (sort_key rj_updated_at running) of
             [] \<Rightarrow> 0 | r # _ \<Rightarrow> round_ms (rj_updated_at r - rj_available_at r)),
          qm_worker_capacity = length running\<rparr>)"

definition ops_queue :: "timestamp \<Rightarrow> hosted_db \<Rightarrow> json" where
  "ops_queue now db =
     (let m = queue_metrics now db
      in JObj [(''depth'', JInt (int (qm_depth m))), (''claim_latency_ms'', JInt (qm_claim_latency_ms m)),
               (''worker_capacity'', JInt (int (qm_worker_capacity m)))])"

definition ops_health :: json where
  "ops_health = JObj [(''status'', JStr ''ok'')]"

definition ops_cost :: "hosted_db \<Rightarrow> usd" where
  "ops_cost db = sum_list (map bu_spent_cost_usd (repository_budgets db))"

definition ops_rejection_rate :: "hosted_db \<Rightarrow> rat" where
  "ops_rejection_rate db =
     (let failed = rowcount (\<lambda>r. rj_status r = Failed) (review_jobs db);
          judged = rowcount (\<lambda>r. rj_status r = Failed \<or> rj_status r = Succeeded) (review_jobs db)
      in if judged = 0 then 0 else of_nat failed / of_nat judged)"

fun circuit_state_text :: "circuit_state_name \<Rightarrow> string" where
  "circuit_state_text Circuit_Closed = ''closed''"
| "circuit_state_text Circuit_Open = ''open''"
| "circuit_state_text Circuit_Half_Open = ''half_open''"

definition ops_circuits :: "circuit_snapshot list \<Rightarrow> json" where
  "ops_circuits rows =
     JObj [(''circuits'', JArr (map (\<lambda>c. JObj [(''connector'', JStr (cs_connector c)), (''state'', JStr (circuit_state_text (cs_state c))),
        (''consecutive_failures'', JInt (cs_consecutive_failures c))]) rows))]"

lemma rejection_rate_bounds: "0 \<le> ops_rejection_rate db \<and> ops_rejection_rate db \<le> 1"
proof -
  have "rowcount (\<lambda>r. rj_status r = Failed) rows \<le> rowcount (\<lambda>r. rj_status r = Failed \<or> rj_status r = Succeeded) rows" for rows
    by (induction rows) (simp_all add: rowcount_def)
  then show ?thesis by (auto simp: ops_rejection_rate_def Let_def)
qed

text \<open>The depth of the queue and the claim: a job is waiting exactly when a claim that meets no lock and no
  expired lease would return one.\<close>

lemma depth_zero: "qm_depth (queue_metrics now db) = 0 \<longleftrightarrow> (\<forall>r \<in> set (review_jobs db). \<not> ready_job now r)"
  by (simp add: queue_metrics_def Let_def rowcount_def filter_empty_conv)

lemma depth_is_claimable:
  assumes "queue_ok db" and "\<And>r. r \<in> set (review_jobs db) \<Longrightarrow> claimable now r \<Longrightarrow> rj_status r = Pending"
  shows "qm_depth (queue_metrics now db) \<noteq> 0 \<longleftrightarrow> (\<exists>job db'. claim_review_job now {} w db = (Some job, db'))"
proof -
  have unique: "jobs_unique (review_jobs db)" using assms(1) by (simp add: queue_ok_def)
  then show ?thesis
  proof (cases rule: claim_cases [where now = now and skip = "{}" and w = w])
    case none
    then show ?thesis by (auto simp: depth_zero ready_job_def claimable_def)
  next
    case (some j)
    with assms(2) [of j] show ?thesis
      by (simp add: depth_zero) (auto simp: ready_job_def claimable_def)
  qed
qed

section \<open>Notification channels\<close>

record channel_row =
  ch_id :: uuid
  ch_installation_id :: int
  ch_name :: string
  ch_transport :: string
  ch_confidentiality :: string
  ch_purpose :: string
  ch_endpoint_hash :: string
  ch_revoked :: bool

definition endpoint_hash_pattern :: "string \<Rightarrow> bool" where
  "endpoint_hash_pattern s \<longleftrightarrow> length s = 64 \<and> list_all (\<lambda>c. is_digit c \<or> c \<in> set ''abcdef'') s"

definition declare_notification_channel ::
  "uuid \<Rightarrow> int list \<Rightarrow> int \<Rightarrow> string \<Rightarrow> string \<Rightarrow> string \<Rightarrow> string \<Rightarrow> string option \<Rightarrow> channel_row list \<Rightarrow> (uuid \<times> channel_row list) result" where
  "declare_notification_channel new_id installation_ids installation_id name transport purpose endpoint_hash confidentiality rows =
     (if transport \<notin> set [''slack'', ''telegram'', ''discord''] then Inl ValueError
      else if purpose \<notin> set [''security_alert'', ''review_ping''] then Inl ValueError
      else if \<not> endpoint_hash_pattern endpoint_hash then Inl ValueError
      else if (case confidentiality of None \<Rightarrow> False | Some c \<Rightarrow> c \<notin> set [''restricted'', ''ordinary'']) then Inl ValueError
      else if installation_id \<notin> set installation_ids then Inl ForeignKeyViolation
      else Inr (new_id, rows @ [\<lparr>ch_id = new_id, ch_installation_id = installation_id, ch_name = name, ch_transport = transport,
             ch_confidentiality = (case confidentiality of None \<Rightarrow> ''restricted'' | Some c \<Rightarrow> c), ch_purpose = purpose,
             ch_endpoint_hash = endpoint_hash, ch_revoked = False\<rparr>]))"

text \<open>A channel that nobody called ordinary is restricted, and no row holds a URL.\<close>

lemma declared_channel_ok:
  assumes "declare_notification_channel i ids inst name tr pu eh conf rows = Inr (j, rows')"
  shows "\<exists>row. rows' = rows @ [row] \<and> (ch_confidentiality row = ''ordinary'' \<longrightarrow> conf = Some ''ordinary'') \<and>
    ch_confidentiality row \<in> {''restricted'', ''ordinary''} \<and> endpoint_hash_pattern (ch_endpoint_hash row)"
  using assms by (auto simp: declare_notification_channel_def split: if_splits option.splits)

section \<open>Migrations\<close>

record migration =
  mg_filename :: string
  mg_sql :: string
  mg_checksum :: string

definition load_migrations :: "(string \<Rightarrow> string) \<Rightarrow> (string \<times> string) list \<Rightarrow> migration list" where
  "load_migrations sha256 files =
     map (\<lambda>(name, sql). \<lparr>mg_filename = name, mg_sql = sql, mg_checksum = sha256 sql\<rparr>) (sort_key fst files)"

definition get_missing_applied_migration_filenames :: "string list \<Rightarrow> string list \<Rightarrow> string list" where
  "get_missing_applied_migration_filenames applied available = filter (\<lambda>f. f \<notin> set available) applied"

text \<open>The rows of \<open>schema_migrations\<close> and the rest of the database, which a migration's SQL changes or refuses.\<close>

record 'd migration_db =
  sm_rows :: "(string \<times> string) list"
  sm_data :: 'd

definition apply_one :: "(string \<Rightarrow> 'd \<Rightarrow> 'd result) \<Rightarrow> migration \<Rightarrow> 'd migration_db \<Rightarrow> 'd migration_db result" where
  "apply_one step m db =
     bind_r (step (mg_sql m) (sm_data db)) (\<lambda>d.
       if mg_filename m \<in> fst ` set (sm_rows db) then Inl UniqueViolation
       else Inr \<lparr>sm_rows = sm_rows db @ [(mg_filename m, mg_checksum m)], sm_data = d\<rparr>)"

fun apply_migrations ::
  "(string \<Rightarrow> 'd \<Rightarrow> 'd result) \<Rightarrow> (string \<times> string) list \<Rightarrow> migration list \<Rightarrow> 'd migration_db \<Rightarrow> unit result \<times> 'd migration_db" where
  "apply_migrations step applied [] db = (Inr (), db)"
| "apply_migrations step applied (m # ms) db =
     (case map_of applied (mg_filename m) of
        Some checksum \<Rightarrow> if checksum \<noteq> mg_checksum m then (Inl RuntimeError, db) else apply_migrations step applied ms db
      | None \<Rightarrow> (case apply_one step m db of Inl e \<Rightarrow> (Inl e, db) | Inr db' \<Rightarrow> apply_migrations step applied ms db'))"

definition migrate :: "(string \<Rightarrow> 'd \<Rightarrow> 'd result) \<Rightarrow> migration list \<Rightarrow> 'd migration_db \<Rightarrow> unit result \<times> 'd migration_db" where
  "migrate step migrations db =
     (if get_missing_applied_migration_filenames (map fst (sm_rows db)) (map mg_filename migrations) \<noteq> [] then (Inl RuntimeError, db)
      else apply_migrations step (sm_rows db) migrations db)"

definition validate_migration_rebase_request :: "(string \<Rightarrow> string option) \<Rightarrow> string option \<Rightarrow> string result" where
  "validate_migration_rebase_request environment filename =
     (if environment ''ALLOW_DEV_MIGRATION_REBASE'' \<noteq> Some ''1'' then Inl RuntimeError
      else case filename of
        None \<Rightarrow> Inl RuntimeError
      | Some name \<Rightarrow>
          if name = [] then Inl RuntimeError
          else if CHR ''/'' \<in> set name \<or> \<not> startswith (rev name) (rev ''.sql'') then Inl RuntimeError
          else Inr name)"

definition rebase_migration_checksum ::
  "(string \<Rightarrow> string) \<Rightarrow> (string \<Rightarrow> string result) \<Rightarrow> (string \<Rightarrow> string option) \<Rightarrow> string option \<Rightarrow> 'd migration_db \<Rightarrow> 'd migration_db result" where
  "rebase_migration_checksum sha256 read environment filename db =
     bind_r (validate_migration_rebase_request environment filename) (\<lambda>name.
     bind_r (read name) (\<lambda>sql.
       if rowcount (\<lambda>row. fst row = name) (sm_rows db) \<noteq> 1 then Inl RuntimeError
       else Inr (db\<lparr>sm_rows := update_where (\<lambda>row. fst row = name) (\<lambda>row. (fst row, sha256 sql)) (sm_rows db)\<rparr>)))"

subsection \<open>Every migration once, in order\<close>

definition pending :: "migration list \<Rightarrow> (string \<times> string) list \<Rightarrow> migration list" where
  "pending ms rows = filter (\<lambda>m. mg_filename m \<notin> fst ` set rows) ms"

definition migration_entry :: "migration \<Rightarrow> string \<times> string" where
  "migration_entry m = (mg_filename m, mg_checksum m)"

fun run_sql :: "(string \<Rightarrow> 'd \<Rightarrow> 'd result) \<Rightarrow> migration list \<Rightarrow> 'd \<Rightarrow> 'd result" where
  "run_sql step [] d = Inr d"
| "run_sql step (m # ms) d = bind_r (step (mg_sql m) d) (run_sql step ms)"

definition checksums_match :: "migration list \<Rightarrow> (string \<times> string) list \<Rightarrow> bool" where
  "checksums_match ms rows \<longleftrightarrow> (\<forall>m \<in> set ms. \<forall>c. map_of rows (mg_filename m) = Some c \<longrightarrow> c = mg_checksum m)"

lemma map_of_row: "map_of rows k = None \<longleftrightarrow> k \<notin> fst ` set rows"
  by (simp add: map_of_eq_None_iff)

lemma apply_one_new:
  "mg_filename m \<notin> fst ` set (sm_rows db) \<Longrightarrow>
   apply_one step m db = bind_r (step (mg_sql m) (sm_data db)) (\<lambda>d. Inr \<lparr>sm_rows = sm_rows db @ [migration_entry m], sm_data = d\<rparr>)"
  by (simp add: apply_one_def migration_entry_def bind_r_def split: sum.split)

text \<open>The loop, from a point where some pending migrations have been applied.\<close>

lemma apply_migrations_spec:
  assumes "distinct (map mg_filename ms)"
    and "\<forall>m \<in> set ms. mg_filename m \<in> fst ` set (sm_rows db) \<longleftrightarrow> mg_filename m \<in> fst ` set applied"
    and "apply_migrations step applied ms db = (r, db')"
  shows "\<exists>rest. prefix rest (pending ms applied) \<and> sm_rows db' = sm_rows db @ map migration_entry rest \<and>
    run_sql step rest (sm_data db) = Inr (sm_data db') \<and>
    (r = Inr () \<longleftrightarrow> checksums_match ms applied \<and> (\<exists>d. run_sql step (pending ms applied) (sm_data db) = Inr d)) \<and>
    (r = Inr () \<longrightarrow> rest = pending ms applied)"
  using assms
proof (induction ms arbitrary: db)
  case Nil
  then show ?case by (auto simp: pending_def checksums_match_def)
next
  case (Cons m ms)
  let ?k = "mg_filename m"
  show ?case
  proof (cases "map_of applied ?k")
    case (Some c)
    then have known: "?k \<in> fst ` set applied" by (metis map_of_row option.distinct(1))
    then have pend: "pending (m # ms) applied = pending ms applied" by (simp add: pending_def)
    show ?thesis
    proof (cases "c = mg_checksum m")
      case True
      with Some Cons.prems(3) have "apply_migrations step applied ms db = (r, db')" by simp
      with Cons.IH [of db] Cons.prems(1,2) Some True show ?thesis by (simp add: pend checksums_match_def)
    next
      case False
      with Some Cons.prems(3) have "r = Inl RuntimeError" "db' = db" by simp_all
      with Some False show ?thesis by (intro exI [of _ "[]"]) (simp add: checksums_match_def)
    qed
  next
    case None
    then have new: "?k \<notin> fst ` set applied" "?k \<notin> fst ` set (sm_rows db)" using Cons.prems(2) by (auto simp: map_of_row)
    then have pend: "pending (m # ms) applied = m # pending ms applied" by (simp add: pending_def)
    show ?thesis
    proof (cases "step (mg_sql m) (sm_data db)")
      case (Inl e)
      with None new(2) Cons.prems(3) have "r = Inl e" "db' = db" by (simp_all add: apply_one_new)
      with Inl show ?thesis by (intro exI [of _ "[]"]) (simp add: pend)
    next
      case (Inr d)
      let ?db = "\<lparr>sm_rows = sm_rows db @ [migration_entry m], sm_data = d\<rparr>"
      from Inr None new(2) Cons.prems(3) have run: "apply_migrations step applied ms ?db = (r, db')" by (simp add: apply_one_new)
      have apart: "mg_filename n \<noteq> ?k" if "n \<in> set ms" for n using Cons.prems(1) that by (auto simp: image_iff)
      have "\<forall>n \<in> set ms. mg_filename n \<in> fst ` set (sm_rows ?db) \<longleftrightarrow> mg_filename n \<in> fst ` set applied"
        using apart Cons.prems(2) by (simp add: migration_entry_def)
      from Cons.IH [OF _ this run] Cons.prems(1) obtain rest where rest:
        "prefix rest (pending ms applied)" "sm_rows db' = sm_rows ?db @ map migration_entry rest"
        "run_sql step rest d = Inr (sm_data db')"
        "r = Inr () \<longleftrightarrow> checksums_match ms applied \<and> (\<exists>d'. run_sql step (pending ms applied) d = Inr d')"
        "r = Inr () \<longrightarrow> rest = pending ms applied" by auto
      show ?thesis
        using rest Inr None by (intro exI [of _ "m # rest"]) (simp add: pend checksums_match_def)
    qed
  qed
qed

text \<open>A database whose rows are those of the pending migrations added to the old ones has nothing left to do.\<close>

lemma settled_loop:
  "\<forall>m \<in> set ms. map_of rows (mg_filename m) = Some (mg_checksum m) \<Longrightarrow> apply_migrations step rows ms db = (Inr (), db)"
  by (induction ms) simp_all

lemma settled_checksum:
  assumes "distinct (map mg_filename ms)" and "checksums_match ms rows" and "m \<in> set ms"
  shows "map_of (rows @ map migration_entry (pending ms rows)) (mg_filename m) = Some (mg_checksum m)"
proof (cases "map_of rows (mg_filename m)")
  case None
  have "distinct (map fst (map migration_entry (pending ms rows)))"
    using distinct_filter [of "map mg_filename ms" "\<lambda>f. f \<notin> fst ` set rows"] assms(1)
    by (simp add: pending_def migration_entry_def comp_def filter_map distinct_map inj_on_def)
  moreover have "(mg_filename m, mg_checksum m) \<in> set (map migration_entry (pending ms rows))"
    using assms(3) None by (auto simp: pending_def migration_entry_def map_of_eq_None_iff)
  ultimately show ?thesis using None by (simp add: map_add_def map_of_is_SomeI)
next
  case (Some c)
  with assms(2,3) have c: "c = mg_checksum m" by (simp add: checksums_match_def)
  have known: "mg_filename m \<in> fst ` set rows" using Some map_of_row [of rows "mg_filename m"] by fastforce
  have apart: "mg_filename x \<noteq> mg_filename m" if "x \<in> set (pending ms rows)" for x
  proof -
    from that have "mg_filename x \<notin> fst ` set rows" by (simp add: pending_def)
    with known show ?thesis by metis
  qed
  have "mg_filename m \<notin> fst ` set (map migration_entry (pending ms rows))"
    using apart by (force simp: migration_entry_def)
  then show ?thesis using Some c by (simp add: map_add_def map_of_eq_None_iff [THEN iffD2] split: option.split)
qed

lemma settled_run:
  assumes "fst ` set (sm_rows db) \<subseteq> mg_filename ` set ms" and "distinct (map mg_filename ms)"
    and "checksums_match ms (sm_rows db)" and "sm_rows db' = sm_rows db @ map migration_entry (pending ms (sm_rows db))"
  shows "pending ms (sm_rows db') = [] \<and> migrate step ms db' = (Inr (), db')"
proof
  have "fst ` set (sm_rows db') = fst ` set (sm_rows db) \<union> mg_filename ` set (pending ms (sm_rows db))"
    by (simp add: assms(4) migration_entry_def image_Un image_image)
  then show "pending ms (sm_rows db') = []" by (auto simp: pending_def filter_empty_conv)
  have "get_missing_applied_migration_filenames (map fst (sm_rows db')) (map mg_filename ms) = []"
    using assms(1) by (auto simp: get_missing_applied_migration_filenames_def filter_empty_conv assms(4) migration_entry_def pending_def)
  moreover have "apply_migrations step (sm_rows db') ms db' = (Inr (), db')"
    using settled_checksum [OF assms(2,3)] by (intro settled_loop) (simp add: assms(4))
  ultimately show "migrate step ms db' = (Inr (), db')" by (simp add: migrate_def)
qed

text \<open>C37. Migrations.  Claim: a run applies migrations in the order of their file names, each with its row, and never
  one that has a row already; whether it ends or fails, the database holds exactly the migrations that have
  rows, so that a later run goes on where this one stopped.  It succeeds exactly when no applied file is missing
  or changed and the SQL of every pending one succeeds, and then running it again changes nothing.\<close>

theorem migrations_apply_once_in_order:
  assumes "distinct (map mg_filename ms)"
    and "migrate step ms db = (r, db')"
  shows "(\<exists>applied. prefix applied (pending ms (sm_rows db)) \<and> sm_rows db' = sm_rows db @ map migration_entry applied \<and>
      run_sql step applied (sm_data db) = Inr (sm_data db')) \<and>
    (r = Inr () \<longleftrightarrow> fst ` set (sm_rows db) \<subseteq> mg_filename ` set ms \<and> checksums_match ms (sm_rows db) \<and>
      (\<exists>d. run_sql step (pending ms (sm_rows db)) (sm_data db) = Inr d)) \<and>
    (r = Inr () \<longrightarrow> pending ms (sm_rows db') = [] \<and> migrate step ms db' = (Inr (), db'))"
proof (cases "fst ` set (sm_rows db) \<subseteq> mg_filename ` set ms")
  case False
  then have "get_missing_applied_migration_filenames (map fst (sm_rows db)) (map mg_filename ms) \<noteq> []"
    by (auto simp: get_missing_applied_migration_filenames_def filter_empty_conv)
  with assms(2) have "r = Inl RuntimeError" "db' = db" by (simp_all add: migrate_def)
  with False show ?thesis by (auto intro!: exI [of _ "[]"])
next
  case True
  then have complete: "get_missing_applied_migration_filenames (map fst (sm_rows db)) (map mg_filename ms) = []"
    by (auto simp: get_missing_applied_migration_filenames_def filter_empty_conv)
  with assms(2) have run: "apply_migrations step (sm_rows db) ms db = (r, db')" by (simp add: migrate_def)
  from apply_migrations_spec [OF assms(1) _ run] obtain rest where rest:
    "prefix rest (pending ms (sm_rows db))" "sm_rows db' = sm_rows db @ map migration_entry rest"
    "run_sql step rest (sm_data db) = Inr (sm_data db')"
    "r = Inr () \<longleftrightarrow> checksums_match ms (sm_rows db) \<and> (\<exists>d. run_sql step (pending ms (sm_rows db)) (sm_data db) = Inr d)"
    "r = Inr () \<longrightarrow> rest = pending ms (sm_rows db)" by auto
  have again: "pending ms (sm_rows db') = [] \<and> migrate step ms db' = (Inr (), db')" if "r = Inr ()"
    using rest that by (intro settled_run [OF True assms(1)]) simp_all
  from rest True again show ?thesis by blast
qed

definition sample_migrations :: "migration list" where
  "sample_migrations = load_migrations (\<lambda>sql. ''sum:'' @ sql) [(''2.sql'', ''b''), (''1.sql'', ''a'')]"

theorem migrations_apply_once_in_order_witness:
  "migrate (\<lambda>sql d. if sql = ''b'' then Inl RuntimeError else Inr (d @ [sql])) sample_migrations \<lparr>sm_rows = [], sm_data = []\<rparr> =
     (Inl RuntimeError, \<lparr>sm_rows = [(''1.sql'', ''sum:a'')], sm_data = [''a'']\<rparr>) \<and>
   pending sample_migrations [(''1.sql'', ''sum:a'')] = [\<lparr>mg_filename = ''2.sql'', mg_sql = ''b'', mg_checksum = ''sum:b''\<rparr>] \<and>
   (\<exists>db'. migrate (\<lambda>sql d. Inr (d @ [sql])) sample_migrations \<lparr>sm_rows = [(''1.sql'', ''sum:a'')], sm_data = [''a'']\<rparr> = (Inr (), db') \<and>
      migrate (\<lambda>sql d. Inr (d @ [sql])) sample_migrations db' = (Inr (), db'))"
proof -
  have ms: "sample_migrations = [\<lparr>mg_filename = ''1.sql'', mg_sql = ''a'', mg_checksum = ''sum:a''\<rparr>,
      \<lparr>mg_filename = ''2.sql'', mg_sql = ''b'', mg_checksum = ''sum:b''\<rparr>]" by code_simp
  have "distinct (map mg_filename sample_migrations)" by (simp add: ms)
  note once = migrations_apply_once_in_order [OF this]
  obtain r db' where run: "migrate (\<lambda>sql d. Inr (d @ [sql])) sample_migrations \<lparr>sm_rows = [(''1.sql'', ''sum:a'')], sm_data = [''a'']\<rparr> = (r, db')"
    by fastforce
  have "r = Inr ()" using once [OF run] by (simp add: ms checksums_match_def pending_def)
  with once [OF run] run show ?thesis
    by (simp add: ms migrate_def get_missing_applied_migration_filenames_def apply_one_def pending_def)
qed

end
