(* ===== verification/Vector_Store.thy ===== *)
theory Vector_Store
  imports Sandbox Daemon
begin

text \<open>
  The runner's mode and what depends on it: the decision between full and analysis-only mode
  (\<open>runner/modes.py\<close>), the two secret stores behind one interface (\<open>runner/secrets.py\<close>), and the local
  database container (\<open>local_store/postgres.py\<close>) as a state machine over its operations, with a log of every
  command it runs.  Docker, the sockets, the connection attempts and the random password are parameters; the
  SQL that goes over a connection is left out.  The main result is that the password of the database never
  reaches a command line, a status or an error.
\<close>

section \<open>The mode\<close>

record reported_probe = container_probe +
  cp_failures :: "string list"

record mode_decision =
  md_requested_mode :: runner_mode
  md_granted_mode :: runner_mode
  md_retrieval_available :: bool
  md_verification_available :: bool
  md_forces_human_approval :: bool
  md_downgraded :: bool
  md_disabled_features :: "string list"
  md_probe_failures :: "string list"

definition disabled_in_analysis_only :: "string list" where
  "disabled_in_analysis_only =
     [''repository retrieval (full-mode pgvector indexing of the default branch)'',
      ''executable verification (reproducing tests and checks in the Docker sandbox)'',
      ''auto-post without human approval (every finding is queued for manual review)'']"

definition select_runtime_mode :: "reported_probe \<Rightarrow> runner_mode \<Rightarrow> mode_decision" where
  "select_runtime_mode p requested =
     (if requested = Analysis_Only then
        \<lparr>md_requested_mode = Analysis_Only, md_granted_mode = Analysis_Only, md_retrieval_available = False,
         md_verification_available = False, md_forces_human_approval = True, md_downgraded = False,
         md_disabled_features = disabled_in_analysis_only, md_probe_failures = []\<rparr>
      else if full_mode_ready (container_probe.truncate p) then
        \<lparr>md_requested_mode = Full, md_granted_mode = Full, md_retrieval_available = True,
         md_verification_available = True, md_forces_human_approval = False, md_downgraded = False,
         md_disabled_features = [], md_probe_failures = []\<rparr>
      else
        \<lparr>md_requested_mode = Full, md_granted_mode = Analysis_Only, md_retrieval_available = False,
         md_verification_available = False, md_forces_human_approval = True, md_downgraded = True,
         md_disabled_features = disabled_in_analysis_only, md_probe_failures = cp_failures p\<rparr>)"

section \<open>Secrets\<close>

type_synonym keyring = "string \<times> string \<Rightarrow> string option"

definition service_name :: string where
  "service_name = ''pr-reviewer''"

definition keyring_set :: "string \<Rightarrow> string \<Rightarrow> keyring \<Rightarrow> keyring" where
  "keyring_set name v k = k((service_name, name) \<mapsto> v)"

definition keyring_get :: "string \<Rightarrow> keyring \<Rightarrow> string option" where
  "keyring_get name k = k (service_name, name)"

text \<open>Deleting what is absent raises in the keyring, and the exception is suppressed.\<close>

definition keyring_delete :: "string \<Rightarrow> keyring \<Rightarrow> keyring" where
  "keyring_delete name k = k((service_name, name) := None)"

datatype chosen_store = Keyring_Store | File_Store

definition get_secret_store :: "string option result \<Rightarrow> chosen_store" where
  "get_secret_store probe_read = (case probe_read of Inl _ \<Rightarrow> File_Store | Inr _ \<Rightarrow> Keyring_Store)"

section \<open>The database container\<close>

abbreviation LocalVectorStoreError :: py_exn where "LocalVectorStoreError \<equiv> Exception_Of ''LocalVectorStoreError''"

definition local_pgvector_secret_name :: string where
  "local_pgvector_secret_name = ''local_pgvector_password''"

record store_status =
  ss_running :: bool
  ss_healthy :: bool
  ss_bound_host :: string
  ss_bound_port :: int
  ss_volume_name :: string
  ss_url :: string

record vector_store =
  vs_mode :: mode_decision
  vs_work_directory :: string
  vs_uses_injected_runner :: bool
  vs_requested_port :: "int option"
  vs_port :: "int option"
  vs_compose_file :: string
  vs_project :: string
  vs_started :: bool

text \<open>What the operations change beside the store itself, and how the outside answers.\<close>

record vector_world =
  vw_keyring :: keyring
  vw_password_file :: "string option"
  vw_commands :: "(string list \<times> (string \<times> string) list) list"
  vw_connects :: nat

datatype process_end = Completed command_output | Command_Not_Found | Timed_Out string

record vector_env =
  ve_sha256 :: "string \<Rightarrow> string"
  ve_free_port :: int
  ve_port_in_use :: "int \<Rightarrow> bool"
  ve_token :: string
  ve_uid :: int
  ve_gid :: int
  ve_process :: "nat \<Rightarrow> process_end"
  ve_accepts :: "nat \<Rightarrow> bool"
  ve_polls :: nat

definition command_result :: "process_end \<Rightarrow> command_output" where
  "command_result p =
     (case p of
        Completed out \<Rightarrow> out
      | Command_Not_Found \<Rightarrow> \<lparr>co_returncode = 127, co_stdout = [], co_stderr = ''docker: command not found''\<rparr>
      | Timed_Out msg \<Rightarrow> \<lparr>co_returncode = 1, co_stdout = [], co_stderr = msg\<rparr>)"

definition project_name :: "(string \<Rightarrow> string) \<Rightarrow> string \<Rightarrow> string" where
  "project_name sha256 work_directory = ''prrevpgv'' @ take 12 (sha256 work_directory)"

definition make_vector_store ::
  "vector_env \<Rightarrow> mode_decision \<Rightarrow> string \<Rightarrow> bool \<Rightarrow> int option \<Rightarrow> string \<Rightarrow> vector_store" where
  "make_vector_store env mode work_directory injected port compose_file =
     \<lparr>vs_mode = mode, vs_work_directory = work_directory, vs_uses_injected_runner = injected, vs_requested_port = port,
      vs_port = port, vs_compose_file = compose_file, vs_project = project_name (ve_sha256 env) work_directory, vs_started = False\<rparr>"

definition password_file_path :: "vector_store \<Rightarrow> string" where
  "password_file_path st = vs_work_directory st @ ''/pgvector-password/postgres_password''"

definition or_zero :: "int option \<Rightarrow> int" where
  "or_zero p = (case p of Some n \<Rightarrow> n | None \<Rightarrow> 0)"

definition redacted_url :: "vector_store \<Rightarrow> string" where
  "redacted_url st = ''postgresql://pr_reviewer@127.0.0.1:'' @ show_int (or_zero (vs_port st)) @ ''/pr_reviewer''"

definition volume_name :: "vector_store \<Rightarrow> string" where
  "volume_name st = vs_project st @ ''_pr_reviewer_pgvector''"

definition store_status_of :: "vector_store \<Rightarrow> bool \<Rightarrow> bool \<Rightarrow> store_status" where
  "store_status_of st running healthy =
     \<lparr>ss_running = running, ss_healthy = healthy, ss_bound_host = ''127.0.0.1'', ss_bound_port = or_zero (vs_port st),
      ss_volume_name = volume_name st, ss_url = redacted_url st\<rparr>"

text \<open>Every command goes through \<open>_run\<close>: the argument vector and, for the real runner, the extra environment.\<close>

definition run_extra :: "vector_env \<Rightarrow> vector_store \<Rightarrow> (string \<times> string) list" where
  "run_extra env st =
     [(''PR_REVIEWER_PG_PASSWORD_FILE'', password_file_path st),
      (''PR_REVIEWER_PG_PORT'', case vs_port st of Some p \<Rightarrow> show_int p | None \<Rightarrow> ''54331''),
      (''PR_REVIEWER_PG_UID'', show_int (ve_uid env)), (''PR_REVIEWER_PG_GID'', show_int (ve_gid env))]"

definition store_run :: "vector_env \<Rightarrow> vector_store \<Rightarrow> string list \<Rightarrow> vector_world \<Rightarrow> command_output \<times> vector_world" where
  "store_run env st argv w =
     (command_result (ve_process env (length (vw_commands w))),
      w\<lparr>vw_commands := vw_commands w @ [(argv, if vs_uses_injected_runner st then [] else run_extra env st)]\<rparr>)"

definition compose :: "vector_env \<Rightarrow> vector_store \<Rightarrow> string list \<Rightarrow> vector_world \<Rightarrow> command_output \<times> vector_world" where
  "compose env st argv =
     store_run env st ([''docker'', ''compose'', ''-f'', vs_compose_file st, ''-p'', vs_project st] @ argv)"

definition write_password_file :: "string \<Rightarrow> vector_world \<Rightarrow> vector_world" where
  "write_password_file password w = w\<lparr>vw_password_file := Some password\<rparr>"

definition remove_password_file :: "vector_world \<Rightarrow> vector_world" where
  "remove_password_file w = w\<lparr>vw_password_file := None\<rparr>"

definition connection_url :: "vector_store \<Rightarrow> vector_world \<Rightarrow> string result" where
  "connection_url st w =
     (case (keyring_get local_pgvector_secret_name (vw_keyring w), vs_port st) of
        (Some password, Some port) \<Rightarrow>
          Inr (''postgresql://pr_reviewer:'' @ password @ ''@127.0.0.1:'' @ show_int port @ ''/pr_reviewer'')
      | _ \<Rightarrow> Inl LocalVectorStoreError)"

text \<open>A connection attempt with that URL; the n-th one is accepted or not.\<close>

definition can_connect :: "vector_env \<Rightarrow> vector_store \<Rightarrow> vector_world \<Rightarrow> bool \<times> vector_world" where
  "can_connect env st w =
     (case connection_url st w of
        Inl _ \<Rightarrow> (False, w)
      | Inr _ \<Rightarrow> (ve_accepts env (vw_connects w), w\<lparr>vw_connects := Suc (vw_connects w)\<rparr>))"

fun wait_polls :: "vector_env \<Rightarrow> vector_store \<Rightarrow> nat \<Rightarrow> vector_world \<Rightarrow> unit result \<times> vector_world" where
  "wait_polls env st 0 w = (Inl LocalVectorStoreError, w)"
| "wait_polls env st (Suc n) w =
     (case can_connect env st w of (True, w') \<Rightarrow> (Inr (), w') | (False, w') \<Rightarrow> wait_polls env st n w')"

definition wait_until_accepts_connections :: "vector_env \<Rightarrow> vector_store \<Rightarrow> vector_world \<Rightarrow> unit result \<times> vector_world" where
  "wait_until_accepts_connections env st = wait_polls env st (ve_polls env)"

definition ensure_password :: "vector_env \<Rightarrow> vector_world \<Rightarrow> string \<times> vector_world" where
  "ensure_password env w =
     (case keyring_get local_pgvector_secret_name (vw_keyring w) of
        Some password \<Rightarrow> (password, w)
      | None \<Rightarrow> (ve_token env, w\<lparr>vw_keyring := keyring_set local_pgvector_secret_name (ve_token env) (vw_keyring w)\<rparr>))"

type_synonym 'a store_run = "('a result \<times> vector_store) \<times> vector_world"

definition chosen_port :: "vector_env \<Rightarrow> vector_store \<Rightarrow> int" where
  "chosen_port env st = (case vs_requested_port st of Some p \<Rightarrow> p | None \<Rightarrow> ve_free_port env)"

definition store_start :: "vector_env \<Rightarrow> vector_store \<Rightarrow> vector_world \<Rightarrow> store_status store_run" where
  "store_start env st w =
     (if md_granted_mode (vs_mode st) \<noteq> Full then ((Inl LocalVectorStoreError, st), w)
      else let port = chosen_port env st
           in if ve_port_in_use env port then ((Inl LocalVectorStoreError, st), w)
              else let st1 = st\<lparr>vs_port := Some port\<rparr>; (password, w1) = ensure_password env w;
                       (out, w2) = compose env st1 [''up'', ''-d'', ''--wait'', ''--wait-timeout'', ''90''] (write_password_file password w1)
                   in if co_returncode out \<noteq> 0 then ((Inl LocalVectorStoreError, st1), remove_password_file w2)
                      else let st2 = st1\<lparr>vs_started := True\<rparr>
                           in if vs_uses_injected_runner st then ((Inr (store_status_of st2 True False), st2), w2)
                              else (case wait_until_accepts_connections env st2 w2 of
                                      (Inl e, w3) \<Rightarrow> ((Inl e, st2), w3)
                                    | (Inr _, w3) \<Rightarrow> ((Inr (store_status_of st2 True True), st2), w3)))"

definition compose_is_running :: "vector_env \<Rightarrow> vector_store \<Rightarrow> vector_world \<Rightarrow> bool \<times> vector_world" where
  "compose_is_running env st w =
     (case compose env st [''ps'', ''-q'', ''--status'', ''running''] w of
        (out, w') \<Rightarrow> (co_returncode out = 0 \<and> py_strip (co_stdout out) \<noteq> [], w'))"

definition store_health :: "vector_env \<Rightarrow> vector_store \<Rightarrow> vector_world \<Rightarrow> store_status store_run" where
  "store_health env st w =
     (let (running, w1) = (if vs_started st \<or> \<not> vs_uses_injected_runner st then compose_is_running env st w else (False, w));
          (healthy, w2) = (if running then can_connect env st w1 else (False, w1))
      in ((Inr (store_status_of st running healthy), st), w2))"

definition store_stop :: "vector_env \<Rightarrow> bool \<Rightarrow> bool \<Rightarrow> vector_store \<Rightarrow> vector_world \<Rightarrow> unit store_run" where
  "store_stop env preserve_data confirm_delete st w =
     (if \<not> preserve_data \<and> \<not> confirm_delete then ((Inl LocalVectorStoreError, st), w)
      else let (out, w1) = compose env st (if preserve_data then [''down''] else [''down'', ''-v'', ''--remove-orphans'']) w;
               st1 = st\<lparr>vs_started := False\<rparr>; w2 = remove_password_file w1
           in if co_returncode out \<noteq> 0 \<and> \<not> vs_uses_injected_runner st then ((Inl LocalVectorStoreError, st1), w2)
              else ((Inr (), st1), w2))"

definition volume_exists :: "vector_env \<Rightarrow> string \<Rightarrow> vector_store \<Rightarrow> vector_world \<Rightarrow> bool store_run" where
  "volume_exists env volume st w =
     (case store_run env st [''docker'', ''volume'', ''inspect'', volume] w of (out, w') \<Rightarrow> ((Inr (co_returncode out = 0), st), w'))"

section \<open>The mode is what was proved\<close>

lemma select_runtime_mode_exact:
  "md_granted_mode (select_runtime_mode p requested) = Full \<longleftrightarrow> requested = Full \<and> full_mode_ready (container_probe.truncate p)"
  "md_requested_mode (select_runtime_mode p requested) = requested"
  "md_downgraded (select_runtime_mode p requested) \<longleftrightarrow> requested \<noteq> md_granted_mode (select_runtime_mode p requested)"
  "md_forces_human_approval (select_runtime_mode p requested) \<longleftrightarrow> md_granted_mode (select_runtime_mode p requested) = Analysis_Only"
  "md_verification_available (select_runtime_mode p requested) \<longleftrightarrow> md_granted_mode (select_runtime_mode p requested) = Full"
  "md_disabled_features (select_runtime_mode p requested) = [] \<longleftrightarrow> md_granted_mode (select_runtime_mode p requested) = Full"
  by (cases requested; simp add: select_runtime_mode_def disabled_in_analysis_only_def)+

section \<open>The contract of a secret store\<close>

text \<open>\<open>apart\<close> says which names a store keeps apart.\<close>

locale secret_store =
  fixes get :: "string \<Rightarrow> 's \<Rightarrow> string option"
    and set :: "string \<Rightarrow> string \<Rightarrow> 's \<Rightarrow> 's"
    and delete :: "string \<Rightarrow> 's \<Rightarrow> 's"
    and apart :: "string \<Rightarrow> string \<Rightarrow> bool"
  assumes get_set: "get n (set n v s) = Some v"
    and get_set_apart: "apart m n \<Longrightarrow> get m (set n v s) = get m s"
    and get_delete: "get n (delete n s) = None"
    and get_delete_apart: "apart m n \<Longrightarrow> get m (delete n s) = get m s"
begin

text \<open>The value of a name is the last one set since the last deletion, whatever happened to names kept apart.\<close>

fun replay :: "(string \<times> string option) list \<Rightarrow> 's \<Rightarrow> 's" where
  "replay [] s = s"
| "replay ((n, Some v) # es) s = replay es (set n v s)"
| "replay ((n, None) # es) s = replay es (delete n s)"

lemma get_replay_apart: "\<forall>(n, _) \<in> List.set es. apart m n \<Longrightarrow> get m (replay es s) = get m s"
  by (induction es s rule: replay.induct) (auto simp: get_set_apart get_delete_apart)

lemma get_replay_last:
  assumes "\<forall>(n, _) \<in> List.set later. apart m n"
  shows "get m (replay (earlier @ (m, v) # later) s) = v"
proof (induction earlier s rule: replay.induct)
  case (1 s)
  with assms show ?case by (cases v) (simp_all add: get_replay_apart get_set get_delete)
qed simp_all

end

interpretation keyring: secret_store keyring_get keyring_set keyring_delete "(\<noteq>)"
  by unfold_locales (auto simp: keyring_get_def keyring_set_def keyring_delete_def)

interpretation files: secret_store file_secret_get file_secret_set file_secret_delete "\<lambda>m n. secret_file_name m \<noteq> secret_file_name n"
  by unfold_locales (auto simp: file_secret_get_def file_secret_set_def file_secret_delete_def)

text \<open>The file store does not keep every two names apart.\<close>

lemma secret_names_collide:
  "file_secret_get ''a_b'' (file_secret_set ''a/b'' v files) = Some v"
  by (simp add: file_secret_get_def file_secret_set_def) code_simp

section \<open>The password stays private\<close>

datatype store_op = Op_Start | Op_Health | Op_Stop bool bool | Op_Volume string

datatype store_answer = Answer_Status "store_status result" | Answer_Unit "unit result" | Answer_Bool "bool result"

fun store_step :: "vector_env \<Rightarrow> store_op \<Rightarrow> vector_store \<times> vector_world \<Rightarrow> store_answer \<times> vector_store \<times> vector_world" where
  "store_step env Op_Start (st, w) = (case store_start env st w of ((r, st'), w') \<Rightarrow> (Answer_Status r, st', w'))"
| "store_step env Op_Health (st, w) = (case store_health env st w of ((r, st'), w') \<Rightarrow> (Answer_Status r, st', w'))"
| "store_step env (Op_Stop preserve confirm) (st, w) =
     (case store_stop env preserve confirm st w of ((r, st'), w') \<Rightarrow> (Answer_Unit r, st', w'))"
| "store_step env (Op_Volume volume) (st, w) = (case volume_exists env volume st w of ((r, st'), w') \<Rightarrow> (Answer_Bool r, st', w'))"

fun run_store :: "vector_env \<Rightarrow> store_op list \<Rightarrow> vector_store \<times> vector_world \<Rightarrow> store_answer list \<times> vector_store \<times> vector_world" where
  "run_store env [] c = ([], c)"
| "run_store env (op # ops) c = (case store_step env op c of (a, c') \<Rightarrow> case run_store env ops c' of (as, c'') \<Rightarrow> (a # as, c''))"

text \<open>The same world with the password replaced by the empty text, wherever it is kept.\<close>

definition erase :: "vector_world \<Rightarrow> vector_world" where
  "erase w = w\<lparr>vw_keyring := (vw_keyring w)((service_name, local_pgvector_secret_name) :=
       map_option (\<lambda>_. []) (vw_keyring w (service_name, local_pgvector_secret_name))),
     vw_password_file := map_option (\<lambda>_. []) (vw_password_file w)\<rparr>"

definition blank_token :: "vector_env \<Rightarrow> vector_env" where
  "blank_token env = env\<lparr>ve_token := []\<rparr>"

named_theorems erase_simps \<open>operations on the erased world\<close>

lemma erase_fields [erase_simps]:
  "ve_process (blank_token env) = ve_process env" "ve_accepts (blank_token env) = ve_accepts env"
  "ve_polls (blank_token env) = ve_polls env" "ve_free_port (blank_token env) = ve_free_port env"
  "ve_port_in_use (blank_token env) = ve_port_in_use env"
  "run_extra (blank_token env) = run_extra env" "chosen_port (blank_token env) = chosen_port env"
  "vw_commands (erase w) = vw_commands w" "vw_connects (erase w) = vw_connects w"
  by (simp_all add: blank_token_def erase_def run_extra_def chosen_port_def fun_eq_iff cong: option.case_cong)

lemma erase_store_run [erase_simps]: "store_run (blank_token env) st argv (erase w) = apsnd erase (store_run env st argv w)"
  by (simp add: store_run_def erase_simps) (simp add: erase_def)

lemma erase_compose [erase_simps]: "compose (blank_token env) st argv (erase w) = apsnd erase (compose env st argv w)"
  by (simp add: compose_def erase_simps)

lemma erase_can_connect [erase_simps]: "can_connect (blank_token env) st (erase w) = apsnd erase (can_connect env st w)"
  by (auto simp: can_connect_def connection_url_def erase_simps keyring_get_def erase_def split: option.split)

lemma erase_wait [erase_simps]: "wait_polls (blank_token env) st n (erase w) = apsnd erase (wait_polls env st n w)"
  by (induction n arbitrary: w) (auto simp: erase_simps split: prod.splits bool.splits)

lemma erase_remove [erase_simps]: "remove_password_file (erase w) = erase (remove_password_file w)"
  by (simp add: remove_password_file_def erase_def)

lemma erase_write: "write_password_file [] (erase w) = erase (write_password_file password w)"
  by (simp add: write_password_file_def erase_def)

lemma erase_ensure [erase_simps]:
  "ensure_password (blank_token env) (erase w) = map_prod (\<lambda>_. []) erase (ensure_password env w)"
  by (auto simp: ensure_password_def keyring_get_def keyring_set_def erase_def blank_token_def split: option.split)

lemma erase_start [erase_simps]: "store_start (blank_token env) st (erase w) = apsnd erase (store_start env st w)"
proof -
  obtain password w1 where password: "ensure_password env w = (password, w1)" by fastforce
  obtain out w2 where up: "compose env (st\<lparr>vs_port := Some (chosen_port env st)\<rparr>)
      [''up'', ''-d'', ''--wait'', ''--wait-timeout'', ''90''] (write_password_file password w1) = (out, w2)" by fastforce
  obtain r w3 where wait: "wait_polls env (st\<lparr>vs_port := Some (chosen_port env st), vs_started := True\<rparr>) (ve_polls env) w2 = (r, w3)"
    by fastforce
  show ?thesis
    by (cases r) (simp_all add: store_start_def Let_def erase_simps password erase_write [of w1 password] up wait
        wait_until_accepts_connections_def)
qed

lemma erase_health [erase_simps]: "store_health (blank_token env) st (erase w) = apsnd erase (store_health env st w)"
  by (auto simp: store_health_def compose_is_running_def Let_def erase_simps split: prod.splits)

lemma erase_stop [erase_simps]: "store_stop (blank_token env) p c st (erase w) = apsnd erase (store_stop env p c st w)"
  by (cases p) (auto simp: store_stop_def Let_def erase_simps split: prod.splits)

lemma erase_volume [erase_simps]: "volume_exists (blank_token env) v st (erase w) = apsnd erase (volume_exists env v st w)"
  by (simp add: volume_exists_def erase_simps split: prod.split)

lemma erase_step: "store_step (blank_token env) op (st, erase w) = apsnd (apsnd erase) (store_step env op (st, w))"
  by (cases op) (simp_all add: erase_simps split: prod.split)


text \<open>Without full mode nothing is started and no password is written; a stop that reaches Docker takes the
  password file away, whether or not the container stopped, and keeps the secret.\<close>

lemma wait_polls_frame:
  "wait_polls env st n w = (r, w') \<Longrightarrow> vw_password_file w' = vw_password_file w \<and> vw_keyring w' = vw_keyring w"
  by (induction n arbitrary: w) (fastforce simp: can_connect_def split: prod.splits bool.splits sum.splits)+

lemma start_refused_outside_full_mode:
  "md_granted_mode (vs_mode st) \<noteq> Full \<Longrightarrow> store_start env st w = ((Inl LocalVectorStoreError, st), w)"
  by (simp add: store_start_def)

lemma step_without_full_mode:
  assumes "md_granted_mode (vs_mode st) \<noteq> Full" and "vw_password_file w = None" and "store_step env op (st, w) = (a, st', w')"
  shows "vs_mode st' = vs_mode st \<and> vw_password_file w' = None"
  using assms
  by (cases op) (auto simp: store_start_def store_health_def compose_is_running_def store_stop_def volume_exists_def compose_def
      store_run_def can_connect_def remove_password_file_def Let_def split: if_splits sum.splits)

lemma run_without_full_mode:
  "md_granted_mode (vs_mode st) \<noteq> Full \<Longrightarrow> vw_password_file w = None \<Longrightarrow> run_store env ops (st, w) = (answers, st', w') \<Longrightarrow>
   vw_password_file w' = None"
proof (induction ops arbitrary: st w answers)
  case (Cons op ops)
  obtain a st1 w1 where step: "store_step env op (st, w) = (a, st1, w1)" by (metis prod_cases3)
  from Cons.prems step obtain rest where "run_store env ops (st1, w1) = (rest, st', w')" by (auto split: prod.splits)
  with Cons.IH [of st1 w1 rest] step_without_full_mode [OF Cons.prems(1,2) step] Cons.prems(1) show ?case by simp
qed simp

lemma stop_removes_password_file:
  assumes "preserve \<or> confirm" and "store_stop env preserve confirm st w = ((r, st'), w')"
  shows "vw_password_file w' = None \<and> vw_keyring w' = vw_keyring w \<and> \<not> vs_started st'"
  using assms by (auto simp: store_stop_def compose_def store_run_def remove_password_file_def Let_def split: if_splits)

text \<open>A container that came up but does not accept connections leaves its password file behind.\<close>

lemma failed_wait_keeps_password_file:
  assumes "store_start env st w = ((Inl e, st'), w')" and "vs_started st'" and "\<not> vs_started st"
  shows "vw_password_file w' \<noteq> None"
proof -
  obtain password w1 where password: "ensure_password env w = (password, w1)" by fastforce
  from assms password show ?thesis
    by (auto simp: store_start_def Let_def wait_until_accepts_connections_def compose_def store_run_def write_password_file_def
        split: if_splits prod.splits sum.splits dest!: wait_polls_frame)
qed

end
