(* ===== verification/Local_Dashboard.thy ===== *)
theory Local_Dashboard
  imports Trace Sign_In Vector_Store
begin

text \<open>
  The two applications a runner serves on its loopback interface: the dashboard (\<open>web/dashboard_api.py\<close>, its
  signed cookies in \<open>web/local_auth.py\<close>) and the onboarding app (\<open>runner/web/local_auth.py\<close>).  A request is
  its client, cookies, token header and route; the web framework's routing and validation, the local store and
  the message authentication code are parameters.  The results: nothing is answered or changed without the
  signed cookies, job data is that of the runner's own repositories, following the cursor lists every job
  once, and no answer of the onboarding app depends on a stored secret.
\<close>

section \<open>Signed cookies\<close>

text \<open>\<open>hmac.compare_digest\<close> on texts raises for a character outside ASCII.\<close>

definition compare_digest :: "string \<Rightarrow> string \<Rightarrow> bool result" where
  "compare_digest a b = (if is_ascii a \<and> is_ascii b then Inr (a = b) else Inl TypeError)"

definition sign :: "(string \<Rightarrow> string) \<Rightarrow> string \<Rightarrow> string" where
  "sign mac token = token @ ''.'' @ mac token"

definition signed_value_matches :: "(string \<Rightarrow> string) \<Rightarrow> string \<Rightarrow> string option \<Rightarrow> bool result" where
  "signed_value_matches mac cookie token =
     (if CHR ''.'' \<notin> set cookie then Inr False
      else let (raw, digest) = rsplit_dot cookie
           in bind_r (compare_digest digest (mac raw)) (\<lambda>same.
                if \<not> same then Inr False
                else case token of Some t \<Rightarrow> compare_digest raw t | None \<Rightarrow> Inr True))"

definition cookie_of :: "(string \<times> string) list \<Rightarrow> string \<Rightarrow> string" where
  "cookie_of cookies name = (case map_of cookies name of Some v \<Rightarrow> v | None \<Rightarrow> [])"

definition session_cookie :: string where
  "session_cookie = ''pr_reviewer_dashboard_session''"

definition csrf_cookie :: string where
  "csrf_cookie = ''pr_reviewer_csrf''"

definition session_is_valid :: "(string \<Rightarrow> string) \<Rightarrow> (string \<times> string) list \<Rightarrow> bool result" where
  "session_is_valid mac cookies =
     (let cookie = cookie_of cookies session_cookie in if cookie = [] then Inr False else signed_value_matches mac cookie None)"

definition csrf_is_valid :: "(string \<Rightarrow> string) \<Rightarrow> (string \<times> string) list \<Rightarrow> string option \<Rightarrow> bool result" where
  "csrf_is_valid mac cookies header =
     (case header of
        Some (c # cs) \<Rightarrow> signed_value_matches mac (cookie_of cookies csrf_cookie) (Some (c # cs))
      | _ \<Rightarrow> Inr False)"

definition loopback_hosts :: "string list" where
  "loopback_hosts = [''127.0.0.1'', ''localhost'', ''::1'']"

definition client_is_loopback :: "string option \<Rightarrow> bool" where
  "client_is_loopback client \<longleftrightarrow> (case client of Some host \<Rightarrow> host | None \<Rightarrow> []) \<in> set loopback_hosts"

abbreviation DashboardBindError :: py_exn where "DashboardBindError \<equiv> Exception_Of ''DashboardBindError''"

definition require_loopback_bind :: "string \<Rightarrow> string \<Rightarrow> string result" where
  "require_loopback_bind host session_secret =
     (if host \<noteq> ''127.0.0.1'' then Inl DashboardBindError
      else if session_secret = [] then Inl DashboardBindError else Inr session_secret)"

text \<open>An answer: its status, its body and the cookies it sets.\<close>

record web_reply =
  wr_status :: nat
  wr_body :: json
  wr_cookies :: "(string \<times> string) list"

definition json_reply :: "nat \<Rightarrow> json \<Rightarrow> web_reply" where
  "json_reply status body = \<lparr>wr_status = status, wr_body = body, wr_cookies = []\<rparr>"

definition deny :: "nat \<Rightarrow> string \<Rightarrow> web_reply" where
  "deny status error = json_reply status (JObj [(''error'', JStr error)])"

definition new_session_response :: "(string \<Rightarrow> string) \<Rightarrow> string \<Rightarrow> string \<Rightarrow> web_reply" where
  "new_session_response mac session_token csrf_token =
     \<lparr>wr_status = 200, wr_body = JObj [(''csrf_token'', JStr csrf_token)],
      wr_cookies = [(session_cookie, sign mac session_token), (csrf_cookie, sign mac csrf_token)]\<rparr>"

section \<open>The dashboard\<close>

record dashboard_job =
  dj_job_id :: string
  dj_runner_id :: string
  dj_repository_id :: int
  dj_status :: string

record dashboard_finding =
  df_id :: string
  df_review_job_id :: string
  df_title :: string
  df_status :: string

record 's dashboard_store =
  ds_list_jobs :: "'s \<Rightarrow> dashboard_job list"
  ds_get_job :: "'s \<Rightarrow> string \<Rightarrow> dashboard_job option"
  ds_list_findings :: "'s \<Rightarrow> string \<Rightarrow> dashboard_finding list"
  ds_list_events :: "'s \<Rightarrow> string \<Rightarrow> json list"
  ds_job_costs :: "'s \<Rightarrow> string \<Rightarrow> json"
  ds_list_eval_reports :: "'s \<Rightarrow> json list"
  ds_list_pending_approvals :: "'s \<Rightarrow> dashboard_finding list"
  ds_decide_approval :: "'s \<Rightarrow> string \<Rightarrow> string \<Rightarrow> string \<times> 's"
  ds_connector_status :: "'s \<Rightarrow> json"
  ds_local_trace :: "'s \<Rightarrow> string \<Rightarrow> store_trace option"

record 's dashboard =
  db_mac :: "string \<Rightarrow> string"
  db_runner_id :: string
  db_allowed :: "int list"
  db_store :: "'s dashboard_store"
  db_hosted_trace :: "string \<Rightarrow> store_trace option"
  db_as_int :: "json \<Rightarrow> int result"
  db_as_float :: "json \<Rightarrow> pyfloat result"
  db_show_time :: "timestamp \<Rightarrow> string"
  db_placement :: "trace_placement \<Rightarrow> string"

definition job_item :: "dashboard_job \<Rightarrow> json result" where
  "job_item j =
     (if dj_job_id j = [] \<or> dj_runner_id j = [] \<or> dj_status j = [] then Inl ValueError
      else Inr (JObj [(''job_id'', JStr (dj_job_id j)), (''runner_id'', JStr (dj_runner_id j)),
                      (''repository_id'', JInt (dj_repository_id j)), (''status'', JStr (dj_status j))]))"

definition finding_item :: "dashboard_finding \<Rightarrow> json result" where
  "finding_item f =
     (if df_id f = [] \<or> df_review_job_id f = [] \<or> df_title f = [] \<or> df_status f = [] then Inl ValueError
      else Inr (JObj [(''id'', JStr (df_id f)), (''review_job_id'', JStr (df_review_job_id f)), (''title'', JStr (df_title f)),
                      (''status'', JStr (df_status f))]))"

fun object_keys :: "json \<Rightarrow> string list" where
  "object_keys (JObj kvs) = map fst kvs"
| "object_keys _ = []"

definition required_field :: "json \<Rightarrow> string \<Rightarrow> json result" where
  "required_field v k = (case json_item v k of Inl _ \<Rightarrow> Inl ValueError | Inr x \<Rightarrow> Inr x)"

text \<open>\<open>CostItem\<close>: no other field, no negative number; how pydantic reads a number is a parameter.\<close>

fun nonneg_float :: "pyfloat \<Rightarrow> bool" where
  "nonneg_float (Finite q) \<longleftrightarrow> 0 \<le> q"
| "nonneg_float (Infinite positive) \<longleftrightarrow> positive"
| "nonneg_float NaN \<longleftrightarrow> False"

definition cost_item :: "'s dashboard \<Rightarrow> json \<Rightarrow> json result" where
  "cost_item app v =
     (if \<not> is_obj v \<or> \<not> list_all (\<lambda>k. k \<in> {''input_tokens'', ''output_tokens'', ''cost_usd''}) (object_keys v) then Inl ValueError
      else bind_r (bind_r (required_field v ''input_tokens'') (db_as_int app)) (\<lambda>i.
           bind_r (bind_r (required_field v ''output_tokens'') (db_as_int app)) (\<lambda>o'.
           bind_r (bind_r (required_field v ''cost_usd'') (db_as_float app)) (\<lambda>c.
             if 0 \<le> i \<and> 0 \<le> o' \<and> nonneg_float c
             then Inr (JObj [(''input_tokens'', JInt i), (''output_tokens'', JInt o'), (''cost_usd'', JFloat c)])
             else Inl ValueError))))"

definition own_job :: "'s dashboard \<Rightarrow> dashboard_job \<Rightarrow> bool" where
  "own_job app j \<longleftrightarrow> dj_runner_id j = db_runner_id app \<and> dj_repository_id j \<in> set (db_allowed app)"

definition visible_job :: "'s dashboard \<Rightarrow> 's \<Rightarrow> string \<Rightarrow> dashboard_job option" where
  "visible_job app s job_id =
     (case ds_get_job (db_store app) s job_id of
        None \<Rightarrow> None
      | Some j \<Rightarrow> if own_job app j then Some j else None)"

text \<open>\<open>job.job_id > after\<close> compares texts by code point, which is the order of characters here.\<close>

definition page_size :: "int \<Rightarrow> nat" where
  "page_size limit = nat (min (max limit 1) 100)"

definition page_jobs :: "'s dashboard \<Rightarrow> 's \<Rightarrow> string option \<Rightarrow> int \<Rightarrow> dashboard_job list" where
  "page_jobs app s after limit =
     take (page_size limit)
       (filter (\<lambda>j. case after of None \<Rightarrow> True | Some a \<Rightarrow> a < dj_job_id j)
         (sort_key dj_job_id (filter (own_job app) (ds_list_jobs (db_store app) s))))"

definition items :: "json list \<Rightarrow> web_reply" where
  "items xs = json_reply 200 (JObj [(''items'', JArr xs)])"

definition secret_markers :: "string list" where
  "secret_markers = [''token'', ''key'', ''secret'', ''password'']"

definition marked :: "string \<Rightarrow> bool" where
  "marked key \<longleftrightarrow> (\<exists>m \<in> set secret_markers. contains m (py_lower key))"

fun redact :: "json \<Rightarrow> json" where
  "redact (JObj kvs) = JObj (map (\<lambda>(k, v). (k, if marked k then JStr ''[redacted]'' else redact v)) kvs)"
| "redact (JArr vs) = JArr (map redact vs)"
| "redact v = v"

definition segment_json :: "'s dashboard \<Rightarrow> trace_segment \<Rightarrow> json" where
  "segment_json app g =
     JObj [(''origin'', JStr (origin_text (sg_origin g))), (''trace_id'', JStr (sg_trace_id g)), (''span_id'', JStr (sg_span_id g)),
           (''parent_span_id'', case sg_parent_span_id g of None \<Rightarrow> JNull | Some p \<Rightarrow> JStr p),
           (''timestamp'', JStr (db_show_time app (sg_timestamp g))), (''kind'', JStr (sg_kind g)), (''payload'', sg_payload g),
           (''placement'', JStr (db_placement app (sg_placement g)))]"

definition trace_json :: "'s dashboard \<Rightarrow> trace_reconstruction \<Rightarrow> json" where
  "trace_json app t =
     JObj [(''job_id'', JStr (tr_job_id t)), (''trace_id'', case tr_trace_id t of None \<Rightarrow> JNull | Some i \<Rightarrow> JStr i),
           (''segments'', JArr (map (segment_json app) (tr_segments t))),
           (''missing_origins'', JArr (map JStr (sort (map origin_text (tr_missing_origins t)))))]"

definition default_costs :: json where
  "default_costs = JObj [(''input_tokens'', JInt 0), (''output_tokens'', JInt 0), (''cost_usd'', JFloat (Finite 0))]"

text \<open>The routes with their validated arguments; \<open>ApprovalBody\<close> admits two decisions.\<close>

datatype approval_body = Decision_Approved | Decision_Rejected

fun decision_text :: "approval_body \<Rightarrow> string" where
  "decision_text Decision_Approved = ''approved''"
| "decision_text Decision_Rejected = ''rejected''"

datatype route =
    Get_Health | Get_Session | Get_Account | Get_Jobs "string option" int | Get_Job string | Get_Findings string | Get_Events string
  | Get_Costs string | Get_Trace string | Get_Evals | Get_Approvals | Post_Decision string approval_body | Get_Connectors

record dashboard_request =
  rq_client :: "string option"
  rq_cookies :: "(string \<times> string) list"
  rq_csrf :: "string option"
  rq_route :: route

definition for_job :: "'s dashboard \<Rightarrow> 's \<Rightarrow> string \<Rightarrow> (dashboard_job \<Rightarrow> web_reply result) \<Rightarrow> web_reply result" where
  "for_job app s job_id answer = (case visible_job app s job_id of None \<Rightarrow> Inr (deny 404 ''not_found'') | Some j \<Rightarrow> answer j)"

definition decide :: "'s dashboard \<Rightarrow> (string \<times> string) list \<Rightarrow> string option \<Rightarrow> string \<Rightarrow> approval_body \<Rightarrow> 's \<Rightarrow>
    web_reply result \<times> 's" where
  "decide app cookies csrf finding_id decision s =
     (case csrf_is_valid (db_mac app) cookies csrf of
        Inl e \<Rightarrow> (Inl e, s)
      | Inr False \<Rightarrow> (Inr (deny 403 ''csrf''), s)
      | Inr True \<Rightarrow>
          (case ds_decide_approval (db_store app) s finding_id (decision_text decision) of
             (answer, s') \<Rightarrow>
               (Inr (if answer = ''conflict'' then deny 409 ''conflict''
                     else if answer \<noteq> ''ok'' then deny 404 ''not_found''
                     else json_reply 200 (JObj [(''status'', JStr ''ok'')])), s')))"

text \<open>The routes that only read, given the two random tokens a session needs.\<close>

fun read_route :: "'s dashboard \<Rightarrow> string \<times> string \<Rightarrow> 's \<Rightarrow> route \<Rightarrow> web_reply result" where
  "read_route app tokens s Get_Health = Inr (json_reply 200 (JObj [(''status'', JStr ''ok'')]))"
| "read_route app tokens s Get_Session = Inr (new_session_response (db_mac app) (fst tokens) (snd tokens))"
| "read_route app tokens s Get_Account = Inr (json_reply 200 (JObj [(''runner_id'', JStr (db_runner_id app))]))"
| "read_route app tokens s (Get_Jobs after limit) = bind_r (map_r job_item (page_jobs app s after limit)) (\<lambda>js. Inr (items js))"
| "read_route app tokens s (Get_Job job_id) = for_job app s job_id (\<lambda>j. bind_r (job_item j) (\<lambda>v. Inr (json_reply 200 v)))"
| "read_route app tokens s (Get_Findings job_id) =
     for_job app s job_id (\<lambda>_. bind_r (map_r finding_item (ds_list_findings (db_store app) s job_id)) (\<lambda>fs. Inr (items fs)))"
| "read_route app tokens s (Get_Events job_id) =
     for_job app s job_id (\<lambda>_. Inr (items (map redact (ds_list_events (db_store app) s job_id))))"
| "read_route app tokens s (Get_Costs job_id) =
     for_job app s job_id (\<lambda>_.
       let raw = ds_job_costs (db_store app) s job_id
       in bind_r (cost_item app (if json_truthy raw then raw else default_costs)) (\<lambda>v. Inr (json_reply 200 v)))"
| "read_route app tokens s (Get_Trace job_id) =
     for_job app s job_id (\<lambda>_.
       bind_r (reconstruct_trace job_id (db_hosted_trace app job_id) (ds_local_trace (db_store app) s job_id) Redacted_Level)
         (\<lambda>t. Inr (json_reply 200 (trace_json app t))))"
| "read_route app tokens s Get_Evals = Inr (items (ds_list_eval_reports (db_store app) s))"
| "read_route app tokens s Get_Approvals =
     bind_r (map_r (\<lambda>f. bind_r (finding_item f) (\<lambda>v. Inr (df_id f, v))) (ds_list_pending_approvals (db_store app) s))
       (\<lambda>vs. Inr (items (map snd (sort_key fst vs))))"
| "read_route app tokens s Get_Connectors = Inr (json_reply 200 (ds_connector_status (db_store app) s))"
| "read_route app tokens s (Post_Decision finding_id decision) = Inr (deny 404 ''not_found'')"

definition dispatch_route :: "'s dashboard \<Rightarrow> string \<times> string \<Rightarrow> dashboard_request \<Rightarrow> 's \<Rightarrow> web_reply result \<times> 's" where
  "dispatch_route app tokens q s =
     (case rq_route q of
        Post_Decision finding_id decision \<Rightarrow> decide app (rq_cookies q) (rq_csrf q) finding_id decision s
      | r \<Rightarrow> (read_route app tokens s r, s))"

definition public_route :: "route \<Rightarrow> bool" where
  "public_route r \<longleftrightarrow> r = Get_Health \<or> r = Get_Session"

definition guard :: "'s dashboard \<Rightarrow> string \<times> string \<Rightarrow> dashboard_request \<Rightarrow> 's \<Rightarrow> web_reply result \<times> 's" where
  "guard app tokens q s =
     (if \<not> client_is_loopback (rq_client q) then (Inr (deny 403 ''loopback_only''), s)
      else if public_route (rq_route q) then dispatch_route app tokens q s
      else case session_is_valid (db_mac app) (rq_cookies q) of
             Inl e \<Rightarrow> (Inl e, s)
           | Inr False \<Rightarrow> (Inr (deny 401 ''unauthenticated''), s)
           | Inr True \<Rightarrow> dispatch_route app tokens q s)"

section \<open>The onboarding app\<close>

abbreviation LocalAuthError :: py_exn where "LocalAuthError \<equiv> Exception_Of ''LocalAuthError''"

definition rstrip_slash :: "string \<Rightarrow> string" where
  "rstrip_slash s = rev (dropWhile (\<lambda>c. c = CHR ''/'') (rev s))"

definition hosted_origin :: "string \<Rightarrow> string result" where
  "hosted_origin origin =
     (let cleaned = rstrip_slash origin
      in if \<not> startswith cleaned ''https://'' then Inl LocalAuthError
         else if contains ''127.0.0.1'' cleaned \<or> contains ''localhost'' cleaned then Inl LocalAuthError
         else Inr cleaned)"

definition allowed_hosted_return_to_paths :: "string list" where
  "allowed_hosted_return_to_paths = [''/dashboard'']"

definition local_model_key_secret_name :: string where
  "local_model_key_secret_name = ''model_key''"

text \<open>\<open>urlencode\<close> of one pair: every byte of the UTF-8 text that is not unreserved is escaped, a blank is a plus.\<close>

definition utf8_bytes :: "char \<Rightarrow> nat list" where
  "utf8_bytes c = (let n = of_char c in if n < 128 then [n] else [192 + n div 64, 128 + n mod 64])"

definition hex_digit :: "nat \<Rightarrow> char" where
  "hex_digit n = (if n < 10 then char_of (48 + n) else char_of (55 + n))"

definition unreserved :: "nat \<Rightarrow> bool" where
  "unreserved b \<longleftrightarrow> 48 \<le> b \<and> b \<le> 57 \<or> 65 \<le> b \<and> b \<le> 90 \<or> 97 \<le> b \<and> b \<le> 122 \<or> b \<in> {45, 46, 95, 126}"

definition quote_byte :: "nat \<Rightarrow> string" where
  "quote_byte b =
     (if unreserved b then [char_of b] else if b = 32 then ''+'' else [CHR ''%'', hex_digit (b div 16), hex_digit (b mod 16)])"

definition quote_plus :: "string \<Rightarrow> string" where
  "quote_plus s = concat (map quote_byte (concat (map utf8_bytes s)))"

datatype hosted_exchange = Exchange_Accepted string string | Exchange_Rejected string

text \<open>The hosted client, given the status and the parsed body of the answer; the validation of the credential is
  pydantic's.\<close>

definition known_denials :: "string list" where
  "known_denials = [''invalid_or_expired_code'', ''repository_not_in_installation'', ''revoked_installation'', ''unknown_installation'']"

definition pending_exchange :: "(json \<Rightarrow> (string \<times> string) result) \<Rightarrow> int \<Rightarrow> json result \<Rightarrow> hosted_exchange result" where
  "pending_exchange validate_credential status_code answer =
     bind_r answer (\<lambda>payload.
       if status_code = 400 then
         (case payload of
            JObj kvs \<Rightarrow>
              Inr (Exchange_Rejected
                (case map_of kvs ''detail'' of
                   Some (JStr reason) \<Rightarrow> if reason \<in> set known_denials then reason else ''invalid_or_expired_code''
                 | _ \<Rightarrow> ''invalid_or_expired_code''))
          | _ \<Rightarrow> Inl (Exception_Of ''AttributeError''))
       else bind_r (validate_credential payload) (\<lambda>(runner_id, credential). Inr (Exchange_Accepted runner_id credential)))"

definition pending_status :: "json result \<Rightarrow> string result" where
  "pending_status answer =
     bind_r answer (\<lambda>payload.
       case payload of
         JObj kvs \<Rightarrow>
           Inr (if map_of kvs ''state'' = Some (JStr ''pending'') then ''pending''
                else if map_of kvs ''state'' = Some (JStr ''exchangeable'') then ''exchangeable''
                else ''invalid_or_expired'')
       | _ \<Rightarrow> Inl (Exception_Of ''AttributeError''))"

record 's onboarding =
  ob_mac :: "string \<Rightarrow> string"
  ob_set :: "string \<Rightarrow> string \<Rightarrow> 's \<Rightarrow> 's"
  ob_exchange :: "string \<Rightarrow> string \<Rightarrow> hosted_exchange result"
  ob_status :: "string \<Rightarrow> string \<Rightarrow> string result"
  ob_decision :: mode_decision
  ob_origin :: string
  ob_return_to :: string

definition create_local_onboarding_app ::
  "string \<Rightarrow> string \<Rightarrow> (string \<Rightarrow> string \<Rightarrow> string) \<Rightarrow> (string \<Rightarrow> string \<Rightarrow> 's \<Rightarrow> 's) \<Rightarrow> (string \<Rightarrow> string \<Rightarrow> hosted_exchange result) \<Rightarrow>
   (string \<Rightarrow> string \<Rightarrow> string result) \<Rightarrow> reported_probe \<Rightarrow> runner_mode \<Rightarrow> string \<Rightarrow> string \<Rightarrow> 's onboarding result" where
  "create_local_onboarding_app host session_secret hmac set_secret exchange status_poll reported requested_mode origin return_to =
     (if host \<noteq> ''127.0.0.1'' then Inl LocalAuthError
      else if session_secret = [] then Inl LocalAuthError
      else bind_r (hosted_origin origin) (\<lambda>cleaned.
        if return_to \<notin> set allowed_hosted_return_to_paths then Inl LocalAuthError
        else Inr \<lparr>ob_mac = hmac session_secret, ob_set = set_secret, ob_exchange = exchange, ob_status = status_poll,
                  ob_decision = select_runtime_mode reported requested_mode, ob_origin = cleaned, ob_return_to = return_to\<rparr>))"

definition csrf_ok :: "(string \<Rightarrow> string) \<Rightarrow> (string \<times> string) list \<Rightarrow> string option \<Rightarrow> bool result" where
  "csrf_ok mac cookies header =
     (case header of
        Some (c # cs) \<Rightarrow>
          (let cookie = cookie_of cookies csrf_cookie
           in if CHR ''.'' \<notin> set cookie then Inr False
              else let (token, digest) = rsplit_dot cookie
                   in bind_r (compare_digest token (c # cs)) (\<lambda>same.
                        if \<not> same then Inr False else compare_digest digest (mac token)))
      | _ \<Rightarrow> Inr False)"

datatype onboarding_route =
    Onboarding_Session | Onboarding_Sign_In | Onboarding_Status string string | Onboarding_Mode
  | Onboarding_Model_Key string string | Onboarding_Exchange string string

record onboarding_request =
  oq_cookies :: "(string \<times> string) list"
  oq_csrf :: "string option"
  oq_route :: onboarding_route

fun mode_text :: "runner_mode \<Rightarrow> string" where
  "mode_text Full = ''full''"
| "mode_text Analysis_Only = ''analysis_only''"

definition mode_preview :: "mode_decision \<Rightarrow> json" where
  "mode_preview d =
     JObj [(''granted_mode'', JStr (mode_text (md_granted_mode d))), (''requested_mode'', JStr (mode_text (md_requested_mode d))),
           (''downgraded'', JBool (md_downgraded d)), (''disabled_features'', JArr (map JStr (md_disabled_features d))),
           (''forces_human_approval'', JBool (md_forces_human_approval d))]"

definition pairing_sign_in :: "'s onboarding \<Rightarrow> json" where
  "pairing_sign_in app = JObj [(''url'', JStr (ob_origin app @ ''/api/auth/github/sign-in?return_to='' @ quote_plus (ob_return_to app)))]"

definition onboarding_session :: "'s onboarding \<Rightarrow> string \<Rightarrow> web_reply" where
  "onboarding_session app token =
     \<lparr>wr_status = 200, wr_body = JObj [(''csrf_token'', JStr token)], wr_cookies = [(csrf_cookie, sign (ob_mac app) token)]\<rparr>"

definition store_model_key :: "'s onboarding \<Rightarrow> string \<Rightarrow> 's \<Rightarrow> web_reply result \<times> 's" where
  "store_model_key app key s =
     (Inr (json_reply 200 (JObj [(''stored'', JBool True)])), ob_set app local_model_key_secret_name key s)"

definition exchange_pairing :: "'s onboarding \<Rightarrow> string \<Rightarrow> string \<Rightarrow> 's \<Rightarrow> web_reply result \<times> 's" where
  "exchange_pairing app code pkce s =
     (case ob_exchange app code pkce of
        Inl e \<Rightarrow> (Inl e, s)
      | Inr (Exchange_Rejected reason) \<Rightarrow> (Inr (json_reply 400 (JObj [(''reason'', JStr reason)])), s)
      | Inr (Exchange_Accepted runner_id credential) \<Rightarrow>
          (Inr (json_reply 200 (JObj [(''exchanged'', JBool True), (''runner_id'', JStr runner_id)])),
           ob_set app ''runner_credential'' credential s))"

definition with_csrf ::
  "'s onboarding \<Rightarrow> onboarding_request \<Rightarrow> ('s \<Rightarrow> web_reply result \<times> 's) \<Rightarrow> 's \<Rightarrow> web_reply result \<times> 's" where
  "with_csrf app q handler s =
     (case csrf_ok (ob_mac app) (oq_cookies q) (oq_csrf q) of
        Inl e \<Rightarrow> (Inl e, s)
      | Inr ok \<Rightarrow> if ok then handler s else (Inr (deny 403 ''csrf''), s))"

definition onboard :: "'s onboarding \<Rightarrow> string \<Rightarrow> onboarding_request \<Rightarrow> 's \<Rightarrow> web_reply result \<times> 's" where
  "onboard app token q s =
     (case oq_route q of
        Onboarding_Session \<Rightarrow> (Inr (onboarding_session app token), s)
      | Onboarding_Sign_In \<Rightarrow> (Inr (json_reply 200 (pairing_sign_in app)), s)
      | Onboarding_Status code challenge \<Rightarrow>
          (bind_r (ob_status app code challenge) (\<lambda>state. Inr (json_reply 200 (JObj [(''state'', JStr state)]))), s)
      | Onboarding_Mode \<Rightarrow> (Inr (json_reply 200 (mode_preview (ob_decision app))), s)
      | Onboarding_Model_Key provider key \<Rightarrow> with_csrf app q (store_model_key app key) s
      | Onboarding_Exchange code pkce \<Rightarrow> with_csrf app q (exchange_pairing app code pkce) s)"

section \<open>What a signed cookie proves\<close>

lemma compare_digest_True [simp]: "compare_digest a b = Inr True \<longleftrightarrow> is_ascii a \<and> a = b"
  by (auto simp: compare_digest_def)

lemma signed_value_matchesD:
  assumes "signed_value_matches mac cookie token = Inr True"
  shows "\<exists>raw. cookie = sign mac raw \<and> (\<forall>t. token = Some t \<longrightarrow> raw = t)"
proof -
  obtain raw d where rd: "rsplit_dot cookie = (raw, d)" by (meson surj_pair)
  have dot: "CHR ''.'' \<in> set cookie" using assms by (auto simp: signed_value_matches_def split: if_splits)
  from assms dot rd have "compare_digest d (mac raw) = Inr True"
    by (cases "compare_digest d (mac raw)") (auto simp: signed_value_matches_def split: if_splits)
  then have "d = mac raw" by simp
  moreover have "token = Some t \<Longrightarrow> raw = t" for t
    using assms dot rd by (cases "compare_digest d (mac raw)") (auto simp: signed_value_matches_def split: if_splits)
  ultimately show ?thesis using rsplit_dot_join [OF dot rd] by (auto simp: sign_def)
qed

lemma sign_accepted:
  assumes "\<And>t. CHR ''.'' \<notin> set (mac t) \<and> is_ascii (mac t)" "is_ascii token"
  shows "signed_value_matches mac (sign mac token) None = Inr True"
    "signed_value_matches mac (sign mac token) (Some token) = Inr True"
  using assms rsplit_dot_append [of "mac token" token]
  by (auto simp: signed_value_matches_def sign_def compare_digest_def)

lemma session_is_validD:
  "session_is_valid mac cookies = Inr True \<Longrightarrow> \<exists>t. cookie_of cookies session_cookie = sign mac t"
  by (auto simp: session_is_valid_def Let_def split: if_splits dest: signed_value_matchesD)

lemma csrf_is_validD:
  "csrf_is_valid mac cookies header = Inr True \<Longrightarrow>
   \<exists>t. t \<noteq> [] \<and> header = Some t \<and> cookie_of cookies csrf_cookie = sign mac t"
  by (auto simp: csrf_is_valid_def split: option.splits list.splits dest!: signed_value_matchesD)

lemma csrf_okD:
  assumes "csrf_ok mac cookies header = Inr True"
  shows "\<exists>t. t \<noteq> [] \<and> header = Some t \<and> cookie_of cookies csrf_cookie = sign mac t"
proof -
  let ?cookie = "cookie_of cookies csrf_cookie"
  obtain c cs where h: "header = Some (c # cs)"
    using assms by (auto simp: csrf_ok_def split: option.splits list.splits)
  obtain raw d where rd: "rsplit_dot ?cookie = (raw, d)" by (meson surj_pair)
  have dot: "CHR ''.'' \<in> set ?cookie" using assms h by (auto simp: csrf_ok_def Let_def split: if_splits)
  from assms h dot rd have "compare_digest raw (c # cs) = Inr True"
    by (cases "compare_digest raw (c # cs)") (auto simp: csrf_ok_def Let_def split: if_splits)
  moreover from assms h dot rd have "compare_digest d (mac raw) = Inr True"
    by (cases "compare_digest raw (c # cs)") (auto simp: csrf_ok_def Let_def split: if_splits)
  ultimately have "?cookie = sign mac (c # cs)" using rsplit_dot_join [OF dot rd] by (simp add: sign_def)
  with h show ?thesis by blast
qed

section \<open>What the guard lets through\<close>

fun about_job :: "route \<Rightarrow> string option" where
  "about_job (Get_Job i) = Some i"
| "about_job (Get_Findings i) = Some i"
| "about_job (Get_Events i) = Some i"
| "about_job (Get_Costs i) = Some i"
| "about_job (Get_Trace i) = Some i"
| "about_job _ = None"

lemma guard_denied:
  "\<not> client_is_loopback (rq_client q) \<Longrightarrow> guard app tokens q s = (Inr (deny 403 ''loopback_only''), s)"
  "client_is_loopback (rq_client q) \<Longrightarrow> \<not> public_route (rq_route q) \<Longrightarrow> session_is_valid (db_mac app) (rq_cookies q) = Inr False \<Longrightarrow>
   guard app tokens q s = (Inr (deny 401 ''unauthenticated''), s)"
  by (simp_all add: guard_def)

lemma guard_cases:
  obtains (stopped) e where "guard app tokens q s = (Inl e, s)"
  | (denied) status error where "guard app tokens q s = (Inr (deny status error), s)" "status \<noteq> 200"
  | (passed) "client_is_loopback (rq_client q)"
      "public_route (rq_route q) \<or> session_is_valid (db_mac app) (rq_cookies q) = Inr True"
      "guard app tokens q s = dispatch_route app tokens q s"
proof (cases "client_is_loopback (rq_client q)")
  case False
  then show ?thesis using denied by (simp add: guard_def)
next
  case here: True
  show ?thesis
  proof (cases "public_route (rq_route q)")
    case True
    with here show ?thesis using passed by (simp add: guard_def)
  next
    case False
    show ?thesis
    proof (cases "session_is_valid (db_mac app) (rq_cookies q)")
      case (Inl e)
      with here False show ?thesis using stopped by (simp add: guard_def)
    next
      case (Inr ok)
      with here False show ?thesis using denied passed by (cases ok) (simp_all add: guard_def)
    qed
  qed
qed

lemma dispatch_changes:
  assumes "snd (dispatch_route app tokens q s) \<noteq> s"
  shows "\<exists>finding_id d t. rq_route q = Post_Decision finding_id d \<and> t \<noteq> [] \<and> rq_csrf q = Some t \<and>
    cookie_of (rq_cookies q) csrf_cookie = sign (db_mac app) t \<and>
    snd (dispatch_route app tokens q s) = snd (ds_decide_approval (db_store app) s finding_id (decision_text d))"
proof -
  obtain finding_id d where r: "rq_route q = Post_Decision finding_id d"
    using assms by (cases "rq_route q") (simp_all add: dispatch_route_def)
  have v: "csrf_is_valid (db_mac app) (rq_cookies q) (rq_csrf q) = Inr True"
    using assms r by (simp add: dispatch_route_def decide_def split: sum.splits bool.splits)
  from r v have "snd (dispatch_route app tokens q s) = snd (ds_decide_approval (db_store app) s finding_id (decision_text d))"
    by (simp add: dispatch_route_def decide_def split: prod.split)
  with csrf_is_validD [OF v] r show ?thesis by blast
qed

lemma job_route_hidden:
  assumes "about_job r = Some i" "visible_job app s i = None"
  shows "read_route app tokens s r = Inr (deny 404 ''not_found'')"
  using assms by (cases r) (simp_all add: for_job_def)

lemma dispatch_job_route: "about_job (rq_route q) = Some i \<Longrightarrow> dispatch_route app tokens q s = (read_route app tokens s (rq_route q), s)"
  by (cases "rq_route q") (simp_all add: dispatch_route_def)

lemma deny_status [simp]: "wr_status (deny status error) = status"
  by (simp add: deny_def json_reply_def)

lemma visible_jobD: "visible_job app s i = Some j \<Longrightarrow> ds_get_job (db_store app) s i = Some j \<and> own_job app j"
  by (auto simp: visible_job_def split: option.splits if_splits)


definition sample_dashboard :: "nat dashboard" where
  "sample_dashboard =
     \<lparr>db_mac = (\<lambda>_. ''ab''), db_runner_id = ''r1'', db_allowed = [7],
      db_store = \<lparr>ds_list_jobs = (\<lambda>_. [\<lparr>dj_job_id = ''b'', dj_runner_id = ''r1'', dj_repository_id = 7, dj_status = ''done''\<rparr>,
                                       \<lparr>dj_job_id = ''c'', dj_runner_id = ''r2'', dj_repository_id = 7, dj_status = ''done''\<rparr>,
                                       \<lparr>dj_job_id = ''a'', dj_runner_id = ''r1'', dj_repository_id = 7, dj_status = ''open''\<rparr>]),
                  ds_get_job = (\<lambda>_ _. None), ds_list_findings = (\<lambda>_ _. []), ds_list_events = (\<lambda>_ _. []),
                  ds_job_costs = (\<lambda>_ _. JNull), ds_list_eval_reports = (\<lambda>_. []), ds_list_pending_approvals = (\<lambda>_. []),
                  ds_decide_approval = (\<lambda>n _ _. (''ok'', Suc n)), ds_connector_status = (\<lambda>_. JObj []),
                  ds_local_trace = (\<lambda>_ _. None)\<rparr>,
      db_hosted_trace = (\<lambda>_. None), db_as_int = py_int, db_as_float = (\<lambda>v. case v of JFloat q \<Rightarrow> Inr q | _ \<Rightarrow> Inl ValueError), db_show_time = (\<lambda>_. []), db_placement = (\<lambda>_. [])\<rparr>"

definition sample_decision :: dashboard_request where
  "sample_decision =
     \<lparr>rq_client = Some ''::1'', rq_cookies = [(session_cookie, ''s.ab''), (csrf_cookie, ''t.ab'')], rq_csrf = Some ''t'',
      rq_route = Post_Decision ''f1'' Decision_Approved\<rparr>"


section \<open>Following the cursor\<close>

text \<open>A client that asks for the next page after the last job it saw, at most \<open>n\<close> times.\<close>

fun follow_cursor :: "'s dashboard \<Rightarrow> 's \<Rightarrow> int \<Rightarrow> nat \<Rightarrow> string option \<Rightarrow> dashboard_job list" where
  "follow_cursor app s limit 0 after = []"
| "follow_cursor app s limit (Suc n) after =
     (let page = page_jobs app s after limit
      in if page = [] then [] else page @ follow_cursor app s limit n (Some (dj_job_id (last page))))"

lemma page_size_bounds: "1 \<le> page_size limit" "page_size limit \<le> 100"
  by (auto simp: page_size_def)

lemma strictly_sorted_keys:
  "distinct (map f xs) \<Longrightarrow> sorted_wrt (\<lambda>a b. f a < (f b :: 'k :: linorder)) (sort_key f xs)"
proof -
  assume "distinct (map f xs)"
  then have "distinct (map f (sort_key f xs))"
    by (metis distinct_map distinct_sort inj_on_cong set_sort)
  then have "sorted_wrt (<) (map f (sort_key f xs))"
    by (simp add: strict_sorted_iff)
  then show ?thesis by (simp add: sorted_wrt_map)
qed

lemma filter_after_last:
  assumes "sorted_wrt (\<lambda>a b. f a < (f b :: 'k :: linorder)) (ys @ zs)" "ys \<noteq> []"
  shows "filter (\<lambda>x. f (last ys) < f x) (ys @ zs) = zs"
proof -
  have "\<not> f (last ys) < f y" if "y \<in> set ys" for y
  proof -
    from assms(2) obtain ys' where ys: "ys = ys' @ [last ys]" by (metis append_butlast_last_id)
    with that consider "y \<in> set ys'" | "y = last ys" by (metis Un_iff empty_set list.set(2) set_append singletonD)
    then show ?thesis using assms(1) by (cases; subst (asm) ys) (auto simp: sorted_wrt_append)
  qed
  moreover have "f (last ys) < f z" if "z \<in> set zs" for z
    using assms that by (auto simp: sorted_wrt_append)
  ultimately show ?thesis by (simp add: filter_empty_conv filter_id_conv)
qed

definition own_jobs_sorted :: "'s dashboard \<Rightarrow> 's \<Rightarrow> dashboard_job list" where
  "own_jobs_sorted app s = sort_key dj_job_id (filter (own_job app) (ds_list_jobs (db_store app) s))"

lemma follow_cursor_rest:
  assumes "sorted_wrt (\<lambda>a b. dj_job_id a < dj_job_id b) (seen @ rest)" "own_jobs_sorted app s = seen @ rest"
    "length rest < n" "after = (if seen = [] then None else Some (dj_job_id (last seen)))"
  shows "follow_cursor app s limit n after = rest"
  using assms
proof (induction n arbitrary: seen rest after)
  case (Suc n)
  have page: "page_jobs app s after limit = take (page_size limit) rest"
  proof (cases "seen = []")
    case True
    with Suc.prems show ?thesis by (simp add: page_jobs_def own_jobs_sorted_def [symmetric])
  next
    case False
    with Suc.prems filter_after_last [of dj_job_id seen rest] show ?thesis
      by (simp add: page_jobs_def own_jobs_sorted_def [symmetric])
  qed
  show ?case
  proof (cases "rest = []")
    case True
    with page show ?thesis by simp
  next
    case False
    let ?p = "take (page_size limit) rest" and ?d = "drop (page_size limit) rest"
    have ne: "?p \<noteq> []" using False page_size_bounds(1) [of limit] by simp
    have "follow_cursor app s limit n (Some (dj_job_id (last ?p))) = ?d"
    proof (rule Suc.IH [of "seen @ ?p"])
      show "length ?d < n" using Suc.prems(3) False page_size_bounds(1) [of limit] by (cases rest) auto
    qed (use Suc.prems ne in simp_all)
    then show ?thesis using page ne by (simp add: Let_def)
  qed
qed simp

text \<open>Pages.  A page holds at most a hundred jobs and at least one while any is left.  A client that
  follows the cursor sees every job of this runner in its repositories exactly once, in the order of the job
  ids, and nothing else, whatever page size it asks for.\<close>

theorem dashboard_pages_list_each_job_once:
  assumes "distinct (map dj_job_id (ds_list_jobs (db_store app) s))" "length (ds_list_jobs (db_store app) s) < n"
  shows "follow_cursor app s limit n None = sort_key dj_job_id (filter (own_job app) (ds_list_jobs (db_store app) s)) \<and>
    length (page_jobs app s after limit) \<le> 100 \<and>
    (\<forall>j \<in> set (page_jobs app s after limit). dj_runner_id j = db_runner_id app \<and> dj_repository_id j \<in> set (db_allowed app))"
proof (intro conjI)
  let ?js = "filter (own_job app) (ds_list_jobs (db_store app) s)"
  have "distinct (map dj_job_id ?js)" using assms(1) by (rule distinct_map_filter)
  from strictly_sorted_keys [OF this] have "sorted_wrt (\<lambda>a b. dj_job_id a < dj_job_id b) ([] @ own_jobs_sorted app s)"
    by (simp add: own_jobs_sorted_def)
  moreover have "length (own_jobs_sorted app s) < n"
    using assms(2) by (simp add: own_jobs_sorted_def) (meson le_less_trans length_filter_le)
  ultimately show "follow_cursor app s limit n None = sort_key dj_job_id ?js"
    using follow_cursor_rest [of "[]" "own_jobs_sorted app s" app s n None limit] by (simp add: own_jobs_sorted_def)
  show "length (page_jobs app s after limit) \<le> 100" using page_size_bounds(2) [of limit] by (simp add: page_jobs_def)
  show "\<forall>j \<in> set (page_jobs app s after limit). dj_runner_id j = db_runner_id app \<and> dj_repository_id j \<in> set (db_allowed app)"
    by (auto simp: page_jobs_def own_job_def dest: in_set_takeD)
qed

theorem dashboard_pages_list_each_job_once_witness:
  "map dj_job_id (follow_cursor sample_dashboard 0 1 4 None) = [''a'', ''b'']"
proof -
  have "distinct (map dj_job_id (ds_list_jobs (db_store sample_dashboard) 0))"
    "length (ds_list_jobs (db_store sample_dashboard) 0) < 4" by code_simp+
  from dashboard_pages_list_each_job_once [OF this]
  have "follow_cursor sample_dashboard 0 1 4 None =
      sort_key dj_job_id (filter (own_job sample_dashboard) (ds_list_jobs (db_store sample_dashboard) 0))" by blast
  moreover have "map dj_job_id (sort_key dj_job_id (filter (own_job sample_dashboard) (ds_list_jobs (db_store sample_dashboard) 0))) =
      [''a'', ''b'']" by code_simp
  ultimately show ?thesis by simp
qed

section \<open>Events are shown without marked fields\<close>

lemma no_field_of_leaf [simp]: "\<not> field_of k v (JStr t)"
  by (auto elim: field_of.cases)

lemma redact_masks: "field_of k v (redact w) \<Longrightarrow> marked k \<Longrightarrow> v = JStr ''[redacted]''"
proof (induction w arbitrary: k v rule: redact.induct)
  case (1 kvs)
  from "1.prems"(1) have "field_of k v (JObj (map (\<lambda>(k, v). (k, if marked k then JStr ''[redacted]'' else redact v)) kvs))" by simp
  then consider (here) u where "(k, u) \<in> set kvs" "v = (if marked k then JStr ''[redacted]'' else redact u)"
    | (below) k' u where "(k', u) \<in> set kvs" "field_of k v (if marked k' then JStr ''[redacted]'' else redact u)"
    by (cases rule: field_of_objE) auto
  then show ?case
  proof cases
    case here
    with "1.prems"(2) show ?thesis by simp
  next
    case below
    then have "\<not> marked k'" by (cases "marked k'") simp_all
    with below show ?thesis using "1.IH" [OF below(1) refl] "1.prems"(2) by auto
  qed
next
  case (2 vs)
  from "2.prems"(1) have "field_of k v (JArr (map redact vs))" by simp
  then obtain w where "w \<in> set vs" "field_of k v (redact w)"
    by (cases rule: field_of.cases) auto
  with "2.IH" "2.prems"(2) show ?case by blast
qed (auto elim: field_of.cases)

section \<open>The onboarding app gives no secret back\<close>

fun hide_credential :: "hosted_exchange \<Rightarrow> hosted_exchange" where
  "hide_credential (Exchange_Accepted runner_id credential) = Exchange_Accepted runner_id []"
| "hide_credential (Exchange_Rejected reason) = Exchange_Rejected reason"

fun hide_key :: "onboarding_route \<Rightarrow> onboarding_route" where
  "hide_key (Onboarding_Model_Key provider key) = Onboarding_Model_Key [] []"
| "hide_key r = r"

definition same_but_secrets :: "'s onboarding \<Rightarrow> 's onboarding \<Rightarrow> bool" where
  "same_but_secrets app app' \<longleftrightarrow>
     app' = app\<lparr>ob_exchange := ob_exchange app'\<rparr> \<and>
     (\<forall>code pkce. map_sum id hide_credential (ob_exchange app' code pkce) = map_sum id hide_credential (ob_exchange app code pkce))"

lemma same_but_secretsD:
  assumes "same_but_secrets app app'"
  shows "ob_mac app' = ob_mac app" "ob_status app' = ob_status app" "ob_decision app' = ob_decision app"
    "ob_origin app' = ob_origin app" "ob_return_to app' = ob_return_to app"
  using assms by (cases app; cases app'; simp add: same_but_secrets_def)+

lemma exchange_pairing_answer:
  assumes "same_but_secrets app app'"
  shows "fst (exchange_pairing app' code pkce s') = fst (exchange_pairing app code pkce s)"
proof -
  have "map_sum id hide_credential (ob_exchange app' code pkce) = map_sum id hide_credential (ob_exchange app code pkce)"
    using assms by (simp add: same_but_secrets_def)
  then show ?thesis
    by (cases "ob_exchange app code pkce"; cases "ob_exchange app' code pkce")
       (auto simp: exchange_pairing_def elim!: hide_credential.elims split: hosted_exchange.splits)
qed

lemma with_csrf_answer:
  "fst (h s) = fst (h' s') \<Longrightarrow> ob_mac app' = ob_mac app \<Longrightarrow> oq_cookies q' = oq_cookies q \<Longrightarrow> oq_csrf q' = oq_csrf q \<Longrightarrow>
   fst (with_csrf app' q' h' s') = fst (with_csrf app q h s)"
  by (simp add: with_csrf_def split: sum.split)

lemma with_csrf_changes:
  assumes "snd (with_csrf app q h s) \<noteq> s"
  shows "snd (with_csrf app q h s) = snd (h s)"
    "\<exists>t. t \<noteq> [] \<and> oq_csrf q = Some t \<and> cookie_of (oq_cookies q) csrf_cookie = sign (ob_mac app) t"
proof -
  have "csrf_ok (ob_mac app) (oq_cookies q) (oq_csrf q) = Inr True"
    using assms by (auto simp: with_csrf_def split: sum.splits if_splits)
  then show "snd (with_csrf app q h s) = snd (h s)"
    "\<exists>t. t \<noteq> [] \<and> oq_csrf q = Some t \<and> cookie_of (oq_cookies q) csrf_cookie = sign (ob_mac app) t"
    by (simp add: with_csrf_def, rule csrf_okD)
qed

lemma onboard_answer:
  assumes "same_but_secrets app app'" "hide_key r = hide_key (oq_route q)"
  shows "fst (onboard app' token (q\<lparr>oq_route := r\<rparr>) s') = fst (onboard app token q s)"
proof (cases "oq_route q")
  case (Onboarding_Model_Key provider key)
  with assms(2) obtain p k where "r = Onboarding_Model_Key p k" by (cases r) auto
  moreover have "fst (with_csrf app' (q\<lparr>oq_route := r\<rparr>) (store_model_key app' k) s') = fst (with_csrf app q (store_model_key app key) s)"
    by (rule with_csrf_answer) (simp_all add: store_model_key_def same_but_secretsD [OF assms(1)])
  ultimately show ?thesis using Onboarding_Model_Key by (simp add: onboard_def)
next
  case (Onboarding_Exchange code pkce)
  with assms(2) have "r = Onboarding_Exchange code pkce" by (cases r) auto
  moreover have "fst (with_csrf app' (q\<lparr>oq_route := r\<rparr>) (exchange_pairing app' code pkce) s') = fst (with_csrf app q (exchange_pairing app code pkce) s)"
    by (rule with_csrf_answer, rule exchange_pairing_answer [OF assms(1), symmetric]) (simp_all add: same_but_secretsD [OF assms(1)])
  ultimately show ?thesis using Onboarding_Exchange by (simp add: onboard_def)
qed (insert assms(2), (cases r; simp add: onboard_def onboarding_session_def pairing_sign_in_def same_but_secretsD [OF assms(1)])+)

lemma onboard_changes:
  assumes "snd (onboard app token q s) \<noteq> s"
  shows "(\<exists>t. t \<noteq> [] \<and> oq_csrf q = Some t \<and> cookie_of (oq_cookies q) csrf_cookie = sign (ob_mac app) t) \<and>
    ((\<exists>provider key. oq_route q = Onboarding_Model_Key provider key \<and> snd (onboard app token q s) = ob_set app ''model_key'' key s) \<or>
     (\<exists>code pkce runner_id credential. oq_route q = Onboarding_Exchange code pkce \<and>
        ob_exchange app code pkce = Inr (Exchange_Accepted runner_id credential) \<and>
        snd (onboard app token q s) = ob_set app ''runner_credential'' credential s))"
proof (cases "oq_route q")
  case (Onboarding_Model_Key provider key)
  then have o: "onboard app token q s = with_csrf app q (store_model_key app key) s" by (simp add: onboard_def)
  with assms with_csrf_changes [of app q "store_model_key app key" s] Onboarding_Model_Key show ?thesis
    by (simp add: store_model_key_def local_model_key_secret_name_def)
next
  case (Onboarding_Exchange code pkce)
  then have o: "onboard app token q s = with_csrf app q (exchange_pairing app code pkce) s" by (simp add: onboard_def)
  with assms have c: "snd (with_csrf app q (exchange_pairing app code pkce) s) \<noteq> s" by simp
  have e: "snd (onboard app token q s) = snd (exchange_pairing app code pkce s)" using with_csrf_changes(1) [OF c] o by simp
  with assms have "snd (exchange_pairing app code pkce s) \<noteq> s" by simp
  then obtain runner_id credential where "ob_exchange app code pkce = Inr (Exchange_Accepted runner_id credential)"
    "snd (exchange_pairing app code pkce s) = ob_set app ''runner_credential'' credential s"
    by (auto simp: exchange_pairing_def split: sum.splits hosted_exchange.splits)
  with with_csrf_changes(2) [OF c] e Onboarding_Exchange show ?thesis by simp
qed (insert assms, simp_all add: onboard_def)

text \<open>Onboarding.  No answer of the onboarding app depends on a secret: two apps that differ in what their
  store holds and in the credentials the pairing exchange returns give the same answer to two requests that
  differ in the model key they carry.  The store of secrets changes only by a request whose token header is
  signed in its cookie, and then exactly one entry is set, to the key of the request or to the credential that
  the exchange returned.\<close>

theorem onboarding_keeps_secrets:
  assumes "same_but_secrets app app'" "hide_key r = hide_key (oq_route q)"
  shows "fst (onboard app' token (q\<lparr>oq_route := r\<rparr>) s') = fst (onboard app token q s) \<and>
    (snd (onboard app token q s) = s \<or>
     (\<exists>t. t \<noteq> [] \<and> oq_csrf q = Some t \<and> cookie_of (oq_cookies q) csrf_cookie = sign (ob_mac app) t) \<and>
     ((\<exists>provider key. oq_route q = Onboarding_Model_Key provider key \<and> snd (onboard app token q s) = ob_set app ''model_key'' key s) \<or>
      (\<exists>code pkce runner_id credential. oq_route q = Onboarding_Exchange code pkce \<and>
         ob_exchange app code pkce = Inr (Exchange_Accepted runner_id credential) \<and>
         snd (onboard app token q s) = ob_set app ''runner_credential'' credential s)))"
  using onboard_answer [OF assms] onboard_changes [of app token q s] by blast

definition no_docker :: reported_probe where
  "no_docker =
     \<lparr>cp_docker_cli_found = False, cp_daemon_running = False, cp_socket_accessible = False, cp_image_pull_succeeded = False,
      cp_runs_as_non_root = False, cp_network_isolated = False, cp_resource_limits_enforced = False, cp_platform_supported = True,
      cp_failures = [''docker CLI not found'']\<rparr>"

definition sample_onboarding :: "string \<Rightarrow> keyring onboarding" where
  "sample_onboarding credential =
     \<lparr>ob_mac = (\<lambda>_. ''ab''), ob_set = keyring_set, ob_exchange = (\<lambda>_ _. Inr (Exchange_Accepted ''r1'' credential)),
      ob_status = (\<lambda>_ _. Inr ''pending''),
      ob_decision = select_runtime_mode no_docker Analysis_Only,
      ob_origin = ''https://h'', ob_return_to = ''/dashboard''\<rparr>"

definition sample_exchange :: onboarding_request where
  "sample_exchange = \<lparr>oq_cookies = [(csrf_cookie, ''t.ab'')], oq_csrf = Some ''t'', oq_route = Onboarding_Exchange ''code'' ''proof''\<rparr>"

theorem onboarding_keeps_secrets_witness:
  "fst (onboard (sample_onboarding ''c2'') [] sample_exchange (\<lambda>_. None)) = fst (onboard (sample_onboarding ''c1'') [] sample_exchange (\<lambda>_. None)) \<and>
   fst (onboard (sample_onboarding ''c1'') [] sample_exchange (\<lambda>_. None)) =
     Inr (json_reply 200 (JObj [(''exchanged'', JBool True), (''runner_id'', JStr ''r1'')]))"
proof
  have "same_but_secrets (sample_onboarding ''c1'') (sample_onboarding ''c2'')"
    by (simp add: same_but_secrets_def sample_onboarding_def)
  from onboarding_keeps_secrets [OF this, of "oq_route sample_exchange" sample_exchange "[]" "\<lambda>_. None" "\<lambda>_. None"]
  show "fst (onboard (sample_onboarding ''c2'') [] sample_exchange (\<lambda>_. None)) = fst (onboard (sample_onboarding ''c1'') [] sample_exchange (\<lambda>_. None))"
    by simp
  have "csrf_ok (\<lambda>_. ''ab'') [(csrf_cookie, ''t.ab'')] (Some ''t'') = Inr True" by code_simp
  then show "fst (onboard (sample_onboarding ''c1'') [] sample_exchange (\<lambda>_. None)) =
     Inr (json_reply 200 (JObj [(''exchanged'', JBool True), (''runner_id'', JStr ''r1'')]))"
    by (simp add: onboard_def with_csrf_def exchange_pairing_def sample_onboarding_def sample_exchange_def)
qed

text \<open>The tokens of a session are accepted: a key sent with them is stored and read back.\<close>

theorem onboarding_round_trip:
  assumes "CHR ''.'' \<notin> set (ob_mac app token) \<and> is_ascii (ob_mac app token)" "is_ascii token" "token \<noteq> []"
    "ob_set app = keyring_set" "onboard app token q s = (Inr reply, s)" "oq_route q = Onboarding_Session"
  shows "\<exists>s'. onboard app token' \<lparr>oq_cookies = wr_cookies reply, oq_csrf = Some token, oq_route = Onboarding_Model_Key provider key\<rparr> s =
      (Inr (json_reply 200 (JObj [(''stored'', JBool True)])), s') \<and> keyring_get ''model_key'' s' = Some key"
proof -
  have "wr_cookies reply = [(csrf_cookie, sign (ob_mac app) token)]"
    using assms(5,6) by (auto simp: onboard_def onboarding_session_def)
  moreover have "csrf_ok (ob_mac app) [(csrf_cookie, sign (ob_mac app) token)] (Some token) = Inr True"
    using assms(1-3) rsplit_dot_append [of "ob_mac app token" token]
    by (cases token) (auto simp: csrf_ok_def cookie_of_def sign_def compare_digest_def)
  ultimately show ?thesis
    using assms(4) by (simp add: onboard_def with_csrf_def store_model_key_def local_model_key_secret_name_def keyring.get_set)
qed

text \<open>The browser is only ever sent to the sign-in page of an https origin that is not this machine, with the one
  return path that the hosted side allows.\<close>

theorem onboarding_sign_in_url:
  assumes "create_local_onboarding_app host session_secret hmac set_secret exchange status_poll reported mode origin return_to = Inr app"
  shows "pairing_sign_in app =
      JObj [(''url'', JStr (rstrip_slash origin @ ''/api/auth/github/sign-in?return_to=%2Fdashboard''))] \<and>
    startswith (rstrip_slash origin) ''https://'' \<and> \<not> contains ''localhost'' (rstrip_slash origin) \<and>
    \<not> contains ''127.0.0.1'' (rstrip_slash origin) \<and> host = ''127.0.0.1'' \<and> session_secret \<noteq> []"
proof -
  have q: "quote_plus ''/dashboard'' = ''%2Fdashboard''" by code_simp
  have h: "host = ''127.0.0.1''" "session_secret \<noteq> []"
    using assms by (auto simp: create_local_onboarding_app_def split: if_splits)
  with assms obtain cleaned where o: "hosted_origin origin = Inr cleaned"
    by (cases "hosted_origin origin") (auto simp: create_local_onboarding_app_def)
  with assms h have app: "ob_origin app = cleaned" "ob_return_to app = ''/dashboard''"
    by (auto simp: create_local_onboarding_app_def allowed_hosted_return_to_paths_def split: if_splits)
  from o have "cleaned = rstrip_slash origin" "startswith cleaned ''https://''"
    "\<not> contains ''localhost'' cleaned" "\<not> contains ''127.0.0.1'' cleaned"
    by (auto simp: hosted_origin_def Let_def split: if_splits)
  with app h q show ?thesis by (simp add: pairing_sign_in_def)
qed

text \<open>The list of pending approvals and the decision on one are those of the whole store: unlike the routes about
  jobs they do not depend on the runner or on the repositories it was given.\<close>

theorem approvals_ignore_the_scope:
  "read_route (app\<lparr>db_runner_id := i, db_allowed := ids\<rparr>) tokens s Get_Approvals = read_route app tokens s Get_Approvals"
  "decide (app\<lparr>db_runner_id := i, db_allowed := ids\<rparr>) cookies csrf finding_id d s = decide app cookies csrf finding_id d s"
  by (simp_all add: decide_def split: sum.split bool.split)

end
