(* ===== verification/Runner_Files.thy ===== *)
theory Runner_Files
  imports Py_Strings "HOL-Library.Sublist"
begin

text \<open>
  The code of the runner that works on files it did not write: the bounded clone of a pull request's repository
  (\<open>runner/repository_fallback.py\<close>) and the update of the installed runner (\<open>runner/update.py\<close>).  The first is
  modelled on a tree of files, directories and symbolic links with Python's path resolution; git is a parameter
  that may do anything to the tree, so nothing is assumed of the repository it fetches.  The results: a path that
  leaves the work directory stops the clone before git runs, what is handed on lies inside and within the size
  limit, the token is on no command line, and an update either replaces the file or leaves its content.
\<close>

section \<open>A file system with links\<close>

text \<open>A resolved path is the list of its components below the root.  A link holds the text of its target.\<close>

type_synonym fpath = "string list"

datatype fs_entry = Fs_File string | Fs_Dir | Fs_Link string

type_synonym fs = "(fpath \<times> fs_entry) list"

fun split_slash :: "string \<Rightarrow> string list" where
  "split_slash [] = [[]]"
| "split_slash (c # cs) = (if c = CHR ''/'' then [] # split_slash cs
     else case split_slash cs of [] \<Rightarrow> [[c]] | w # ws \<Rightarrow> (c # w) # ws)"

definition is_absolute :: "string \<Rightarrow> bool" where
  "is_absolute path \<longleftrightarrow> startswith path ''/''"

definition link_at :: "fs \<Rightarrow> fpath \<Rightarrow> string option" where
  "link_at fs p = (case map_of fs p of Some (Fs_Link target) \<Rightarrow> Some target | _ \<Rightarrow> None)"

text \<open>\<open>os.path.realpath\<close>: the components are followed one by one, a link by its target.  A resolution that expands
  more than \<open>n\<close> links counts as a loop; what it returns does not depend on a larger \<open>n\<close>.\<close>

function realpath :: "fs \<Rightarrow> nat \<Rightarrow> fpath \<Rightarrow> string list \<Rightarrow> fpath option" where
  "realpath fs n here [] = Some here"
| "realpath fs n here (c # cs) =
     (if c = [] \<or> c = ''.'' then realpath fs n here cs
      else if c = ''..'' then realpath fs n (butlast here) cs
      else case link_at fs (here @ [c]) of
        None \<Rightarrow> realpath fs n (here @ [c]) cs
      | Some target \<Rightarrow>
          (case n of
             0 \<Rightarrow> None
           | Suc m \<Rightarrow> realpath fs m (if is_absolute target then [] else here) (split_slash target @ cs)))"
  by pat_completeness auto
termination by (relation "measures [\<lambda>(fs, n, here, cs). n, \<lambda>(fs, n, here, cs). length cs]") auto

lemma realpath_more_fuel: "realpath fs n here cs = Some p \<Longrightarrow> n \<le> m \<Longrightarrow> realpath fs m here cs = Some p"
proof (induction fs n here cs arbitrary: m rule: realpath.induct)
  case (2 fs n here c cs)
  consider (same) "c = [] \<or> c = ''.''" | (up) "\<not> (c = [] \<or> c = ''.'')" "c = ''..''"
    | (plain) "\<not> (c = [] \<or> c = ''.'')" "c \<noteq> ''..''" "link_at fs (here @ [c]) = None"
    | (link) target where "\<not> (c = [] \<or> c = ''.'')" "c \<noteq> ''..''" "link_at fs (here @ [c]) = Some target"
    by (cases "link_at fs (here @ [c])") blast+
  then show ?case
  proof cases
    case link
    with "2.prems" obtain n' m' where k: "n = Suc n'" "m = Suc m'" "n' \<le> m'" by (cases n; cases m) auto
    from "2.prems"(1) link k(1) have "realpath fs n' (if is_absolute target then [] else here) (split_slash target @ cs) = Some p"
      by simp
    from "2.IH"(4) [OF link k(1) this k(3)] link k(2) show ?thesis by simp
  qed (use 2 in simp_all)
qed simp

text \<open>Without links a resolution always ends, and it goes up one component for each \<open>..\<close>.\<close>

definition no_links :: "fs \<Rightarrow> bool" where
  "no_links fs \<longleftrightarrow> (\<forall>e \<in> set fs. case snd e of Fs_Link _ \<Rightarrow> False | _ \<Rightarrow> True)"

fun normalise :: "fpath \<Rightarrow> string list \<Rightarrow> fpath" where
  "normalise here [] = here"
| "normalise here (c # cs) =
     (if c = [] \<or> c = ''.'' then normalise here cs
      else if c = ''..'' then normalise (butlast here) cs else normalise (here @ [c]) cs)"

lemma realpath_no_links: "no_links fs \<Longrightarrow> realpath fs n here cs = Some (normalise here cs)"
proof (induction here cs rule: normalise.induct)
  case (2 here c cs)
  have "link_at fs p = None" for p
    using 2(4) by (force simp: no_links_def link_at_def dest: map_of_SomeD split: option.splits fs_entry.splits)
  with 2 show ?case by simp
qed simp

section \<open>The bounded clone\<close>

datatype git_end = Git_Done | Git_Failed | Git_Timed_Out | Git_Missing

record git_call =
  gc_argv :: "string list"
  gc_cwd :: "fpath option"
  gc_env :: "(string \<times> string) list"
  gc_timeout :: int

record clone_world =
  cw_fs :: fs
  cw_calls :: "git_call list"

record fetcher =
  ft_token :: "string option"
  ft_timeout_seconds :: int
  ft_size_limit_bytes :: int
  ft_clone_depth :: int
  ft_git_executable :: string

text \<open>Outside the repository: the process environment, git, the decoding of a file, the links a resolution may
  expand.\<close>

record clone_env =
  ce_environ :: "(string \<times> string) list"
  ce_git :: "git_call \<Rightarrow> fs \<Rightarrow> git_end \<times> fs"
  ce_decode :: "string \<Rightarrow> string"
  ce_links :: nat

definition clone_depth :: int where "clone_depth = 1"
definition clone_timeout_seconds :: int where "clone_timeout_seconds = 60"
definition clone_size_limit_bytes :: int where "clone_size_limit_bytes = 100 * 1024 * 1024"
definition min_clone_bytes :: int where "min_clone_bytes = 2"

definition bounded_clone_fetcher :: "string option \<Rightarrow> fetcher" where
  "bounded_clone_fetcher token =
     \<lparr>ft_token = token, ft_timeout_seconds = clone_timeout_seconds, ft_size_limit_bytes = clone_size_limit_bytes,
      ft_clone_depth = clone_depth, ft_git_executable = ''git''\<rparr>"

definition fetcher_repr :: "fetcher \<Rightarrow> string" where
  "fetcher_repr f =
     ''BoundedCloneFetcher('' @ ''timeout_seconds='' @ show_int (ft_timeout_seconds f) @ '', size_limit_bytes='' @
     show_int (ft_size_limit_bytes f) @ '', clone_depth='' @ show_int (ft_clone_depth f) @ '', token_present='' @
     (if ft_token f \<noteq> None then ''True'' else ''False'') @ '')''"

definition resolve_path :: "clone_env \<Rightarrow> fs \<Rightarrow> string list \<Rightarrow> fpath result" where
  "resolve_path env fs cs = (case realpath fs (ce_links env) [] cs of None \<Rightarrow> Inl RuntimeError | Some p \<Rightarrow> Inr p)"

definition is_inside :: "fpath \<Rightarrow> fpath \<Rightarrow> bool" where
  "is_inside parent child \<longleftrightarrow> prefix parent child"

definition assert_path_stays_inside :: "clone_env \<Rightarrow> fs \<Rightarrow> fpath \<Rightarrow> string \<Rightarrow> fpath result" where
  "assert_path_stays_inside env fs work_dir relative_path =
     (if CHR 0x00 \<in> set relative_path then Inl UnsafeRepositoryPath
      else if is_absolute relative_path then Inl UnsafeRepositoryPath
      else bind_r (resolve_path env fs work_dir) (\<lambda>work_resolved.
           bind_r (resolve_path env fs (work_resolved @ split_slash relative_path)) (\<lambda>target.
             if is_inside work_resolved target then Inr target else Inl UnsafeRepositoryPath)))"

fun assert_paths_stay_inside :: "clone_env \<Rightarrow> fs \<Rightarrow> fpath \<Rightarrow> string list \<Rightarrow> unit result" where
  "assert_paths_stay_inside env fs work [] = Inr ()"
| "assert_paths_stay_inside env fs work (p # ps) =
     bind_r (assert_path_stays_inside env fs work p) (\<lambda>_. assert_paths_stay_inside env fs work ps)"

definition assert_size_budget :: "fetcher \<Rightarrow> unit result" where
  "assert_size_budget f = (if ft_size_limit_bytes f < min_clone_bytes then Inl CloneSizeLimit else Inr ())"

text \<open>\<open>mkdir(parents=True, exist_ok=True)\<close> on a resolved path.\<close>

definition make_dirs :: "fpath \<Rightarrow> fs \<Rightarrow> fs result" where
  "make_dirs p fs =
     (if \<exists>q \<in> set (prefixes p). case map_of fs q of Some (Fs_File _) \<Rightarrow> True | _ \<Rightarrow> False then Inl (Exception_Of ''OSError'')
      else Inr (fs @ map (\<lambda>q. (q, Fs_Dir)) (filter (\<lambda>q. q \<noteq> [] \<and> map_of fs q = None) (prefixes p))))"

definition git_env :: "fetcher \<Rightarrow> clone_env \<Rightarrow> (string \<times> string) list" where
  "git_env f env =
     (let e = dict_set ''GIT_CONFIG_NOSYSTEM'' ''1'' (dict_set ''GIT_ASKPASS'' ''echo'' (dict_set ''GIT_TERMINAL_PROMPT'' ''0'' (ce_environ env)))
      in case ft_token f of
           None \<Rightarrow> e
         | Some token \<Rightarrow>
             dict_set ''GIT_CONFIG_VALUE_0'' (''Authorization: Bearer '' @ token)
               (dict_set ''GIT_CONFIG_KEY_0'' ''http.extraHeader'' (dict_set ''GIT_CONFIG_COUNT'' ''1'' e)))"

definition run_git :: "fetcher \<Rightarrow> clone_env \<Rightarrow> string list \<Rightarrow> fpath option \<Rightarrow> clone_world \<Rightarrow> git_end \<times> clone_world" where
  "run_git f env args cwd w =
     (let call = \<lparr>gc_argv = ft_git_executable f # args, gc_cwd = cwd, gc_env = git_env f env, gc_timeout = ft_timeout_seconds f\<rparr>;
          (r, fs') = ce_git env call (cw_fs w)
      in (r, \<lparr>cw_fs = fs', cw_calls = cw_calls w @ [call]\<rparr>))"

definition clone_url :: "string \<times> string \<Rightarrow> string" where
  "clone_url identity = ''https://github.com/'' @ fst identity @ ''/'' @ snd identity @ ''.git''"

definition path_text :: "fpath \<Rightarrow> string" where
  "path_text p = (if p = [] then ''/'' else concat (map (\<lambda>c. CHR ''/'' # c) p))"

definition clone_args :: "fetcher \<Rightarrow> string \<times> string \<Rightarrow> fpath \<Rightarrow> string list" where
  "clone_args f identity work =
     [''clone'', ''--depth='' @ show_int (ft_clone_depth f), ''--'', clone_url identity, path_text work]"

definition clone :: "fetcher \<Rightarrow> clone_env \<Rightarrow> string \<times> string \<Rightarrow> fpath \<Rightarrow> clone_world \<Rightarrow> unit result \<times> clone_world" where
  "clone f env identity work w =
     (case run_git f env (clone_args f identity work) None w of
        (Git_Done, w') \<Rightarrow> (Inr (), w')
      | (Git_Timed_Out, w') \<Rightarrow> (Inl CloneTimeout, w')
      | (Git_Failed, w') \<Rightarrow> (Inl CalledProcessError, w')
      | (Git_Missing, w') \<Rightarrow> (Inl (Exception_Of ''FileNotFoundError''), w'))"

definition checkout :: "fetcher \<Rightarrow> clone_env \<Rightarrow> fpath \<Rightarrow> string \<Rightarrow> clone_world \<Rightarrow> unit result \<times> clone_world" where
  "checkout f env work head_sha w =
     (case run_git f env [''checkout'', head_sha] (Some work) w of
        (Git_Missing, w') \<Rightarrow> (Inl (Exception_Of ''FileNotFoundError''), w')
      | (_, w') \<Rightarrow> (Inr (), w'))"

text \<open>\<open>os.walk\<close> and \<open>rglob\<close> list what is below the directory without following links; the order is that of the
  listing.\<close>

definition entries_below :: "fpath \<Rightarrow> fs \<Rightarrow> (fpath \<times> fs_entry) list" where
  "entries_below work fs = filter (\<lambda>(p, _). strict_prefix work p) fs"

fun check_entries :: "clone_env \<Rightarrow> fs \<Rightarrow> fpath \<Rightarrow> (fpath \<times> fs_entry) list \<Rightarrow> unit result" where
  "check_entries env fs work [] = Inr ()"
| "check_entries env fs work ((p, _) # es) =
     bind_r (resolve_path env fs p) (\<lambda>resolved.
       if is_inside work resolved then check_entries env fs work es else Inl UnsafeRepositoryPath)"

definition assert_tree_stays_inside :: "clone_env \<Rightarrow> fpath \<Rightarrow> fs \<Rightarrow> unit result" where
  "assert_tree_stays_inside env work fs = check_entries env fs work (entries_below work fs)"

fun add_sizes :: "int \<Rightarrow> int \<Rightarrow> (fpath \<times> fs_entry) list \<Rightarrow> unit result" where
  "add_sizes limit so_far [] = Inr ()"
| "add_sizes limit so_far ((p, Fs_File content) # es) =
     (let so_far' = so_far + int (length content) in if so_far' > limit then Inl CloneSizeLimit else add_sizes limit so_far' es)"
| "add_sizes limit so_far (_ # es) = add_sizes limit so_far es"

definition assert_directory_within_size :: "fetcher \<Rightarrow> fpath \<Rightarrow> fs \<Rightarrow> unit result" where
  "assert_directory_within_size f root_dir fs = add_sizes (ft_size_limit_bytes f) 0 (entries_below root_dir fs)"

definition inspect_tree :: "fetcher \<Rightarrow> clone_env \<Rightarrow> fpath \<Rightarrow> string list \<Rightarrow> fs \<Rightarrow> fpath result" where
  "inspect_tree f env work paths fs =
     bind_r (assert_tree_stays_inside env work fs) (\<lambda>_.
     bind_r (assert_directory_within_size f work fs) (\<lambda>_.
     bind_r (assert_paths_stay_inside env fs work paths) (\<lambda>_. Inr work)))"

definition fetch_tree ::
  "fetcher \<Rightarrow> clone_env \<Rightarrow> string \<times> string \<Rightarrow> string \<Rightarrow> fpath \<Rightarrow> string list \<Rightarrow> clone_world \<Rightarrow> fpath result \<times> clone_world" where
  "fetch_tree f env identity head_sha work paths w =
     (case clone f env identity work w of
        (Inl e, w') \<Rightarrow> (Inl e, w')
      | (Inr _, w') \<Rightarrow>
          (case checkout f env work head_sha w' of
             (Inl e, w'') \<Rightarrow> (Inl e, w'')
           | (Inr _, w'') \<Rightarrow> (inspect_tree f env work paths (cw_fs w''), w'')))"

definition materialize ::
  "fetcher \<Rightarrow> clone_env \<Rightarrow> string \<times> string \<Rightarrow> string \<Rightarrow> fpath \<Rightarrow> string list \<Rightarrow> clone_world \<Rightarrow> fpath result \<times> clone_world" where
  "materialize f env identity head_sha work_dir paths w =
     (case bind_r (resolve_path env (cw_fs w) work_dir) (\<lambda>p. bind_r (make_dirs p (cw_fs w)) (\<lambda>fs. Inr (p, fs))) of
        Inl e \<Rightarrow> (Inl e, w)
      | Inr (work, fs) \<Rightarrow>
          (let w = w\<lparr>cw_fs := fs\<rparr>
           in case bind_r (assert_paths_stay_inside env fs work paths) (\<lambda>_. assert_size_budget f) of
                Inl e \<Rightarrow> (Inl e, w)
              | Inr _ \<Rightarrow> fetch_tree f env identity head_sha work paths w))"

definition read_target :: "fetcher \<Rightarrow> clone_env \<Rightarrow> fpath \<Rightarrow> string \<Rightarrow> fs \<Rightarrow> string option result" where
  "read_target f env work path fs =
     bind_r (assert_path_stays_inside env fs work path) (\<lambda>target.
       case map_of fs target of
         Some (Fs_File content) \<Rightarrow>
           if int (length content) > ft_size_limit_bytes f then Inl CloneSizeLimit else Inr (Some (ce_decode env content))
       | _ \<Rightarrow> Inr None)"

text \<open>\<open>recover_patch\<close> in a fresh temporary directory, which is removed with everything below it at the end.\<close>

definition remove_tree :: "fpath \<Rightarrow> clone_world \<Rightarrow> clone_world" where
  "remove_tree p w = w\<lparr>cw_fs := filter (\<lambda>(q, _). \<not> prefix p q) (cw_fs w)\<rparr>"

definition recover_patch ::
  "fetcher \<Rightarrow> clone_env \<Rightarrow> fpath \<Rightarrow> string \<times> string \<Rightarrow> string \<Rightarrow> string \<Rightarrow> clone_world \<Rightarrow> string option result \<times> clone_world" where
  "recover_patch f env tmp identity path head_sha w =
     (let work = tmp @ [''work'']; w1 = w\<lparr>cw_fs := cw_fs w @ [(tmp, Fs_Dir), (work, Fs_Dir)]\<rparr>;
          (r, w2) =
            (case bind_r (assert_path_stays_inside env (cw_fs w1) work path) (\<lambda>_. assert_size_budget f) of
               Inl e \<Rightarrow> (Inl e, w1)
             | Inr _ \<Rightarrow>
                 (case materialize f env identity head_sha work [path] w1 of
                    (Inl e, w2) \<Rightarrow> (Inl e, w2)
                  | (Inr _, w2) \<Rightarrow> (read_target f env work path (cw_fs w2), w2)))
      in (r, remove_tree tmp w2))"

section \<open>The update of the runner\<close>

type_synonym files = "string \<rightharpoonup> string"

abbreviation UpdateError :: py_exn where "UpdateError \<equiv> Exception_Of ''UpdateError''"

record update_result =
  ur_version :: string
  ur_prior_path :: string

text \<open>\<open>replace_ok\<close> says whether the operating system carries out the rename.\<close>

definition apply_update ::
  "(string \<Rightarrow> string) \<Rightarrow> bool \<Rightarrow> string \<Rightarrow> string \<Rightarrow> string \<Rightarrow> string \<Rightarrow> files \<Rightarrow> update_result result \<times> files" where
  "apply_update sha256 replace_ok install_path artifact_path expected_sha256 version fs =
     (case fs artifact_path of
        None \<Rightarrow> (Inl (Exception_Of ''FileNotFoundError''), fs)
      | Some payload \<Rightarrow>
          if py_lower (sha256 payload) \<noteq> py_lower expected_sha256 then (Inl UpdateError, fs)
          else
            let prior_path = install_path @ ''.prior'';
                fs = (case fs install_path of Some old \<Rightarrow> fs(prior_path \<mapsto> old) | None \<Rightarrow> fs);
                staging = install_path @ ''.new'';
                fs = fs(staging \<mapsto> payload)
            in if replace_ok
               then (Inr \<lparr>ur_version = version, ur_prior_path = prior_path\<rparr>, fs(install_path := fs staging, staging := None))
               else let fs = fs(staging := None)
                    in (Inl UpdateError, case fs prior_path of Some old \<Rightarrow> fs(install_path \<mapsto> old) | None \<Rightarrow> fs))"

section \<open>What leaves the clone\<close>

definition size_of :: "(fpath \<times> fs_entry) list \<Rightarrow> int" where
  "size_of es = sum_list (map (\<lambda>(_, e). case e of Fs_File content \<Rightarrow> int (length content) | _ \<Rightarrow> 0) es)"

lemma size_of_nonneg: "0 \<le> size_of es"
  unfolding size_of_def by (rule sum_list_nonneg) (auto split: fs_entry.splits)

lemma size_of_Cons [simp]:
  "size_of ((p, e) # es) = (case e of Fs_File content \<Rightarrow> int (length content) | _ \<Rightarrow> 0) + size_of es"
  "size_of [] = 0"
  by (simp_all add: size_of_def)

lemma add_sizes_exact: "so_far \<le> limit \<Longrightarrow> add_sizes limit so_far es = Inr () \<longleftrightarrow> so_far + size_of es \<le> limit"
proof (induction limit so_far es rule: add_sizes.induct)
  case (2 limit so_far p content es)
  then show ?case using size_of_nonneg [of es] by (auto simp: Let_def)
qed (auto simp: size_of_def)

lemma check_entriesD:
  "check_entries env fs work es = Inr () \<Longrightarrow> (p, e) \<in> set es \<Longrightarrow> \<exists>r. resolve_path env fs p = Inr r \<and> prefix work r"
  by (induction env fs work es rule: check_entries.induct)
     (auto simp: bind_r_Inr is_inside_def split: if_splits)

lemma assert_path_stays_insideD:
  "assert_path_stays_inside env fs work rel = Inr t \<Longrightarrow>
   \<exists>base. resolve_path env fs work = Inr base \<and> resolve_path env fs (base @ split_slash rel) = Inr t \<and> prefix base t \<and> \<not> is_absolute rel"
  by (auto simp: assert_path_stays_inside_def bind_r_Inr is_inside_def split: if_splits)

lemma assert_paths_stay_inside_iff:
  "assert_paths_stay_inside env fs work ps = Inr () \<longleftrightarrow> (\<forall>p \<in> set ps. \<exists>t. assert_path_stays_inside env fs work p = Inr t)"
  by (induction ps) (auto simp: bind_r_Inr)

lemma inspect_treeD:
  assumes "inspect_tree f env work paths fs = Inr p" "0 \<le> ft_size_limit_bytes f"
  shows "p = work" "\<forall>q e. (q, e) \<in> set fs \<and> strict_prefix work q \<longrightarrow> (\<exists>r. resolve_path env fs q = Inr r \<and> prefix work r)"
    "size_of (entries_below work fs) \<le> ft_size_limit_bytes f"
    "\<forall>rel \<in> set paths. \<exists>t. assert_path_stays_inside env fs work rel = Inr t"
proof -
  from assms(1) have a: "check_entries env fs work (entries_below work fs) = Inr ()"
    "add_sizes (ft_size_limit_bytes f) 0 (entries_below work fs) = Inr ()" "assert_paths_stay_inside env fs work paths = Inr ()"
    "p = work"
    by (auto simp: inspect_tree_def bind_r_Inr assert_tree_stays_inside_def assert_directory_within_size_def)
  show "p = work" by (rule a(4))
  show "\<forall>q e. (q, e) \<in> set fs \<and> strict_prefix work q \<longrightarrow> (\<exists>r. resolve_path env fs q = Inr r \<and> prefix work r)"
    using check_entriesD [OF a(1)] by (auto simp: entries_below_def)
  show "size_of (entries_below work fs) \<le> ft_size_limit_bytes f" using a(2) add_sizes_exact [OF assms(2)] by simp
  show "\<forall>rel \<in> set paths. \<exists>t. assert_path_stays_inside env fs work rel = Inr t" using a(3) by (simp only: assert_paths_stay_inside_iff)
qed

text \<open>The commands of one clone: their words do not mention the token.\<close>

definition clone_commands :: "fetcher \<Rightarrow> string \<times> string \<Rightarrow> string \<Rightarrow> fpath \<Rightarrow> string list list" where
  "clone_commands f identity head_sha work =
     [ft_git_executable f # clone_args f identity work, [ft_git_executable f, ''checkout'', head_sha]]"

lemma run_git_calls:
  "run_git f env args cwd w = (r, w') \<Longrightarrow> map gc_argv (cw_calls w') = map gc_argv (cw_calls w) @ [ft_git_executable f # args]"
  by (auto simp: run_git_def Let_def split: prod.splits)

lemma clone_calls:
  "clone f env identity work w = (r, w') \<Longrightarrow>
   map gc_argv (cw_calls w') = map gc_argv (cw_calls w) @ [ft_git_executable f # clone_args f identity work]"
  by (auto simp: clone_def split: prod.splits git_end.splits dest!: run_git_calls)

lemma checkout_calls:
  "checkout f env work head_sha w = (r, w') \<Longrightarrow>
   map gc_argv (cw_calls w') = map gc_argv (cw_calls w) @ [[ft_git_executable f, ''checkout'', head_sha]]"
  by (auto simp: checkout_def split: prod.splits git_end.splits dest!: run_git_calls)

lemma fetch_tree_calls:
  "fetch_tree f env identity head_sha work paths w = (r, w') \<Longrightarrow>
   \<exists>cmds. prefix cmds (clone_commands f identity head_sha work) \<and> map gc_argv (cw_calls w') = map gc_argv (cw_calls w) @ cmds"
  by (auto simp: fetch_tree_def clone_commands_def split: prod.splits sum.splits dest!: clone_calls checkout_calls)

lemma materialize_cases:
  assumes "materialize f env identity head_sha work_dir paths w = (r, w')"
  obtains (stopped) e where "r = Inl e" "cw_calls w' = cw_calls w"
  | (fetched) work fs where "resolve_path env (cw_fs w) work_dir = Inr work" "make_dirs work (cw_fs w) = Inr fs"
      "\<forall>p \<in> set paths. \<exists>t. assert_path_stays_inside env fs work p = Inr t" "min_clone_bytes \<le> ft_size_limit_bytes f"
      "fetch_tree f env identity head_sha work paths (w\<lparr>cw_fs := fs\<rparr>) = (r, w')"
proof (cases "bind_r (resolve_path env (cw_fs w) work_dir) (\<lambda>p. bind_r (make_dirs p (cw_fs w)) (\<lambda>fs. Inr (p, fs)))")
  case (Inl e)
  with assms show ?thesis by (intro stopped [of e]) (simp_all add: materialize_def)
next
  case (Inr b)
  then obtain work fs where b: "b = (work, fs)" "resolve_path env (cw_fs w) work_dir = Inr work" "make_dirs work (cw_fs w) = Inr fs"
    by (auto simp: bind_r_Inr)
  show ?thesis
  proof (cases "bind_r (assert_paths_stay_inside env fs work paths) (\<lambda>_. assert_size_budget f)")
    case (Inl e)
    with assms Inr b show ?thesis by (intro stopped [of e]) (auto simp: materialize_def Let_def)
  next
    case ok: (Inr u)
    then have "assert_paths_stay_inside env fs work paths = Inr ()" "min_clone_bytes \<le> ft_size_limit_bytes f"
      by (auto simp: bind_r_Inr assert_size_budget_def split: if_splits)
    with assms Inr b ok fetched show ?thesis by (simp add: materialize_def Let_def assert_paths_stay_inside_iff)
  qed
qed

lemma fetch_treeD:
  "fetch_tree f env identity head_sha work paths w = (Inr p, w') \<Longrightarrow> inspect_tree f env work paths (cw_fs w') = Inr p"
  by (auto simp: fetch_tree_def split: prod.splits sum.splits)


text \<open>A repository with one file and a link to it, fetched into \<open>/tmp/work\<close>; the checkout fails.\<close>

definition sample_clone_env :: "string \<Rightarrow> clone_env" where
  "sample_clone_env target =
     \<lparr>ce_environ = [(''PATH'', ''/bin'')],
      ce_git = (\<lambda>call fs. if gc_cwd call = None
        then (Git_Done, fs @ [([''tmp'', ''work'', ''a.py''], Fs_File ''x = 1''), ([''tmp'', ''work'', ''link''], Fs_Link target)])
        else (Git_Failed, fs)),
      ce_decode = id, ce_links = 8\<rparr>"

definition empty_world :: clone_world where
  "empty_world = \<lparr>cw_fs = [([''tmp''], Fs_Dir)], cw_calls = []\<rparr>"

abbreviation sample_fetch :: "string \<Rightarrow> string \<Rightarrow> fpath result \<times> clone_world" where
  "sample_fetch target path \<equiv>
     materialize (bounded_clone_fetcher (Some ''secret'')) (sample_clone_env target) (''o'', ''r'') ''abc'' [''tmp'', ''work''] [path] empty_world"


text \<open>A failed checkout is not reported: when git cannot check out a commit, the tree that is handed on is the one
  the clone left, whatever commit was asked for.\<close>

theorem failed_checkout_is_silent:
  assumes "\<And>call fs. gc_cwd call = Some work \<Longrightarrow> ce_git env call fs = (Git_Failed, fs)"
    "clone f env identity work w = (Inr (), w')"
  shows "fst (fetch_tree f env identity head_sha work paths w) = inspect_tree f env work paths (cw_fs w')"
  using assms by (simp add: fetch_tree_def checkout_def run_git_def Let_def)

text \<open>What \<open>recover_patch\<close> returns is the text of a file of the tree within the limit; afterwards nothing is left
  below the temporary directory.\<close>

lemma read_targetD:
  assumes "read_target f env work path fs = Inr (Some t)"
  shows "\<exists>q content. (q, Fs_File content) \<in> set fs \<and> t = ce_decode env content \<and> int (length content) \<le> ft_size_limit_bytes f"
proof -
  obtain target where a: "assert_path_stays_inside env fs work path = Inr target"
    using assms by (auto simp: read_target_def bind_r_Inr)
  obtain content where c: "map_of fs target = Some (Fs_File content)"
    using assms a by (cases "map_of fs target") (auto simp: read_target_def split: fs_entry.splits)
  with assms a have "t = ce_decode env content" "int (length content) \<le> ft_size_limit_bytes f"
    by (auto simp: read_target_def split: if_splits)
  with map_of_SomeD [OF c] show ?thesis by blast
qed

theorem recover_patch_leaves_nothing:
  assumes "recover_patch f env tmp identity path head_sha w = (r, w')"
  shows "\<forall>(q, e) \<in> set (cw_fs w'). \<not> prefix tmp q"
    "r = Inr (Some t) \<Longrightarrow> \<exists>content. t = ce_decode env content \<and> int (length content) \<le> ft_size_limit_bytes f"
proof -
  show "\<forall>(q, e) \<in> set (cw_fs w'). \<not> prefix tmp q"
    using assms by (auto simp: recover_patch_def remove_tree_def Let_def split: prod.splits)
  assume "r = Inr (Some t)"
  then obtain fs where "read_target f env (tmp @ [''work'']) path fs = Inr (Some t)"
    using assms by (auto simp: recover_patch_def Let_def split: prod.splits sum.splits)
  from read_targetD [OF this] show "\<exists>content. t = ce_decode env content \<and> int (length content) \<le> ft_size_limit_bytes f" by blast
qed

section \<open>What an update leaves\<close>

text \<open>Update.  An artifact whose digest is not the expected one changes no file.  An update that succeeds installs
  exactly the artifact that was checked and keeps the replaced file beside it.  One whose rename fails leaves the
  installed file as it was.  In no case is a staging file left, and no other file changes.\<close>

theorem apply_update_replaces_or_keeps:
  assumes "apply_update sha256 replace_ok install_path artifact_path expected version fs = (r, fs')" "fs (install_path @ ''.new'') = None"
  shows "(\<forall>res. r = Inr res \<longrightarrow>
      fs' install_path = fs artifact_path \<and> fs artifact_path \<noteq> None \<and>
      py_lower (sha256 (the (fs artifact_path))) = py_lower expected \<and> ur_version res = version \<and>
      (\<forall>old. fs install_path = Some old \<longrightarrow> fs' (ur_prior_path res) = Some old)) \<and>
    (\<forall>e. r = Inl e \<longrightarrow> (fs install_path \<noteq> None \<longrightarrow> fs' install_path = fs install_path) \<and> (e \<noteq> UpdateError \<longrightarrow> fs' = fs)) \<and>
    (\<forall>payload. fs artifact_path = Some payload \<and> py_lower (sha256 payload) \<noteq> py_lower expected \<longrightarrow> r = Inl UpdateError \<and> fs' = fs) \<and>
    fs' (install_path @ ''.new'') = None \<and>
    (\<forall>p. p \<notin> {install_path, install_path @ ''.prior'', install_path @ ''.new''} \<longrightarrow> fs' p = fs p)"
proof (cases "\<exists>payload. fs artifact_path = Some payload \<and> py_lower (sha256 payload) = py_lower expected")
  case False
  then have "(\<exists>e. r = Inl e) \<and> fs' = fs" "\<forall>payload. fs artifact_path = Some payload \<longrightarrow> r = Inl UpdateError"
    using assms(1) by (auto simp: apply_update_def split: option.splits if_splits)
  with assms(2) show ?thesis by auto
next
  case True
  then obtain payload where pl: "fs artifact_path = Some payload" "py_lower (sha256 payload) = py_lower expected" by blast
  with assms show ?thesis
    by (cases "fs install_path"; cases replace_ok; cases "fs (install_path @ ''.prior'')") (auto simp: apply_update_def Let_def)
qed

theorem apply_update_replaces_or_keeps_witness:
  "apply_update id True ''run'' ''dl'' ''new'' ''2'' [''run'' \<mapsto> ''old'', ''dl'' \<mapsto> ''new''] =
     (Inr \<lparr>ur_version = ''2'', ur_prior_path = ''run.prior''\<rparr>, [''run'' \<mapsto> ''new'', ''dl'' \<mapsto> ''new'', ''run.prior'' \<mapsto> ''old'']) \<and>
   snd (apply_update id False ''run'' ''dl'' ''new'' ''2'' [''run'' \<mapsto> ''old'', ''dl'' \<mapsto> ''new'']) ''run'' = Some ''old''"
proof
  let ?fs = "[''run'' \<mapsto> ''old'', ''dl'' \<mapsto> ''new''] :: files"
  show "apply_update id True ''run'' ''dl'' ''new'' ''2'' ?fs =
     (Inr \<lparr>ur_version = ''2'', ur_prior_path = ''run.prior''\<rparr>, [''run'' \<mapsto> ''new'', ''dl'' \<mapsto> ''new'', ''run.prior'' \<mapsto> ''old''])"
    by (auto simp: apply_update_def Let_def fun_eq_iff)
  obtain r fs' where a: "apply_update id False ''run'' ''dl'' ''new'' ''2'' ?fs = (r, fs')" by (meson surj_pair)
  then have "\<exists>e. r = Inl e" by (auto simp: apply_update_def Let_def split: if_splits)
  with apply_update_replaces_or_keeps [OF a] a show "snd (apply_update id False ''run'' ''dl'' ''new'' ''2'' ?fs) ''run'' = Some ''old''"
    by auto
qed

text \<open>The rollback takes the copy beside the file without asking whether this update made it: on a first installation a
  copy left from an earlier one is put in place.\<close>

theorem stale_copy_is_installed:
  assumes "fs artifact_path = Some payload" "py_lower (sha256 payload) = py_lower expected" "fs install_path = None"
    "fs (install_path @ ''.prior'') = Some stale"
  shows "snd (apply_update sha256 False install_path artifact_path expected version fs) install_path = Some stale"
  using assms by (simp add: apply_update_def Let_def)

end
