(* ===== verification/Receipts.thy ===== *)
theory Receipts
  imports Review_Projection Pull_Request Budgets Diff_Review
begin

text \<open>
  The provenance receipt of a finding (\<open>reviewer/receipt.py\<close>) and the policy of the shadow deployment
  (\<open>foodspector_policy.py\<close>), with the token window of a model (\<open>context_budget.py\<close>) and the order in which
  the files of a pull request are read (\<open>reviewer/read_order.py\<close>).  A receipt says whether a finding was verified only when a sandbox run is cited for
  it; the conditions under which one can be built are given exactly.  Parsing TOML and decimals is a parameter.
\<close>

section \<open>Receipts\<close>

datatype receipt_provider = Receipt_Openai | Receipt_Anthropic

record receipt_call_input =
  mc_review_job_id :: string
  mc_provider :: receipt_provider
  mc_model :: string
  mc_prompt_version_id :: string
  mc_input_tokens :: int
  mc_output_tokens :: int
  mc_cost_usd :: string

record receipt_tokens =
  rt_input_tokens :: int
  rt_output_tokens :: int

definition total_tokens :: "receipt_tokens \<Rightarrow> int" where
  "total_tokens t = rt_input_tokens t + rt_output_tokens t"

record receipt_model_call =
  rm_provider :: receipt_provider
  rm_model :: string
  rm_prompt_version_id :: string
  rm_tokens :: receipt_tokens
  rm_cost_usd :: string

datatype context_source_kind = Diff_Source | Retrieval_Source | Profile_Source | Graph_Source

record cited_source =
  cu_kind :: context_source_kind
  cu_name :: string
  cu_reference :: string

datatype receipt_verification = Asserted_Verification string | Sandbox_Verification string string string

record finding_receipt =
  fr_finding_id :: string
  fr_review_job_id :: string
  fr_prompt_version_id :: string
  fr_model_call :: receipt_model_call
  fr_context_sources :: "cited_source list"
  fr_verification :: receipt_verification

fun is_sandbox :: "receipt_verification \<Rightarrow> bool" where
  "is_sandbox (Sandbox_Verification _ _ _) = True"
| "is_sandbox (Asserted_Verification _) = False"

definition receipt_verified :: "finding_receipt \<Rightarrow> bool" where
  "receipt_verified r \<longleftrightarrow> is_sandbox (fr_verification r)"

text \<open>The pattern of the cost is the one of a recorded model call, \<open>cost_usd_pattern\<close>.\<close>

definition make_receipt_tokens :: "int \<Rightarrow> int \<Rightarrow> receipt_tokens result" where
  "make_receipt_tokens i o' = (if 0 \<le> i \<and> 0 \<le> o' then Inr \<lparr>rt_input_tokens = i, rt_output_tokens = o'\<rparr> else Inl ValueError)"

definition make_receipt_model_call :: "receipt_call_input \<Rightarrow> receipt_tokens \<Rightarrow> receipt_model_call result" where
  "make_receipt_model_call m tokens =
     (if mc_model m \<noteq> [] \<and> mc_prompt_version_id m \<noteq> [] \<and> cost_usd_pattern (mc_cost_usd m)
      then Inr \<lparr>rm_provider = mc_provider m, rm_model = mc_model m, rm_prompt_version_id = mc_prompt_version_id m,
                rm_tokens = tokens, rm_cost_usd = mc_cost_usd m\<rparr>
      else Inl ValueError)"

definition make_context_source :: "context_source_kind \<Rightarrow> string \<Rightarrow> string \<Rightarrow> cited_source result" where
  "make_context_source kind name reference =
     (if name \<noteq> [] \<and> reference \<noteq> [] then Inr \<lparr>cu_kind = kind, cu_name = name, cu_reference = reference\<rparr> else Inl ValueError)"

fun make_verification :: "receipt_verification \<Rightarrow> receipt_verification result" where
  "make_verification (Asserted_Verification reason) = (if reason \<noteq> [] then Inr (Asserted_Verification reason) else Inl ValueError)"
| "make_verification (Sandbox_Verification run_id command_id detail) =
     (if run_id \<noteq> [] \<and> command_id \<noteq> [] \<and> detail \<noteq> [] then Inr (Sandbox_Verification run_id command_id detail) else Inl ValueError)"

definition build_finding_receipt ::
  "finding \<Rightarrow> receipt_call_input \<Rightarrow> cited_source list \<Rightarrow> receipt_verification \<Rightarrow> finding_receipt result" where
  "build_finding_receipt f m sources v =
     (if fi_review_job_id f \<noteq> mc_review_job_id m then Inl ValueError
      else if fi_verified f \<and> fi_verification_method f \<noteq> Sandbox then Inl ValueError
      else if fi_verified f \<and> \<not> is_sandbox v then Inl ValueError
      else if \<not> fi_verified f \<and> is_sandbox v then Inl ValueError
      else bind_r (make_receipt_tokens (mc_input_tokens m) (mc_output_tokens m)) (\<lambda>tokens.
           bind_r (make_receipt_model_call m tokens) (\<lambda>call.
             if fi_id f \<noteq> [] \<and> fi_review_job_id f \<noteq> [] \<and> mc_prompt_version_id m \<noteq> [] \<and> sources \<noteq> []
             then Inr \<lparr>fr_finding_id = fi_id f, fr_review_job_id = fi_review_job_id f, fr_prompt_version_id = mc_prompt_version_id m,
                       fr_model_call = call, fr_context_sources = sources, fr_verification = v\<rparr>
             else Inl ValueError)))"

section \<open>The shadow policy\<close>

record shadow_policy =
  sp_auto_post :: bool
  sp_repository_allowlist :: "string list"
  sp_kill_switch :: bool
  sp_per_pr_budget_usd :: rat

datatype 'a policy_answer = Policy_Refused string | Policy_Raised py_exn | Policy_Ok 'a

definition per_pr_budget_cap_usd :: rat where "per_pr_budget_cap_usd = 1"

definition bool_setting :: "json \<Rightarrow> string \<Rightarrow> (bool \<Rightarrow> 'a policy_answer) \<Rightarrow> 'a policy_answer" where
  "bool_setting v field k = (case v of JBool b \<Rightarrow> k b | _ \<Rightarrow> Policy_Refused (field @ ''_not_bool''))"

fun text_list :: "json list \<Rightarrow> string list option" where
  "text_list [] = Some []"
| "text_list (JStr s # vs) = map_option ((#) s) (text_list vs)"
| "text_list (_ # vs) = None"

definition load_shadow_policy :: "(json \<Rightarrow> rat result) \<Rightarrow> (string \<times> json) list \<Rightarrow> shadow_policy policy_answer" where
  "load_shadow_policy decimal data =
     (case map_of data ''kill_switch'' of
        None \<Rightarrow> Policy_Refused ''missing_kill_switch''
      | Some switch \<Rightarrow>
          (let raw = (case map_of data ''repository_allowlist'' of None \<Rightarrow> JNull | Some v \<Rightarrow> v);
               raw_allow = (if json_truthy raw then raw else JArr [])
           in case (case raw_allow of JArr vs \<Rightarrow> text_list vs | _ \<Rightarrow> None) of
                None \<Rightarrow> Policy_Refused ''repository_allowlist_invalid''
              | Some allow \<Rightarrow>
                  (case decimal (case map_of data ''per_pr_budget_usd'' of None \<Rightarrow> JStr ''0'' | Some v \<Rightarrow> v) of
                     Inl e \<Rightarrow> Policy_Raised e
                   | Inr budget \<Rightarrow>
                       bool_setting (case map_of data ''auto_post'' of None \<Rightarrow> JBool False | Some v \<Rightarrow> v) ''auto_post'' (\<lambda>auto_post.
                       bool_setting switch ''kill_switch'' (\<lambda>kill_switch.
                         Policy_Ok \<lparr>sp_auto_post = auto_post, sp_repository_allowlist = allow, sp_kill_switch = kill_switch,
                                    sp_per_pr_budget_usd = budget\<rparr>)))))"

definition assert_shadow_policy_allowed :: "shadow_policy \<Rightarrow> string \<Rightarrow> bool \<Rightarrow> unit policy_answer" where
  "assert_shadow_policy_allowed p repository release_gates_passed =
     (if sp_auto_post p \<and> \<not> release_gates_passed then Policy_Refused ''auto_post_before_release_gates''
      else if repository \<notin> set (sp_repository_allowlist p) then Policy_Refused ''repository_not_allowlisted''
      else if sp_per_pr_budget_usd p > per_pr_budget_cap_usd then Policy_Refused ''per_pr_budget_over_cap''
      else Policy_Ok ())"

section \<open>Token windows and the order of reading\<close>

definition model_context_windows :: "(string \<times> int \<times> int) list" where
  "model_context_windows = [(''gpt-4o-mini'', 128000, 16384), (''claude-3-5-haiku-latest'', 200000, 8192)]"

definition context_budget_for_model :: "string \<Rightarrow> context_budget result" where
  "context_budget_for_model model =
     (case map_of model_context_windows model of
        None \<Rightarrow> Inl KeyError
      | Some (context_window, output_allowance) \<Rightarrow> budget_from_window context_window output_allowance)"

record commit_file_touch =
  cf_committed_at :: timestamp
  cf_sha :: string
  cf_paths :: "string list"

fun assert_commits_in_time_order :: "commit_file_touch list \<Rightarrow> unit result" where
  "assert_commits_in_time_order (previous # current # cs) =
     (if cf_committed_at current < cf_committed_at previous then Inl ValueError else assert_commits_in_time_order (current # cs))"
| "assert_commits_in_time_order _ = Inr ()"

fun read_paths :: "string list \<Rightarrow> string list \<Rightarrow> string list" where
  "read_paths ordered [] = ordered"
| "read_paths ordered (p # ps) = (if p \<in> set ordered then read_paths ordered ps else read_paths (ordered @ [p]) ps)"

definition ordered_file_reads :: "commit_file_touch list \<Rightarrow> string list result" where
  "ordered_file_reads commits =
     bind_r (assert_commits_in_time_order commits) (\<lambda>_. Inr (fold (\<lambda>c ordered. read_paths ordered (cf_paths c)) commits []))"

definition order_files_by_commit_time :: "commit_file_touch list \<Rightarrow> string list \<Rightarrow> string list result" where
  "order_files_by_commit_time commits files =
     bind_r (ordered_file_reads commits) (\<lambda>ordered. Inr (filter (\<lambda>p. p \<in> set files) ordered))"

section \<open>What a receipt says\<close>

text \<open>Receipts.  A receipt is built exactly when finding and model call belong to one job, the finding is
  verified if and only if a sandbox run is cited for it and then by the sandbox method, the tokens are not
  negative, the cost is a plain amount of dollars and at least one source is named.  What is built names that
  finding, that job and that prompt version, counts as verified exactly when the finding is, and its total is the
  sum of its tokens.\<close>

theorem receipt_verified_only_by_sandbox:
  "(\<exists>r. build_finding_receipt f m sources v = Inr r) \<longleftrightarrow>
      fi_review_job_id f = mc_review_job_id m \<and> fi_verified f = is_sandbox v \<and>
      (fi_verified f \<longrightarrow> fi_verification_method f = Sandbox) \<and> 0 \<le> mc_input_tokens m \<and> 0 \<le> mc_output_tokens m \<and>
      cost_usd_pattern (mc_cost_usd m) \<and> mc_model m \<noteq> [] \<and> mc_prompt_version_id m \<noteq> [] \<and>
      fi_id f \<noteq> [] \<and> fi_review_job_id f \<noteq> [] \<and> sources \<noteq> []"
  "build_finding_receipt f m sources v = Inr r \<Longrightarrow>
      receipt_verified r = fi_verified f \<and> fr_finding_id r = fi_id f \<and> fr_review_job_id r = mc_review_job_id m \<and>
      rm_prompt_version_id (fr_model_call r) = fr_prompt_version_id r \<and>
      total_tokens (rm_tokens (fr_model_call r)) = mc_input_tokens m + mc_output_tokens m"
  by (auto simp: build_finding_receipt_def bind_r_def make_receipt_tokens_def make_receipt_model_call_def receipt_verified_def
      total_tokens_def split: if_splits)

definition sample_call :: receipt_call_input where
  "sample_call = \<lparr>mc_review_job_id = ''j'', mc_provider = Receipt_Openai, mc_model = ''gpt-4o-mini'', mc_prompt_version_id = ''p1'',
     mc_input_tokens = 10, mc_output_tokens = 2, mc_cost_usd = ''0.000003''\<rparr>"

definition sample_receipt_finding :: finding where
  "sample_receipt_finding =
     \<lparr>fi_id = ''f'', fi_review_job_id = ''j'', fi_concern = Correctness, fi_severity = High, fi_category = ''c'', fi_file_path = ''a.py'',
      fi_line_start = 1, fi_line_end = 1, fi_title = ''t'', fi_rationale = ''r'', fi_evidence = [''e''], fi_confidence = 1,
      fi_verified = True, fi_verification_method = Sandbox, fi_public_safe = True, fi_status = Draft\<rparr>"

theorem receipt_verified_only_by_sandbox_witness:
  "\<exists>r. build_finding_receipt sample_receipt_finding sample_call [\<lparr>cu_kind = Diff_Source, cu_name = ''diff'', cu_reference = ''a.py''\<rparr>]
      (Sandbox_Verification ''run'' ''cmd'' ''passed'') = Inr r \<and> receipt_verified r \<and> total_tokens (rm_tokens (fr_model_call r)) = 12"
proof -
  let ?b = "build_finding_receipt sample_receipt_finding sample_call [\<lparr>cu_kind = Diff_Source, cu_name = ''diff'', cu_reference = ''a.py''\<rparr>]
      (Sandbox_Verification ''run'' ''cmd'' ''passed'')"
  have "cost_usd_pattern ''0.000003''" by code_simp
  then have "\<exists>r. ?b = Inr r"
    by (subst receipt_verified_only_by_sandbox(1)) (simp add: sample_receipt_finding_def sample_call_def)
  then obtain r where r: "?b = Inr r" by blast
  from receipt_verified_only_by_sandbox(2) [OF r] r show ?thesis
    by (simp add: sample_receipt_finding_def sample_call_def)
qed

text \<open>The policy lets a repository through exactly when it is listed, its budget is within the cap and automatic posting
  waits for the release gates.  The switch that is to halt reviews is required and read, but does not enter.\<close>

theorem shadow_policy_exact:
  "assert_shadow_policy_allowed p repository gates = Policy_Ok () \<longleftrightarrow>
     repository \<in> set (sp_repository_allowlist p) \<and> sp_per_pr_budget_usd p \<le> 1 \<and> (sp_auto_post p \<longrightarrow> gates)"
  by (auto simp: assert_shadow_policy_allowed_def per_pr_budget_cap_usd_def)

theorem kill_switch_has_no_effect:
  "assert_shadow_policy_allowed (p\<lparr>sp_kill_switch := b\<rparr>) repository gates = assert_shadow_policy_allowed p repository gates"
  by (simp add: assert_shadow_policy_allowed_def)

lemma load_shadow_policy_needs_switch:
  "load_shadow_policy decimal data = Policy_Ok p \<Longrightarrow> map_of data ''kill_switch'' = Some (JBool (sp_kill_switch p))"
  by (auto simp: load_shadow_policy_def bool_setting_def Let_def split: option.splits json.splits sum.splits if_splits)

section \<open>Every touched file is read once\<close>

text \<open>The reference: keep of every path its first occurrence.\<close>

definition first_reads :: "string list \<Rightarrow> string list" where
  "first_reads ps = rev (remdups (rev ps))"

lemma first_reads_snoc:
  "first_reads (ps @ [p]) = (if p \<in> set ps then first_reads ps else first_reads ps @ [p])"
  by (simp add: first_reads_def)

lemma set_first_reads: "set (first_reads ps) = set ps"
  by (simp add: first_reads_def)

lemma read_paths_reference: "read_paths (first_reads qs) ps = first_reads (qs @ ps)"
proof (induction ps arbitrary: qs)
  case (Cons p ps)
  have "read_paths (first_reads qs) (p # ps) = read_paths (first_reads (qs @ [p])) ps"
    by (simp add: first_reads_snoc set_first_reads)
  with Cons [of "qs @ [p]"] show ?case by simp
qed simp

lemma fold_read_paths:
  "fold (\<lambda>c ordered. read_paths ordered (cf_paths c)) cs (first_reads qs) = first_reads (qs @ concat (map cf_paths cs))"
  by (induction cs arbitrary: qs) (simp_all add: read_paths_reference)

lemma time_order_iff: "assert_commits_in_time_order cs = Inr () \<longleftrightarrow> sorted (map cf_committed_at cs)"
  by (induction cs rule: assert_commits_in_time_order.induct) (auto simp: sorted2)

text \<open>The order exists exactly for commits in the order of their times, and then every touched file is listed once, at the
  place of its first occurrence; the restriction to the requested files keeps that order.\<close>

theorem file_reads_are_first_occurrences:
  "ordered_file_reads cs =
     (if sorted (map cf_committed_at cs) then Inr (first_reads (concat (map cf_paths cs))) else Inl ValueError)"
  "order_files_by_commit_time cs files = Inr ps \<Longrightarrow>
     distinct ps \<and> set ps = set files \<inter> \<Union> (set ` cf_paths ` set cs) \<and>
     ps = filter (\<lambda>p. p \<in> set files) (first_reads (concat (map cf_paths cs)))"
proof -
  have err: "assert_commits_in_time_order ds = Inl e \<Longrightarrow> e = ValueError" for ds e
    by (induction ds rule: assert_commits_in_time_order.induct) (auto split: if_splits)
  have "first_reads [] = []" by (simp add: first_reads_def)
  with fold_read_paths [of cs "[]"]
  have f: "fold (\<lambda>c ordered. read_paths ordered (cf_paths c)) cs [] = first_reads (concat (map cf_paths cs))" by simp
  show reads: "ordered_file_reads cs =
     (if sorted (map cf_committed_at cs) then Inr (first_reads (concat (map cf_paths cs))) else Inl ValueError)"
    using time_order_iff [of cs] err [of cs] by (cases "assert_commits_in_time_order cs") (auto simp: ordered_file_reads_def f)
  assume "order_files_by_commit_time cs files = Inr ps"
  then have ps: "ps = filter (\<lambda>p. p \<in> set files) (first_reads (concat (map cf_paths cs)))"
    by (auto simp: order_files_by_commit_time_def reads split: if_splits)
  moreover have "distinct (first_reads qs)" for qs by (simp add: first_reads_def)
  ultimately show "distinct ps \<and> set ps = set files \<inter> \<Union> (set ` cf_paths ` set cs) \<and>
     ps = filter (\<lambda>p. p \<in> set files) (first_reads (concat (map cf_paths cs)))"
    by (auto simp: set_first_reads)
qed

end
