(* ===== verification/Terminal.thy ===== *)
theory Terminal
  imports Local_Config Trace Vector_Store
begin

text \<open>
  The logic behind the terminal screens, \<open>tui/\<close>: the coordinator that starts a review for every new head while the
  terminal is open (\<open>auto_review.py\<close>), the summary that is pushed to the hosted plane (\<open>push_review_summary.py\<close>),
  the list of reviews read back from the local log (\<open>review_dashboard.py\<close>), the installation snapshot, the wait for
  pairing and the hosted clients.  HTTP answers, clocks and date texts are parameters; layout and key bindings of the
  screens are not modelled.
\<close>

section \<open>Automatic reviews\<close>

record sync_event =
  se_action :: string
  se_pull_request_number :: int
  se_head_sha :: string
  se_draft :: bool
  se_installation_id :: int
  se_repository_id :: int
  se_owner :: string
  se_repository :: string

datatype outcome_kind = Started | Superseded | Ignored | Cancelled_Review | Not_Running

record auto_review_outcome =
  ao_kind :: outcome_kind
  ao_pull_request_number :: int
  ao_head_sha :: string
  ao_previous_head_sha :: string

record coordinator =
  co_running :: bool
  co_active_heads :: "int \<rightharpoonup> string"

definition delivery_from_event :: "sync_event \<Rightarrow> github_delivery result" where
  "delivery_from_event e =
     bind_r (make_repository_identity (se_installation_id e) (se_repository_id e) (se_owner e) (se_repository e)) (\<lambda>identity.
     bind_r (make_pull_request_ref (se_owner e) (se_repository e) (se_pull_request_number e)) (\<lambda>ref.
       make_github_delivery (''tui-auto-review-'' @ show_int (se_pull_request_number e)) ''pull_request'' (se_action e)
         identity ref (se_draft e) (replicate 40 CHR ''a'') (se_head_sha e)))"

definition outcome_for :: "outcome_kind \<Rightarrow> sync_event \<Rightarrow> string \<Rightarrow> string \<Rightarrow> auto_review_outcome" where
  "outcome_for kind e head_sha previous =
     \<lparr>ao_kind = kind, ao_pull_request_number = se_pull_request_number e, ao_head_sha = head_sha, ao_previous_head_sha = previous\<rparr>"

text \<open>The third component is the call of \<open>on_start_review\<close>, if there is one.\<close>

definition start_review :: "coordinator \<Rightarrow> sync_event \<Rightarrow> coordinator \<times> auto_review_outcome result \<times> (sync_event \<times> bool \<times> string) option" where
  "start_review c e =
     (case co_active_heads c (se_pull_request_number e) of
        Some previous \<Rightarrow>
          if previous = se_head_sha e then (c, Inr (outcome_for Ignored e (se_head_sha e) []), None)
          else (c\<lparr>co_active_heads := (co_active_heads c)(se_pull_request_number e \<mapsto> se_head_sha e)\<rparr>,
                Inr (outcome_for Superseded e (se_head_sha e) previous), Some (e, True, previous))
      | None \<Rightarrow>
          (c\<lparr>co_active_heads := (co_active_heads c)(se_pull_request_number e \<mapsto> se_head_sha e)\<rparr>,
           Inr (outcome_for Started e (se_head_sha e) []), Some (e, False, [])))"

definition handle_event :: "coordinator \<Rightarrow> sync_event \<Rightarrow> coordinator \<times> auto_review_outcome result \<times> (sync_event \<times> bool \<times> string) option" where
  "handle_event c e =
     (if \<not> co_running c then (c, Inr (outcome_for Not_Running e [] []), None)
      else case delivery_from_event e of
        Inl err \<Rightarrow> (c, Inl err, None)
      | Inr d \<Rightarrow>
          (case handle_pull_request_event d of
             Ignore \<Rightarrow> (c, Inr (outcome_for Ignored e (se_head_sha e) []), None)
           | Cancel \<Rightarrow> (c\<lparr>co_active_heads := (co_active_heads c)(se_pull_request_number e := None)\<rparr>,
                        Inr (outcome_for Cancelled_Review e (se_head_sha e) []), None)
           | Enqueue \<Rightarrow> start_review c e))"

definition start_coordinator :: "coordinator \<Rightarrow> coordinator" where
  "start_coordinator c = c\<lparr>co_running := True\<rparr>"

definition stop_coordinator :: "coordinator \<Rightarrow> coordinator" where
  "stop_coordinator c = c\<lparr>co_running := False, co_active_heads := Map.empty\<rparr>"

datatype coordinator_input = Open_Terminal | Close_Terminal | Pull_Request_Event sync_event

fun coordinator_step :: "coordinator \<Rightarrow> coordinator_input \<Rightarrow> coordinator" where
  "coordinator_step c Open_Terminal = start_coordinator c"
| "coordinator_step c Close_Terminal = stop_coordinator c"
| "coordinator_step c (Pull_Request_Event e) = fst (handle_event c e)"

definition coordinator_run :: "coordinator \<Rightarrow> coordinator_input list \<Rightarrow> coordinator" where
  "coordinator_run c inputs = fold (\<lambda>i c. coordinator_step c i) inputs c"

section \<open>The pushed summary\<close>

record finding_push =
  fp_concern :: string
  fp_severity :: string
  fp_file_path :: string
  fp_line_start :: int
  fp_line_end :: int
  fp_title :: string
  fp_status :: string

record summary_push =
  sp_review_job_id :: string
  sp_installation_id :: int
  sp_github_repository_id :: int
  sp_pull_request_number :: int
  sp_head_sha :: string
  sp_status :: string
  sp_stopped_early :: bool
  sp_findings :: "finding_push list"

definition allowed_summary_fields :: "string list" where
  "allowed_summary_fields =
     [''review_job_id'', ''installation_id'', ''github_repository_id'', ''pull_request_number'', ''head_sha'', ''status'',
      ''stopped_early'', ''findings'']"

definition forbidden_payload_keys :: "string list" where
  "forbidden_payload_keys = [''reasoning'', ''diff'', ''source'', ''api_key'', ''model_key'']"

definition finding_payload :: "finding_push \<Rightarrow> json" where
  "finding_payload f =
     JObj [(''concern'', JStr (fp_concern f)), (''severity'', JStr (fp_severity f)), (''file_path'', JStr (fp_file_path f)),
           (''line_start'', JInt (fp_line_start f)), (''line_end'', JInt (fp_line_end f)), (''title'', JStr (fp_title f)),
           (''status'', JStr (fp_status f))]"

definition build_summary_payload :: "summary_push \<Rightarrow> (string \<times> json) list result" where
  "build_summary_payload s =
     (let payload =
        [(''review_job_id'', JStr (sp_review_job_id s)), (''installation_id'', JInt (sp_installation_id s)),
         (''github_repository_id'', JInt (sp_github_repository_id s)), (''pull_request_number'', JInt (sp_pull_request_number s)),
         (''head_sha'', JStr (sp_head_sha s)), (''status'', JStr (sp_status s)), (''stopped_early'', JBool (sp_stopped_early s)),
         (''findings'', JArr (map finding_payload (sp_findings s)))]
      in if list_all (\<lambda>(k, _). k \<in> set allowed_summary_fields) payload then Inr payload else Inl ValueError)"

fun reject_forbidden_values :: "json \<Rightarrow> unit result" and reject_in_fields :: "(string \<times> json) list \<Rightarrow> unit result"
  and reject_in_items :: "json list \<Rightarrow> unit result" where
  "reject_forbidden_values (JObj kvs) = reject_in_fields kvs"
| "reject_forbidden_values (JArr vs) = reject_in_items vs"
| "reject_forbidden_values _ = Inr ()"
| "reject_in_fields [] = Inr ()"
| "reject_in_fields ((k, v) # kvs) =
     (if k \<in> set forbidden_payload_keys then Inl ValueError
      else bind_r (reject_forbidden_values v) (\<lambda>_. reject_in_fields kvs))"
| "reject_in_items [] = Inr ()"
| "reject_in_items (v # vs) = bind_r (reject_forbidden_values v) (\<lambda>_. reject_in_items vs)"

record push_result =
  pu_ok :: bool
  pu_error :: string

text \<open>\<open>client\<close> sends a payload; \<open>exn_text\<close> is \<open>str\<close> of an exception.\<close>

definition push_review_summary ::
  "(py_exn \<Rightarrow> string) \<Rightarrow> ((string \<times> json) list \<Rightarrow> 's \<Rightarrow> unit result \<times> 's) \<Rightarrow> summary_push \<Rightarrow> 's \<Rightarrow> push_result \<times> 's" where
  "push_review_summary exn_text client s w =
     (case bind_r (build_summary_payload s) (\<lambda>payload. bind_r (reject_forbidden_values (JObj payload)) (\<lambda>_. Inr payload)) of
        Inl e \<Rightarrow> (\<lparr>pu_ok = False, pu_error = exn_text e\<rparr>, w)
      | Inr payload \<Rightarrow>
          (case client payload w of
             (Inl e, w') \<Rightarrow> (\<lparr>pu_ok = False, pu_error = exn_text e\<rparr>, w')
           | (Inr _, w') \<Rightarrow> (\<lparr>pu_ok = True, pu_error = []\<rparr>, w')))"

section \<open>The installation snapshot\<close>

record repository_permission =
  rp_github_repository_id :: int
  rp_name :: string

record installation_snapshot =
  is_github_login :: string
  is_github_user_id :: int
  is_installation_id :: int
  is_repositories :: "repository_permission list"

definition item_int :: "json \<Rightarrow> string \<Rightarrow> int result" where
  "item_int v k = bind_r (json_item v k) py_int"

definition item_str :: "(json \<Rightarrow> string) \<Rightarrow> json \<Rightarrow> string \<Rightarrow> string result" where
  "item_str repr v k = bind_r (json_item v k) (\<lambda>x. Inr (py_str repr x))"

definition permission_of :: "(json \<Rightarrow> string) \<Rightarrow> json \<Rightarrow> repository_permission result" where
  "permission_of repr v =
     bind_r (item_int v ''github_repository_id'') (\<lambda>i.
     bind_r (item_str repr v ''name'') (\<lambda>n. Inr \<lparr>rp_github_repository_id = i, rp_name = n\<rparr>))"

text \<open>Iterating over a value that is not a list is not modelled: it raises \<open>TypeError\<close> here.\<close>

definition iterate :: "json \<Rightarrow> json list result" where
  "iterate v = (case v of JArr vs \<Rightarrow> Inr vs | _ \<Rightarrow> Inl TypeError)"

definition snapshot_from_mapping :: "(json \<Rightarrow> string) \<Rightarrow> (string \<times> json) list \<Rightarrow> installation_snapshot result" where
  "snapshot_from_mapping repr payload =
     bind_r (bind_r (iterate (get_default (JArr []) ''repositories'' payload)) (map_r (permission_of repr))) (\<lambda>repositories.
     bind_r (item_str repr (JObj payload) ''github_login'') (\<lambda>login.
     bind_r (item_int (JObj payload) ''github_user_id'') (\<lambda>user_id.
     bind_r (item_int (JObj payload) ''installation_id'') (\<lambda>installation_id.
       Inr \<lparr>is_github_login = login, is_github_user_id = user_id, is_installation_id = installation_id,
            is_repositories = repositories\<rparr>))))"

definition load_installation_snapshot :: "(json \<Rightarrow> string) \<Rightarrow> json_file \<Rightarrow> installation_snapshot option result" where
  "load_installation_snapshot repr f =
     (case f of
        None \<Rightarrow> Inr None
      | Some (Inl e) \<Rightarrow> Inl e
      | Some (Inr (JObj payload)) \<Rightarrow> bind_r (snapshot_from_mapping repr payload) (\<lambda>s. Inr (Some s))
      | Some (Inr _) \<Rightarrow> Inl ValueError)"

definition permission_json :: "repository_permission \<Rightarrow> json" where
  "permission_json r = JObj [(''github_repository_id'', JInt (rp_github_repository_id r)), (''name'', JStr (rp_name r))]"

definition save_installation_snapshot :: "installation_snapshot \<Rightarrow> json_file" where
  "save_installation_snapshot s =
     write_object [(''github_login'', JStr (is_github_login s)), (''github_user_id'', JInt (is_github_user_id s)),
       (''installation_id'', JInt (is_installation_id s)), (''repositories'', JArr (map permission_json (is_repositories s)))]"

section \<open>The list of reviews\<close>

record terminal_finding =
  tf_concern :: string
  tf_severity :: string
  tf_file_path :: string
  tf_line_start :: int
  tf_line_end :: int
  tf_title :: string
  tf_status :: string

record terminal_review =
  tv_review_job_id :: string
  tv_pull_request_number :: int
  tv_head_sha :: string
  tv_status :: string
  tv_stopped_early :: bool
  tv_stopped_early_message :: "string option"
  tv_created_at :: timestamp
  tv_findings :: "terminal_finding list"

record terminal_repository =
  ty_installation_id :: int
  ty_github_repository_id :: int
  ty_repository_name :: string
  ty_reviews :: "terminal_review list"

definition stopped_early_message :: string where
  "stopped_early_message =
     ''This review stopped early: the provider ran out of tokens partway through. '' @
     ''Add credits or switch provider on your machine to finish reviewing the rest.''"

definition finding_from_payload :: "(json \<Rightarrow> string) \<Rightarrow> json \<Rightarrow> terminal_finding result" where
  "finding_from_payload repr v =
     bind_r (item_str repr v ''concern'') (\<lambda>concern.
     bind_r (item_str repr v ''severity'') (\<lambda>severity.
     bind_r (item_str repr v ''file_path'') (\<lambda>file_path.
     bind_r (item_int v ''line_start'') (\<lambda>line_start.
     bind_r (item_int v ''line_end'') (\<lambda>line_end.
     bind_r (item_str repr v ''title'') (\<lambda>title.
     bind_r (item_str repr v ''status'') (\<lambda>status.
       Inr \<lparr>tf_concern = concern, tf_severity = severity, tf_file_path = file_path, tf_line_start = line_start,
            tf_line_end = line_end, tf_title = title, tf_status = status\<rparr>)))))))"

text \<open>\<open>fromiso\<close> is \<open>datetime.fromisoformat\<close>, \<open>now\<close> the clock.\<close>

definition review_from_payload ::
  "(json \<Rightarrow> string) \<Rightarrow> (string \<Rightarrow> timestamp result) \<Rightarrow> timestamp \<Rightarrow> (string \<times> json) list \<Rightarrow> terminal_review result" where
  "review_from_payload repr fromiso now payload =
     bind_r (case json_get (JObj payload) ''created_at'' of JStr s \<Rightarrow> fromiso s | _ \<Rightarrow> Inr now) (\<lambda>created_at.
     bind_r (item_str repr (JObj payload) ''review_job_id'') (\<lambda>review_job_id.
     bind_r (item_int (JObj payload) ''pull_request_number'') (\<lambda>pull_request_number.
     bind_r (item_str repr (JObj payload) ''head_sha'') (\<lambda>head_sha.
     bind_r (item_str repr (JObj payload) ''status'') (\<lambda>status.
     let early = json_truthy (get_default (JBool False) ''stopped_early'' payload)
     in bind_r (bind_r (iterate (get_default (JArr []) ''findings'' payload)) (map_r (finding_from_payload repr))) (\<lambda>findings.
       Inr \<lparr>tv_review_job_id = review_job_id, tv_pull_request_number = pull_request_number, tv_head_sha = head_sha,
            tv_status = status, tv_stopped_early = early,
            tv_stopped_early_message = (if early then Some stopped_early_message else None),
            tv_created_at = created_at, tv_findings = findings\<rparr>))))))"

fun group_reviews ::
  "(json \<Rightarrow> string) \<Rightarrow> (string \<Rightarrow> timestamp result) \<Rightarrow> timestamp \<Rightarrow> (string \<times> json) list list \<Rightarrow>
   (int \<Rightarrow> terminal_review list) \<Rightarrow> (int \<Rightarrow> terminal_review list) result" where
  "group_reviews repr fromiso now [] grouped = Inr grouped"
| "group_reviews repr fromiso now (payload # payloads) grouped =
     bind_r (item_int (JObj payload) ''github_repository_id'') (\<lambda>i.
     bind_r (review_from_payload repr fromiso now payload) (\<lambda>r.
       group_reviews repr fromiso now payloads (grouped(i := grouped i @ [r]))))"

definition repositories_from_log ::
  "(json \<Rightarrow> string) \<Rightarrow> (string \<Rightarrow> timestamp result) \<Rightarrow> timestamp \<Rightarrow> installation_snapshot \<Rightarrow> json_file \<Rightarrow> terminal_repository list result" where
  "repositories_from_log repr fromiso now snapshot f =
     bind_r (list_review_summaries f) (\<lambda>payloads.
     bind_r (group_reviews repr fromiso now payloads (\<lambda>_. [])) (\<lambda>grouped.
       Inr (map (\<lambda>(i, name). \<lparr>ty_installation_id = is_installation_id snapshot, ty_github_repository_id = i,
                               ty_repository_name = name, ty_reviews = grouped i\<rparr>)
              (dict_of (map (\<lambda>r. (rp_github_repository_id r, rp_name r)) (is_repositories snapshot))))))"

definition shown_severity_rank :: "string \<Rightarrow> int" where
  "shown_severity_rank s =
     (case map_of [(''critical'', 4), (''high'', 3), (''medium'', 2), (''low'', 1), (''info'', 0)] s of Some r \<Rightarrow> r | None \<Rightarrow> 0)"

fun worst_of :: "string option \<Rightarrow> int \<Rightarrow> terminal_finding list \<Rightarrow> string option" where
  "worst_of worst worst_rank [] = worst"
| "worst_of worst worst_rank (f # fs) =
     (let severity = py_lower (tf_severity f); rank = shown_severity_rank severity
      in if rank > worst_rank then worst_of (Some severity) rank fs else worst_of worst worst_rank fs)"

definition worst_severity :: "terminal_review \<Rightarrow> string option" where
  "worst_severity r = worst_of None (- 1) (tv_findings r)"

definition severity_order :: "string list" where
  "severity_order = [''critical'', ''high'', ''medium'', ''low'', ''info'']"

definition severity_counts :: "terminal_repository list \<Rightarrow> (string \<times> nat) list" where
  "severity_counts rs =
     (let findings = concat (map tv_findings (concat (map ty_reviews rs)))
      in map (\<lambda>level. (level, length (filter (\<lambda>f. py_lower (tf_severity f) = level) findings))) severity_order)"

definition is_alnum :: "char \<Rightarrow> bool" where
  "is_alnum c \<longleftrightarrow> is_digit c \<or> (65 \<le> (of_char c :: nat) \<and> (of_char c :: nat) \<le> 90) \<or> (97 \<le> (of_char c :: nat) \<and> (of_char c :: nat) \<le> 122)
     \<or> (of_char c :: nat) \<in> {170, 178, 179, 181, 185, 186, 188, 189, 190} \<or> (192 \<le> (of_char c :: nat) \<and> (of_char c :: nat) \<notin> {215, 247})"

definition safe_id :: "string \<Rightarrow> string" where
  "safe_id s = map (\<lambda>c. if is_alnum c \<or> c = CHR ''-'' then c else CHR ''-'') s"

definition all_reviews :: "terminal_repository list \<Rightarrow> (terminal_repository \<times> terminal_review) list" where
  "all_reviews rs = concat (map (\<lambda>y. map (Pair y) (ty_reviews y)) rs)"

definition find_review :: "terminal_repository list \<Rightarrow> string \<Rightarrow> (terminal_repository \<times> terminal_review) option" where
  "find_review rs safe_review_id =
     find (\<lambda>(_, r). safe_id (tv_review_job_id r) = safe_review_id) (all_reviews rs)"

definition review_rows :: "terminal_repository list \<Rightarrow> (terminal_repository \<times> terminal_review) list" where
  "review_rows rs = rev (sort_key (\<lambda>(_, r). tv_created_at r) (rev (all_reviews rs)))"

section \<open>The hosted clients\<close>

definition raise_for_status :: "nat \<Rightarrow> json result \<Rightarrow> json result" where
  "raise_for_status status answer = (if 200 \<le> status \<and> status < 300 then answer else Inl (HTTPStatusError status))"

definition get_field :: "json \<Rightarrow> string \<Rightarrow> json result" where
  "get_field v k = (if is_obj v then Inr (json_get v k) else Inl (Exception_Of ''AttributeError''))"

definition nonempty_text :: "json \<Rightarrow> string result" where
  "nonempty_text v = (case v of JStr (c # cs) \<Rightarrow> Inr (c # cs) | _ \<Rightarrow> Inl RuntimeError)"

definition client_create_code :: "nat \<times> json result \<Rightarrow> string result" where
  "client_create_code reply =
     bind_r (raise_for_status (fst reply) (snd reply)) (\<lambda>payload. bind_r (get_field payload ''code'') nonempty_text)"

definition client_status :: "nat \<times> json result \<Rightarrow> string result" where
  "client_status reply =
     bind_r (raise_for_status (fst reply) (snd reply)) (\<lambda>payload.
     bind_r (get_field payload ''state'') (\<lambda>raw_state.
       Inr (if raw_state = JStr ''pending'' then ''pending''
            else if raw_state = JStr ''exchangeable'' then ''exchangeable'' else ''invalid_or_expired'')))"

definition client_exchange :: "nat \<times> json result \<Rightarrow> string result" where
  "client_exchange reply =
     bind_r (raise_for_status (fst reply) (snd reply)) (\<lambda>payload. bind_r (get_field payload ''credential'') nonempty_text)"

definition mint_installation_token :: "nat \<times> json result \<Rightarrow> string result" where
  "mint_installation_token reply =
     bind_r (raise_for_status (fst reply) (snd reply)) (\<lambda>payload.
       nonempty_text (if is_obj payload then json_get payload ''token'' else JNull))"

definition fetch_installation :: "(json \<Rightarrow> string) \<Rightarrow> nat \<times> json result \<Rightarrow> installation_snapshot result" where
  "fetch_installation repr reply =
     bind_r (raise_for_status (fst reply) (snd reply)) (\<lambda>payload.
       case payload of JObj kvs \<Rightarrow> snapshot_from_mapping repr kvs | _ \<Rightarrow> Inl RuntimeError)"

definition is_github_connected :: "keyring \<Rightarrow> bool" where
  "is_github_connected secrets \<longleftrightarrow> (case keyring_get ''runner_credential'' secrets of Some c \<Rightarrow> py_strip c \<noteq> [] | None \<Rightarrow> False)"

definition has_model_key :: "keyring \<Rightarrow> bool" where
  "has_model_key secrets \<longleftrightarrow> (case keyring_get ''model_key'' secrets of Some c \<Rightarrow> py_strip c \<noteq> [] | None \<Rightarrow> False)"

definition token_provider_available :: "string result \<Rightarrow> keyring \<Rightarrow> bool" where
  "token_provider_available hosted secrets \<longleftrightarrow> (case hosted of Inl _ \<Rightarrow> False | Inr _ \<Rightarrow> is_github_connected secrets)"

definition reader_unavailable_reason :: "string result \<Rightarrow> keyring \<Rightarrow> string" where
  "reader_unavailable_reason hosted secrets =
     (case hosted of
        Inl _ \<Rightarrow> ''Not connected to the hosted plane, so repositories cannot be listed yet.''
      | Inr _ \<Rightarrow> if \<not> is_github_connected secrets
                 then ''This runner is not paired yet: connect GitHub before repositories can be listed.''
                 else ''Could not reach the hosted plane to list repositories.'')"

section \<open>Waiting for the pairing\<close>

abbreviation PairingWaitDeadlineExceeded :: py_exn where
  "PairingWaitDeadlineExceeded \<equiv> Exception_Of ''PairingWaitDeadlineExceeded''"

record 's pairing_env =
  pe_clock :: "'s \<Rightarrow> rat \<times> 's"
  pe_status :: "'s \<Rightarrow> string result \<times> 's"
  pe_sleep :: "rat \<Rightarrow> 's \<Rightarrow> 's"

text \<open>The loop with a bound on its rounds; \<open>None\<close> says that the bound was reached.\<close>

fun wait_loop :: "'s pairing_env \<Rightarrow> rat \<Rightarrow> rat \<Rightarrow> nat \<Rightarrow> 's \<Rightarrow> (unit result \<times> 's) option" where
  "wait_loop env interval deadline 0 s = None"
| "wait_loop env interval deadline (Suc n) s =
     (case pe_clock env s of (t, s1) \<Rightarrow>
        if t < deadline then
          (case pe_status env s1 of
             (Inl e, s2) \<Rightarrow> Some (Inl e, s2)
           | (Inr state, s2) \<Rightarrow>
               if state = ''exchangeable'' then Some (Inr (), s2)
               else if state = ''invalid_or_expired'' then Some (Inl PairingWaitDeadlineExceeded, s2)
               else wait_loop env interval deadline n (pe_sleep env interval s2))
        else Some (Inl PairingWaitDeadlineExceeded, s1))"

definition wait_for_pairing :: "'s pairing_env \<Rightarrow> rat \<Rightarrow> rat \<Rightarrow> nat \<Rightarrow> 's \<Rightarrow> (unit result \<times> 's) option" where
  "wait_for_pairing env deadline_seconds interval n s =
     (case pe_clock env s of (t, s1) \<Rightarrow> wait_loop env interval (t + deadline_seconds) n s1)"

section \<open>One review per head\<close>

text \<open>An input that may let a head of the pull request be reviewed again: closing the terminal, or an event of that
  number with another head or with an action that ends the review.\<close>

fun disturbs :: "int \<Rightarrow> string \<Rightarrow> coordinator_input \<Rightarrow> bool" where
  "disturbs n h Open_Terminal = False"
| "disturbs n h Close_Terminal = True"
| "disturbs n h (Pull_Request_Event e) \<longleftrightarrow>
     se_pull_request_number e = n \<and> (se_head_sha e \<noteq> h \<or> se_action e \<in> set cancel_actions)"

lemma start_review_heads:
  "co_active_heads (fst (start_review c e)) = (co_active_heads c)(se_pull_request_number e \<mapsto> se_head_sha e)"
  "co_running (fst (start_review c e)) = co_running c"
  by (auto simp: start_review_def split: option.splits)

lemma delivery_action: "delivery_from_event e = Inr d \<Longrightarrow> gd_action d = se_action e \<and> gd_event d = ''pull_request'' \<and> gd_draft d = se_draft e"
  by (auto simp: delivery_from_event_def bind_r_Inr make_github_delivery_def split: if_splits)

lemma handle_event_heads:
  "co_active_heads (fst (handle_event c e)) = co_active_heads c \<or>
   co_active_heads (fst (handle_event c e)) = (co_active_heads c)(se_pull_request_number e \<mapsto> se_head_sha e) \<or>
   co_active_heads (fst (handle_event c e)) = (co_active_heads c)(se_pull_request_number e := None) \<and> se_action e \<in> set cancel_actions"
  "co_running (fst (handle_event c e)) = co_running c"
proof -
  have alt: "fst (handle_event c e) = c \<or> (\<exists>d. co_running c \<and> delivery_from_event e = Inr d \<and> handle_pull_request_event d = Cancel) \<or>
      fst (handle_event c e) = fst (start_review c e)"
    by (cases "co_running c"; cases "delivery_from_event e"; simp add: handle_event_def split: lifecycle_kind.split)
  have cancel: "se_action e \<in> set cancel_actions"
    if "delivery_from_event e = Inr d" "handle_pull_request_event d = Cancel" for d
    using that delivery_action by (auto simp: handle_pull_request_event_def split: if_splits)
  from alt show "co_running (fst (handle_event c e)) = co_running c"
    by (elim disjE exE conjE) (simp_all add: handle_event_def start_review_heads)
  from alt show "co_active_heads (fst (handle_event c e)) = co_active_heads c \<or>
   co_active_heads (fst (handle_event c e)) = (co_active_heads c)(se_pull_request_number e \<mapsto> se_head_sha e) \<or>
   co_active_heads (fst (handle_event c e)) = (co_active_heads c)(se_pull_request_number e := None) \<and> se_action e \<in> set cancel_actions"
  proof (elim disjE exE conjE)
    fix d assume d: "co_running c" "delivery_from_event e = Inr d" "handle_pull_request_event d = Cancel"
    then show ?thesis using cancel [OF d(2,3)] by (simp add: handle_event_def)
  qed (simp_all add: start_review_heads)
qed

lemma undisturbed_step:
  assumes "co_active_heads c n = Some h" "\<not> disturbs n h i"
  shows "co_active_heads (coordinator_step c i) n = Some h"
proof (cases i)
  case (Pull_Request_Event e)
  with assms handle_event_heads(1) [of c e] show ?thesis by auto
qed (insert assms, auto simp: start_coordinator_def)

lemma undisturbed_run:
  "co_active_heads c n = Some h \<Longrightarrow> \<forall>i \<in> set is. \<not> disturbs n h i \<Longrightarrow> co_active_heads (coordinator_run c is) n = Some h"
  by (induction "is" arbitrary: c) (auto simp: coordinator_run_def undisturbed_step)

lemma handle_event_call:
  assumes "snd (snd (handle_event c e)) \<noteq> None"
  shows "co_running c" "co_active_heads c (se_pull_request_number e) \<noteq> Some (se_head_sha e)"
    "co_active_heads (fst (handle_event c e)) (se_pull_request_number e) = Some (se_head_sha e)"
    "se_action e \<in> set enqueue_actions" "\<not> (se_action e = ''opened'' \<and> se_draft e)"
proof -
  show run: "co_running c" using assms by (auto simp: handle_event_def split: if_splits)
  obtain d where d: "delivery_from_event e = Inr d" using assms run by (auto simp: handle_event_def split: sum.splits)
  have k: "handle_pull_request_event d = Enqueue"
    using assms run d by (auto simp: handle_event_def split: lifecycle_kind.splits)
  then have h: "handle_event c e = start_review c e" using run d by (simp add: handle_event_def)
  show "co_active_heads c (se_pull_request_number e) \<noteq> Some (se_head_sha e)" using assms h by (auto simp: start_review_def)
  show "co_active_heads (fst (handle_event c e)) (se_pull_request_number e) = Some (se_head_sha e)"
    by (simp add: h start_review_heads)
  show "se_action e \<in> set enqueue_actions" "\<not> (se_action e = ''opened'' \<and> se_draft e)"
    using k delivery_action [OF d] by (auto simp: handle_pull_request_event_def split: if_splits)
qed

text \<open>C40. Automatic review.  A review is started only while the terminal is open and only for an action the hosted
  policy enqueues, and then the head becomes the active one of its number.  From there on, whatever other events
  come in, no review of that head is started again until the terminal is closed, another head of that number
  arrives, or the pull request is closed or becomes a draft.\<close>

theorem one_review_per_head:
  assumes "snd (snd (handle_event c e)) \<noteq> None" "\<forall>i \<in> set is. \<not> disturbs (se_pull_request_number e) (se_head_sha e) i"
    "se_pull_request_number e' = se_pull_request_number e" "se_head_sha e' = se_head_sha e"
  shows "co_running c \<and> se_action e \<in> set enqueue_actions \<and>
    co_active_heads (fst (handle_event c e)) (se_pull_request_number e) = Some (se_head_sha e) \<and>
    snd (snd (handle_event (coordinator_run (fst (handle_event c e)) is) e')) = None"
proof (intro conjI)
  show "co_running c" "se_action e \<in> set enqueue_actions"
    "co_active_heads (fst (handle_event c e)) (se_pull_request_number e) = Some (se_head_sha e)"
    by (rule handle_event_call [OF assms(1)])+
  from undisturbed_run [OF this(3) assms(2)]
  have "co_active_heads (coordinator_run (fst (handle_event c e)) is) (se_pull_request_number e') = Some (se_head_sha e')"
    by (simp add: assms(3,4))
  then show "snd (snd (handle_event (coordinator_run (fst (handle_event c e)) is) e')) = None"
    using handle_event_call(2) by blast
qed

definition sample_event :: "int \<Rightarrow> string \<Rightarrow> sync_event" where
  "sample_event repository head =
     \<lparr>se_action = ''synchronize'', se_pull_request_number = 5, se_head_sha = head, se_draft = False, se_installation_id = 1,
      se_repository_id = repository, se_owner = ''o'', se_repository = ''r''\<rparr>"

definition open_coordinator :: coordinator where
  "open_coordinator = \<lparr>co_running = True, co_active_heads = Map.empty\<rparr>"

theorem one_review_per_head_witness:
  "snd (snd (handle_event (coordinator_run (fst (handle_event open_coordinator (sample_event 1 ''h1''))) [Open_Terminal]) (sample_event 1 ''h1''))) = None \<and>
   snd (snd (handle_event open_coordinator (sample_event 1 ''h1''))) = Some (sample_event 1 ''h1'', False, [])"
proof
  have started: "snd (snd (handle_event open_coordinator (sample_event 1 ''h1''))) = Some (sample_event 1 ''h1'', False, [])" by code_simp
  show "snd (snd (handle_event open_coordinator (sample_event 1 ''h1''))) = Some (sample_event 1 ''h1'', False, [])" by (rule started)
  show "snd (snd (handle_event (coordinator_run (fst (handle_event open_coordinator (sample_event 1 ''h1''))) [Open_Terminal]) (sample_event 1 ''h1''))) = None"
    using one_review_per_head [of open_coordinator "sample_event 1 ''h1''" "[Open_Terminal]" "sample_event 1 ''h1''"] started by simp
qed

text \<open>The active heads are kept by number alone: an event of another repository with the same number supersedes the
  review, and the next event of the first starts the same head once more.\<close>

theorem numbers_of_repositories_collide:
  "ao_kind (case fst (snd (handle_event (fst (handle_event open_coordinator (sample_event 1 ''h1''))) (sample_event 2 ''h2''))) of Inr o' \<Rightarrow> o')
     = Superseded \<and>
   snd (snd (handle_event (coordinator_run open_coordinator
     [Pull_Request_Event (sample_event 1 ''h1''), Pull_Request_Event (sample_event 2 ''h2'')]) (sample_event 1 ''h1''))) =
     Some (sample_event 1 ''h1'', True, ''h2'')"
  by code_simp

section \<open>What is pushed\<close>

lemma field_of_Cons:
  "field_of k' w (JObj ((k, v) # kvs)) \<longleftrightarrow> (k' = k \<and> w = v) \<or> field_of k' w v \<or> field_of k' w (JObj kvs)"
  "field_of k' w (JArr (v # vs)) \<longleftrightarrow> field_of k' w v \<or> field_of k' w (JArr vs)"
  by (auto elim!: field_of_objE field_of_arrE intro: field_of.intros)

lemma reject_forbidden_exact:
  "(reject_forbidden_values v = Inr () \<longleftrightarrow> (\<forall>k w. field_of k w v \<longrightarrow> k \<notin> set forbidden_payload_keys))"
  "(reject_in_fields kvs = Inr () \<longleftrightarrow> (\<forall>k w. field_of k w (JObj kvs) \<longrightarrow> k \<notin> set forbidden_payload_keys))"
  "(reject_in_items vs = Inr () \<longleftrightarrow> (\<forall>k w. field_of k w (JArr vs) \<longrightarrow> k \<notin> set forbidden_payload_keys))"
proof (induction v and kvs and vs rule: reject_forbidden_values_reject_in_fields_reject_in_items.induct)
  case (5 k v kvs)
  have "(\<forall>k' w. field_of k' w (JObj ((k, v) # kvs)) \<longrightarrow> k' \<notin> set forbidden_payload_keys) \<longleftrightarrow>
      k \<notin> set forbidden_payload_keys \<and> (\<forall>k' w. field_of k' w v \<longrightarrow> k' \<notin> set forbidden_payload_keys) \<and>
      (\<forall>k' w. field_of k' w (JObj kvs) \<longrightarrow> k' \<notin> set forbidden_payload_keys)"
    unfolding field_of_Cons by blast
  with 5 show ?case
    by (cases "k \<in> set forbidden_payload_keys"; cases "reject_forbidden_values v") simp_all
next
  case (7 v vs)
  have "(\<forall>k' w. field_of k' w (JArr (v # vs)) \<longrightarrow> k' \<notin> set forbidden_payload_keys) \<longleftrightarrow>
      (\<forall>k' w. field_of k' w v \<longrightarrow> k' \<notin> set forbidden_payload_keys) \<and>
      (\<forall>k' w. field_of k' w (JArr vs) \<longrightarrow> k' \<notin> set forbidden_payload_keys)"
    unfolding field_of_Cons by blast
  with 7 show ?case by (cases "reject_forbidden_values v") simp_all
qed (auto elim: field_of.cases)

definition pushed_fields :: "summary_push \<Rightarrow> (string \<times> json) list" where
  "pushed_fields s =
     [(''review_job_id'', JStr (sp_review_job_id s)), (''installation_id'', JInt (sp_installation_id s)),
      (''github_repository_id'', JInt (sp_github_repository_id s)), (''pull_request_number'', JInt (sp_pull_request_number s)),
      (''head_sha'', JStr (sp_head_sha s)), (''status'', JStr (sp_status s)), (''stopped_early'', JBool (sp_stopped_early s)),
      (''findings'', JArr (map finding_payload (sp_findings s)))]"

lemma build_summary_payload_eq: "build_summary_payload s = Inr (pushed_fields s)"
  by (simp add: build_summary_payload_def pushed_fields_def allowed_summary_fields_def)

lemma reject_finding_payload: "reject_forbidden_values (finding_payload f) = Inr ()"
  by (simp add: finding_payload_def forbidden_payload_keys_def)

lemma reject_findings: "reject_in_items (map finding_payload fs) = Inr ()"
  by (induction fs) (simp_all add: reject_finding_payload)

lemma reject_summary: "reject_forbidden_values (JObj (pushed_fields s)) = Inr ()"
  by (simp add: pushed_fields_def reject_findings forbidden_payload_keys_def)

text \<open>Push.  Whatever a review holds, what is sent to the hosted plane has exactly the eight fields of a summary, and
  at no depth is there a field for reasoning, diff, source or a key.  The push never stops before the client is
  called, and it is reported as done exactly when the client did not raise.\<close>

theorem push_sends_only_the_summary:
  "\<exists>payload. build_summary_payload s = Inr payload \<and> map fst payload = allowed_summary_fields \<and>
    (\<forall>k v. field_of k v (JObj payload) \<longrightarrow> k \<notin> {''reasoning'', ''diff'', ''source'', ''api_key'', ''model_key''}) \<and>
    snd (push_review_summary exn_text client s w) = snd (client payload w) \<and>
    (pu_ok (fst (push_review_summary exn_text client s w)) \<longleftrightarrow> (\<exists>u. fst (client payload w) = Inr u))"
proof (intro exI conjI)
  show "build_summary_payload s = Inr (pushed_fields s)" by (rule build_summary_payload_eq)
  show "map fst (pushed_fields s) = allowed_summary_fields" by (simp add: pushed_fields_def allowed_summary_fields_def)
  show "\<forall>k v. field_of k v (JObj (pushed_fields s)) \<longrightarrow> k \<notin> {''reasoning'', ''diff'', ''source'', ''api_key'', ''model_key''}"
    using reject_summary [of s] by (simp only: reject_forbidden_exact forbidden_payload_keys_def list.set)
  obtain r w' where c: "client (pushed_fields s) w = (r, w')" by (meson surj_pair)
  show "snd (push_review_summary exn_text client s w) = snd (client (pushed_fields s) w)"
    "pu_ok (fst (push_review_summary exn_text client s w)) \<longleftrightarrow> (\<exists>u. fst (client (pushed_fields s) w) = Inr u)"
    using reject_summary [of s] by (simp_all add: push_review_summary_def build_summary_payload_eq c split: sum.split)
qed

definition sample_push :: summary_push where
  "sample_push = \<lparr>sp_review_job_id = ''j'', sp_installation_id = 1, sp_github_repository_id = 2, sp_pull_request_number = 3,
     sp_head_sha = ''h'', sp_status = ''completed'', sp_stopped_early = False,
     sp_findings = [\<lparr>fp_concern = ''security'', fp_severity = ''High'', fp_file_path = ''a.py'', fp_line_start = 1, fp_line_end = 2,
       fp_title = ''t'', fp_status = ''draft''\<rparr>]\<rparr>"

theorem push_sends_only_the_summary_witness:
  "\<exists>payload. build_summary_payload sample_push = Inr payload \<and> \<not> (\<exists>v. field_of ''diff'' v (JObj payload))"
proof -
  obtain payload where p: "build_summary_payload sample_push = Inr payload"
    and f: "\<forall>k v. field_of k v (JObj payload) \<longrightarrow> k \<notin> {''reasoning'', ''diff'', ''source'', ''api_key'', ''model_key''}"
    using push_sends_only_the_summary [of sample_push "\<lambda>_. []" "\<lambda>_ w. (Inr (), w)" "()"] by (elim exE conjE) (rule that)
  have "\<not> field_of ''diff'' v (JObj payload)" for v using f [rule_format, of "''diff''" v] by auto
  with p show ?thesis by simp
qed

section \<open>What the terminal shows\<close>

lemma map_r_map: "(\<And>x. x \<in> set xs \<Longrightarrow> f (g x) = Inr (h x)) \<Longrightarrow> map_r f (map g xs) = Inr (map h xs)"
  by (induction xs) auto

lemma snapshot_round_trip: "load_installation_snapshot repr (save_installation_snapshot s) = Inr (Some s)"
proof -
  have "permission_of repr (permission_json r) = Inr r" for r
    by (simp add: permission_of_def permission_json_def item_int_def item_str_def)
  then have "map_r (permission_of repr) (map permission_json rs) = Inr (map id rs)" for rs by (intro map_r_map) simp
  then show ?thesis
    by (simp add: save_installation_snapshot_def load_installation_snapshot_def write_object_def snapshot_from_mapping_def
        item_int_def item_str_def get_default_def iterate_def)
qed

definition shown_finding :: "finding_push \<Rightarrow> terminal_finding" where
  "shown_finding f = \<lparr>tf_concern = fp_concern f, tf_severity = fp_severity f, tf_file_path = fp_file_path f,
     tf_line_start = fp_line_start f, tf_line_end = fp_line_end f, tf_title = fp_title f, tf_status = fp_status f\<rparr>"

definition shown_review :: "summary_push \<Rightarrow> timestamp \<Rightarrow> terminal_review" where
  "shown_review s t = \<lparr>tv_review_job_id = sp_review_job_id s, tv_pull_request_number = sp_pull_request_number s,
     tv_head_sha = sp_head_sha s, tv_status = sp_status s, tv_stopped_early = sp_stopped_early s,
     tv_stopped_early_message = (if sp_stopped_early s then Some stopped_early_message else None), tv_created_at = t,
     tv_findings = map shown_finding (sp_findings s)\<rparr>"

lemma finding_from_finding_payload: "finding_from_payload repr (finding_payload f) = Inr (shown_finding f)"
  by (simp add: finding_from_payload_def finding_payload_def shown_finding_def item_str_def item_int_def)

lemma review_from_summary:
  assumes "fromiso now_text = Inr t"
  shows "review_from_payload repr fromiso now (dict_set ''created_at'' (JStr now_text) (pushed_fields s)) = Inr (shown_review s t)"
proof -
  have "map_r (finding_from_payload repr) (map finding_payload fs) = Inr (map shown_finding fs)" for fs
    by (rule map_r_map) (simp add: finding_from_finding_payload)
  then show ?thesis using assms
    by (simp add: review_from_payload_def pushed_fields_def shown_review_def item_str_def item_int_def get_default_def iterate_def Let_def)
qed

definition parse_summary ::
  "(json \<Rightarrow> string) \<Rightarrow> (string \<Rightarrow> timestamp result) \<Rightarrow> timestamp \<Rightarrow> (string \<times> json) list \<Rightarrow> (int \<times> terminal_review) result" where
  "parse_summary repr fromiso now payload =
     bind_r (item_int (JObj payload) ''github_repository_id'') (\<lambda>i.
     bind_r (review_from_payload repr fromiso now payload) (\<lambda>r. Inr (i, r)))"

lemma group_reviews_eq:
  "group_reviews repr fromiso now ps g =
   bind_r (map_r (parse_summary repr fromiso now) ps) (\<lambda>prs. Inr (\<lambda>i. g i @ map snd (filter (\<lambda>pr. fst pr = i) prs)))"
  by (induction ps arbitrary: g) (auto simp: parse_summary_def bind_r_def fun_eq_iff split: sum.splits)

lemma map_r_filter: "map_r f xs = Inr ys \<Longrightarrow> \<exists>zs. map_r f (filter p xs) = Inr zs"
  by (induction xs arbitrary: ys) (auto simp: bind_r_Inr)

lemma map_r_append_one: "map_r f xs = Inr ys \<Longrightarrow> f x = Inr y \<Longrightarrow> map_r f (xs @ [x]) = Inr (ys @ [y])"
  by (induction xs arbitrary: ys) (auto simp: bind_r_Inr)

lemma parse_logged_summary:
  assumes "fromiso now_text = Inr t"
  shows "parse_summary repr fromiso now (dict_set ''created_at'' (JStr now_text) (pushed_fields s)) =
    Inr (sp_github_repository_id s, shown_review s t)"
  using review_from_summary [of fromiso now_text t repr now s, OF assms] by (simp add: parse_summary_def item_int_def) (simp add: pushed_fields_def)

text \<open>Log and list.  A review that is written to the local log is what the terminal then shows: if the log could be
  shown before and the repository is one of the installation's, the list of that repository ends with this review, with
  the number, head, status and every finding that was logged.\<close>

theorem logged_review_is_shown:
  assumes "build_summary_payload s = Inr payload" "append_review_summary now_text payload f = Inr f'" "fromiso now_text = Inr t"
    "repositories_from_log repr fromiso now snapshot f = Inr shown"
    "sp_github_repository_id s \<in> rp_github_repository_id ` set (is_repositories snapshot)"
  shows "\<exists>shown' y. repositories_from_log repr fromiso now snapshot f' = Inr shown' \<and> y \<in> set shown' \<and>
    ty_github_repository_id y = sp_github_repository_id s \<and> ty_reviews y \<noteq> [] \<and> last (ty_reviews y) = shown_review s t \<and>
    map ty_github_repository_id shown' = map ty_github_repository_id shown"
proof -
  let ?new = "dict_set ''created_at'' (JStr now_text) (pushed_fields s)"
  let ?repos = "dict_of (map (\<lambda>r. (rp_github_repository_id r, rp_name r)) (is_repositories snapshot))"
  have payload: "payload = pushed_fields s" using assms(1) by (simp add: build_summary_payload_eq)
  obtain old prs where old: "list_review_summaries f = Inr old" and prs: "map_r (parse_summary repr fromiso now) old = Inr prs"
    and shown: "map ty_github_repository_id shown = map fst ?repos"
    using assms(4) by (auto simp: repositories_from_log_def bind_r_Inr group_reviews_eq split_def)
  let ?kept = "filter (\<lambda>o'. job_of (JObj o') \<noteq> job_of (JObj ?new)) old"
  have "list_review_summaries f' = Inr (?kept @ [?new])"
    using append_review_summary_replaces [OF assms(2) old] payload by simp
  moreover obtain zs where zs: "map_r (parse_summary repr fromiso now) ?kept = Inr zs" using map_r_filter [OF prs] by blast
  moreover have "map_r (parse_summary repr fromiso now) (?kept @ [?new]) = Inr (zs @ [(sp_github_repository_id s, shown_review s t)])"
    using zs parse_logged_summary [of fromiso now_text t repr now s, OF assms(3)] by (rule map_r_append_one)
  ultimately have log: "repositories_from_log repr fromiso now snapshot f' =
      Inr (map (\<lambda>(i, name). \<lparr>ty_installation_id = is_installation_id snapshot, ty_github_repository_id = i, ty_repository_name = name,
        ty_reviews = map snd (filter (\<lambda>pr. fst pr = i) (zs @ [(sp_github_repository_id s, shown_review s t)]))\<rparr>) ?repos)"
    (is "_ = Inr (map ?row _)")
    by (simp add: repositories_from_log_def group_reviews_eq)
  have "sp_github_repository_id s \<in> fst ` set ?repos"
    using assms(5) by (simp add: keys_dict_of image_image)
  then obtain name where n: "(sp_github_repository_id s, name) \<in> set ?repos" by auto
  show ?thesis
  proof (intro exI conjI)
    show "repositories_from_log repr fromiso now snapshot f' = Inr (map ?row ?repos)" by (rule log)
    show "?row (sp_github_repository_id s, name) \<in> set (map ?row ?repos)" unfolding set_map using n by (rule imageI)
  qed (simp_all add: shown comp_def split_def)
qed

theorem logged_review_is_shown_witness:
  "\<exists>f' shown y. append_review_summary ''2026'' (pushed_fields sample_push) None = Inr f' \<and>
     repositories_from_log (\<lambda>_. []) (\<lambda>_. Inr 7) 0 \<lparr>is_github_login = ''o'', is_github_user_id = 1, is_installation_id = 1,
       is_repositories = [\<lparr>rp_github_repository_id = 2, rp_name = ''r''\<rparr>]\<rparr> f' = Inr shown \<and> y \<in> set shown \<and>
     last (ty_reviews y) = shown_review sample_push 7"
proof -
  let ?snapshot = "\<lparr>is_github_login = ''o'', is_github_user_id = 1, is_installation_id = 1,
       is_repositories = [\<lparr>rp_github_repository_id = 2, rp_name = ''r''\<rparr>]\<rparr>"
  obtain f' where f': "append_review_summary ''2026'' (pushed_fields sample_push) None = Inr f'"
    by (simp add: append_review_summary_def read_object_def setdefault_def empty_log_def Let_def)
  obtain shown where "repositories_from_log (\<lambda>_. []) (\<lambda>_. Inr 7) 0 ?snapshot None = Inr shown"
    by (simp add: repositories_from_log_def list_review_summaries_def read_object_def empty_log_def get_default_def)
  from logged_review_is_shown [where fromiso = "\<lambda>_. Inr 7", OF build_summary_payload_eq f' refl this]
  show ?thesis using f' by (simp add: sample_push_def) blast
qed

lemma worst_of_max:
  assumes "\<forall>w. worst = Some w \<longrightarrow> shown_severity_rank w = rank" "worst = None \<longrightarrow> rank = - 1"
  shows "(worst_of worst rank fs = None \<longleftrightarrow> worst = None \<and> fs = []) \<and>
    (\<forall>w. worst_of worst rank fs = Some w \<longrightarrow>
       rank \<le> shown_severity_rank w \<and> (\<forall>f \<in> set fs. shown_severity_rank (py_lower (tf_severity f)) \<le> shown_severity_rank w) \<and>
       (worst = Some w \<or> (\<exists>f \<in> set fs. py_lower (tf_severity f) = w)))"
  using assms
proof (induction fs arbitrary: worst rank)
  case (Cons f fs)
  have nonneg: "0 \<le> shown_severity_rank x" for x by (simp add: shown_severity_rank_def)
  let ?s = "py_lower (tf_severity f)"
  show ?case
  proof (cases "shown_severity_rank ?s > rank")
    case True
    with Cons.IH [of "Some ?s" "shown_severity_rank ?s"] show ?thesis by auto
  next
    case False
    with nonneg [of ?s] have "worst \<noteq> None" using Cons.prems(2) by auto
    with Cons.IH [OF Cons.prems] False show ?thesis by auto
  qed
qed auto

text \<open>The severity of a row is the highest of its findings.\<close>

theorem worst_severity_is_worst:
  "worst_severity r = None \<longleftrightarrow> tv_findings r = []"
  "worst_severity r = Some w \<Longrightarrow>
     (\<exists>f \<in> set (tv_findings r). py_lower (tf_severity f) = w) \<and>
     (\<forall>f \<in> set (tv_findings r). shown_severity_rank (py_lower (tf_severity f)) \<le> shown_severity_rank w)"
  using worst_of_max [of None "- 1" "tv_findings r"] by (auto simp: worst_severity_def)

section \<open>The wait ends\<close>

definition ticking :: "'s pairing_env \<Rightarrow> ('s \<Rightarrow> rat) \<Rightarrow> rat \<Rightarrow> bool" where
  "ticking env time interval \<longleftrightarrow>
     (\<forall>s. fst (pe_clock env s) = time s \<and> time s \<le> time (snd (pe_clock env s))) \<and>
     (\<forall>s. time s \<le> time (snd (pe_status env s))) \<and> (\<forall>s. time s + interval \<le> time (pe_sleep env interval s))"

lemma wait_loop_ends:
  assumes "ticking env time interval" "deadline - time s \<le> of_nat n * interval"
  shows "\<exists>r s'. wait_loop env interval deadline (Suc n) s = Some (r, s') \<and>
    (r = Inr () \<longrightarrow> (\<exists>s1. pe_status env s1 = (Inr ''exchangeable'', s')))"
  using assms(2)
proof (induction n arbitrary: s)
  case 0
  then have "\<not> fst (pe_clock env s) < deadline" using assms(1) by (simp add: ticking_def)
  then show ?case by (simp add: split_def)
next
  case (Suc n)
  obtain t s1 where c: "pe_clock env s = (t, s1)" by (meson surj_pair)
  obtain a s2 where p: "pe_status env s1 = (a, s2)" by (meson surj_pair)
  let ?s3 = "pe_sleep env interval s2"
  have "time s \<le> time s1" "time s1 \<le> time s2" "time s2 + interval \<le> time ?s3"
    using assms(1) c p unfolding ticking_def by (metis snd_conv)+
  then have "deadline - time ?s3 \<le> of_nat n * interval" using Suc.prems by (simp add: algebra_simps)
  then obtain r s' where ih: "wait_loop env interval deadline (Suc n) ?s3 = Some (r, s')"
    "r = Inr () \<longrightarrow> (\<exists>s1. pe_status env s1 = (Inr ''exchangeable'', s'))"
    using Suc.IH by blast
  note step = wait_loop.simps(2) [of env interval deadline "Suc n" s]
  show ?case
  proof (cases "t < deadline \<and> (\<exists>b. a = Inr b \<and> b \<noteq> ''exchangeable'' \<and> b \<noteq> ''invalid_or_expired'')")
    case True
    then have "wait_loop env interval deadline (Suc (Suc n)) s = Some (r, s')"
      using step ih(1) by (auto simp: c p simp del: wait_loop.simps)
    with ih(2) show ?thesis by blast
  next
    case False
    then have "wait_loop env interval deadline (Suc (Suc n)) s \<in>
        {Some (Inl PairingWaitDeadlineExceeded, s1), Some (Inl PairingWaitDeadlineExceeded, s2)} \<or>
        (\<exists>e. wait_loop env interval deadline (Suc (Suc n)) s = Some (Inl e, s2)) \<or>
        (wait_loop env interval deadline (Suc (Suc n)) s = Some (Inr (), s2) \<and> a = Inr ''exchangeable'')"
      using step by (cases a) (auto simp: c p simp del: wait_loop.simps)
    with p show ?thesis by auto
  qed
qed

text \<open>Pairing wait.  When the clock advances by at least the poll interval with every pause, the wait for the pairing
  ends after at most as many polls as intervals fit into the deadline and one more; and it succeeds only on an answer that
  the code can be exchanged.\<close>

theorem wait_for_pairing_ends:
  assumes "ticking env time interval" "deadline_seconds \<le> of_nat n * interval"
  shows "\<exists>r s'. wait_for_pairing env deadline_seconds interval (Suc n) s = Some (r, s') \<and>
    (r = Inr () \<longrightarrow> (\<exists>s1. pe_status env s1 = (Inr ''exchangeable'', s')))"
proof -
  obtain t s1 where c: "pe_clock env s = (t, s1)" by (meson surj_pair)
  then have "t \<le> time s1" using assms(1) unfolding ticking_def by (metis fst_conv snd_conv)
  with assms(2) have "t + deadline_seconds - time s1 \<le> of_nat n * interval" by simp
  from wait_loop_ends [OF assms(1) this] show ?thesis by (simp only: wait_for_pairing_def c prod.case)
qed

definition sample_pairing :: "nat pairing_env" where
  "sample_pairing = \<lparr>pe_clock = (\<lambda>s. (of_nat s, s)), pe_status = (\<lambda>s. (Inr (if s < 4 then ''pending'' else ''exchangeable''), s)),
     pe_sleep = (\<lambda>_ s. s + 2)\<rparr>"

theorem wait_for_pairing_ends_witness:
  "wait_for_pairing sample_pairing 300 2 151 0 = Some (Inr (), 4) \<and>
   (\<exists>r s'. wait_for_pairing sample_pairing 300 2 (Suc 150) 0 = Some (r, s'))"
proof
  have "ticking sample_pairing of_nat 2" by (simp add: ticking_def sample_pairing_def)
  from wait_for_pairing_ends [OF this, of 300 150 0]
  show "\<exists>r s'. wait_for_pairing sample_pairing 300 2 (Suc 150) 0 = Some (r, s')" by auto
  show "wait_for_pairing sample_pairing 300 2 151 0 = Some (Inr (), 4)"
    by (simp add: wait_for_pairing_def sample_pairing_def eval_nat_numeral)
qed

end
