(* ===== verification/Local_Service.thy ===== *)
theory Local_Service
  imports Local_Dashboard
begin

text \<open>
  The commands that install, start, check and remove the runner on a machine: \<open>runner/cli/service.py\<close>, \<open>logout.py\<close>,
  \<open>uninstall.py\<close>, \<open>doctor.py\<close>, \<open>cli/doctor.py\<close>, \<open>runner/logout.py\<close>, and the hosted origin they talk to
  (\<open>tui/github_connect.py\<close>).  A command is its parsed options, the world it changes is the keyring, the files it
  writes and what it prints; the web server, sockets, signals and the container probe answer as parameters.
\<close>

section \<open>The hosted origin\<close>

abbreviation HostedOriginError :: py_exn where "HostedOriginError \<equiv> Exception_Of ''HostedOriginError''"

definition default_hosted_origin :: string where
  "default_hosted_origin = ''https://reviewer.niresh.tech''"

definition connect_return_paths :: "string list" where
  "connect_return_paths = [''/dashboard'', ''/dashboard/reviews'']"

definition normalize_hosted_origin :: "string \<Rightarrow> string result" where
  "normalize_hosted_origin origin =
     (let cleaned = rstrip_slash origin
      in if \<not> startswith cleaned ''https://'' then Inl HostedOriginError
         else let lowered = py_lower cleaned
              in if contains ''127.0.0.1'' lowered \<or> contains ''localhost'' lowered then Inl HostedOriginError
                 else Inr cleaned)"

definition build_github_sign_in_url :: "string \<Rightarrow> string \<Rightarrow> string option \<Rightarrow> string result" where
  "build_github_sign_in_url origin return_to pairing_code =
     (if return_to \<notin> set connect_return_paths then Inl HostedOriginError
      else bind_r (normalize_hosted_origin origin) (\<lambda>origin.
        Inr (origin @ ''/api/auth/github/sign-in?return_to='' @ quote_plus return_to @
             (case pairing_code of Some (c # cs) \<Rightarrow> ''&pairing_code='' @ quote_plus (c # cs) | _ \<Rightarrow> []))))"

definition build_github_app_install_url :: "string \<Rightarrow> string result" where
  "build_github_app_install_url app_slug =
     (let slug = py_strip app_slug
      in if slug = [] \<or> CHR ''/'' \<in> set slug \<or> CHR '' '' \<in> set slug then Inl HostedOriginError
         else Inr (''https://github.com/apps/'' @ slug @ ''/installations/new''))"

definition build_github_connect_urls :: "string \<Rightarrow> string \<Rightarrow> string \<Rightarrow> string option \<Rightarrow> (string \<times> string) result" where
  "build_github_connect_urls origin app_slug return_to pairing_code =
     bind_r (build_github_app_install_url app_slug) (\<lambda>install_url.
     bind_r (build_github_sign_in_url origin return_to pairing_code) (\<lambda>authorize_url. Inr (install_url, authorize_url)))"

text \<open>The environment variable, or \<open>None\<close> when it is not set.\<close>

definition hosted_origin_from_env :: "string option \<Rightarrow> string result" where
  "hosted_origin_from_env v =
     (let origin = py_strip (case v of Some s \<Rightarrow> s | None \<Rightarrow> [])
      in if origin = [] then Inl HostedOriginError else normalize_hosted_origin origin)"

definition resolved_hosted_origin :: "string option \<Rightarrow> string result" where
  "resolved_hosted_origin v =
     (let origin = py_strip (case v of Some s \<Rightarrow> s | None \<Rightarrow> [])
      in normalize_hosted_origin (if origin = [] then default_hosted_origin else origin))"

section \<open>The user service\<close>

abbreviation LocalServiceError :: py_exn where "LocalServiceError \<equiv> Exception_Of ''LocalServiceError''"

record service_world =
  sw_keyring :: keyring
  sw_files :: "string \<rightharpoonup> string"
  sw_served :: "(string \<times> int) list"
  sw_printed :: "string list"

record service_env =
  sv_data_dir :: string
  sv_pid :: int
  sv_token :: string
  sv_hmac :: "string \<Rightarrow> string \<Rightarrow> string"
  sv_reported :: reported_probe
  sv_server :: "unit result"
  sv_port_open :: "string \<Rightarrow> int \<Rightarrow> bool"
  sv_kill :: "int \<Rightarrow> unit result"
  sv_exchange :: "string \<Rightarrow> string \<Rightarrow> hosted_exchange result"
  sv_status :: "string \<Rightarrow> string \<Rightarrow> string result"

definition linux_unit_relative :: string where
  "linux_unit_relative = ''.config/systemd/user/pr-reviewer.service''"

definition darwin_plist_relative :: string where
  "darwin_plist_relative = ''Library/LaunchAgents/com.pr-reviewer.plist''"

definition linux_unit :: string where
  "linux_unit = concat (map (\<lambda>l. l @ [newline])
     [''[Unit]'', ''Description=PR Reviewer local runner'', [], ''[Service]'', ''ExecStart=reviewer start'', ''Restart=on-failure'',
      [], ''[Install]'', ''WantedBy=default.target''])"

definition darwin_plist :: string where
  "darwin_plist = concat (map (\<lambda>l. l @ [newline])
     [''<?xml version=\"1.0\" encoding=\"UTF-8\"?>'',
      ''<!DOCTYPE plist PUBLIC \"-//Apple//DTD PLIST 1.0//EN\" \"http://www.apple.com/DTDs/PropertyList-1.0.dtd\">'',
      ''<plist version=\"1.0\">'', ''<dict>'', ''  <key>Label</key>'', ''  <string>com.pr-reviewer</string>'',
      ''  <key>ProgramArguments</key>'', ''  <array>'', ''    <string>reviewer</string>'', ''    <string>start</string>'', ''  </array>'',
      ''  <key>RunAtLoad</key>'', ''  <true/>'', ''  <key>KeepAlive</key>'', ''  <true/>'', ''</dict>'', ''</plist>''])"

definition default_destination :: "string \<Rightarrow> string \<Rightarrow> string result" where
  "default_destination platform home =
     (if platform = ''linux'' then Inr (home @ ''/'' @ linux_unit_relative)
      else if platform = ''darwin'' then Inr (home @ ''/'' @ darwin_plist_relative)
      else Inl LocalServiceError)"

definition refuse_system_path :: "string \<Rightarrow> unit result" where
  "refuse_system_path destination =
     (if startswith destination ''/etc/'' \<or> contains ''/Library/LaunchDaemons/'' destination then Inl LocalServiceError else Inr ())"

definition install_user_service :: "string \<Rightarrow> string \<Rightarrow> string option \<Rightarrow> service_world \<Rightarrow> string result \<times> service_world" where
  "install_user_service platform home destination w =
     (case bind_r (case destination of Some d \<Rightarrow> Inr d | None \<Rightarrow> default_destination platform home) (\<lambda>target.
             bind_r (refuse_system_path target) (\<lambda>_. Inr target)) of
        Inl e \<Rightarrow> (Inl e, w)
      | Inr target \<Rightarrow>
          if platform = ''linux'' then (Inr target, w\<lparr>sw_files := (sw_files w)(target \<mapsto> linux_unit)\<rparr>)
          else if platform = ''darwin'' then (Inr target, w\<lparr>sw_files := (sw_files w)(target \<mapsto> darwin_plist)\<rparr>)
          else (Inl LocalServiceError, w))"

definition onboarding_url :: "string \<Rightarrow> int \<Rightarrow> string" where
  "onboarding_url host port = ''http://'' @ host @ '':'' @ show_int port @ ''/onboarding''"

definition local_service_status :: "service_env \<Rightarrow> string \<Rightarrow> int \<Rightarrow> bool \<times> string \<times> string" where
  "local_service_status env host port = (sv_port_open env host port, host, onboarding_url host port)"

definition session_secret_name :: string where
  "session_secret_name = ''local_session_secret''"

definition ensure_session_secret :: "service_env \<Rightarrow> service_world \<Rightarrow> string \<times> service_world" where
  "ensure_session_secret env w =
     (case keyring_get session_secret_name (sw_keyring w) of
        Some (c # cs) \<Rightarrow> (c # cs, w)
      | _ \<Rightarrow> (sv_token env, w\<lparr>sw_keyring := keyring_set session_secret_name (sv_token env) (sw_keyring w)\<rparr>))"

definition pid_path :: "service_env \<Rightarrow> string" where
  "pid_path env = sv_data_dir env @ ''/onboarding.pid''"

text \<open>The file with the process id exists while the server runs and is removed when it ends, however it ends.\<close>

definition start_local_onboarding ::
  "service_env \<Rightarrow> string \<Rightarrow> int \<Rightarrow> string \<Rightarrow> runner_mode \<Rightarrow> service_world \<Rightarrow> unit result \<times> service_world" where
  "start_local_onboarding env host port origin mode w =
     (if host \<noteq> ''127.0.0.1'' then (Inl LocalServiceError, w)
      else let (secret, w) = ensure_session_secret env w
           in case create_local_onboarding_app host secret (sv_hmac env) keyring_set (sv_exchange env) (sv_status env) (sv_reported env)
                     mode origin ''/dashboard'' of
                Inl e \<Rightarrow> (Inl e, w)
              | Inr app \<Rightarrow>
                  (sv_server env, w\<lparr>sw_files := (sw_files w)(pid_path env := None), sw_served := sw_served w @ [(host, port)]\<rparr>))"

definition say :: "string \<Rightarrow> service_world \<Rightarrow> service_world" where
  "say line w = w\<lparr>sw_printed := sw_printed w @ [line]\<rparr>"

definition stop_local_service :: "service_env \<Rightarrow> service_world \<Rightarrow> nat result \<times> service_world" where
  "stop_local_service env w =
     (case sw_files w (pid_path env) of
        None \<Rightarrow> (Inr 0, say ''not running'' w)
      | Some content \<Rightarrow>
          (let gone = (Inr 0, say ''not running'' (w\<lparr>sw_files := (sw_files w)(pid_path env := None)\<rparr>))
           in case int_of_string (py_strip content) of
                Inl _ \<Rightarrow> gone
              | Inr pid \<Rightarrow>
                  (case sv_kill env pid of
                     Inr _ \<Rightarrow> (Inr 0, say ''stopped'' w)
                   | Inl e \<Rightarrow> if e = Exception_Of ''ProcessLookupError'' then gone else (Inl e, w))))"

datatype service_command = Service_Start | Service_Stop | Service_Status | Service_Open | Service_Other string

record service_options =
  so_port :: int
  so_host :: string
  so_hosted_origin :: string
  so_mode :: runner_mode

definition default_options :: "string option \<Rightarrow> service_options" where
  "default_options env_origin =
     \<lparr>so_port = 8741, so_host = ''127.0.0.1'', so_hosted_origin = (case env_origin of Some s \<Rightarrow> s | None \<Rightarrow> []), so_mode = Full\<rparr>"

fun service_main :: "service_env \<Rightarrow> bool \<Rightarrow> service_command \<Rightarrow> service_options \<Rightarrow> service_world \<Rightarrow> nat result \<times> service_world" where
  "service_main env browser_opens Service_Status o' w =
     (let running = sv_port_open env (so_host o') (so_port o')
      in (Inr (if running then 0 else 1), say (if running then ''running'' else ''not running'') w))"
| "service_main env browser_opens Service_Open o' w =
     (Inr 0, if browser_opens then w else say (onboarding_url ''127.0.0.1'' (so_port o')) w)"
| "service_main env browser_opens Service_Start o' w =
     (if so_host o' \<noteq> ''127.0.0.1'' then (Inr 1, w)
      else if so_hosted_origin o' = [] then (Inr 1, w)
      else case start_local_onboarding env (so_host o') (so_port o') (so_hosted_origin o') (so_mode o') w of
             (Inr _, w') \<Rightarrow> (Inr 0, w')
           | (Inl e, w') \<Rightarrow> (if e = LocalServiceError \<or> e = LocalAuthError then Inr 1 else Inl e, w'))"
| "service_main env browser_opens Service_Stop o' w = stop_local_service env w"
| "service_main env browser_opens (Service_Other name) o' w = (Inr 1, w)"

section \<open>Logging out and uninstalling\<close>

text \<open>Whatever the revocation on the hosted side answers is suppressed.\<close>

definition log_out :: "(unit result) option \<Rightarrow> keyring \<Rightarrow> keyring" where
  "log_out revoke secrets = keyring_delete ''runner_credential'' secrets"

definition logout_main :: "bool \<Rightarrow> string option \<Rightarrow> (string \<Rightarrow> string \<Rightarrow> unit result) \<Rightarrow> keyring \<Rightarrow> nat \<times> (string \<times> string) list \<times> keyring" where
  "logout_main yes env_origin revoke secrets =
     (case keyring_get ''runner_credential'' secrets of
        Some (c # cs) \<Rightarrow>
          if \<not> yes then (1, [], secrets)
          else (case resolved_hosted_origin env_origin of
                  Inl _ \<Rightarrow> (0, [], log_out None secrets)
                | Inr origin \<Rightarrow> (0, [(origin, c # cs)], log_out (Some (revoke origin (c # cs))) secrets))
      | _ \<Rightarrow> (1, [], secrets))"

abbreviation UninstallError :: py_exn where "UninstallError \<equiv> Exception_Of ''UninstallError''"

definition secret_names :: "string list" where
  "secret_names = [''model_key'', ''runner_credential'', ''local_session_secret'', ''local_pgvector_password'']"

text \<open>\<open>stop_store\<close> is the stop of the vector store, if one is given.\<close>

definition uninstall_runner ::
  "string \<Rightarrow> (bool \<Rightarrow> bool \<Rightarrow> service_world \<Rightarrow> unit result \<times> service_world) option \<Rightarrow> bool \<Rightarrow> bool \<Rightarrow> service_world \<Rightarrow> unit result \<times> service_world" where
  "uninstall_runner data_dir stop_store preserve_data confirm_delete w =
     (if \<not> preserve_data \<and> \<not> confirm_delete then (Inl UninstallError, w)
      else case (case stop_store of None \<Rightarrow> (Inr (), w) | Some stop \<Rightarrow> stop preserve_data confirm_delete w) of
             (Inl e, w') \<Rightarrow> (Inl e, w')
           | (Inr _, w') \<Rightarrow>
               if preserve_data then (Inr (), w')
               else (Inr (), w'\<lparr>sw_files := (sw_files w')(data_dir @ ''/local_state.sqlite3'' := None),
                                 sw_keyring := fold keyring_delete secret_names (sw_keyring w')\<rparr>))"

definition uninstall_main :: "string \<Rightarrow> bool \<Rightarrow> bool \<Rightarrow> service_world \<Rightarrow> nat \<times> service_world" where
  "uninstall_main data_dir delete_data confirm_delete w =
     (case uninstall_runner data_dir None (\<not> delete_data) confirm_delete w of (Inl _, w') \<Rightarrow> (1, w') | (Inr _, w') \<Rightarrow> (0, w'))"

section \<open>The doctor\<close>

definition probe_labels :: "((reported_probe \<Rightarrow> bool) \<times> string) list" where
  "probe_labels =
     [(cp_platform_supported, ''supported platform''), (cp_docker_cli_found, ''docker CLI found''), (cp_daemon_running, ''daemon running''),
      (cp_socket_accessible, ''socket accessible''), (cp_image_pull_succeeded, ''image pull succeeds''),
      (cp_runs_as_non_root, ''container runs as non-root''), (cp_network_isolated, ''container has no network access''),
      (cp_resource_limits_enforced, ''resource limits enforced'')]"

definition print_probe_report :: "reported_probe \<Rightarrow> string list" where
  "print_probe_report p =
     ''Docker isolation checks:'' # map (\<lambda>(f, label). ''  ['' @ (if f p then ''OK'' else ''FAIL'') @ ''] '' @ label) probe_labels @
     (if cp_failures p = [] then [] else ''Reasons:'' # map (\<lambda>r. ''  - '' @ r) (cp_failures p))"

definition print_mode_decision :: "mode_decision \<Rightarrow> string list" where
  "print_mode_decision d =
     [] # (if md_granted_mode d = Full then [''Full mode is available: every required Docker isolation check passed.'']
           else (if md_downgraded d
                 then (''Requested '' @ mode_text (md_requested_mode d) @ '' mode, but it is not available yet:'') #
                      map (\<lambda>r. ''  - '' @ r) (md_probe_failures d) @ [[]]
                 else []) @
                ''Analysis-only mode disables:'' # map (\<lambda>f. ''  - '' @ f) (md_disabled_features d) @ [[]])"

definition prompt_confirm :: "string \<Rightarrow> bool" where
  "prompt_confirm answer \<longleftrightarrow> py_lower (py_strip answer) \<in> {''y'', ''yes''}"

definition doctor_run :: "reported_probe \<Rightarrow> runner_mode \<Rightarrow> bool \<Rightarrow> string \<Rightarrow> nat \<times> string list" where
  "doctor_run p requested assume_yes answer =
     (let d = select_runtime_mode p requested; out = print_probe_report p @ print_mode_decision d
      in (if md_granted_mode d = Full \<or> assume_yes \<or> prompt_confirm answer then 0 else 1, out))"

record doctor_report =
  dr_control_plane_reachable :: bool
  dr_paired :: bool
  dr_model_key_present :: bool
  dr_port_available :: bool
  dr_disk_ok :: bool
  dr_granted_mode :: runner_mode
  dr_downgraded :: bool
  dr_disabled_features :: "string list"

definition min_free_disk_bytes :: int where "min_free_disk_bytes = 1024 ^ 3"

definition run_doctor ::
  "(string \<Rightarrow> bool result) \<Rightarrow> string \<Rightarrow> bool \<Rightarrow> bool \<Rightarrow> bool \<Rightarrow> int \<Rightarrow> reported_probe \<Rightarrow> runner_mode \<Rightarrow> bool option \<Rightarrow> doctor_report result" where
  "run_doctor http_get origin paired model_key_present port_in_use free_disk_bytes p requested confirm =
     (let reachable = (case http_get (rstrip_slash origin @ ''/health'') of Inl _ \<Rightarrow> False | Inr ok \<Rightarrow> ok);
          d = select_runtime_mode p requested
      in if md_granted_mode d = Analysis_Only \<and> confirm = Some False then Inl RuntimeError
         else Inr \<lparr>dr_control_plane_reachable = reachable, dr_paired = paired, dr_model_key_present = model_key_present,
                   dr_port_available = (\<not> port_in_use), dr_disk_ok = (min_free_disk_bytes \<le> free_disk_bytes),
                   dr_granted_mode = md_granted_mode d, dr_downgraded = md_downgraded d,
                   dr_disabled_features = md_disabled_features d\<rparr>)"

section \<open>Where the runner talks to\<close>

lemma rstrip_slash_idem: "rstrip_slash (rstrip_slash s) = rstrip_slash s"
proof -
  have "dropWhile P (dropWhile P xs) = dropWhile P xs" for P and xs :: "char list"
    by (induction xs) auto
  then show ?thesis by (simp add: rstrip_slash_def)
qed

text \<open>An accepted origin is an https one that does not name this machine, and it is a fixed point; without an
  override it is the default one.\<close>

theorem normalized_origin_is_stable:
  "normalize_hosted_origin origin = Inr o' \<Longrightarrow>
     normalize_hosted_origin o' = Inr o' \<and> startswith o' ''https://'' \<and> \<not> contains ''localhost'' (py_lower o')"
  "resolved_hosted_origin None = Inr ''https://reviewer.niresh.tech''"
proof -
  assume a: "normalize_hosted_origin origin = Inr o'"
  then have "o' = rstrip_slash origin" by (auto simp: normalize_hosted_origin_def Let_def split: if_splits)
  with a show "normalize_hosted_origin o' = Inr o' \<and> startswith o' ''https://'' \<and> \<not> contains ''localhost'' (py_lower o')"
    by (auto simp: normalize_hosted_origin_def Let_def rstrip_slash_idem split: if_splits)
next
  show "resolved_hosted_origin None = Inr ''https://reviewer.niresh.tech''" by code_simp
qed

section \<open>Starting\<close>

lemma ensure_session_secret_props:
  assumes "ensure_session_secret env w = (secret, w')" "sv_token env \<noteq> []"
  shows "secret \<noteq> []" "keyring_get session_secret_name (sw_keyring w') = Some secret"
    "name \<noteq> session_secret_name \<Longrightarrow> keyring_get name (sw_keyring w') = keyring_get name (sw_keyring w)"
    "sw_files w' = sw_files w" "sw_served w' = sw_served w"
    "keyring_get session_secret_name (sw_keyring w) = Some secret \<Longrightarrow> w' = w"
  using assms by (auto simp: ensure_session_secret_def keyring.get_set keyring.get_set_apart split: option.splits list.splits)

text \<open>Starting serves on the loopback address only and only towards an accepted origin; the session secret is made once
  and kept for every later start, no other secret changes, and no process id file is left.\<close>

theorem start_local_onboarding_sound:
  assumes "start_local_onboarding env host port origin mode w = (r, w')" "sv_token env \<noteq> []"
  shows "(sw_served w' \<noteq> sw_served w \<longrightarrow>
      host = ''127.0.0.1'' \<and> sw_served w' = sw_served w @ [(host, port)] \<and> r = sv_server env \<and>
      startswith (rstrip_slash origin) ''https://'' \<and> sw_files w' (pid_path env) = None) \<and>
    (host = ''127.0.0.1'' \<longrightarrow> (\<exists>secret. secret \<noteq> [] \<and> keyring_get session_secret_name (sw_keyring w') = Some secret \<and>
       (\<forall>old. keyring_get session_secret_name (sw_keyring w) = Some old \<and> old \<noteq> [] \<longrightarrow> secret = old))) \<and>
    (\<forall>name. name \<noteq> session_secret_name \<longrightarrow> keyring_get name (sw_keyring w') = keyring_get name (sw_keyring w)) \<and>
    (\<forall>p. p \<noteq> pid_path env \<longrightarrow> sw_files w' p = sw_files w p)"
proof (cases "host = ''127.0.0.1''")
  case False
  with assms(1) show ?thesis by (simp add: start_local_onboarding_def)
next
  case True
  obtain secret w1 where e: "ensure_session_secret env w = (secret, w1)" by (meson surj_pair)
  note p = ensure_session_secret_props [OF e assms(2)]
  let ?create = "create_local_onboarding_app host secret (sv_hmac env) keyring_set (sv_exchange env) (sv_status env) (sv_reported env)
     mode origin ''/dashboard''"
  have kept: "secret = old" if "keyring_get session_secret_name (sw_keyring w) = Some old \<and> old \<noteq> []" for old
    using e that by (cases old) (auto simp: ensure_session_secret_def)
  have w': "sw_keyring w' = sw_keyring w1" "\<forall>q. q \<noteq> pid_path env \<longrightarrow> sw_files w' q = sw_files w1 q"
    "sw_served w' \<noteq> sw_served w1 \<longrightarrow> sw_served w' = sw_served w1 @ [(host, port)] \<and> r = sv_server env \<and> sw_files w' (pid_path env) = None \<and>
      (\<exists>app. ?create = Inr app)"
    using assms(1) True e by (cases ?create; auto simp: start_local_onboarding_def)+
  have https: "startswith (rstrip_slash origin) ''https://''" if "?create = Inr app" for app
    using onboarding_sign_in_url [OF that] by blast
  from w' p kept https True show ?thesis by (intro conjI) auto
qed

text \<open>The unit that the installation writes runs \<open>reviewer start\<close> without options.  Where the environment does not name
  the hosted origin, that command ends at once with exit code 1 and serves nothing.\<close>

theorem installed_unit_cannot_start:
  "service_main env browser_opens Service_Start (default_options None) w = (Inr 1, w)"
  by (simp add: default_options_def)

text \<open>A path that needs administrator rights is refused only below two directories.\<close>

theorem system_paths_are_accepted:
  "fst (install_user_service ''linux'' ''/home/u'' (Some ''/usr/lib/systemd/system/pr-reviewer.service'') w) =
     Inr ''/usr/lib/systemd/system/pr-reviewer.service''"
proof -
  have "refuse_system_path ''/usr/lib/systemd/system/pr-reviewer.service'' = Inr ()" by code_simp
  then show ?thesis by (simp add: install_user_service_def)
qed

section \<open>Leaving\<close>

text \<open>A logout with the confirmation always forgets the credential, whatever the hosted side answers and whether or not it
  can be reached; without it, or when there is nothing to forget, nothing happens.\<close>

theorem logout_forgets_the_credential:
  "logout_main yes env_origin revoke secrets = (code, calls, secrets') \<Longrightarrow>
     (code = 0 \<longleftrightarrow> yes \<and> keyring_get ''runner_credential'' secrets \<notin> {None, Some []}) \<and>
     (code = 0 \<longrightarrow> keyring_get ''runner_credential'' secrets' = None) \<and>
     (code \<noteq> 0 \<longrightarrow> secrets' = secrets \<and> calls = []) \<and>
     (\<forall>name. name \<noteq> ''runner_credential'' \<longrightarrow> keyring_get name secrets' = keyring_get name secrets)"
  by (auto simp: logout_main_def log_out_def keyring.get_delete keyring.get_delete_apart split: option.splits list.splits if_splits sum.splits)

lemma keyring_deletes: "keyring_get name (fold keyring_delete ns k) = (if name \<in> set ns then None else keyring_get name k)"
  by (induction ns arbitrary: k) (auto simp: keyring_delete_def keyring_get_def)

text \<open>Data is deleted only with both options.  Then the four secrets and the local database file are gone and every other
  secret and file is as before; in every other case nothing at all changes.\<close>

theorem uninstall_deletes_only_when_confirmed:
  "uninstall_main data_dir delete_data confirm_delete w = (code, w') \<Longrightarrow>
     (code = 1 \<longleftrightarrow> delete_data \<and> \<not> confirm_delete) \<and>
     (if delete_data \<and> confirm_delete
      then (\<forall>name. keyring_get name (sw_keyring w') = (if name \<in> set secret_names then None else keyring_get name (sw_keyring w))) \<and>
           sw_files w' = (sw_files w)(data_dir @ ''/local_state.sqlite3'' := None)
      else w' = w)"
  by (auto simp: uninstall_main_def uninstall_runner_def keyring_deletes split: if_splits)

section \<open>The doctor's verdict\<close>

theorem doctor_verdict:
  "fst (doctor_run p requested assume_yes answer) = 0 \<longleftrightarrow>
     requested = Full \<and> full_mode_ready (container_probe.truncate p) \<or> assume_yes \<or> py_lower (py_strip answer) \<in> {''y'', ''yes''}"
  by (auto simp: doctor_run_def Let_def select_runtime_mode_exact(1) prompt_confirm_def)

theorem doctors_agree_on_the_mode:
  "run_doctor http_get origin paired key in_use free p requested confirm = Inr report \<Longrightarrow>
     dr_granted_mode report = md_granted_mode (select_runtime_mode p requested) \<and>
     (dr_granted_mode report = Full \<longleftrightarrow> dr_disabled_features report = []) \<and>
     (dr_granted_mode report = Full \<longrightarrow> fst (doctor_run p requested assume_yes answer) = 0)"
  by (auto simp: run_doctor_def doctor_run_def Let_def select_runtime_mode_exact(6) split: if_splits)

end
