(* ===== verification/Spec2Isabelle.thy ===== *)
theory Spec2Isabelle
  imports Job_Lifecycle Hosted_Api Budgets Workflow Runner_Service Sandbox Trace Retry Model_Calls Holdout Retrieval Code_Graph Repo_Profile Connectors
    Worker Agent_Protocols Hosted_Ops Local_Dashboard Runner_Files Receipts Terminal Local_Service
begin

text \<open>
  Verification of the pull request reviewer.

  \<^bold>\<open>The program.\<close>  A hosted control plane receives GitHub webhooks, keeps a queue of review jobs and hands them out;
  runners that users install claim a job, read the pull request, let a model review it, check the findings, post
  them and acknowledge.  The code is Python under \<^verbatim>\<open>src/src/pr_reviewer\<close>; the paths below are relative to it.  The two
  halves meet only in the job protocol (claim, heartbeat, acknowledge, token) and in the pairing and sign-in
  routes; each half keeps its own store, PostgreSQL in the control plane and SQLite on the runner.

  \<^bold>\<open>Shared theories.\<close>
  \<^item> \<open>Prelude\<close>: instants, exceptions as values (\<open>py_exn\<close>, \<open>result\<close>), SQL statements on lists of rows (\<open>update_where\<close>,
    \<open>rowcount\<close>, \<open>fetchone\<close>, \<open>first_by\<close>), dictionaries, computations on a world (\<open>act\<close>), and the locales
    \<open>invariant_system\<close> and \<open>absorbing_system\<close> for step relations.
  \<^item> \<open>Py_Strings\<close>: the string methods of Python, numerals and their round trips.

  \<^bold>\<open>Control plane.\<close>
  \<^item> \<open>Hosted_Db\<close>: JSON values, the tables as records of rows in one \<open>hosted_db\<close>, \<open>events/record_event.py\<close>.
  \<^item> \<open>Github_Delivery\<close>: \<open>github/\<close> and \<open>contracts/github.py\<close>, signature check and webhook contract.
  \<^item> \<open>Review_Jobs\<close>: \<open>jobs/\<close>, enqueue, claim, fail, complete, cancel, requeue, with the queue invariant \<open>queue_ok\<close>.
  \<^item> \<open>Repository_Policy\<close>: \<open>control_plane/repository_policy.py\<close>, \<open>runner_auth.py\<close>, \<open>installation_lifecycle.py\<close>.
  \<^item> \<open>Runner_Jobs\<close>: \<open>control_plane/runner_jobs.py\<close>, \<open>token_broker.py\<close>, \<open>installation_token.py\<close>.
  \<^item> \<open>Pairing\<close>, \<open>Sign_In\<close>: \<open>control_plane/pairing.py\<close>, \<open>github_oauth.py\<close>, \<open>github_auth.py\<close> and their routes.
  \<^item> \<open>Review_Projection\<close>: \<open>control_plane/review_projection.py\<close> and \<open>retention.py\<close>.
  \<^item> \<open>Hosted_Api\<close>: \<open>control_plane/app.py\<close> and \<open>pairing_api.py\<close>, the webhook route with its answers.
  \<^item> \<open>Budgets\<close>: \<open>reliability/budget.py\<close>, \<open>control_plane/budget.py\<close>, \<open>events/record_model_call.py\<close>.
  \<^item> \<open>Job_Lifecycle\<close>: every writer of the queue as one step relation; the invariants by rule induction over it.
  \<^item> \<open>Worker\<close>: \<open>worker/main.py\<close>, a round of the hosted worker over the queue with its lease renewals.
  \<^item> \<open>Hosted_Ops\<close>: \<open>control_plane/boundary.py\<close>, \<open>ops.py\<close>, \<open>notification_channels.py\<close>, \<open>db/migrate.py\<close> and the rebase of checksums.

  \<^bold>\<open>Runner.\<close>
  \<^item> \<open>Pull_Request\<close>, \<open>Prompt_Boundaries\<close>, \<open>Diff_Review\<close>, \<open>Aggregate\<close>: \<open>github/pull_request.py\<close>, \<open>security/prompt_boundaries.py\<close>,
    \<open>reviewer/\<close>: reading a pull request, quoting untrusted text, rendering and packing the diff, the review by one
    agent or by specialists, aggregation of findings.
  \<^item> \<open>Model_Calls\<close>, \<open>Retry\<close>: \<open>models/\<close> and \<open>reliability/\<close>: adapters, prices, catalogue, failures, retries, circuits.
  \<^item> \<open>Posting\<close>: \<open>github/post_review.py\<close>, policy and instruction files.
  \<^item> \<open>Sandbox\<close>: \<open>containers/\<close> and \<open>verification/docker_sandbox.py\<close>.
  \<^item> \<open>Workflow\<close>: \<open>workflow/\<close>, the durable store of steps and the two engines.
  \<^item> \<open>Local_Store\<close>: \<open>local_store/sqlite.py\<close>, \<open>local_store/budget.py\<close>, \<open>security/retention.py\<close>.
  \<^item> \<open>Daemon\<close>: \<open>runner/client.py\<close>, \<open>revocation.py\<close>, \<open>secrets.py\<close>, \<open>daemon.py\<close>.
  \<^item> \<open>Runner_Service\<close>: the daemon over the control plane's routes, JSON on the wire in both directions.
  \<^item> \<open>Trace\<close>: \<open>observability/trace.py\<close> over both stores.
  \<^item> \<open>Chunking\<close>, \<open>Retrieval\<close>, \<open>Code_Graph\<close>, \<open>Repo_Profile\<close>: \<open>retrieval/\<close>, windows of lines, indexing by generations and hybrid
    search, the call graph and its walk, the profile of a repository.
  \<^item> \<open>Connector_Audit\<close>, \<open>Connectors\<close>: \<open>connectors/\<close>, what the connectors may record and how they call out.
  \<^item> \<open>Local_Config\<close>: \<open>local_store/repo_config.py\<close>, \<open>review_log.py\<close> and the prompt files, as JSON documents.
  \<^item> \<open>Vector_Store\<close>: \<open>runner/modes.py\<close>, \<open>secrets.py\<close> and the database container of \<open>local_store/postgres.py\<close>.
  \<^item> \<open>Runner_Files\<close>: \<open>runner/repository_fallback.py\<close> over a file system with links, \<open>runner/update.py\<close>.
  \<^item> \<open>Receipts\<close>: \<open>reviewer/receipt.py\<close>, \<open>read_order.py\<close>, \<open>context_budget.py\<close>, \<open>foodspector_policy.py\<close>.

  \<^bold>\<open>Surfaces of the runner.\<close>
  \<^item> \<open>Agent_Surfaces\<close>, \<open>Agent_Protocols\<close>: \<open>agent_surfaces/\<close>, the live review behind one interface and the protocols MCP, ACP,
    A2A and JSON over it, with the session loop and the review command.
  \<^item> \<open>Local_Dashboard\<close>: \<open>web/\<close> and \<open>runner/web/local_auth.py\<close>, the dashboard and the onboarding app on the loopback interface.
  \<^item> \<open>Terminal\<close>: the logic of \<open>tui/\<close>, automatic reviews, the pushed summary, the list of reviews, the wait for pairing.
  \<^item> \<open>Local_Service\<close>: \<open>runner/cli/\<close> and \<open>cli/doctor.py\<close>, start and stop, logout, uninstall, doctor; \<open>tui/github_connect.py\<close>.

  \<^bold>\<open>Evaluation.\<close>
  \<^item> \<open>Evals\<close>, \<open>Holdout\<close>: \<open>evals/\<close>, matching, metrics, gates, reports, and the dialogue that judges mined cases.

  \<^bold>\<open>How state and effects are modelled.\<close>  A table is the list of its rows; a statement with its guards is one function
  on the record of tables, and a transaction that raises leaves the tables as they were.  Concurrent transactions
  are interleaved as whole steps, with the rows that another transaction holds locked given to \<open>skip locked\<close> as a
  set.  Instants are integers of microseconds.  Code outside the repository is an argument: HTTP clients, GitHub, model
  providers, Docker, git, JSON text, digests, random tokens, clocks.  Where a theorem needs something of it, the
  hypothesis is named in the statement and a witness instantiates it.

  \<^bold>\<open>What is shown.\<close>  Of the queue: at most one live job for a pull request, an unexpired lease is exclusive, a settled
  job is never touched, redelivery is idempotent, only the holder of a lease acknowledges and only once.  Of the
  access rules: a runner is authorized exactly for what is assigned to it, codes and states are spent once, tokens
  are scoped, reads are scoped.  Of the runner: a finished result is not lost, a poll round settles the job on both
  sides, only gated findings are posted, sandbox runs are isolated, a resumed workflow repeats no completed step,
  erasure is exact.  Of the review: untrusted text stays quoted, the packed diff keeps its budget, line numbers agree,
  findings lie on changed lines.  Of the surfaces: four protocols give one answer, a session answers every line, the
  dashboard answers signed loopback sessions for its own jobs, a clone stays inside its directory and its size, a
  head is reviewed once while the terminal is open, and passwords, keys and tokens do not reach answers, command
  lines or the audit.  Of the database: migrations apply once and in order.  Of limits: budgets are exact ledgers, retries and pages end within their bounds,
  a call is priced for its tokens.  Of observation: the trace is ordered by what was recorded, secrets are masked.  Of
  the evaluation: matching is maximal, rates are rates, no case without a human.

  \<^bold>\<open>Interfaces.\<close>  The locales state what one part relies on: \<open>invariant_system\<close> for step relations (interpreted on the queue,
  the budget ledger and the index), \<open>absorbing_system\<close> (on settled jobs), \<open>workflow_store\<close> (on the SQLite tables), \<open>secret_store\<close> (on
  the keyring and on the files), \<open>review_backend\<close> (on the live backend) and \<open>confined\<close> (on the scanners of the audit).

  \<^bold>\<open>Bounds and fuel.\<close>  Loops are total functions with a measure: pages of a listing, retries (attempts left), prompts
  (lines left), the strip of quote markers (length), path resolution (links left, then components).  The poll loop of the
  daemon takes the number of rounds until the stop event; its properties are about one round.  The wait for pairing has a
  bound on its polls, and it is shown that the deadline divided by the interval and one more is enough; a resolution
  that returns does so for every larger number of links.  The numbers of GitHub's API and of money are unbounded integers
  and exact rationals; where a column has a width the check is written out (\<open>in_integer\<close>, \<open>in_bigint\<close>).

  \<^bold>\<open>Not modelled.\<close>  The widgets and key bindings of \<open>tui/app.py\<close> and \<open>tui/screens\<close>, argument parsing and help texts of the
  command lines, HTML pages, settings and the connection pool (\<open>config.py\<close>, \<open>db/client.py\<close>), the registry of refusals that
  reads the repository's own syntax trees (\<open>refusals.py\<close>), the checks of the build (\<open>supply_chain.py\<close>) and the queue
  benchmark.  Threads, file modes, pragmas, sockets and signals are I/O.
\<close>

end
